(* ===== verification/Prelude.thy ===== *)
theory Prelude
  imports
    Main
    "HOL-Library.AList"
    "HOL-Library.Multiset"
    "HOL-Library.Char_ord"
    "HOL-Library.List_Lexorder"
    "HOL-Library.Product_Lexorder"
begin

text \<open>
  What every theory of the development shares: the exceptions of the program as values, the
  error monad they travel in, Python's naive and timezone-aware datetimes, truthiness of optional
  strings, insertion-ordered dictionaries, and SQL tables as lists of rows with a primary key.
  The collections \<open>table_simps\<close> and \<open>time_simps\<close> gather the rewrite rules that the component
  proofs give to \<open>simp\<close> and \<open>auto\<close>.
\<close>

named_theorems table_simps
named_theorems time_simps

section \<open>Exceptions and the error monad\<close>

text \<open>
  One constructor for each exception class the modelled code raises, carrying the message.
\<close>

datatype exn =
    LeaseError string
  | ValueError string
  | KeyError string
  | TypeError string
  | RuntimeError string
  | StaleTaskLease string
  | IdempotencyConflict string
  | IntegrityError string
  | OutboxIntegrityError string
  | JobIntegrityError string
  | CheckpointValidationError string
  | ArtifactIntegrityError string
  | SnapshotIntegrityError string
  | PublicationConflictError string
  | ProviderError string

type_synonym 'a result = "exn + 'a"

text \<open>
  \<open>try_bind m f\<close> is a statement that may raise followed by the rest of the body: an exception
  ends the body, a value is passed on. \<open>ensure c e\<close> is \<open>if not c: raise e\<close>.
\<close>

definition try_bind :: "'e + 'a \<Rightarrow> ('a \<Rightarrow> 'e + 'b) \<Rightarrow> 'e + 'b" where
  "try_bind m f = (case m of Inl e \<Rightarrow> Inl e | Inr x \<Rightarrow> f x)"

definition ensure :: "bool \<Rightarrow> 'e \<Rightarrow> 'e + unit" where
  "ensure c e = (if c then Inr () else Inl e)"

lemma try_bind_simps [simp]:
  "try_bind (Inl e) f = Inl e"
  "try_bind (Inr x) f = f x"
  by (simp_all add: try_bind_def)

lemma try_bind_Inr_iff: "try_bind m f = Inr y \<longleftrightarrow> (\<exists>x. m = Inr x \<and> f x = Inr y)"
  by (cases m) simp_all

lemma try_bind_Inl_iff:
  "try_bind m f = Inl e \<longleftrightarrow> m = Inl e \<or> (\<exists>x. m = Inr x \<and> f x = Inl e)"
  by (cases m) simp_all

lemma try_bind_split:
  "P (try_bind m f) \<longleftrightarrow>
     (\<forall>e. m = Inl e \<longrightarrow> P (Inl e)) \<and> (\<forall>x. m = Inr x \<longrightarrow> P (f x))"
  by (cases m) simp_all

lemma ensure_simps [simp]:
  "ensure True e = Inr ()"
  "ensure False e = Inl e"
  "(ensure c e = Inr u) = c"
  "(ensure c e = Inl e') = (\<not> c \<and> e' = e)"
  by (auto simp: ensure_def)

text \<open>A list comprehension or loop body that may raise: the first exception ends the loop.\<close>

fun mapM :: "('a \<Rightarrow> 'e + 'b) \<Rightarrow> 'a list \<Rightarrow> 'e + 'b list" where
  "mapM f [] = Inr []"
| "mapM f (x # xs) = try_bind (f x) (\<lambda>y. try_bind (mapM f xs) (\<lambda>ys. Inr (y # ys)))"

fun foldM :: "('s \<Rightarrow> 'a \<Rightarrow> 'e + 's) \<Rightarrow> 's \<Rightarrow> 'a list \<Rightarrow> 'e + 's" where
  "foldM f s [] = Inr s"
| "foldM f s (x # xs) = try_bind (f s x) (\<lambda>s'. foldM f s' xs)"

lemma foldM_append: "foldM f s (xs @ ys) = try_bind (foldM f s xs) (\<lambda>s'. foldM f s' ys)"
  by (induction xs arbitrary: s) (auto split: try_bind_split)

lemma foldM_invariant:
  assumes "foldM f s xs = Inr s'" and "I s"
    and "\<And>s x t. I s \<Longrightarrow> x \<in> set xs \<Longrightarrow> f s x = Inr t \<Longrightarrow> I t"
  shows "I s'"
  using assms
proof (induction xs arbitrary: s)
  case Nil
  then show ?case by simp
next
  case (Cons x xs)
  from Cons.prems(1) obtain t where t: "f s x = Inr t" and rest: "foldM f t xs = Inr s'"
    by (auto simp: try_bind_Inr_iff)
  have "I t" by (rule Cons.prems(3) [OF Cons.prems(2) _ t]) simp
  with rest show ?case
  proof (rule Cons.IH)
    show "I t'" if "I u" "y \<in> set xs" "f u y = Inr t'" for u y t'
      by (rule Cons.prems(3) [OF that(1) _ that(3)]) (simp add: that(2))
  qed
qed

lemma mapM_Inr_length: "mapM f xs = Inr ys \<Longrightarrow> length ys = length xs"
  by (induction xs arbitrary: ys) (auto simp: try_bind_Inr_iff)

lemma mapM_Inr_nth:
  "mapM f xs = Inr ys \<Longrightarrow> i < length xs \<Longrightarrow> f (xs ! i) = Inr (ys ! i)"
proof (induction xs arbitrary: ys i)
  case Nil
  then show ?case by simp
next
  case (Cons x xs)
  then obtain z zs where z: "f x = Inr z" "mapM f xs = Inr zs" "ys = z # zs"
    by (auto simp: try_bind_Inr_iff)
  show ?case
  proof (cases i)
    case 0
    with z show ?thesis by simp
  next
    case (Suc j)
    with Cons z show ?thesis by simp
  qed
qed

section \<open>Datetimes\<close>

text \<open>
  A Python \<open>datetime\<close> is naive (wall-clock microseconds, no zone) or aware (its instant in UTC
  microseconds and the UTC offset it is written in). The program reads a naive value as UTC:
  that is \<open>as_utc\<close>, the \<open>value if value.tzinfo is not None else value.replace(tzinfo=UTC)\<close> that
  it repeats at every boundary. Comparison of aware values is comparison of instants.
\<close>

datatype pydt = Naive int | Aware int int

type_synonym instant = int

fun as_utc :: "pydt \<Rightarrow> pydt" where
  "as_utc (Naive t) = Aware t 0"
| "as_utc (Aware t off) = Aware t off"

fun instant_of :: "pydt \<Rightarrow> instant" where
  "instant_of (Naive t) = t"
| "instant_of (Aware t off) = t"

fun add_delta :: "pydt \<Rightarrow> int \<Rightarrow> pydt" where
  "add_delta (Naive t) d = Naive (t + d)"
| "add_delta (Aware t off) d = Aware (t + d) off"

fun utc_offset :: "pydt \<Rightarrow> int option" where
  "utc_offset (Naive t) = None"
| "utc_offset (Aware t off) = Some off"

definition second_us :: int where
  "second_us = 1000000"

definition seconds :: "int \<Rightarrow> int" where
  "seconds n = n * second_us"

lemma instant_as_utc [simp, time_simps]: "instant_of (as_utc x) = instant_of x"
  by (cases x) simp_all

lemma instant_add_delta [simp, time_simps]: "instant_of (add_delta x d) = instant_of x + d"
  by (cases x) simp_all

lemma as_utc_idem [simp, time_simps]: "as_utc (as_utc x) = as_utc x"
  by (cases x) simp_all

lemma seconds_mono [time_simps]: "seconds a \<le> seconds b \<longleftrightarrow> a \<le> b"
  by (simp add: seconds_def second_us_def)

lemma seconds_pos [time_simps]: "0 < seconds n \<longleftrightarrow> 0 < n"
  by (simp add: seconds_def second_us_def)

section \<open>Truthiness and optional strings\<close>

text \<open>\<open>None\<close> and the empty string are falsy; \<open>a or b\<close> on optional strings picks the first truthy.\<close>

definition truthy :: "string option \<Rightarrow> bool" where
  "truthy s = (case s of None \<Rightarrow> False | Some x \<Rightarrow> x \<noteq> [])"

definition str_or :: "string option \<Rightarrow> string \<Rightarrow> string" where
  "str_or s d = (case s of None \<Rightarrow> d | Some x \<Rightarrow> if x = [] then d else x)"

lemma truthy_simps [simp]:
  "\<not> truthy None"
  "truthy (Some x) = (x \<noteq> [])"
  by (simp_all add: truthy_def)

lemma str_or_simps [simp]:
  "str_or None d = d"
  "str_or (Some x) d = (if x = [] then d else x)"
  by (simp_all add: str_or_def)

section \<open>SQL tables\<close>

text \<open>
  A table is the list of its rows in insertion order; \<open>key\<close> reads the primary key.
  \<open>row_get\<close> is \<open>session.get\<close>, \<open>row_put\<close> writes a changed row back, \<open>row_add\<close> inserts.
\<close>

definition row_get :: "('r \<Rightarrow> 'k) \<Rightarrow> 'k \<Rightarrow> 'r list \<Rightarrow> 'r option" where
  "row_get key k rows = find (\<lambda>r. key r = k) rows"

definition row_put :: "('r \<Rightarrow> 'k) \<Rightarrow> 'r \<Rightarrow> 'r list \<Rightarrow> 'r list" where
  "row_put key r rows = map (\<lambda>x. if key x = key r then r else x) rows"

definition row_add :: "'r \<Rightarrow> 'r list \<Rightarrow> 'r list" where
  "row_add r rows = rows @ [r]"

definition keys_distinct :: "('r \<Rightarrow> 'k) \<Rightarrow> 'r list \<Rightarrow> bool" where
  "keys_distinct key rows \<longleftrightarrow> distinct (map key rows)"

lemma find_Some_in: "find P xs = Some x \<Longrightarrow> P x \<and> x \<in> set xs"
  by (auto simp: find_Some_iff)

lemma row_get_Some_key: "row_get key k rows = Some r \<Longrightarrow> key r = k \<and> r \<in> set rows"
  by (auto simp: row_get_def find_Some_iff)

lemma row_get_None: "row_get key k rows = None \<longleftrightarrow> k \<notin> key ` set rows"
  by (auto simp: row_get_def find_None_iff)

lemma row_get_Nil [simp, table_simps]: "row_get key k [] = None"
  by (simp add: row_get_def)

lemma row_get_Cons [simp, table_simps]:
  "row_get key k (r # rows) = (if key r = k then Some r else row_get key k rows)"
  by (simp add: row_get_def)

lemma row_put_keys [simp, table_simps]: "map key (row_put key r rows) = map key rows"
  by (auto simp: row_put_def)

lemma keys_distinct_put [simp, table_simps]:
  "keys_distinct key (row_put key r rows) = keys_distinct key rows"
  by (simp only: keys_distinct_def row_put_keys)

lemma row_get_put [table_simps]:
  "row_get key k (row_put key r rows) =
     (if k = key r then map_option (\<lambda>_. r) (row_get key k rows) else row_get key k rows)"
  by (induction rows) (auto simp: row_put_def)

lemma row_get_append:
  "row_get key k (xs @ ys) = (case row_get key k xs of Some x \<Rightarrow> Some x | None \<Rightarrow> row_get key k ys)"
  by (induction xs) auto

lemma row_get_add [table_simps]:
  "row_get key k (row_add r rows) =
     (case row_get key k rows of Some x \<Rightarrow> Some x | None \<Rightarrow> if key r = k then Some r else None)"
  by (induction rows) (auto simp: row_add_def)

lemma keys_distinct_add [table_simps]:
  "keys_distinct key (row_add r rows) \<longleftrightarrow> keys_distinct key rows \<and> row_get key (key r) rows = None"
  by (auto simp: keys_distinct_def row_add_def row_get_None)

lemma row_get_member:
  "keys_distinct key rows \<Longrightarrow> r \<in> set rows \<Longrightarrow> row_get key (key r) rows = Some r"
  by (induction rows) (auto simp: keys_distinct_def)

lemma set_row_put: "x \<in> set (row_put key r rows) \<Longrightarrow> x = r \<or> x \<in> set rows"
  by (auto simp: row_put_def split: if_splits)

text \<open>Writing back a batch of changed rows: each selected row gets its new version.\<close>

lemma row_get_puts:
  "row_get key k (foldl (\<lambda>t r. row_put key r t) tbl (map f rs)) =
     map_option (\<lambda>x. case find (\<lambda>r. key (f r) = k) (rev rs) of None \<Rightarrow> x | Some r \<Rightarrow> f r) (row_get key k tbl)"
proof (induction rs rule: rev_induct)
  case Nil
  then show ?case by (simp add: option.map_ident)
next
  case (snoc r rs)
  then show ?case by (auto simp: row_get_put option.map_comp comp_def)
qed

lemma keys_distinct_puts [simp]:
  "keys_distinct key (foldl (\<lambda>t r. row_put key r t) tbl rs) = keys_distinct key tbl"
  by (induction rs arbitrary: tbl) simp_all

lemma row_get_batch:
  assumes "keys_distinct key tbl" and "row_get key k tbl = Some r" and "set rs \<subseteq> set tbl"
    and "\<And>x. key (f x) = key x"
  shows "row_get key k (foldl (\<lambda>t r. row_put key r t) tbl (map f rs)) = Some (if r \<in> set rs then f r else r)"
proof -
  have id: "key r = k" using assms(2) by (auto dest: row_get_Some_key)
  have same: "x = r" if "x \<in> set rs" "key x = k" for x
    using row_get_member [OF assms(1), of x] assms(3) that assms(2) by auto
  have "find (\<lambda>x. key (f x) = k) (rev rs) = (if r \<in> set rs then Some r else None)"
  proof (cases "r \<in> set rs")
    case True
    then have "find (\<lambda>x. key x = k) (rev rs) \<noteq> None" using id by (auto simp: find_None_iff)
    then obtain x where "find (\<lambda>x. key x = k) (rev rs) = Some x" by blast
    moreover from find_Some_in [OF this] have "x = r" by (intro same) simp_all
    ultimately show ?thesis using True by (simp add: assms(4))
  next
    case False
    then show ?thesis using same by (auto simp: find_None_iff assms(4))
  qed
  then show ?thesis by (simp add: row_get_puts assms(2))
qed

text \<open>An \<open>UPDATE\<close> of every row that satisfies a condition, keeping primary keys.\<close>

lemma row_get_map:
  assumes "\<And>r. key (f r) = key r"
  shows "row_get key k (map f rows) = map_option f (row_get key k rows)"
  using assms by (induction rows) auto

section \<open>Dictionaries\<close>

text \<open>
  A Python dict keeps insertion order; assigning an existing key keeps its position. That is
  \<open>AList.update\<close>, and \<open>dict_of_pairs\<close> is the comprehension \<open>{k: v for k, v in pairs}\<close>.
\<close>

definition dict_of_pairs :: "('k \<times> 'v) list \<Rightarrow> ('k \<times> 'v) list" where
  "dict_of_pairs kvs = foldl (\<lambda>d (k, v). AList.update k v d) [] kvs"

lemma foldl_update_map_of:
  "map_of (foldl (\<lambda>d (k, v). AList.update k v d) d kvs) = map_of d ++ map_of (rev kvs)"
  by (induction kvs arbitrary: d)
     (auto simp: update_conv' map_add_def fun_eq_iff split: option.splits)

lemma update_fresh: "k \<notin> fst ` set d \<Longrightarrow> AList.update k v d = d @ [(k, v)]"
  by (induction d) auto

lemma map_of_dict_of_pairs: "map_of (dict_of_pairs kvs) = map_of (rev kvs)"
  by (simp add: dict_of_pairs_def foldl_update_map_of)

lemma dict_of_pairs_distinct: "distinct (map fst kvs) \<Longrightarrow> dict_of_pairs kvs = kvs"
proof -
  have "foldl (\<lambda>d (k, v). AList.update k v d) d kvs = d @ kvs"
    if "distinct (map fst (d @ kvs))" for d :: "('a \<times> 'b) list"
    using that
  proof (induction kvs arbitrary: d)
    case Nil
    then show ?case by simp
  next
    case (Cons kv kvs)
    obtain k v where kv: "kv = (k, v)" by (cases kv)
    have "k \<notin> fst ` set d" using Cons.prems kv by auto
    then have "AList.update k v d = d @ [(k, v)]" by (rule update_fresh)
    moreover have "distinct (map fst ((d @ [(k, v)]) @ kvs))" using Cons.prems kv by simp
    ultimately show ?case using Cons.IH [of "d @ [(k, v)]"] kv by simp
  qed
  then show "distinct (map fst kvs) \<Longrightarrow> ?thesis" by (simp add: dict_of_pairs_def)
qed

lemma distinct_dict_of_pairs: "distinct (map fst (dict_of_pairs kvs))"
proof -
  have "distinct (map fst (foldl (\<lambda>d (k, v). AList.update k v d) d kvs))"
    if "distinct (map fst d)" for d :: "('a \<times> 'b) list"
    using that by (induction kvs arbitrary: d) (auto simp: distinct_update)
  then show ?thesis by (simp add: dict_of_pairs_def)
qed

section \<open>Sorting by a key\<close>

text \<open>With distinct keys the sorted list depends on the elements only, not on their order.\<close>

lemma sort_key_set_unique:
  assumes "set xs = set ys" and "distinct (map f xs)" and "distinct (map f ys)"
  shows "sort_key f xs = sort_key f ys"
proof (rule map_sorted_distinct_set_unique [where f = f])
  show "inj_on f (set (sort_key f xs) \<union> set (sort_key f ys))"
    using assms by (simp add: distinct_map)
  show "distinct (map f (sort_key f xs))" "distinct (map f (sort_key f ys))"
    using assms(2,3) by (simp_all add: distinct_map)
qed (use assms in simp_all)

end
