(* ===== verification/Json.thy ===== *)
theory Json
  imports Prelude
begin

text \<open>
  JSON payloads and their canonical text. \<open>canonical_json\<close> (\<open>domain/artifacts.py\<close>) is
  \<open>json.dumps\<close> with sorted keys, the separators \<open>,\<close> and \<open>:\<close> and \<open>ensure_ascii=False\<close>; every
  content-addressed identity of the program is the SHA-256 of such a text. A float is carried as
  the token \<open>float.__repr__\<close> prints; what such a token looks like is \<open>float_token\<close>.
  The main result is that the text determines the payload up to the order of dictionary keys.
\<close>

datatype json =
    JNull
  | JBool bool
  | JInt int
  | JFloat string
  | JStr string
  | JArr "json list"
  | JObj "(string \<times> json) list"

type_synonym pydict = "(string \<times> json) list"

section \<open>Tokens\<close>

definition digit_char :: "nat \<Rightarrow> char" where
  "digit_char d = char_of (48 + d)"

fun nat_str :: "nat \<Rightarrow> string" where
  "nat_str n = (if n < 10 then [digit_char n] else nat_str (n div 10) @ [digit_char (n mod 10)])"

declare nat_str.simps [simp del]

definition int_str :: "int \<Rightarrow> string" where
  "int_str i = (if i < 0 then CHR ''-'' # nat_str (nat (- i)) else nat_str (nat i))"

definition hex_char :: "nat \<Rightarrow> char" where
  "hex_char d = (if d < 10 then char_of (48 + d) else char_of (87 + d))"

definition esc_char :: "char \<Rightarrow> string" where
  "esc_char c =
     (if c = CHR 0x22 then [CHR 0x5C, CHR 0x22]
      else if c = CHR 0x5C then [CHR 0x5C, CHR 0x5C]
      else if c = CHR 0x0A then [CHR 0x5C, CHR ''n'']
      else if c = CHR 0x0D then [CHR 0x5C, CHR ''r'']
      else if c = CHR 0x09 then [CHR 0x5C, CHR ''t'']
      else if c = CHR 0x08 then [CHR 0x5C, CHR ''b'']
      else if c = CHR 0x0C then [CHR 0x5C, CHR ''f'']
      else if (of_char c :: nat) < 32
        then [CHR 0x5C, CHR ''u'', CHR ''0'', CHR ''0'',
              hex_char (of_char c div 16), hex_char (of_char c mod 16)]
      else [c])"

fun esc_str :: "string \<Rightarrow> string" where
  "esc_str [] = []"
| "esc_str (c # cs) = esc_char c @ esc_str cs"

definition quote_str :: "string \<Rightarrow> string" where
  "quote_str s = [CHR 0x22] @ esc_str s @ [CHR 0x22]"

section \<open>Rendering and canonical form\<close>

fun render :: "json \<Rightarrow> string"
  and render_items :: "json list \<Rightarrow> string"
  and render_fields :: "(string \<times> json) list \<Rightarrow> string" where
  "render JNull = ''null''"
| "render (JBool b) = (if b then ''true'' else ''false'')"
| "render (JInt i) = int_str i"
| "render (JFloat tok) = tok"
| "render (JStr s) = quote_str s"
| "render (JArr xs) = ''['' @ render_items xs"
| "render (JObj kvs) = [CHR 0x7B] @ render_fields kvs"
| "render_items [] = '']''"
| "render_items [x] = render x @ '']''"
| "render_items (x # y # ys) = render x @ '','' @ render_items (y # ys)"
| "render_fields [] = [CHR 0x7D]"
| "render_fields [(k, v)] = quote_str k @ '':'' @ render v @ [CHR 0x7D]"
| "render_fields ((k, v) # kv # kvs) =
     quote_str k @ '':'' @ render v @ '','' @ render_fields (kv # kvs)"

fun canon :: "json \<Rightarrow> json" where
  "canon (JArr xs) = JArr (map canon xs)"
| "canon (JObj kvs) = JObj (sort_key fst (map (\<lambda>(k, v). (k, canon v)) kvs))"
| "canon x = x"

definition canonical_json :: "json \<Rightarrow> string" where
  "canonical_json x = render (canon x)"

section \<open>Well-formed payloads\<close>

definition token_end :: "char \<Rightarrow> bool" where
  "token_end c \<longleftrightarrow> c = CHR '','' \<or> c = CHR '']'' \<or> c = CHR 0x7D"

definition int_char :: "char \<Rightarrow> bool" where
  "int_char c \<longleftrightarrow> c = CHR ''-'' \<or> (48 \<le> (of_char c :: nat) \<and> (of_char c :: nat) < 58)"

definition float_token :: "string \<Rightarrow> bool" where
  "float_token tok \<longleftrightarrow>
     tok \<noteq> [] \<and> (int_char (hd tok) \<or> hd tok = CHR ''N'' \<or> hd tok = CHR ''I'') \<and>
     list_all (\<lambda>c. \<not> token_end c) tok \<and> list_ex (\<lambda>c. \<not> int_char c) tok"

fun wf_json :: "json \<Rightarrow> bool" where
  "wf_json (JFloat tok) = float_token tok"
| "wf_json (JArr xs) = list_all wf_json xs"
| "wf_json (JObj kvs) = list_all (\<lambda>(k, v). wf_json v) kvs"
| "wf_json x = True"

section \<open>Integer tokens\<close>

definition str_nat :: "string \<Rightarrow> nat" where
  "str_nat s = foldl (\<lambda>a c. 10 * a + (of_char c - 48)) 0 s"

lemma of_digit_char: "d < 10 \<Longrightarrow> (of_char (digit_char d) :: nat) = 48 + d"
  by (simp add: digit_char_def of_char_of)

lemma str_nat_nat_str: "str_nat (nat_str n) = n"
proof (induction n rule: nat_str.induct)
  case (1 n)
  show ?case
  proof (cases "n < 10")
    case True
    then show ?thesis by (simp add: nat_str.simps str_nat_def of_digit_char)
  next
    case False
    with 1 have "str_nat (nat_str (n div 10)) = n div 10" by simp
    moreover have "str_nat (nat_str n) = 10 * str_nat (nat_str (n div 10)) + n mod 10"
      using False by (subst nat_str.simps) (simp add: str_nat_def of_digit_char)
    ultimately show ?thesis by simp
  qed
qed

lemma nat_str_digits: "list_all (\<lambda>c. 48 \<le> (of_char c :: nat) \<and> (of_char c :: nat) < 58) (nat_str n)"
proof (induction n rule: nat_str.induct)
  case (1 n)
  then show ?case
    by (cases "n < 10") (simp_all add: nat_str.simps [of n] of_digit_char)
qed

lemma nat_str_nonempty: "nat_str n \<noteq> []"
  by (subst nat_str.simps) simp

lemma int_str_chars: "list_all int_char (int_str i)"
  using nat_str_digits by (simp add: int_str_def int_char_def list_all_iff)

lemma int_str_nonempty: "int_str i \<noteq> []"
  by (simp add: int_str_def nat_str_nonempty)

lemma nat_str_hd: "hd (nat_str n) \<noteq> CHR ''-''"
  using nat_str_digits [of n] nat_str_nonempty [of n]
  by (cases "nat_str n") auto

lemma int_str_inj: "int_str i = int_str j \<Longrightarrow> i = j"
proof -
  assume eq: "int_str i = int_str j"
  show "i = j"
  proof (cases "i < 0 \<longleftrightarrow> j < 0")
    case True
    then have "nat_str (nat \<bar>i\<bar>) = nat_str (nat \<bar>j\<bar>)"
      using eq by (auto simp: int_str_def split: if_splits)
    then have "nat \<bar>i\<bar> = nat \<bar>j\<bar>" by (metis str_nat_nat_str)
    with True show ?thesis by auto
  next
    case False
    then show ?thesis
      using eq nat_str_hd [of "nat i"] nat_str_hd [of "nat j"]
      by (auto simp: int_str_def split: if_splits)
         (metis list.sel(1))+
  qed
qed

lemma int_char_not_end: "int_char c \<Longrightarrow> \<not> token_end c"
  by (auto simp: int_char_def token_end_def)

section \<open>String tokens\<close>

definition hex_val :: "char \<Rightarrow> nat" where
  "hex_val c = (if of_char c < (58 :: nat) then of_char c - 48 else of_char c - 87)"

lemma hex_val_char: "d < 16 \<Longrightarrow> hex_val (hex_char d) = d"
  by (auto simp: hex_val_def hex_char_def of_char_of)

definition unesc :: "string \<Rightarrow> (char \<times> string) option" where
  "unesc s = (case s of
      [] \<Rightarrow> None
    | c # r \<Rightarrow>
       (if c \<noteq> CHR 0x5C then Some (c, r)
        else (case r of
            [] \<Rightarrow> None
          | d # r' \<Rightarrow>
             (if d = CHR 0x22 then Some (CHR 0x22, r')
              else if d = CHR 0x5C then Some (CHR 0x5C, r')
              else if d = CHR ''n'' then Some (CHR 0x0A, r')
              else if d = CHR ''r'' then Some (CHR 0x0D, r')
              else if d = CHR ''t'' then Some (CHR 0x09, r')
              else if d = CHR ''b'' then Some (CHR 0x08, r')
              else if d = CHR ''f'' then Some (CHR 0x0C, r')
              else (case r' of
                  z1 # z2 # h1 # h2 # r'' \<Rightarrow> Some (char_of (16 * hex_val h1 + hex_val h2), r'')
                | _ \<Rightarrow> None)))))"

lemma unesc_esc_char: "unesc (esc_char c @ u) = Some (c, u)"
proof (cases "(of_char c :: nat) < 32")
  case True
  then have "hex_val (hex_char (of_char c div 16)) = of_char c div 16"
    by (intro hex_val_char) simp
  moreover have "hex_val (hex_char (of_char c mod 16)) = of_char c mod 16"
    by (intro hex_val_char) simp
  ultimately have "char_of (16 * hex_val (hex_char (of_char c div 16)) +
      hex_val (hex_char (of_char c mod 16))) = c"
    by (simp del: hex_val_def)
  with True show ?thesis by (simp add: esc_char_def unesc_def)
next
  case False
  then show ?thesis by (simp add: esc_char_def unesc_def)
qed

lemma esc_char_prefix: "esc_char c @ u = esc_char d @ v \<Longrightarrow> c = d \<and> u = v"
  by (metis unesc_esc_char option.inject prod.inject)

lemma esc_char_nonempty: "esc_char c \<noteq> []"
  by (simp add: esc_char_def)

lemma hd_esc_char: "hd (esc_char c) \<noteq> CHR 0x22"
  by (simp add: esc_char_def)

lemma esc_char_hd: "esc_char c @ u \<noteq> CHR 0x22 # v"
  using hd_esc_char [of c] esc_char_nonempty [of c] by (cases "esc_char c") auto

lemma esc_str_prefix:
  "esc_str s @ CHR 0x22 # u = esc_str t @ CHR 0x22 # v \<Longrightarrow> s = t \<and> u = v"
proof (induction s arbitrary: t)
  case Nil
  then show ?case by (cases t) (auto dest: esc_char_hd [THEN notE, OF sym])
next
  case (Cons c s)
  show ?case
  proof (cases t)
    case Nil
    with Cons.prems show ?thesis by (simp add: esc_char_hd)
  next
    case (Cons d t')
    with Cons.prems have "esc_char c @ (esc_str s @ CHR 0x22 # u) =
        esc_char d @ (esc_str t' @ CHR 0x22 # v)" by simp
    then have "c = d" and "esc_str s @ CHR 0x22 # u = esc_str t' @ CHR 0x22 # v"
      by (blast dest: esc_char_prefix)+
    with Cons Cons.IH show ?thesis by blast
  qed
qed

lemma quote_str_prefix: "quote_str s @ u = quote_str t @ v \<Longrightarrow> s = t \<and> u = v"
  using esc_str_prefix [of s u t v] by (simp add: quote_str_def)

section \<open>The text determines the payload\<close>

definition ends :: "string \<Rightarrow> bool" where
  "ends r \<longleftrightarrow> r = [] \<or> token_end (hd r)"

lemma ends_simps [simp]:
  "ends []"
  "ends (c # r) = token_end c"
  by (simp_all add: ends_def)

lemma token_end_simps [simp]:
  "token_end (CHR '','')" "token_end (CHR '']'')" "token_end (CHR 0x7D)"
  by (simp_all add: token_end_def)

lemma token_prefix:
  "list_all (\<lambda>c. \<not> token_end c) a \<Longrightarrow> list_all (\<lambda>c. \<not> token_end c) b \<Longrightarrow>
   ends r \<Longrightarrow> ends s \<Longrightarrow> a @ r = b @ s \<Longrightarrow> a = b \<and> r = s"
proof (induction a arbitrary: b)
  case Nil
  then show ?case by (cases b) auto
next
  case (Cons c a)
  then show ?case by (cases b) auto
qed

fun json_kind :: "json \<Rightarrow> nat" where
  "json_kind JNull = 0"
| "json_kind (JBool b) = (if b then 1 else 2)"
| "json_kind (JInt i) = 3"
| "json_kind (JFloat tok) = 3"
| "json_kind (JStr s) = 4"
| "json_kind (JArr xs) = 5"
| "json_kind (JObj kvs) = 6"

definition char_kind :: "char \<Rightarrow> nat" where
  "char_kind c =
     (if c = CHR ''n'' then 0 else if c = CHR ''t'' then 1 else if c = CHR ''f'' then 2
      else if c = CHR 0x22 then 4 else if c = CHR ''['' then 5 else if c = CHR 0x7B then 6 else 3)"

lemma int_char_kind: "int_char c \<Longrightarrow> char_kind c = 3"
  by (auto simp: int_char_def char_kind_def)

lemma render_hd: "wf_json x \<Longrightarrow> render x \<noteq> [] \<and> char_kind (hd (render x)) = json_kind x"
proof (cases x)
  case (JInt i)
  have "int_char (hd (int_str i))"
    using int_str_chars [of i] int_str_nonempty [of i] by (cases "int_str i") auto
  with JInt show ?thesis by (simp add: int_char_kind int_str_nonempty)
next
  case (JFloat tok)
  assume "wf_json x"
  with JFloat show ?thesis by (auto simp: float_token_def int_char_kind) (simp_all add: char_kind_def)
qed (simp_all add: char_kind_def quote_str_def)

lemma render_kind:
  "wf_json x \<Longrightarrow> wf_json y \<Longrightarrow> render x @ r = render y @ s \<Longrightarrow> json_kind x = json_kind y"
  using render_hd [of x] render_hd [of y] by (metis hd_append2)

lemma int_float_tokens: "float_token tok \<Longrightarrow> int_str i \<noteq> tok"
  using int_str_chars [of i] by (auto simp: float_token_def list_all_iff list_ex_iff)

lemma number_chars:
  "wf_json z \<Longrightarrow> json_kind z = 3 \<Longrightarrow> list_all (\<lambda>c. \<not> token_end c) (render z)"
  using int_str_chars
  by (cases z) (auto simp: float_token_def list_all_iff int_char_not_end split: if_splits)

lemma number_prefix:
  assumes "wf_json x" "wf_json y" "json_kind x = 3" "json_kind y = 3" "ends r" "ends s"
    and "render x @ r = render y @ s"
  shows "x = y \<and> r = s"
proof -
  have eq: "render x = render y" and "r = s"
    using token_prefix [OF number_chars number_chars] assms by blast+
  have "x = y"
  proof (cases x)
    case (JInt i)
    with eq assms show ?thesis
      by (cases y) (auto dest: int_str_inj int_float_tokens split: if_splits)
  next
    case (JFloat tok)
    with eq assms show ?thesis
      by (cases y) (auto dest: int_float_tokens split: if_splits)
  qed (use assms in \<open>auto split: if_splits\<close>)
  with \<open>r = s\<close> show ?thesis by simp
qed

lemma token_end_kind: "token_end c \<Longrightarrow> char_kind c = 3"
  by (auto simp: token_end_def char_kind_def)

lemma render_hd_not_end:
  assumes "wf_json x"
  shows "\<not> token_end (hd (render x @ r))"
proof -
  have ne: "render x \<noteq> []" and k: "char_kind (hd (render x)) = json_kind x"
    using render_hd [OF assms] by blast+
  have "\<not> token_end (hd (render x))"
  proof (cases "json_kind x = 3")
    case True
    then show ?thesis using number_chars [OF assms] ne by (cases "render x") auto
  next
    case False
    with k show ?thesis by (auto dest: token_end_kind)
  qed
  with ne show ?thesis by simp
qed

lemma items_first: "xs \<noteq> [] \<Longrightarrow> list_all wf_json xs \<Longrightarrow> render_items xs @ r \<noteq> '']'' @ s"
proof
  assume ne: "xs \<noteq> []" and wf: "list_all wf_json xs" and eq: "render_items xs @ r = '']'' @ s"
  obtain x t where x: "render_items xs = render x @ t" "wf_json x"
    using ne wf by (cases xs rule: render_items.cases) auto
  have "hd (render x @ t @ r) = CHR '']''" using eq x(1) by simp
  with render_hd_not_end [OF x(2), of "t @ r"] show False by simp
qed

lemma fields_first: "kvs \<noteq> [] \<Longrightarrow> render_fields kvs @ r \<noteq> [CHR 0x7D] @ s"
  by (cases kvs rule: render_fields.cases) (auto simp: quote_str_def)

lemma render_prefix:
  "wf_json x \<Longrightarrow> wf_json y \<Longrightarrow> ends r \<Longrightarrow> ends s \<Longrightarrow> render x @ r = render y @ s \<Longrightarrow>
     x = y \<and> r = s"
  "list_all wf_json xs \<Longrightarrow> list_all wf_json ys \<Longrightarrow> render_items xs @ r = render_items ys @ s \<Longrightarrow>
     xs = ys \<and> r = s"
  "list_all (\<lambda>(k, v). wf_json v) kvs \<Longrightarrow> list_all (\<lambda>(k, v). wf_json v) kws \<Longrightarrow>
     render_fields kvs @ r = render_fields kws @ s \<Longrightarrow> kvs = kws \<and> r = s"
proof (induction x and xs and kvs arbitrary: y r s and ys r s and kws r s
    rule: render_render_items_render_fields.induct)
  case 1
  then show ?case using render_kind [of JNull y r s] by (cases y) (auto split: if_splits)
next
  case (2 b)
  then show ?case using render_kind [of "JBool b" y r s] by (cases y) (auto split: if_splits)
next
  case (3 i)
  from render_kind [OF "3.prems"(1,2,5)] have "json_kind y = 3" by simp
  then show ?case
    by (intro number_prefix [OF "3.prems"(1,2) _ _ "3.prems"(3,4,5)]) simp_all
next
  case (4 tok)
  from render_kind [OF "4.prems"(1,2,5)] have "json_kind y = 3" by simp
  then show ?case
    by (intro number_prefix [OF "4.prems"(1,2) _ _ "4.prems"(3,4,5)]) simp_all
next
  case (5 t)
  from render_kind [OF "5.prems"(1,2,5)] have "json_kind y = 4" by simp
  then obtain t' where y: "y = JStr t'" by (cases y) (auto split: if_splits)
  from "5.prems"(5) y have "quote_str t @ r = quote_str t' @ s" by (simp only: render.simps)
  with y show ?case by (auto dest!: quote_str_prefix)
next
  case (6 xs)
  from render_kind [OF "6.prems"(1,2,5)] have "json_kind y = 5" by simp
  then obtain ys where y: "y = JArr ys" by (cases y) (auto split: if_splits)
  from "6.prems"(5) y have "render_items xs @ r = render_items ys @ s" by simp
  with "6.IH" [of ys r s] "6.prems"(1,2) y show ?case by simp
next
  case (7 kvs)
  from render_kind [OF "7.prems"(1,2,5)] have "json_kind y = 6" by simp
  then obtain kws where y: "y = JObj kws" by (cases y) (auto split: if_splits)
  from "7.prems"(5) y have "render_fields kvs @ r = render_fields kws @ s" by simp
  with "7.IH" [of kws r s] "7.prems"(1,2) y show ?case by simp
next
  case 8
  then show ?case using items_first [of ys s r] by (cases ys) auto
next
  case (9 x)
  then obtain y ys' where ys: "ys = y # ys'" using items_first [of "[x]" r s] by (cases ys) auto
  then obtain u where u: "render_items ys @ s = render y @ u" and e: "ends u"
    and last: "hd u = CHR '']'' \<longleftrightarrow> ys' = []"
    by (cases ys') auto
  from 9 u ys have "x = y \<and> '']'' @ r = u"
    using "9.IH" [of y "'']'' @ r" u] e by simp
  with last ys u show ?case by (cases ys') auto
next
  case (10 x x' xs)
  then obtain y ys' where ys: "ys = y # ys'"
    using items_first [of "x # x' # xs" r s] by (cases ys) auto
  obtain u where u: "render_items ys @ s = render y @ u" and e: "ends u"
    and last: "hd u = CHR '']'' \<longleftrightarrow> ys' = []"
    using ys by (cases ys') auto
  have xy: "x = y \<and> '','' @ render_items (x' # xs) @ r = u"
    using "10.IH"(1) [of y "'','' @ render_items (x' # xs) @ r" u] "10.prems" u ys e by simp
  with last have "ys' \<noteq> []" by auto
  with xy u ys have "render_items (x' # xs) @ r = render_items ys' @ s" by (cases ys') auto
  with "10.IH"(2) [of ys' r s] "10.prems" ys xy show ?case by simp
next
  case 11
  then show ?case using fields_first [of kws s r] by (cases kws) auto
next
  case (12 k v)
  then obtain l w kws' where ks: "kws = (l, w) # kws'"
    using fields_first [of "[(k, v)]" r s] by (cases kws) auto
  then obtain u where u: "render_fields kws @ s = quote_str l @ '':'' @ render w @ u" and e: "ends u"
    and last: "hd u = CHR 0x7D \<longleftrightarrow> kws' = []"
    by (cases kws') auto
  with 12 have "quote_str k @ '':'' @ render v @ [CHR 0x7D] @ r = quote_str l @ '':'' @ render w @ u"
    by simp
  then have kl: "k = l" and vw: "render v @ [CHR 0x7D] @ r = render w @ u"
    by (auto dest: quote_str_prefix)
  have "v = w \<and> [CHR 0x7D] @ r = u"
    using "12.IH" [of w "[CHR 0x7D] @ r" u] "12.prems" vw e ks by simp
  with kl last ks u show ?case by (cases kws') auto
next
  case (13 k v kv kvs)
  then obtain l w kws' where ks: "kws = (l, w) # kws'"
    using fields_first [of "(k, v) # kv # kvs" r s] by (cases kws) auto
  then obtain u where u: "render_fields kws @ s = quote_str l @ '':'' @ render w @ u" and e: "ends u"
    and last: "hd u = CHR 0x7D \<longleftrightarrow> kws' = []"
    by (cases kws') auto
  have "quote_str k @ '':'' @ render v @ '','' @ render_fields (kv # kvs) @ r =
      quote_str l @ '':'' @ render w @ u"
    using "13.prems"(3) u by simp
  then have kl: "k = l" and vw: "render v @ '','' @ render_fields (kv # kvs) @ r = render w @ u"
    by (auto dest: quote_str_prefix)
  have vu: "v = w \<and> '','' @ render_fields (kv # kvs) @ r = u"
    using "13.IH"(1) [of w "'','' @ render_fields (kv # kvs) @ r" u] "13.prems" vw e ks by simp
  with last have "kws' \<noteq> []" by auto
  with vu u ks have "render_fields (kv # kvs) @ r = render_fields kws' @ s" by (cases kws') auto
  with "13.IH"(2) [of kws' r s] "13.prems" ks kl vu show ?case by simp
qed

lemma render_inj: "wf_json x \<Longrightarrow> wf_json y \<Longrightarrow> render x = render y \<Longrightarrow> x = y"
  using render_prefix(1) [of x y "[]" "[]"] by simp

lemma wf_canon: "wf_json x \<Longrightarrow> wf_json (canon x)"
  by (induction x rule: canon.induct) (force simp: list_all_iff)+

text \<open>
  Equal canonical texts mean equal payloads up to key order; no two different well-formed payloads
  share a text.
\<close>

lemma canonical_json_eq_iff:
  "wf_json x \<Longrightarrow> wf_json y \<Longrightarrow> canonical_json x = canonical_json y \<longleftrightarrow> canon x = canon y"
  using render_inj wf_canon by (auto simp: canonical_json_def)

text \<open>The order in which a dictionary was filled does not reach the text.\<close>

definition canon_fields :: "pydict \<Rightarrow> pydict" where
  "canon_fields kvs = map (\<lambda>(k, v). (k, canon v)) kvs"

lemma canon_fields_keys: "map fst (canon_fields kvs) = map fst kvs"
  by (induction kvs) (auto simp: canon_fields_def)

lemma canon_fields_lookup: "map_of (canon_fields kvs) k = map_option canon (map_of kvs k)"
  by (induction kvs) (auto simp: canon_fields_def)

lemma canon_JObj: "canon (JObj kvs) = JObj (sort_key fst (canon_fields kvs))"
  by (simp add: canon_fields_def)

lemma canon_key_order:
  assumes "set kvs = set kws" and "distinct (map fst kvs)" and "distinct (map fst kws)"
  shows "canon (JObj kvs) = canon (JObj kws)"
proof -
  have "sort_key fst (canon_fields kvs) = sort_key fst (canon_fields kws)"
  proof (rule sort_key_set_unique)
    show "set (canon_fields kvs) = set (canon_fields kws)"
      using assms(1) by (simp add: canon_fields_def)
  qed (use assms(2,3) in \<open>simp_all add: canon_fields_keys\<close>)
  then show ?thesis by (simp add: canon_JObj del: canon.simps)
qed

lemma canonical_json_key_order:
  assumes "set kvs = set kws" and "distinct (map fst kvs)" and "distinct (map fst kws)"
  shows "canonical_json (JObj kvs) = canonical_json (JObj kws)"
  using canon_key_order [OF assms] by (simp add: canonical_json_def)

text \<open>Reading a field of a dictionary.\<close>

definition dict_get :: "string \<Rightarrow> pydict \<Rightarrow> json option" where
  "dict_get k d = map_of d k"

lemma canon_JObj_field:
  assumes "canon (JObj kvs) = canon (JObj kws)" and "distinct (map fst kvs)" and "distinct (map fst kws)"
  shows "map_option canon (dict_get k kvs) = map_option canon (dict_get k kws)"
proof -
  from assms(1) have "sort_key fst (canon_fields kvs) = sort_key fst (canon_fields kws)"
    by (simp only: canon_JObj json.inject)
  then have "set (canon_fields kvs) = set (canon_fields kws)"
    by (metis set_sort)
  then have "map_of (canon_fields kvs) = map_of (canon_fields kws)"
    using assms(2,3) by (intro map_of_inject_set [THEN iffD2]) (simp_all only: canon_fields_keys)
  then show ?thesis by (simp only: dict_get_def canon_fields_lookup [symmetric])
qed

text \<open>
  \<open>str(payload.get(key) or default)\<close> on the scalar values that the program reads that way; a
  container counts as its JSON text.
\<close>

fun py_truthy :: "json \<Rightarrow> bool" where
  "py_truthy JNull = False"
| "py_truthy (JBool b) = b"
| "py_truthy (JInt i) = (i \<noteq> 0)"
| "py_truthy (JFloat tok) = (tok \<notin> {''0.0'', ''-0.0''})"
| "py_truthy (JStr s) = (s \<noteq> [])"
| "py_truthy (JArr xs) = (xs \<noteq> [])"
| "py_truthy (JObj kvs) = (kvs \<noteq> [])"

fun py_str :: "json \<Rightarrow> string" where
  "py_str (JStr s) = s"
| "py_str JNull = ''None''"
| "py_str (JBool b) = (if b then ''True'' else ''False'')"
| "py_str (JInt i) = int_str i"
| "py_str (JFloat tok) = tok"
| "py_str x = render x"

definition str_field :: "string \<Rightarrow> string \<Rightarrow> pydict \<Rightarrow> string" where
  "str_field key d payload =
     (case dict_get key payload of None \<Rightarrow> d | Some v \<Rightarrow> if py_truthy v then py_str v else d)"

text \<open>Equality of dictionaries does not depend on the order of their entries.\<close>

definition same_dict :: "pydict \<Rightarrow> pydict \<Rightarrow> bool" where
  "same_dict d d' \<longleftrightarrow> canon (JObj d) = canon (JObj d')"

end
