(* ===== verification/Lease.thy ===== *)
theory Lease
  imports Prelude
begin

text \<open>
  The lease contracts the components share, as locales. \<open>fenced_lease\<close> is the contract of a
  task whose lease carries a fencing token; \<open>exclusive_lease\<close> adds the recorded holder;
  \<open>leased_queue\<close> is the contract of a work queue whose rows are taken for a bounded time. The
  clients' consequences are proved once here; \<open>Task_Run\<close>, \<open>Content_Task\<close>, \<open>Signal_Outbox\<close> and
  \<open>Verification_Job\<close> discharge the laws for their own operations.
\<close>

section \<open>Runs of a stepped component\<close>

definition run_ops :: "('s \<Rightarrow> 'op \<Rightarrow> 's) \<Rightarrow> 's \<Rightarrow> 'op list \<Rightarrow> 's" where
  "run_ops step s ops = foldl step s ops"

fun grants :: "('s \<Rightarrow> 'op \<Rightarrow> int option) \<Rightarrow> ('s \<Rightarrow> 'op \<Rightarrow> 's) \<Rightarrow> 's \<Rightarrow> 'op list \<Rightarrow> int list" where
  "grants granted step s [] = []"
| "grants granted step s (op # ops) =
     (case granted s op of None \<Rightarrow> [] | Some k \<Rightarrow> [k]) @ grants granted step (step s op) ops"

lemma run_ops_simps [simp]:
  "run_ops step s [] = s"
  "run_ops step s (op # ops) = run_ops step (step s op) ops"
  "run_ops step s (ops @ ops') = run_ops step (run_ops step s ops) ops'"
  by (simp_all add: run_ops_def)

lemma run_ops_invariant:
  assumes "I s" and "\<And>s op. I s \<Longrightarrow> I (step s op)"
  shows "I (run_ops step s ops)"
  using assms(1) by (induction ops arbitrary: s) (auto intro: assms(2))

section \<open>Fencing tokens\<close>

locale fenced_lease =
  fixes invar :: "'s \<Rightarrow> bool"
    and token :: "'s \<Rightarrow> int"
    and step :: "'s \<Rightarrow> 'op \<Rightarrow> 's"
    and granted :: "'s \<Rightarrow> 'op \<Rightarrow> int option"
    and current :: "'s \<Rightarrow> 'who \<Rightarrow> int \<Rightarrow> instant \<Rightarrow> bool"
  assumes step_invar: "invar s \<Longrightarrow> invar (step s op)"
    and step_token_mono: "invar s \<Longrightarrow> token s \<le> token (step s op)"
    and grant_fresh: "invar s \<Longrightarrow> granted s op = Some k \<Longrightarrow> token s < k \<and> token (step s op) = k"
    and current_token: "invar s \<Longrightarrow> current s w k t \<Longrightarrow> token s = k"
begin

lemma run_invar: "invar s \<Longrightarrow> invar (run_ops step s ops)"
  by (erule run_ops_invariant) (rule step_invar)

lemma run_token_mono: "invar s \<Longrightarrow> token s \<le> token (run_ops step s ops)"
  by (induction ops arbitrary: s) (auto intro: order_trans step_token_mono step_invar)

lemma stale_forever:
  assumes "invar s" and "k < token s"
  shows "\<not> current (run_ops step s ops) w k t"
proof
  assume "current (run_ops step s ops) w k t"
  with current_token run_invar assms(1) have "token (run_ops step s ops) = k" by blast
  with run_token_mono [OF assms(1), of ops] assms(2) show False by simp
qed

lemma superseded_forever:
  assumes "invar s" and "granted s op = Some k'" and "k \<le> token s"
  shows "\<not> current (run_ops step (step s op) ops) w k t"
  using assms grant_fresh [OF assms(1,2)] by (intro stale_forever step_invar) simp_all

lemma grants_fresh:
  "invar s \<Longrightarrow> sorted_wrt (<) (grants granted step s ops) \<and>
     (\<forall>k \<in> set (grants granted step s ops). token s < k)"
proof (induction ops arbitrary: s)
  case Nil
  then show ?case by simp
next
  case (Cons op ops)
  note ih = Cons.IH [OF step_invar [OF Cons.prems], of op]
  show ?case
  proof (cases "granted s op")
    case None
    with ih show ?thesis
      using step_token_mono [OF Cons.prems, of op] by (auto intro: order_le_less_trans)
  next
    case (Some k)
    with ih show ?thesis
      using grant_fresh [OF Cons.prems Some] by auto
  qed
qed

lemma current_same_token: "invar s \<Longrightarrow> current s w k t \<Longrightarrow> current s w' k' t' \<Longrightarrow> k = k'"
  using current_token by metis

end

locale exclusive_lease = fenced_lease invar token step granted current
  for invar :: "'s \<Rightarrow> bool"
    and token :: "'s \<Rightarrow> int"
    and step :: "'s \<Rightarrow> 'op \<Rightarrow> 's"
    and granted :: "'s \<Rightarrow> 'op \<Rightarrow> int option"
    and current :: "'s \<Rightarrow> 'who \<Rightarrow> int \<Rightarrow> instant \<Rightarrow> bool" +
  fixes holder :: "'s \<Rightarrow> 'who option"
  assumes current_holder: "invar s \<Longrightarrow> current s w k t \<Longrightarrow> holder s = Some w"
begin

lemma mutual_exclusion:
  "invar s \<Longrightarrow> current s w k t \<Longrightarrow> current s w' k' t' \<Longrightarrow> w = w' \<and> k = k'"
  using current_holder current_same_token by (metis option.inject)

end

section \<open>Work queues with timed leases\<close>

text \<open>
  \<open>eligible r now\<close> is the selection predicate of the queue, \<open>seize w d now r\<close> what taking a row
  for \<open>d\<close> seconds writes, \<open>owns r w now\<close> the ownership check of every later write and
  \<open>expiry r\<close> the end of the lease.
\<close>

locale leased_queue =
  fixes eligible :: "'row \<Rightarrow> instant \<Rightarrow> bool"
    and seize :: "string \<Rightarrow> int \<Rightarrow> instant \<Rightarrow> 'row \<Rightarrow> 'row"
    and owns :: "'row \<Rightarrow> string \<Rightarrow> instant \<Rightarrow> bool"
    and expiry :: "'row \<Rightarrow> instant option"
  assumes seize_owns: "0 < d \<Longrightarrow> owns (seize w d now r) w now"
    and seize_expiry: "expiry (seize w d now r) = Some (now + seconds d)"
    and owns_unique: "owns r w now \<Longrightarrow> owns r w' now' \<Longrightarrow> w = w'"
    and owns_live: "owns r w now \<Longrightarrow> expiry r = Some e \<Longrightarrow> now < e"
    and live_not_eligible: "expiry r = Some e \<Longrightarrow> now < e \<Longrightarrow> \<not> eligible r now"
begin

lemma owned_not_eligible:
  "owns r w now \<Longrightarrow> expiry r \<noteq> None \<Longrightarrow> \<not> eligible r now"
  using owns_live live_not_eligible by (metis not_None_eq)

lemma seized_not_eligible:
  "now' < now + seconds d \<Longrightarrow> \<not> eligible (seize w d now r) now'"
  by (rule live_not_eligible [OF seize_expiry])

lemma seized_owner: "0 < d \<Longrightarrow> owns (seize w d now r) w' now' \<Longrightarrow> w' = w"
  using seize_owns owns_unique by metis

lemma seized_expires: "owns (seize w d now r) w' now' \<Longrightarrow> now' < now + seconds d"
  by (rule owns_live [OF _ seize_expiry])

end

text \<open>
  A table of such rows under its operations. \<open>actor\<close> is the worker and clock of a leasing or owning
  operation, \<open>admin k\<close> marks the interventions on row \<open>k\<close> that need no lease. An operation of anybody else touches a row
  only when the row is eligible or the actor owns it; hence a seized row is protected.
\<close>

definition others_before ::
  "('op \<Rightarrow> (string \<times> instant) option) \<Rightarrow> ('op \<Rightarrow> bool) \<Rightarrow> string \<Rightarrow> instant \<Rightarrow> 'op list \<Rightarrow> bool" where
  "others_before actor admin w e ops \<longleftrightarrow>
     list_all (\<lambda>op. \<not> admin op \<and>
       (case actor op of None \<Rightarrow> True | Some (w', now') \<Rightarrow> w' \<noteq> w \<and> now' < e)) ops"

locale queue_table = leased_queue eligible seize owns expiry
  for eligible :: "'row \<Rightarrow> instant \<Rightarrow> bool"
    and seize :: "string \<Rightarrow> int \<Rightarrow> instant \<Rightarrow> 'row \<Rightarrow> 'row"
    and owns :: "'row \<Rightarrow> string \<Rightarrow> instant \<Rightarrow> bool"
    and expiry :: "'row \<Rightarrow> instant option" +
  fixes invar :: "'d \<Rightarrow> bool"
    and row_of :: "'d \<Rightarrow> string \<Rightarrow> 'row option"
    and step :: "'d \<Rightarrow> 'op \<Rightarrow> 'd"
    and actor :: "'op \<Rightarrow> (string \<times> instant) option"
    and admin :: "string \<Rightarrow> 'op \<Rightarrow> bool"
  assumes step_invar: "invar d \<Longrightarrow> invar (step d op)"
    and step_touch: "invar d \<Longrightarrow> row_of d k = Some r \<Longrightarrow> \<not> admin k op \<Longrightarrow>
      row_of (step d op) k = Some r \<or>
      (\<exists>w now. actor op = Some (w, now) \<and> (eligible r now \<or> owns r w now))"
begin

lemma run_invar: "invar d \<Longrightarrow> invar (run_ops step d ops)"
  by (erule run_ops_invariant) (rule step_invar)

lemma seized_protected:
  assumes "invar d" and "row_of d k = Some (seize w dur now r0)" and "0 < dur"
    and "others_before actor (admin k) w (now + seconds dur) ops"
  shows "row_of (run_ops step d ops) k = Some (seize w dur now r0)"
  using assms(1,2,4)
proof (induction ops arbitrary: d)
  case Nil
  then show ?case by simp
next
  case (Cons op ops)
  have "row_of (step d op) k = Some (seize w dur now r0)"
  proof (rule ccontr)
    assume "row_of (step d op) k \<noteq> Some (seize w dur now r0)"
    then obtain w' now' where a: "actor op = Some (w', now')"
      and t: "eligible (seize w dur now r0) now' \<or> owns (seize w dur now r0) w' now'"
      using step_touch [OF Cons.prems(1,2), of op] Cons.prems(3) by (auto simp: others_before_def)
    with Cons.prems(3) have "w' \<noteq> w" "now' < now + seconds dur" by (simp_all add: others_before_def)
    with t show False
      using seized_not_eligible [of now' now dur w r0] seized_owner [OF assms(3), of w now r0 w' now']
      by blast
  qed
  with Cons.IH [of "step d op"] Cons.prems step_invar show ?case by (simp add: others_before_def)
qed

end

end
