(* ===== verification/Task_Run.thy ===== *)
theory Task_Run
  imports Json Lease
begin

text \<open>
  \<open>domain/task_run.py\<close>: the lease and fencing state machine of a long-running operator task. A
  \<open>task_run\<close> is the frozen dataclass \<open>TaskRun\<close>; every operation returns the replaced record or
  the exception it raises. \<open>now\<close> is the value of \<open>now or datetime.now(UTC)\<close>.
\<close>

section \<open>Data\<close>

datatype task_run_state = PENDING | RUNNING | PAUSED | RETRYING | SUCCEEDED | FAILED | INVALIDATED

fun state_value :: "task_run_state \<Rightarrow> string" where
  "state_value PENDING = ''PENDING''"
| "state_value RUNNING = ''RUNNING''"
| "state_value PAUSED = ''PAUSED''"
| "state_value RETRYING = ''RETRYING''"
| "state_value SUCCEEDED = ''SUCCEEDED''"
| "state_value FAILED = ''FAILED''"
| "state_value INVALIDATED = ''INVALIDATED''"

definition all_task_states :: "task_run_state list" where
  "all_task_states = [PENDING, RUNNING, PAUSED, RETRYING, SUCCEEDED, FAILED, INVALIDATED]"

text \<open>
  \<open>repr\<close> of a string: the quote is a single one unless the text holds single quotes and no double
  ones; the quote, the backslash and the control characters are escaped.
\<close>

definition repr_char :: "char \<Rightarrow> char \<Rightarrow> string" where
  "repr_char q c =
     (if c = q \<or> c = CHR 0x5C then [CHR 0x5C, c]
      else if c = CHR 0x09 then [CHR 0x5C, CHR ''t'']
      else if c = CHR 0x0A then [CHR 0x5C, CHR ''n'']
      else if c = CHR 0x0D then [CHR 0x5C, CHR ''r'']
      else if (of_char c :: nat) < 32 \<or> (of_char c :: nat) = 127
      then [CHR 0x5C, CHR ''x'', hex_char (of_char c div 16), hex_char (of_char c mod 16)]
      else [c])"

definition py_repr :: "string \<Rightarrow> string" where
  "py_repr s =
     (let q = (if CHR 0x27 \<in> set s \<and> CHR 0x22 \<notin> set s then CHR 0x22 else CHR 0x27)
      in [q] @ concat (map (repr_char q) s) @ [q])"

text \<open>\<open>TaskRunState(value)\<close>: the member with that value, or \<open>ValueError\<close>, whose message shows the value as \<open>repr\<close> does.\<close>

definition task_run_state_of :: "string \<Rightarrow> task_run_state result" where
  "task_run_state_of v =
     (case find (\<lambda>s. state_value s = v) all_task_states of
        Some s \<Rightarrow> Inr s
      | None \<Rightarrow> Inl (ValueError (py_repr v @ '' is not a valid TaskRunState'')))"

datatype operator_action = PAUSE | RESUME | RETRY | INVALIDATE | REBUILD

fun action_value :: "operator_action \<Rightarrow> string" where
  "action_value PAUSE = ''pause''"
| "action_value RESUME = ''resume''"
| "action_value RETRY = ''retry''"
| "action_value INVALIDATE = ''invalidate''"
| "action_value REBUILD = ''rebuild''"

definition operator_action_of :: "string \<Rightarrow> operator_action result" where
  "operator_action_of v =
     (case find (\<lambda>a. action_value a = v) [PAUSE, RESUME, RETRY, INVALIDATE, REBUILD] of
        Some a \<Rightarrow> Inr a
      | None \<Rightarrow> Inl (ValueError (v @ '' is not a valid OperatorAction'')))"

record checkpoint =
  cp_name :: string
  cp_payload :: pydict
  cp_recorded_at :: pydt

record task_audit =
  ta_action :: string
  ta_at :: pydt
  ta_actor :: string
  ta_detail :: string
  ta_fencing_token :: "int option"

record task_run =
  task_run_id :: string
  task_type :: string
  tr_state :: task_run_state
  tr_owner :: "string option"
  tr_lease_expires_at :: "pydt option"
  tr_fencing_token :: int
  tr_checkpoints :: "checkpoint list"
  tr_audit :: "task_audit list"
  tr_attempt :: int

text \<open>\<open>fresh_id\<close> stands for \<open>f"run_{uuid4().hex}"\<close>.\<close>

definition create_task :: "string \<Rightarrow> string option \<Rightarrow> string \<Rightarrow> task_run" where
  "create_task ttype rid fresh_id =
     \<lparr>task_run_id = str_or rid fresh_id, task_type = ttype, tr_state = PENDING, tr_owner = None,
      tr_lease_expires_at = None, tr_fencing_token = 0, tr_checkpoints = [], tr_audit = [],
      tr_attempt = 0\<rparr>"

section \<open>Operations\<close>

definition add_audit :: "string \<Rightarrow> string \<Rightarrow> string \<Rightarrow> int option \<Rightarrow> pydt \<Rightarrow> task_run \<Rightarrow> task_run" where
  "add_audit action actor detail tok now t =
     t\<lparr>tr_audit := tr_audit t @
        [\<lparr>ta_action = action, ta_at = now, ta_actor = actor, ta_detail = detail,
          ta_fencing_token = tok\<rparr>]\<rparr>"

definition acquire_lease :: "string \<Rightarrow> pydt \<Rightarrow> int \<Rightarrow> task_run \<Rightarrow> task_run result" where
  "acquire_lease owner now ttl t =
     (let now = as_utc now;
          lease_expires_at = map_option as_utc (tr_lease_expires_at t)
      in if tr_state t \<in> {SUCCEEDED, INVALIDATED}
         then Inl (LeaseError (''cannot lease terminal task: '' @ state_value (tr_state t)))
         else if truthy (tr_owner t) \<and>
                 (case lease_expires_at of None \<Rightarrow> False | Some e \<Rightarrow> instant_of e > instant_of now) \<and>
                 tr_owner t \<noteq> Some owner
         then Inl (LeaseError ''task lease is held by another worker'')
         else (let updated = t\<lparr>tr_state := RUNNING, tr_owner := Some owner,
                               tr_lease_expires_at := Some (add_delta now ttl),
                               tr_fencing_token := tr_fencing_token t + 1\<rparr>
               in Inr (add_audit ''lease_acquired'' owner [] (Some (tr_fencing_token updated)) now updated)))"

definition require_lease :: "string \<Rightarrow> int \<Rightarrow> pydt \<Rightarrow> task_run \<Rightarrow> unit result" where
  "require_lease owner tok now t =
     (let now = as_utc now
      in if tr_owner t \<noteq> Some owner \<or> tr_fencing_token t \<noteq> tok
         then Inl (LeaseError ''stale fencing token or owner'')
         else (let expires_at = map_option as_utc (tr_lease_expires_at t)
               in case expires_at of
                    None \<Rightarrow> Inl (LeaseError ''task lease has expired'')
                  | Some e \<Rightarrow> if instant_of e \<le> instant_of now
                             then Inl (LeaseError ''task lease has expired'') else Inr ()))"

definition renew_lease :: "string \<Rightarrow> int \<Rightarrow> pydt \<Rightarrow> int \<Rightarrow> task_run \<Rightarrow> task_run result" where
  "renew_lease owner tok now ttl t =
     (let now = as_utc now
      in try_bind (require_lease owner tok now t) (\<lambda>_.
           Inr (add_audit ''lease_renewed'' owner [] (Some tok) now
             (t\<lparr>tr_lease_expires_at := Some (add_delta now ttl)\<rparr>))))"

definition release_lease :: "string \<Rightarrow> int \<Rightarrow> pydt \<Rightarrow> task_run \<Rightarrow> task_run result" where
  "release_lease owner tok now t =
     (let now = as_utc now
      in try_bind (require_lease owner tok now t) (\<lambda>_.
           Inr (add_audit ''lease_released'' owner [] (Some tok) now
             (t\<lparr>tr_owner := None, tr_lease_expires_at := None\<rparr>))))"

definition save_checkpoint :: "string \<Rightarrow> int \<Rightarrow> checkpoint \<Rightarrow> pydt \<Rightarrow> task_run \<Rightarrow> task_run result" where
  "save_checkpoint owner tok cp now t =
     (let now = as_utc now
      in try_bind (require_lease owner tok now t) (\<lambda>_.
           Inr (add_audit ''checkpoint'' owner (cp_name cp) (Some tok) now
             (t\<lparr>tr_checkpoints := tr_checkpoints t @ [cp]\<rparr>))))"

fun allowed_targets :: "task_run_state \<Rightarrow> task_run_state set" where
  "allowed_targets RUNNING = {SUCCEEDED, FAILED, PAUSED, RETRYING}"
| "allowed_targets RETRYING = {RUNNING, FAILED}"
| "allowed_targets PAUSED = {RUNNING, INVALIDATED}"
| "allowed_targets _ = {}"

definition transition_to :: "string \<Rightarrow> string \<Rightarrow> int \<Rightarrow> pydt \<Rightarrow> task_run \<Rightarrow> task_run result" where
  "transition_to target_name owner tok now t =
     (let now = as_utc now
      in try_bind (require_lease owner tok now t) (\<lambda>_.
         try_bind (task_run_state_of target_name) (\<lambda>target.
           if target \<notin> allowed_targets (tr_state t)
           then Inl (ValueError (''invalid task transition '' @ state_value (tr_state t) @ '' -> '' @
                  state_value target))
           else (let released = target \<in> {SUCCEEDED, FAILED};
                     updated = t\<lparr>tr_state := target,
                       tr_owner := (if released then None else tr_owner t),
                       tr_lease_expires_at := (if released then None else tr_lease_expires_at t),
                       tr_attempt := tr_attempt t + (if target = RETRYING then 1 else 0)\<rparr>
                 in Inr (add_audit ''state_changed'' owner (state_value target) (Some tok) now updated)))))"

fun operator_effect :: "operator_action \<Rightarrow> task_run \<Rightarrow> task_run" where
  "operator_effect INVALIDATE t =
     t\<lparr>tr_state := INVALIDATED, tr_owner := None, tr_lease_expires_at := None\<rparr>"
| "operator_effect REBUILD t =
     t\<lparr>tr_state := RETRYING, tr_owner := None, tr_lease_expires_at := None,
       tr_attempt := tr_attempt t + 1\<rparr>"
| "operator_effect PAUSE t = t\<lparr>tr_state := PAUSED\<rparr>"
| "operator_effect RESUME t = t\<lparr>tr_state := RUNNING\<rparr>"
| "operator_effect RETRY t = t\<lparr>tr_state := RETRYING\<rparr>"

definition operator_action :: "string \<Rightarrow> string \<Rightarrow> pydt \<Rightarrow> task_run \<Rightarrow> task_run result" where
  "operator_action name actor now t =
     (let now = as_utc now
      in try_bind (operator_action_of name) (\<lambda>action.
           Inr (add_audit (action_value action) actor [] None now (operator_effect action t))))"

section \<open>Runs\<close>

text \<open>Any sequence of calls by any workers and operators; a call that raises changes nothing.\<close>

datatype task_op =
    Acquire string pydt int
  | Renew string int pydt int
  | Release string int pydt
  | SaveCheckpoint string int checkpoint pydt
  | Transition string string int pydt
  | Operator string string pydt

fun task_apply :: "task_run \<Rightarrow> task_op \<Rightarrow> task_run result" where
  "task_apply t (Acquire w now ttl) = acquire_lease w now ttl t"
| "task_apply t (Renew w k now ttl) = renew_lease w k now ttl t"
| "task_apply t (Release w k now) = release_lease w k now t"
| "task_apply t (SaveCheckpoint w k cp now) = save_checkpoint w k cp now t"
| "task_apply t (Transition s w k now) = transition_to s w k now t"
| "task_apply t (Operator a actor now) = operator_action a actor now t"

definition task_step :: "task_run \<Rightarrow> task_op \<Rightarrow> task_run" where
  "task_step t op = (case task_apply t op of Inl e \<Rightarrow> t | Inr t' \<Rightarrow> t')"

fun task_granted :: "task_run \<Rightarrow> task_op \<Rightarrow> int option" where
  "task_granted t (Acquire w now ttl) =
     (case acquire_lease w now ttl t of Inl e \<Rightarrow> None | Inr t' \<Rightarrow> Some (tr_fencing_token t'))"
| "task_granted t op = None"

definition lease_current :: "task_run \<Rightarrow> string \<Rightarrow> int \<Rightarrow> instant \<Rightarrow> bool" where
  "lease_current t w k now \<longleftrightarrow> require_lease w k (Aware now 0) t = Inr ()"

section \<open>What each operation does\<close>

lemma require_lease_iff:
  "require_lease w k now t = Inr () \<longleftrightarrow>
     tr_owner t = Some w \<and> tr_fencing_token t = k \<and>
     (\<exists>e. tr_lease_expires_at t = Some e \<and> instant_of now < instant_of e)"
  by (auto simp: require_lease_def Let_def split: option.splits)

lemma require_lease_unit: "(\<exists>u. require_lease w k now t = Inr u) \<longleftrightarrow> require_lease w k now t = Inr ()"
  by auto

lemma add_audit_simps [simp]:
  "tr_state (add_audit a w d k now t) = tr_state t"
  "tr_owner (add_audit a w d k now t) = tr_owner t"
  "tr_lease_expires_at (add_audit a w d k now t) = tr_lease_expires_at t"
  "tr_fencing_token (add_audit a w d k now t) = tr_fencing_token t"
  "tr_checkpoints (add_audit a w d k now t) = tr_checkpoints t"
  "tr_attempt (add_audit a w d k now t) = tr_attempt t"
  "task_run_id (add_audit a w d k now t) = task_run_id t"
  "task_type (add_audit a w d k now t) = task_type t"
  "tr_audit (add_audit a w d k now t) = tr_audit t @
     [\<lparr>ta_action = a, ta_at = now, ta_actor = w, ta_detail = d, ta_fencing_token = k\<rparr>]"
  by (simp_all add: add_audit_def)

lemma operator_effect_fields [simp]:
  "tr_fencing_token (operator_effect a t) = tr_fencing_token t"
  "tr_audit (operator_effect a t) = tr_audit t"
  "tr_checkpoints (operator_effect a t) = tr_checkpoints t"
  "task_run_id (operator_effect a t) = task_run_id t"
  "task_type (operator_effect a t) = task_type t"
  "tr_attempt (operator_effect a t) = tr_attempt t + (if a = REBUILD then 1 else 0)"
  by (cases a; simp)+

text \<open>When each operation succeeds, and what it returns then.\<close>

lemma acquire_lease_iff:
  "acquire_lease w now ttl t = Inr t' \<longleftrightarrow>
     tr_state t \<noteq> SUCCEEDED \<and> tr_state t \<noteq> INVALIDATED \<and>
     (tr_owner t = Some w \<or> \<not> truthy (tr_owner t) \<or>
      (\<forall>e. tr_lease_expires_at t = Some e \<longrightarrow> instant_of e \<le> instant_of now)) \<and>
     t' = add_audit ''lease_acquired'' w [] (Some (tr_fencing_token t + 1)) (as_utc now)
       (t\<lparr>tr_state := RUNNING, tr_owner := Some w,
         tr_lease_expires_at := Some (add_delta (as_utc now) ttl),
         tr_fencing_token := tr_fencing_token t + 1\<rparr>)"
  by (auto simp: acquire_lease_def Let_def split: option.splits)

lemma renew_lease_iff:
  "renew_lease w k now ttl t = Inr t' \<longleftrightarrow> require_lease w k now t = Inr () \<and>
     t' = add_audit ''lease_renewed'' w [] (Some k) (as_utc now)
       (t\<lparr>tr_lease_expires_at := Some (add_delta (as_utc now) ttl)\<rparr>)"
  by (auto simp: renew_lease_def Let_def try_bind_Inr_iff require_lease_iff)

lemma release_lease_iff:
  "release_lease w k now t = Inr t' \<longleftrightarrow> require_lease w k now t = Inr () \<and>
     t' = add_audit ''lease_released'' w [] (Some k) (as_utc now)
       (t\<lparr>tr_owner := None, tr_lease_expires_at := None\<rparr>)"
  by (auto simp: release_lease_def Let_def try_bind_Inr_iff require_lease_iff)

lemma save_checkpoint_iff:
  "save_checkpoint w k cp now t = Inr t' \<longleftrightarrow> require_lease w k now t = Inr () \<and>
     t' = add_audit ''checkpoint'' w (cp_name cp) (Some k) (as_utc now)
       (t\<lparr>tr_checkpoints := tr_checkpoints t @ [cp]\<rparr>)"
  by (auto simp: save_checkpoint_def Let_def try_bind_Inr_iff require_lease_iff)

definition moved_to :: "task_run_state \<Rightarrow> task_run \<Rightarrow> task_run" where
  "moved_to target t = t\<lparr>tr_state := target,
     tr_owner := (if target \<in> {SUCCEEDED, FAILED} then None else tr_owner t),
     tr_lease_expires_at := (if target \<in> {SUCCEEDED, FAILED} then None else tr_lease_expires_at t),
     tr_attempt := tr_attempt t + (if target = RETRYING then 1 else 0)\<rparr>"

lemma transition_to_iff:
  "transition_to name w k now t = Inr t' \<longleftrightarrow> require_lease w k now t = Inr () \<and>
     (\<exists>target. task_run_state_of name = Inr target \<and> target \<in> allowed_targets (tr_state t) \<and>
        t' = add_audit ''state_changed'' w (state_value target) (Some k) (as_utc now) (moved_to target t))"
  by (auto simp: transition_to_def Let_def try_bind_Inr_iff require_lease_iff moved_to_def split: if_splits)

lemma operator_action_iff:
  "operator_action name actor now t = Inr t' \<longleftrightarrow>
     (\<exists>a. operator_action_of name = Inr a \<and>
        t' = add_audit (action_value a) actor [] None (as_utc now) (operator_effect a t))"
  by (auto simp: operator_action_def Let_def try_bind_Inr_iff)

lemmas task_op_iffs = acquire_lease_iff renew_lease_iff release_lease_iff save_checkpoint_iff
  transition_to_iff operator_action_iff

lemma task_apply_token:
  "task_apply t op = Inr t' \<Longrightarrow>
     tr_fencing_token t' = tr_fencing_token t + (case op of Acquire _ _ _ \<Rightarrow> 1 | _ \<Rightarrow> 0)"
  by (cases op) (auto simp: task_op_iffs moved_to_def)

lemma task_apply_id: "task_apply t op = Inr t' \<Longrightarrow> task_run_id t' = task_run_id t \<and> task_type t' = task_type t"
  by (cases op) (auto simp: task_op_iffs moved_to_def)

interpretation task_lease:
  exclusive_lease "\<lambda>_. True" tr_fencing_token task_step task_granted lease_current tr_owner
proof
  fix t op
  show "tr_fencing_token t \<le> tr_fencing_token (task_step t op)"
    using task_apply_token [of t op]
    by (auto simp: task_step_def split: sum.splits task_op.splits)
next
  fix t op k
  assume "task_granted t op = Some k"
  then show "tr_fencing_token t < k \<and> tr_fencing_token (task_step t op) = k"
    using task_apply_token [of t op]
    by (cases op) (auto simp: task_step_def split: sum.splits)
next
  fix t w k now
  assume "lease_current t w k now"
  then show "tr_fencing_token t = k" and "tr_owner t = Some w"
    by (auto simp: lease_current_def require_lease_iff)
qed simp

section \<open>Fencing and exclusion\<close>

lemma stale_require_lease:
  "tr_owner t \<noteq> Some w \<or> tr_fencing_token t \<noteq> k \<Longrightarrow>
     require_lease w k now t = Inl (LeaseError ''stale fencing token or owner'')"
  by (simp add: require_lease_def Let_def)

lemma stale_writes:
  assumes "require_lease w k now t = Inl e" and "require_lease w k (as_utc now) t = Inl e"
  shows "renew_lease w k now ttl t = Inl e" "release_lease w k now t = Inl e"
    "save_checkpoint w k cp now t = Inl e" "transition_to name w k now t = Inl e"
  using assms by (simp_all add: renew_lease_def release_lease_def save_checkpoint_def
      transition_to_def Let_def)

definition stale_lease :: exn where
  "stale_lease = LeaseError ''stale fencing token or owner''"

text \<open>
  C1. Fencing safety. Once a task has been granted again, a worker that still holds an older
  token is refused by every later write (renewal, release, checkpoint, transition) with the stale
  lease error, whatever sequence of calls by any workers and operators happens in between.
\<close>

theorem task_fencing_safety:
  assumes "acquire_lease w' now' ttl' t = Inr t'" and "k \<le> tr_fencing_token t"
  shows "renew_lease w k now ttl (run_ops task_step t' ops) = Inl stale_lease \<and>
    release_lease w k now (run_ops task_step t' ops) = Inl stale_lease \<and>
    save_checkpoint w k cp now (run_ops task_step t' ops) = Inl stale_lease \<and>
    transition_to name w k now (run_ops task_step t' ops) = Inl stale_lease"
proof -
  have "tr_fencing_token t' = tr_fencing_token t + 1"
    using assms(1) by (simp add: acquire_lease_iff)
  then have "k < tr_fencing_token (run_ops task_step t' ops)"
    using task_lease.run_token_mono [of t' ops] assms(2) by simp
  then have "require_lease w k any (run_ops task_step t' ops) = Inl stale_lease" for any
    unfolding stale_lease_def by (intro stale_require_lease) simp
  then show ?thesis by (intro conjI stale_writes)
qed

definition example_run :: task_run where
  "example_run = create_task ''index_rebuild'' (Some ''run_1'') ''run_x''"

definition example_first_lease :: task_run where
  "example_first_lease = task_step example_run (Acquire ''worker-a'' (Naive 0) (seconds 300))"

lemma example_first_lease_eq:
  "acquire_lease ''worker-a'' (Naive 0) (seconds 300) example_run = Inr example_first_lease"
  by (simp add: example_first_lease_def task_step_def example_run_def create_task_def
      acquire_lease_def Let_def)

theorem task_fencing_safety_witness:
  "\<exists>t'. acquire_lease ''worker-b'' (Naive (seconds 400)) (seconds 300) example_first_lease = Inr t' \<and>
        (1::int) \<le> tr_fencing_token example_first_lease \<and>
        renew_lease ''worker-a'' 1 (Naive (seconds 401)) (seconds 300)
          (run_ops task_step t' [Operator ''pause'' ''ops'' (Naive (seconds 400))]) = Inl stale_lease"
proof -
  have k: "(1::int) \<le> tr_fencing_token example_first_lease"
    by (simp add: example_first_lease_def task_step_def example_run_def create_task_def
        acquire_lease_def Let_def)
  obtain t' where t': "acquire_lease ''worker-b'' (Naive (seconds 400)) (seconds 300)
      example_first_lease = Inr t'"
    by (simp add: example_first_lease_def task_step_def example_run_def create_task_def
        acquire_lease_def Let_def seconds_def second_us_def)
  with task_fencing_safety [OF t' k] k show ?thesis by blast
qed

text \<open>
  Lease exclusion. A worker takes a task from another only when the task is not terminal and
  the other's lease has run out (or was given up); it then holds the lease alone, with a token
  above every token granted before, exactly until its time to live has passed.
\<close>

theorem task_lease_exclusion:
  assumes "acquire_lease w now ttl t = Inr t'"
  shows "tr_state t \<notin> {SUCCEEDED, INVALIDATED} \<and>
    (lease_current t u j (instant_of now) \<longrightarrow> u = w \<or> u = []) \<and>
    (lease_current t' w' k' now' \<longleftrightarrow>
       w' = w \<and> k' = tr_fencing_token t + 1 \<and> now' < instant_of now + ttl)"
proof (intro conjI impI)
  show "tr_state t \<notin> {SUCCEEDED, INVALIDATED}" using assms by (simp add: acquire_lease_iff)
  show "u = w \<or> u = []" if "lease_current t u j (instant_of now)"
    using assms that by (auto simp: acquire_lease_iff lease_current_def require_lease_iff)
  show "lease_current t' w' k' now' \<longleftrightarrow>
           w' = w \<and> k' = tr_fencing_token t + 1 \<and> now' < instant_of now + ttl"
    using assms by (auto simp: acquire_lease_iff lease_current_def require_lease_iff)
qed

theorem task_lease_exclusion_witness:
  "lease_current example_first_lease ''worker-a'' 1 0 \<and>
   \<not> lease_current example_first_lease ''worker-b'' 1 0"
  using task_lease_exclusion [OF example_first_lease_eq, of "[]" 0 "''worker-a''" 1 0]
    task_lease_exclusion [OF example_first_lease_eq, of "[]" 0 "''worker-b''" 1 0]
  by (simp add: example_run_def create_task_def seconds_def second_us_def)

text \<open>
  A task that no live lease protects is never stuck: unless it is terminal, any worker can
  acquire it, whatever the clock convention of the stored expiry.
\<close>

theorem task_acquire_available:
  assumes "tr_state t \<notin> {SUCCEEDED, INVALIDATED}"
    and "\<And>e. tr_lease_expires_at t = Some e \<Longrightarrow> instant_of e \<le> instant_of now"
  shows "\<exists>t'. acquire_lease w now ttl t = Inr t' \<and> tr_state t' = RUNNING \<and> tr_owner t' = Some w"
  using assms by (auto simp: acquire_lease_iff)

theorem task_acquire_available_witness:
  "\<exists>t'. acquire_lease ''w'' (Naive 5) 10 example_run = Inr t' \<and> tr_state t' = RUNNING \<and>
        tr_owner t' = Some ''w''"
  by (rule task_acquire_available) (simp_all add: example_run_def create_task_def)

section \<open>Accounting\<close>

definition count_audit :: "string \<Rightarrow> task_run \<Rightarrow> nat" where
  "count_audit action t = length (filter (\<lambda>a. ta_action a = action) (tr_audit t))"

definition count_retries :: "task_run \<Rightarrow> nat" where
  "count_retries t = length (filter (\<lambda>a. ta_action a = ''rebuild'' \<or>
     (ta_action a = ''state_changed'' \<and> ta_detail a = ''RETRYING'')) (tr_audit t))"

definition accounted :: "task_run \<Rightarrow> bool" where
  "accounted t \<longleftrightarrow> tr_fencing_token t = int (count_audit ''lease_acquired'' t) \<and>
     tr_attempt t = int (count_retries t) \<and>
     (tr_owner t = None \<longleftrightarrow> tr_lease_expires_at t = None) \<and>
     (tr_state t \<in> {SUCCEEDED, FAILED} \<longrightarrow> tr_owner t = None)"

lemma state_value_inj: "state_value s = state_value s' \<longleftrightarrow> s = s'"
  by (cases s; cases s') simp_all

lemma task_run_state_roundtrip: "task_run_state_of (state_value s) = Inr s"
  by (cases s) (simp_all add: task_run_state_of_def all_task_states_def)

lemma task_run_state_of_iff: "task_run_state_of name = Inr s \<longleftrightarrow> name = state_value s"
proof
  show "task_run_state_of name = Inr s \<Longrightarrow> name = state_value s"
    by (auto simp: task_run_state_of_def find_Some_iff split: option.splits)
qed (simp add: task_run_state_roundtrip)

lemma action_value_cases:
  "action_value a \<noteq> ''lease_acquired''"
  "action_value a \<noteq> ''state_changed''"
  "action_value a = ''rebuild'' \<longleftrightarrow> a = REBUILD"
  by (cases a; simp)+

lemma state_value_retrying: "state_value s = ''RETRYING'' \<longleftrightarrow> s = RETRYING"
  by (cases s) simp_all

lemma count_add_audit [simp]:
  "count_audit action (add_audit a w d k now t) =
     count_audit action t + (if a = action then 1 else 0)"
  "count_retries (add_audit a w d k now t) =
     count_retries t + (if a = ''rebuild'' \<or> (a = ''state_changed'' \<and> d = ''RETRYING'') then 1 else 0)"
  by (simp_all add: count_audit_def count_retries_def)

lemma count_cong:
  "tr_audit t = tr_audit t' \<Longrightarrow> count_audit a t = count_audit a t' \<and> count_retries t = count_retries t'"
  by (simp add: count_audit_def count_retries_def)

lemma count_fields [simp]:
  "count_audit a (operator_effect act t) = count_audit a t"
  "count_retries (operator_effect act t) = count_retries t"
  "count_audit a (moved_to st t) = count_audit a t"
  "count_retries (moved_to st t) = count_retries t"
  "count_audit a (tr_state_update f1 t) = count_audit a t"
  "count_audit a (tr_owner_update f2 t) = count_audit a t"
  "count_audit a (tr_lease_expires_at_update f3 t) = count_audit a t"
  "count_audit a (tr_checkpoints_update f4 t) = count_audit a t"
  "count_audit a (tr_fencing_token_update f5 t) = count_audit a t"
  "count_retries (tr_state_update f1 t) = count_retries t"
  "count_retries (tr_owner_update f2 t) = count_retries t"
  "count_retries (tr_lease_expires_at_update f3 t) = count_retries t"
  "count_retries (tr_checkpoints_update f4 t) = count_retries t"
  "count_retries (tr_fencing_token_update f5 t) = count_retries t"
  by (simp_all add: count_audit_def count_retries_def moved_to_def)

lemma operator_effect_lease [simp]:
  "tr_owner (operator_effect a t) = (if a \<in> {INVALIDATE, REBUILD} then None else tr_owner t)"
  "tr_lease_expires_at (operator_effect a t) =
     (if a \<in> {INVALIDATE, REBUILD} then None else tr_lease_expires_at t)"
  "tr_state (operator_effect a t) \<notin> {SUCCEEDED, FAILED}"
  by (cases a; simp)+

lemma moved_to_fields [simp]:
  "tr_state (moved_to st t) = st"
  "tr_owner (moved_to st t) = (if st \<in> {SUCCEEDED, FAILED} then None else tr_owner t)"
  "tr_lease_expires_at (moved_to st t) =
     (if st \<in> {SUCCEEDED, FAILED} then None else tr_lease_expires_at t)"
  "tr_fencing_token (moved_to st t) = tr_fencing_token t"
  "tr_attempt (moved_to st t) = tr_attempt t + (if st = RETRYING then 1 else 0)"
  "tr_checkpoints (moved_to st t) = tr_checkpoints t"
  by (simp_all add: moved_to_def)

lemma accounted_apply:
  assumes "accounted t" and "task_apply t op = Inr t'"
  shows "accounted t'"
  using assms operator_effect_lease(3)
  by (cases op)
     (auto simp: task_op_iffs accounted_def require_lease_iff state_value_retrying action_value_cases
       split: if_splits)

lemma accounted_step: "accounted t \<Longrightarrow> accounted (task_step t op)"
  using accounted_apply by (auto simp: task_step_def split: sum.splits)

text \<open>
  Accounting. In every state a task reaches from its creation, the fencing token is the number
  of leases its audit trail records, the attempt counter is the number of recorded retries and
  rebuilds, owner and expiry are present together, and a finished task has no owner.
\<close>

theorem task_accounting: "accounted (run_ops task_step (create_task ttype rid fresh_id) ops)"
proof (rule run_ops_invariant [where I = accounted])
  show "accounted (create_task ttype rid fresh_id)"
    by (simp add: accounted_def create_task_def count_audit_def count_retries_def)
qed (rule accounted_step)

section \<open>The state graph\<close>

text \<open>The moves a worker may make, as a relation.\<close>

inductive worker_edge :: "task_run_state \<Rightarrow> task_run_state \<Rightarrow> bool" where
  "worker_edge RUNNING SUCCEEDED"
| "worker_edge RUNNING FAILED"
| "worker_edge RUNNING PAUSED"
| "worker_edge RUNNING RETRYING"
| "worker_edge RETRYING RUNNING"
| "worker_edge RETRYING FAILED"
| "worker_edge PAUSED RUNNING"
| "worker_edge PAUSED INVALIDATED"

inductive_simps worker_edge_simps:
  "worker_edge RUNNING s" "worker_edge RETRYING s" "worker_edge PAUSED s" "worker_edge PENDING s"
  "worker_edge SUCCEEDED s" "worker_edge FAILED s" "worker_edge INVALIDATED s"

lemma worker_edge_iff: "worker_edge s s' \<longleftrightarrow> s' \<in> allowed_targets s"
  by (cases s) (auto simp: worker_edge_simps)

text \<open>
  A transition request by target name refines the state graph: it succeeds exactly when the
  caller holds the lease and the name denotes a successor of the current state, and it then
  changes the state to that successor, counting a retry and releasing the lease of a finished task.
\<close>

theorem task_transition_refines_graph:
  "(\<exists>t'. transition_to name w k now t = Inr t' \<and> tr_state t' = s' \<and>
      tr_attempt t' = tr_attempt t + (if s' = RETRYING then 1 else 0) \<and>
      (tr_owner t' = None \<longleftrightarrow> s' \<in> {SUCCEEDED, FAILED})) \<longleftrightarrow>
   lease_current t w k (instant_of now) \<and> name = state_value s' \<and> worker_edge (tr_state t) s'"
    (is "?moved \<longleftrightarrow> ?allowed")
proof
  show "?moved \<Longrightarrow> ?allowed"
    by (auto simp: transition_to_iff lease_current_def require_lease_iff worker_edge_iff
        task_run_state_of_iff split: if_splits)
next
  assume a: ?allowed
  let ?t' = "add_audit ''state_changed'' w (state_value s') (Some k) (as_utc now) (moved_to s' t)"
  have "transition_to name w k now t = Inr ?t'"
    using a by (auto simp: transition_to_iff lease_current_def require_lease_iff worker_edge_iff
        task_run_state_of_iff)
  with a show ?moved by (auto simp: lease_current_def require_lease_iff)
qed

text \<open>
  Success is final for workers: after a transition to \<open>SUCCEEDED\<close> no sequence of worker calls
  (acquisitions included) changes anything in the task.
\<close>

fun by_worker :: "task_op \<Rightarrow> bool" where
  "by_worker (Operator a actor now) = False"
| "by_worker _ = True"

lemma worker_step_done:
  "tr_state t = SUCCEEDED \<Longrightarrow> tr_owner t = None \<Longrightarrow> by_worker op \<Longrightarrow> task_step t op = t"
  by (cases op) (auto simp: task_step_def task_op_iffs require_lease_iff split: sum.splits)

theorem task_success_final:
  assumes "transition_to ''SUCCEEDED'' w k now t = Inr t'" and "list_all by_worker ops"
  shows "run_ops task_step t' ops = t'"
proof -
  have "tr_state t' = SUCCEEDED" and "tr_owner t' = None"
    using assms(1) by (auto simp: transition_to_iff task_run_state_of_def all_task_states_def)
  with assms(2) show ?thesis by (induction ops) (simp_all add: worker_step_done)
qed

theorem task_success_final_witness:
  "\<exists>t'. transition_to ''SUCCEEDED'' ''worker-a'' 1 (Naive 1) example_first_lease = Inr t' \<and>
        run_ops task_step t' [Acquire ''worker-b'' (Naive (seconds 999)) 5] = t'"
proof -
  have "lease_current example_first_lease ''worker-a'' 1 1 \<and> tr_state example_first_lease = RUNNING"
    by (simp add: example_first_lease_def task_step_def example_run_def create_task_def
        acquire_lease_def Let_def lease_current_def require_lease_iff seconds_def second_us_def)
  moreover have "task_run_state_of ''SUCCEEDED'' = Inr SUCCEEDED"
    by (simp add: task_run_state_of_def all_task_states_def)
  ultimately obtain t' where t': "transition_to ''SUCCEEDED'' ''worker-a'' 1 (Naive 1) example_first_lease = Inr t'"
    by (auto simp: transition_to_iff lease_current_def require_lease_iff)
  have "list_all by_worker [Acquire ''worker-b'' (Naive (seconds 999)) 5]" by simp
  with t' show ?thesis using task_success_final [OF t'] by blast
qed

end
