(* ===== verification/Task_Repository.thy ===== *)
theory Task_Repository
  imports Task_Run
begin

text \<open>
  The stores of task runs and the service over them: \<open>PostgresTaskRunRepository\<close>
  (\<open>adapters/postgres/repositories/task_run_repository.py\<close>), \<open>InMemoryTaskRunRepository\<close> and
  \<open>TaskLeaseService\<close> (\<open>application/task_lease_service.py\<close>). Each repository method is one
  transaction that locks its row, so a call is an atomic step on the database; an exception rolls
  the transaction back. The locale \<open>task_port\<close> is the \<open>TaskRunRepository\<close> protocol as the service
  uses it; fencing across a whole store is proved from its laws and holds for both stores.
\<close>

section \<open>The port\<close>

datatype port_op =
    PAcquire string pydt int
  | PRenew string int pydt int
  | PCheckpoint string int checkpoint pydt
  | PTransition string string int pydt
  | POperator string string string string pydt

fun domain_op :: "port_op \<Rightarrow> task_op" where
  "domain_op (PAcquire w now ttl) = Acquire w now ttl"
| "domain_op (PRenew w k now ttl) = Renew w k now ttl"
| "domain_op (PCheckpoint w k cp now) = SaveCheckpoint w k cp now"
| "domain_op (PTransition s w k now) = Transition s w k now"
| "domain_op (POperator a actor reason req now) = Operator a actor now"

type_synonym lease_view_t = "task_run_state \<times> string option \<times> pydt option \<times> int \<times> int"

definition lease_view :: "task_run \<Rightarrow> lease_view_t" where
  "lease_view t = (tr_state t, tr_owner t, tr_lease_expires_at t, tr_fencing_token t, tr_attempt t)"

definition port_step ::
  "('d \<Rightarrow> string \<Rightarrow> port_op \<Rightarrow> (task_run \<times> 'd) result) \<Rightarrow> 'd \<Rightarrow> string \<times> port_op \<Rightarrow> 'd" where
  "port_step exec d c = (case exec d (fst c) (snd c) of Inl e \<Rightarrow> d | Inr (t, d') \<Rightarrow> d')"

definition port_token :: "('d \<Rightarrow> string \<Rightarrow> task_run result) \<Rightarrow> string \<Rightarrow> 'd \<Rightarrow> int" where
  "port_token load rid d = (case load d rid of Inl e \<Rightarrow> 0 | Inr t \<Rightarrow> tr_fencing_token t)"

definition port_holder :: "('d \<Rightarrow> string \<Rightarrow> task_run result) \<Rightarrow> string \<Rightarrow> 'd \<Rightarrow> string option" where
  "port_holder load rid d = (case load d rid of Inl e \<Rightarrow> None | Inr t \<Rightarrow> tr_owner t)"

definition port_current ::
  "('d \<Rightarrow> string \<Rightarrow> task_run result) \<Rightarrow> string \<Rightarrow> 'd \<Rightarrow> string \<Rightarrow> int \<Rightarrow> instant \<Rightarrow> bool" where
  "port_current load rid d w k now =
     (case load d rid of Inl e \<Rightarrow> False | Inr t \<Rightarrow> lease_current t w k now)"

definition port_granted ::
  "('d \<Rightarrow> string \<Rightarrow> port_op \<Rightarrow> (task_run \<times> 'd) result) \<Rightarrow> string \<Rightarrow> 'd \<Rightarrow> string \<times> port_op \<Rightarrow> int option"
  where
  "port_granted exec rid d c =
     (case c of
        (rid', PAcquire w now ttl) \<Rightarrow>
          (if rid' = rid
           then (case exec d rid' (PAcquire w now ttl) of Inl e \<Rightarrow> None
                 | Inr (t, d') \<Rightarrow> Some (tr_fencing_token t))
           else None)
      | _ \<Rightarrow> None)"

locale task_port =
  fixes invar :: "'d \<Rightarrow> bool"
    and load :: "'d \<Rightarrow> string \<Rightarrow> task_run result"
    and exec :: "'d \<Rightarrow> string \<Rightarrow> port_op \<Rightarrow> (task_run \<times> 'd) result"
  assumes exec_error: "invar d \<Longrightarrow> load d rid = Inl e \<Longrightarrow> exec d rid op = Inl e"
    and exec_refused:
      "invar d \<Longrightarrow> load d rid = Inr t \<Longrightarrow> task_apply t (domain_op op) = Inl e \<Longrightarrow> exec d rid op = Inl e"
    and exec_done:
      "invar d \<Longrightarrow> load d rid = Inr t \<Longrightarrow> task_apply t (domain_op op) = Inr t' \<Longrightarrow>
         \<exists>r d' s. exec d rid op = Inr (r, d') \<and> invar d' \<and> load d' rid = Inr s \<and>
           lease_view r = lease_view t' \<and> lease_view s = lease_view t' \<and>
           (\<forall>rid'. rid' \<noteq> rid \<longrightarrow> load d' rid' = load d rid')"
begin

lemma step_cases:
  assumes "invar d"
  obtains (unchanged) e where "exec d rid op = Inl e" "port_step exec d (rid, op) = d"
  | (success) t t' r d' s where "exec d rid op = Inr (r, d')" "port_step exec d (rid, op) = d'"
      "load d rid = Inr t" "task_apply t (domain_op op) = Inr t'" "invar d'" "load d' rid = Inr s"
      "lease_view r = lease_view t'" "lease_view s = lease_view t'"
      "\<And>rid'. rid' \<noteq> rid \<Longrightarrow> load d' rid' = load d rid'"
proof (cases "load d rid")
  case (Inl e)
  with exec_error [OF assms] show ?thesis by (intro unchanged) (auto simp: port_step_def)
next
  case (Inr t)
  show ?thesis
  proof (cases "task_apply t (domain_op op)")
    case (Inl e)
    with exec_refused [OF assms Inr] show ?thesis by (intro unchanged) (auto simp: port_step_def)
  next
    case (Inr t')
    with exec_done [OF assms \<open>load d rid = Inr t\<close> Inr] \<open>load d rid = Inr t\<close> show ?thesis
      by (auto simp: port_step_def intro!: success)
  qed
qed

end

sublocale task_port \<subseteq> port: exclusive_lease invar "port_token load rid" "port_step exec"
  "port_granted exec rid" "port_current load rid" "port_holder load rid" for rid
proof
  fix d c
  assume inv: "invar d"
  show "invar (port_step exec d c)"
    by (rule step_cases [OF inv, of "fst c" "snd c"]) (use inv in auto)
  show "port_token load rid d \<le> port_token load rid (port_step exec d c)"
  proof (rule step_cases [OF inv, of "fst c" "snd c"])
    fix t t' r d' s
    assume "port_step exec d (fst c, snd c) = d'" "load d (fst c) = Inr t"
      "task_apply t (domain_op (snd c)) = Inr t'" "load d' (fst c) = Inr s"
      "lease_view s = lease_view t'" "\<And>rid'. rid' \<noteq> fst c \<Longrightarrow> load d' rid' = load d rid'"
    then show ?thesis
      using task_apply_token [of t "domain_op (snd c)" t']
      by (cases "rid = fst c") (auto simp: port_token_def lease_view_def split: task_op.splits)
  qed simp
next
  fix d c k
  assume inv: "invar d" and g: "port_granted exec rid d c = Some k"
  then obtain w now ttl where c: "c = (rid, PAcquire w now ttl)"
    by (auto simp: port_granted_def split: prod.splits port_op.splits if_splits)
  show "port_token load rid d < k \<and> port_token load rid (port_step exec d c) = k"
  proof (rule step_cases [OF inv, of rid "PAcquire w now ttl"])
    fix e
    assume "exec d rid (PAcquire w now ttl) = Inl e"
    with g c show ?thesis by (simp add: port_granted_def)
  next
    fix t t' r d' s
    assume "exec d rid (PAcquire w now ttl) = Inr (r, d')" "load d rid = Inr t"
      "port_step exec d (rid, PAcquire w now ttl) = d'" "load d' rid = Inr s"
      "task_apply t (domain_op (PAcquire w now ttl)) = Inr t'"
      "lease_view r = lease_view t'" "lease_view s = lease_view t'"
    with g c show ?thesis
      using task_apply_token [of t "Acquire w now ttl" t']
      by (auto simp: port_granted_def port_token_def lease_view_def)
  qed
next
  fix d w k now
  assume "port_current load rid d w k now"
  then show "port_token load rid d = k" and "port_holder load rid d = Some w"
    by (auto simp: port_current_def port_token_def port_holder_def lease_current_def
        require_lease_iff split: sum.splits)
qed

context task_port begin

text \<open>What a worker with a superseded token gets from every later call.\<close>

lemma stale_call:
  assumes inv: "invar d" and g: "port_granted exec rid d c = Some k'" and k: "k \<le> port_token load rid d"
    and op: "op = PRenew w k now ttl \<or> op = PCheckpoint w k cp now \<or> op = PTransition target w k now"
  shows "\<exists>e. exec (run_ops (port_step exec) (port_step exec d c) cs) rid op = Inl e"
proof -
  let ?d = "run_ops (port_step exec) (port_step exec d c) cs"
  have inv': "invar ?d" using inv by (intro port.run_invar port.step_invar)
  have stale: "\<not> port_current load rid ?d w k (instant_of now)"
    using port.superseded_forever [OF inv g k] .
  show ?thesis
  proof (cases "load ?d rid")
    case (Inl e)
    with exec_error [OF inv'] show ?thesis by blast
  next
    case (Inr t)
    with stale have "require_lease w k now t \<noteq> Inr ()"
      by (simp add: port_current_def lease_current_def require_lease_iff)
    with op obtain e where "task_apply t (domain_op op) = Inl e"
      by (cases "task_apply t (domain_op op)") (auto simp: task_op_iffs)
    with exec_refused [OF inv' Inr] show ?thesis by blast
  qed
qed

end

section \<open>The PostgreSQL repository\<close>

record task_run_row =
  trr_task_run_id :: string
  trr_task_type :: string
  trr_state :: string
  trr_owner :: "string option"
  trr_lease_expires_at :: "pydt option"
  trr_fencing_token :: int
  trr_attempt :: int
  trr_checkpoints :: "(string \<times> pydict) list"
  trr_updated_at :: pydt

record operator_audit_row =
  oar_audit_id :: string
  oar_task_run_id :: string
  oar_action :: string
  oar_actor :: string
  oar_reason :: string
  oar_request_id :: string
  oar_created_at :: pydt

record task_db =
  db_runs :: "task_run_row list"
  db_operator_audit :: "operator_audit_row list"

text \<open>\<open>_domain\<close>; a checkpoint read back carries the reading clock as its \<open>recorded_at\<close>.\<close>

definition row_domain :: "pydt \<Rightarrow> task_run_row \<Rightarrow> task_run result" where
  "row_domain clock row =
     try_bind (task_run_state_of (trr_state row)) (\<lambda>st.
       Inr \<lparr>task_run_id = trr_task_run_id row, task_type = trr_task_type row, tr_state = st,
            tr_owner = trr_owner row, tr_lease_expires_at = trr_lease_expires_at row,
            tr_fencing_token = trr_fencing_token row,
            tr_checkpoints = map (\<lambda>(name, value).
              \<lparr>cp_name = name, cp_payload = value, cp_recorded_at = clock\<rparr>) (trr_checkpoints row),
            tr_audit = [], tr_attempt = trr_attempt row\<rparr>)"

definition checkpoint_dict :: "task_run \<Rightarrow> (string \<times> pydict) list" where
  "checkpoint_dict t = dict_of_pairs (map (\<lambda>c. (cp_name c, cp_payload c)) (tr_checkpoints t))"

text \<open>\<open>select ... where task_run_id = :id for update\<close>, or \<open>KeyError\<close>.\<close>

definition locked_row :: "task_db \<Rightarrow> string \<Rightarrow> task_run_row result" where
  "locked_row db rid =
     (case row_get trr_task_run_id rid (db_runs db) of
        None \<Rightarrow> Inl (KeyError rid) | Some row \<Rightarrow> Inr row)"

definition write_row :: "task_run_row \<Rightarrow> task_db \<Rightarrow> task_db" where
  "write_row row db = db\<lparr>db_runs := row_put trr_task_run_id row (db_runs db)\<rparr>"

definition repo_create :: "pydt \<Rightarrow> task_run \<Rightarrow> task_db \<Rightarrow> task_run \<times> task_db" where
  "repo_create clock t db =
     (t, if row_get trr_task_run_id (task_run_id t) (db_runs db) = None
         then db\<lparr>db_runs := row_add
           \<lparr>trr_task_run_id = task_run_id t, trr_task_type = task_type t,
            trr_state = state_value (tr_state t), trr_owner = None, trr_lease_expires_at = None,
            trr_fencing_token = tr_fencing_token t, trr_attempt = tr_attempt t,
            trr_checkpoints = [], trr_updated_at = clock\<rparr> (db_runs db)\<rparr>
         else db)"

definition repo_get :: "pydt \<Rightarrow> task_db \<Rightarrow> string \<Rightarrow> task_run option result" where
  "repo_get clock db rid =
     (case row_get trr_task_run_id rid (db_runs db) of
        None \<Rightarrow> Inr None
      | Some row \<Rightarrow> try_bind (row_domain clock row) (\<lambda>t. Inr (Some t)))"

definition repo_put :: "pydt \<Rightarrow> task_run \<Rightarrow> task_db \<Rightarrow> (task_run \<times> task_db) result" where
  "repo_put clock t db =
     try_bind (locked_row db (task_run_id t)) (\<lambda>row.
     try_bind (ensure (trr_fencing_token row = tr_fencing_token t) (ValueError ''stale fencing token''))
       (\<lambda>_. Inr (t, write_row (row\<lparr>trr_state := state_value (tr_state t), trr_owner := tr_owner t,
          trr_lease_expires_at := tr_lease_expires_at t, trr_attempt := tr_attempt t,
          trr_checkpoints := checkpoint_dict t, trr_updated_at := clock\<rparr>) db)))"

definition repo_acquire ::
  "pydt \<Rightarrow> string \<Rightarrow> string \<Rightarrow> pydt \<Rightarrow> int \<Rightarrow> task_db \<Rightarrow> (task_run \<times> task_db) result" where
  "repo_acquire clock rid owner now ttl db =
     try_bind (locked_row db rid) (\<lambda>row.
     try_bind (row_domain clock row) (\<lambda>loaded.
     try_bind (acquire_lease owner now ttl loaded) (\<lambda>task.
       Inr (task, write_row (row\<lparr>trr_state := state_value (tr_state task), trr_owner := tr_owner task,
         trr_lease_expires_at := tr_lease_expires_at task,
         trr_fencing_token := tr_fencing_token task, trr_updated_at := now\<rparr>) db))))"

definition repo_save_checkpoint ::
  "pydt \<Rightarrow> string \<Rightarrow> string \<Rightarrow> int \<Rightarrow> checkpoint \<Rightarrow> pydt \<Rightarrow> task_db \<Rightarrow> (task_run \<times> task_db) result" where
  "repo_save_checkpoint clock rid owner tok cp now db =
     try_bind (locked_row db rid) (\<lambda>row.
     try_bind (row_domain clock row) (\<lambda>loaded.
     try_bind (save_checkpoint owner tok cp now loaded) (\<lambda>task.
       Inr (task, write_row (row\<lparr>trr_checkpoints := checkpoint_dict task,
         trr_updated_at := now\<rparr>) db))))"

definition repo_renew ::
  "pydt \<Rightarrow> string \<Rightarrow> string \<Rightarrow> int \<Rightarrow> pydt \<Rightarrow> int \<Rightarrow> task_db \<Rightarrow> (task_run \<times> task_db) result" where
  "repo_renew clock rid owner tok now ttl db =
     try_bind (locked_row db rid) (\<lambda>row.
     try_bind (row_domain clock row) (\<lambda>loaded.
     try_bind (renew_lease owner tok now ttl loaded) (\<lambda>task.
       Inr (task, write_row (row\<lparr>trr_lease_expires_at := tr_lease_expires_at task,
         trr_updated_at := now\<rparr>) db))))"

definition repo_transition ::
  "pydt \<Rightarrow> string \<Rightarrow> string \<Rightarrow> string \<Rightarrow> int \<Rightarrow> pydt \<Rightarrow> task_db \<Rightarrow> (task_run \<times> task_db) result" where
  "repo_transition clock rid state owner tok now db =
     try_bind (locked_row db rid) (\<lambda>row.
     try_bind (row_domain clock row) (\<lambda>loaded.
     try_bind (transition_to state owner tok now loaded) (\<lambda>task.
       Inr (task, write_row (row\<lparr>trr_state := state_value (tr_state task), trr_owner := tr_owner task,
         trr_lease_expires_at := tr_lease_expires_at task, trr_attempt := tr_attempt task,
         trr_updated_at := now\<rparr>) db))))"

text \<open>\<open>audit_id\<close> stands for \<open>f"audit_{uuid4().hex}"\<close>; the row's \<open>onupdate\<close> clock is \<open>clock\<close>.\<close>

definition repo_operator_action ::
  "pydt \<Rightarrow> string \<Rightarrow> string \<Rightarrow> string \<Rightarrow> string \<Rightarrow> string \<Rightarrow> string \<Rightarrow> pydt \<Rightarrow> task_db \<Rightarrow>
     (task_run \<times> task_db) result" where
  "repo_operator_action clock audit_id rid action actor reason request_id now db =
     try_bind (locked_row db rid) (\<lambda>row.
     try_bind (row_domain clock row) (\<lambda>loaded.
     try_bind (operator_action action actor now loaded) (\<lambda>task.
     try_bind (operator_action_of action) (\<lambda>a.
       Inr (task, (write_row (row\<lparr>trr_state := state_value (tr_state task), trr_owner := tr_owner task,
         trr_lease_expires_at := tr_lease_expires_at task, trr_attempt := tr_attempt task,
         trr_updated_at := clock\<rparr>) db)
         \<lparr>db_operator_audit := db_operator_audit db @
           [\<lparr>oar_audit_id = audit_id, oar_task_run_id = rid, oar_action = action_value a,
             oar_actor = actor, oar_reason = reason, oar_request_id = request_id,
             oar_created_at = now\<rparr>]\<rparr>)))))"

text \<open>The service's dispatch to a durable repository: every method exists there.\<close>

fun pg_exec :: "pydt \<Rightarrow> string \<Rightarrow> task_db \<Rightarrow> string \<Rightarrow> port_op \<Rightarrow> (task_run \<times> task_db) result" where
  "pg_exec clock uid db rid (PAcquire w now ttl) = repo_acquire clock rid w now ttl db"
| "pg_exec clock uid db rid (PRenew w k now ttl) = repo_renew clock rid w k now ttl db"
| "pg_exec clock uid db rid (PCheckpoint w k cp now) = repo_save_checkpoint clock rid w k cp now db"
| "pg_exec clock uid db rid (PTransition s w k now) = repo_transition clock rid s w k now db"
| "pg_exec clock uid db rid (POperator a actor reason req now) =
     repo_operator_action clock uid rid a actor reason req now db"

definition pg_load :: "pydt \<Rightarrow> task_db \<Rightarrow> string \<Rightarrow> task_run result" where
  "pg_load clock db rid = try_bind (locked_row db rid) (row_domain clock)"

lemmas repo_op_defs = repo_acquire_def repo_renew_def repo_save_checkpoint_def repo_transition_def
  repo_operator_action_def

text \<open>The fields a method does not write back are the ones its domain operation does not change.\<close>

definition stores :: "task_run \<Rightarrow> task_run_row \<Rightarrow> bool" where
  "stores t row \<longleftrightarrow> trr_state row = state_value (tr_state t) \<and> trr_owner row = tr_owner t \<and>
     trr_lease_expires_at row = tr_lease_expires_at t \<and>
     trr_fencing_token row = tr_fencing_token t \<and> trr_attempt row = tr_attempt t"

lemma row_domain_stores: "row_domain clock row = Inr t \<Longrightarrow> stores t row"
  by (auto simp: row_domain_def try_bind_Inr_iff stores_def task_run_state_of_iff)

lemma stores_row_domain:
  "stores t row \<Longrightarrow> \<exists>s. row_domain clock row = Inr s \<and> lease_view s = lease_view t"
  by (auto simp: row_domain_def stores_def task_run_state_roundtrip lease_view_def)

lemma pg_load_write:
  assumes "row_get trr_task_run_id rid (db_runs db) = Some row0" and "trr_task_run_id row = rid"
    and "db_runs db' = db_runs (write_row row db)"
  shows "pg_load clock db' rid = row_domain clock row \<and>
    (\<forall>rid'. rid' \<noteq> rid \<longrightarrow> pg_load clock db' rid' = pg_load clock db rid')"
  using assms by (auto simp: pg_load_def locked_row_def write_row_def row_get_put)

lemma op_keeps:
  "acquire_lease w now ttl t = Inr t' \<Longrightarrow> tr_attempt t' = tr_attempt t"
  "renew_lease w k now ttl t = Inr t' \<Longrightarrow> tr_state t' = tr_state t \<and> tr_owner t' = tr_owner t \<and>
     tr_fencing_token t' = tr_fencing_token t \<and> tr_attempt t' = tr_attempt t"
  "save_checkpoint w k cp now t = Inr t' \<Longrightarrow> lease_view t' = lease_view t"
  "transition_to target w k now t = Inr t' \<Longrightarrow> tr_fencing_token t' = tr_fencing_token t"
  "operator_action a actor now t = Inr t' \<Longrightarrow> tr_fencing_token t' = tr_fencing_token t"
  by (auto simp: task_op_iffs lease_view_def)

lemma operator_action_valid: "operator_action a actor now t = Inr t' \<Longrightarrow> \<exists>x. operator_action_of a = Inr x"
  by (auto simp: operator_action_iff)

lemma pg_exec_done:
  assumes "pg_load clock db rid = Inr t" and "task_apply t (domain_op op) = Inr t'"
  shows "\<exists>row0 row db'. row_get trr_task_run_id rid (db_runs db) = Some row0 \<and>
    pg_exec clock uid db rid op = Inr (t', db') \<and> trr_task_run_id row = rid \<and>
    db_runs db' = db_runs (write_row row db) \<and> stores t' row"
proof -
  obtain row0 where row0: "row_get trr_task_run_id rid (db_runs db) = Some row0"
    and load: "row_domain clock row0 = Inr t" and id: "trr_task_run_id row0 = rid"
    using assms(1)
    by (auto simp: pg_load_def locked_row_def try_bind_Inr_iff dest: row_get_Some_key split: option.splits)
  have st: "stores t row0" using load by (rule row_domain_stores)
  show ?thesis
  proof (cases op)
    case (PAcquire w now ttl)
    with assms(2) have "acquire_lease w now ttl t = Inr t'" by simp
    note op_keeps(1) [OF this] this
    with PAcquire row0 load id st show ?thesis
      by (intro exI [of _ row0] exI [of _ "row0\<lparr>trr_state := state_value (tr_state t'),
            trr_owner := tr_owner t', trr_lease_expires_at := tr_lease_expires_at t',
            trr_fencing_token := tr_fencing_token t', trr_updated_at := now\<rparr>"])
         (auto simp: repo_acquire_def locked_row_def stores_def lease_view_def)
  next
    case (PRenew w k now ttl)
    with assms(2) have "renew_lease w k now ttl t = Inr t'" by simp
    note op_keeps(2) [OF this] this
    with PRenew row0 load id st show ?thesis
      by (intro exI [of _ row0] exI [of _ "row0\<lparr>
            trr_lease_expires_at := tr_lease_expires_at t', trr_updated_at := now\<rparr>"])
         (auto simp: repo_renew_def locked_row_def stores_def lease_view_def)
  next
    case (PCheckpoint w k cp now)
    with assms(2) have "save_checkpoint w k cp now t = Inr t'" by simp
    note op_keeps(3) [OF this] this
    with PCheckpoint row0 load id st show ?thesis
      by (intro exI [of _ row0] exI [of _ "row0\<lparr>trr_checkpoints := checkpoint_dict t',
            trr_updated_at := now\<rparr>"])
         (auto simp: repo_save_checkpoint_def locked_row_def stores_def lease_view_def)
  next
    case (PTransition target w k now)
    with assms(2) have "transition_to target w k now t = Inr t'" by simp
    note op_keeps(4) [OF this] this
    with PTransition row0 load id st show ?thesis
      by (intro exI [of _ row0] exI [of _ "row0\<lparr>trr_state := state_value (tr_state t'),
            trr_owner := tr_owner t', trr_lease_expires_at := tr_lease_expires_at t',
            trr_attempt := tr_attempt t', trr_updated_at := now\<rparr>"])
         (auto simp: repo_transition_def locked_row_def stores_def lease_view_def)
  next
    case (POperator a actor reason req now)
    with assms(2) have "operator_action a actor now t = Inr t'" by simp
    note op_keeps(5) [OF this] this
    with POperator row0 load id st show ?thesis
      by (intro exI [of _ row0] exI [of _ "row0\<lparr>trr_state := state_value (tr_state t'),
            trr_owner := tr_owner t', trr_lease_expires_at := tr_lease_expires_at t',
            trr_attempt := tr_attempt t', trr_updated_at := clock\<rparr>"])
         (auto simp: repo_operator_action_def locked_row_def stores_def dest: operator_action_valid)
  qed
qed

lemma pg_exec_load_error: "pg_load clock db rid = Inl e \<Longrightarrow> pg_exec clock uid db rid op = Inl e"
  by (cases op) (auto simp: pg_load_def repo_op_defs try_bind_Inl_iff)

lemma pg_exec_refused:
  "pg_load clock db rid = Inr t \<Longrightarrow> task_apply t (domain_op op) = Inl e \<Longrightarrow>
     pg_exec clock uid db rid op = Inl e"
  by (cases op) (auto simp: pg_load_def repo_op_defs try_bind_Inr_iff)

interpretation pg: task_port "\<lambda>_. True" "pg_load clock" "pg_exec clock uid" for clock uid
proof
  fix db rid op t t'
  assume load: "pg_load clock db rid = Inr t" and app: "task_apply t (domain_op op) = Inr t'"
  from pg_exec_done [OF this, of uid] obtain row0 row db' where
    row0: "row_get trr_task_run_id rid (db_runs db) = Some row0" and
    ex: "pg_exec clock uid db rid op = Inr (t', db')" and id: "trr_task_run_id row = rid" and
    runs: "db_runs db' = db_runs (write_row row db)" and st: "stores t' row"
    by blast
  from stores_row_domain [OF st] obtain s where
    "row_domain clock row = Inr s" "lease_view s = lease_view t'" by blast
  with ex pg_load_write [OF row0 id runs, of clock]
  show "\<exists>r d' s. pg_exec clock uid db rid op = Inr (r, d') \<and> True \<and> pg_load clock d' rid = Inr s \<and>
      lease_view r = lease_view t' \<and> lease_view s = lease_view t' \<and>
      (\<forall>rid'. rid' \<noteq> rid \<longrightarrow> pg_load clock d' rid' = pg_load clock db rid')"
    by auto
qed (simp_all add: pg_exec_load_error pg_exec_refused)

section \<open>The in-memory repository and the service\<close>

type_synonym mem_db = "string \<Rightarrow> task_run option"

definition mem_get :: "mem_db \<Rightarrow> string \<Rightarrow> task_run option" where
  "mem_get m rid = m rid"

definition mem_put :: "task_run \<Rightarrow> mem_db \<Rightarrow> task_run \<times> mem_db" where
  "mem_put t m = (t, m(task_run_id t \<mapsto> t))"

text \<open>\<open>_get\<close> and \<open>_save\<close> of the service over a repository with \<open>get\<close> and \<open>put\<close> only.\<close>

definition service_get :: "mem_db \<Rightarrow> string \<Rightarrow> task_run result" where
  "service_get m rid = (case mem_get m rid of None \<Rightarrow> Inl (KeyError rid) | Some t \<Rightarrow> Inr t)"

definition service_save ::
  "mem_db \<Rightarrow> string \<Rightarrow> (task_run \<Rightarrow> task_run result) \<Rightarrow> (task_run \<times> mem_db) result" where
  "service_save m rid update =
     try_bind (service_get m rid) (\<lambda>t. try_bind (update t) (\<lambda>t'. Inr (mem_put t' m)))"

definition service_create :: "string \<Rightarrow> string option \<Rightarrow> string \<Rightarrow> mem_db \<Rightarrow> task_run \<times> mem_db" where
  "service_create ttype rid fresh_id m = mem_put (create_task ttype rid fresh_id) m"

definition pg_service_create ::
  "pydt \<Rightarrow> string \<Rightarrow> string option \<Rightarrow> string \<Rightarrow> task_db \<Rightarrow> task_run \<times> task_db" where
  "pg_service_create clock ttype rid fresh_id db = repo_create clock (create_task ttype rid fresh_id) db"

definition service_operator ::
  "mem_db \<Rightarrow> string \<Rightarrow> string \<Rightarrow> string \<Rightarrow> string \<Rightarrow> string \<Rightarrow> pydt \<Rightarrow> (task_run \<times> mem_db) result" where
  "service_operator m rid action actor reason request_id now =
     service_save m rid (\<lambda>t. try_bind (operator_action action actor now t) (\<lambda>t'.
       Inr (add_audit ''operator_request'' actor
         (''reason='' @ reason @ '';request_id='' @ request_id) None now t')))"

fun mem_exec :: "mem_db \<Rightarrow> string \<Rightarrow> port_op \<Rightarrow> (task_run \<times> mem_db) result" where
  "mem_exec m rid (PAcquire w now ttl) = service_save m rid (acquire_lease w now ttl)"
| "mem_exec m rid (PRenew w k now ttl) = service_save m rid (renew_lease w k now ttl)"
| "mem_exec m rid (PCheckpoint w k cp now) = service_save m rid (save_checkpoint w k cp now)"
| "mem_exec m rid (PTransition s w k now) = service_save m rid (transition_to s w k now)"
| "mem_exec m rid (POperator a actor reason req now) = service_operator m rid a actor reason req now"

definition mem_invar :: "mem_db \<Rightarrow> bool" where
  "mem_invar m \<longleftrightarrow> (\<forall>rid t. m rid = Some t \<longrightarrow> task_run_id t = rid)"

interpretation mem: task_port mem_invar service_get mem_exec
proof
  fix m rid e op
  assume "service_get m rid = Inl e"
  then show "mem_exec m rid op = Inl e"
    by (cases op) (simp_all add: service_save_def service_operator_def)
next
  fix m rid t op e
  assume "service_get m rid = Inr t" "task_apply t (domain_op op) = Inl e"
  then show "mem_exec m rid op = Inl e"
    by (cases op) (simp_all add: service_save_def service_operator_def)
next
  fix m rid t op t'
  assume inv: "mem_invar m" and get: "service_get m rid = Inr t"
    and app: "task_apply t (domain_op op) = Inr t'"
  have id: "task_run_id t' = rid"
    using inv get task_apply_id [OF app]
    by (auto simp: mem_invar_def service_get_def mem_get_def split: option.splits)
  have inv': "mem_invar (m(rid \<mapsto> x))" if "task_run_id x = rid" for x
    using inv that by (auto simp: mem_invar_def)
  have eff: "\<exists>r. mem_exec m rid op = Inr (r, m(rid \<mapsto> r)) \<and> task_run_id r = rid \<and>
      lease_view r = lease_view t'"
    using app id get
    by (cases op) (auto simp: service_save_def service_operator_def mem_put_def lease_view_def)
  then obtain r where r: "mem_exec m rid op = Inr (r, m(rid \<mapsto> r))" "task_run_id r = rid"
    "lease_view r = lease_view t'" by blast
  show "\<exists>r d' s. mem_exec m rid op = Inr (r, d') \<and> mem_invar d' \<and> service_get d' rid = Inr s \<and>
      lease_view r = lease_view t' \<and> lease_view s = lease_view t' \<and>
      (\<forall>rid'. rid' \<noteq> rid \<longrightarrow> service_get d' rid' = service_get m rid')"
    by (intro exI [of _ r] exI [of _ "m(rid \<mapsto> r)"] exI [of _ r])
       (use r inv' in \<open>auto simp: service_get_def mem_get_def\<close>)
qed

section \<open>Two stores behind one service\<close>

definition port_obs ::
  "('d \<Rightarrow> string \<Rightarrow> port_op \<Rightarrow> (task_run \<times> 'd) result) \<Rightarrow> 'd \<Rightarrow> string \<times> port_op \<Rightarrow> lease_view_t result"
  where
  "port_obs exec d c =
     (case exec d (fst c) (snd c) of Inl e \<Rightarrow> Inl e | Inr (t, d') \<Rightarrow> Inr (lease_view t))"

text \<open>
  The calls of \<open>TaskLeaseService\<close>: \<open>create\<close> with the id and the uuid it falls back on, or an operation
  on a run. A sequence of calls shows, for each, the exception or the lease state of the result.
\<close>

datatype service_call =
    Create string "string option" string
  | Call string port_op

fun service_trace ::
  "(string \<Rightarrow> string option \<Rightarrow> string \<Rightarrow> 'd \<Rightarrow> task_run \<times> 'd) \<Rightarrow>
     ('d \<Rightarrow> string \<Rightarrow> port_op \<Rightarrow> (task_run \<times> 'd) result) \<Rightarrow> 'd \<Rightarrow> service_call list \<Rightarrow> lease_view_t result list" where
  "service_trace create exec d [] = []"
| "service_trace create exec d (Create ttype rid fresh_id # cs) =
     (case create ttype rid fresh_id d of (t, d') \<Rightarrow> Inr (lease_view t) # service_trace create exec d' cs)"
| "service_trace create exec d (Call rid op # cs) =
     port_obs exec d (rid, op) # service_trace create exec (port_step exec d (rid, op)) cs"

text \<open>No call creates a run whose id is known or created before.\<close>

fun creates_new :: "string list \<Rightarrow> service_call list \<Rightarrow> bool" where
  "creates_new known [] \<longleftrightarrow> True"
| "creates_new known (Create ttype rid fresh_id # cs) \<longleftrightarrow>
     str_or rid fresh_id \<notin> set known \<and> creates_new (str_or rid fresh_id # known) cs"
| "creates_new known (Call rid op # cs) \<longleftrightarrow> creates_new known cs"

definition view_load :: "('d \<Rightarrow> string \<Rightarrow> task_run result) \<Rightarrow> 'd \<Rightarrow> string \<Rightarrow> lease_view_t result" where
  "view_load load d rid = (case load d rid of Inl e \<Rightarrow> Inl e | Inr t \<Rightarrow> Inr (lease_view t))"

text \<open>A domain operation sees the lease fields only.\<close>

lemma require_lease_view:
  "lease_view a = lease_view b \<Longrightarrow> require_lease w k now a = require_lease w k now b"
  by (simp add: lease_view_def require_lease_def)

lemma operator_effect_view:
  "lease_view a = lease_view b \<Longrightarrow> lease_view (operator_effect x a) = lease_view (operator_effect x b)"
  by (cases x) (simp_all add: lease_view_def)

lemma task_apply_view:
  assumes "lease_view a = lease_view b"
  shows "(case task_apply a op of Inl e \<Rightarrow> Inl e | Inr t \<Rightarrow> Inr (lease_view t)) =
         (case task_apply b op of Inl e \<Rightarrow> Inl e | Inr t \<Rightarrow> Inr (lease_view t))"
proof (cases op)
  case (Acquire w now ttl)
  with assms show ?thesis by (auto simp: acquire_lease_def Let_def lease_view_def)
next
  case (Renew w k now ttl)
  with assms require_lease_view [OF assms] show ?thesis
    by (auto simp: renew_lease_def Let_def lease_view_def try_bind_def split: sum.splits)
next
  case (Release w k now)
  with assms require_lease_view [OF assms] show ?thesis
    by (auto simp: release_lease_def Let_def lease_view_def try_bind_def split: sum.splits)
next
  case (SaveCheckpoint w k cp now)
  with assms require_lease_view [OF assms] show ?thesis
    by (auto simp: save_checkpoint_def Let_def lease_view_def try_bind_def split: sum.splits)
next
  case (Transition s w k now)
  with assms require_lease_view [OF assms] show ?thesis
    by (auto simp: transition_to_def Let_def lease_view_def try_bind_def split: sum.splits)
next
  case (Operator act actor now)
  show ?thesis
  proof (cases "operator_action_of act")
    case (Inr x)
    with Operator operator_effect_view [OF assms, of x] show ?thesis
      by (simp add: operator_action_def lease_view_def)
  qed (simp add: Operator operator_action_def)
qed

locale two_ports =
  A: task_port invarA loadA execA + B: task_port invarB loadB execB
  for invarA :: "'a \<Rightarrow> bool" and loadA :: "'a \<Rightarrow> string \<Rightarrow> task_run result"
    and execA :: "'a \<Rightarrow> string \<Rightarrow> port_op \<Rightarrow> (task_run \<times> 'a) result"
    and invarB :: "'b \<Rightarrow> bool" and loadB :: "'b \<Rightarrow> string \<Rightarrow> task_run result"
    and execB :: "'b \<Rightarrow> string \<Rightarrow> port_op \<Rightarrow> (task_run \<times> 'b) result"
begin

lemma call_agrees:
  assumes inv: "invarA a" "invarB b" and view: "view_load loadA a = view_load loadB b"
  shows "port_obs execA a c = port_obs execB b c \<and>
    view_load loadA (port_step execA a c) = view_load loadB (port_step execB b c)"
proof -
  obtain rid op where c: "c = (rid, op)" by (cases c)
  have v: "view_load loadA a rid' = view_load loadB b rid'" for rid' using view by simp
  show ?thesis
  proof (cases "loadA a rid")
    case (Inl e)
    with v [of rid] have "loadB b rid = Inl e" by (auto simp: view_load_def split: sum.splits)
    with Inl A.exec_error [OF inv(1)] B.exec_error [OF inv(2)] c view show ?thesis
      by (auto simp: port_obs_def port_step_def)
  next
    case (Inr t)
    with v [of rid] obtain u where u: "loadB b rid = Inr u" and tu: "lease_view t = lease_view u"
      by (auto simp: view_load_def split: sum.splits)
    note same = task_apply_view [OF tu, of "domain_op op"]
    show ?thesis
    proof (cases "task_apply t (domain_op op)")
      case (Inl e)
      with same have "task_apply u (domain_op op) = Inl e" by (auto split: sum.splits)
      with Inl A.exec_refused [OF inv(1) Inr] B.exec_refused [OF inv(2) u] c view show ?thesis
        by (auto simp: port_obs_def port_step_def)
    next
      case (Inr t')
      with same obtain u' where u': "task_apply u (domain_op op) = Inr u'"
        and tu': "lease_view t' = lease_view u'" by (auto split: sum.splits)
      from A.exec_done [OF inv(1) \<open>loadA a rid = Inr t\<close> Inr] obtain r a' s where
        A: "execA a rid op = Inr (r, a')" "loadA a' rid = Inr s" "lease_view r = lease_view t'"
          "lease_view s = lease_view t'" "\<forall>rid'. rid' \<noteq> rid \<longrightarrow> loadA a' rid' = loadA a rid'"
        by blast
      from B.exec_done [OF inv(2) u u'] obtain q b' z where
        B: "execB b rid op = Inr (q, b')" "loadB b' rid = Inr z" "lease_view q = lease_view u'"
          "lease_view z = lease_view u'" "\<forall>rid'. rid' \<noteq> rid \<longrightarrow> loadB b' rid' = loadB b rid'"
        by blast
      have "view_load loadA a' rid' = view_load loadB b' rid'" for rid'
        using A B tu' v [of rid'] by (cases "rid' = rid") (auto simp: view_load_def)
      with A B c tu' show ?thesis by (simp add: port_obs_def port_step_def fun_eq_iff)
    qed
  qed
qed

lemma call_keeps_absent:
  assumes "invarA a" and "loadA a rid = Inl e"
  shows "loadA (port_step execA a c) rid = Inl e"
proof -
  obtain rid' op where c: "c = (rid', op)" by (cases c)
  show ?thesis unfolding c
  proof (rule A.step_cases [OF assms(1), of rid' op])
    fix t t' r d' s
    assume "port_step execA a (rid', op) = d'" "loadA a rid' = Inr t" "\<And>k. k \<noteq> rid' \<Longrightarrow> loadA d' k = loadA a k"
    with assms(2) show "loadA (port_step execA a (rid', op)) rid = Inl e" by (cases "rid = rid'") auto
  qed (simp add: assms(2))
qed

end

text \<open>Two stores whose \<open>create\<close> inserts an id that is not there.\<close>

locale two_services =
  two_ports invarA loadA execA invarB loadB execB
  for invarA :: "'a \<Rightarrow> bool" and loadA :: "'a \<Rightarrow> string \<Rightarrow> task_run result"
    and execA :: "'a \<Rightarrow> string \<Rightarrow> port_op \<Rightarrow> (task_run \<times> 'a) result"
    and invarB :: "'b \<Rightarrow> bool" and loadB :: "'b \<Rightarrow> string \<Rightarrow> task_run result"
    and execB :: "'b \<Rightarrow> string \<Rightarrow> port_op \<Rightarrow> (task_run \<times> 'b) result" +
  fixes createA :: "string \<Rightarrow> string option \<Rightarrow> string \<Rightarrow> 'a \<Rightarrow> task_run \<times> 'a"
    and createB :: "string \<Rightarrow> string option \<Rightarrow> string \<Rightarrow> 'b \<Rightarrow> task_run \<times> 'b"
  assumes createA: "invarA a \<Longrightarrow> loadA a (str_or rid u) = Inl (KeyError (str_or rid u)) \<Longrightarrow>
      \<exists>a'. createA ttype rid u a = (create_task ttype rid u, a') \<and> invarA a' \<and>
        view_load loadA a' = (view_load loadA a)(str_or rid u := Inr (lease_view (create_task ttype rid u)))"
    and createB: "invarB b \<Longrightarrow> loadB b (str_or rid u) = Inl (KeyError (str_or rid u)) \<Longrightarrow>
      \<exists>b'. createB ttype rid u b = (create_task ttype rid u, b') \<and> invarB b' \<and>
        view_load loadB b' = (view_load loadB b)(str_or rid u := Inr (lease_view (create_task ttype rid u)))"
begin

lemma traces_agree:
  "invarA a \<Longrightarrow> invarB b \<Longrightarrow> view_load loadA a = view_load loadB b \<Longrightarrow>
     \<forall>rid. rid \<notin> set known \<longrightarrow> loadA a rid = Inl (KeyError rid) \<Longrightarrow> creates_new known cs \<Longrightarrow>
     service_trace createA execA a cs = service_trace createB execB b cs"
proof (induction cs arbitrary: a b known)
  case Nil
  then show ?case by simp
next
  case (Cons c cs)
  note view = Cons.prems(3) [THEN fun_cong]
  show ?case
  proof (cases c)
    case (Call rid op)
    from call_agrees [OF Cons.prems(1-3), of "(rid, op)"] Cons.IH [of _ _ known] A.port.step_invar B.port.step_invar
      Cons.prems call_keeps_absent [OF Cons.prems(1)] Call
    show ?thesis by simp
  next
    case (Create ttype rid u)
    let ?id = "str_or rid u"
    have absent: "loadA a ?id = Inl (KeyError ?id)" using Cons.prems(4,5) Create by simp
    with view [of ?id] have "loadB b ?id = Inl (KeyError ?id)" by (auto simp: view_load_def split: sum.splits)
    from createA [OF Cons.prems(1) absent, of ttype] createB [OF Cons.prems(2) this, of ttype] obtain a' b' where
      a': "createA ttype rid u a = (create_task ttype rid u, a')" "invarA a'"
        "view_load loadA a' = (view_load loadA a)(?id := Inr (lease_view (create_task ttype rid u)))" and
      b': "createB ttype rid u b = (create_task ttype rid u, b')" "invarB b'"
        "view_load loadB b' = (view_load loadB b)(?id := Inr (lease_view (create_task ttype rid u)))" by blast
    have "loadA a' r = Inl (KeyError r)" if "r \<notin> set (?id # known)" for r
      using fun_cong [OF a'(3), of r] that Cons.prems(4) by (auto simp: view_load_def split: sum.splits)
    then have "service_trace createA execA a' cs = service_trace createB execB b' cs"
      using Cons.IH [OF a'(2) b'(2), of "?id # known"] a'(3) b'(3) Cons.prems(3,5) Create by simp
    then show ?thesis by (simp add: Create a'(1) b'(1))
  qed
qed

end

lemma pg_absent: "pg_load clock db rid = Inl (KeyError k) \<Longrightarrow> row_get trr_task_run_id rid (db_runs db) = None"
  by (auto simp: pg_load_def locked_row_def row_domain_def try_bind_Inl_iff task_run_state_of_def split: option.splits)

interpretation stores: two_services mem_invar service_get mem_exec "\<lambda>_. True" "pg_load clock"
  "pg_exec clock uid" service_create "pg_service_create clock" for clock uid
proof
  fix m rid u ttype
  assume "mem_invar m"
  then show "\<exists>m'. service_create ttype rid u m = (create_task ttype rid u, m') \<and> mem_invar m' \<and>
      view_load service_get m' = (view_load service_get m)(str_or rid u := Inr (lease_view (create_task ttype rid u)))"
    by (intro exI [of _ "m(str_or rid u \<mapsto> create_task ttype rid u)"])
       (simp add: service_create_def mem_put_def mem_invar_def create_task_def view_load_def service_get_def mem_get_def fun_eq_iff)
next
  fix db rid u ttype
  assume "pg_load clock db (str_or rid u) = Inl (KeyError (str_or rid u))"
  from pg_absent [OF this]
  show "\<exists>db'. pg_service_create clock ttype rid u db = (create_task ttype rid u, db') \<and> True \<and>
      view_load (pg_load clock) db' = (view_load (pg_load clock) db)(str_or rid u := Inr (lease_view (create_task ttype rid u)))"
    by (auto simp: pg_service_create_def repo_create_def create_task_def view_load_def pg_load_def locked_row_def
        row_get_add row_domain_def task_run_state_of_def all_task_states_def lease_view_def fun_eq_iff split: option.splits)
qed

section \<open>Properties\<close>

definition empty_db :: task_db where
  "empty_db = \<lparr>db_runs = [], db_operator_audit = []\<rparr>"

text \<open>
  C2. Fencing in the database. After the SQL repository has granted a task again, a worker whose
  token is not above the token stored before that grant can neither renew, checkpoint nor move the
  task, whatever calls on any tasks of the database come in between.
\<close>

theorem repo_fencing_safety:
  assumes "repo_acquire clock rid w' now' ttl' db = Inr (t', db')"
    and "k \<le> port_token (pg_load clock) rid db"
  shows "(\<exists>e. repo_renew clock rid w k now ttl (run_ops (port_step (pg_exec clock uid)) db' cs) = Inl e) \<and>
    (\<exists>e. repo_save_checkpoint clock rid w k cp now
       (run_ops (port_step (pg_exec clock uid)) db' cs) = Inl e) \<and>
    (\<exists>e. repo_transition clock rid target w k now
       (run_ops (port_step (pg_exec clock uid)) db' cs) = Inl e)"
proof -
  let ?c = "(rid, PAcquire w' now' ttl')"
  have g: "port_granted (pg_exec clock uid) rid db ?c = Some (tr_fencing_token t')"
    and step: "port_step (pg_exec clock uid) db ?c = db'"
    using assms(1) by (simp_all add: port_granted_def port_step_def)
  note stale = pg.stale_call [where op = op for op, OF TrueI g assms(2), unfolded step]
  from stale [of "PRenew w k now ttl"] stale [of "PCheckpoint w k cp now"]
    stale [of "PTransition target w k now"]
  show ?thesis by simp
qed

definition example_db :: task_db where
  "example_db = snd (pg_service_create (Naive 0) ''index_rebuild'' (Some ''run_1'') ''run_x'' empty_db)"

lemmas example_db_simps = example_db_def pg_service_create_def repo_create_def empty_db_def
  create_task_def row_add_def pg_load_def locked_row_def row_domain_def repo_acquire_def
  task_run_state_of_def all_task_states_def port_token_def acquire_lease_def Let_def

theorem repo_fencing_safety_witness:
  "\<exists>t' db'. repo_acquire (Naive 0) ''run_1'' ''b'' (Naive 0) 10 example_db = Inr (t', db') \<and>
     (\<exists>e. repo_renew (Naive 0) ''run_1'' ''a'' 0 (Naive 1) 10
        (run_ops (port_step (pg_exec (Naive 0) ''u'')) db' []) = Inl e)"
proof -
  obtain t' db' where acq: "repo_acquire (Naive 0) ''run_1'' ''b'' (Naive 0) 10 example_db = Inr (t', db')"
    by (simp add: example_db_simps)
  have k: "0 \<le> port_token (pg_load (Naive 0)) ''run_1'' example_db"
    by (simp add: example_db_simps)
  from repo_fencing_safety [OF acq k, of "''a''" "Naive 1" 10 "''u''" "[]"] acq
  show ?thesis by blast
qed

text \<open>
  C16. The in-memory repository and the SQL repository are interchangeable behind the service: from empty
  stores, every sequence of its calls, creations included, gets the same exceptions and the same lease
  state (state, owner, expiry, fencing token, attempt) from both, as long as no run is created twice. A
  second creation of an id tells them apart (\<open>recreate_diverges\<close>).
\<close>

theorem stores_equivalent:
  assumes "creates_new [] cs"
  shows "service_trace service_create mem_exec (\<lambda>_. None) cs =
    service_trace (pg_service_create clock) (pg_exec clock uid) empty_db cs"
proof (rule stores.traces_agree)
  show "mem_invar (\<lambda>_. None)" by (simp add: mem_invar_def)
  show "view_load service_get (\<lambda>_. None) = view_load (pg_load clock) empty_db"
    by (simp add: fun_eq_iff view_load_def service_get_def mem_get_def pg_load_def locked_row_def empty_db_def)
  show "\<forall>rid. rid \<notin> set [] \<longrightarrow> service_get (\<lambda>_. None) rid = Inl (KeyError rid)"
    by (simp add: service_get_def mem_get_def)
qed (simp_all add: assms)

definition two_runs :: "service_call list" where
  "two_runs = [Create ''index_rebuild'' (Some ''run_1'') ''u1'', Call ''run_1'' (PAcquire ''a'' (Naive 0) 10),
     Create ''index_rebuild'' None ''u2'', Call ''run_1'' (PAcquire ''b'' (Naive 1) 10)]"

theorem stores_equivalent_witness:
  "service_trace service_create mem_exec (\<lambda>_. None) two_runs =
     service_trace (pg_service_create (Naive 0)) (pg_exec (Naive 0) ''u'') empty_db two_runs"
  by (rule stores_equivalent) (simp add: two_runs_def str_or_def)

text \<open>
  The in-memory repository stores the created run over an existing one, which the SQL repository leaves
  alone: after a second \<open>create\<close> the lease of the first owner is gone in memory, and the next worker takes
  the run with the same token, while the SQL store refuses it.
\<close>

definition recreated_run :: "service_call list" where
  "recreated_run = [Create ''index_rebuild'' (Some ''run_1'') ''u1'', Call ''run_1'' (PAcquire ''a'' (Naive 0) 10),
     Create ''index_rebuild'' (Some ''run_1'') ''u2'', Call ''run_1'' (PAcquire ''b'' (Naive 1) 10)]"

lemma recreate_diverges:
  "service_trace service_create mem_exec (\<lambda>_. None) recreated_run ! 3 =
     Inr (RUNNING, Some ''b'', Some (Aware 11 0), 1, 0) \<and>
   service_trace (pg_service_create (Naive 0)) (pg_exec (Naive 0) ''u'') empty_db recreated_run ! 3 =
     Inl (LeaseError ''task lease is held by another worker'')"
  by (simp add: recreated_run_def service_create_def mem_put_def port_obs_def port_step_def service_save_def service_get_def
      mem_get_def lease_view_def add_audit_def write_row_def row_put_def example_db_simps)

text \<open>
  Writing a task back and reading it again: after \<open>put\<close> succeeds, \<open>get\<close> returns the stored
  lease state and, with pairwise different checkpoint names, the stored checkpoints in order.
\<close>

theorem repo_put_get:
  assumes "repo_put clock t db = Inr (r, db')" and "distinct (map cp_name (tr_checkpoints t))"
  shows "\<exists>s. repo_get clock db' (task_run_id t) = Inr (Some s) \<and> lease_view s = lease_view t \<and>
    map (\<lambda>c. (cp_name c, cp_payload c)) (tr_checkpoints s) =
      map (\<lambda>c. (cp_name c, cp_payload c)) (tr_checkpoints t)"
proof -
  obtain row0 where row0: "row_get trr_task_run_id (task_run_id t) (db_runs db) = Some row0"
    and id: "trr_task_run_id row0 = task_run_id t" and tok: "trr_fencing_token row0 = tr_fencing_token t"
    and db': "db' = write_row (row0\<lparr>trr_state := state_value (tr_state t), trr_owner := tr_owner t,
          trr_lease_expires_at := tr_lease_expires_at t, trr_attempt := tr_attempt t,
          trr_checkpoints := checkpoint_dict t, trr_updated_at := clock\<rparr>) db"
    using assms(1)
    by (auto simp: repo_put_def locked_row_def try_bind_Inr_iff dest: row_get_Some_key split: option.splits)
  have keys: "map (\<lambda>c. (cp_name c, cp_payload c)) (tr_checkpoints t) = checkpoint_dict t"
    unfolding checkpoint_dict_def
    by (rule dict_of_pairs_distinct [symmetric]) (use assms(2) in \<open>simp add: comp_def\<close>)
  from row0 id tok db' show ?thesis
    by (auto simp: repo_get_def write_row_def row_get_put row_domain_def task_run_state_roundtrip
        lease_view_def keys comp_def split_def)
qed

theorem repo_put_get_witness:
  "\<exists>s. repo_get (Naive 0) (snd (projr (repo_put (Naive 0) example_run example_db))) ''run_1'' =
      Inr (Some s) \<and> lease_view s = lease_view example_run"
proof -
  have put: "repo_put (Naive 0) example_run example_db =
      Inr (example_run, snd (projr (repo_put (Naive 0) example_run example_db)))"
    by (simp add: example_db_simps repo_put_def example_run_def)
  have d: "distinct (map cp_name (tr_checkpoints example_run))"
    by (simp add: example_run_def create_task_def)
  have id: "task_run_id example_run = ''run_1''" by (simp add: example_run_def create_task_def)
  from repo_put_get [OF put d] show ?thesis unfolding id by blast
qed

end
