(* ===== verification/Redaction.thy ===== *)
theory Redaction
  imports Json
begin

text \<open>
  \<open>domain/security_redaction.py\<close>: what every durable or diagnostic text goes through. The three
  regular expressions are written as scanners over the text, \<open>urlsplit\<close> and \<open>urlunsplit\<close> as the
  standard library defines them for the parts the source reads (a netloc with unbalanced brackets
  raises \<open>ValueError\<close>). Character classes are those of ASCII text.
\<close>

section \<open>Characters and searching\<close>

definition in_range :: "nat \<Rightarrow> char \<Rightarrow> nat \<Rightarrow> bool" where
  "in_range lo c hi \<longleftrightarrow> lo \<le> of_char c \<and> of_char c \<le> (hi :: nat)"

definition is_upper :: "char \<Rightarrow> bool" where "is_upper c = in_range 65 c 90"
definition is_lower :: "char \<Rightarrow> bool" where "is_lower c = in_range 97 c 122"
definition is_digit :: "char \<Rightarrow> bool" where "is_digit c = in_range 48 c 57"
definition is_alpha :: "char \<Rightarrow> bool" where "is_alpha c = (is_upper c \<or> is_lower c)"
definition is_word :: "char \<Rightarrow> bool" where "is_word c = (is_alpha c \<or> is_digit c \<or> c = CHR ''_'')"
definition is_space :: "char \<Rightarrow> bool" where "is_space c = (in_range 9 c 13 \<or> in_range 28 c 32)"

definition lower_char :: "char \<Rightarrow> char" where
  "lower_char c = (if is_upper c then char_of ((of_char c :: nat) + 32) else c)"

definition lower :: "string \<Rightarrow> string" where
  "lower s = map lower_char s"

definition starts_with :: "string \<Rightarrow> string \<Rightarrow> bool" where
  "starts_with p s \<longleftrightarrow> take (length p) s = p"

fun contains_sub :: "string \<Rightarrow> string \<Rightarrow> bool" where
  "contains_sub p [] = (p = [])"
| "contains_sub p (c # s) = (starts_with p (c # s) \<or> contains_sub p s)"

section \<open>Sensitive keys\<close>

text \<open>The alternatives of \<open>_SENSITIVE_KEY\<close>, with the optional separators spelled out.\<close>

definition sensitive_words :: "string list" where
  "sensitive_words =
     [''authorization'', ''cookie'', ''storagestate'', ''storage state'', ''storage_state'',
      ''storage-state'', ''secret'', ''token'', ''password'', ''apikey'', ''api key'', ''api_key'',
      ''api-key'', ''signed'']"

definition sensitive_key_match :: "string \<Rightarrow> bool" where
  "sensitive_key_match key \<longleftrightarrow> list_ex (\<lambda>w. contains_sub w (lower key)) sensitive_words"

definition public_operational_keys :: "string set" where
  "public_operational_keys = {''fencing_token''}"

definition redacted_key :: "string \<Rightarrow> bool" where
  "redacted_key key \<longleftrightarrow> key \<noteq> [] \<and> lower key \<notin> public_operational_keys \<and> sensitive_key_match key"

section \<open>URLs\<close>

record url_parts =
  url_scheme :: string
  url_netloc :: string
  url_path :: string
  url_query :: string
  url_fragment :: string

definition scheme_char :: "char \<Rightarrow> bool" where
  "scheme_char c \<longleftrightarrow> is_alpha c \<or> is_digit c \<or> c \<in> {CHR ''+'', CHR ''-'', CHR ''.''}"

definition split_scheme :: "string \<Rightarrow> string \<times> string" where
  "split_scheme url =
     (let pre = takeWhile (\<lambda>c. c \<noteq> CHR '':'') url; post = dropWhile (\<lambda>c. c \<noteq> CHR '':'') url
      in if post \<noteq> [] \<and> pre \<noteq> [] \<and> is_alpha (hd pre) \<and> list_all scheme_char pre
         then (lower pre, tl post) else ([], url))"

definition split_at :: "char \<Rightarrow> string \<Rightarrow> string \<times> string" where
  "split_at d s = (takeWhile (\<lambda>c. c \<noteq> d) s, drop 1 (dropWhile (\<lambda>c. c \<noteq> d) s))"

definition netloc_end :: "char \<Rightarrow> bool" where
  "netloc_end c \<longleftrightarrow> c \<in> {CHR ''/'', CHR ''?'', CHR ''#''}"

definition strip_url :: "string \<Rightarrow> string" where
  "strip_url url =
     filter (\<lambda>c. c \<notin> {CHR 0x09, CHR 0x0A, CHR 0x0D}) (dropWhile (\<lambda>c. in_range 0 c 32) url)"

definition urlsplit :: "string \<Rightarrow> url_parts result" where
  "urlsplit raw =
     (let (scheme, url) = split_scheme (strip_url raw);
          has_netloc = starts_with ''//'' url;
          netloc = (if has_netloc then takeWhile (\<lambda>c. \<not> netloc_end c) (drop 2 url) else []);
          rest = (if has_netloc then dropWhile (\<lambda>c. \<not> netloc_end c) (drop 2 url) else url)
      in if (CHR ''['' \<in> set netloc) \<noteq> (CHR '']'' \<in> set netloc)
         then Inl (ValueError ''Invalid IPv6 URL'')
         else (let (before, fragment) = split_at (CHR ''#'') rest;
                   (path, query) = split_at (CHR ''?'') before
               in Inr \<lparr>url_scheme = scheme, url_netloc = netloc, url_path = path,
                       url_query = query, url_fragment = fragment\<rparr>))"

text \<open>\<open>urlunsplit((scheme, netloc, path, "", ""))\<close> for a non-empty scheme and netloc.\<close>

definition url_without_query :: "url_parts \<Rightarrow> string" where
  "url_without_query u =
     url_scheme u @ ''://'' @ url_netloc u @
       (if url_path u \<noteq> [] \<and> hd (url_path u) \<noteq> CHR ''/'' then CHR ''/'' # url_path u else url_path u)"

section \<open>Credential forms in text\<close>

definition redacted :: string where
  "redacted = ''<redacted>''"

text \<open>\<open>\bbearer\s+\S+\<close> at the head of the text: what follows the match.\<close>

definition match_bearer :: "string \<Rightarrow> string option" where
  "match_bearer s =
     (if lower (take 6 s) = ''bearer''
      then (let r = drop 6 s; r' = dropWhile is_space r
            in if r \<noteq> [] \<and> is_space (hd r) \<and> r' \<noteq> [] then Some (dropWhile (\<lambda>c. \<not> is_space c) r')
               else None)
      else None)"

definition assignment_names :: "string list" where
  "assignment_names =
     [''token'', ''signature'', ''sig'', ''x-amz-signature'', ''x-amz-credential'',
      ''authorization'', ''cookie'', ''key'']"

text \<open>\<open>\b(name)=[^\s&]+\<close> at the head of the text: the matched name and what follows.\<close>

definition match_assignment :: "string \<Rightarrow> (string \<times> string) option" where
  "match_assignment s =
     (case find (\<lambda>n. lower (take (length n) s) = n \<and> take 1 (drop (length n) s) = ''='' \<and>
              (case drop (Suc (length n)) s of [] \<Rightarrow> False
               | c # _ \<Rightarrow> \<not> is_space c \<and> c \<noteq> CHR ''&'')) assignment_names of
        None \<Rightarrow> None
      | Some n \<Rightarrow> Some (take (length n) s,
          dropWhile (\<lambda>c. \<not> is_space c \<and> c \<noteq> CHR ''&'') (drop (Suc (length n)) s)))"

lemma match_assignment_rest:
  assumes "match_assignment s = Some (name, rest)"
  shows "length rest \<le> length s - 1"
proof -
  from assms obtain n :: string where "rest = dropWhile (\<lambda>c. \<not> is_space c \<and> c \<noteq> CHR ''&'') (drop (Suc (length n)) s)"
    by (auto simp: match_assignment_def split: option.splits)
  then have "length rest \<le> length (drop (Suc (length n)) s)"
    by (metis length_dropWhile_le)
  then show ?thesis by simp
qed

text \<open>The left-to-right substitutions; the flag says that a word character precedes the text.\<close>

function sub_bearer :: "bool \<Rightarrow> string \<Rightarrow> string" where
  "sub_bearer w [] = []"
| "sub_bearer w (c # s) =
     (case (if w then None else match_bearer (c # s)) of
        Some rest \<Rightarrow> ''Bearer '' @ redacted @ sub_bearer False rest
      | None \<Rightarrow> c # sub_bearer (is_word c) s)"
  by pat_completeness auto
termination
proof (relation "measure (\<lambda>(w, s). length s)", goal_cases)
  case (3 w c s rest)
  then have "match_bearer (c # s) = Some rest" by (auto split: if_splits)
  then have "rest = dropWhile (\<lambda>c. \<not> is_space c) (dropWhile is_space (drop 6 (c # s)))"
    by (auto simp: match_bearer_def Let_def split: if_splits)
  then have "length rest \<le> length (drop 6 (c # s))"
    by (metis length_dropWhile_le order_trans)
  then show ?case by simp
qed simp_all

function sub_assignment :: "bool \<Rightarrow> string \<Rightarrow> string" where
  "sub_assignment w [] = []"
| "sub_assignment w (c # s) =
     (case (if w then None else match_assignment (c # s)) of
        Some (name, rest) \<Rightarrow> name @ ''='' @ redacted @ sub_assignment False rest
      | None \<Rightarrow> c # sub_assignment (is_word c) s)"
  by pat_completeness auto
termination
proof (relation "measure (\<lambda>(w, s). length s)", goal_cases)
  case (3 w c s p name rest)
  then have "match_assignment (c # s) = Some (name, rest)" by (auto split: if_splits)
  from match_assignment_rest [OF this] show ?case by simp
qed simp_all

definition redact_text :: "string \<Rightarrow> string result" where
  "redact_text value =
     try_bind (urlsplit value) (\<lambda>parsed.
       if url_scheme parsed \<noteq> [] \<and> url_netloc parsed \<noteq> []
       then Inr (url_without_query parsed)
       else Inr (sub_assignment False (sub_bearer False value)))"

text \<open>\<open>re.search\<close>: some position of the text starts a match.\<close>

fun sub_bearer_hit :: "bool \<Rightarrow> string \<Rightarrow> bool" where
  "sub_bearer_hit w [] = False"
| "sub_bearer_hit w (c # s) =
     ((\<not> w \<and> match_bearer (c # s) \<noteq> None) \<or> sub_bearer_hit (is_word c) s)"

fun sub_assignment_hit :: "bool \<Rightarrow> string \<Rightarrow> bool" where
  "sub_assignment_hit w [] = False"
| "sub_assignment_hit w (c # s) =
     ((\<not> w \<and> match_assignment (c # s) \<noteq> None) \<or> sub_assignment_hit (is_word c) s)"

section \<open>Structured values\<close>

fun redact_value :: "json \<Rightarrow> json result"
  and redact_items :: "json list \<Rightarrow> json list result"
  and redact_fields :: "pydict \<Rightarrow> pydict result" where
  "redact_value (JStr s) = try_bind (redact_text s) (\<lambda>t. Inr (JStr t))"
| "redact_value (JObj kvs) = try_bind (redact_fields kvs) (\<lambda>fs. Inr (JObj fs))"
| "redact_value (JArr xs) = try_bind (redact_items xs) (\<lambda>ys. Inr (JArr ys))"
| "redact_value JNull = Inr JNull"
| "redact_value (JBool b) = Inr (JBool b)"
| "redact_value (JInt i) = Inr (JInt i)"
| "redact_value (JFloat f) = Inr (JFloat f)"
| "redact_items [] = Inr []"
| "redact_items (x # xs) = try_bind (redact_value x) (\<lambda>y. try_bind (redact_items xs) (\<lambda>ys. Inr (y # ys)))"
| "redact_fields [] = Inr []"
| "redact_fields ((k, v) # kvs) =
     try_bind (if redacted_key k then Inr (JStr redacted) else redact_value v) (\<lambda>v'.
     try_bind (redact_fields kvs) (\<lambda>kvs'. Inr ((k, v') # kvs')))"

fun contains_sensitive_value :: "json \<Rightarrow> bool result"
  and any_sensitive_item :: "json list \<Rightarrow> bool result"
  and any_sensitive_field :: "pydict \<Rightarrow> bool result" where
  "contains_sensitive_value (JObj kvs) = any_sensitive_field kvs"
| "contains_sensitive_value (JArr xs) = any_sensitive_item xs"
| "contains_sensitive_value (JStr s) =
     try_bind (urlsplit s) (\<lambda>parsed.
       Inr (url_query parsed \<noteq> [] \<or> url_fragment parsed \<noteq> [] \<or>
            sub_bearer_hit False s \<or> sub_assignment_hit False s))"
| "contains_sensitive_value JNull = Inr False"
| "contains_sensitive_value (JBool b) = Inr False"
| "contains_sensitive_value (JInt i) = Inr False"
| "contains_sensitive_value (JFloat f) = Inr False"
| "any_sensitive_item [] = Inr False"
| "any_sensitive_item (x # xs) =
     try_bind (contains_sensitive_value x) (\<lambda>b. if b then Inr True else any_sensitive_item xs)"
| "any_sensitive_field [] = Inr False"
| "any_sensitive_field ((k, v) # kvs) =
     (if lower k \<notin> public_operational_keys \<and> sensitive_key_match k then Inr True
      else try_bind (contains_sensitive_value v) (\<lambda>b. if b then Inr True else any_sensitive_field kvs))"

section \<open>What redaction guarantees\<close>

text \<open>A value is clean when no text below a redacted key, at any depth, differs from the mark.\<close>

fun keys_clean :: "json \<Rightarrow> bool" where
  "keys_clean (JArr xs) = list_all keys_clean xs"
| "keys_clean (JObj kvs) =
     list_all (\<lambda>(k, v). (redacted_key k \<longrightarrow> v = JStr redacted) \<and> (redacted_key k \<or> keys_clean v)) kvs"
| "keys_clean x = True"

lemma redact_keys_clean:
  "redact_value x = Inr y \<Longrightarrow> keys_clean y"
  "redact_items xs = Inr ys \<Longrightarrow> list_all keys_clean ys"
  "redact_fields kvs = Inr kws \<Longrightarrow>
     list_all (\<lambda>(k, v). (redacted_key k \<longrightarrow> v = JStr redacted) \<and> (redacted_key k \<or> keys_clean v)) kws"
proof (induction x and xs and kvs arbitrary: y and ys and kws
    rule: redact_value_redact_items_redact_fields.induct)
  case (11 k v kvs)
  then show ?case by (auto simp: try_bind_Inr_iff split: if_splits)
qed (auto simp: try_bind_Inr_iff)

lemma redact_fields_keys: "redact_fields kvs = Inr kws \<Longrightarrow> map fst kws = map fst kvs"
  by (induction kvs arbitrary: kws) (auto simp: try_bind_Inr_iff)

text \<open>
  C40. Nothing under a credential key survives redaction: in every redacted value, at every depth,
  the entry of a key that the pattern of the module takes for a credential (one of its words occurs in
  the key, and it is not the fencing token) is exactly the redaction mark; and redacting an object
  keeps its keys and their order.
\<close>

theorem redaction_hides_credentials:
  assumes "redact_value (JObj kvs) = Inr y"
  shows "keys_clean y \<and> (\<exists>kws. y = JObj kws \<and> map fst kws = map fst kvs)"
  using redact_keys_clean(1) [OF assms] assms
  by (auto simp: try_bind_Inr_iff dest: redact_fields_keys)

theorem redaction_hides_credentials_witness:
  "\<exists>y. redact_value (JObj [(''api_key'', JStr ''abc''), (''n'', JInt 1)]) = Inr y \<and> keys_clean y"
proof -
  have "redact_value (JObj [(''api_key'', JStr ''abc''), (''n'', JInt 1)]) =
      Inr (JObj [(''api_key'', JStr redacted), (''n'', JInt 1)])"
    by code_simp
  from this redaction_hides_credentials [OF this] show ?thesis by blast
qed

text \<open>Identifiers, hashes and names of enumerations pass through redaction unchanged.\<close>

definition plain_char :: "char \<Rightarrow> bool" where
  "plain_char c \<longleftrightarrow> is_word c \<or> c = CHR ''-''"

lemma plain_char_not:
  "plain_char c \<Longrightarrow> c \<notin> {CHR '':'', CHR ''='', CHR ''/'', CHR ''#'', CHR ''?''} \<and> \<not> is_space c \<and> \<not> in_range 0 c 32"
  by (auto simp: plain_char_def is_word_def is_alpha_def is_upper_def is_lower_def is_digit_def
      is_space_def in_range_def)

lemma plain_match_bearer: "list_all plain_char s \<Longrightarrow> match_bearer s = None"
proof -
  assume a: "list_all plain_char s"
  have "\<not> is_space (hd (drop 6 s))" if "drop 6 s \<noteq> []"
  proof -
    from that have "hd (drop 6 s) \<in> set s" by (meson hd_in_set in_set_dropD)
    with a have "plain_char (hd (drop 6 s))" by (simp only: list_all_iff)
    with plain_char_not show ?thesis by blast
  qed
  then show ?thesis by (auto simp: match_bearer_def Let_def)
qed

lemma plain_match_assignment: "list_all plain_char s \<Longrightarrow> match_assignment s = None"
proof -
  assume a: "list_all plain_char s"
  have "take 1 (drop n s) \<noteq> ''=''" for n
  proof
    assume "take 1 (drop n s) = ''=''"
    then have "CHR ''='' \<in> set s" by (metis in_set_dropD in_set_takeD list.set_intros(1))
    with a plain_char_not show False by (auto simp: list_all_iff)
  qed
  then show ?thesis by (auto simp: match_assignment_def find_None_iff split: option.splits)
qed

lemma plain_sub:
  "list_all plain_char s \<Longrightarrow> sub_bearer w s = s \<and> sub_assignment w s = s"
  by (induction s arbitrary: w) (simp_all add: plain_match_bearer plain_match_assignment)

lemma redact_text_plain: "list_all plain_char s \<Longrightarrow> redact_text s = Inr s"
proof -
  assume a: "list_all plain_char s"
  then have colon: "CHR '':'' \<notin> set s" and slash: "CHR ''/'' \<notin> set s"
    using plain_char_not by (auto simp: list_all_iff)
  have sub: "set (strip_url s) \<subseteq> set s"
    by (auto simp: strip_url_def dest: set_dropWhileD)
  have split: "split_scheme (strip_url s) = ([], strip_url s)"
  proof -
    have "dropWhile (\<lambda>c. c \<noteq> CHR '':'') (strip_url s) = []"
      using sub colon by auto
    then show ?thesis by (simp add: split_scheme_def Let_def)
  qed
  have "\<not> starts_with ''//'' (strip_url s)"
  proof
    assume "starts_with ''//'' (strip_url s)"
    then have "CHR ''/'' \<in> set (take (length ''//'') (strip_url s))" unfolding starts_with_def by simp
    then show False using sub slash by (meson in_set_takeD subsetD)
  qed
  then have "\<exists>u. urlsplit s = Inr u \<and> url_scheme u = []"
    by (simp add: urlsplit_def split Let_def split_def)
  with plain_sub [OF a] show ?thesis by (auto simp: redact_text_def)
qed

lemma split_at_fst: "d \<notin> set (fst (split_at d s))"
  by (auto simp: split_at_def dest: set_takeWhileD)

lemma split_at_subset: "set (fst (split_at d s)) \<subseteq> set s"
  by (auto simp: split_at_def dest: set_takeWhileD)

lemma lower_scheme_char: "scheme_char c \<Longrightarrow> lower_char c \<notin> {CHR ''?'', CHR ''#''}"
proof (cases "is_upper c")
  case True
  then have "(of_char (lower_char c) :: nat) = of_char c + 32"
    by (simp add: lower_char_def is_upper_def in_range_def of_char_of)
  with True have "(97 :: nat) \<le> of_char (lower_char c)" by (simp add: is_upper_def in_range_def)
  then show ?thesis by auto
next
  case False
  assume "scheme_char c"
  with False show ?thesis
    by (auto simp: lower_char_def scheme_char_def is_alpha_def is_lower_def is_digit_def in_range_def)
qed

lemma urlsplit_chars:
  assumes "urlsplit s = Inr u"
  shows "{CHR ''?'', CHR ''#''} \<inter> set (url_path u) = {}"
    and "{CHR ''?'', CHR ''#''} \<inter> set (url_netloc u) = {}"
    and "{CHR ''?'', CHR ''#''} \<inter> set (url_scheme u) = {}"
proof -
  obtain scheme url where sp: "split_scheme (strip_url s) = (scheme, url)" by force
  define netloc where "netloc = (if starts_with ''//'' url then takeWhile (\<lambda>c. \<not> netloc_end c) (drop 2 url) else [])"
  define rest where "rest = (if starts_with ''//'' url then dropWhile (\<lambda>c. \<not> netloc_end c) (drop 2 url) else url)"
  have u: "url_path u = fst (split_at (CHR ''?'') (fst (split_at (CHR ''#'') rest)))"
    "url_netloc u = netloc" "url_scheme u = scheme"
    using assms by (auto simp: urlsplit_def sp Let_def split_def netloc_def rest_def split: if_splits)
  show "{CHR ''?'', CHR ''#''} \<inter> set (url_path u) = {}"
    using split_at_fst [of "CHR ''?''"] split_at_fst [of "CHR ''#''" rest]
      split_at_subset [of "CHR ''?''" "fst (split_at (CHR ''#'') rest)"]
    by (auto simp: u(1))
  show "{CHR ''?'', CHR ''#''} \<inter> set (url_netloc u) = {}"
    by (auto simp: u(2) netloc_def netloc_end_def dest!: set_takeWhileD)
  have low: "list_all scheme_char p \<Longrightarrow> {CHR ''?'', CHR ''#''} \<inter> set (lower p) = {}" for p
    using lower_scheme_char by (fastforce simp: list_all_iff lower_def)
  show "{CHR ''?'', CHR ''#''} \<inter> set (url_scheme u) = {}"
    using sp low by (auto simp: u(3) split_scheme_def Let_def split: if_splits)
qed

text \<open>
  The text kept of an absolute URL carries no query and no fragment: when the value has a
  scheme and a network location, the redacted text contains neither a question mark nor a hash.
\<close>

theorem redacted_url_has_no_query:
  assumes "urlsplit s = Inr u" and "url_scheme u \<noteq> []" and "url_netloc u \<noteq> []"
    and "redact_text s = Inr t"
  shows "CHR ''?'' \<notin> set t \<and> CHR ''#'' \<notin> set t"
proof -
  have t: "t = url_without_query u" using assms by (simp add: redact_text_def)
  show ?thesis
    using urlsplit_chars [OF assms(1)] by (auto simp: t url_without_query_def)
qed

theorem redacted_url_has_no_query_witness:
  "\<exists>t. redact_text ''https://h/a?sig=x#f'' = Inr t \<and> CHR ''?'' \<notin> set t \<and> CHR ''#'' \<notin> set t"
proof -
  have u: "urlsplit ''https://h/a?sig=x#f'' = Inr \<lparr>url_scheme = ''https'', url_netloc = ''h'',
      url_path = ''/a'', url_query = ''sig=x'', url_fragment = ''f''\<rparr>"
    by code_simp
  have t: "redact_text ''https://h/a?sig=x#f'' = Inr ''https://h/a''"
    by code_simp
  from redacted_url_has_no_query [OF u _ _ t] t show ?thesis by simp
qed

end
