(* ===== verification/Datetime.thy ===== *)
theory Datetime
  imports Json
begin

text \<open>
  \<open>datetime.isoformat\<close> and \<open>datetime.date\<close> of the standard library on the datetimes of \<open>Prelude\<close>:
  the proleptic Gregorian calendar date of a day number, and the ISO 8601 text that the program
  stores and hashes. Day 0 is 1970-01-01.
\<close>

definition day_us :: int where
  "day_us = 86400 * second_us"

text \<open>The calendar arithmetic of the standard library's \<open>datetime\<close> module on proleptic ordinals.\<close>

definition is_leap :: "int \<Rightarrow> bool" where
  "is_leap y \<longleftrightarrow> y mod 4 = 0 \<and> (y mod 100 \<noteq> 0 \<or> y mod 400 = 0)"

definition days_before_year :: "int \<Rightarrow> int" where
  "days_before_year year = (let y = year - 1 in y * 365 + y div 4 - y div 100 + y div 400)"

definition days_before_month_table :: "int list" where
  "days_before_month_table = [0, 0, 31, 59, 90, 120, 151, 181, 212, 243, 273, 304, 334]"

definition days_before_month :: "bool \<Rightarrow> int \<Rightarrow> int" where
  "days_before_month leap month =
     days_before_month_table ! nat month + (if month > 2 \<and> leap then 1 else 0)"

definition month_day :: "bool \<Rightarrow> int \<Rightarrow> int \<times> int" where
  "month_day leap n =
     (let month = (n + 50) div 32; preceding = days_before_month leap month
      in if preceding > n
         then (month - 1, n - days_before_month leap (month - 1) + 1)
         else (month, n - preceding + 1))"

definition ord_to_ymd :: "int \<Rightarrow> int \<times> int \<times> int" where
  "ord_to_ymd ordinal =
     (let n = ordinal - 1;
          n400 = n div 146097; r400 = n mod 146097;
          n100 = r400 div 36524; r100 = r400 mod 36524;
          n4 = r100 div 1461; r4 = r100 mod 1461;
          n1 = r4 div 365; r1 = r4 mod 365;
          year = n400 * 400 + 1 + n100 * 100 + n4 * 4 + n1
      in if n1 = 4 \<or> n100 = 4 then (year - 1, 12, 31)
         else (let (m, d) = month_day (is_leap year) r1 in (year, m, d)))"

definition ymd_to_ord :: "int \<times> int \<times> int \<Rightarrow> int" where
  "ymd_to_ord ymd =
     (case ymd of (y, m, d) \<Rightarrow> days_before_year y + days_before_month (is_leap y) m + d)"

definition epoch_ordinal :: int where
  "epoch_ordinal = 719163"

definition pad :: "nat \<Rightarrow> int \<Rightarrow> string" where
  "pad w n = (let s = int_str n in replicate (w - length s) (CHR ''0'') @ s)"

definition wall_us :: "pydt \<Rightarrow> int" where
  "wall_us d = (case d of Naive t \<Rightarrow> t | Aware t off \<Rightarrow> t + off)"

definition date_of :: "pydt \<Rightarrow> int \<times> int \<times> int" where
  "date_of d = ord_to_ymd (wall_us d div day_us + epoch_ordinal)"

definition date_str :: "int \<times> int \<times> int \<Rightarrow> string" where
  "date_str ymd = (case ymd of (y, m, d) \<Rightarrow> pad 4 y @ ''-'' @ pad 2 m @ ''-'' @ pad 2 d)"

definition offset_str :: "int \<Rightarrow> string" where
  "offset_str off =
     (let a = \<bar>off\<bar>; s = a div second_us; us = a mod second_us
      in (if off < 0 then ''-'' else ''+'') @ pad 2 (s div 3600) @ '':'' @ pad 2 (s div 60 mod 60) @
         (if s mod 60 = 0 \<and> us = 0 then [] else '':'' @ pad 2 (s mod 60)) @
         (if us = 0 then [] else ''.'' @ pad 6 us))"

definition isoformat :: "pydt \<Rightarrow> string" where
  "isoformat d =
     (let w = wall_us d mod day_us; s = w div second_us; us = w mod second_us
      in date_str (date_of d) @ ''T'' @ pad 2 (s div 3600) @ '':'' @ pad 2 (s div 60 mod 60) @ '':'' @
         pad 2 (s mod 60) @ (if us = 0 then [] else ''.'' @ pad 6 us) @
         (case d of Naive t \<Rightarrow> [] | Aware t off \<Rightarrow> offset_str off))"

text \<open>\<open>s.replace(old, new)\<close> for a non-empty \<open>old\<close>, and the UTC text \<open>isoformat().replace("+00:00", "Z")\<close>.\<close>

fun replace_from :: "nat \<Rightarrow> string \<Rightarrow> string \<Rightarrow> string \<Rightarrow> string" where
  "replace_from skip old new [] = []"
| "replace_from (Suc n) old new (c # s) = replace_from n old new s"
| "replace_from 0 old new (c # s) =
     (if take (length old) (c # s) = old then new @ replace_from (length old - 1) old new s
      else c # replace_from 0 old new s)"

definition utc_text :: "pydt \<Rightarrow> string" where
  "utc_text d = replace_from 0 ''+00:00'' ''Z'' (isoformat d)"

text \<open>\<open>str\<close> of a datetime: the separator is a space.\<close>

definition dt_str :: "pydt \<Rightarrow> string" where
  "dt_str d = map (\<lambda>c. if c = CHR ''T'' then CHR '' '' else c) (isoformat d)"

section \<open>The calendar is faithful\<close>

lemma days_before_month_values:
  "days_before_month leap 1 = 0" "days_before_month leap 2 = 31"
  "days_before_month leap 3 = 59 + (if leap then 1 else 0)"
  "days_before_month leap 4 = 90 + (if leap then 1 else 0)"
  "days_before_month leap 5 = 120 + (if leap then 1 else 0)"
  "days_before_month leap 6 = 151 + (if leap then 1 else 0)"
  "days_before_month leap 7 = 181 + (if leap then 1 else 0)"
  "days_before_month leap 8 = 212 + (if leap then 1 else 0)"
  "days_before_month leap 9 = 243 + (if leap then 1 else 0)"
  "days_before_month leap 10 = 273 + (if leap then 1 else 0)"
  "days_before_month leap 11 = 304 + (if leap then 1 else 0)"
  "days_before_month leap 12 = 334 + (if leap then 1 else 0)"
  by (simp_all add: days_before_month_def days_before_month_table_def)

lemma month_day_ordinal:
  assumes "0 \<le> n" and "n < 365 + (if leap then 1 else 0)" and "month_day leap n = (m, d)"
  shows "days_before_month leap m + d = n + 1 \<and> 1 \<le> m \<and> m \<le> 12 \<and> 1 \<le> d \<and> d \<le> 31"
proof -
  define q where "q = (n + 50) div 32"
  have q: "32 * q \<le> n + 50" "n + 50 < 32 * q + 32" unfolding q_def by linarith+
  have "1 \<le> q" "q \<le> 12" using q assms(1,2) by (auto split: if_splits)
  then have "q = 1 \<or> q = 2 \<or> q = 3 \<or> q = 4 \<or> q = 5 \<or> q = 6 \<or> q = 7 \<or> q = 8 \<or> q = 9 \<or>
      q = 10 \<or> q = 11 \<or> q = 12" by presburger
  with q assms(1,2) assms(3) [unfolded month_day_def Let_def q_def [symmetric]] show ?thesis
    by (elim disjE) (auto simp: days_before_month_values split: if_splits)
qed

lemma mixed_radix:
  fixes a b c e :: int
  assumes "0 \<le> b" "b \<le> 3" "0 \<le> c" "c \<le> 24" "0 \<le> e" "e \<le> 3"
  shows "(a * 400 + b * 100 + c * 4 + e) div 4 = a * 100 + b * 25 + c"
    and "(a * 400 + b * 100 + c * 4 + e) div 100 = a * 4 + b"
    and "(a * 400 + b * 100 + c * 4 + e) div 400 = a"
  using assms by linarith+

text \<open>Every ordinal is the ordinal of its calendar date, whatever its sign.\<close>

lemma ymd_to_ord_to_ymd: "ymd_to_ord (ord_to_ymd ordinal) = ordinal"
proof -
  define n where "n = ordinal - 1"
  define n400 r400 where "n400 = n div 146097" and "r400 = n mod 146097"
  define n100 r100 where "n100 = r400 div 36524" and "r100 = r400 mod 36524"
  define n4 r4 where "n4 = r100 div 1461" and "r4 = r100 mod 1461"
  define n1 r1 where "n1 = r4 div 365" and "r1 = r4 mod 365"
  define y where "y = n400 * 400 + n100 * 100 + n4 * 4 + n1"
  have e: "n = 146097 * n400 + r400" "r400 = 36524 * n100 + r100" "r100 = 1461 * n4 + r4"
    "r4 = 365 * n1 + r1"
    unfolding n400_def r400_def n100_def r100_def n4_def r4_def n1_def r1_def
    by (rule mult_div_mod_eq [symmetric])+
  have r: "0 \<le> r400" "r400 < 146097" "0 \<le> r100" "r100 < 36524" "0 \<le> r4" "r4 < 1461"
    "0 \<le> r1" "r1 < 365"
    unfolding r400_def r100_def r4_def r1_def by simp_all
  have q: "0 \<le> n100" "n100 \<le> 4" "0 \<le> n4" "n4 \<le> 24" "0 \<le> n1" "n1 \<le> 4"
    using e r by linarith+
  have date: "ord_to_ymd ordinal =
      (if n1 = 4 \<or> n100 = 4 then (y, 12, 31)
       else (let (m, d) = month_day (is_leap (y + 1)) r1 in (y + 1, m, d)))"
    unfolding ord_to_ymd_def Let_def n_def [symmetric] n400_def [symmetric] r400_def [symmetric]
      n100_def [symmetric] r100_def [symmetric] n4_def [symmetric] r4_def [symmetric]
      n1_def [symmetric] r1_def [symmetric] y_def
    by (simp add: add.commute add.left_commute)
  show ?thesis
  proof (cases "n1 = 4 \<or> n100 = 4")
    case True
    obtain b c where bc: "y - 1 = n400 * 400 + b * 100 + c * 4 + 3" "0 \<le> b" "b \<le> 3" "0 \<le> c" "c \<le> 24"
      and last: "n = 146097 * n400 + 36524 * b + 1461 * c + 1460" and leap: "is_leap y"
    proof (cases "n100 = 4")
      case True
      then have z: "r100 = 0" "n4 = 0" "n1 = 0" "r4 = 0" "r1 = 0" using e r q by linarith+
      show ?thesis
      proof (rule that [of 3 24])
        show "is_leap y" using True z by (simp add: y_def is_leap_def)
      qed (use True z e in \<open>simp_all add: y_def\<close>)
    next
      case False
      then have z: "n1 = 4" "r1 = 0" "n4 \<le> 23" "n100 \<le> 3" using True e r q by linarith+
      show ?thesis
      proof (rule that [of n100 n4])
        have y: "y = 4 * (n4 + 1) + 100 * (4 * n400 + n100)" using z by (simp add: y_def)
        then have "y = 4 * (n4 + 1 + 25 * (4 * n400 + n100))" by simp
        then have "y mod 4 = 0" by simp
        moreover have "y mod 100 = 4 * (n4 + 1)"
          unfolding y mod_mult_self2 using z q by (intro mod_pos_pos_trivial) simp_all
        ultimately show "is_leap y" using q by (simp add: is_leap_def)
      qed (use z e q in \<open>simp_all add: y_def\<close>)
    qed
    have "ymd_to_ord (y, 12, 31) = n + 1"
      using last mixed_radix [OF bc(2-5), of 3 n400, folded bc(1)] leap
      by (simp add: ymd_to_ord_def days_before_year_def days_before_month_values Let_def)
        (use bc(1) in linarith)
    then show ?thesis using True by (simp add: date n_def)
  next
    case False
    obtain m d where md: "month_day (is_leap (y + 1)) r1 = (m, d)" by force
    have "days_before_month (is_leap (y + 1)) m + d = r1 + 1"
      using month_day_ordinal [OF _ _ md] r by (simp split: if_splits)
    moreover have "days_before_year (y + 1) = n - r1"
      using mixed_radix [of n100 n4 n1 n400] False q e
      by (simp add: days_before_year_def Let_def y_def)
    ultimately have "ymd_to_ord (y + 1, m, d) = n + 1" by (simp add: ymd_to_ord_def)
    then show ?thesis using False by (simp add: date md n_def)
  qed
qed

end
