(* ===== verification/Content_Task.thy ===== *)
theory Content_Task
  imports Redaction Datetime Lease
begin

text \<open>
  \<open>PostgresContentTaskRepository\<close> (\<open>adapters/postgres/repositories/content_task_repository.py\<close>) on
  \<open>ContentTask\<close> (\<open>domain/models.py\<close>): the durable queue of ingest tasks. Each method is one or more
  transactions on the table \<open>content_ingest_task\<close>; a worker method locks its row, so it is an atomic
  step, and an exception leaves the table as it was. \<open>now\<close> is the value of \<open>datetime.now(UTC)\<close> read
  at the start of the method, \<open>clock\<close> the column default of the timestamps.
\<close>

section \<open>Data\<close>

record content_task =
  ct_task_id :: string
  ct_source_type :: string
  ct_source_ref :: string
  ct_status :: string
  ct_stage :: string
  ct_progress :: int
  ct_retry_count :: int
  ct_max_retries :: int
  ct_error :: "string option"
  ct_options :: pydict
  ct_result :: pydict
  ct_checkpoint :: pydict
  ct_input_hash :: "string option"
  ct_idempotency_key :: "string option"
  ct_request_hash :: "string option"
  ct_task_kind :: string
  ct_source_platform :: string
  ct_canonical_source_ref :: "string option"
  ct_credential_ref_hash :: "string option"
  ct_locator_secret_hash :: "string option"
  ct_source_identity_hash :: string
  ct_trace_id :: "string option"
  ct_lease_owner :: "string option"
  ct_lease_expires_at :: "pydt option"
  ct_fencing_token :: int

text \<open>A row carries the same columns and its two timestamps.\<close>

record content_task_row = content_task +
  ct_created_at :: pydt
  ct_updated_at :: pydt

type_synonym task_table = "content_task_row list"

definition ct_domain :: "content_task_row \<Rightarrow> content_task" where
  "ct_domain row = content_task.truncate row"

section \<open>Submission\<close>

text \<open>\<open>to_dict\<close> redacts every field under its own name; numbers and datetimes pass unchanged.\<close>

definition redact_str :: "string \<Rightarrow> string \<Rightarrow> string result" where
  "redact_str key s = (if redacted_key key then Inr redacted else redact_text s)"

definition redact_ostr :: "string \<Rightarrow> string option \<Rightarrow> string option result" where
  "redact_ostr key v =
     (if redacted_key key then Inr (Some redacted)
      else (case v of None \<Rightarrow> Inr None | Some s \<Rightarrow> try_bind (redact_text s) (\<lambda>t. Inr (Some t))))"

definition ct_to_dict :: "content_task \<Rightarrow> content_task result" where
  "ct_to_dict t =
     try_bind (redact_str ''task_id'' (ct_task_id t)) (\<lambda>tid.
     try_bind (redact_str ''source_type'' (ct_source_type t)) (\<lambda>stype.
     try_bind (redact_str ''source_ref'' (ct_source_ref t)) (\<lambda>sref.
     try_bind (redact_str ''status'' (ct_status t)) (\<lambda>status.
     try_bind (redact_str ''stage'' (ct_stage t)) (\<lambda>stage.
     try_bind (redact_ostr ''error'' (ct_error t)) (\<lambda>err.
     try_bind (redact_fields (ct_options t)) (\<lambda>options.
     try_bind (redact_fields (ct_result t)) (\<lambda>res.
     try_bind (redact_fields (ct_checkpoint t)) (\<lambda>cp.
     try_bind (redact_ostr ''input_hash'' (ct_input_hash t)) (\<lambda>ihash.
     try_bind (redact_ostr ''idempotency_key'' (ct_idempotency_key t)) (\<lambda>ikey.
     try_bind (redact_ostr ''request_hash'' (ct_request_hash t)) (\<lambda>rhash.
     try_bind (redact_str ''task_kind'' (ct_task_kind t)) (\<lambda>kind.
     try_bind (redact_str ''source_platform'' (ct_source_platform t)) (\<lambda>platform.
     try_bind (redact_ostr ''canonical_source_ref'' (ct_canonical_source_ref t)) (\<lambda>cref.
     try_bind (redact_ostr ''credential_ref_hash'' (ct_credential_ref_hash t)) (\<lambda>crhash.
     try_bind (redact_ostr ''locator_secret_hash'' (ct_locator_secret_hash t)) (\<lambda>lshash.
     try_bind (redact_str ''source_identity_hash'' (ct_source_identity_hash t)) (\<lambda>sihash.
     try_bind (redact_ostr ''trace_id'' (ct_trace_id t)) (\<lambda>trace.
     try_bind (redact_ostr ''lease_owner'' (ct_lease_owner t)) (\<lambda>owner.
       Inr \<lparr>ct_task_id = tid, ct_source_type = stype, ct_source_ref = sref, ct_status = status,
            ct_stage = stage, ct_progress = ct_progress t, ct_retry_count = ct_retry_count t,
            ct_max_retries = ct_max_retries t, ct_error = err, ct_options = options,
            ct_result = res, ct_checkpoint = cp, ct_input_hash = ihash,
            ct_idempotency_key = ikey, ct_request_hash = rhash, ct_task_kind = kind,
            ct_source_platform = platform, ct_canonical_source_ref = cref,
            ct_credential_ref_hash = crhash, ct_locator_secret_hash = lshash,
            ct_source_identity_hash = sihash, ct_trace_id = trace, ct_lease_owner = owner,
            ct_lease_expires_at = ct_lease_expires_at t, ct_fencing_token = ct_fencing_token t\<rparr>))))))))))))))))))))"

definition ct_new_row :: "pydt \<Rightarrow> content_task \<Rightarrow> content_task_row result" where
  "ct_new_row clock t =
     try_bind (ct_to_dict t) (\<lambda>d.
       Inr (content_task.extend d (content_task_row.fields clock clock)))"

definition ct_by_key :: "string option \<Rightarrow> task_table \<Rightarrow> content_task_row option" where
  "ct_by_key key tbl =
     (if key = None then None else find (\<lambda>r. ct_idempotency_key r = key) tbl)"

definition reserve_existing :: "content_task_row \<Rightarrow> content_task \<Rightarrow> content_task result" where
  "reserve_existing existing t =
     (if ct_request_hash existing \<noteq> ct_request_hash t
      then Inl (IdempotencyConflict ''Idempotency-Key is already bound to a different request'')
      else Inr (ct_domain existing))"

text \<open>The primary key and the unique idempotency key (\<open>NULL\<close>s do not collide).\<close>

definition ct_unique_violation :: "content_task_row \<Rightarrow> task_table \<Rightarrow> bool" where
  "ct_unique_violation row tbl \<longleftrightarrow>
     row_get ct_task_id (ct_task_id row) tbl \<noteq> None \<or>
     (ct_idempotency_key row \<noteq> None \<and> ct_by_key (ct_idempotency_key row) tbl \<noteq> None)"

definition ct_insert :: "pydt \<Rightarrow> content_task \<Rightarrow> task_table \<Rightarrow> task_table result" where
  "ct_insert clock t tbl =
     try_bind (ct_new_row clock t) (\<lambda>row.
       if ct_unique_violation row tbl
       then Inl (IntegrityError ''duplicate key value violates unique constraint'')
       else Inr (row_add row tbl))"

text \<open>
  \<open>create\<close> is three transactions. \<open>env1\<close> is what other sessions commit between the first lookup and
  the insertion, \<open>env2\<close> what they commit between a failed insertion and the second lookup. The bare
  \<open>raise\<close> of the last lookup is outside the handler, where Python has no exception to re-raise.
\<close>

definition ct_create ::
  "(task_table \<Rightarrow> task_table) \<Rightarrow> (task_table \<Rightarrow> task_table) \<Rightarrow> pydt \<Rightarrow> content_task \<Rightarrow> task_table \<Rightarrow>
     content_task result \<times> task_table" where
  "ct_create env1 env2 clock t tbl =
     (case (if truthy (ct_idempotency_key t) then ct_by_key (ct_idempotency_key t) tbl else None) of
        Some existing \<Rightarrow> (reserve_existing existing t, tbl)
      | None \<Rightarrow>
          (let tbl1 = env1 tbl in
           case ct_insert clock t tbl1 of
             Inr tbl2 \<Rightarrow> (Inr t, tbl2)
           | Inl (IntegrityError msg) \<Rightarrow>
               if \<not> truthy (ct_idempotency_key t) then (Inl (IntegrityError msg), tbl1)
               else (let tbl3 = env2 tbl1 in
                     case ct_by_key (ct_idempotency_key t) tbl3 of
                       None \<Rightarrow> (Inl (RuntimeError ''No active exception to reraise''), tbl3)
                     | Some existing \<Rightarrow> (reserve_existing existing t, tbl3))
           | Inl e \<Rightarrow> (Inl e, tbl1)))"

definition ct_get :: "task_table \<Rightarrow> string \<Rightarrow> content_task option" where
  "ct_get tbl tid = map_option ct_domain (row_get ct_task_id tid tbl)"

section \<open>Claiming and fenced writes\<close>

definition ct_put :: "content_task_row \<Rightarrow> task_table \<Rightarrow> task_table" where
  "ct_put row tbl = row_put ct_task_id row tbl"

definition ct_claimable :: "string \<Rightarrow> instant \<Rightarrow> content_task_row \<Rightarrow> bool" where
  "ct_claimable kind now row \<longleftrightarrow>
     ct_retry_count row < ct_max_retries row \<and> ct_task_kind row = kind \<and>
     (ct_status row = ''PENDING'' \<or>
      (ct_status row = ''RUNNING'' \<and>
       (case ct_lease_expires_at row of None \<Rightarrow> False | Some e \<Rightarrow> instant_of e < now)))"

text \<open>\<open>locked\<close> are the rows other sessions hold (\<open>skip_locked\<close>); the oldest of the others is taken.\<close>

definition ct_candidates :: "string set \<Rightarrow> string \<Rightarrow> instant \<Rightarrow> task_table \<Rightarrow> content_task_row list" where
  "ct_candidates locked kind now tbl =
     sort_key (\<lambda>r. instant_of (ct_created_at r))
       (filter (\<lambda>r. ct_claimable kind now r \<and> ct_task_id r \<notin> locked) tbl)"

definition ct_claimed :: "string \<Rightarrow> int \<Rightarrow> instant \<Rightarrow> content_task_row \<Rightarrow> content_task_row" where
  "ct_claimed worker lease_seconds now row =
     row\<lparr>ct_status := ''RUNNING'', ct_lease_owner := Some worker,
         ct_lease_expires_at := Some (Aware (now + seconds lease_seconds) 0),
         ct_fencing_token := ct_fencing_token row + 1, ct_updated_at := Aware now 0\<rparr>"

definition ct_claim_pending ::
  "string set \<Rightarrow> string \<Rightarrow> string \<Rightarrow> int \<Rightarrow> instant \<Rightarrow> task_table \<Rightarrow> content_task option \<times> task_table" where
  "ct_claim_pending locked worker kind lease_seconds now tbl =
     (if kind = ''legacy_unresolved'' then (None, tbl)
      else (case ct_candidates locked kind now tbl of
              [] \<Rightarrow> (None, tbl)
            | row # _ \<Rightarrow>
                (let row' = ct_claimed worker lease_seconds now row
                 in (Some (ct_domain row'), ct_put row' tbl))))"

definition ct_stale :: "string \<Rightarrow> exn" where
  "ct_stale tid = StaleTaskLease (''content task lease is stale: '' @ tid)"

definition fenced_row :: "string \<Rightarrow> string \<Rightarrow> int \<Rightarrow> instant \<Rightarrow> task_table \<Rightarrow> content_task_row result" where
  "fenced_row tid worker tok now tbl =
     (case row_get ct_task_id tid tbl of
        None \<Rightarrow> Inl (ct_stale tid)
      | Some row \<Rightarrow>
          if ct_status row \<noteq> ''RUNNING'' \<or> ct_lease_owner row \<noteq> Some worker \<or>
             ct_fencing_token row \<noteq> tok \<or>
             (case map_option as_utc (ct_lease_expires_at row) of
                None \<Rightarrow> True | Some e \<Rightarrow> instant_of e \<le> now)
          then Inl (ct_stale tid) else Inr row)"

definition ct_renew_lease ::
  "string \<Rightarrow> string \<Rightarrow> int \<Rightarrow> int \<Rightarrow> instant \<Rightarrow> task_table \<Rightarrow> (content_task \<times> task_table) result" where
  "ct_renew_lease tid worker tok lease_seconds now tbl =
     try_bind (fenced_row tid worker tok now tbl) (\<lambda>row.
       let row' = row\<lparr>ct_lease_expires_at := Some (Aware (now + seconds lease_seconds) 0),
                      ct_updated_at := Aware now 0\<rparr>
       in Inr (ct_domain row', ct_put row' tbl))"

definition clamp_progress :: "int \<Rightarrow> int" where
  "clamp_progress p = max 0 (min p 100)"

text \<open>In the methods that do not assign \<open>updated_at\<close> the column's \<open>onupdate\<close> clock does.\<close>

definition ct_update_progress ::
  "string \<Rightarrow> string \<Rightarrow> int \<Rightarrow> string \<Rightarrow> int \<Rightarrow> instant \<Rightarrow> task_table \<Rightarrow> task_table result" where
  "ct_update_progress tid stage progress worker tok now tbl =
     try_bind (fenced_row tid worker tok now tbl) (\<lambda>row.
       Inr (ct_put (row\<lparr>ct_stage := stage, ct_progress := clamp_progress progress,
                        ct_updated_at := Aware now 0\<rparr>) tbl))"

definition ct_save_checkpoint ::
  "string \<Rightarrow> string \<Rightarrow> pydict \<Rightarrow> string \<Rightarrow> int \<Rightarrow> int option \<Rightarrow> instant \<Rightarrow> task_table \<Rightarrow> task_table result" where
  "ct_save_checkpoint tid stage cp worker tok progress now tbl =
     try_bind (fenced_row tid worker tok now tbl) (\<lambda>row.
       Inr (ct_put (row\<lparr>ct_stage := stage,
                        ct_checkpoint := AList.update stage (JObj cp) (ct_checkpoint row),
                        ct_progress := (case progress of None \<Rightarrow> ct_progress row
                                        | Some p \<Rightarrow> clamp_progress p),
                        ct_updated_at := Aware now 0\<rparr>) tbl))"

definition ct_commit_effect ::
  "string \<Rightarrow> pydict \<Rightarrow> string \<Rightarrow> int \<Rightarrow> instant \<Rightarrow> task_table \<Rightarrow> task_table result" where
  "ct_commit_effect tid res worker tok now tbl =
     try_bind (fenced_row tid worker tok now tbl) (\<lambda>row.
       Inr (ct_put (row\<lparr>ct_status := ''SUCCEEDED'', ct_stage := ''completed'', ct_progress := 100,
                        ct_result := res,
                        ct_checkpoint := AList.update ''completed''
                          (JObj [(''at'', JStr (isoformat (Aware now 0)))]) (ct_checkpoint row),
                        ct_error := None, ct_lease_owner := None, ct_lease_expires_at := None,
                        ct_updated_at := Aware now 0\<rparr>) tbl))"

definition ct_fail ::
  "string \<Rightarrow> string \<Rightarrow> string \<Rightarrow> string \<Rightarrow> int \<Rightarrow> instant \<Rightarrow> task_table \<Rightarrow> task_table result" where
  "ct_fail tid stage err worker tok now tbl =
     try_bind (fenced_row tid worker tok now tbl) (\<lambda>row.
       let n = ct_retry_count row + 1
       in Inr (ct_put (row\<lparr>ct_retry_count := n,
                           ct_status := (if n \<ge> ct_max_retries row then ''FAILED'' else ''PENDING''),
                           ct_stage := stage, ct_error := Some (take 4000 err),
                           ct_lease_owner := None, ct_lease_expires_at := None,
                           ct_updated_at := Aware now 0\<rparr>) tbl))"

definition active_replay_row :: "string \<Rightarrow> task_table \<Rightarrow> content_task_row result" where
  "active_replay_row tid tbl =
     (case row_get ct_task_id tid tbl of
        None \<Rightarrow> Inl (StaleTaskLease (''unleased replay task is not active: '' @ tid))
      | Some row \<Rightarrow>
          if ct_task_kind row \<noteq> ''replay'' \<or> ct_status row \<noteq> ''RUNNING''
          then Inl (StaleTaskLease (''unleased replay task is not active: '' @ tid)) else Inr row)"

definition ct_succeed_unleased :: "string \<Rightarrow> pydict \<Rightarrow> instant \<Rightarrow> task_table \<Rightarrow> task_table result" where
  "ct_succeed_unleased tid res now tbl =
     try_bind (active_replay_row tid tbl) (\<lambda>row.
       Inr (ct_put (row\<lparr>ct_status := ''SUCCEEDED'', ct_stage := ''completed'', ct_progress := 100,
                        ct_result := res, ct_error := None, ct_updated_at := Aware now 0\<rparr>) tbl))"

definition ct_fail_unleased ::
  "string \<Rightarrow> string \<Rightarrow> string \<Rightarrow> instant \<Rightarrow> task_table \<Rightarrow> task_table result" where
  "ct_fail_unleased tid stage err now tbl =
     try_bind (active_replay_row tid tbl) (\<lambda>row.
       Inr (ct_put (row\<lparr>ct_status := ''FAILED'', ct_stage := stage,
                        ct_error := Some (take 4000 err), ct_updated_at := Aware now 0\<rparr>) tbl))"

section \<open>Runs of the queue\<close>

text \<open>Every committed change of the table, by any session; a method that raises changes nothing.\<close>

datatype ct_op =
    CtInsert pydt content_task
  | CtClaim "string set" string string int instant
  | CtRenew string string int int instant
  | CtProgress string string int string int instant
  | CtCheckpoint string string pydict string int "int option" instant
  | CtCommit string pydict string int instant
  | CtFail string string string string int instant
  | CtSucceedUnleased string pydict instant
  | CtFailUnleased string string string instant

fun ct_apply :: "task_table \<Rightarrow> ct_op \<Rightarrow> task_table result" where
  "ct_apply tbl (CtInsert clock t) = ct_insert clock t tbl"
| "ct_apply tbl (CtClaim locked w kind ls now) = Inr (snd (ct_claim_pending locked w kind ls now tbl))"
| "ct_apply tbl (CtRenew tid w k ls now) = try_bind (ct_renew_lease tid w k ls now tbl) (\<lambda>r. Inr (snd r))"
| "ct_apply tbl (CtProgress tid st p w k now) = ct_update_progress tid st p w k now tbl"
| "ct_apply tbl (CtCheckpoint tid st cp w k p now) = ct_save_checkpoint tid st cp w k p now tbl"
| "ct_apply tbl (CtCommit tid res w k now) = ct_commit_effect tid res w k now tbl"
| "ct_apply tbl (CtFail tid st err w k now) = ct_fail tid st err w k now tbl"
| "ct_apply tbl (CtSucceedUnleased tid res now) = ct_succeed_unleased tid res now tbl"
| "ct_apply tbl (CtFailUnleased tid st err now) = ct_fail_unleased tid st err now tbl"

definition ct_step :: "task_table \<Rightarrow> ct_op \<Rightarrow> task_table" where
  "ct_step tbl op = (case ct_apply tbl op of Inl e \<Rightarrow> tbl | Inr tbl' \<Rightarrow> tbl')"

section \<open>The row state machine\<close>

definition row_leased :: "content_task_row \<Rightarrow> string \<Rightarrow> int \<Rightarrow> instant \<Rightarrow> bool" where
  "row_leased row w k now \<longleftrightarrow>
     ct_status row = ''RUNNING'' \<and> ct_lease_owner row = Some w \<and> ct_fencing_token row = k \<and>
     (case ct_lease_expires_at row of None \<Rightarrow> False | Some e \<Rightarrow> now < instant_of e)"

lemma fenced_row_iff:
  "fenced_row tid w k now tbl = Inr row \<longleftrightarrow>
     row_get ct_task_id tid tbl = Some row \<and> row_leased row w k now"
  by (auto simp: fenced_row_def row_leased_def split: option.splits if_splits)

lemma fenced_row_error:
  "fenced_row tid w k now tbl = Inl e \<longleftrightarrow>
     e = ct_stale tid \<and> \<not> (\<exists>row. row_get ct_task_id tid tbl = Some row \<and> row_leased row w k now)"
  by (auto simp: fenced_row_def row_leased_def split: option.splits if_splits)

text \<open>What each committed method may do to a row: the state machine of a queued task.\<close>

inductive row_effect :: "ct_op \<Rightarrow> content_task_row \<Rightarrow> content_task_row \<Rightarrow> bool" where
  claim: "ct_claimable kind now r \<Longrightarrow>
    row_effect (CtClaim locked w kind ls now) r (ct_claimed w ls now r)"
| renew: "row_leased r w k now \<Longrightarrow> ct_task_id r = tid \<Longrightarrow>
    row_effect (CtRenew tid w k ls now) r
      (r\<lparr>ct_lease_expires_at := Some (Aware (now + seconds ls) 0), ct_updated_at := Aware now 0\<rparr>)"
| progress: "row_leased r w k now \<Longrightarrow> ct_task_id r = tid \<Longrightarrow>
    row_effect (CtProgress tid st p w k now) r
      (r\<lparr>ct_stage := st, ct_progress := clamp_progress p, ct_updated_at := Aware now 0\<rparr>)"
| checkpoint: "row_leased r w k now \<Longrightarrow> ct_task_id r = tid \<Longrightarrow>
    row_effect (CtCheckpoint tid st cp w k p now) r
      (r\<lparr>ct_stage := st, ct_checkpoint := AList.update st (JObj cp) (ct_checkpoint r),
         ct_progress := (case p of None \<Rightarrow> ct_progress r | Some x \<Rightarrow> clamp_progress x),
         ct_updated_at := Aware now 0\<rparr>)"
| commit: "row_leased r w k now \<Longrightarrow> ct_task_id r = tid \<Longrightarrow>
    row_effect (CtCommit tid res w k now) r
      (r\<lparr>ct_status := ''SUCCEEDED'', ct_stage := ''completed'', ct_progress := 100, ct_result := res,
         ct_checkpoint := AList.update ''completed''
           (JObj [(''at'', JStr (isoformat (Aware now 0)))]) (ct_checkpoint r),
         ct_error := None, ct_lease_owner := None, ct_lease_expires_at := None,
         ct_updated_at := Aware now 0\<rparr>)"
| failed: "row_leased r w k now \<Longrightarrow> ct_task_id r = tid \<Longrightarrow>
    row_effect (CtFail tid st err w k now) r
      (r\<lparr>ct_retry_count := ct_retry_count r + 1,
         ct_status := (if ct_retry_count r + 1 \<ge> ct_max_retries r then ''FAILED'' else ''PENDING''),
         ct_stage := st, ct_error := Some (take 4000 err),
         ct_lease_owner := None, ct_lease_expires_at := None, ct_updated_at := Aware now 0\<rparr>)"
| succeed_unleased: "ct_task_kind r = ''replay'' \<Longrightarrow> ct_status r = ''RUNNING'' \<Longrightarrow> ct_task_id r = tid \<Longrightarrow>
    row_effect (CtSucceedUnleased tid res now) r
      (r\<lparr>ct_status := ''SUCCEEDED'', ct_stage := ''completed'', ct_progress := 100, ct_result := res,
         ct_error := None, ct_updated_at := Aware now 0\<rparr>)"
| fail_unleased: "ct_task_kind r = ''replay'' \<Longrightarrow> ct_status r = ''RUNNING'' \<Longrightarrow> ct_task_id r = tid \<Longrightarrow>
    row_effect (CtFailUnleased tid st err now) r
      (r\<lparr>ct_status := ''FAILED'', ct_stage := st, ct_error := Some (take 4000 err),
         ct_updated_at := Aware now 0\<rparr>)"

lemma ct_candidates_set:
  "r \<in> set (ct_candidates locked kind now tbl) \<longleftrightarrow>
     r \<in> set tbl \<and> ct_claimable kind now r \<and> ct_task_id r \<notin> locked"
  by (auto simp: ct_candidates_def)

lemma ct_candidates_oldest:
  assumes "ct_candidates locked kind now tbl = r # rs"
    and "r' \<in> set tbl" and "ct_claimable kind now r'" and "ct_task_id r' \<notin> locked"
  shows "instant_of (ct_created_at r) \<le> instant_of (ct_created_at r')"
proof -
  have "r' \<in> set (r # rs)"
    using assms(2-4) by (simp only: assms(1) [symmetric] ct_candidates_set) simp
  moreover have "sorted (map (\<lambda>r. instant_of (ct_created_at r)) (r # rs))"
    unfolding assms(1) [symmetric] ct_candidates_def by (rule sorted_sort_key)
  ultimately show ?thesis by auto
qed

lemma ct_claim_cases:
  obtains (none) "ct_claim_pending locked w kind ls now tbl = (None, tbl)"
    "kind \<noteq> ''legacy_unresolved'' \<Longrightarrow> ct_candidates locked kind now tbl = []"
  | (some) r rs where "ct_candidates locked kind now tbl = r # rs" "kind \<noteq> ''legacy_unresolved''"
    "ct_claim_pending locked w kind ls now tbl =
       (Some (ct_domain (ct_claimed w ls now r)), ct_put (ct_claimed w ls now r) tbl)"
    "r \<in> set tbl" "ct_claimable kind now r" "ct_task_id r \<notin> locked"
proof (cases "kind = ''legacy_unresolved''")
  case True
  then show ?thesis by (intro none) (simp_all add: ct_claim_pending_def)
next
  case False
  show ?thesis
  proof (cases "ct_candidates locked kind now tbl")
    case Nil
    then show ?thesis by (intro none) (simp_all add: ct_claim_pending_def)
  next
    case (Cons r rs)
    moreover have "r \<in> set tbl \<and> ct_claimable kind now r \<and> ct_task_id r \<notin> locked"
      using ct_candidates_set [of r locked kind now tbl] Cons by simp
    ultimately show ?thesis using False by (auto simp: ct_claim_pending_def Let_def intro: some)
  qed
qed

text \<open>A committed method changes nothing, adds one fresh row, or moves one row by the machine.\<close>

lemma ct_apply_effect:
  assumes "keys_distinct ct_task_id tbl" and "ct_apply tbl op = Inr tbl'"
  obtains (same) "tbl' = tbl"
  | (insert) clock t row where "op = CtInsert clock t" "ct_new_row clock t = Inr row"
      "\<not> ct_unique_violation row tbl" "tbl' = row_add row tbl"
  | (moved) row row' where "row_get ct_task_id (ct_task_id row) tbl = Some row"
      "ct_task_id row' = ct_task_id row" "row_effect op row row'" "tbl' = ct_put row' tbl"
proof -
  note mv = moved [rotated 2]
  show ?thesis
  proof (cases op)
    case (CtInsert clock t)
    with assms(2) show ?thesis
      by (auto simp: ct_insert_def try_bind_Inr_iff split: if_splits intro: insert)
  next
    case (CtClaim locked w kind ls now)
    show ?thesis
    proof (rule ct_claim_cases [of locked w kind ls now tbl])
      assume "ct_claim_pending locked w kind ls now tbl = (None, tbl)"
      with CtClaim assms(2) show ?thesis by (intro same) simp
    next
      fix r rs
      assume "ct_claim_pending locked w kind ls now tbl =
         (Some (ct_domain (ct_claimed w ls now r)), ct_put (ct_claimed w ls now r) tbl)"
        "r \<in> set tbl" "ct_claimable kind now r"
      with CtClaim assms row_get_member [OF assms(1)] show ?thesis
        by (intro moved [of r "ct_claimed w ls now r"]) (auto simp: ct_claimed_def intro: claim [unfolded ct_claimed_def])
    qed
  next
    case (CtRenew tid w k ls now)
    with assms(2) show ?thesis
      by (auto simp: ct_renew_lease_def try_bind_Inr_iff fenced_row_iff Let_def
          dest: row_get_Some_key intro!: mv row_effect.intros)
  next
    case (CtProgress tid st p w k now)
    with assms(2) show ?thesis
      by (auto simp: ct_update_progress_def try_bind_Inr_iff fenced_row_iff
          dest: row_get_Some_key intro!: mv row_effect.intros)
  next
    case (CtCheckpoint tid st cp w k p now)
    with assms(2) show ?thesis
      by (auto simp: ct_save_checkpoint_def try_bind_Inr_iff fenced_row_iff
          dest: row_get_Some_key intro!: mv row_effect.intros)
  next
    case (CtCommit tid res w k now)
    with assms(2) show ?thesis
      by (auto simp: ct_commit_effect_def try_bind_Inr_iff fenced_row_iff
          dest: row_get_Some_key intro!: mv row_effect.intros)
  next
    case (CtFail tid st err w k now)
    with assms(2) show ?thesis
      by (auto simp: ct_fail_def try_bind_Inr_iff fenced_row_iff Let_def
          dest: row_get_Some_key intro!: mv row_effect.intros)
  next
    case (CtSucceedUnleased tid res now)
    with assms(2) show ?thesis
      by (auto simp: ct_succeed_unleased_def active_replay_row_def try_bind_Inr_iff
          dest: row_get_Some_key split: option.splits if_splits intro!: mv row_effect.intros)
  next
    case (CtFailUnleased tid st err now)
    with assms(2) show ?thesis
      by (auto simp: ct_fail_unleased_def active_replay_row_def try_bind_Inr_iff
          dest: row_get_Some_key split: option.splits if_splits intro!: mv row_effect.intros)
  qed
qed

inductive_cases row_effect_fail: "row_effect (CtFail tid st err w k now) r r'"
inductive_cases row_effect_commit: "row_effect (CtCommit tid res w k now) r r'"

lemma row_effect_fields:
  "row_effect op r r' \<Longrightarrow> ct_fencing_token r' =
     ct_fencing_token r + (case op of CtClaim _ _ _ _ _ \<Rightarrow> 1 | _ \<Rightarrow> 0)"
  "row_effect op r r' \<Longrightarrow> ct_max_retries r' = ct_max_retries r \<and> ct_task_kind r' = ct_task_kind r \<and>
     ct_request_hash r' = ct_request_hash r \<and> ct_idempotency_key r' = ct_idempotency_key r \<and>
     ct_created_at r' = ct_created_at r \<and> ct_task_id r' = ct_task_id r"
  "row_effect op r r' \<Longrightarrow> ct_retry_count r' =
     ct_retry_count r + (case op of CtFail _ _ _ _ _ _ \<Rightarrow> 1 | _ \<Rightarrow> 0)"
  by (induction rule: row_effect.induct) (simp_all add: ct_claimed_def)

lemma row_effect_not_done: "row_effect op r r' \<Longrightarrow> ct_status r \<notin> {''SUCCEEDED'', ''FAILED''}"
  by (induction rule: row_effect.induct) (auto simp: ct_claimable_def row_leased_def)

lemma ct_keys_step: "keys_distinct ct_task_id tbl \<Longrightarrow> keys_distinct ct_task_id (ct_step tbl op)"
proof (cases "ct_apply tbl op")
  case (Inr tbl')
  assume d: "keys_distinct ct_task_id tbl"
  from d Inr show ?thesis
    by (rule ct_apply_effect)
       (use d Inr in \<open>auto simp: ct_step_def ct_put_def keys_distinct_add ct_unique_violation_def\<close>)
qed (simp add: ct_step_def)

text \<open>What a step does to one existing row: nothing, or one move of the machine.\<close>

lemma ct_step_row:
  assumes "keys_distinct ct_task_id tbl" and "row_get ct_task_id tid tbl = Some r"
  obtains (same) "row_get ct_task_id tid (ct_step tbl op) = Some r"
  | (moved) r' tbl' where "row_get ct_task_id tid (ct_step tbl op) = Some r'" "row_effect op r r'"
      "ct_apply tbl op = Inr tbl'"
proof (cases "ct_apply tbl op")
  case (Inl e)
  with assms(2) show ?thesis by (intro same) (simp add: ct_step_def)
next
  case (Inr tbl')
  from assms(1) Inr show ?thesis
  proof (cases rule: ct_apply_effect)
    case same
    with assms(2) Inr that(1) show ?thesis by (simp add: ct_step_def)
  next
    case (insert clock t row)
    with assms(2) Inr that(1) show ?thesis by (simp add: ct_step_def row_get_add)
  next
    case (moved row row')
    show ?thesis
    proof (cases "ct_task_id row = tid")
      case True
      with moved assms(2) have "row = r" by simp
      with moved True Inr that(2) show ?thesis by (simp add: ct_step_def ct_put_def row_get_put)
    next
      case False
      with moved assms(2) Inr that(1) show ?thesis by (simp add: ct_step_def ct_put_def row_get_put)
    qed
  qed
qed

section \<open>The lease contract\<close>

definition ct_invar :: "string \<Rightarrow> task_table \<Rightarrow> bool" where
  "ct_invar tid tbl \<longleftrightarrow> keys_distinct ct_task_id tbl \<and> row_get ct_task_id tid tbl \<noteq> None"

definition ct_token :: "string \<Rightarrow> task_table \<Rightarrow> int" where
  "ct_token tid tbl = (case row_get ct_task_id tid tbl of None \<Rightarrow> 0 | Some r \<Rightarrow> ct_fencing_token r)"

definition ct_holder :: "string \<Rightarrow> task_table \<Rightarrow> string option" where
  "ct_holder tid tbl = (case row_get ct_task_id tid tbl of None \<Rightarrow> None | Some r \<Rightarrow> ct_lease_owner r)"

definition ct_current :: "string \<Rightarrow> task_table \<Rightarrow> string \<Rightarrow> int \<Rightarrow> instant \<Rightarrow> bool" where
  "ct_current tid tbl w k now =
     (case row_get ct_task_id tid tbl of None \<Rightarrow> False | Some r \<Rightarrow> row_leased r w k now)"

fun ct_granted :: "string \<Rightarrow> task_table \<Rightarrow> ct_op \<Rightarrow> int option" where
  "ct_granted tid tbl (CtClaim locked w kind ls now) =
     (case fst (ct_claim_pending locked w kind ls now tbl) of
        None \<Rightarrow> None
      | Some t \<Rightarrow> if ct_task_id t = tid then Some (ct_fencing_token t) else None)"
| "ct_granted tid tbl _ = None"

lemma ct_domain_fields [simp]:
  "ct_task_id (ct_domain r) = ct_task_id r" "ct_fencing_token (ct_domain r) = ct_fencing_token r"
  "ct_status (ct_domain r) = ct_status r" "ct_result (ct_domain r) = ct_result r"
  "ct_task_kind (ct_domain r) = ct_task_kind r" "ct_request_hash (ct_domain r) = ct_request_hash r"
  "ct_lease_owner (ct_domain r) = ct_lease_owner r"
  "ct_retry_count (ct_domain r) = ct_retry_count r" "ct_max_retries (ct_domain r) = ct_max_retries r"
  "ct_idempotency_key (ct_domain r) = ct_idempotency_key r"
  "ct_locator_secret_hash (ct_domain r) = ct_locator_secret_hash r"
  by (simp_all add: ct_domain_def content_task.truncate_def)

lemma ct_claimed_fields [simp]:
  "ct_task_id (ct_claimed w ls now r) = ct_task_id r"
  "ct_fencing_token (ct_claimed w ls now r) = ct_fencing_token r + 1"
  "ct_lease_owner (ct_claimed w ls now r) = Some w"
  "ct_status (ct_claimed w ls now r) = ''RUNNING''"
  "ct_lease_expires_at (ct_claimed w ls now r) = Some (Aware (now + seconds ls) 0)"
  "ct_retry_count (ct_claimed w ls now r) = ct_retry_count r"
  "ct_max_retries (ct_claimed w ls now r) = ct_max_retries r"
  by (simp_all add: ct_claimed_def)

interpretation content_lease:
  exclusive_lease "ct_invar tid" "ct_token tid" ct_step "ct_granted tid" "ct_current tid" "ct_holder tid"
  for tid
proof
  fix tbl op
  assume inv: "ct_invar tid tbl"
  then obtain r where d: "keys_distinct ct_task_id tbl" and r: "row_get ct_task_id tid tbl = Some r"
    by (auto simp: ct_invar_def)
  show "ct_invar tid (ct_step tbl op)"
    by (rule ct_step_row [OF d r, of op]) (simp_all add: ct_invar_def ct_keys_step d)
  show "ct_token tid tbl \<le> ct_token tid (ct_step tbl op)"
    by (rule ct_step_row [OF d r, of op])
       (auto simp: ct_token_def r dest!: row_effect_fields(1) split: ct_op.splits)
next
  fix tbl op k
  assume inv: "ct_invar tid tbl" and g: "ct_granted tid tbl op = Some k"
  then obtain locked w kind ls now t where op: "op = CtClaim locked w kind ls now"
    and t: "fst (ct_claim_pending locked w kind ls now tbl) = Some t" "ct_task_id t = tid"
      "ct_fencing_token t = k"
    by (cases op) (auto split: option.splits if_splits)
  show "ct_token tid tbl < k \<and> ct_token tid (ct_step tbl op) = k"
  proof (rule ct_claim_cases [of locked w kind ls now tbl])
    fix r rs
    assume c: "ct_claim_pending locked w kind ls now tbl =
       (Some (ct_domain (ct_claimed w ls now r)), ct_put (ct_claimed w ls now r) tbl)"
      and "r \<in> set tbl"
    with inv t have "row_get ct_task_id tid tbl = Some r"
      using row_get_member [of ct_task_id tbl r] by (auto simp: ct_invar_def)
    with c t op show ?thesis
      by (auto simp: ct_step_def ct_token_def ct_put_def row_get_put)
  qed (use t in auto)
next
  fix tbl w k now
  assume "ct_current tid tbl w k now"
  then show "ct_token tid tbl = k" and "ct_holder tid tbl = Some w"
    by (auto simp: ct_current_def ct_token_def ct_holder_def row_leased_def split: option.splits)
qed

section \<open>Fencing of the task queue\<close>

lemma ct_stale_writes:
  assumes "\<not> ct_current tid tbl w k now"
  shows "ct_renew_lease tid w k ls now tbl = Inl (ct_stale tid)"
    "ct_update_progress tid st p w k now tbl = Inl (ct_stale tid)"
    "ct_save_checkpoint tid st cp w k q now tbl = Inl (ct_stale tid)"
    "ct_commit_effect tid res w k now tbl = Inl (ct_stale tid)"
    "ct_fail tid st err w k now tbl = Inl (ct_stale tid)"
proof -
  have "fenced_row tid w k now tbl = Inl (ct_stale tid)"
    using assms by (auto simp: fenced_row_error ct_current_def)
  then show "ct_renew_lease tid w k ls now tbl = Inl (ct_stale tid)"
    "ct_update_progress tid st p w k now tbl = Inl (ct_stale tid)"
    "ct_save_checkpoint tid st cp w k q now tbl = Inl (ct_stale tid)"
    "ct_commit_effect tid res w k now tbl = Inl (ct_stale tid)"
    "ct_fail tid st err w k now tbl = Inl (ct_stale tid)"
    by (simp_all add: ct_renew_lease_def ct_update_progress_def ct_save_checkpoint_def
        ct_commit_effect_def ct_fail_def)
qed

text \<open>
  C5. Fencing of the durable queue. Once a task has been claimed again, a worker with an older
  token cannot renew, report progress, save a checkpoint, commit the terminal effect or record a
  failure any more: each raises the stale-lease error, whatever any sessions commit in between.
\<close>

theorem content_task_fencing:
  assumes "keys_distinct ct_task_id tbl"
    and "ct_claim_pending locked w' kind ls' now' tbl = (Some t, tbl')"
    and "k < ct_fencing_token t"
  shows "ct_renew_lease (ct_task_id t) w k ls now (run_ops ct_step tbl' ops) = Inl (ct_stale (ct_task_id t)) \<and>
    ct_update_progress (ct_task_id t) st p w k now (run_ops ct_step tbl' ops) = Inl (ct_stale (ct_task_id t)) \<and>
    ct_save_checkpoint (ct_task_id t) st cp w k q now (run_ops ct_step tbl' ops) = Inl (ct_stale (ct_task_id t)) \<and>
    ct_commit_effect (ct_task_id t) res w k now (run_ops ct_step tbl' ops) = Inl (ct_stale (ct_task_id t)) \<and>
    ct_fail (ct_task_id t) st err w k now (run_ops ct_step tbl' ops) = Inl (ct_stale (ct_task_id t))"
proof -
  obtain r where r: "r \<in> set tbl" and t: "t = ct_domain (ct_claimed w' ls' now' r)"
    and tbl': "tbl' = ct_put (ct_claimed w' ls' now' r) tbl"
    by (rule ct_claim_cases [of locked w' kind ls' now' tbl]) (use assms(2) in auto)
  from r row_get_member [OF assms(1) r] have "ct_invar (ct_task_id t) tbl'" "ct_token (ct_task_id t) tbl' = ct_fencing_token t"
    using assms(1) by (auto simp: t tbl' ct_invar_def ct_token_def ct_put_def row_get_put)
  then have "\<not> ct_current (ct_task_id t) (run_ops ct_step tbl' ops) w k now"
    using content_lease.stale_forever [of "ct_task_id t" tbl' k ops w now] assms(3) by simp
  then show ?thesis by (intro conjI ct_stale_writes)
qed

definition example_task :: content_task where
  "example_task =
     \<lparr>ct_task_id = ''t1'', ct_source_type = ''youtube'', ct_source_ref = ''abc'',
      ct_status = ''PENDING'', ct_stage = ''queued'', ct_progress = 0, ct_retry_count = 0,
      ct_max_retries = 3, ct_error = None, ct_options = [], ct_result = [], ct_checkpoint = [],
      ct_input_hash = None, ct_idempotency_key = Some ''k1'', ct_request_hash = Some ''h1'',
      ct_task_kind = ''video_pipeline'', ct_source_platform = ''youtube'',
      ct_canonical_source_ref = None, ct_credential_ref_hash = None,
      ct_locator_secret_hash = None, ct_source_identity_hash = ''0'', ct_trace_id = None,
      ct_lease_owner = None, ct_lease_expires_at = None, ct_fencing_token = 0\<rparr>"

definition example_table :: task_table where
  "example_table = ct_step [] (CtInsert (Naive 0) example_task)"

lemma redact_str_plain: "\<not> redacted_key key \<Longrightarrow> list_all plain_char s \<Longrightarrow> redact_str key s = Inr s"
  by (simp add: redact_str_def redact_text_plain)

lemma task_keys_not_redacted:
  "list_all (\<lambda>k. \<not> redacted_key k)
     [''task_id'', ''source_type'', ''source_ref'', ''status'', ''stage'', ''error'', ''input_hash'',
      ''idempotency_key'', ''request_hash'', ''task_kind'', ''source_platform'',
      ''canonical_source_ref'', ''credential_ref_hash'', ''source_identity_hash'', ''trace_id'',
      ''lease_owner'']"
  by code_simp

lemma locator_secret_hash_redacted: "redacted_key ''locator_secret_hash''"
  by code_simp

lemma example_to_dict:
  "ct_to_dict example_task = Inr (example_task\<lparr>ct_locator_secret_hash := Some redacted\<rparr>)"
  using task_keys_not_redacted locator_secret_hash_redacted
  by (simp add: ct_to_dict_def example_task_def redact_str_plain redact_ostr_def redact_text_plain
      plain_char_def is_word_def is_alpha_def is_lower_def is_upper_def is_digit_def in_range_def)

lemma example_table_eq:
  "example_table = [content_task.extend (example_task\<lparr>ct_locator_secret_hash := Some redacted\<rparr>)
     (content_task_row.fields (Naive 0) (Naive 0))]"
  by (simp add: example_table_def ct_step_def ct_insert_def ct_new_row_def example_to_dict
      ct_unique_violation_def ct_by_key_def row_add_def)

definition example_claimed :: task_table where
  "example_claimed = ct_step example_table (CtClaim {} ''a'' ''video_pipeline'' 900 0)"

lemma example_claim:
  "\<exists>t. ct_claim_pending {} ''a'' ''video_pipeline'' 900 0 example_table = (Some t, example_claimed) \<and>
     ct_task_id t = ''t1'' \<and> ct_fencing_token t = 1"
  by (simp add: example_claimed_def example_table_eq ct_step_def ct_claim_pending_def
      ct_candidates_def ct_claimable_def content_task.defs content_task_row.defs example_task_def Let_def)

lemma example_keys: "keys_distinct ct_task_id example_table"
  by (simp add: example_table_eq keys_distinct_def)

theorem content_task_fencing_witness:
  "\<exists>e. ct_commit_effect ''t1'' [] ''old'' 0 5
     (run_ops ct_step example_claimed [CtClaim {} ''b'' ''video_pipeline'' 900 (seconds 901)]) = Inl e"
proof -
  obtain t where t: "ct_claim_pending {} ''a'' ''video_pipeline'' 900 0 example_table = (Some t, example_claimed)"
    "ct_task_id t = ''t1''" "ct_fencing_token t = 1" using example_claim by blast
  have "(0::int) < ct_fencing_token t" using t(3) by simp
  note fenced = content_task_fencing [OF example_keys t(1) this, unfolded t(2)]
  show ?thesis by (rule exI) (rule fenced [THEN conjunct2, THEN conjunct2, THEN conjunct2, THEN conjunct1])
qed

section \<open>Terminal states\<close>

lemma ct_done_step:
  assumes "keys_distinct ct_task_id tbl" and "row_get ct_task_id tid tbl = Some r"
    and "ct_status r \<in> {''SUCCEEDED'', ''FAILED''}"
  shows "row_get ct_task_id tid (ct_step tbl op) = Some r"
  by (rule ct_step_row [OF assms(1,2), of op]) (use assms(3) row_effect_not_done in auto)

lemma ct_done_forever:
  assumes "keys_distinct ct_task_id tbl" and "row_get ct_task_id tid tbl = Some r"
    and "ct_status r \<in> {''SUCCEEDED'', ''FAILED''}"
  shows "row_get ct_task_id tid (run_ops ct_step tbl ops) = Some r"
  using assms by (induction ops arbitrary: tbl) (simp_all add: ct_keys_step ct_done_step)

text \<open>
  C6. The terminal effect is committed once. After \<open>commit_effect\<close> succeeded, the task keeps the
  committed result, status and fencing token in every later state, every further commit raises, and
  so does every attempt to fail the task; no claim ever returns it again.
\<close>

theorem content_task_commit_once:
  assumes "keys_distinct ct_task_id tbl" and "ct_commit_effect tid res w k now tbl = Inr tbl'"
  shows "(\<exists>t. ct_get (run_ops ct_step tbl' ops) tid = Some t \<and> ct_status t = ''SUCCEEDED'' \<and>
       ct_result t = res \<and> ct_fencing_token t = k) \<and>
    ct_commit_effect tid res' w' k' now' (run_ops ct_step tbl' ops) = Inl (ct_stale tid) \<and>
    ct_fail tid st err w' k' now' (run_ops ct_step tbl' ops) = Inl (ct_stale tid) \<and>
    ct_granted tid (run_ops ct_step tbl' ops) op = None"
proof -
  obtain r where r: "row_get ct_task_id tid tbl = Some r" "row_leased r w k now"
    and fenced: "fenced_row tid w k now tbl = Inr r"
    using assms(2) by (auto simp: ct_commit_effect_def try_bind_Inr_iff fenced_row_iff)
  then have id: "ct_task_id r = tid" by (auto dest: row_get_Some_key)
  define r' where "r' = r\<lparr>ct_status := ''SUCCEEDED'', ct_stage := ''completed'', ct_progress := 100,
     ct_result := res, ct_checkpoint := AList.update ''completed''
       (JObj [(''at'', JStr (isoformat (Aware now 0)))]) (ct_checkpoint r),
     ct_error := None, ct_lease_owner := None, ct_lease_expires_at := None,
     ct_updated_at := Aware now 0\<rparr>"
  have tbl': "tbl' = ct_put r' tbl"
    using assms(2) fenced by (simp add: ct_commit_effect_def r'_def)
  have g: "row_get ct_task_id tid tbl' = Some r'" and d: "keys_distinct ct_task_id tbl'"
    using r(1) id assms(1) by (simp_all add: tbl' ct_put_def row_get_put r'_def)
  have fin: "row_get ct_task_id tid (run_ops ct_step tbl' ops) = Some r'"
    by (rule ct_done_forever [OF d g]) (simp add: r'_def)
  then have stale: "\<not> ct_current tid (run_ops ct_step tbl' ops) w' k' now'"
    by (simp add: ct_current_def row_leased_def r'_def)
  have d': "keys_distinct ct_task_id (run_ops ct_step tbl' ops)"
    by (rule run_ops_invariant [where I = "keys_distinct ct_task_id", OF d]) (rule ct_keys_step)
  have "ct_granted tid (run_ops ct_step tbl' ops) op = None"
  proof (cases op)
    case (CtClaim locked w kind ls now)
    show ?thesis
    proof (rule ct_claim_cases [of locked w kind ls now "run_ops ct_step tbl' ops"])
      fix q rs
      assume q: "q \<in> set (run_ops ct_step tbl' ops)" "ct_claimable kind now q"
        and c: "ct_claim_pending locked w kind ls now (run_ops ct_step tbl' ops) =
          (Some (ct_domain (ct_claimed w ls now q)), ct_put (ct_claimed w ls now q) (run_ops ct_step tbl' ops))"
      have "ct_task_id q \<noteq> tid"
        using row_get_member [OF d' q(1)] fin q(2) by (auto simp: ct_claimable_def r'_def)
      with c CtClaim show ?thesis by simp
    qed (simp add: CtClaim)
  qed simp_all
  moreover have "ct_fencing_token r' = k" using r(2) by (simp add: r'_def row_leased_def)
  ultimately show ?thesis
    using ct_stale_writes [OF stale] fin by (simp add: ct_get_def r'_def)
qed

theorem content_task_commit_once_witness:
  "\<exists>tbl' t. ct_commit_effect ''t1'' [(''n'', JInt 1)] ''a'' 1 5 example_claimed = Inr tbl' \<and>
     ct_get (run_ops ct_step tbl' [CtClaim {} ''b'' ''video_pipeline'' 900 (seconds 5000)]) ''t1'' = Some t \<and>
     ct_result t = [(''n'', JInt 1)]"
proof -
  have "ct_current ''t1'' example_claimed ''a'' 1 5"
    by (simp add: example_claimed_def example_table_eq ct_step_def ct_claim_pending_def ct_current_def
        ct_candidates_def ct_claimable_def content_task.defs content_task_row.defs example_task_def
        Let_def ct_put_def row_put_def row_leased_def ct_claimed_def seconds_def second_us_def)
  then obtain tbl' where c: "ct_commit_effect ''t1'' [(''n'', JInt 1)] ''a'' 1 5 example_claimed = Inr tbl'"
    by (auto simp: ct_commit_effect_def ct_current_def try_bind_Inr_iff fenced_row_def row_leased_def
        split: option.splits)
  have "keys_distinct ct_task_id example_claimed"
    unfolding example_claimed_def by (rule ct_keys_step [OF example_keys])
  from content_task_commit_once [OF this c] c show ?thesis by blast
qed

section \<open>The queue invariant\<close>

text \<open>The two shapes of task the application submits: ingest work and unleased replay records.\<close>

definition ct_submitted :: "content_task \<Rightarrow> bool" where
  "ct_submitted t \<longleftrightarrow>
     (ct_status t, ct_task_kind t) \<in> {(''PENDING'', ''video_pipeline''), (''RUNNING'', ''replay'')} \<and>
     ct_progress t = 0 \<and> ct_retry_count t = 0 \<and> 0 < ct_max_retries t \<and> ct_fencing_token t = 0 \<and>
     ct_lease_owner t = None \<and> ct_lease_expires_at t = None"

fun inserts_submitted :: "ct_op \<Rightarrow> bool" where
  "inserts_submitted (CtInsert clock t) = ct_submitted t"
| "inserts_submitted _ = True"

definition row_ok :: "content_task_row \<Rightarrow> bool" where
  "row_ok r \<longleftrightarrow>
     ct_status r \<in> {''PENDING'', ''RUNNING'', ''SUCCEEDED'', ''FAILED''} \<and>
     0 \<le> ct_progress r \<and> ct_progress r \<le> 100 \<and>
     (ct_status r = ''SUCCEEDED'' \<longrightarrow> ct_progress r = 100) \<and>
     0 \<le> ct_retry_count r \<and> ct_retry_count r \<le> ct_max_retries r \<and> 0 \<le> ct_fencing_token r \<and>
     (ct_lease_owner r = None \<longleftrightarrow> ct_lease_expires_at r = None) \<and>
     (ct_lease_owner r \<noteq> None \<longleftrightarrow> ct_status r = ''RUNNING'' \<and> ct_task_kind r \<noteq> ''replay'') \<and>
     (ct_status r \<in> {''PENDING'', ''RUNNING''} \<longrightarrow> ct_retry_count r < ct_max_retries r) \<and>
     (ct_status r = ''PENDING'' \<longrightarrow> ct_task_kind r \<noteq> ''replay'') \<and>
     (ct_status r = ''FAILED'' \<and> ct_task_kind r \<noteq> ''replay'' \<longrightarrow> ct_retry_count r = ct_max_retries r)"

definition queue_ok :: "task_table \<Rightarrow> bool" where
  "queue_ok tbl \<longleftrightarrow> keys_distinct ct_task_id tbl \<and> list_all row_ok tbl \<and>
     distinct (filter (\<lambda>k. k \<noteq> None) (map ct_idempotency_key tbl))"

lemma clamp_bounds: "0 \<le> clamp_progress p \<and> clamp_progress p \<le> 100"
  by (simp add: clamp_progress_def)

lemma row_effect_ok: "row_effect op r r' \<Longrightarrow> row_ok r \<Longrightarrow> row_ok r'"
proof (induction rule: row_effect.induct)
  case (claim kind now r locked w ls)
  then show ?case by (auto simp: row_ok_def ct_claimable_def ct_claimed_def)
next
  case (failed r w k now tid st err)
  then show ?case by (auto simp: row_ok_def row_leased_def)
qed (use clamp_bounds in \<open>auto simp: row_ok_def row_leased_def split: option.splits\<close>)

lemma plain_words:
  "list_all (list_all plain_char) [''PENDING'', ''RUNNING'', ''video_pipeline'', ''replay'']"
  by code_simp

lemma ct_new_row_fields:
  assumes "ct_new_row clock t = Inr row"
  shows "ct_progress row = ct_progress t" "ct_retry_count row = ct_retry_count t"
    "ct_max_retries row = ct_max_retries t" "ct_fencing_token row = ct_fencing_token t"
    "ct_lease_expires_at row = ct_lease_expires_at t"
    "redact_str ''status'' (ct_status t) = Inr (ct_status row)"
    "redact_str ''task_kind'' (ct_task_kind t) = Inr (ct_task_kind row)"
    "redact_str ''task_id'' (ct_task_id t) = Inr (ct_task_id row)"
    "redact_ostr ''lease_owner'' (ct_lease_owner t) = Inr (ct_lease_owner row)"
    "redact_ostr ''idempotency_key'' (ct_idempotency_key t) = Inr (ct_idempotency_key row)"
    "redact_ostr ''request_hash'' (ct_request_hash t) = Inr (ct_request_hash row)"
    "redact_ostr ''locator_secret_hash'' (ct_locator_secret_hash t) = Inr (ct_locator_secret_hash row)"
    "ct_created_at row = clock"
  using assms
  by (auto simp: ct_new_row_def ct_to_dict_def try_bind_Inr_iff content_task.defs content_task_row.defs)

lemma row_ok_new:
  assumes "ct_new_row clock t = Inr row" and "ct_submitted t"
  shows "row_ok row"
proof -
  note f = ct_new_row_fields [OF assms(1)]
  have nr: "\<not> redacted_key ''status''" "\<not> redacted_key ''task_kind''" "\<not> redacted_key ''lease_owner''"
    using task_keys_not_redacted by simp_all
  have plain: "list_all plain_char (ct_status t)" "list_all plain_char (ct_task_kind t)"
    using assms(2) plain_words by (auto simp: ct_submitted_def)
  have "ct_status row = ct_status t" "ct_task_kind row = ct_task_kind t"
    using redact_str_plain [OF nr(1) plain(1)] redact_str_plain [OF nr(2) plain(2)] f(6,7) by simp_all
  moreover have "ct_lease_owner row = None"
    using f(9) nr(3) assms(2) by (simp add: ct_submitted_def redact_ostr_def)
  ultimately show ?thesis
    using assms(2) by (auto simp: row_ok_def ct_submitted_def f(1-5))
qed

lemma ct_by_key_None:
  "key \<noteq> None \<Longrightarrow> ct_by_key key tbl = None \<longleftrightarrow> (\<forall>r \<in> set tbl. ct_idempotency_key r \<noteq> key)"
  by (auto simp: ct_by_key_def find_None_iff)

lemma queue_ok_step:
  assumes "queue_ok tbl" and "inserts_submitted op"
  shows "queue_ok (ct_step tbl op)"
proof (cases "ct_apply tbl op")
  case (Inl e)
  with assms(1) show ?thesis by (simp add: ct_step_def)
next
  case (Inr tbl')
  have d: "keys_distinct ct_task_id tbl" using assms(1) by (simp add: queue_ok_def)
  from ct_keys_step [OF d] have d': "keys_distinct ct_task_id (ct_step tbl op)" .
  from d Inr show ?thesis
  proof (cases rule: ct_apply_effect)
    case same
    with assms(1) Inr show ?thesis by (simp add: ct_step_def)
  next
    case (insert clock t row)
    with assms have "row_ok row" by (auto intro: row_ok_new)
    moreover have "ct_idempotency_key row \<noteq> None \<Longrightarrow> ct_idempotency_key row \<notin> ct_idempotency_key ` set tbl"
      using insert(3) ct_by_key_None [of "ct_idempotency_key row" tbl]
      by (auto simp: ct_unique_violation_def)
    ultimately show ?thesis
      using assms(1) insert(4) Inr d' by (simp add: queue_ok_def ct_step_def row_add_def)
  next
    case (moved row row')
    have row: "row \<in> set tbl" using moved(1) by (auto dest: row_get_Some_key)
    with assms(1) have "row_ok row" by (auto simp: queue_ok_def list_all_iff)
    with moved(3) have "row_ok row'" by (rule row_effect_ok)
    then have "list_all row_ok (ct_put row' tbl)"
      using assms(1) by (auto simp: queue_ok_def list_all_iff ct_put_def dest: set_row_put)
    moreover have "map ct_idempotency_key (ct_put row' tbl) = map ct_idempotency_key tbl"
    proof -
      have "ct_idempotency_key row' = ct_idempotency_key x" if "x \<in> set tbl" "ct_task_id x = ct_task_id row'" for x
        using row_get_member [OF d that(1)] that(2) moved(1,2) row_effect_fields(2) [OF moved(3)] by simp
      then show ?thesis by (simp add: ct_put_def row_put_def)
    qed
    ultimately show ?thesis
      using assms(1) moved(4) Inr d' by (simp add: queue_ok_def ct_step_def)
  qed
qed

lemma queue_ok_run:
  "queue_ok tbl \<Longrightarrow> list_all inserts_submitted ops \<Longrightarrow> queue_ok (run_ops ct_step tbl ops)"
  by (induction ops arbitrary: tbl) (simp_all add: queue_ok_step)

lemma content_queue_ok: "list_all inserts_submitted ops \<Longrightarrow> queue_ok (run_ops ct_step [] ops)"
  by (rule queue_ok_run) (simp_all add: queue_ok_def keys_distinct_def)

text \<open>
  C37. The queue invariant. From an empty table, after any sequence of committed calls in which the
  application submits its two shapes of task, every row has a known status and progress within
  0..100, is leased exactly while it is running pipeline work, has retries left while it is active,
  has none left when it failed, and task ids and idempotency keys are unique.
\<close>

theorem content_queue_invariant:
  assumes "list_all inserts_submitted ops"
  shows "queue_ok (run_ops ct_step [] ops)"
  by (rule content_queue_ok [OF assms])

theorem content_queue_invariant_witness:
  "queue_ok (run_ops ct_step [] [CtInsert (Naive 0) example_task, CtClaim {} ''a'' ''video_pipeline'' 900 0])"
  by (rule content_queue_invariant) (simp add: ct_submitted_def example_task_def)

section \<open>Bounded retries\<close>

fun successes :: "(ct_op \<Rightarrow> bool) \<Rightarrow> task_table \<Rightarrow> ct_op list \<Rightarrow> int" where
  "successes sel tbl [] = 0"
| "successes sel tbl (op # ops) =
     (if sel op \<and> \<not> isl (ct_apply tbl op) then 1 else 0) + successes sel (ct_step tbl op) ops"

fun fails_task :: "string \<Rightarrow> ct_op \<Rightarrow> bool" where
  "fails_task tid (CtFail tid' st err w k now) = (tid' = tid)"
| "fails_task tid _ = False"

lemma row_get_fail_target:
  "ct_apply tbl op = Inr tbl' \<Longrightarrow> fails_task tid op \<Longrightarrow> row_get ct_task_id tid tbl \<noteq> None"
  by (cases op) (auto simp: ct_fail_def try_bind_Inr_iff fenced_row_iff)

lemma ct_step_retries:
  assumes "keys_distinct ct_task_id tbl" and "row_get ct_task_id tid tbl = Some r"
  shows "\<exists>r'. row_get ct_task_id tid (ct_step tbl op) = Some r' \<and> ct_retry_count r' =
    ct_retry_count r + (if fails_task tid op \<and> \<not> isl (ct_apply tbl op) then 1 else 0)"
proof (cases "ct_apply tbl op")
  case (Inl e)
  with assms(2) show ?thesis by (simp add: ct_step_def)
next
  case (Inr tbl')
  have id: "ct_task_id r = tid" using assms(2) by (auto dest: row_get_Some_key)
  show ?thesis
  proof (cases "fails_task tid op")
    case True
    then obtain st err w k now where op: "op = CtFail tid st err w k now" by (cases op) auto
    with Inr have "fenced_row tid w k now tbl = Inr r"
      using assms(2) by (auto simp: ct_fail_def try_bind_Inr_iff fenced_row_iff)
    with Inr assms(2) id show ?thesis
      by (auto simp: op ct_fail_def ct_step_def ct_put_def row_get_put Let_def)
  next
    case False
    show ?thesis
    proof (rule ct_step_row [OF assms, of op])
      show ?thesis if "row_get ct_task_id tid (ct_step tbl op) = Some r"
        using that False by simp
      show ?thesis if "row_get ct_task_id tid (ct_step tbl op) = Some r'" "row_effect op r r'" for r'
        using that False id by (auto elim!: row_effect.cases simp: ct_claimed_def)
    qed
  qed
qed

lemma identity_kept:
  assumes "keys_distinct ct_task_id tbl" and "row_get ct_task_id tid tbl = Some r"
  shows "\<exists>r'. row_get ct_task_id tid (run_ops ct_step tbl ops) = Some r' \<and>
    ct_idempotency_key r' = ct_idempotency_key r \<and> ct_request_hash r' = ct_request_hash r"
  using assms
proof (induction ops arbitrary: tbl r)
  case Nil
  then show ?case by simp
next
  case (Cons op ops)
  show ?case
  proof (rule ct_step_row [OF Cons.prems, of op])
    show ?case if "row_get ct_task_id tid (ct_step tbl op) = Some r"
      using Cons.IH [OF ct_keys_step [OF Cons.prems(1)] that] by simp
    show ?case if "row_get ct_task_id tid (ct_step tbl op) = Some r1" "row_effect op r r1" for r1
      using Cons.IH [OF ct_keys_step [OF Cons.prems(1)] that(1)] row_effect_fields(2) [OF that(2)] by simp
  qed
qed

lemma retries_counted:
  assumes "keys_distinct ct_task_id tbl" and "row_get ct_task_id tid tbl = Some r"
  shows "\<exists>r'. row_get ct_task_id tid (run_ops ct_step tbl ops) = Some r' \<and>
    ct_retry_count r' = ct_retry_count r + successes (fails_task tid) tbl ops"
  using assms
proof (induction ops arbitrary: tbl r)
  case Nil
  then show ?case by simp
next
  case (Cons op ops)
  obtain r1 where r1: "row_get ct_task_id tid (ct_step tbl op) = Some r1"
    "ct_retry_count r1 = ct_retry_count r + (if fails_task tid op \<and> \<not> isl (ct_apply tbl op) then 1 else 0)"
    using ct_step_retries [OF Cons.prems, of op] by blast
  from Cons.IH [OF ct_keys_step [OF Cons.prems(1)] r1(1)] r1(2) show ?case by auto
qed

lemma retries_from_absent:
  assumes "queue_ok tbl" and "list_all inserts_submitted ops" and "row_get ct_task_id tid tbl = None"
    and "row_get ct_task_id tid (run_ops ct_step tbl ops) = Some r"
  shows "ct_retry_count r = successes (fails_task tid) tbl ops"
  using assms
proof (induction ops arbitrary: tbl)
  case Nil
  then show ?case by simp
next
  case (Cons op ops)
  have d: "keys_distinct ct_task_id tbl" using Cons.prems(1) by (simp add: queue_ok_def)
  have none: "\<not> (fails_task tid op \<and> \<not> isl (ct_apply tbl op))"
    using row_get_fail_target [of tbl op _ tid] Cons.prems(3) by (cases "ct_apply tbl op") auto
  have ok: "queue_ok (ct_step tbl op)" using Cons.prems(1,2) by (simp add: queue_ok_step)
  show ?case
  proof (cases "row_get ct_task_id tid (ct_step tbl op)")
    case None
    with Cons ok none show ?thesis by simp
  next
    case (Some r1)
    have "ct_retry_count r1 = 0"
    proof (cases "ct_apply tbl op")
      case (Inl e)
      with Some Cons.prems(3) show ?thesis by (simp add: ct_step_def)
    next
      case (Inr tbl')
      from d Inr show ?thesis
      proof (cases rule: ct_apply_effect)
        case same
        with Some Cons.prems(3) Inr show ?thesis by (simp add: ct_step_def)
      next
        case (insert clock t row)
        with Some Cons.prems(2,3) Inr show ?thesis
          by (auto simp: ct_step_def row_get_add ct_submitted_def ct_new_row_fields(2) split: if_splits)
      next
        case (moved row row')
        with Some Cons.prems(3) Inr show ?thesis
          by (auto simp: ct_step_def ct_put_def row_get_put split: if_splits)
      qed
    qed
    moreover have "keys_distinct ct_task_id (ct_step tbl op)" using d by (rule ct_keys_step)
    ultimately show ?thesis
      using retries_counted [OF _ Some, of ops] Cons.prems(4) none by auto
  qed
qed

text \<open>
  Bounded retries. The retry counter of a task is the number of failures workers have recorded
  for it, never more than its maximum; the task is failed exactly when that many have been recorded,
  and until then it is pending, running or done, never lost.
\<close>

theorem content_task_retry_bound:
  assumes "list_all inserts_submitted ops"
    and "ct_get (run_ops ct_step [] ops) tid = Some t" and "ct_task_kind t \<noteq> ''replay''"
  shows "ct_retry_count t = successes (fails_task tid) [] ops \<and> ct_retry_count t \<le> ct_max_retries t \<and>
    (ct_retry_count t < ct_max_retries t \<longrightarrow>
       ct_status t \<in> {''PENDING'', ''RUNNING'', ''SUCCEEDED''}) \<and>
    (ct_status t = ''FAILED'' \<longrightarrow> ct_retry_count t = ct_max_retries t)"
proof -
  obtain r where r: "row_get ct_task_id tid (run_ops ct_step [] ops) = Some r" and t: "t = ct_domain r"
    using assms(2) by (auto simp: ct_get_def)
  have ok: "queue_ok (run_ops ct_step [] ops)" by (rule content_queue_ok [OF assms(1)])
  with r have "row_ok r" by (auto simp: queue_ok_def list_all_iff dest: row_get_Some_key)
  moreover have "ct_retry_count r = successes (fails_task tid) [] ops"
    by (rule retries_from_absent [OF _ assms(1) _ r]) (simp_all add: queue_ok_def keys_distinct_def)
  ultimately show ?thesis
    using assms(3) by (auto simp: t row_ok_def)
qed

theorem content_task_retry_bound_witness:
  "\<exists>t. ct_get (run_ops ct_step [] [CtInsert (Naive 0) example_task]) ''t1'' = Some t \<and>
     ct_retry_count t \<le> ct_max_retries t"
proof -
  have l: "list_all inserts_submitted [CtInsert (Naive 0) example_task]"
    by (simp add: ct_submitted_def example_task_def)
  obtain t where t: "ct_get (run_ops ct_step [] [CtInsert (Naive 0) example_task]) ''t1'' = Some t"
    "ct_task_kind t \<noteq> ''replay''"
    using example_table_eq
    by (simp add: example_table_def ct_get_def content_task.defs content_task_row.defs example_task_def)
  from content_task_retry_bound [OF l t] t(1) show ?thesis by blast
qed

section \<open>Claiming\<close>

text \<open>
  Claiming serves the queue. A claim for a task kind returns nothing exactly when no unlocked
  row of that kind is claimable; otherwise it returns the oldest of them, running, leased to the
  caller until now plus the lease time, with the fencing token one above the stored one, and it
  changes no other row.
\<close>

theorem content_claim_oldest:
  assumes "keys_distinct ct_task_id tbl" and "kind \<noteq> ''legacy_unresolved''"
  shows "case ct_claim_pending locked w kind ls now tbl of
      (None, tbl') \<Rightarrow> tbl' = tbl \<and>
        (\<forall>r \<in> set tbl. ct_claimable kind now r \<longrightarrow> ct_task_id r \<in> locked)
    | (Some t, tbl') \<Rightarrow>
        (\<exists>r \<in> set tbl. ct_claimable kind now r \<and> ct_task_id r \<notin> locked \<and>
           t = ct_domain (ct_claimed w ls now r) \<and> ct_get tbl' (ct_task_id r) = Some t \<and>
           (\<forall>r' \<in> set tbl. ct_claimable kind now r' \<longrightarrow> ct_task_id r' \<notin> locked \<longrightarrow>
              instant_of (ct_created_at r) \<le> instant_of (ct_created_at r')) \<and>
           (\<forall>tid. tid \<noteq> ct_task_id r \<longrightarrow> ct_get tbl' tid = ct_get tbl tid))"
proof (rule ct_claim_cases [of locked w kind ls now tbl])
  assume a: "ct_claim_pending locked w kind ls now tbl = (None, tbl)"
    "kind \<noteq> ''legacy_unresolved'' \<Longrightarrow> ct_candidates locked kind now tbl = []"
  have "ct_task_id r \<in> locked" if "r \<in> set tbl" "ct_claimable kind now r" for r
    using ct_candidates_set [of r locked kind now tbl] a(2) [OF assms(2)] that by auto
  with a(1) show ?thesis by simp
next
  fix r rs
  assume c: "ct_candidates locked kind now tbl = r # rs"
    and p: "ct_claim_pending locked w kind ls now tbl =
       (Some (ct_domain (ct_claimed w ls now r)), ct_put (ct_claimed w ls now r) tbl)"
    and r: "r \<in> set tbl" "ct_claimable kind now r" "ct_task_id r \<notin> locked"
  have "ct_get (ct_put (ct_claimed w ls now r) tbl) tid =
      (if tid = ct_task_id r then Some (ct_domain (ct_claimed w ls now r)) else ct_get tbl tid)" for tid
    using row_get_member [OF assms(1) r(1)] by (simp add: ct_get_def ct_put_def row_get_put)
  with r ct_candidates_oldest [OF c] show ?thesis by (simp add: p) blast
qed

theorem content_claim_oldest_witness:
  "(\<exists>t tbl'. ct_claim_pending {} ''a'' ''video_pipeline'' 900 0 example_table = (Some t, tbl')) \<and>
   (case ct_claim_pending {''t1''} ''a'' ''video_pipeline'' 900 0 example_table of
      (None, tbl') \<Rightarrow> tbl' = example_table | (Some t, tbl') \<Rightarrow> False)"
proof
  show "\<exists>t tbl'. ct_claim_pending {} ''a'' ''video_pipeline'' 900 0 example_table = (Some t, tbl')"
    using example_claim by blast
  have v: "''video_pipeline'' \<noteq> ''legacy_unresolved''" by simp
  have "set example_table \<subseteq> {r. ct_task_id r = ''t1''}"
    by (simp add: example_table_eq content_task.defs content_task_row.defs example_task_def)
  with content_claim_oldest [OF example_keys v, where locked = "{''t1''}" and w = "''a''" and ls = 900 and now = 0]
  show "case ct_claim_pending {''t1''} ''a'' ''video_pipeline'' 900 0 example_table of
      (None, tbl') \<Rightarrow> tbl' = example_table | (Some t, tbl') \<Rightarrow> False"
    by (auto split: prod.splits option.splits)
qed

section \<open>Idempotent submission\<close>

text \<open>A key that redaction leaves alone is stored as it was sent.\<close>

definition stable_key :: "content_task \<Rightarrow> bool" where
  "stable_key t \<longleftrightarrow> (\<exists>key. ct_idempotency_key t = Some key \<and> key \<noteq> [] \<and> redact_text key = Inr key)"

lemma new_row_key:
  assumes "ct_new_row clock t = Inr row" and "stable_key t"
  shows "ct_idempotency_key row = ct_idempotency_key t"
  using ct_new_row_fields(10) [OF assms(1)] assms(2) task_keys_not_redacted
  by (auto simp: stable_key_def redact_ostr_def)

lemma by_key_unique:
  assumes "distinct (filter (\<lambda>k. k \<noteq> None) (map ct_idempotency_key tbl))"
    and "r \<in> set tbl" and "ct_idempotency_key r = key" and "key \<noteq> None"
  shows "ct_by_key key tbl = Some r"
  using assms
proof (induction tbl)
  case Nil
  then show ?case by simp
next
  case (Cons a tbl)
  then show ?case
    by (cases "r = a") (auto simp: ct_by_key_def image_iff split: if_splits)
qed

text \<open>
  Idempotent submission. When a submission under a key that redaction leaves unchanged returned
  a task, then in every later state of the queue a submission with the same key stores nothing: it
  returns the stored task, now with that key's request hash, if the request hash agrees with the
  stored one, and raises the conflict error if not, whatever task id and content it carries.
\<close>

theorem content_create_idempotent:
  assumes "queue_ok tbl" and "ct_insert clock t tbl = Inr tbl'" and "stable_key t"
    and "list_all inserts_submitted ops" and "ct_submitted t"
    and "ct_idempotency_key t' = ct_idempotency_key t"
    and "redact_ostr ''request_hash'' (ct_request_hash t) = Inr (ct_request_hash t)"
  shows "\<exists>stored. ct_get (run_ops ct_step tbl' ops) (ct_task_id stored) = Some stored \<and>
    ct_idempotency_key stored = ct_idempotency_key t \<and>
    ct_create env1 env2 clock' t' (run_ops ct_step tbl' ops) =
      ((if ct_request_hash t' = ct_request_hash t then Inr stored
        else Inl (IdempotencyConflict ''Idempotency-Key is already bound to a different request'')),
       run_ops ct_step tbl' ops)"
proof -
  obtain row where row: "ct_new_row clock t = Inr row" "\<not> ct_unique_violation row tbl" "tbl' = row_add row tbl"
    using assms(2) by (auto simp: ct_insert_def try_bind_Inr_iff split: if_splits)
  have step: "ct_step tbl (CtInsert clock t) = tbl'" using assms(2) by (simp add: ct_step_def)
  have ok: "queue_ok tbl'"
    using queue_ok_step [OF assms(1), of "CtInsert clock t"] assms(5) by (simp add: step)
  have key: "ct_idempotency_key row = ct_idempotency_key t" "ct_idempotency_key t \<noteq> None"
    using new_row_key [OF row(1) assms(3)] assms(3) by (auto simp: stable_key_def)
  have hash: "ct_request_hash row = ct_request_hash t"
    using ct_new_row_fields(11) [OF row(1)] assms(7) by simp
  have got: "row_get ct_task_id (ct_task_id row) tbl' = Some row"
    using row(2,3) by (simp add: ct_unique_violation_def row_get_add)
  obtain r where r: "row_get ct_task_id (ct_task_id row) (run_ops ct_step tbl' ops) = Some r"
    "ct_idempotency_key r = ct_idempotency_key row" "ct_request_hash r = ct_request_hash row"
    using identity_kept [OF _ got, of ops] ok by (auto simp: queue_ok_def)
  have okr: "queue_ok (run_ops ct_step tbl' ops)" by (rule queue_ok_run [OF ok assms(4)])
  have "ct_by_key (ct_idempotency_key t') (run_ops ct_step tbl' ops) = Some r"
    by (rule by_key_unique) (use okr r key assms(6) in \<open>auto simp: queue_ok_def dest: row_get_Some_key\<close>)
  moreover have "truthy (ct_idempotency_key t')" using assms(3,6) by (auto simp: stable_key_def)
  ultimately have "ct_create env1 env2 clock' t' (run_ops ct_step tbl' ops) =
      (reserve_existing r t', run_ops ct_step tbl' ops)"
    by (simp add: ct_create_def)
  moreover have "ct_task_id r = ct_task_id row" using r(1) by (auto dest: row_get_Some_key)
  ultimately show ?thesis
    using r key hash by (intro exI [of _ "ct_domain r"]) (auto simp: ct_get_def reserve_existing_def)
qed

lemma content_create_idempotent_premises:
  "queue_ok [] \<and> ct_insert (Naive 0) example_task [] = Inr example_table \<and> stable_key example_task \<and>
   ct_submitted example_task \<and>
   redact_ostr ''request_hash'' (ct_request_hash example_task) = Inr (ct_request_hash example_task)"
proof (intro conjI)
  show "queue_ok []" by (simp add: queue_ok_def keys_distinct_def)
  show "ct_insert (Naive 0) example_task [] = Inr example_table"
    by (simp add: example_table_eq ct_insert_def ct_new_row_def example_to_dict
        ct_unique_violation_def ct_by_key_def row_add_def)
  have plain: "list_all plain_char ''k1'' \<and> list_all plain_char ''h1''" by code_simp
  then show "stable_key example_task"
    by (simp add: stable_key_def example_task_def redact_text_plain)
  show "ct_submitted example_task" by (simp add: ct_submitted_def example_task_def)
  show "redact_ostr ''request_hash'' (ct_request_hash example_task) = Inr (ct_request_hash example_task)"
    using plain task_keys_not_redacted by (simp add: redact_ostr_def example_task_def redact_text_plain)
qed

theorem content_create_idempotent_witness:
  "\<exists>stored. fst (ct_create id id (Naive 9) (example_task\<lparr>ct_task_id := ''t2''\<rparr>)
      (run_ops ct_step example_table [CtClaim {} ''a'' ''video_pipeline'' 900 0])) = Inr stored \<and>
     ct_idempotency_key stored = Some ''k1''"
proof -
  note p = content_create_idempotent_premises
  have l: "list_all inserts_submitted [CtClaim {} ''a'' ''video_pipeline'' 900 0]" by simp
  have k: "ct_idempotency_key (example_task\<lparr>ct_task_id := ''t2''\<rparr>) = ct_idempotency_key example_task" by simp
  have h: "ct_request_hash (example_task\<lparr>ct_task_id := ''t2''\<rparr>) = ct_request_hash example_task" by simp
  have k1: "ct_idempotency_key example_task = Some ''k1''" by (simp add: example_task_def)
  from content_create_idempotent [OF p [THEN conjunct1] p [THEN conjunct2, THEN conjunct1]
      p [THEN conjunct2, THEN conjunct2, THEN conjunct1] l
      p [THEN conjunct2, THEN conjunct2, THEN conjunct2, THEN conjunct1] k
      p [THEN conjunct2, THEN conjunct2, THEN conjunct2, THEN conjunct2], of id id "Naive 9"]
  show ?thesis unfolding h k1 by auto
qed

text \<open>
  Two defects of submission that the model shows. The redaction of \<open>to_dict\<close> treats the column
  \<open>locator_secret_hash\<close> as a secret, so the stored value is the redaction mark for every task, also
  when there is no hash. And a violated constraint that is not the idempotency key's (a duplicate
  task id) ends in a bare \<open>raise\<close> outside the handler.
\<close>

lemma create_loses_locator_hash:
  "ct_new_row clock t = Inr row \<Longrightarrow> ct_locator_secret_hash row = Some redacted"
  using ct_new_row_fields(12) [of clock t row] locator_secret_hash_redacted by (simp add: redact_ostr_def)

lemma create_duplicate_id_reraises_nothing:
  assumes "truthy (ct_idempotency_key t)" and "ct_by_key (ct_idempotency_key t) tbl = None"
    and "ct_new_row clock t = Inr row" and "row_get ct_task_id (ct_task_id row) tbl \<noteq> None"
  shows "fst (ct_create id id clock t tbl) = Inl (RuntimeError ''No active exception to reraise'')"
  using assms by (simp add: ct_create_def ct_insert_def ct_unique_violation_def)

end
