(* ===== verification/Signal_Outbox.thy ===== *)
theory Signal_Outbox
  imports Json Lease
begin

text \<open>
  \<open>SignalOutboxRepository\<close> (\<open>adapters/postgres/repositories/signal_outbox_repository.py\<close>): the
  transactional outbox of factor signals, with leases, a retry schedule and a dead-letter state.
  Each method is one transaction over the table. \<open>now\<close> is \<open>now or datetime.now(UTC)\<close>, an aware
  instant; \<open>H\<close> is the hexadecimal SHA-256 digest; \<open>locked\<close> are the rows that other transactions
  hold (\<open>skip_locked\<close>).
\<close>

section \<open>Data\<close>

record outbox_row =
  ob_id :: string
  ob_signal_id :: string
  ob_content_snapshot_id :: "json option"
  ob_claim_id :: "json option"
  ob_schema_version :: string
  ob_payload :: pydict
  ob_status :: string
  ob_attempts :: int
  ob_next_attempt_at :: "pydt option"
  ob_last_error :: "string option"
  ob_lease_owner :: "string option"
  ob_lease_expires_at :: "pydt option"
  ob_created_at :: pydt
  ob_published_at :: "pydt option"

type_synonym outbox = "outbox_row list"

definition outbox_retry_seconds :: "int list" where
  "outbox_retry_seconds = [60, 300, 1800, 7200, 43200]"

definition outbox_id_of :: "(string \<Rightarrow> string) \<Rightarrow> string \<Rightarrow> string" where
  "outbox_id_of H signal_id = ''outbox-'' @ take 32 (H signal_id)"

section \<open>Operations\<close>

definition ob_by_signal :: "string \<Rightarrow> outbox \<Rightarrow> outbox_row option" where
  "ob_by_signal sid tbl = row_get ob_signal_id sid tbl"

text \<open>\<open>on_conflict_do_nothing\<close> covers the signal id only: a foreign row under the same primary key raises.\<close>

definition ob_insert_ignore :: "outbox_row \<Rightarrow> outbox \<Rightarrow> outbox result" where
  "ob_insert_ignore row tbl =
     (if ob_by_signal (ob_signal_id row) tbl \<noteq> None then Inr tbl
      else if row_get ob_id (ob_id row) tbl \<noteq> None
      then Inl (IntegrityError ''duplicate key value violates unique constraint'')
      else Inr (row_add row tbl))"

definition ob_new_row :: "(string \<Rightarrow> string) \<Rightarrow> string \<Rightarrow> pydict \<Rightarrow> instant \<Rightarrow> outbox_row" where
  "ob_new_row H signal_id payload now =
     \<lparr>ob_id = outbox_id_of H signal_id, ob_signal_id = signal_id,
      ob_content_snapshot_id = dict_get ''content_snapshot_id'' payload,
      ob_claim_id = dict_get ''claim_id'' payload,
      ob_schema_version = str_field ''signal_schema_version'' ''content-factor-signal.v4'' payload,
      ob_payload = payload, ob_status = ''PENDING'', ob_attempts = 0,
      ob_next_attempt_at = Some (Aware now 0), ob_last_error = None, ob_lease_owner = None,
      ob_lease_expires_at = None, ob_created_at = Aware now 0, ob_published_at = None\<rparr>"

definition ob_enqueue ::
  "(string \<Rightarrow> string) \<Rightarrow> pydict \<Rightarrow> instant \<Rightarrow> outbox \<Rightarrow> (outbox_row \<times> outbox) result" where
  "ob_enqueue H payload now tbl =
     (let signal_id = str_field ''signal_id'' [] payload
      in if signal_id = [] then Inl (ValueError ''outbox payload requires signal_id'')
         else try_bind (ob_insert_ignore
           (ob_new_row H signal_id payload now) tbl)
           (\<lambda>tbl'. case ob_by_signal signal_id tbl' of
              None \<Rightarrow> Inl (RuntimeError ''outbox row disappeared after a unique-key conflict'')
            | Some row \<Rightarrow>
                if \<not> same_dict (ob_payload row) payload
                then Inl (OutboxIntegrityError (''signal '' @ signal_id @ '' already has a different payload''))
                else Inr (row, tbl')))"

definition null_or_past :: "pydt option \<Rightarrow> instant \<Rightarrow> bool" where
  "null_or_past t now = (case t of None \<Rightarrow> True | Some e \<Rightarrow> instant_of e \<le> now)"

definition ob_eligible :: "outbox_row \<Rightarrow> instant \<Rightarrow> bool" where
  "ob_eligible row now \<longleftrightarrow>
     ob_status row \<in> {''PENDING'', ''RETRY'', ''PUBLISHING''} \<and>
     null_or_past (ob_next_attempt_at row) now \<and> null_or_past (ob_lease_expires_at row) now"

definition ob_seize :: "string \<Rightarrow> int \<Rightarrow> instant \<Rightarrow> outbox_row \<Rightarrow> outbox_row" where
  "ob_seize worker lease_seconds now row =
     row\<lparr>ob_status := ''PUBLISHING'', ob_lease_owner := Some worker,
         ob_lease_expires_at := Some (Aware (now + seconds lease_seconds) 0)\<rparr>"

definition ob_due :: "string set \<Rightarrow> nat \<Rightarrow> instant \<Rightarrow> outbox \<Rightarrow> outbox_row list" where
  "ob_due locked limit now tbl =
     take limit (sort_key (\<lambda>r. (instant_of (ob_created_at r), ob_id r))
       (filter (\<lambda>r. ob_eligible r now \<and> ob_id r \<notin> locked) tbl))"

definition ob_claim_due ::
  "string set \<Rightarrow> string \<Rightarrow> nat \<Rightarrow> int \<Rightarrow> instant \<Rightarrow> outbox \<Rightarrow> outbox_row list \<times> outbox" where
  "ob_claim_due locked worker limit lease_seconds now tbl =
     (let rows = map (ob_seize worker lease_seconds now) (ob_due locked limit now tbl)
      in (rows, foldl (\<lambda>t r. row_put ob_id r t) tbl rows))"

definition ob_assert_owner :: "outbox_row option \<Rightarrow> string \<Rightarrow> instant \<Rightarrow> outbox_row result" where
  "ob_assert_owner row worker now =
     (case row of
        None \<Rightarrow> Inl (KeyError ''outbox row not found'')
      | Some r \<Rightarrow>
          if ob_status r \<noteq> ''PUBLISHING'' \<or> ob_lease_owner r \<noteq> Some worker
          then Inl (OutboxIntegrityError ''outbox lease owner mismatch'')
          else (case map_option as_utc (ob_lease_expires_at r) of
                  None \<Rightarrow> Inr r
                | Some e \<Rightarrow> if instant_of e \<le> now
                           then Inl (OutboxIntegrityError ''outbox lease expired'') else Inr r))"

definition ob_mark_published :: "string \<Rightarrow> string \<Rightarrow> instant \<Rightarrow> outbox \<Rightarrow> (outbox_row \<times> outbox) result" where
  "ob_mark_published oid worker now tbl =
     try_bind (ob_assert_owner (row_get ob_id oid tbl) worker now) (\<lambda>row.
       let row' = row\<lparr>ob_status := ''PUBLISHED'', ob_published_at := Some (Aware now 0),
                      ob_lease_owner := None, ob_lease_expires_at := None, ob_next_attempt_at := None\<rparr>
       in Inr (row', row_put ob_id row' tbl))"

definition ob_mark_retry ::
  "string \<Rightarrow> string \<Rightarrow> string \<Rightarrow> instant \<Rightarrow> outbox \<Rightarrow> (outbox_row \<times> outbox) result" where
  "ob_mark_retry oid worker err now tbl =
     try_bind (ob_assert_owner (row_get ob_id oid tbl) worker now) (\<lambda>row.
       let n = ob_attempts row + 1;
           base = row\<lparr>ob_attempts := n, ob_last_error := Some err, ob_lease_owner := None,
                      ob_lease_expires_at := None\<rparr>;
           row' = (if n > int (length outbox_retry_seconds)
                   then base\<lparr>ob_status := ''DEAD_LETTER'', ob_next_attempt_at := None\<rparr>
                   else base\<lparr>ob_status := ''RETRY'', ob_next_attempt_at :=
                     Some (Aware (now + seconds (outbox_retry_seconds ! nat (n - 1))) 0)\<rparr>)
       in Inr (row', row_put ob_id row' tbl))"

definition ob_get :: "string \<Rightarrow> outbox \<Rightarrow> outbox_row option" where
  "ob_get oid tbl = row_get ob_id oid tbl"

definition ob_list_for_snapshot :: "string \<Rightarrow> string option \<Rightarrow> outbox \<Rightarrow> outbox_row list" where
  "ob_list_for_snapshot snap claim tbl =
     sort_key (\<lambda>r. (instant_of (ob_created_at r), ob_signal_id r))
       (filter (\<lambda>r. ob_content_snapshot_id r = Some (JStr snap) \<and>
          (truthy claim \<longrightarrow> ob_claim_id r = map_option JStr claim)) tbl)"

definition ob_list_all :: "bool \<Rightarrow> outbox \<Rightarrow> outbox_row list" where
  "ob_list_all include_published tbl =
     sort_key (\<lambda>r. (instant_of (ob_created_at r), ob_signal_id r))
       (filter (\<lambda>r. include_published \<or> ob_status r \<noteq> ''PUBLISHED'') tbl)"

section \<open>Runs of the outbox\<close>

datatype ob_op =
    ObEnqueue pydict instant
  | ObClaim "string set" string nat int instant
  | ObPublished string string instant
  | ObRetry string string string instant

fun ob_apply :: "(string \<Rightarrow> string) \<Rightarrow> outbox \<Rightarrow> ob_op \<Rightarrow> outbox result" where
  "ob_apply H tbl (ObEnqueue payload now) = try_bind (ob_enqueue H payload now tbl) (\<lambda>r. Inr (snd r))"
| "ob_apply H tbl (ObClaim locked w limit ls now) = Inr (snd (ob_claim_due locked w limit ls now tbl))"
| "ob_apply H tbl (ObPublished oid w now) = try_bind (ob_mark_published oid w now tbl) (\<lambda>r. Inr (snd r))"
| "ob_apply H tbl (ObRetry oid w err now) = try_bind (ob_mark_retry oid w err now tbl) (\<lambda>r. Inr (snd r))"

definition ob_step :: "(string \<Rightarrow> string) \<Rightarrow> outbox \<Rightarrow> ob_op \<Rightarrow> outbox" where
  "ob_step H tbl op = (case ob_apply H tbl op of Inl e \<Rightarrow> tbl | Inr tbl' \<Rightarrow> tbl')"

fun ob_actor :: "ob_op \<Rightarrow> (string \<times> instant) option" where
  "ob_actor (ObEnqueue payload now) = None"
| "ob_actor (ObClaim locked w limit ls now) = Some (w, now)"
| "ob_actor (ObPublished oid w now) = Some (w, now)"
| "ob_actor (ObRetry oid w err now) = Some (w, now)"

definition ob_owns :: "outbox_row \<Rightarrow> string \<Rightarrow> instant \<Rightarrow> bool" where
  "ob_owns row w now \<longleftrightarrow> ob_assert_owner (Some row) w now = Inr row"

definition ob_expiry :: "outbox_row \<Rightarrow> instant option" where
  "ob_expiry row = map_option instant_of (ob_lease_expires_at row)"

definition ob_invar :: "outbox \<Rightarrow> bool" where
  "ob_invar tbl \<longleftrightarrow> keys_distinct ob_id tbl \<and> keys_distinct ob_signal_id tbl"

section \<open>The effect of each operation on a row\<close>

lemma ob_assert_owner_iff:
  "ob_assert_owner row w now = Inr r \<longleftrightarrow> row = Some r \<and> ob_owns r w now"
  by (auto simp: ob_assert_owner_def ob_owns_def split: option.splits if_splits)

lemma ob_owns_iff:
  "ob_owns r w now \<longleftrightarrow> ob_status r = ''PUBLISHING'' \<and> ob_lease_owner r = Some w \<and>
     (\<forall>e. ob_expiry r = Some e \<longrightarrow> now < e)"
  by (auto simp: ob_owns_def ob_assert_owner_def ob_expiry_def split: option.splits)

definition ob_published_row :: "instant \<Rightarrow> outbox_row \<Rightarrow> outbox_row" where
  "ob_published_row now row =
     row\<lparr>ob_status := ''PUBLISHED'', ob_published_at := Some (Aware now 0),
         ob_lease_owner := None, ob_lease_expires_at := None, ob_next_attempt_at := None\<rparr>"

definition ob_retried_row :: "string \<Rightarrow> instant \<Rightarrow> outbox_row \<Rightarrow> outbox_row" where
  "ob_retried_row err now row =
     (let n = ob_attempts row + 1;
          base = row\<lparr>ob_attempts := n, ob_last_error := Some err, ob_lease_owner := None,
                     ob_lease_expires_at := None\<rparr>
      in if n > int (length outbox_retry_seconds)
         then base\<lparr>ob_status := ''DEAD_LETTER'', ob_next_attempt_at := None\<rparr>
         else base\<lparr>ob_status := ''RETRY'', ob_next_attempt_at :=
           Some (Aware (now + seconds (outbox_retry_seconds ! nat (n - 1))) 0)\<rparr>)"

lemma ob_mark_published_iff:
  "ob_mark_published oid w now tbl = Inr (row', tbl') \<longleftrightarrow>
     (\<exists>row. row_get ob_id oid tbl = Some row \<and> ob_owns row w now \<and>
        row' = ob_published_row now row \<and> tbl' = row_put ob_id row' tbl)"
  by (auto simp: ob_mark_published_def try_bind_Inr_iff ob_assert_owner_iff ob_published_row_def Let_def)

lemma ob_mark_retry_iff:
  "ob_mark_retry oid w err now tbl = Inr (row', tbl') \<longleftrightarrow>
     (\<exists>row. row_get ob_id oid tbl = Some row \<and> ob_owns row w now \<and>
        row' = ob_retried_row err now row \<and> tbl' = row_put ob_id row' tbl)"
proof -
  have "ob_mark_retry oid w err now tbl =
      try_bind (ob_assert_owner (row_get ob_id oid tbl) w now)
        (\<lambda>row. Inr (ob_retried_row err now row, row_put ob_id (ob_retried_row err now row) tbl))"
    by (simp only: ob_mark_retry_def ob_retried_row_def Let_def)
  then show ?thesis by (auto simp: try_bind_Inr_iff ob_assert_owner_iff)
qed

lemma ob_keys [simp]:
  "ob_id (ob_seize w ls now r) = ob_id r" "ob_signal_id (ob_seize w ls now r) = ob_signal_id r"
  "ob_id (ob_published_row now r) = ob_id r" "ob_signal_id (ob_published_row now r) = ob_signal_id r"
  "ob_id (ob_retried_row err now r) = ob_id r" "ob_signal_id (ob_retried_row err now r) = ob_signal_id r"
  by (simp_all add: ob_seize_def ob_published_row_def ob_retried_row_def Let_def)

text \<open>Writing back rows of the table that keep their keys.\<close>

lemma row_put_keeps:
  assumes "keys_distinct ob_id tbl" and "row_get ob_id (ob_id r) tbl = Some r0"
    and "ob_signal_id r = ob_signal_id r0"
  shows "map ob_signal_id (row_put ob_id r tbl) = map ob_signal_id tbl"
proof -
  have "ob_signal_id (if ob_id x = ob_id r then r else x) = ob_signal_id x" if "x \<in> set tbl" for x
    using row_get_member [OF assms(1) that] assms(2,3) by auto
  then show ?thesis by (simp add: row_put_def)
qed

lemma ob_invar_put:
  assumes "ob_invar tbl" and "row_get ob_id (ob_id r) tbl = Some r0" and "ob_signal_id r = ob_signal_id r0"
  shows "ob_invar (row_put ob_id r tbl)"
  using assms row_put_keeps [of tbl r r0] by (simp add: ob_invar_def) (simp add: keys_distinct_def)

lemma ob_invar_write:
  "ob_invar tbl \<Longrightarrow> row_get ob_id k tbl = Some r0 \<Longrightarrow> ob_id r = ob_id r0 \<Longrightarrow>
     ob_signal_id r = ob_signal_id r0 \<Longrightarrow> ob_invar (row_put ob_id r tbl)"
  using ob_invar_put [of tbl r r0] row_get_Some_key [of ob_id k tbl r0] by simp

lemma ob_due_subset:
  "r \<in> set (ob_due locked limit now tbl) \<Longrightarrow> r \<in> set tbl \<and> ob_eligible r now \<and> ob_id r \<notin> locked"
  by (auto simp: ob_due_def dest: in_set_takeD)

text \<open>What a claim does to one row.\<close>

lemma ob_claim_row:
  assumes "keys_distinct ob_id tbl" and "row_get ob_id k tbl = Some r"
  shows "row_get ob_id k (snd (ob_claim_due locked w limit ls now tbl)) =
     Some (if r \<in> set (ob_due locked limit now tbl) then ob_seize w ls now r else r)"
  using row_get_batch [OF assms, of "ob_due locked limit now tbl" "ob_seize w ls now"] ob_due_subset
  by (fastforce simp: ob_claim_due_def Let_def)

lemma ob_claim_invar:
  assumes "ob_invar tbl"
  shows "ob_invar (snd (ob_claim_due locked w limit ls now tbl))"
proof -
  let ?puts = "\<lambda>rs. foldl (\<lambda>t r. row_put ob_id r t) tbl (map (ob_seize w ls now) rs)"
  have "ob_invar (?puts rs) \<and>
      (\<forall>k. map_option ob_signal_id (row_get ob_id k (?puts rs)) = map_option ob_signal_id (row_get ob_id k tbl))"
    if "set rs \<subseteq> set tbl" for rs
    using that
  proof (induction rs rule: rev_induct)
    case Nil
    with assms show ?case by simp
  next
    case (snoc r rs)
    have r: "row_get ob_id (ob_id r) tbl = Some r"
      using row_get_member [of ob_id tbl r] assms snoc.prems by (simp add: ob_invar_def)
    with snoc obtain r0 where r0: "row_get ob_id (ob_id r) (?puts rs) = Some r0"
      "ob_signal_id r0 = ob_signal_id r"
      by (metis (no_types, lifting) map_option_eq_Some option.simps(9) set_append sup.boundedE)
    show ?case
      using ob_invar_put [of "?puts rs" "ob_seize w ls now r" r0] snoc r0 r by (simp add: row_get_put)
  qed
  from this [of "ob_due locked limit now tbl"] show ?thesis
    using ob_due_subset [of _ locked limit now tbl] by (auto simp: ob_claim_due_def Let_def)
qed

lemma ob_new_row_keys [simp]:
  "ob_signal_id (ob_new_row H sid payload now) = sid" "ob_id (ob_new_row H sid payload now) = outbox_id_of H sid"
  "ob_payload (ob_new_row H sid payload now) = payload"
  by (simp_all add: ob_new_row_def)

lemma ob_enqueue_cases:
  assumes "ob_enqueue H payload now tbl = Inr (row, tbl')"
  obtains (known) "tbl' = tbl" "ob_by_signal (str_field ''signal_id'' [] payload) tbl = Some row"
      "same_dict (ob_payload row) payload"
  | (fresh) "tbl' = row_add row tbl" "row_get ob_id (ob_id row) tbl = None"
      "ob_by_signal (ob_signal_id row) tbl = None"
      "row = ob_new_row H (str_field ''signal_id'' [] payload) payload now"
proof -
  let ?sid = "str_field ''signal_id'' [] payload"
  show ?thesis
  proof (cases "ob_by_signal ?sid tbl")
    case (Some r)
    with assms show ?thesis
      by (intro known) (auto simp: ob_enqueue_def Let_def ob_insert_ignore_def split: if_splits)
  next
    case None
    with assms show ?thesis
      by (intro fresh) (auto simp: ob_enqueue_def Let_def ob_insert_ignore_def try_bind_Inr_iff
          ob_by_signal_def row_get_add ob_new_row_def split: if_splits)
  qed
qed

section \<open>The row state machine\<close>

inductive ob_effect :: "ob_op \<Rightarrow> outbox_row \<Rightarrow> outbox_row \<Rightarrow> bool" where
  seized: "ob_eligible r now \<Longrightarrow> ob_effect (ObClaim locked w limit ls now) r (ob_seize w ls now r)"
| published: "ob_owns r w now \<Longrightarrow> ob_id r = oid \<Longrightarrow>
    ob_effect (ObPublished oid w now) r (ob_published_row now r)"
| retried: "ob_owns r w now \<Longrightarrow> ob_id r = oid \<Longrightarrow>
    ob_effect (ObRetry oid w err now) r (ob_retried_row err now r)"

lemma ob_invar_step:
  assumes "ob_invar tbl"
  shows "ob_invar (ob_step H tbl op)"
proof (cases op)
  case (ObEnqueue payload now)
  show ?thesis
  proof (cases "ob_enqueue H payload now tbl")
    case (Inr rt)
    obtain row tbl' where rt: "rt = (row, tbl')" by (cases rt)
    have "ob_invar tbl'"
      by (rule ob_enqueue_cases [OF Inr [unfolded rt]])
         (use assms in \<open>auto simp: ob_invar_def keys_distinct_add ob_by_signal_def\<close>)
    then show ?thesis by (simp add: ObEnqueue ob_step_def Inr rt)
  qed (simp add: ObEnqueue ob_step_def assms)
next
  case (ObClaim locked w limit ls now)
  with assms show ?thesis by (simp add: ob_step_def ob_claim_invar)
next
  case (ObPublished oid w now)
  with assms show ?thesis
    by (auto simp: ob_step_def ob_mark_published_iff try_bind_Inr_iff split: sum.splits
        intro!: ob_invar_write)
next
  case (ObRetry oid w err now)
  with assms show ?thesis
    by (auto simp: ob_step_def ob_mark_retry_iff try_bind_Inr_iff split: sum.splits
        intro!: ob_invar_write)
qed

lemma ob_step_row:
  assumes "ob_invar tbl" and "row_get ob_id k tbl = Some r"
  obtains (same) "row_get ob_id k (ob_step H tbl op) = Some r"
  | (moved) r' where "row_get ob_id k (ob_step H tbl op) = Some r'" "ob_effect op r r'"
proof (cases op)
  case (ObEnqueue payload now)
  show ?thesis
  proof (cases "ob_enqueue H payload now tbl")
    case (Inr rt)
    obtain row tbl' where rt: "rt = (row, tbl')" by (cases rt)
    have "row_get ob_id k tbl' = Some r"
      by (rule ob_enqueue_cases [OF Inr [unfolded rt]]) (use assms in \<open>auto simp: row_get_add\<close>)
    then show ?thesis by (intro same) (simp add: ObEnqueue ob_step_def Inr rt)
  qed (use assms(2) in \<open>simp add: same ObEnqueue ob_step_def\<close>)
next
  case (ObClaim locked w limit ls now)
  have d: "keys_distinct ob_id tbl" using assms(1) by (simp add: ob_invar_def)
  show ?thesis
  proof (cases "r \<in> set (ob_due locked limit now tbl)")
    case True
    with ob_claim_row [OF d assms(2)] ob_due_subset [OF True] ObClaim show ?thesis
      by (intro moved [of "ob_seize w ls now r"]) (auto simp: ob_step_def intro: ob_effect.intros)
  next
    case False
    with ob_claim_row [OF d assms(2)] ObClaim show ?thesis by (intro same) (simp add: ob_step_def)
  qed
next
  case (ObPublished oid w now)
  show ?thesis
  proof (cases "ob_mark_published oid w now tbl")
    case (Inr rt)
    obtain row' tbl' where rt: "rt = (row', tbl')" by (cases rt)
    from Inr [unfolded rt] obtain row where row: "row_get ob_id oid tbl = Some row" "ob_owns row w now"
      "row' = ob_published_row now row" "tbl' = row_put ob_id row' tbl" "ob_id row = oid"
      by (auto simp: ob_mark_published_iff dest: row_get_Some_key)
    have step: "ob_step H tbl op = tbl'" by (simp add: ObPublished ob_step_def Inr rt)
    show ?thesis
    proof (cases "oid = k")
      case True
      with row assms(2) have "row = r" by simp
      show ?thesis
      proof (rule moved)
        show "row_get ob_id k (ob_step H tbl op) = Some row'"
          using row True \<open>row = r\<close> assms(2) by (auto simp: step row_get_put)
        show "ob_effect op r row'"
          using row \<open>row = r\<close> by (auto simp: ObPublished intro: ob_effect.intros)
      qed
    next
      case False
      with row assms(2) show ?thesis by (intro same) (simp add: step row_get_put)
    qed
  qed (use assms(2) in \<open>simp add: same ObPublished ob_step_def\<close>)
next
  case (ObRetry oid w err now)
  show ?thesis
  proof (cases "ob_mark_retry oid w err now tbl")
    case (Inr rt)
    obtain row' tbl' where rt: "rt = (row', tbl')" by (cases rt)
    from Inr [unfolded rt] obtain row where row: "row_get ob_id oid tbl = Some row" "ob_owns row w now"
      "row' = ob_retried_row err now row" "tbl' = row_put ob_id row' tbl" "ob_id row = oid"
      by (auto simp: ob_mark_retry_iff dest: row_get_Some_key)
    have step: "ob_step H tbl op = tbl'" by (simp add: ObRetry ob_step_def Inr rt)
    show ?thesis
    proof (cases "oid = k")
      case True
      with row assms(2) have "row = r" by simp
      show ?thesis
      proof (rule moved)
        show "row_get ob_id k (ob_step H tbl op) = Some row'"
          using row True \<open>row = r\<close> assms(2) by (auto simp: step row_get_put)
        show "ob_effect op r row'"
          using row \<open>row = r\<close> by (auto simp: ObRetry intro: ob_effect.intros)
      qed
    next
      case False
      with row assms(2) show ?thesis by (intro same) (simp add: step row_get_put)
    qed
  qed (use assms(2) in \<open>simp add: same ObRetry ob_step_def\<close>)
qed

lemma ob_seize_owns: "0 < d \<Longrightarrow> ob_owns (ob_seize w d now r) w now"
  by (simp add: ob_owns_iff ob_seize_def ob_expiry_def time_simps)

interpretation outbox_queue:
  queue_table ob_eligible ob_seize ob_owns ob_expiry ob_invar "\<lambda>tbl k. row_get ob_id k tbl" "ob_step H"
    ob_actor "\<lambda>_ _. False" for H
proof
  fix d w now r
  show "0 < d \<Longrightarrow> ob_owns (ob_seize w d now r) w now" by (rule ob_seize_owns)
  show "ob_expiry (ob_seize w d now r) = Some (now + seconds d)"
    by (simp add: ob_seize_def ob_expiry_def)
next
  fix r w now w' now'
  show "ob_owns r w now \<Longrightarrow> ob_owns r w' now' \<Longrightarrow> w = w'" by (simp add: ob_owns_iff)
next
  fix r w now e
  show "ob_owns r w now \<Longrightarrow> ob_expiry r = Some e \<Longrightarrow> now < e" by (simp add: ob_owns_iff)
  show "ob_expiry r = Some e \<Longrightarrow> now < e \<Longrightarrow> \<not> ob_eligible r now"
    by (auto simp: ob_eligible_def ob_expiry_def null_or_past_def)
next
  fix tbl op
  show "ob_invar tbl \<Longrightarrow> ob_invar (ob_step H tbl op)" by (rule ob_invar_step)
next
  fix tbl k r op
  assume "ob_invar tbl" and "row_get ob_id k tbl = Some r"
  then show "row_get ob_id k (ob_step H tbl op) = Some r \<or>
      (\<exists>w now. ob_actor op = Some (w, now) \<and> (ob_eligible r now \<or> ob_owns r w now))"
    by (rule ob_step_row [of tbl k r H op]) (auto elim!: ob_effect.cases)
qed


definition example_payload :: pydict where
  "example_payload = [(''signal_id'', JStr ''s1''), (''claim_id'', JStr ''c1'')]"

definition example_outbox :: outbox where
  "example_outbox = ob_step (\<lambda>s. s) [] (ObEnqueue example_payload 0)"

lemma example_outbox_eq:
  "example_outbox = [\<lparr>ob_id = ''outbox-s1'', ob_signal_id = ''s1'', ob_content_snapshot_id = None,
     ob_claim_id = Some (JStr ''c1''), ob_schema_version = ''content-factor-signal.v4'',
     ob_payload = example_payload, ob_status = ''PENDING'', ob_attempts = 0,
     ob_next_attempt_at = Some (Aware 0 0), ob_last_error = None, ob_lease_owner = None,
     ob_lease_expires_at = None, ob_created_at = Aware 0 0, ob_published_at = None\<rparr>]"
  by (simp add: example_outbox_def example_payload_def ob_step_def ob_enqueue_def str_field_def
      dict_get_def ob_insert_ignore_def ob_by_signal_def ob_new_row_def outbox_id_of_def row_add_def same_dict_def
      Let_def)

lemma example_outbox_invar: "ob_invar example_outbox"
  by (simp add: example_outbox_eq ob_invar_def keys_distinct_def)

lemma example_outbox_claim:
  "ob_seize ''w'' 60 5 (hd example_outbox) \<in> set (fst (ob_claim_due {} ''w'' 10 60 5 example_outbox))"
  by (simp add: example_outbox_eq ob_claim_due_def ob_due_def ob_eligible_def null_or_past_def)


section \<open>The retry schedule and the terminal states\<close>

definition ob_row_ok :: "(string \<Rightarrow> string) \<Rightarrow> outbox_row \<Rightarrow> bool" where
  "ob_row_ok H r \<longleftrightarrow>
     ob_status r \<in> {''PENDING'', ''RETRY'', ''PUBLISHING'', ''PUBLISHED'', ''DEAD_LETTER''} \<and>
     0 \<le> ob_attempts r \<and> ob_attempts r \<le> 6 \<and>
     (ob_status r = ''DEAD_LETTER'' \<longleftrightarrow> ob_attempts r = 6) \<and>
     (ob_status r = ''PENDING'' \<longrightarrow> ob_attempts r = 0) \<and>
     (ob_lease_owner r \<noteq> None \<longleftrightarrow> ob_status r = ''PUBLISHING'') \<and>
     (ob_lease_expires_at r \<noteq> None \<longleftrightarrow> ob_status r = ''PUBLISHING'') \<and>
     (ob_published_at r \<noteq> None \<longleftrightarrow> ob_status r = ''PUBLISHED'') \<and>
     ob_id r = outbox_id_of H (ob_signal_id r) \<and>
     ob_signal_id r = str_field ''signal_id'' [] (ob_payload r)"

lemma ob_effect_ok: "ob_effect op r r' \<Longrightarrow> ob_row_ok H r \<Longrightarrow> ob_row_ok H r'"
proof (induction rule: ob_effect.induct)
  case (seized r now locked w limit ls)
  then show ?case by (auto simp: ob_row_ok_def ob_eligible_def ob_seize_def)
next
  case (published r w now oid)
  then show ?case by (auto simp: ob_row_ok_def ob_owns_iff ob_published_row_def)
next
  case (retried r w now oid err)
  then show ?case
    by (auto simp: ob_row_ok_def ob_owns_iff ob_retried_row_def Let_def outbox_retry_seconds_def)
qed

lemma ob_effect_fields:
  "ob_effect op r r' \<Longrightarrow> ob_attempts r' = ob_attempts r + (case op of ObRetry _ _ _ _ \<Rightarrow> 1 | _ \<Rightarrow> 0)"
  "ob_effect op r r' \<Longrightarrow> ob_payload r' = ob_payload r \<and> ob_signal_id r' = ob_signal_id r \<and> ob_id r' = ob_id r"
  "ob_effect op r r' \<Longrightarrow> ob_status r \<notin> {''PUBLISHED'', ''DEAD_LETTER''}"
  by (induction rule: ob_effect.induct)
     (auto simp: ob_seize_def ob_published_row_def ob_retried_row_def Let_def ob_eligible_def ob_owns_iff)

definition outbox_ok :: "(string \<Rightarrow> string) \<Rightarrow> outbox \<Rightarrow> bool" where
  "outbox_ok H tbl \<longleftrightarrow> ob_invar tbl \<and> list_all (ob_row_ok H) tbl"

lemma ob_new_row_ok: "ob_row_ok H (ob_new_row H (str_field ''signal_id'' [] payload) payload now)"
  by (simp add: ob_row_ok_def ob_new_row_def)

text \<open>A row that a step makes appear is a freshly enqueued one.\<close>

lemma ob_step_new:
  assumes "row_get ob_id k tbl = None" and "row_get ob_id k (ob_step H tbl op) = Some r"
  shows "\<exists>payload now. r = ob_new_row H (str_field ''signal_id'' [] payload) payload now"
proof (cases op)
  case (ObEnqueue payload now)
  show ?thesis
  proof (cases "ob_enqueue H payload now tbl")
    case (Inl e)
    with assms ObEnqueue show ?thesis by (simp add: ob_step_def)
  next
    case (Inr rt)
    obtain row tbl' where rt: "rt = (row, tbl')" by (cases rt)
    show ?thesis
      by (rule ob_enqueue_cases [OF Inr [unfolded rt]])
         (use assms ObEnqueue Inr rt in \<open>auto simp: ob_step_def row_get_add split: if_splits\<close>)
  qed
next
  case (ObClaim locked w limit ls now)
  with assms show ?thesis by (auto simp: ob_step_def ob_claim_due_def Let_def row_get_puts)
next
  case (ObPublished oid w now)
  with assms show ?thesis
    by (auto simp: ob_step_def ob_mark_published_iff try_bind_Inr_iff row_get_put split: sum.splits if_splits)
next
  case (ObRetry oid w err now)
  with assms show ?thesis
    by (auto simp: ob_step_def ob_mark_retry_iff try_bind_Inr_iff row_get_put split: sum.splits if_splits)
qed

lemma outbox_ok_step:
  assumes "outbox_ok H tbl"
  shows "outbox_ok H (ob_step H tbl op)"
proof -
  have inv: "ob_invar tbl" using assms by (simp add: outbox_ok_def)
  have inv': "ob_invar (ob_step H tbl op)" by (rule ob_invar_step [OF inv])
  have "ob_row_ok H r" if "r \<in> set (ob_step H tbl op)" for r
  proof -
    have r: "row_get ob_id (ob_id r) (ob_step H tbl op) = Some r"
      using inv' that by (auto simp: ob_invar_def intro: row_get_member)
    show ?thesis
    proof (cases "row_get ob_id (ob_id r) tbl")
      case (Some r0)
      then have ok0: "ob_row_ok H r0"
        using assms by (auto simp: outbox_ok_def list_all_iff dest: row_get_Some_key)
      show ?thesis
        by (rule ob_step_row [OF inv Some, of H op]) (use r ok0 ob_effect_ok in auto)
    next
      case None
      from ob_step_new [OF this r] ob_new_row_ok show ?thesis by auto
    qed
  qed
  with inv' show ?thesis by (auto simp: outbox_ok_def list_all_iff)
qed

lemma outbox_ok_run: "outbox_ok H (run_ops (ob_step H) [] ops)"
  by (rule run_ops_invariant [where I = "outbox_ok H"])
     (simp_all add: outbox_ok_step, simp add: outbox_ok_def ob_invar_def keys_distinct_def)

text \<open>
  The outbox invariant and retry schedule. In every state reached from the empty outbox a row
  has a known status, at most six recorded failures, is a dead letter exactly when it has six, is
  leased exactly while it is being published, and carries the ids of its payload; and a failure
  recorded by the lease holder schedules the next attempt after 60, 300, 1800, 7200 and 43200
  seconds, then gives up.
\<close>

theorem outbox_retry_schedule:
  assumes "ob_get oid (run_ops (ob_step H) [] ops) = Some r"
  shows "ob_row_ok H r \<and>
    (case ob_mark_retry oid w err now (run_ops (ob_step H) [] ops) of
       Inl e \<Rightarrow> \<not> ob_owns r w now
     | Inr (r', tbl') \<Rightarrow> ob_owns r w now \<and> ob_get oid tbl' = Some r' \<and>
         ob_attempts r' = ob_attempts r + 1 \<and> ob_lease_owner r' = None \<and>
         (if ob_attempts r < 5
          then ob_status r' = ''RETRY'' \<and> ob_next_attempt_at r' = Some (Aware (now +
            seconds ([60, 300, 1800, 7200, 43200] ! nat (ob_attempts r))) 0)
          else ob_status r' = ''DEAD_LETTER'' \<and> ob_next_attempt_at r' = None))"
proof -
  let ?tbl = "run_ops (ob_step H) [] ops"
  have row: "row_get ob_id oid ?tbl = Some r" and id: "ob_id r = oid"
    using assms by (auto simp: ob_get_def dest: row_get_Some_key)
  have ok: "ob_row_ok H r"
    using outbox_ok_run [of H ops] row by (auto simp: outbox_ok_def list_all_iff dest: row_get_Some_key)
  show ?thesis
  proof (cases "ob_mark_retry oid w err now ?tbl")
    case (Inl e)
    then have "\<not> ob_owns r w now"
      using row ob_mark_retry_iff [of oid w err now ?tbl] by (cases "ob_owns r w now") auto
    with Inl ok show ?thesis by simp
  next
    case (Inr rt)
    obtain r' tbl' where rt: "rt = (r', tbl')" by (cases rt)
    with Inr row have r': "ob_owns r w now" "r' = ob_retried_row err now r" "tbl' = row_put ob_id r' ?tbl"
      by (simp_all add: ob_mark_retry_iff)
    have "ob_get oid tbl' = Some r'" using row id by (simp add: r'(2,3) ob_get_def row_get_put)
    moreover have "0 \<le> ob_attempts r" using ok by (simp add: ob_row_ok_def)
    ultimately show ?thesis
      using ok r'(1) by (simp add: Inr rt) (simp add: r'(2) ob_retried_row_def Let_def outbox_retry_seconds_def)
  qed
qed

theorem outbox_retry_schedule_witness:
  "\<exists>r. ob_get ''outbox-s1'' (run_ops (ob_step (\<lambda>s. s)) [] [ObEnqueue example_payload 0]) = Some r \<and>
     ob_row_ok (\<lambda>s. s) r"
proof -
  have run: "run_ops (ob_step (\<lambda>s. s)) [] [ObEnqueue example_payload 0] = example_outbox"
    by (simp add: example_outbox_def)
  have "ob_get ''outbox-s1'' (run_ops (ob_step (\<lambda>s. s)) [] [ObEnqueue example_payload 0]) = Some (hd example_outbox)"
    unfolding run by (simp add: ob_get_def example_outbox_eq)
  from this outbox_retry_schedule [OF this] show ?thesis by blast
qed

lemma ob_done_forever:
  assumes "ob_invar tbl" and "row_get ob_id k tbl = Some r" and "ob_status r \<in> {''PUBLISHED'', ''DEAD_LETTER''}"
  shows "row_get ob_id k (run_ops (ob_step H) tbl ops) = Some r"
  using assms
proof (induction ops arbitrary: tbl)
  case Nil
  then show ?case by simp
next
  case (Cons op ops)
  have "row_get ob_id k (ob_step H tbl op) = Some r"
    by (rule ob_step_row [OF Cons.prems(1,2), of H op]) (use Cons.prems(3) ob_effect_fields(3) in auto)
  with Cons ob_invar_step show ?case by simp
qed

text \<open>
  A signal is published once. After a worker has marked a row published, the row never changes
  again: no claim returns it and neither publishing nor retrying it succeeds for anybody.
\<close>

theorem outbox_published_once:
  assumes "ob_invar tbl" and "ob_mark_published oid w now tbl = Inr (r, tbl')"
  shows "ob_get oid (run_ops (ob_step H) tbl' ops) = Some r \<and> ob_published_at r = Some (Aware now 0) \<and>
    (\<exists>e. ob_mark_published oid w' now' (run_ops (ob_step H) tbl' ops) = Inl e) \<and>
    (\<exists>e. ob_mark_retry oid w' err now' (run_ops (ob_step H) tbl' ops) = Inl e) \<and>
    (\<forall>x \<in> set (fst (ob_claim_due locked w' limit ls now' (run_ops (ob_step H) tbl' ops))). ob_id x \<noteq> oid)"
proof -
  obtain row where row: "row_get ob_id oid tbl = Some row" "r = ob_published_row now row"
    "tbl' = row_put ob_id r tbl" "ob_id row = oid"
    using assms(2) by (auto simp: ob_mark_published_iff dest: row_get_Some_key)
  have inv: "ob_invar tbl'" using row assms(1) by (auto intro: ob_invar_write)
  have st: "ob_status r = ''PUBLISHED''" "ob_published_at r = Some (Aware now 0)"
    by (simp_all add: row(2) ob_published_row_def)
  have got: "row_get ob_id oid tbl' = Some r" using row by (simp add: row_get_put)
  let ?tbl = "run_ops (ob_step H) tbl' ops"
  have fin: "row_get ob_id oid ?tbl = Some r" by (rule ob_done_forever [OF inv got]) (simp add: st)
  have no: "\<not> ob_owns r w' now'" by (simp add: ob_owns_iff st)
  have "ob_id x \<noteq> oid" if x: "x \<in> set (fst (ob_claim_due locked w' limit ls now' ?tbl))" for x
  proof
    assume "ob_id x = oid"
    then obtain x0 where x0: "x0 \<in> set ?tbl" "ob_id x0 = oid" "ob_eligible x0 now'"
      using x by (auto simp: ob_claim_due_def Let_def dest!: ob_due_subset)
    have "keys_distinct ob_id ?tbl" using outbox_queue.run_invar [OF inv, of H ops] by (simp add: ob_invar_def)
    from row_get_member [OF this x0(1)] x0 fin st show False by (simp add: ob_eligible_def)
  qed
  moreover have "\<exists>e. ob_mark_published oid w' now' ?tbl = Inl e"
    using fin no by (cases "ob_mark_published oid w' now' ?tbl") (auto simp: ob_mark_published_iff)
  moreover have "\<exists>e. ob_mark_retry oid w' err now' ?tbl = Inl e"
    using fin no by (cases "ob_mark_retry oid w' err now' ?tbl") (auto simp: ob_mark_retry_iff)
  ultimately show ?thesis using fin st by (simp add: ob_get_def)
qed

theorem outbox_published_once_witness:
  "\<exists>r tbl'. ob_mark_published ''outbox-s1'' ''w'' 7 (snd (ob_claim_due {} ''w'' 10 60 5 example_outbox)) = Inr (r, tbl') \<and>
     ob_get ''outbox-s1'' (run_ops (ob_step (\<lambda>s. s)) tbl' [ObClaim {} ''v'' 10 60 999]) = Some r"
proof -
  have "(7::int) < 5 + seconds 60" "(0::int) < 60" by (simp_all add: seconds_def second_us_def)
  have o: "ob_owns (ob_seize ''w'' 60 5 (hd example_outbox)) ''w'' 7"
    by (simp add: ob_owns_iff ob_seize_def ob_expiry_def seconds_def second_us_def)
  have "row_get ob_id ''outbox-s1'' (snd (ob_claim_due {} ''w'' 10 60 5 example_outbox)) =
      Some (ob_seize ''w'' 60 5 (hd example_outbox))"
    using ob_claim_row [of example_outbox "''outbox-s1''" "hd example_outbox" "{}" "''w''" 10 60 5]
      example_outbox_invar
    by (simp add: ob_invar_def) (simp add: example_outbox_eq ob_due_def ob_eligible_def null_or_past_def)
  with o obtain r tbl' where m: "ob_mark_published ''outbox-s1'' ''w'' 7
      (snd (ob_claim_due {} ''w'' 10 60 5 example_outbox)) = Inr (r, tbl')"
    by (auto simp: ob_mark_published_iff)
  from m outbox_published_once [OF ob_claim_invar [OF example_outbox_invar] m] show ?thesis by blast
qed

text \<open>
  C39. No signal is lost. Every row of a reachable outbox that is neither published nor a dead letter
  becomes deliverable: from some moment on, a claim by any worker that is large enough and not
  blocked by a row lock returns it.
\<close>

theorem outbox_no_loss:
  assumes "ob_get oid (run_ops (ob_step H) [] ops) = Some r"
    and "ob_status r \<notin> {''PUBLISHED'', ''DEAD_LETTER''}"
  shows "\<exists>t0. \<forall>now \<ge> t0. \<forall>w ls. \<forall>limit \<ge> length (run_ops (ob_step H) [] ops).
    ob_seize w ls now r \<in> set (fst (ob_claim_due {} w limit ls now (run_ops (ob_step H) [] ops)))"
proof -
  let ?tbl = "run_ops (ob_step H) [] ops"
  have row: "r \<in> set ?tbl" using assms(1) by (auto simp: ob_get_def dest: row_get_Some_key)
  with outbox_ok_run [of H ops] have ok: "ob_row_ok H r" by (auto simp: outbox_ok_def list_all_iff)
  define t0 where "t0 = max (case ob_next_attempt_at r of None \<Rightarrow> 0 | Some e \<Rightarrow> instant_of e)
    (case ob_lease_expires_at r of None \<Rightarrow> 0 | Some e \<Rightarrow> instant_of e)"
  have "r \<in> set (ob_due {} limit now ?tbl)" if "t0 \<le> now" "length ?tbl \<le> limit" for now limit
  proof -
    have "ob_eligible r now"
      using that(1) ok assms(2) by (auto simp: ob_eligible_def ob_row_ok_def null_or_past_def t0_def split: option.splits)
    moreover have "length (filter (\<lambda>r. ob_eligible r now \<and> ob_id r \<notin> {}) ?tbl) \<le> limit"
      using that(2) length_filter_le order_trans by blast
    ultimately show ?thesis using row by (simp add: ob_due_def)
  qed
  then show ?thesis by (intro exI [of _ t0]) (auto simp: ob_claim_due_def Let_def)
qed

theorem outbox_no_loss_witness:
  "\<exists>now. ob_seize ''w'' 60 now (hd example_outbox) \<in> set (fst (ob_claim_due {} ''w'' 1 60 now
     (run_ops (ob_step (\<lambda>s. s)) [] [ObEnqueue example_payload 0])))"
proof -
  have run: "run_ops (ob_step (\<lambda>s. s)) [] [ObEnqueue example_payload 0] = example_outbox"
    by (simp add: example_outbox_def)
  have g: "ob_get ''outbox-s1'' (run_ops (ob_step (\<lambda>s. s)) [] [ObEnqueue example_payload 0]) = Some (hd example_outbox)"
    unfolding run by (simp add: ob_get_def example_outbox_eq)
  have s: "ob_status (hd example_outbox) \<notin> {''PUBLISHED'', ''DEAD_LETTER''}" by (simp add: example_outbox_eq)
  have n: "length (run_ops (ob_step (\<lambda>s. s)) [] [ObEnqueue example_payload 0]) \<le> 1"
    unfolding run by (simp add: example_outbox_eq)
  from outbox_no_loss [OF g s] n show ?thesis by blast
qed

end
