(* ===== verification/Claim_Events.thy ===== *)
theory Claim_Events
  imports Datetime
begin

text \<open>
  The append-only bitemporal event chain of a claim: \<open>domain/claim_state_event.py\<close> and
  \<open>ClaimStateEventRepository\<close> (\<open>adapters/postgres/repositories/claim_event_repository.py\<close>). \<open>H\<close> is the
  hexadecimal SHA-256 digest of a text. A row of \<open>claim_state_events\<close> carries the fields of the
  event it stores.
\<close>

section \<open>Events\<close>

record claim_event =
  ce_claim_id :: string
  ce_event_type :: string
  ce_payload :: pydict
  ce_known_from :: "pydt option"
  ce_business_valid_from :: "pydt option"
  ce_business_valid_to :: "pydt option"
  ce_known_to :: "pydt option"
  ce_source_available_from :: "pydt option"
  ce_previous_event_hash :: "string option"
  ce_event_id :: string
  ce_event_hash :: string
  ce_legacy_history_incomplete :: bool

definition ce_text :: "pydt option \<Rightarrow> json" where
  "ce_text t = (case t of None \<Rightarrow> JNull | Some d \<Rightarrow> JStr (utc_text d))"

definition jopt :: "string option \<Rightarrow> json" where
  "jopt s = (case s of None \<Rightarrow> JNull | Some x \<Rightarrow> JStr x)"

definition ce_identity_payload :: "claim_event \<Rightarrow> pydict" where
  "ce_identity_payload e =
     [(''claim_id'', JStr (ce_claim_id e)),
      (''event_type'', JStr (ce_event_type e)),
      (''payload'', JObj (ce_payload e)),
      (''known_from'', ce_text (ce_known_from e)),
      (''business_valid_from'', ce_text (ce_business_valid_from e)),
      (''business_valid_to'', ce_text (ce_business_valid_to e)),
      (''known_to'', ce_text (ce_known_to e)),
      (''source_available_from'', ce_text (ce_source_available_from e)),
      (''previous_event_hash'', jopt (ce_previous_event_hash e)),
      (''legacy_history_incomplete'', JBool (ce_legacy_history_incomplete e))]"

definition ce_logical_identity_payload :: "claim_event \<Rightarrow> pydict" where
  "ce_logical_identity_payload e =
     filter (\<lambda>(k, v). k \<noteq> ''previous_event_hash'') (ce_identity_payload e)"

definition event_logical_identity :: "claim_event \<Rightarrow> string" where
  "event_logical_identity e = canonical_json (JObj (ce_logical_identity_payload e))"

definition ce_expected_id :: "(string \<Rightarrow> string) \<Rightarrow> claim_event \<Rightarrow> string" where
  "ce_expected_id H e = ''cse_'' @ take 32 (H (canonical_json (JObj (ce_identity_payload e))))"

definition ce_expected_hash :: "(string \<Rightarrow> string) \<Rightarrow> claim_event \<Rightarrow> string" where
  "ce_expected_hash H e =
     H (canonical_json (JObj ((''event_id'', JStr (ce_expected_id H e)) # ce_identity_payload e)))"

text \<open>A value that is present must be timezone-aware with offset zero.\<close>

definition require_utc :: "pydt option \<Rightarrow> string \<Rightarrow> unit result" where
  "require_utc v field =
     (case v of None \<Rightarrow> Inr ()
      | Some d \<Rightarrow> ensure (utc_offset d = Some 0) (ValueError (field @ '' must be timezoneaware UTC'')))"

definition opt_after :: "pydt option \<Rightarrow> pydt option \<Rightarrow> bool" where
  "opt_after a b =
     (case (a, b) of (Some x, Some y) \<Rightarrow> instant_of x > instant_of y | _ \<Rightarrow> False)"

text \<open>\<open>__post_init__\<close>: the constructed event, its id and hash filled in or checked.\<close>

definition ce_init :: "(string \<Rightarrow> string) \<Rightarrow> claim_event \<Rightarrow> claim_event result" where
  "ce_init H e =
     try_bind (ensure (ce_claim_id e \<noteq> [] \<and> ce_event_type e \<noteq> [])
       (ValueError ''claim_id and event_type are required'')) (\<lambda>_.
     try_bind (ensure (ce_known_from e \<noteq> None \<or> ce_legacy_history_incomplete e)
       (ValueError ''known_from is required unless legacy_history_incomplete=true'')) (\<lambda>_.
     try_bind (require_utc (ce_known_from e) ''known_from'') (\<lambda>_.
     try_bind (require_utc (ce_known_to e) ''known_to'') (\<lambda>_.
     try_bind (require_utc (ce_business_valid_from e) ''business_valid_from'') (\<lambda>_.
     try_bind (require_utc (ce_business_valid_to e) ''business_valid_to'') (\<lambda>_.
     try_bind (require_utc (ce_source_available_from e) ''source_available_from'') (\<lambda>_.
     try_bind (ensure (\<not> opt_after (ce_known_from e) (ce_known_to e))
       (ValueError ''known_from must not be after known_to'')) (\<lambda>_.
     try_bind (ensure (\<not> opt_after (ce_business_valid_from e) (ce_business_valid_to e))
       (ValueError ''business_valid_from must not be after business_valid_to'')) (\<lambda>_.
     try_bind (ensure (ce_event_id e = [] \<or> ce_event_id e = ce_expected_id H e)
       (ValueError ''event_id does not match canonical event identity'')) (\<lambda>_.
     try_bind (ensure (ce_event_hash e = [] \<or> ce_event_hash e = ce_expected_hash H e)
       (ValueError ''event_hash does not match canonical event identity'')) (\<lambda>_.
       Inr (e\<lparr>ce_event_id := (if ce_event_id e = [] then ce_expected_id H e else ce_event_id e),
              ce_event_hash := (if ce_event_hash e = [] then ce_expected_hash H e
                                else ce_event_hash e)\<rparr>))))))))))))"

definition ce_visible_at :: "claim_event \<Rightarrow> instant \<Rightarrow> instant \<Rightarrow> instant \<Rightarrow> bool" where
  "ce_visible_at e business knowledge availability =
     (if ce_legacy_history_incomplete e \<or> ce_known_from e = None then False
      else if (case ce_known_from e of None \<Rightarrow> False | Some k \<Rightarrow> instant_of k > knowledge) \<or>
              (case ce_known_to e of None \<Rightarrow> False | Some k \<Rightarrow> knowledge \<ge> instant_of k) then False
      else if (case ce_source_available_from e of None \<Rightarrow> True | Some s \<Rightarrow> instant_of s > availability)
      then False
      else if (case ce_business_valid_from e of None \<Rightarrow> False | Some b \<Rightarrow> business < instant_of b) then False
      else if (case ce_business_valid_to e of None \<Rightarrow> False | Some b \<Rightarrow> business \<ge> instant_of b) then False
      else True)"

section \<open>The chain\<close>

type_synonym event_index = "(string option \<times> claim_event) list"

definition chain_index :: "claim_event list \<Rightarrow> event_index result" where
  "chain_index events =
     foldM (\<lambda>d e. if map_of d (ce_previous_event_hash e) \<noteq> None
                  then Inl (ValueError (''claim state event chain has multiple successors at '' @ ce_event_id e))
                  else Inr (AList.update (ce_previous_event_hash e) e d)) [] events"

lemma length_delete_less: "map_of d k = Some v \<Longrightarrow> length (AList.delete k d) < length d"
proof (induction d)
  case Nil
  then show ?case by simp
next
  case (Cons kv d)
  have "length (AList.delete k d) \<le> length d" by (simp add: AList.delete_eq)
  with Cons show ?case by (cases kv) auto
qed

function chain_walk ::
  "(string \<Rightarrow> string) \<Rightarrow> string option \<Rightarrow> event_index \<Rightarrow> claim_event list result" where
  "chain_walk H previous by_previous =
     (if by_previous = [] then Inr []
      else case map_of by_previous previous of
             None \<Rightarrow> Inl (ValueError ''claim state event chain is broken or has an unreachable event'')
           | Some event \<Rightarrow>
               try_bind (ce_init H event) (\<lambda>_.
               try_bind (chain_walk H (Some (ce_event_hash event)) (AList.delete previous by_previous))
                 (\<lambda>rest. Inr (event # rest))))"
  by pat_completeness auto
termination by (relation "measure (\<lambda>(H, p, d). length d)") (auto intro: length_delete_less)

declare chain_walk.simps [simp del]

definition validate_event_chain :: "(string \<Rightarrow> string) \<Rightarrow> claim_event list \<Rightarrow> claim_event list result" where
  "validate_event_chain H events =
     try_bind (chain_index events) (\<lambda>by_previous. chain_walk H None by_previous)"

section \<open>The repository\<close>

definition utc_of :: "pydt option \<Rightarrow> pydt option" where
  "utc_of t = map_option as_utc t"

definition event_of_row :: "(string \<Rightarrow> string) \<Rightarrow> claim_event \<Rightarrow> claim_event result" where
  "event_of_row H row =
     ce_init H (row\<lparr>ce_known_from := utc_of (ce_known_from row),
       ce_business_valid_from := utc_of (ce_business_valid_from row),
       ce_business_valid_to := utc_of (ce_business_valid_to row),
       ce_known_to := utc_of (ce_known_to row),
       ce_source_available_from := utc_of (ce_source_available_from row)\<rparr>)"

definition events_from_rows :: "(string \<Rightarrow> string) \<Rightarrow> claim_event list \<Rightarrow> claim_event list result" where
  "events_from_rows H rows = mapM (event_of_row H) rows"

definition same_time :: "pydt option \<Rightarrow> pydt option \<Rightarrow> bool" where
  "same_time a b = (map_option instant_of (utc_of a) = map_option instant_of b)"

definition same_stored_event :: "claim_event \<Rightarrow> claim_event \<Rightarrow> bool" where
  "same_stored_event row e \<longleftrightarrow>
     ce_claim_id row = ce_claim_id e \<and> ce_event_type row = ce_event_type e \<and>
     same_dict (ce_payload row) (ce_payload e) \<and>
     same_time (ce_known_from row) (ce_known_from e) \<and> same_time (ce_known_to row) (ce_known_to e) \<and>
     same_time (ce_business_valid_from row) (ce_business_valid_from e) \<and>
     same_time (ce_business_valid_to row) (ce_business_valid_to e) \<and>
     same_time (ce_source_available_from row) (ce_source_available_from e) \<and>
     ce_previous_event_hash row = ce_previous_event_hash e \<and> ce_event_hash row = ce_event_hash e \<and>
     ce_legacy_history_incomplete row = ce_legacy_history_incomplete e"

definition claim_rows :: "string \<Rightarrow> claim_event list \<Rightarrow> claim_event list" where
  "claim_rows cid tbl = filter (\<lambda>r. ce_claim_id r = cid) tbl"

definition stored_chain :: "(string \<Rightarrow> string) \<Rightarrow> string \<Rightarrow> claim_event list \<Rightarrow> claim_event list result" where
  "stored_chain H cid tbl =
     try_bind (events_from_rows H (claim_rows cid tbl)) (validate_event_chain H)"

definition event_append ::
  "(string \<Rightarrow> string) \<Rightarrow> claim_event \<Rightarrow> claim_event list \<Rightarrow> (claim_event \<times> claim_event list) result" where
  "event_append H e tbl =
     try_bind (ce_init H e) (\<lambda>_.
       case row_get ce_event_id (ce_event_id e) tbl of
         Some row \<Rightarrow>
           if \<not> same_stored_event row e
           then Inl (ValueError (''claim state event '' @ ce_event_id e @ '' already stores different payload''))
           else Inr (e, tbl)
       | None \<Rightarrow>
           try_bind (stored_chain H (ce_claim_id e) tbl) (\<lambda>existing.
             let matches = filter (\<lambda>s. event_logical_identity s = event_logical_identity e) existing
             in if length matches > 1
                then Inl (ValueError ''claim state event logical identity is ambiguous'')
                else if matches \<noteq> [] then Inr (hd matches, tbl)
                else if existing \<noteq> [] \<and> ce_previous_event_hash e \<noteq> Some (ce_event_hash (last existing))
                then Inl (ValueError ''claim state event previous_event_hash does not match chain tail'')
                else if ce_event_hash e \<in> ce_event_hash ` set tbl
                then Inl (IntegrityError ''duplicate key value violates unique constraint'')
                else Inr (e, row_add e tbl)))"

definition list_for_claim :: "(string \<Rightarrow> string) \<Rightarrow> string \<Rightarrow> claim_event list \<Rightarrow> claim_event list result" where
  "list_for_claim H cid tbl = stored_chain H cid tbl"

definition tail_of_claim :: "(string \<Rightarrow> string) \<Rightarrow> string \<Rightarrow> claim_event list \<Rightarrow> claim_event option result" where
  "tail_of_claim H cid tbl =
     try_bind (stored_chain H cid tbl) (\<lambda>es. Inr (if es = [] then None else Some (last es)))"

section \<open>What a validated chain is\<close>

fun chained :: "string option \<Rightarrow> claim_event list \<Rightarrow> bool" where
  "chained p [] = True"
| "chained p (e # es) = (ce_previous_event_hash e = p \<and> chained (Some (ce_event_hash e)) es)"

definition ce_valid :: "(string \<Rightarrow> string) \<Rightarrow> claim_event \<Rightarrow> bool" where
  "ce_valid H e \<longleftrightarrow> \<not> isl (ce_init H e)"

lemma ce_valid_iff: "ce_valid H e \<longleftrightarrow> (\<exists>e'. ce_init H e = Inr e')"
  by (cases "ce_init H e") (auto simp: ce_valid_def)

definition keyed :: "claim_event list \<Rightarrow> event_index" where
  "keyed es = map (\<lambda>e. (ce_previous_event_hash e, e)) es"

lemma keyed_simps [simp]:
  "keyed [] = []" "keyed (e # es) = (ce_previous_event_hash e, e) # keyed es"
  "map fst (keyed es) = map ce_previous_event_hash es" "map snd (keyed es) = es"
  "keyed es = [] \<longleftrightarrow> es = []"
  by (simp_all add: keyed_def comp_def)

lemma chain_index_from:
  "foldM (\<lambda>d e. if map_of d (ce_previous_event_hash e) \<noteq> None
       then Inl (ValueError (''claim state event chain has multiple successors at '' @ ce_event_id e))
       else Inr (AList.update (ce_previous_event_hash e) e d)) (keyed pre) es = Inr d \<longleftrightarrow>
   d = keyed (pre @ es) \<and> distinct (map ce_previous_event_hash es) \<and>
     set (map ce_previous_event_hash es) \<inter> set (map ce_previous_event_hash pre) = {}"
proof (induction es arbitrary: pre)
  case Nil
  then show ?case by auto
next
  case (Cons e es)
  show ?case
  proof (cases "ce_previous_event_hash e \<in> set (map ce_previous_event_hash pre)")
    case True
    then have "map_of (keyed pre) (ce_previous_event_hash e) \<noteq> None"
      by (simp add: map_of_eq_None_iff keyed_def image_image)
    with True show ?thesis by simp
  next
    case False
    then have fresh: "ce_previous_event_hash e \<notin> fst ` set (keyed pre)"
      by (simp add: keyed_def image_image)
    then have none: "map_of (keyed pre) (ce_previous_event_hash e) = None"
      by (simp add: map_of_eq_None_iff)
    have upd: "AList.update (ce_previous_event_hash e) e (keyed pre) = keyed (pre @ [e])"
      by (simp only: update_fresh [OF fresh]) (simp add: keyed_def)
    show ?thesis
      by (simp only: foldM.simps none upd if_False try_bind_simps Cons.IH simp_thms)
         (use False in auto)
  qed
qed

lemma chain_index_iff:
  "chain_index es = Inr d \<longleftrightarrow> d = keyed es \<and> distinct (map ce_previous_event_hash es)"
  using chain_index_from [of "[]" es d] by (simp add: chain_index_def)

lemma mset_delete:
  "distinct (map fst d) \<Longrightarrow> map_of d k = Some v \<Longrightarrow> mset d = add_mset (k, v) (mset (AList.delete k d))"
proof (induction d)
  case Nil
  then show ?case by simp
next
  case (Cons kv d)
  obtain k' v' where kv: "kv = (k', v')" by (cases kv)
  show ?case
  proof (cases "k' = k")
    case True
    with Cons.prems kv have "k \<notin> fst ` set d" "v' = v" by auto
    then have "AList.delete k d = d" by (force simp: AList.delete_eq filter_id_conv)
    with True kv \<open>v' = v\<close> show ?thesis by simp
  next
    case False
    with Cons kv show ?thesis by simp
  qed
qed

lemma distinct_delete_keys: "distinct (map fst d) \<Longrightarrow> distinct (map fst (AList.delete k d))"
  by (rule distinct_delete)

definition well_keyed :: "event_index \<Rightarrow> bool" where
  "well_keyed d \<longleftrightarrow> distinct (map fst d) \<and> list_all (\<lambda>(k, e). ce_previous_event_hash e = k) d"

lemma well_keyed_delete: "well_keyed d \<Longrightarrow> well_keyed (AList.delete k d)"
  by (simp add: well_keyed_def distinct_delete_keys) (auto simp: AList.delete_eq list_all_iff)

lemma chain_walk_iff:
  "well_keyed d \<Longrightarrow> chain_walk H p d = Inr os \<longleftrightarrow>
     mset (map snd d) = mset os \<and> chained p os \<and> list_all (ce_valid H) os"
proof (induction "length d" arbitrary: d p os rule: less_induct)
  case less
  show ?case
  proof (cases "d = []")
    case True
    then show ?thesis by (auto simp: chain_walk.simps [of H p "[]"])
  next
    case nonempty: False
    show ?thesis
    proof (cases "map_of d p")
      case None
      have "\<not> (mset (map snd d) = mset os \<and> chained p os)"
      proof
        assume a: "mset (map snd d) = mset os \<and> chained p os"
        with nonempty obtain e os' where os: "os = e # os'" by (cases os) auto
        with a have "e \<in> set (map snd d)" by (metis list.set_intros(1) mset_eq_setD)
        then obtain k where "(k, e) \<in> set d" by auto
        with less.prems a os have "(p, e) \<in> set d" by (auto simp: well_keyed_def list_all_iff)
        with None show False by (force simp: map_of_eq_None_iff)
      qed
      with None nonempty show ?thesis by (auto simp: chain_walk.simps [of H p d])
    next
      case (Some e)
      let ?d = "AList.delete p d"
      have prev: "ce_previous_event_hash e = p"
        using less.prems map_of_SomeD [OF Some] by (auto simp: well_keyed_def list_all_iff)
      have m: "mset d = add_mset (p, e) (mset ?d)"
        using less.prems Some by (intro mset_delete) (simp_all add: well_keyed_def)
      then have ms: "image_mset snd (mset d) = add_mset e (image_mset snd (mset ?d))" by simp
      have ih: "chain_walk H (Some (ce_event_hash e)) ?d = Inr rest \<longleftrightarrow>
          mset (map snd ?d) = mset rest \<and> chained (Some (ce_event_hash e)) rest \<and> list_all (ce_valid H) rest" for rest
        using less.hyps [OF length_delete_less [OF Some] well_keyed_delete [OF less.prems]] .
      have "chain_walk H p d = Inr os \<longleftrightarrow> ce_valid H e \<and>
          (\<exists>rest. chain_walk H (Some (ce_event_hash e)) ?d = Inr rest \<and> os = e # rest)"
        using nonempty Some by (auto simp: chain_walk.simps [of H p d] try_bind_Inr_iff ce_valid_iff)
      also have "\<dots> \<longleftrightarrow> mset (map snd d) = mset os \<and> chained p os \<and> list_all (ce_valid H) os"
      proof (cases os)
        case Nil
        with nonempty show ?thesis by (simp add: ms)
      next
        case (Cons x rest)
        have only: "x = e" if "mset (map snd d) = mset os" "chained p os"
        proof -
          from that Cons have "x \<in> set (map snd d)" by (metis list.set_intros(1) mset_eq_setD)
          then obtain k where "(k, x) \<in> set d" by auto
          with less.prems that(2) Cons have "map_of d p = Some x" by (auto simp: well_keyed_def list_all_iff)
          with Some show "x = e" by simp
        qed
        show ?thesis
        proof (cases "x = e")
          case True
          have "mset (map snd d) = mset (e # rest) \<longleftrightarrow> mset (map snd ?d) = mset rest" by (simp add: ms)
          with True Cons prev show ?thesis by (simp only: ih chained.simps list.pred_inject list.inject) blast
        next
          case False
          with only Cons show ?thesis by blast
        qed
      qed
      finally show ?thesis .
    qed
  qed
qed

lemma well_keyed_keyed: "well_keyed (keyed es) \<longleftrightarrow> distinct (map ce_previous_event_hash es)"
  by (simp add: well_keyed_def) (simp add: keyed_def list_all_iff)

lemma chain_validation_iff:
  "validate_event_chain H events = Inr ordered \<longleftrightarrow>
     mset events = mset ordered \<and> distinct (map ce_previous_event_hash events) \<and>
     chained None ordered \<and> (\<forall>e \<in> set ordered. \<not> isl (ce_init H e))"
  using chain_walk_iff [of "keyed events" H None ordered]
  by (auto simp: validate_event_chain_def try_bind_Inr_iff chain_index_iff well_keyed_keyed
      list_all_iff ce_valid_def)

text \<open>
  C32. What the chain validation accepts. \<open>validate_event_chain\<close> returns a list exactly when the
  input is a permutation of it, no two events share a predecessor, every event is well formed with
  the id and hash of its own content, and the returned list starts at the event without predecessor
  and follows the hashes: so the result does not depend on the order in which rows were read.
\<close>

theorem event_chain_validation:
  "validate_event_chain H events = Inr ordered \<longleftrightarrow>
     mset events = mset ordered \<and> distinct (map ce_previous_event_hash events) \<and>
     chained None ordered \<and> (\<forall>e \<in> set ordered. \<not> isl (ce_init H e))"
  by (rule chain_validation_iff)

lemma valid_hash:
  assumes "ce_valid H e" and "ce_event_hash e \<noteq> []"
  shows "ce_event_hash e = ce_expected_hash H e"
  using assms by (auto simp: ce_valid_iff ce_init_def try_bind_Inr_iff)

text \<open>The stored identity of an event: its identity payload up to the order of dictionary entries.\<close>

definition ce_content :: "claim_event \<Rightarrow> json" where
  "ce_content e = canon (JObj (ce_identity_payload e))"

definition stored_event :: "claim_event \<Rightarrow> bool" where
  "stored_event e \<longleftrightarrow> ce_event_hash e \<noteq> [] \<and> wf_json (JObj (ce_payload e))"

lemma wf_identity: "wf_json (JObj (ce_payload e)) \<Longrightarrow> wf_json (JObj (ce_identity_payload e))"
  by (simp add: ce_identity_payload_def ce_text_def jopt_def split: option.splits)

lemma canon_JObj_Cons_eq:
  assumes "canon (JObj ((k, v) # kvs)) = canon (JObj ((k, w) # kws))"
    and "distinct (map fst ((k, v) # kvs))" and "distinct (map fst ((k, w) # kws))"
  shows "canon (JObj kvs) = canon (JObj kws)"
proof -
  have sets: "set (canon_fields ((k, v) # kvs)) = set (canon_fields ((k, w) # kws))"
  proof -
    from assms(1) have "sort_key fst (canon_fields ((k, v) # kvs)) = sort_key fst (canon_fields ((k, w) # kws))"
      by (simp only: canon_JObj json.inject)
    then show ?thesis by (metis set_sort)
  qed
  have rest: "set (canon_fields us) = {x \<in> set (canon_fields ((k, u) # us)). fst x \<noteq> k}"
    if "distinct (map fst ((k, u) # us))" for u us
  proof -
    have "fst ` set (canon_fields us) = fst ` set us" by (metis canon_fields_keys set_map)
    with that have "k \<notin> fst ` set (canon_fields us)" by simp
    moreover have "set (canon_fields ((k, u) # us)) = insert (k, canon u) (set (canon_fields us))"
      by (simp add: canon_fields_def)
    ultimately show ?thesis by auto
  qed
  have "set (canon_fields kvs) = set (canon_fields kws)"
    unfolding rest [OF assms(2)] rest [OF assms(3)] sets ..
  then have "sort_key fst (canon_fields kvs) = sort_key fst (canon_fields kws)"
    by (rule sort_key_set_unique) (use assms(2,3) in \<open>simp_all only: canon_fields_keys list.map distinct.simps fst_conv\<close>)
  then show ?thesis by (simp only: canon_JObj)
qed

lemma identity_keys: "map fst (ce_identity_payload e) = map fst (ce_identity_payload e')"
  and identity_distinct: "distinct (map fst (ce_identity_payload e))"
  and identity_no_id: "''event_id'' \<notin> fst ` set (ce_identity_payload e)"
  by (simp_all add: ce_identity_payload_def)

lemma content_previous:
  assumes "ce_content e = ce_content e'"
  shows "ce_previous_event_hash e = ce_previous_event_hash e'"
proof -
  have "map_option canon (dict_get ''previous_event_hash'' (ce_identity_payload e)) =
      map_option canon (dict_get ''previous_event_hash'' (ce_identity_payload e'))"
    using canon_JObj_field [OF assms [unfolded ce_content_def] identity_distinct identity_distinct] .
  then show ?thesis
    by (simp add: dict_get_def ce_identity_payload_def jopt_def split: option.splits)
qed

lemma same_hash_same_content:
  assumes "\<And>x y. H x = H y \<Longrightarrow> x = y" and "ce_valid H e" and "ce_valid H e'"
    and "stored_event e" and "stored_event e'" and "ce_event_hash e = ce_event_hash e'"
  shows "ce_content e = ce_content e'"
proof -
  let ?full = "\<lambda>e. (''event_id'', JStr (ce_expected_id H e)) # ce_identity_payload e"
  have "ce_expected_hash H e = ce_expected_hash H e'"
    using assms(2-6) valid_hash by (simp add: stored_event_def)
  then have "canonical_json (JObj (?full e)) = canonical_json (JObj (?full e'))"
    using assms(1) by (simp add: ce_expected_hash_def)
  moreover have "wf_json (JObj (?full e))" "wf_json (JObj (?full e'))"
    using assms(4,5) wf_identity by (simp_all add: stored_event_def)
  ultimately have "canon (JObj (?full e)) = canon (JObj (?full e'))"
    by (simp only: canonical_json_eq_iff)
  then show ?thesis
    unfolding ce_content_def
    by (rule canon_JObj_Cons_eq) (use identity_distinct identity_no_id in simp_all)
qed

lemma chained_snoc:
  "chained p (es @ [e]) \<longleftrightarrow> chained p es \<and>
     ce_previous_event_hash e = (if es = [] then p else Some (ce_event_hash (last es)))"
  by (induction es arbitrary: p) auto

lemma same_tail_same_history:
  assumes inj: "\<And>x y. H x = H y \<Longrightarrow> x = y"
    and "chained None os" and "chained None os'" and "\<forall>e \<in> set os \<union> set os'. ce_valid H e \<and> stored_event e"
    and "os = [] \<longleftrightarrow> os' = []" and "os \<noteq> [] \<longrightarrow> ce_event_hash (last os) = ce_event_hash (last os')"
  shows "map ce_content os = map ce_content os'"
  using assms(2-6)
proof (induction os arbitrary: os' rule: rev_induct)
  case Nil
  then show ?case by simp
next
  case (snoc e os)
  then obtain e' ps where os': "os' = ps @ [e']" by (cases os' rule: rev_cases) auto
  have same: "ce_content e = ce_content e'"
    by (rule same_hash_same_content [OF inj]) (use snoc.prems os' in auto)
  with content_previous have prev: "ce_previous_event_hash e = ce_previous_event_hash e'" by blast
  have "map ce_content os = map ce_content ps"
    by (rule snoc.IH) (use snoc.prems os' prev in \<open>auto simp: chained_snoc split: if_splits\<close>)
  with same os' show ?case by simp
qed


definition example_event :: "string option \<Rightarrow> string \<Rightarrow> claim_event" where
  "example_event prev kind =
     \<lparr>ce_claim_id = ''c'', ce_event_type = kind, ce_payload = [(''n'', JInt 1)],
      ce_known_from = Some (Aware 0 0), ce_business_valid_from = None, ce_business_valid_to = None,
      ce_known_to = None, ce_source_available_from = Some (Aware 0 0),
      ce_previous_event_hash = prev, ce_event_id = [], ce_event_hash = [],
      ce_legacy_history_incomplete = False\<rparr>"

definition constructed :: "(string \<Rightarrow> string) \<Rightarrow> claim_event \<Rightarrow> claim_event" where
  "constructed H e = (case ce_init H e of Inl x \<Rightarrow> e | Inr e' \<Rightarrow> e')"

definition example_first :: claim_event where
  "example_first = constructed (\<lambda>s. s) (example_event None ''VERIFIED'')"

lemma example_first_init: "ce_init (\<lambda>s. s) (example_event None ''VERIFIED'') = Inr example_first"
  by (simp add: example_first_def constructed_def ce_init_def example_event_def require_utc_def opt_after_def)

lemma canonical_obj_nonempty: "canonical_json (JObj kvs) \<noteq> []"
  by (simp add: canonical_json_def)

text \<open>Constructing an event again is the identity: its id and hash are those of its content.\<close>

lemma ce_init_idem:
  assumes "ce_init H e = Inr e'" and "\<And>s. s \<noteq> [] \<Longrightarrow> H s \<noteq> []"
  shows "ce_init H e' = Inr e' \<and> ce_event_hash e' \<noteq> [] \<and> ce_event_id e' \<noteq> []"
proof -
  have e': "e' = e\<lparr>ce_event_id := (if ce_event_id e = [] then ce_expected_id H e else ce_event_id e),
      ce_event_hash := (if ce_event_hash e = [] then ce_expected_hash H e else ce_event_hash e)\<rparr>"
    and c: "ce_event_id e = [] \<or> ce_event_id e = ce_expected_id H e"
      "ce_event_hash e = [] \<or> ce_event_hash e = ce_expected_hash H e"
    using assms(1) by (auto simp: ce_init_def try_bind_Inr_iff)
  have same: "ce_identity_payload e' = ce_identity_payload e" by (simp add: e' ce_identity_payload_def)
  have "ce_expected_id H e' = ce_expected_id H e" "ce_expected_hash H e' = ce_expected_hash H e"
    by (simp_all add: ce_expected_id_def ce_expected_hash_def same)
  moreover have "ce_event_id e' = ce_expected_id H e" "ce_event_hash e' = ce_expected_hash H e"
    using c by (auto simp: e')
  moreover have "ce_expected_id H e \<noteq> []" by (simp add: ce_expected_id_def)
  moreover have "ce_expected_hash H e \<noteq> []"
    using assms(2) canonical_obj_nonempty by (simp add: ce_expected_hash_def)
  ultimately show ?thesis
    using assms(1) by (auto simp: ce_init_def try_bind_Inr_iff e')
qed

lemma example_first_ok:
  "ce_init (\<lambda>s. s) example_first = Inr example_first \<and> ce_event_hash example_first \<noteq> [] \<and>
   ce_event_id example_first \<noteq> []"
  by (rule ce_init_idem [OF example_first_init]) simp

lemma example_first_fields:
  "ce_previous_event_hash example_first = None" "ce_payload example_first = [(''n'', JInt 1)]"
  by (simp_all add: example_first_def constructed_def ce_init_def example_event_def require_utc_def opt_after_def)

lemma example_chain: "validate_event_chain (\<lambda>s. s) [example_first] = Inr [example_first]"
  using example_first_ok example_first_fields(1)
  by (simp add: validate_event_chain_def chain_index_def chain_walk.simps)

theorem event_chain_validation_witness:
  "validate_event_chain (\<lambda>s. s) [example_first] = Inr [example_first]"
  by (rule event_chain_validation [THEN iffD2])
    (use example_first_ok example_first_fields in \<open>simp\<close>)


section \<open>Appending\<close>

lemma ce_init_utc:
  assumes "ce_init H e = Inr e'"
  shows "utc_of (ce_known_from e) = ce_known_from e" "utc_of (ce_known_to e) = ce_known_to e"
    "utc_of (ce_business_valid_from e) = ce_business_valid_from e"
    "utc_of (ce_business_valid_to e) = ce_business_valid_to e"
    "utc_of (ce_source_available_from e) = ce_source_available_from e"
proof -
  have utc: "require_utc v f = Inr u \<Longrightarrow> utc_of v = v" for v f u
    by (cases v; cases "the v") (auto simp: require_utc_def utc_of_def)
  show "utc_of (ce_known_from e) = ce_known_from e" "utc_of (ce_known_to e) = ce_known_to e"
    "utc_of (ce_business_valid_from e) = ce_business_valid_from e"
    "utc_of (ce_business_valid_to e) = ce_business_valid_to e"
    "utc_of (ce_source_available_from e) = ce_source_available_from e"
    using assms by (auto simp: ce_init_def try_bind_Inr_iff dest: utc)
qed

lemma event_of_own_row: "ce_init H e = Inr e \<Longrightarrow> event_of_row H e = Inr e"
  using ce_init_utc [of H e e] by (simp add: event_of_row_def)

lemma event_of_row_hash:
  "event_of_row H r = Inr ev \<Longrightarrow> ce_event_hash r \<noteq> [] \<Longrightarrow> ce_event_hash ev = ce_event_hash r"
  by (auto simp: event_of_row_def ce_init_def try_bind_Inr_iff)

lemma mapM_append:
  "mapM f (xs @ ys) = try_bind (mapM f xs) (\<lambda>us. try_bind (mapM f ys) (\<lambda>vs. Inr (us @ vs)))"
  by (induction xs) (auto split: try_bind_split)

lemma mapM_hashes:
  "mapM (event_of_row H) rows = Inr es \<Longrightarrow> list_all (\<lambda>r. ce_event_hash r \<noteq> []) rows \<Longrightarrow>
     map ce_event_hash es = map ce_event_hash rows"
  by (induction rows arbitrary: es) (auto simp: try_bind_Inr_iff event_of_row_hash)

definition hashes_ok :: "claim_event list \<Rightarrow> bool" where
  "hashes_ok tbl \<longleftrightarrow> distinct (map ce_event_hash tbl) \<and> list_all (\<lambda>r. ce_event_hash r \<noteq> []) tbl"

lemma chained_prevs:
  "chained p es \<Longrightarrow> map ce_previous_event_hash es =
     (if es = [] then [] else p # map (\<lambda>e. Some (ce_event_hash e)) (butlast es))"
  by (induction es arbitrary: p) auto

text \<open>
  Appending extends the chain or is a no-op. For a claim whose stored rows validate as the
  chain \<open>es\<close>, an accepted append of a constructed event either leaves the table as it is (the event,
  or one with the same logical identity, is stored already) or adds one row, and then the rows
  validate as \<open>es\<close> followed by the event; the rows of other claims do not change.
\<close>

theorem event_append_extends_chain:
  assumes "hashes_ok tbl" and "stored_chain H (ce_claim_id e) tbl = Inr es"
    and "ce_init H e = Inr e" and "ce_event_hash e \<noteq> []"
    and "event_append H e tbl = Inr (stored, tbl')"
    and "es = [] \<Longrightarrow> ce_previous_event_hash e = None"
  shows "hashes_ok tbl' \<and>
    (tbl' = tbl \<and> event_logical_identity stored = event_logical_identity e \<or>
     stored = e \<and> tbl' = tbl @ [e] \<and> stored_chain H (ce_claim_id e) tbl' = Inr (es @ [e]) \<and>
       (\<forall>cid. cid \<noteq> ce_claim_id e \<longrightarrow> stored_chain H cid tbl' = stored_chain H cid tbl))"
proof (cases "tbl' = tbl")
  case True
  then have "event_logical_identity stored = event_logical_identity e"
    using assms(2,3,5)
    by (auto simp: event_append_def Let_def row_add_def split: option.splits if_splits
        dest!: hd_in_set)
  with True assms(1) show ?thesis by blast
next
  case False
  with assms(2,3,5) have st: "stored = e" "tbl' = tbl @ [e]" "ce_event_hash e \<notin> ce_event_hash ` set tbl"
    and tail: "es \<noteq> [] \<Longrightarrow> ce_previous_event_hash e = Some (ce_event_hash (last es))"
    by (auto simp: event_append_def Let_def row_add_def split: option.splits if_splits)
  let ?cid = "ce_claim_id e"
  obtain evs where evs: "events_from_rows H (claim_rows ?cid tbl) = Inr evs"
    and val: "validate_event_chain H evs = Inr es"
    using assms(2) by (auto simp: stored_chain_def try_bind_Inr_iff)
  have "map ce_event_hash evs = map ce_event_hash (claim_rows ?cid tbl)"
    using evs assms(1) by (intro mapM_hashes [of H]) (auto simp: events_from_rows_def hashes_ok_def list_all_iff claim_rows_def)
  then have dist: "distinct (map ce_event_hash evs)"
    using assms(1) by (simp add: hashes_ok_def claim_rows_def distinct_map_filter)
  note chain = chain_validation_iff [of H evs es, THEN iffD1, OF val]
  have disth: "distinct (map ce_event_hash es)"
    using dist chain by (metis mset_eq_imp_distinct_iff mset_map)
  have prev: "ce_previous_event_hash e = (if es = [] then None else Some (ce_event_hash (last es)))"
    using tail assms(6) by auto
  have "ce_previous_event_hash e \<notin> set (map ce_previous_event_hash es)"
  proof (cases "es = []")
    case False
    then obtain xs x where es: "es = xs @ [x]" by (cases es rule: rev_cases) auto
    then have "ce_event_hash x \<notin> ce_event_hash ` set xs" using disth by simp
    then show ?thesis using chained_prevs [of None es] chain prev es by auto
  qed simp
  moreover have "set evs = set es" using chain mset_eq_setD by blast
  ultimately have "distinct (map ce_previous_event_hash (evs @ [e]))" using chain by simp
  moreover have "chained None (es @ [e])" using chain prev by (simp add: chained_snoc)
  ultimately have "validate_event_chain H (evs @ [e]) = Inr (es @ [e])"
    using chain assms(3) by (auto simp: chain_validation_iff)
  moreover have "events_from_rows H (claim_rows ?cid tbl') = Inr (evs @ [e])"
    using evs event_of_own_row [OF assms(3)]
    by (simp add: events_from_rows_def claim_rows_def st(2) mapM_append)
  ultimately have "stored_chain H ?cid tbl' = Inr (es @ [e])" by (simp add: stored_chain_def)
  moreover have "stored_chain H cid tbl' = stored_chain H cid tbl" if "cid \<noteq> ?cid" for cid
    using that by (simp add: stored_chain_def claim_rows_def st(2))
  ultimately show ?thesis using assms(1,4) st by (auto simp: hashes_ok_def)
qed

theorem event_append_extends_chain_witness:
  "\<exists>stored tbl'. event_append (\<lambda>s. s) example_first [] = Inr (stored, tbl') \<and> hashes_ok tbl' \<and>
     stored_chain (\<lambda>s. s) ''c'' tbl' = Inr [example_first]"
proof -
  have cid: "ce_claim_id example_first = ''c''"
    by (simp add: example_first_def constructed_def ce_init_def example_event_def require_utc_def opt_after_def)
  have h: "hashes_ok []" by (simp add: hashes_ok_def)
  have s: "stored_chain (\<lambda>s. s) (ce_claim_id example_first) [] = Inr []"
    by (simp add: stored_chain_def events_from_rows_def claim_rows_def validate_event_chain_def
        chain_index_def chain_walk.simps)
  have a: "event_append (\<lambda>s. s) example_first [] = Inr (example_first, [example_first])"
    using example_first_ok s by (simp add: event_append_def row_add_def)
  note i = example_first_ok [THEN conjunct1]
  note n = example_first_ok [THEN conjunct2, THEN conjunct1]
  from event_append_extends_chain [OF h s i n a example_first_fields(1)] a show ?thesis
    unfolding cid by auto
qed

text \<open>
  A defect the model shows: with no stored event the predecessor of the appended one is not checked.
  An event with a dangling predecessor is accepted, and from then on the claim's chain never
  validates: listing it, reading its tail and appending to it all raise.
\<close>

lemma dangling_first_append:
  assumes "claim_rows (ce_claim_id e) tbl = []" and "ce_init H e = Inr e"
    and "ce_previous_event_hash e = Some h" and "row_get ce_event_id (ce_event_id e) tbl = None"
    and "ce_event_hash e \<notin> ce_event_hash ` set tbl"
  shows "event_append H e tbl = Inr (e, tbl @ [e])"
    and "list_for_claim H (ce_claim_id e) (tbl @ [e]) =
      Inl (ValueError ''claim state event chain is broken or has an unreachable event'')"
proof -
  have "stored_chain H (ce_claim_id e) tbl = Inr []"
    using assms(1) by (simp add: stored_chain_def events_from_rows_def validate_event_chain_def
        chain_index_def chain_walk.simps)
  then show "event_append H e tbl = Inr (e, tbl @ [e])"
    using assms by (simp add: event_append_def row_add_def)
  have "claim_rows (ce_claim_id e) (tbl @ [e]) = [e]" using assms(1) by (simp add: claim_rows_def)
  then show "list_for_claim H (ce_claim_id e) (tbl @ [e]) =
      Inl (ValueError ''claim state event chain is broken or has an unreachable event'')"
    using assms(3) event_of_own_row [OF assms(2)]
    by (simp add: list_for_claim_def stored_chain_def events_from_rows_def validate_event_chain_def
        chain_index_def chain_walk.simps)
qed

section \<open>Point-in-time visibility\<close>

lemma ce_visible_iff:
  "ce_visible_at e b k a \<longleftrightarrow> \<not> ce_legacy_history_incomplete e \<and>
     (\<exists>f. ce_known_from e = Some f \<and> instant_of f \<le> k) \<and>
     (\<forall>t. ce_known_to e = Some t \<longrightarrow> k < instant_of t) \<and>
     (\<exists>s. ce_source_available_from e = Some s \<and> instant_of s \<le> a) \<and>
     (\<forall>f. ce_business_valid_from e = Some f \<longrightarrow> instant_of f \<le> b) \<and>
     (\<forall>t. ce_business_valid_to e = Some t \<longrightarrow> b < instant_of t)"
  by (auto simp: ce_visible_at_def not_le not_less split: option.splits)

text \<open>
  Point-in-time reads see no future and no overlap. An event visible at a query was known and
  available by then; visibility is monotone in the availability clock; and when one event's
  knowledge ends where another's begins, no query sees both of them, while a query in the span of
  the two that satisfies the other clocks sees exactly one.
\<close>

theorem event_visibility_partition:
  assumes "ce_known_to e = Some t" and "ce_known_from e' = Some t'" and "instant_of t = instant_of t'"
  shows "\<not> (ce_visible_at e b k a \<and> ce_visible_at e' b k a) \<and>
    (ce_visible_at e b k a \<longrightarrow> a \<le> a' \<longrightarrow> ce_visible_at e b k a') \<and>
    (ce_visible_at e b k0 a \<longrightarrow> ce_visible_at e' b k1 a \<longrightarrow> k0 \<le> k \<longrightarrow> k \<le> k1 \<longrightarrow>
       ce_visible_at e b k a \<noteq> ce_visible_at e' b k a)"
proof -
  have "ce_visible_at e b k a \<noteq> ce_visible_at e' b k a"
    if v: "ce_visible_at e b k0 a" "ce_visible_at e' b k1 a" and k: "k0 \<le> k" "k \<le> k1"
  proof (cases "k < instant_of t")
    case True
    with v(1) k(1) assms have "ce_visible_at e b k a" by (auto simp: ce_visible_iff)
    moreover have "\<not> ce_visible_at e' b k a" using True assms by (auto simp: ce_visible_iff)
    ultimately show ?thesis by simp
  next
    case False
    with v(2) k(2) assms have "ce_visible_at e' b k a" by (fastforce simp: ce_visible_iff)
    moreover have "\<not> ce_visible_at e b k a" using False assms by (auto simp: ce_visible_iff)
    ultimately show ?thesis by simp
  qed
  moreover have "\<not> (ce_visible_at e b k a \<and> ce_visible_at e' b k a)"
    using assms by (auto simp: ce_visible_iff)
  moreover have "ce_visible_at e b k a'" if "ce_visible_at e b k a" "a \<le> a'"
    using that by (fastforce simp: ce_visible_iff)
  ultimately show ?thesis by blast
qed

theorem event_visibility_partition_witness:
  "\<not> (ce_visible_at ((example_event None ''A'')\<lparr>ce_known_to := Some (Aware 5 0)\<rparr>) 0 5 9 \<and>
      ce_visible_at ((example_event None ''B'')\<lparr>ce_known_from := Some (Aware 5 0)\<rparr>) 0 5 9) \<and>
   ce_visible_at ((example_event None ''B'')\<lparr>ce_known_from := Some (Aware 5 0)\<rparr>) 0 5 9"
proof -
  have a: "ce_known_to ((example_event None ''A'')\<lparr>ce_known_to := Some (Aware 5 0)\<rparr>) = Some (Aware 5 0)"
    and b: "ce_known_from ((example_event None ''B'')\<lparr>ce_known_from := Some (Aware 5 0)\<rparr>) = Some (Aware 5 0)"
    by simp_all
  show ?thesis
    using event_visibility_partition [OF a b refl, of 0 5 9 9 0 6]
    by (simp add: ce_visible_iff example_event_def)
qed

end
