(* ===== verification/Claims.thy ===== *)
theory Claims
  imports Redaction Datetime
begin

text \<open>
  \<open>domain/claims.py\<close>: the financial claim with its validators and content identity, the verification
  result bound to a market snapshot, and the verification entry of a snapshot artifact. Fields that
  neither a validator nor an identity reads are left out. \<open>H\<close> is the hexadecimal SHA-256 digest, \<open>J\<close>
  the JSON text that pydantic gives a datetime.
\<close>

section \<open>Claims\<close>

definition claim_category :: "string \<Rightarrow> string option" where
  "claim_category ty = map_of
     [(''PRICE'', ''FACT''), (''RETURN'', ''FACT''), (''VALUATION'', ''FACT''),
      (''FINANCIAL_METRIC'', ''FACT''), (''CORPORATE_EVENT'', ''FACT''),
      (''INDUSTRY_RELATION'', ''FACT''), (''FORECAST'', ''FORECAST''), (''OPINION'', ''OPINION''),
      (''INFERENCE'', ''INFERENCE'')] ty"

definition claim_types :: "string list" where
  "claim_types = [''PRICE'', ''RETURN'', ''VALUATION'', ''FINANCIAL_METRIC'', ''CORPORATE_EVENT'',
     ''INDUSTRY_RELATION'', ''FORECAST'', ''OPINION'']"

definition quant_verifiable_types :: "string list" where
  "quant_verifiable_types = [''PRICE'', ''RETURN'', ''VALUATION'', ''FINANCIAL_METRIC'']"

datatype ftime = FDate "int \<times> int \<times> int" | FDatetime pydt

text \<open>A temporal binding is its role, scope and content-addressed id, a relation its id.\<close>

record financial_claim =
  fc_claim_id :: string
  fc_claim_type :: string
  fc_fact_category :: string
  fc_subject_type :: string
  fc_subject_id :: string
  fc_predicate :: string
  fc_value :: json
  fc_unit :: "string option"
  fc_currency :: "string option"
  fc_fact_time :: "ftime option"
  fc_period_start :: "(int \<times> int \<times> int) option"
  fc_period_end :: "(int \<times> int \<times> int) option"
  fc_evidence_refs :: "string list"
  fc_condition_key :: "string option"
  fc_normalized_statement :: "string option"
  fc_grounding_status :: string
  fc_contradiction_group_id :: "string option"
  fc_legacy_grounding_incomplete :: bool
  fc_temporal_bindings :: "(string \<times> string \<times> string) list"
  fc_temporal_relations :: "string list"
  fc_claim_schema_version :: string
  fc_normalization_version :: string
  fc_bundle_v2 :: pydict

definition jstr_opt :: "string option \<Rightarrow> json" where
  "jstr_opt s = (case s of None \<Rightarrow> JNull | Some x \<Rightarrow> JStr x)"

text \<open>\<open>str\<close> of a date or datetime.\<close>

definition ftime_str :: "ftime \<Rightarrow> string" where
  "ftime_str t = (case t of FDate d \<Rightarrow> date_str d | FDatetime d \<Rightarrow> dt_str d)"

definition canonical_bindings :: "(string \<times> string \<times> string) list \<Rightarrow> (string \<times> string \<times> string) list" where
  "canonical_bindings bs = sort_key (\<lambda>b. b) bs"

definition canonical_relations :: "string list \<Rightarrow> string list" where
  "canonical_relations rs = sort_key (\<lambda>r. r) rs"

definition fc_temporal :: "financial_claim \<Rightarrow> bool" where
  "fc_temporal c \<longleftrightarrow> truthy (fc_condition_key c) \<or> fc_temporal_bindings c \<noteq> [] \<or> fc_temporal_relations c \<noteq> []"

definition fc_content_payload :: "financial_claim \<Rightarrow> pydict" where
  "fc_content_payload c =
     (let times = [(''fact_time'', jstr_opt (map_option ftime_str (fc_fact_time c))),
                   (''period_start'', jstr_opt (map_option date_str (fc_period_start c))),
                   (''period_end'', jstr_opt (map_option date_str (fc_period_end c)))]
      in [(''claim_type'', JStr (fc_claim_type c)), (''subject_type'', JStr (fc_subject_type c)),
          (''subject_id'', JStr (fc_subject_id c)), (''predicate'', JStr (fc_predicate c)),
          (''value'', fc_value c), (''unit'', jstr_opt (fc_unit c)),
          (''currency'', jstr_opt (fc_currency c))] @
         (if fc_temporal c then [] else times) @
         [(''claim_schema_version'', JStr (fc_claim_schema_version c)),
          (''normalization_version'', JStr (fc_normalization_version c)),
          (''normalized_statement'', jstr_opt (fc_normalized_statement c)),
          (''grounding_status'', JStr (fc_grounding_status c)),
          (''contradiction_group_id'', jstr_opt (fc_contradiction_group_id c)),
          (''bundle_v2'', JObj (fc_bundle_v2 c))] @
         (if fc_temporal c
          then [(''condition_key'', jstr_opt (fc_condition_key c)),
                (''temporal_bindings'', JArr (map (\<lambda>(r, s, i). JStr i) (canonical_bindings (fc_temporal_bindings c)))),
                (''temporal_relations'', JArr (map JStr (canonical_relations (fc_temporal_relations c))))]
          else []))"

definition claim_id_of :: "(string \<Rightarrow> string) \<Rightarrow> financial_claim \<Rightarrow> string" where
  "claim_id_of H c = ''claim-'' @ take 24 (H (canonical_json (JObj (fc_content_payload c))))"

definition claim_init :: "(string \<Rightarrow> string) \<Rightarrow> financial_claim \<Rightarrow> financial_claim result" where
  "claim_init H c =
     try_bind (ensure (fc_claim_type c \<in> set claim_types \<union> {''INFERENCE''})
       (ValueError (''unknown claim_type: '' @ fc_claim_type c))) (\<lambda>_.
     try_bind (ensure (fc_evidence_refs c \<noteq> [] \<or>
         fc_claim_schema_version c \<in> {''claim.final.v1'', ''claim.atomic.v1''})
       (ValueError ''claim requires at least one evidence_ref'')) (\<lambda>_.
     let c1 = (if fc_fact_category c = []
               then c\<lparr>fc_fact_category := (case claim_category (fc_claim_type c) of
                 None \<Rightarrow> [] | Some x \<Rightarrow> x)\<rparr> else c)
     in try_bind (ensure (fc_grounding_status c1 = ''GROUNDED'' \<longrightarrow> truthy (fc_normalized_statement c1))
          (ValueError ''grounded claim requires normalized_statement'')) (\<lambda>_.
        try_bind (ensure (fc_grounding_status c1 = ''GROUNDED'' \<longrightarrow> \<not> fc_legacy_grounding_incomplete c1)
          (ValueError ''grounded claim cannot be marked legacy incomplete'')) (\<lambda>_.
          Inr (if fc_claim_id c1 = [] then c1\<lparr>fc_claim_id := claim_id_of H c1\<rparr> else c1)))))"

definition is_quant_verifiable :: "financial_claim \<Rightarrow> bool" where
  "is_quant_verifiable c \<longleftrightarrow> fc_claim_type c \<in> set quant_verifiable_types"

section \<open>Verification results\<close>

record vresult =
  vr_claim_id :: string
  vr_status :: string
  vr_market_snapshot_id :: "string option"
  vr_market_data_version :: "string option"
  vr_fact_date :: "ftime option"
  vr_adjustment :: "string option"
  vr_verification_timestamp :: "pydt option"
  vr_rule_version :: string
  vr_available_at :: "pydt option"
  vr_reference_value :: json
  vr_deviation :: "string option"
  vr_reason :: "string option"

definition plain_result :: "string \<Rightarrow> string \<Rightarrow> vresult" where
  "plain_result cid status =
     \<lparr>vr_claim_id = cid, vr_status = status, vr_market_snapshot_id = None,
      vr_market_data_version = None, vr_fact_date = None, vr_adjustment = None,
      vr_verification_timestamp = None, vr_rule_version = ''verification_rule.v1'',
      vr_available_at = None, vr_reference_value = JNull, vr_deviation = None, vr_reason = None\<rparr>"

definition result_statuses :: "string list" where
  "result_statuses = [''VERIFIED'', ''CONTRADICTED'', ''PARTIALLY_VERIFIED'', ''NOT_VERIFIABLE'',
     ''NOT_REQUIRED'', ''MANUAL_REVIEW'', ''EXPIRED'', ''VERIFICATION_PENDING'']"

definition bound_statuses :: "string list" where
  "bound_statuses = [''VERIFIED'', ''CONTRADICTED'', ''PARTIALLY_VERIFIED'']"

definition nonblank :: "string option \<Rightarrow> bool" where
  "nonblank s = (case s of None \<Rightarrow> False | Some x \<Rightarrow> list_ex (\<lambda>c. \<not> is_space c) x)"

definition vresult_init :: "vresult \<Rightarrow> vresult result" where
  "vresult_init r =
     (if vr_status r \<notin> set result_statuses then Inl (ValueError ''status: literal error'')
      else if vr_status r \<in> set bound_statuses \<and>
              (\<not> nonblank (vr_market_snapshot_id r) \<or> \<not> nonblank (vr_market_data_version r) \<or>
               vr_fact_date r = None \<or> vr_verification_timestamp r = None)
      then Inl (ValueError (vr_status r @ '' requires quant snapshot binding''))
      else Inr r)"

definition jtime :: "(pydt \<Rightarrow> string) \<Rightarrow> pydt option \<Rightarrow> json" where
  "jtime J t = jstr_opt (map_option J t)"

definition jftime :: "(pydt \<Rightarrow> string) \<Rightarrow> ftime option \<Rightarrow> json" where
  "jftime J t = (case t of None \<Rightarrow> JNull | Some (FDate d) \<Rightarrow> JStr (date_str d) | Some (FDatetime d) \<Rightarrow> JStr (J d))"

definition vr_dump :: "(pydt \<Rightarrow> string) \<Rightarrow> vresult \<Rightarrow> pydict" where
  "vr_dump J r =
     [(''claim_id'', JStr (vr_claim_id r)), (''status'', JStr (vr_status r)),
      (''market_snapshot_id'', jstr_opt (vr_market_snapshot_id r)),
      (''market_data_version'', jstr_opt (vr_market_data_version r)),
      (''fact_date'', jftime J (vr_fact_date r)), (''adjustment'', jstr_opt (vr_adjustment r)),
      (''verification_timestamp'', jtime J (vr_verification_timestamp r)),
      (''verification_rule_version'', JStr (vr_rule_version r)),
      (''available_at'', jtime J (vr_available_at r)),
      (''reference_value'', vr_reference_value r),
      (''deviation'', (case vr_deviation r of None \<Rightarrow> JNull | Some tok \<Rightarrow> JFloat tok)),
      (''reason'', jstr_opt (vr_reason r))]"

definition vr_identity :: "(pydt \<Rightarrow> string) \<Rightarrow> string \<Rightarrow> string \<Rightarrow> vresult \<Rightarrow> json" where
  "vr_identity J cid provider r =
     JObj [(''claim_id'', JStr cid), (''provider'', JStr provider),
           (''result'', JObj (filter (\<lambda>(k, v). k \<noteq> ''available_at'') (vr_dump J r)))]"

text \<open>\<open>ensure_ascii\<close>, the default of \<open>json.dumps\<close>, escapes what is not ASCII.\<close>

definition hex_char :: "nat \<Rightarrow> char" where
  "hex_char n = (if n < 10 then char_of (48 + n) else char_of (87 + n))"

definition ascii_json :: "string \<Rightarrow> string" where
  "ascii_json s = concat (map (\<lambda>c. let n = (of_char c :: nat) in
     if n < 128 then [c] else [CHR 0x5C, CHR ''u'', CHR ''0'', CHR ''0'', hex_char (n div 16), hex_char (n mod 16)]) s)"

definition job_verification_id_of ::
  "(string \<Rightarrow> string) \<Rightarrow> (pydt \<Rightarrow> string) \<Rightarrow> string \<Rightarrow> string \<Rightarrow> vresult \<Rightarrow> string" where
  "job_verification_id_of H J cid provider r =
     ''verification-'' @ take 32 (H (ascii_json (canonical_json (vr_identity J cid provider r))))"

definition plan_verification_id_of ::
  "(string \<Rightarrow> string) \<Rightarrow> (pydt \<Rightarrow> string) \<Rightarrow> string \<Rightarrow> string \<Rightarrow> vresult \<Rightarrow> string" where
  "plan_verification_id_of H J cid provider r =
     ''verification-'' @ take 32 (H (canonical_json (vr_identity J cid provider r)))"

section \<open>Artifact entries\<close>

record ventry =
  ve_claim_id :: string
  ve_provider :: string
  ve_status :: string
  ve_verification_id :: "string option"
  ve_verification_job_id :: "string option"
  ve_result :: "vresult option"

definition ventry_init :: "ventry \<Rightarrow> ventry result" where
  "ventry_init e =
     (if ve_status e = ''VERIFICATION_PENDING'' \<and> \<not> truthy (ve_verification_job_id e)
      then Inl (ValueError ''pending verification artifact entry requires verification_job_id'')
      else if ve_status e \<noteq> ''VERIFICATION_PENDING'' \<and> \<not> truthy (ve_verification_id e)
      then Inl (ValueError ''terminal verification artifact entry requires verification_id'')
      else (case ve_result e of
              Some r \<Rightarrow>
                if vr_claim_id r \<noteq> ve_claim_id e \<or> vr_status r \<noteq> ve_status e
                then Inl (ValueError ''verification artifact entry result does not match lineage'')
                else Inr e
            | None \<Rightarrow> Inr e))"

definition ventry_from_result ::
  "vresult \<Rightarrow> string \<Rightarrow> string option \<Rightarrow> string option \<Rightarrow> ventry result" where
  "ventry_from_result r provider vid jid =
     ventry_init \<lparr>ve_claim_id = vr_claim_id r, ve_provider = provider, ve_status = vr_status r,
       ve_verification_id = vid, ve_verification_job_id = jid, ve_result = Some r\<rparr>"

section \<open>Identity\<close>

lemma vr_identity_available: "vr_identity J cid p (r\<lparr>vr_available_at := t\<rparr>) = vr_identity J cid p r"
  by (simp add: vr_identity_def vr_dump_def)

lemma verification_id_available [simp]:
  "job_verification_id_of H J cid p (r\<lparr>vr_available_at := t\<rparr>) = job_verification_id_of H J cid p r"
  "plan_verification_id_of H J cid p (r\<lparr>vr_available_at := t\<rparr>) = plan_verification_id_of H J cid p r"
  by (simp_all add: job_verification_id_of_def plan_verification_id_of_def vr_identity_available)

lemma content_payload_keys: "distinct (map fst (fc_content_payload c))"
  by (cases "fc_temporal c") (simp_all add: fc_content_payload_def Let_def)

lemma content_lookup:
  "map_of (fc_content_payload c) ''claim_type'' = Some (JStr (fc_claim_type c))"
  "map_of (fc_content_payload c) ''subject_type'' = Some (JStr (fc_subject_type c))"
  "map_of (fc_content_payload c) ''subject_id'' = Some (JStr (fc_subject_id c))"
  "map_of (fc_content_payload c) ''predicate'' = Some (JStr (fc_predicate c))"
  "map_of (fc_content_payload c) ''value'' = Some (fc_value c)"
  "map_of (fc_content_payload c) ''unit'' = Some (jstr_opt (fc_unit c))"
  "map_of (fc_content_payload c) ''currency'' = Some (jstr_opt (fc_currency c))"
  "map_of (fc_content_payload c) ''normalized_statement'' = Some (jstr_opt (fc_normalized_statement c))"
  "map_of (fc_content_payload c) ''grounding_status'' = Some (JStr (fc_grounding_status c))"
  "map_of (fc_content_payload c) ''contradiction_group_id'' = Some (jstr_opt (fc_contradiction_group_id c))"
  "map_of (fc_content_payload c) ''claim_schema_version'' = Some (JStr (fc_claim_schema_version c))"
  "map_of (fc_content_payload c) ''fact_time'' =
     (if fc_temporal c then None else Some (jstr_opt (map_option ftime_str (fc_fact_time c))))"
  by (cases "fc_temporal c"; simp add: fc_content_payload_def Let_def)+

definition claim_wf :: "financial_claim \<Rightarrow> bool" where
  "claim_wf c \<longleftrightarrow> wf_json (fc_value c) \<and> wf_json (JObj (fc_bundle_v2 c))"

lemma content_payload_wf: "claim_wf c \<Longrightarrow> wf_json (JObj (fc_content_payload c))"
  by (auto simp: claim_wf_def fc_content_payload_def Let_def jstr_opt_def list_all_iff split: option.splits)

lemma content_field:
  assumes "canon (JObj (fc_content_payload c)) = canon (JObj (fc_content_payload c'))"
  shows "map_option canon (map_of (fc_content_payload c) k) = map_option canon (map_of (fc_content_payload c') k)"
  using canon_JObj_field [OF assms content_payload_keys content_payload_keys, of k] by (simp add: dict_get_def)

lemma jstr_opt_inj: "jstr_opt a = jstr_opt b \<longleftrightarrow> a = b"
  by (auto simp: jstr_opt_def split: option.splits)

lemma canon_jstr_opt [simp]: "canon (jstr_opt a) = jstr_opt a"
  by (simp add: jstr_opt_def split: option.splits)

text \<open>
  A claim id identifies the claim's content. When two claims get the same id and their two
  canonical texts do not collide under the truncated hash, they agree on type, subject, predicate,
  value, unit, currency, statement, grounding, contradiction group and versions; and when neither
  carries temporal bindings, also on the time text.
\<close>

theorem claim_id_identifies_content:
  assumes "claim_id_of H c = claim_id_of H c'" and "claim_wf c" and "claim_wf c'"
    and "take 24 (H (canonical_json (JObj (fc_content_payload c)))) =
         take 24 (H (canonical_json (JObj (fc_content_payload c')))) \<Longrightarrow>
         canonical_json (JObj (fc_content_payload c)) = canonical_json (JObj (fc_content_payload c'))"
  shows "fc_claim_type c = fc_claim_type c' \<and> fc_subject_type c = fc_subject_type c' \<and>
    fc_subject_id c = fc_subject_id c' \<and> fc_predicate c = fc_predicate c' \<and>
    canon (fc_value c) = canon (fc_value c') \<and> fc_unit c = fc_unit c' \<and>
    fc_currency c = fc_currency c' \<and> fc_normalized_statement c = fc_normalized_statement c' \<and>
    fc_grounding_status c = fc_grounding_status c' \<and>
    fc_contradiction_group_id c = fc_contradiction_group_id c' \<and>
    fc_claim_schema_version c = fc_claim_schema_version c' \<and>
    (\<not> fc_temporal c \<longrightarrow>
       \<not> fc_temporal c' \<and> map_option ftime_str (fc_fact_time c) = map_option ftime_str (fc_fact_time c'))"
proof -
  have "canonical_json (JObj (fc_content_payload c)) = canonical_json (JObj (fc_content_payload c'))"
    using assms(1,4) by (simp add: claim_id_of_def)
  then have eq: "canon (JObj (fc_content_payload c)) = canon (JObj (fc_content_payload c'))"
    using content_payload_wf [OF assms(2)] content_payload_wf [OF assms(3)] by (simp only: canonical_json_eq_iff)
  note f = content_field [OF eq]
  have a: "fc_claim_type c = fc_claim_type c'" "fc_subject_type c = fc_subject_type c'"
    "fc_subject_id c = fc_subject_id c'" "fc_predicate c = fc_predicate c'"
    "canon (fc_value c) = canon (fc_value c')" "fc_unit c = fc_unit c'" "fc_currency c = fc_currency c'"
    using f [of "''claim_type''"] f [of "''subject_type''"] f [of "''subject_id''"] f [of "''predicate''"]
      f [of "''value''"] f [of "''unit''"] f [of "''currency''"]
    by (simp_all add: content_lookup jstr_opt_inj)
  have b: "fc_normalized_statement c = fc_normalized_statement c'" "fc_grounding_status c = fc_grounding_status c'"
    "fc_contradiction_group_id c = fc_contradiction_group_id c'" "fc_claim_schema_version c = fc_claim_schema_version c'"
    using f [of "''normalized_statement''"] f [of "''grounding_status''"] f [of "''contradiction_group_id''"]
      f [of "''claim_schema_version''"]
    by (simp_all add: content_lookup jstr_opt_inj)
  have "\<not> fc_temporal c \<longrightarrow> \<not> fc_temporal c' \<and>
      map_option ftime_str (fc_fact_time c) = map_option ftime_str (fc_fact_time c')"
    using f [of "''fact_time''"] by (simp add: content_lookup jstr_opt_inj split: if_splits)
  with a b show ?thesis by simp
qed

definition example_claim_record :: financial_claim where
  "example_claim_record =
     \<lparr>fc_claim_id = [], fc_claim_type = ''PRICE'', fc_fact_category = [], fc_subject_type = ''EQUITY'',
      fc_subject_id = ''600000.SH'', fc_predicate = ''close'', fc_value = JInt 10, fc_unit = None,
      fc_currency = Some ''CNY'', fc_fact_time = Some (FDate (2026, 1, 5)), fc_period_start = None,
      fc_period_end = None, fc_evidence_refs = [''e1''], fc_condition_key = None,
      fc_normalized_statement = None, fc_grounding_status = ''LEGACY_UNGROUNDED'',
      fc_contradiction_group_id = None, fc_legacy_grounding_incomplete = True,
      fc_temporal_bindings = [], fc_temporal_relations = [], fc_claim_schema_version = ''claim.v2'',
      fc_normalization_version = ''normalization.v1'', fc_bundle_v2 = []\<rparr>"

theorem claim_id_identifies_content_witness:
  "fc_subject_id example_claim_record =
   fc_subject_id (example_claim_record\<lparr>fc_evidence_refs := [''e2'']\<rparr>)"
proof -
  let ?c = example_claim_record and ?c' = "example_claim_record\<lparr>fc_evidence_refs := [''e2'']\<rparr>"
  have p: "fc_content_payload ?c = fc_content_payload ?c'"
    by (simp add: fc_content_payload_def fc_temporal_def)
  have i: "claim_id_of (\<lambda>s. s) ?c = claim_id_of (\<lambda>s. s) ?c'" by (simp add: claim_id_of_def p)
  have w: "claim_wf ?c" "claim_wf ?c'" by (simp_all add: claim_wf_def example_claim_record_def)
  from claim_id_identifies_content [OF i w] p show ?thesis by simp
qed

end
