(* ===== verification/Verification_Job.thy ===== *)
theory Verification_Job
  imports Claims Lease
begin

text \<open>
  \<open>PostgresVerificationJobRepository\<close>
  (\<open>adapters/postgres/repositories/verification_job_repository.py\<close>): the durable queue of claim
  verification jobs and the immutable results. Each method is one transaction over both tables.
  \<open>now\<close> is \<open>now or datetime.now(UTC)\<close>; \<open>H\<close> is the SHA-256 digest, \<open>J\<close> pydantic's JSON text of a
  datetime, \<open>V\<close> pydantic's \<open>VerificationResult.model_validate\<close>. Foreign keys are not modelled.
\<close>

section \<open>Data\<close>

record vjob =
  vj_job_id :: string
  vj_claim_id :: string
  vj_provider :: string
  vj_status :: string
  vj_retry_count :: int
  vj_max_retries :: int
  vj_next_retry_at :: "pydt option"
  vj_lease_owner :: "string option"
  vj_lease_expires_at :: "pydt option"
  vj_last_error :: "string option"
  vj_trace_id :: "string option"
  vj_created_at :: pydt

record vrow =
  vx_verification_id :: string
  vx_claim_id :: string
  vx_provider :: string
  vx_status :: string
  vx_market_snapshot_id :: "string option"
  vx_market_data_version :: "string option"
  vx_result_payload :: pydict
  vx_trace_id :: "string option"
  vx_fact_date :: "ftime option"
  vx_adjustment :: "string option"
  vx_verification_timestamp :: "pydt option"
  vx_rule_version :: "string option"
  vx_verified_at :: "pydt option"
  vx_available_at :: "pydt option"
  vx_created_at :: pydt

record vdb =
  vd_jobs :: "vjob list"
  vd_results :: "vrow list"

definition vj_retry_schedule :: "int list" where
  "vj_retry_schedule = [60, 300, 1800, 7200, 43200]"

definition to_utc :: "pydt \<Rightarrow> pydt" where
  "to_utc d = Aware (instant_of d) 0"

section \<open>Results\<close>

text \<open>\<open>_canonical_immutable\<close> of the stored columns.\<close>

definition canon_time :: "pydt option \<Rightarrow> string option" where
  "canon_time t = map_option (\<lambda>d. isoformat (to_utc d)) t"

definition canon_fact_date :: "ftime option \<Rightarrow> string option" where
  "canon_fact_date t =
     map_option (\<lambda>f. case f of FDate d \<Rightarrow> date_str d | FDatetime d \<Rightarrow> date_str (date_of d)) t"

definition same_immutable :: "vrow \<Rightarrow> vrow \<Rightarrow> bool" where
  "same_immutable row values \<longleftrightarrow>
     vx_claim_id row = vx_claim_id values \<and> vx_provider row = vx_provider values \<and>
     vx_status row = vx_status values \<and> vx_market_snapshot_id row = vx_market_snapshot_id values \<and>
     vx_market_data_version row = vx_market_data_version values \<and>
     same_dict (vx_result_payload row) (vx_result_payload values) \<and>
     canon_fact_date (vx_fact_date row) = canon_fact_date (vx_fact_date values) \<and>
     vx_adjustment row = vx_adjustment values \<and>
     canon_time (vx_verification_timestamp row) = canon_time (vx_verification_timestamp values) \<and>
     vx_rule_version row = vx_rule_version values \<and>
     canon_time (vx_verified_at row) = canon_time (vx_verified_at values) \<and>
     canon_time (vx_available_at row) = canon_time (vx_available_at values)"

definition different_result :: "string \<Rightarrow> exn" where
  "different_result vid = JobIntegrityError (''verification id '' @ vid @ '' already stores a different result'')"

definition insert_result_ignore :: "vrow \<Rightarrow> vdb \<Rightarrow> vdb" where
  "insert_result_ignore values db =
     (if row_get vx_verification_id (vx_verification_id values) (vd_results db) = None
      then db\<lparr>vd_results := row_add values (vd_results db)\<rparr> else db)"

definition persist_result :: "vrow \<Rightarrow> vdb \<Rightarrow> (vrow \<times> vdb) result" where
  "persist_result values db =
     (let db' = insert_result_ignore values db
      in case row_get vx_verification_id (vx_verification_id values) (vd_results db') of
           None \<Rightarrow> Inl (RuntimeError ''verification result disappeared after a uniquekey conflict'')
         | Some row \<Rightarrow>
             if same_immutable row values then Inr (row, db')
             else Inl (different_result (vx_verification_id values)))"

definition result_available_at :: "vresult \<Rightarrow> instant \<Rightarrow> pydt" where
  "result_available_at r fallback =
     Aware (Max ({case vr_available_at r of None \<Rightarrow> fallback | Some a \<Rightarrow> instant_of a, fallback} \<union>
       (case vr_verification_timestamp r of None \<Rightarrow> {} | Some t \<Rightarrow> {instant_of t}))) 0"

section \<open>Enqueueing\<close>

definition insert_job_ignore :: "vjob \<Rightarrow> vdb \<Rightarrow> (bool \<times> vdb) result" where
  "insert_job_ignore job db =
     (if find (\<lambda>j. vj_claim_id j = vj_claim_id job \<and> vj_provider j = vj_provider job) (vd_jobs db) \<noteq> None
      then Inr (False, db)
      else if row_get vj_job_id (vj_job_id job) (vd_jobs db) \<noteq> None
      then Inl (IntegrityError ''duplicate key value violates unique constraint'')
      else Inr (True, db\<lparr>vd_jobs := row_add job (vd_jobs db)\<rparr>))"

definition put_job :: "vjob \<Rightarrow> vdb \<Rightarrow> vdb" where
  "put_job job db = db\<lparr>vd_jobs := row_put vj_job_id job (vd_jobs db)\<rparr>"

definition enqueue_unverifiable ::
  "(string \<Rightarrow> string) \<Rightarrow> (pydt \<Rightarrow> string) \<Rightarrow> string \<Rightarrow> string option \<Rightarrow> instant \<Rightarrow> financial_claim \<Rightarrow> vdb \<Rightarrow>
     vdb result" where
  "enqueue_unverifiable H J provider trace now claim db =
     (let status = (if fc_fact_category claim = ''FACT'' then ''NOT_VERIFIABLE'' else ''NOT_REQUIRED'');
          r = plain_result (fc_claim_id claim) status;
          vid = job_verification_id_of H J (fc_claim_id claim) provider r;
          payload = vr_dump J r;
          db' = insert_result_ignore
            \<lparr>vx_verification_id = vid, vx_claim_id = fc_claim_id claim, vx_provider = provider,
             vx_status = status, vx_market_snapshot_id = None, vx_market_data_version = None,
             vx_result_payload = payload, vx_trace_id = trace, vx_fact_date = vr_fact_date r,
             vx_adjustment = vr_adjustment r,
             vx_verification_timestamp = vr_verification_timestamp r,
             vx_rule_version = Some (vr_rule_version r),
             vx_verified_at = vr_verification_timestamp r, vx_available_at = Some (Aware now 0),
             vx_created_at = Aware now 0\<rparr> db
      in case row_get vx_verification_id vid (vd_results db') of
           None \<Rightarrow> Inl (RuntimeError ''verification result disappeared after a uniquekey conflict'')
         | Some row \<Rightarrow> if same_dict (vx_result_payload row) payload then Inr db'
                      else Inl (different_result vid))"

definition job_id_for :: "string \<Rightarrow> string \<Rightarrow> string" where
  "job_id_for cid provider = ''verify-job-'' @ cid @ ''-'' @ provider"

definition vj_new_job :: "string \<Rightarrow> string \<Rightarrow> string option \<Rightarrow> instant \<Rightarrow> vjob" where
  "vj_new_job cid provider trace now =
     \<lparr>vj_job_id = job_id_for cid provider, vj_claim_id = cid, vj_provider = provider,
      vj_status = ''VERIFICATION_PENDING'', vj_retry_count = 0,
      vj_max_retries = int (length vj_retry_schedule), vj_next_retry_at = Some (Aware now 0),
      vj_lease_owner = None, vj_lease_expires_at = None, vj_last_error = None,
      vj_trace_id = trace, vj_created_at = Aware now 0\<rparr>"

definition enqueue_verifiable ::
  "string \<Rightarrow> string option \<Rightarrow> instant \<Rightarrow> financial_claim \<Rightarrow> vdb \<Rightarrow> (string list \<times> vdb) result" where
  "enqueue_verifiable provider trace now claim db =
     try_bind (insert_job_ignore (vj_new_job (fc_claim_id claim) provider trace now) db) (\<lambda>(inserted, db').
       case find (\<lambda>j. vj_claim_id j = fc_claim_id claim \<and> vj_provider j = provider) (vd_jobs db') of
         None \<Rightarrow> Inl (RuntimeError ''verification job disappeared after a uniquekey conflict'')
       | Some row \<Rightarrow>
           (let row' = (if truthy trace \<and> \<not> truthy (vj_trace_id row) then row\<lparr>vj_trace_id := trace\<rparr> else row)
            in Inr (if inserted then [vj_job_id row] else [], put_job row' db')))"

definition vj_enqueue ::
  "(string \<Rightarrow> string) \<Rightarrow> (pydt \<Rightarrow> string) \<Rightarrow> financial_claim list \<Rightarrow> string \<Rightarrow> string option \<Rightarrow> instant \<Rightarrow> vdb \<Rightarrow>
     (string list \<times> vdb) result" where
  "vj_enqueue H J claims provider trace now db =
     foldM (\<lambda>(created, db) claim.
       if \<not> is_quant_verifiable claim
       then try_bind (enqueue_unverifiable H J provider trace now claim db) (\<lambda>db'. Inr (created, db'))
       else try_bind (enqueue_verifiable provider trace now claim db)
              (\<lambda>(new, db'). Inr (created @ new, db'))) ([], db) claims"

section \<open>Leasing and outcomes\<close>

definition vj_past :: "pydt option \<Rightarrow> instant \<Rightarrow> bool" where
  "vj_past t now = (case t of None \<Rightarrow> True | Some e \<Rightarrow> instant_of e \<le> now)"

definition vj_eligible :: "vjob \<Rightarrow> instant \<Rightarrow> bool" where
  "vj_eligible j now \<longleftrightarrow> vj_status j \<in> {''VERIFICATION_PENDING'', ''LEASED''} \<and>
     vj_past (vj_next_retry_at j) now \<and> vj_past (vj_lease_expires_at j) now"

definition vj_seize :: "string \<Rightarrow> int \<Rightarrow> instant \<Rightarrow> vjob \<Rightarrow> vjob" where
  "vj_seize worker lease_seconds now j =
     j\<lparr>vj_status := ''LEASED'', vj_lease_owner := Some worker,
       vj_lease_expires_at := Some (Aware (now + seconds lease_seconds) 0)\<rparr>"

definition vj_due :: "string set \<Rightarrow> nat \<Rightarrow> instant \<Rightarrow> vjob list \<Rightarrow> vjob list" where
  "vj_due locked limit now jobs =
     take limit (sort_key (\<lambda>j. (instant_of (vj_created_at j), vj_job_id j))
       (filter (\<lambda>j. vj_eligible j now \<and> vj_job_id j \<notin> locked) jobs))"

definition vj_claim_due ::
  "string set \<Rightarrow> string \<Rightarrow> nat \<Rightarrow> int \<Rightarrow> instant \<Rightarrow> vdb \<Rightarrow> vjob list \<times> vdb" where
  "vj_claim_due locked worker limit lease_seconds now db =
     (let rows = map (vj_seize worker lease_seconds now) (vj_due locked limit now (vd_jobs db))
      in (rows, db\<lparr>vd_jobs := foldl (\<lambda>t r. row_put vj_job_id r t) (vd_jobs db) rows\<rparr>))"

definition vj_assert_owner :: "vjob option \<Rightarrow> string \<Rightarrow> instant \<Rightarrow> vjob result" where
  "vj_assert_owner row worker now =
     (case row of
        None \<Rightarrow> Inl (KeyError ''verification job not found'')
      | Some j \<Rightarrow>
          if vj_status j \<noteq> ''LEASED'' \<or> vj_lease_owner j \<noteq> Some worker
          then Inl (JobIntegrityError ''verification job lease owner mismatch'')
          else (case map_option as_utc (vj_lease_expires_at j) of
                  None \<Rightarrow> Inr j
                | Some e \<Rightarrow> if instant_of e \<le> now
                           then Inl (JobIntegrityError ''verification job lease expired'') else Inr j))"

definition job_row :: "string \<Rightarrow> vdb \<Rightarrow> vjob option" where
  "job_row jid db = row_get vj_job_id jid (vd_jobs db)"

definition vj_renew :: "string \<Rightarrow> string \<Rightarrow> int \<Rightarrow> instant \<Rightarrow> vdb \<Rightarrow> vdb result" where
  "vj_renew jid worker lease_seconds now db =
     try_bind (vj_assert_owner (job_row jid db) worker now) (\<lambda>j.
       Inr (put_job (j\<lparr>vj_lease_expires_at := Some (Aware (now + seconds lease_seconds) 0)\<rparr>) db))"

text \<open>Past the schedule's end the index raises: \<open>max_retries\<close> is a column.\<close>

definition vj_retried :: "string \<Rightarrow> instant \<Rightarrow> vjob \<Rightarrow> vjob result" where
  "vj_retried err now j =
     (let n = vj_retry_count j + 1;
          base = j\<lparr>vj_retry_count := n, vj_last_error := Some err, vj_lease_owner := None,
                   vj_lease_expires_at := None\<rparr>
      in if n > vj_max_retries j
         then Inr (base\<lparr>vj_status := ''MANUAL_REVIEW'', vj_next_retry_at := None\<rparr>)
         else if nat (n - 1) < length vj_retry_schedule
         then Inr (base\<lparr>vj_status := ''VERIFICATION_PENDING'', vj_next_retry_at :=
           Some (Aware (now + seconds (vj_retry_schedule ! nat (n - 1))) 0)\<rparr>)
         else Inl (RuntimeError ''tuple index out of range''))"

definition vj_mark_retry :: "string \<Rightarrow> string \<Rightarrow> string \<Rightarrow> instant \<Rightarrow> vdb \<Rightarrow> (vjob \<times> vdb) result" where
  "vj_mark_retry jid worker err now db =
     try_bind (vj_assert_owner (job_row jid db) worker now) (\<lambda>j.
     try_bind (vj_retried err now j) (\<lambda>j'. Inr (j', put_job j' db)))"

definition vj_reviewed :: "string \<Rightarrow> vjob \<Rightarrow> vjob" where
  "vj_reviewed reason j =
     j\<lparr>vj_status := ''MANUAL_REVIEW'', vj_last_error := Some reason, vj_next_retry_at := None,
       vj_lease_owner := None, vj_lease_expires_at := None\<rparr>"

definition vj_mark_manual_review ::
  "string \<Rightarrow> string \<Rightarrow> string \<Rightarrow> instant \<Rightarrow> vdb \<Rightarrow> (vjob \<times> vdb) result" where
  "vj_mark_manual_review jid worker reason now db =
     try_bind (vj_assert_owner (job_row jid db) worker now) (\<lambda>j.
       Inr (vj_reviewed reason j, put_job (vj_reviewed reason j) db))"

definition vj_requeue :: "string \<Rightarrow> instant \<Rightarrow> vdb \<Rightarrow> (vjob \<times> vdb) result" where
  "vj_requeue jid now db =
     (case job_row jid db of
        None \<Rightarrow> Inl (KeyError ''verification job not found'')
      | Some j \<Rightarrow>
          (let j' = j\<lparr>vj_status := ''VERIFICATION_PENDING'', vj_next_retry_at := Some (Aware now 0),
                      vj_lease_owner := None, vj_lease_expires_at := None, vj_last_error := None\<rparr>
           in Inr (j', put_job j' db)))"

definition vj_completed :: "string \<Rightarrow> vjob \<Rightarrow> vjob" where
  "vj_completed status j =
     j\<lparr>vj_status := status, vj_lease_owner := None, vj_lease_expires_at := None, vj_next_retry_at := None\<rparr>"

definition completion_row ::
  "(string \<Rightarrow> string) \<Rightarrow> (pydt \<Rightarrow> string) \<Rightarrow> vjob \<Rightarrow> vresult \<Rightarrow> instant \<Rightarrow> vrow" where
  "completion_row H J j r now =
     \<lparr>vx_verification_id = job_verification_id_of H J (vj_claim_id j) (vj_provider j) r,
      vx_claim_id = vj_claim_id j, vx_provider = vj_provider j, vx_status = vr_status r,
      vx_market_snapshot_id = vr_market_snapshot_id r,
      vx_market_data_version = vr_market_data_version r, vx_result_payload = vr_dump J r,
      vx_trace_id = vj_trace_id j, vx_fact_date = vr_fact_date r, vx_adjustment = vr_adjustment r,
      vx_verification_timestamp = vr_verification_timestamp r,
      vx_rule_version = Some (vr_rule_version r),
      vx_verified_at = vr_verification_timestamp r,
      vx_available_at = Some (result_available_at r now), vx_created_at = Aware now 0\<rparr>"

definition vj_complete_result ::
  "(string \<Rightarrow> string) \<Rightarrow> (pydt \<Rightarrow> string) \<Rightarrow> string \<Rightarrow> string \<Rightarrow> vresult \<Rightarrow> instant \<Rightarrow> vdb \<Rightarrow>
     (vrow \<times> vdb) result" where
  "vj_complete_result H J jid worker res now db =
     (if vr_status res \<in> {''VERIFICATION_PENDING'', ''LEASED'', ''MANUAL_REVIEW''}
      then Inl (JobIntegrityError ''completion requires a terminal verification result'')
      else (let r = res\<lparr>vr_available_at := Some (result_available_at res now)\<rparr>
        in case job_row jid db of
             None \<Rightarrow> Inl (KeyError ''verification job not found'')
           | Some j \<Rightarrow>
               if vr_claim_id r \<noteq> vj_claim_id j
               then Inl (JobIntegrityError ''result claim does not match leased job'')
               else (let vid = job_verification_id_of H J (vj_claim_id j) (vj_provider j) r;
                         values = completion_row H J j r now
                 in case row_get vx_verification_id vid (vd_results db) of
                      Some existing \<Rightarrow>
                        try_bind (persist_result (values\<lparr>vx_available_at := vx_available_at existing,
                            vx_result_payload := vx_result_payload existing\<rparr>) db) (\<lambda>(row, db').
                          Inr (row, put_job (vj_completed (vr_status r) j) db'))
                    | None \<Rightarrow>
                        try_bind (vj_assert_owner (Some j) worker now) (\<lambda>_.
                        try_bind (persist_result values db) (\<lambda>(row, db').
                          Inr (row, put_job (vj_completed (vr_status r) j) db'))))))"

section \<open>Point-in-time reads\<close>

definition vj_find_active_as_of :: "string \<Rightarrow> string \<Rightarrow> instant \<Rightarrow> vdb \<Rightarrow> vjob option" where
  "vj_find_active_as_of cid provider as_of db =
     (case sort_key (\<lambda>j. (instant_of (vj_created_at j), vj_job_id j))
        (filter (\<lambda>j. vj_claim_id j = cid \<and> vj_provider j = provider \<and>
           instant_of (vj_created_at j) \<le> as_of \<and>
           vj_status j \<in> {''VERIFICATION_PENDING'', ''LEASED'', ''RETRYABLE''}) (vd_jobs db)) of
        [] \<Rightarrow> None | j # _ \<Rightarrow> Some j)"

definition terminal_statuses :: "string list" where
  "terminal_statuses = [''VERIFIED'', ''CONTRADICTED'', ''PARTIALLY_VERIFIED'', ''NOT_VERIFIABLE'',
     ''NOT_REQUIRED'', ''EXPIRED'', ''MANUAL_REVIEW'']"

definition vx_version :: "vrow \<Rightarrow> string option" where
  "vx_version row =
     (case dict_get ''verification_rule_version'' (vx_result_payload row) of
        Some (JStr v) \<Rightarrow> if v = [] then vx_rule_version row else Some v
      | _ \<Rightarrow> vx_rule_version row)"

definition vx_available_by :: "string \<Rightarrow> string \<Rightarrow> instant \<Rightarrow> vrow \<Rightarrow> bool" where
  "vx_available_by cid provider as_of row \<longleftrightarrow>
     vx_claim_id row = cid \<and> vx_provider row = provider \<and> vx_status row \<in> set terminal_statuses \<and>
     (case vx_available_at row of None \<Rightarrow> False | Some a \<Rightarrow> instant_of a \<le> as_of)"

definition vx_order :: "vrow \<Rightarrow> int \<times> int \<times> string" where
  "vx_order row =
     ((case vx_available_at row of None \<Rightarrow> 0 | Some a \<Rightarrow> instant_of a), instant_of (vx_created_at row),
      vx_verification_id row)"

definition vj_latest_terminal_as_of ::
  "string \<Rightarrow> string \<Rightarrow> instant \<Rightarrow> string option \<Rightarrow> vdb \<Rightarrow> vrow option" where
  "vj_latest_terminal_as_of cid provider as_of policy db =
     find (\<lambda>row. \<not> truthy policy \<or> vx_version row = policy)
       (rev (sort_key vx_order (filter (vx_available_by cid provider as_of) (vd_results db))))"

definition vj_get_result :: "string \<Rightarrow> vdb \<Rightarrow> vrow option" where
  "vj_get_result vid db = row_get vx_verification_id vid (vd_results db)"

definition vj_read_result ::
  "(pydict \<Rightarrow> vresult result) \<Rightarrow> string \<Rightarrow> string \<Rightarrow> vdb \<Rightarrow> vresult option result" where
  "vj_read_result V cid provider db =
     (case rev (sort_key (\<lambda>r. instant_of (vx_created_at r))
        (filter (\<lambda>r. vx_claim_id r = cid \<and> vx_provider r = provider) (vd_results db))) of
        [] \<Rightarrow> Inr None
      | r # _ \<Rightarrow> try_bind (V (filter (\<lambda>(k, v). k \<noteq> ''available_at'') (vx_result_payload r)))
                  (\<lambda>v. Inr (Some v)))"

section \<open>Runs\<close>

datatype vj_op =
    VjEnqueue "financial_claim list" string "string option" instant
  | VjClaim "string set" string nat int instant
  | VjRenew string string int instant
  | VjRetry string string string instant
  | VjManual string string string instant
  | VjRequeue string instant
  | VjComplete string string vresult instant

fun vj_apply :: "(string \<Rightarrow> string) \<Rightarrow> (pydt \<Rightarrow> string) \<Rightarrow> vdb \<Rightarrow> vj_op \<Rightarrow> vdb result" where
  "vj_apply H J db (VjEnqueue cs p tr now) = try_bind (vj_enqueue H J cs p tr now db) (\<lambda>r. Inr (snd r))"
| "vj_apply H J db (VjClaim locked w limit ls now) = Inr (snd (vj_claim_due locked w limit ls now db))"
| "vj_apply H J db (VjRenew jid w ls now) = vj_renew jid w ls now db"
| "vj_apply H J db (VjRetry jid w err now) = try_bind (vj_mark_retry jid w err now db) (\<lambda>r. Inr (snd r))"
| "vj_apply H J db (VjManual jid w why now) = try_bind (vj_mark_manual_review jid w why now db) (\<lambda>r. Inr (snd r))"
| "vj_apply H J db (VjRequeue jid now) = try_bind (vj_requeue jid now db) (\<lambda>r. Inr (snd r))"
| "vj_apply H J db (VjComplete jid w res now) = try_bind (vj_complete_result H J jid w res now db) (\<lambda>r. Inr (snd r))"

definition vj_step :: "(string \<Rightarrow> string) \<Rightarrow> (pydt \<Rightarrow> string) \<Rightarrow> vdb \<Rightarrow> vj_op \<Rightarrow> vdb" where
  "vj_step H J db op = (case vj_apply H J db op of Inl e \<Rightarrow> db | Inr db' \<Rightarrow> db')"

fun vj_actor :: "vj_op \<Rightarrow> (string \<times> instant) option" where
  "vj_actor (VjClaim locked w limit ls now) = Some (w, now)"
| "vj_actor (VjRenew jid w ls now) = Some (w, now)"
| "vj_actor (VjRetry jid w err now) = Some (w, now)"
| "vj_actor (VjManual jid w why now) = Some (w, now)"
| "vj_actor _ = None"

text \<open>Requeueing and completing a job can change it without its lease.\<close>

fun vj_admin :: "string \<Rightarrow> vj_op \<Rightarrow> bool" where
  "vj_admin k (VjRequeue jid now) = (jid = k)"
| "vj_admin k (VjComplete jid w res now) = (jid = k)"
| "vj_admin k _ = False"

fun vj_time :: "vj_op \<Rightarrow> instant" where
  "vj_time (VjEnqueue cs p tr now) = now"
| "vj_time (VjClaim locked w limit ls now) = now"
| "vj_time (VjRenew jid w ls now) = now"
| "vj_time (VjRetry jid w err now) = now"
| "vj_time (VjManual jid w why now) = now"
| "vj_time (VjRequeue jid now) = now"
| "vj_time (VjComplete jid w res now) = now"

section \<open>Results are append-only\<close>

definition later_rows :: "instant \<Rightarrow> vrow list \<Rightarrow> bool" where
  "later_rows now rows \<longleftrightarrow>
     list_all (\<lambda>r. case vx_available_at r of None \<Rightarrow> False | Some a \<Rightarrow> now \<le> instant_of a) rows"

definition grows :: "instant \<Rightarrow> vdb \<Rightarrow> vdb \<Rightarrow> bool" where
  "grows now db db' \<longleftrightarrow> (\<exists>new. vd_results db' = vd_results db @ new \<and> later_rows now new)"

lemma grows_refl [simp]: "grows now db db"
  by (auto simp: grows_def later_rows_def)

lemma grows_trans: "grows now db db' \<Longrightarrow> grows now db' db'' \<Longrightarrow> grows now db db''"
  by (auto simp: grows_def later_rows_def)

lemma grows_jobs [simp]: "grows now db (vd_jobs_update f db') = grows now db db'"
  by (simp add: grows_def)

lemma grows_put [simp]: "grows now db (put_job j db') = grows now db db'"
  by (simp add: put_job_def)

lemma grows_insert:
  "vx_available_at r = Some a \<Longrightarrow> now \<le> instant_of a \<Longrightarrow> grows now db (insert_result_ignore r db)"
  by (auto simp: grows_def insert_result_ignore_def row_add_def later_rows_def)

lemma result_available_later: "now \<le> instant_of (result_available_at r now)"
  by (auto simp: result_available_at_def le_max_iff_disj split: option.splits)

lemma grows_persist:
  "persist_result values db = Inr (row, db') \<Longrightarrow> db' = insert_result_ignore values db"
  by (auto simp: persist_result_def Let_def split: option.splits if_splits)

lemma persist_existing:
  assumes "persist_result values db = Inr (row, db')"
    and "row_get vx_verification_id (vx_verification_id values) (vd_results db) = Some r"
  shows "db' = db \<and> row = r"
  using assms by (auto simp: persist_result_def Let_def insert_result_ignore_def split: if_splits)

lemma enqueue_verifiable_results:
  "enqueue_verifiable p tr now c db = Inr (new, db') \<Longrightarrow> vd_results db' = vd_results db"
  by (auto simp: enqueue_verifiable_def insert_job_ignore_def try_bind_Inr_iff Let_def put_job_def
      split: if_splits option.splits)

lemma enqueue_unverifiable_grows:
  "enqueue_unverifiable H J p tr now c db = Inr db' \<Longrightarrow> grows now db db' \<and> vd_jobs db' = vd_jobs db"
  by (auto simp: enqueue_unverifiable_def Let_def insert_result_ignore_def grows_def later_rows_def
      row_add_def split: if_splits option.splits)

lemma enqueue_grows:
  assumes "vj_enqueue H J cs p tr now db = Inr (created, db')"
  shows "grows now db db'"
proof -
  have "(\<lambda>s. grows now db (snd s)) (created, db')"
  proof (rule foldM_invariant [OF assms [unfolded vj_enqueue_def], where I = "\<lambda>s. grows now db (snd s)"])
    show "grows now db (snd ([], db))" by simp
  next
    fix s c u
    assume "grows now db (snd s)" and "(\<lambda>(created, db) claim.
       if \<not> is_quant_verifiable claim
       then try_bind (enqueue_unverifiable H J p tr now claim db) (\<lambda>db'. Inr (created, db'))
       else try_bind (enqueue_verifiable p tr now claim db)
              (\<lambda>(new, db'). Inr (created @ new, db'))) s c = Inr u"
    then show "grows now db (snd u)"
      by (cases s) (auto simp: try_bind_Inr_iff grows_def split: if_splits
          dest!: enqueue_verifiable_results enqueue_unverifiable_grows [THEN conjunct1, unfolded grows_def]
          simp: later_rows_def)
  qed
  then show ?thesis by simp
qed

lemma complete_grows:
  assumes "vj_complete_result H J jid w res now db = Inr (row, db')"
  shows "grows now db db'"
proof -
  let ?r = "res\<lparr>vr_available_at := Some (result_available_at res now)\<rparr>"
  obtain j where j: "job_row jid db = Some j"
    using assms by (auto simp: vj_complete_result_def Let_def split: if_splits option.splits)
  let ?vid = "job_verification_id_of H J (vj_claim_id j) (vj_provider j) ?r"
  show ?thesis
  proof (cases "row_get vx_verification_id ?vid (vd_results db)")
    case (Some existing)
    with assms j show ?thesis
      by (auto simp: vj_complete_result_def Let_def try_bind_Inr_iff completion_row_def split: if_splits
          dest!: persist_existing)
  next
    case None
    with assms j have "grows now db (insert_result_ignore (completion_row H J j ?r now) db)"
      by (intro grows_insert [of _ "result_available_at ?r now"]) (simp_all add: completion_row_def result_available_later)
    with None assms j show ?thesis
      by (auto simp: vj_complete_result_def Let_def try_bind_Inr_iff split: if_splits dest!: grows_persist)
  qed
qed

lemma vj_step_grows: "grows (vj_time op) db (vj_step H J db op)"
proof (cases "vj_apply H J db op")
  case (Inl e)
  then show ?thesis by (simp add: vj_step_def)
next
  case (Inr db')
  have "grows (vj_time op) db db'"
  proof (cases op)
    case (VjEnqueue cs p tr now)
    with Inr show ?thesis by (auto simp: try_bind_Inr_iff enqueue_grows)
  next
    case (VjComplete jid w res now)
    with Inr show ?thesis by (auto simp: try_bind_Inr_iff complete_grows)
  qed (use Inr in \<open>auto simp: vj_claim_due_def vj_renew_def vj_mark_retry_def vj_mark_manual_review_def
        vj_requeue_def try_bind_Inr_iff Let_def split: option.splits\<close>)
  then show ?thesis by (simp add: vj_step_def Inr)
qed

lemma vj_run_grows:
  "list_all (\<lambda>op. now \<le> vj_time op) ops \<Longrightarrow> grows now db (run_ops (vj_step H J) db ops)"
proof (induction ops arbitrary: db)
  case Nil
  then show ?case by simp
next
  case (Cons op ops)
  have "grows now db (vj_step H J db op)"
    using vj_step_grows [of op db H J] Cons.prems
    by (auto simp: grows_def later_rows_def list_all_iff split: option.splits)
  with Cons grows_trans show ?case by fastforce
qed

text \<open>
  C19. Verification results are immutable and point-in-time reads are reproducible. Whatever calls of
  the job repository follow (claims, renewals, retries, completions, enqueues), a stored result row is never changed; and when all of them happen after \<open>as_of\<close>, the read
  of the latest terminal result as of that moment returns the same row as before.
\<close>

theorem verification_reads_reproducible:
  assumes "list_all (\<lambda>op. as_of < vj_time op) ops"
  shows "vj_latest_terminal_as_of cid provider as_of policy (run_ops (vj_step H J) db ops) =
      vj_latest_terminal_as_of cid provider as_of policy db \<and>
    (\<forall>vid row. vj_get_result vid db = Some row \<longrightarrow>
       vj_get_result vid (run_ops (vj_step H J) db ops) = Some row)"
proof -
  have "list_all (\<lambda>op. as_of + 1 \<le> vj_time op) ops" using assms by (auto simp: list_all_iff)
  then obtain new where new: "vd_results (run_ops (vj_step H J) db ops) = vd_results db @ new"
    "later_rows (as_of + 1) new"
    using vj_run_grows [of "as_of + 1" ops db H J] by (auto simp: grows_def)
  have "filter (vx_available_by cid provider as_of) new = []"
    using new(2) by (auto simp: later_rows_def list_all_iff vx_available_by_def filter_empty_conv split: option.splits)
  moreover have "row_get vx_verification_id vid (vd_results db @ new) = Some row"
    if "row_get vx_verification_id vid (vd_results db) = Some row" for vid row
    using that by (simp add: row_get_append)
  ultimately show ?thesis
    by (simp add: vj_latest_terminal_as_of_def vj_get_result_def new(1))
qed

definition example_vdb :: vdb where
  "example_vdb = vj_step (\<lambda>s. s) isoformat \<lparr>vd_jobs = [], vd_results = []\<rparr>
     (VjEnqueue [example_claim_record\<lparr>fc_claim_id := ''c1''\<rparr>] ''quant'' None 0)"

lemma example_vdb_eq: "example_vdb = \<lparr>vd_jobs = [vj_new_job ''c1'' ''quant'' None 0], vd_results = []\<rparr>"
  by (simp add: example_vdb_def vj_step_def vj_enqueue_def is_quant_verifiable_def example_claim_record_def
      quant_verifiable_types_def enqueue_verifiable_def insert_job_ignore_def row_add_def put_job_def
      row_put_def vj_new_job_def)

theorem verification_reads_reproducible_witness:
  "vj_latest_terminal_as_of ''c1'' ''quant'' 3 None
     (run_ops (vj_step (\<lambda>s. s) isoformat) example_vdb [VjClaim {} ''w'' 5 60 4, VjRequeue ''j'' 9]) =
   vj_latest_terminal_as_of ''c1'' ''quant'' 3 None example_vdb"
proof -
  have "list_all (\<lambda>op. 3 < vj_time op) [VjClaim {} ''w'' 5 60 4, VjRequeue ''j'' 9]" by simp
  from verification_reads_reproducible [OF this] show ?thesis by blast
qed

section \<open>Completion\<close>

lemma complete_status:
  assumes "vj_complete_result H J jid w res now db = Inr (row, db')"
  obtains j where "job_row jid db = Some j" "vr_claim_id res = vj_claim_id j"
    "vr_status res \<notin> {''VERIFICATION_PENDING'', ''LEASED'', ''MANUAL_REVIEW''}"
  using assms by (auto simp: vj_complete_result_def Let_def split: if_splits option.splits)

lemma persist_fresh:
  assumes "row_get vx_verification_id (vx_verification_id values) (vd_results db) = None"
  shows "persist_result values db = Inr (values, db\<lparr>vd_results := vd_results db @ [values]\<rparr>)"
  using assms by (simp add: persist_result_def Let_def insert_result_ignore_def row_add_def row_get_append
      same_immutable_def same_dict_def)

text \<open>What completing a job whose result is new stores.\<close>

lemma complete_fresh:
  assumes "vj_complete_result H J jid w res now db = Inr (row, db')" and "job_row jid db = Some j"
    and "row_get vx_verification_id (job_verification_id_of H J (vj_claim_id j) (vj_provider j) res)
      (vd_results db) = None"
  shows "row = completion_row H J j (res\<lparr>vr_available_at := Some (result_available_at res now)\<rparr>) now \<and>
    vd_results db' = vd_results db @ [row] \<and> vd_jobs db' = row_put vj_job_id (vj_completed (vr_status res) j) (vd_jobs db)"
proof -
  let ?fresh = "completion_row H J j (res\<lparr>vr_available_at := Some (result_available_at res now)\<rparr>) now"
  have "persist_result ?fresh db = Inr (?fresh, db\<lparr>vd_results := vd_results db @ [?fresh]\<rparr>)"
    by (rule persist_fresh) (use assms(3) in \<open>simp add: completion_row_def\<close>)
  with assms show ?thesis
    by (auto simp: vj_complete_result_def Let_def try_bind_Inr_iff put_job_def split: if_splits)
qed

lemma complete_existing:
  assumes "job_row jid db = Some j" and "vr_claim_id res = vj_claim_id j"
    and "vr_status res \<notin> {''VERIFICATION_PENDING'', ''LEASED'', ''MANUAL_REVIEW''}"
    and "row_get vx_verification_id (job_verification_id_of H J (vj_claim_id j) (vj_provider j) res)
      (vd_results db) = Some row"
    and "same_immutable row ((completion_row H J j res now)\<lparr>vx_available_at := vx_available_at row,
           vx_result_payload := vx_result_payload row\<rparr>)"
  shows "vj_complete_result H J jid w res now db = Inr (row, put_job (vj_completed (vr_status res) j) db)"
  using assms
  by (simp add: vj_complete_result_def Let_def persist_result_def insert_result_ignore_def
      completion_row_def same_immutable_def)

text \<open>
  Completing a job is idempotent, first writer wins. Once a worker has stored the result of a
  job, any later completion of that job with the same result (by any worker, at any later time,
  after any other calls that do not change the job's claim) stores nothing new and returns the row
  as first stored, with its first availability time.
\<close>

theorem verification_completion_idempotent:
  assumes "vj_complete_result H J jid w res now db = Inr (row, db')"
    and "job_row jid db = Some j"
    and "vj_get_result (job_verification_id_of H J (vj_claim_id j) (vj_provider j) res) db = None"
    and "job_row jid (run_ops (vj_step H J) db' ops) = Some j'"
    and "vj_claim_id j' = vj_claim_id j" and "vj_provider j' = vj_provider j"
  shows "\<exists>db''. vj_complete_result H J jid w' res now' (run_ops (vj_step H J) db' ops) = Inr (row, db'') \<and>
    vd_results db'' = vd_results (run_ops (vj_step H J) db' ops) \<and>
    vx_available_at row = Some (result_available_at res now)"
proof -
  let ?db = "run_ops (vj_step H J) db' ops"
  let ?r = "res\<lparr>vr_available_at := Some (result_available_at res now)\<rparr>"
  have vid: "job_verification_id_of H J (vj_claim_id j') (vj_provider j') res =
      job_verification_id_of H J (vj_claim_id j) (vj_provider j) res" using assms(5,6) by simp
  note fresh = complete_fresh [OF assms(1,2) assms(3) [unfolded vj_get_result_def]]
  have row: "row = completion_row H J j ?r now" using fresh by simp
  have "row_get vx_verification_id (vx_verification_id row) (vd_results db') = Some row"
    using fresh assms(3) by (simp add: row_get_append vj_get_result_def completion_row_def row)
  moreover have "\<exists>t. list_all (\<lambda>op. t \<le> vj_time op) ops"
    by (induction ops) (auto simp: list_all_iff, meson nle_le order_trans)
  then obtain new where "vd_results ?db = vd_results db' @ new"
    using vj_run_grows [of _ ops db' H J] by (auto simp: grows_def)
  ultimately have got: "row_get vx_verification_id
      (job_verification_id_of H J (vj_claim_id j') (vj_provider j') res) (vd_results ?db) = Some row"
    by (simp add: vid row_get_append row completion_row_def)
  obtain ok: "vr_claim_id res = vj_claim_id j'"
    "vr_status res \<notin> {''VERIFICATION_PENDING'', ''LEASED'', ''MANUAL_REVIEW''}"
    using assms(2,5) by (rule_tac complete_status [OF assms(1)]) auto
  have "same_immutable row ((completion_row H J j' res now')\<lparr>vx_available_at := vx_available_at row,
      vx_result_payload := vx_result_payload row\<rparr>)"
    using assms(5,6) by (simp add: same_immutable_def row completion_row_def same_dict_def)
  from complete_existing [OF assms(4) ok got this, of w']
  have "vj_complete_result H J jid w' res now' ?db = Inr (row, put_job (vj_completed (vr_status res) j') ?db)" .
  moreover have "vx_available_at row = Some (result_available_at res now)"
    by (simp add: row completion_row_def result_available_at_def max_def split: option.splits)
  ultimately show ?thesis by (simp add: put_job_def)
qed

definition example_leased :: vdb where
  "example_leased = snd (vj_claim_due {} ''w'' 5 60 1 example_vdb)"

lemma example_leased_eq:
  "example_leased = \<lparr>vd_jobs = [vj_seize ''w'' 60 1 (vj_new_job ''c1'' ''quant'' None 0)], vd_results = []\<rparr>"
  by (simp add: example_leased_def example_vdb_eq vj_claim_due_def vj_due_def vj_eligible_def vj_past_def
      vj_new_job_def vj_seize_def row_put_def Let_def)

lemma example_completed:
  "\<exists>row db'. vj_complete_result (\<lambda>s. s) isoformat (job_id_for ''c1'' ''quant'') ''w''
     (plain_result ''c1'' ''NOT_VERIFIABLE'') 2 example_leased = Inr (row, db') \<and>
     job_row (job_id_for ''c1'' ''quant'') db' =
       Some (vj_completed ''NOT_VERIFIABLE'' (vj_seize ''w'' 60 1 (vj_new_job ''c1'' ''quant'' None 0)))"
  by (simp add: example_leased_eq vj_complete_result_def plain_result_def job_row_def vj_seize_def
      vj_new_job_def vj_assert_owner_def persist_fresh Let_def seconds_def second_us_def completion_row_def
      put_job_def row_put_def vj_completed_def)

theorem verification_completion_idempotent_witness:
  "\<exists>row db' db''. vj_complete_result (\<lambda>s. s) isoformat (job_id_for ''c1'' ''quant'') ''w''
       (plain_result ''c1'' ''NOT_VERIFIABLE'') 2 example_leased = Inr (row, db') \<and>
     vj_complete_result (\<lambda>s. s) isoformat (job_id_for ''c1'' ''quant'') ''late''
       (plain_result ''c1'' ''NOT_VERIFIABLE'') 99 db' = Inr (row, db'')"
proof -
  obtain row db' where c: "vj_complete_result (\<lambda>s. s) isoformat (job_id_for ''c1'' ''quant'') ''w''
      (plain_result ''c1'' ''NOT_VERIFIABLE'') 2 example_leased = Inr (row, db')"
    and j': "job_row (job_id_for ''c1'' ''quant'') db' =
      Some (vj_completed ''NOT_VERIFIABLE'' (vj_seize ''w'' 60 1 (vj_new_job ''c1'' ''quant'' None 0)))"
    using example_completed by blast
  have j: "job_row (job_id_for ''c1'' ''quant'') example_leased =
      Some (vj_seize ''w'' 60 1 (vj_new_job ''c1'' ''quant'' None 0))"
    by (simp add: example_leased_eq job_row_def vj_seize_def vj_new_job_def)
  have n: "vj_get_result vid example_leased = None" for vid
    by (simp add: example_leased_eq vj_get_result_def)
  from verification_completion_idempotent [OF c j n, of "[]", unfolded run_ops_simps, OF j', of "''late''" 99] c
  show ?thesis by (auto simp: vj_completed_def)
qed

section \<open>Leases on jobs\<close>

text \<open>The part of a job that leases are about; enqueueing again may fill in its trace id.\<close>

definition lease_part :: "vjob \<Rightarrow> vjob" where
  "lease_part j = j\<lparr>vj_trace_id := None\<rparr>"

definition vj_owns :: "vjob \<Rightarrow> string \<Rightarrow> instant \<Rightarrow> bool" where
  "vj_owns j w now \<longleftrightarrow> vj_assert_owner (Some j) w now = Inr j"

definition vj_expiry :: "vjob \<Rightarrow> instant option" where
  "vj_expiry j = map_option instant_of (vj_lease_expires_at j)"

lemma vj_owns_iff:
  "vj_owns j w now \<longleftrightarrow> vj_status j = ''LEASED'' \<and> vj_lease_owner j = Some w \<and>
     (\<forall>e. vj_expiry j = Some e \<longrightarrow> now < e)"
  by (auto simp: vj_owns_def vj_assert_owner_def vj_expiry_def split: option.splits)

lemma vj_assert_owner_iff: "vj_assert_owner row w now = Inr j \<longleftrightarrow> row = Some j \<and> vj_owns j w now"
  by (auto simp: vj_assert_owner_def vj_owns_def split: option.splits if_splits)

lemma lease_part_simps [simp]:
  "vj_owns (lease_part j) w now = vj_owns j w now"
  "vj_eligible (lease_part j) now = vj_eligible j now"
  "vj_expiry (lease_part j) = vj_expiry j"
  "lease_part (vj_seize w ls now j) = vj_seize w ls now (lease_part j)"
  "vj_job_id (lease_part j) = vj_job_id j"
  by (simp_all add: vj_owns_iff vj_eligible_def vj_expiry_def lease_part_def vj_seize_def)

lemma vj_ids [simp]:
  "vj_job_id (vj_seize w ls now j) = vj_job_id j" "vj_job_id (vj_completed st j) = vj_job_id j"
  "vj_job_id (vj_reviewed why j) = vj_job_id j"
  by (simp_all add: vj_seize_def vj_completed_def vj_reviewed_def)

lemma vj_retried_id: "vj_retried err now j = Inr j' \<Longrightarrow> vj_job_id j' = vj_job_id j"
  by (auto simp: vj_retried_def Let_def split: if_splits)

definition vj_invar :: "vdb \<Rightarrow> bool" where
  "vj_invar db \<longleftrightarrow> keys_distinct vj_job_id (vd_jobs db)"

definition lease_row :: "vdb \<Rightarrow> string \<Rightarrow> vjob option" where
  "lease_row db k = map_option lease_part (job_row k db)"

lemma vj_invar_put [simp]: "vj_invar (put_job j db) = vj_invar db"
  by (simp add: vj_invar_def put_job_def)

lemma vj_invar_results [simp]:
  "vj_invar (insert_result_ignore r db) = vj_invar db"
  "job_row k (insert_result_ignore r db) = job_row k db"
  by (simp_all add: vj_invar_def insert_result_ignore_def job_row_def)

lemma job_row_put:
  "job_row k (put_job j db) = (if k = vj_job_id j then map_option (\<lambda>_. j) (job_row k db) else job_row k db)"
  by (simp add: job_row_def put_job_def row_get_put)

lemma enqueue_verifiable_row:
  assumes "enqueue_verifiable p tr now c db = Inr (new, db')" and "vj_invar db"
  shows "vj_invar db' \<and> (\<forall>k x. lease_row db k = Some x \<longrightarrow> lease_row db' k = Some x)"
proof -
  obtain inserted db1 row where ins: "insert_job_ignore (vj_new_job (fc_claim_id c) p tr now) db = Inr (inserted, db1)"
    and row: "find (\<lambda>j. vj_claim_id j = fc_claim_id c \<and> vj_provider j = p) (vd_jobs db1) = Some row"
    and db': "db' = put_job (if truthy tr \<and> \<not> truthy (vj_trace_id row) then row\<lparr>vj_trace_id := tr\<rparr> else row) db1"
    using assms(1) by (auto simp: enqueue_verifiable_def try_bind_Inr_iff Let_def split: option.splits)
  have inv1: "vj_invar db1" and keep: "job_row k db = Some x \<Longrightarrow> job_row k db1 = Some x" for k x
    using ins assms(2)
    by (auto simp: insert_job_ignore_def vj_invar_def keys_distinct_add job_row_def row_get_add split: if_splits)
  have "row \<in> set (vd_jobs db1)" using find_Some_in [OF row] by simp
  then have got: "job_row (vj_job_id row) db1 = Some row"
    using inv1 by (simp add: vj_invar_def job_row_def row_get_member)
  then have "lease_row db' k = lease_row db1 k" for k
    by (auto simp: lease_row_def db' job_row_put lease_part_def)
  with inv1 keep show ?thesis by (auto simp: db' lease_row_def)
qed

lemma enqueue_unverifiable_row:
  "enqueue_unverifiable H J p tr now c db = Inr db' \<Longrightarrow> vj_invar db' = vj_invar db \<and> lease_row db' k = lease_row db k"
  using enqueue_unverifiable_grows [of H J p tr now c db db'] by (simp add: vj_invar_def lease_row_def job_row_def)

lemma enqueue_row:
  assumes "vj_enqueue H J cs p tr now db = Inr (created, db')" and "vj_invar db"
  shows "vj_invar db' \<and> (\<forall>k x. lease_row db k = Some x \<longrightarrow> lease_row db' k = Some x)"
proof -
  let ?I = "\<lambda>s. vj_invar (snd s) \<and> (\<forall>k x. lease_row db k = Some x \<longrightarrow> lease_row (snd s) k = Some x)"
  have "?I (created, db')"
  proof (rule foldM_invariant [OF assms(1) [unfolded vj_enqueue_def], where I = ?I])
    show "?I ([], db)" using assms(2) by simp
  next
    fix s c u
    assume s: "?I s" and u: "(\<lambda>(created, db) claim.
       if \<not> is_quant_verifiable claim
       then try_bind (enqueue_unverifiable H J p tr now claim db) (\<lambda>db'. Inr (created, db'))
       else try_bind (enqueue_verifiable p tr now claim db)
              (\<lambda>(new, db'). Inr (created @ new, db'))) s c = Inr u"
    show "?I u"
    proof (cases "is_quant_verifiable c")
      case True
      with u obtain new where "enqueue_verifiable p tr now c (snd s) = Inr (new, snd u)"
        by (cases s) (auto simp: try_bind_Inr_iff)
      from enqueue_verifiable_row [OF this] s show ?thesis by blast
    next
      case False
      with u have "enqueue_unverifiable H J p tr now c (snd s) = Inr (snd u)"
        by (cases s) (auto simp: try_bind_Inr_iff)
      from enqueue_unverifiable_row [OF this] s show ?thesis by simp
    qed
  qed
  then show ?thesis by simp
qed

text \<open>What a call does to the lease part of a stored job.\<close>

inductive vj_effect :: "vj_op \<Rightarrow> vjob \<Rightarrow> vjob \<Rightarrow> bool" where
  seized: "vj_eligible j now \<Longrightarrow> vj_effect (VjClaim locked w limit ls now) j (vj_seize w ls now j)"
| renewed: "vj_owns j w now \<Longrightarrow> vj_job_id j = jid \<Longrightarrow>
    vj_effect (VjRenew jid w ls now) j (j\<lparr>vj_lease_expires_at := Some (Aware (now + seconds ls) 0)\<rparr>)"
| retried: "vj_owns j w now \<Longrightarrow> vj_job_id j = jid \<Longrightarrow> vj_retried err now j = Inr j' \<Longrightarrow>
    vj_effect (VjRetry jid w err now) j j'"
| reviewed: "vj_owns j w now \<Longrightarrow> vj_job_id j = jid \<Longrightarrow>
    vj_effect (VjManual jid w why now) j (vj_reviewed why j)"
| requeued: "vj_job_id j = jid \<Longrightarrow>
    vj_effect (VjRequeue jid now) j (j\<lparr>vj_status := ''VERIFICATION_PENDING'',
      vj_next_retry_at := Some (Aware now 0), vj_lease_owner := None, vj_lease_expires_at := None,
      vj_last_error := None\<rparr>)"
| completed: "vj_job_id j = jid \<Longrightarrow> vj_effect (VjComplete jid w res now) j (vj_completed (vr_status res) j)"

lemma vj_due_subset:
  "j \<in> set (vj_due locked limit now jobs) \<Longrightarrow> j \<in> set jobs \<and> vj_eligible j now \<and> vj_job_id j \<notin> locked"
  by (auto simp: vj_due_def dest: in_set_takeD)

lemma vj_claim_row:
  assumes "vj_invar db" and "job_row k db = Some j"
  shows "job_row k (snd (vj_claim_due locked w limit ls now db)) =
     Some (if j \<in> set (vj_due locked limit now (vd_jobs db)) then vj_seize w ls now j else j)"
  using row_get_batch [of vj_job_id "vd_jobs db" k j "vj_due locked limit now (vd_jobs db)" "vj_seize w ls now"]
    assms vj_due_subset
  by (fastforce simp: vj_claim_due_def Let_def job_row_def vj_invar_def)

lemma vj_renew_iff:
  "vj_renew jid w ls now db = Inr db' \<longleftrightarrow> (\<exists>j. job_row jid db = Some j \<and> vj_owns j w now \<and>
     db' = put_job (j\<lparr>vj_lease_expires_at := Some (Aware (now + seconds ls) 0)\<rparr>) db)"
  by (auto simp: vj_renew_def try_bind_Inr_iff vj_assert_owner_iff)

lemma vj_mark_retry_iff:
  "vj_mark_retry jid w err now db = Inr (j', db') \<longleftrightarrow> (\<exists>j. job_row jid db = Some j \<and> vj_owns j w now \<and>
     vj_retried err now j = Inr j' \<and> db' = put_job j' db)"
  by (auto simp: vj_mark_retry_def try_bind_Inr_iff vj_assert_owner_iff)

lemma vj_manual_iff:
  "vj_mark_manual_review jid w why now db = Inr (j', db') \<longleftrightarrow> (\<exists>j. job_row jid db = Some j \<and>
     vj_owns j w now \<and> j' = vj_reviewed why j \<and> db' = put_job j' db)"
  by (auto simp: vj_mark_manual_review_def try_bind_Inr_iff vj_assert_owner_iff)

lemma complete_job:
  assumes "vj_complete_result H J jid w res now db = Inr (row, db')"
  shows "\<exists>j. job_row jid db = Some j \<and> vd_jobs db' = vd_jobs (put_job (vj_completed (vr_status res) j) db)"
  using assms
  by (auto simp: vj_complete_result_def Let_def try_bind_Inr_iff put_job_def insert_result_ignore_def
      split: if_splits option.splits dest!: grows_persist)

lemma vj_invar_step: "vj_invar db \<Longrightarrow> vj_invar (vj_step H J db op)"
proof (cases "vj_apply H J db op")
  case (Inr db')
  assume inv: "vj_invar db"
  have "vj_invar db'"
  proof (cases op)
    case (VjEnqueue cs p tr now)
    with Inr inv enqueue_row show ?thesis by (auto simp: try_bind_Inr_iff)
  next
    case (VjComplete jid w res now)
    with Inr obtain row where "vj_complete_result H J jid w res now db = Inr (row, db')"
      by (auto simp: try_bind_Inr_iff)
    from complete_job [OF this] inv show ?thesis by (auto simp: vj_invar_def put_job_def)
  next
    case (VjClaim locked w limit ls now)
    with Inr inv show ?thesis by (auto simp: vj_claim_due_def Let_def vj_invar_def)
  qed (use Inr inv in \<open>auto simp: vj_renew_iff vj_mark_retry_iff vj_manual_iff vj_requeue_def try_bind_Inr_iff
        Let_def split: option.splits\<close>)
  then show ?thesis by (simp add: vj_step_def Inr)
qed (simp add: vj_step_def)

lemma job_row_id: "job_row jid db = Some j \<Longrightarrow> vj_job_id j = jid"
  by (auto simp: job_row_def dest: row_get_Some_key)

lemma put_job_moved:
  assumes "job_row jid db = Some j0" and "job_row k db = Some j"
    and "vd_jobs db' = vd_jobs (put_job j' db)" and "vj_job_id j' = vj_job_id j0" and "vj_effect op j0 j'"
  shows "lease_row db' k = lease_row db k \<or> (\<exists>x. job_row k db' = Some x \<and> vj_effect op j x)"
proof -
  have "job_row k db' = job_row k (put_job j' db)" using assms(3) by (simp add: job_row_def)
  with assms job_row_id [OF assms(1)] show ?thesis
    by (cases "k = jid") (auto simp: job_row_put lease_row_def)
qed

lemma vj_step_row:
  assumes "vj_invar db" and "job_row k db = Some j"
  shows "lease_row (vj_step H J db op) k = lease_row db k \<or>
    (\<exists>j'. job_row k (vj_step H J db op) = Some j' \<and> vj_effect op j j')"
proof (cases "vj_apply H J db op")
  case (Inl e)
  then show ?thesis by (simp add: vj_step_def)
next
  case (Inr db')
  have "lease_row db' k = lease_row db k \<or> (\<exists>j'. job_row k db' = Some j' \<and> vj_effect op j j')"
  proof (cases op)
    case (VjEnqueue cs p tr now)
    with Inr obtain created where "vj_enqueue H J cs p tr now db = Inr (created, db')"
      by (auto simp: try_bind_Inr_iff)
    from enqueue_row [OF this assms(1)] assms(2) show ?thesis by (simp add: lease_row_def)
  next
    case (VjClaim locked w limit ls now)
    then have db': "db' = snd (vj_claim_due locked w limit ls now db)" using Inr by simp
    show ?thesis
      using vj_claim_row [OF assms, of locked w limit ls now] assms(2) vj_due_subset VjClaim
      by (auto simp: db' lease_row_def intro: vj_effect.intros split: if_splits)
  next
    case (VjRenew jid w ls now)
    with Inr obtain j0 where a: "job_row jid db = Some j0" "vj_owns j0 w now"
      "vd_jobs db' = vd_jobs (put_job (j0\<lparr>vj_lease_expires_at := Some (Aware (now + seconds ls) 0)\<rparr>) db)"
      by (auto simp: vj_renew_iff)
    show ?thesis
      by (rule put_job_moved [OF a(1) assms(2) a(3)])
         (use a VjRenew job_row_id [OF a(1)] in \<open>auto intro: vj_effect.intros\<close>)
  next
    case (VjRetry jid w err now)
    with Inr obtain j0 j' where a: "job_row jid db = Some j0" "vj_owns j0 w now"
      "vd_jobs db' = vd_jobs (put_job j' db)" "vj_retried err now j0 = Inr j'"
      by (auto simp: vj_mark_retry_iff try_bind_Inr_iff)
    show ?thesis
      by (rule put_job_moved [OF a(1) assms(2) a(3)])
         (use a VjRetry job_row_id [OF a(1)] vj_retried_id in \<open>auto intro: vj_effect.intros\<close>)
  next
    case (VjManual jid w why now)
    with Inr obtain j0 where a: "job_row jid db = Some j0" "vj_owns j0 w now"
      "vd_jobs db' = vd_jobs (put_job (vj_reviewed why j0) db)"
      by (auto simp: vj_manual_iff try_bind_Inr_iff)
    show ?thesis
      by (rule put_job_moved [OF a(1) assms(2) a(3)])
         (use a VjManual job_row_id [OF a(1)] in \<open>auto intro: vj_effect.intros\<close>)
  next
    case (VjRequeue jid now)
    with Inr obtain j0 where a: "job_row jid db = Some j0" "vj_job_id j0 = jid"
      "vd_jobs db' = vd_jobs (put_job (j0\<lparr>vj_status := ''VERIFICATION_PENDING'',
        vj_next_retry_at := Some (Aware now 0), vj_lease_owner := None, vj_lease_expires_at := None,
        vj_last_error := None\<rparr>) db)"
      using job_row_id by (auto simp: vj_requeue_def try_bind_Inr_iff Let_def split: option.splits)
    show ?thesis
      by (rule put_job_moved [OF a(1) assms(2) a(3)])
         (use a VjRequeue job_row_id [OF a(1)] in \<open>auto intro: vj_effect.intros\<close>)
  next
    case (VjComplete jid w res now)
    with Inr obtain row j0 where a: "job_row jid db = Some j0" "vj_job_id j0 = jid"
      "vd_jobs db' = vd_jobs (put_job (vj_completed (vr_status res) j0) db)"
      using complete_job job_row_id by (fastforce simp: try_bind_Inr_iff)
    show ?thesis
      by (rule put_job_moved [OF a(1) assms(2) a(3)])
         (use a VjComplete job_row_id [OF a(1)] in \<open>auto intro: vj_effect.intros\<close>)
  qed
  then show ?thesis by (simp add: vj_step_def Inr)
qed

interpretation verification_queue:
  queue_table vj_eligible vj_seize vj_owns vj_expiry vj_invar lease_row "vj_step H J" vj_actor vj_admin
  for H J
proof
  fix d w now j
  show "0 < d \<Longrightarrow> vj_owns (vj_seize w d now j) w now"
    by (simp add: vj_owns_iff vj_seize_def vj_expiry_def time_simps)
  show "vj_expiry (vj_seize w d now j) = Some (now + seconds d)"
    by (simp add: vj_seize_def vj_expiry_def)
next
  fix j w now w' now'
  show "vj_owns j w now \<Longrightarrow> vj_owns j w' now' \<Longrightarrow> w = w'" by (simp add: vj_owns_iff)
next
  fix j w now e
  show "vj_owns j w now \<Longrightarrow> vj_expiry j = Some e \<Longrightarrow> now < e" by (simp add: vj_owns_iff)
  show "vj_expiry j = Some e \<Longrightarrow> now < e \<Longrightarrow> \<not> vj_eligible j now"
    by (auto simp: vj_eligible_def vj_expiry_def vj_past_def)
next
  fix db op
  show "vj_invar db \<Longrightarrow> vj_invar (vj_step H J db op)" by (rule vj_invar_step)
next
  fix db k j op
  assume inv: "vj_invar db" and j: "lease_row db k = Some j" and na: "\<not> vj_admin k op"
  then obtain j0 where j0: "job_row k db = Some j0" "j = lease_part j0" by (auto simp: lease_row_def)
  show "lease_row (vj_step H J db op) k = Some j \<or>
      (\<exists>w now. vj_actor op = Some (w, now) \<and> (vj_eligible j now \<or> vj_owns j w now))"
    using vj_step_row [OF inv j0(1), of H J op] na job_row_id [OF j0(1)]
    by (auto simp: j0 lease_row_def elim!: vj_effect.cases)
qed



text \<open>
  Retry schedule of verification. A failure recorded by the lease holder of a job with the
  default retry budget schedules the next attempt 60, 300, 1800, 7200 or 43200 seconds later and
  releases the lease; the sixth failure sends the job to manual review, where no claim finds it.
\<close>

theorem verification_retry_schedule:
  assumes "job_row jid db = Some j" and "vj_owns j w now" and "vj_max_retries j = 5" and "0 \<le> vj_retry_count j"
  shows "\<exists>j' db'. vj_mark_retry jid w err now db = Inr (j', db') \<and> job_row jid db' = Some j' \<and>
    vj_retry_count j' = vj_retry_count j + 1 \<and> vj_lease_owner j' = None \<and> vj_last_error j' = Some err \<and>
    (if vj_retry_count j < 5
     then vj_status j' = ''VERIFICATION_PENDING'' \<and>
       (let next = now + seconds ([60, 300, 1800, 7200, 43200] ! nat (vj_retry_count j))
        in \<forall>t. vj_eligible j' t \<longleftrightarrow> next \<le> t)
     else vj_status j' = ''MANUAL_REVIEW'' \<and> (\<forall>t. \<not> vj_eligible j' t))"
proof -
  obtain j' where j': "vj_retried err now j = Inr j'"
    using assms(3,4) by (cases "vj_retried err now j") (auto simp: vj_retried_def vj_retry_schedule_def Let_def split: if_splits)
  then have "vj_mark_retry jid w err now db = Inr (j', put_job j' db)"
    using assms(1,2) by (simp add: vj_mark_retry_iff)
  moreover have "job_row jid (put_job j' db) = Some j'"
    using assms(1) vj_retried_id [OF j'] job_row_id [OF assms(1)] by (simp add: job_row_put)
  moreover have "vj_retry_count j' = vj_retry_count j + 1 \<and> vj_lease_owner j' = None \<and> vj_last_error j' = Some err"
    using j' by (auto simp: vj_retried_def Let_def split: if_splits)
  moreover have "if vj_retry_count j < 5
     then vj_status j' = ''VERIFICATION_PENDING'' \<and>
       (let next = now + seconds ([60, 300, 1800, 7200, 43200] ! nat (vj_retry_count j))
        in \<forall>t. vj_eligible j' t \<longleftrightarrow> next \<le> t)
     else vj_status j' = ''MANUAL_REVIEW'' \<and> (\<forall>t. \<not> vj_eligible j' t)"
    using j' assms(3,4)
    by (auto simp: vj_retried_def vj_retry_schedule_def Let_def vj_eligible_def vj_past_def split: if_splits)
  ultimately show ?thesis by blast
qed

theorem verification_retry_schedule_witness:
  "\<exists>j' db'. vj_mark_retry (job_id_for ''c1'' ''quant'') ''w'' ''timeout'' 5 example_leased = Inr (j', db') \<and>
     vj_retry_count j' = 1"
proof -
  let ?j = "vj_seize ''w'' 60 1 (vj_new_job ''c1'' ''quant'' None 0)"
  have j: "job_row (job_id_for ''c1'' ''quant'') example_leased = Some ?j"
    by (simp add: example_leased_eq job_row_def vj_seize_def vj_new_job_def)
  have o: "vj_owns ?j ''w'' 5"
    by (simp add: vj_owns_iff vj_seize_def vj_expiry_def seconds_def second_us_def)
  have m: "vj_max_retries ?j = 5" and c: "0 \<le> vj_retry_count ?j" and z: "vj_retry_count ?j = 0"
    by (simp_all add: vj_seize_def vj_new_job_def vj_retry_schedule_def)
  from verification_retry_schedule [OF j o m c] z show ?thesis by fastforce
qed

text \<open>
  Two defects the model shows. Requeueing a job that exhausted its retries does not reset the
  counter, so the next failure sends it straight back to manual review. And a completion whose
  result row exists already is accepted from a worker that does not own the job: it ends the live
  lease of whoever holds the job then.
\<close>

lemma requeue_keeps_retry_count:
  assumes "job_row jid db = Some j" and "vj_retry_count j = 6" and "vj_max_retries j = 5"
    and "vj_requeue jid now db = Inr (j1, db1)" and "vj_retried err now' (vj_seize w ls now j1) = Inr j2"
  shows "vj_status j1 = ''VERIFICATION_PENDING'' \<and> vj_status j2 = ''MANUAL_REVIEW''"
  using assms by (auto simp: vj_requeue_def vj_retried_def vj_seize_def Let_def)

lemma stale_completion_ends_lease:
  assumes "job_row jid db = Some j" and "vr_claim_id res = vj_claim_id j" and "vj_owns j w now" and "w' \<noteq> w"
    and "vr_status res \<notin> {''VERIFICATION_PENDING'', ''LEASED'', ''MANUAL_REVIEW''}"
    and "vj_get_result (job_verification_id_of H J (vj_claim_id j) (vj_provider j) res) db = Some row"
    and "same_immutable row ((completion_row H J j res now)\<lparr>vx_available_at := vx_available_at row,
           vx_result_payload := vx_result_payload row\<rparr>)"
  shows "\<not> vj_owns j w' now \<and> (\<exists>db'. vj_complete_result H J jid w' res now db = Inr (row, db') \<and>
    (\<forall>j'. job_row jid db' = Some j' \<longrightarrow> \<not> vj_owns j' w now))"
proof -
  have "\<not> vj_owns j w' now" using assms(3,4) by (auto simp: vj_owns_iff)
  moreover have "vj_complete_result H J jid w' res now db = Inr (row, put_job (vj_completed (vr_status res) j) db)"
    by (rule complete_existing [OF assms(1,2,5)]) (use assms(6,7) in \<open>simp_all add: vj_get_result_def\<close>)
  ultimately show ?thesis
    using job_row_id [OF assms(1)] assms(1) by (auto simp: job_row_put vj_owns_iff vj_completed_def)
qed

end
