(* ===== verification/Verification_Tables.thy ===== *)
theory Verification_Tables
  imports Verification_Job
begin

text \<open>
  The invariant of the verification tables, kept by every operation of the job repository and by the
  result a verification refresh stores (\<open>application/verification/transaction.py\<close>): ids are unique and
  derived from what they identify, and every stored payload is the dump of a valid result that agrees
  with the columns beside it. \<open>Initial_Verification\<close> adds the third writer, the plans of snapshots.
\<close>

section \<open>Well-formed tables\<close>

text \<open>
  A stored result is the dump of a valid result of the same claim and status under a nonempty id;
  a job has the id derived from its claim and provider.
\<close>

definition row_ok :: "(pydt \<Rightarrow> string) \<Rightarrow> vrow \<Rightarrow> bool" where
  "row_ok J x \<longleftrightarrow> vx_verification_id x \<noteq> [] \<and>
     (\<exists>r. vresult_init r = Inr r \<and> vr_claim_id r = vx_claim_id x \<and> vr_status r = vx_status x \<and>
       vx_result_payload x = vr_dump J r)"

text \<open>
  The columns of a stored result are those of the result in its payload, and its id is the digest of the
  claim, the provider and that result without its availability, as the job repository or the planner
  computes it (they differ in how they write non-ASCII text).
\<close>

definition row_columns :: "vrow \<Rightarrow> vresult \<Rightarrow> bool" where
  "row_columns x r \<longleftrightarrow>
     vx_claim_id x = vr_claim_id r \<and> vx_status x = vr_status r \<and>
     vx_market_snapshot_id x = vr_market_snapshot_id r \<and> vx_market_data_version x = vr_market_data_version r \<and>
     vx_fact_date x = vr_fact_date r \<and> vx_adjustment x = vr_adjustment r \<and>
     vx_verification_timestamp x = vr_verification_timestamp r \<and> vx_verified_at x = vr_verification_timestamp r \<and>
     vx_rule_version x = Some (vr_rule_version r) \<and> vx_available_at x \<noteq> None \<and>
     (vr_available_at r \<noteq> None \<longrightarrow> vx_available_at x = vr_available_at r)"

definition row_sound :: "(string \<Rightarrow> string) \<Rightarrow> (pydt \<Rightarrow> string) \<Rightarrow> vrow \<Rightarrow> bool" where
  "row_sound H J x \<longleftrightarrow>
     (\<exists>r. vresult_init r = Inr r \<and> vx_result_payload x = vr_dump J r \<and> row_columns x r \<and>
       (vx_verification_id x = job_verification_id_of H J (vx_claim_id x) (vx_provider x) r \<or>
        vx_verification_id x = plan_verification_id_of H J (vx_claim_id x) (vx_provider x) r))"

definition job_ok :: "vjob \<Rightarrow> bool" where
  "job_ok j \<longleftrightarrow> vj_job_id j = job_id_for (vj_claim_id j) (vj_provider j)"

definition vdb_ok :: "(pydt \<Rightarrow> string) \<Rightarrow> vdb \<Rightarrow> bool" where
  "vdb_ok J db \<longleftrightarrow> keys_distinct vj_job_id (vd_jobs db) \<and>
     keys_distinct vx_verification_id (vd_results db) \<and>
     (\<forall>j \<in> set (vd_jobs db). job_ok j) \<and> (\<forall>x \<in> set (vd_results db). row_ok J x)"

definition vdb_sound :: "(string \<Rightarrow> string) \<Rightarrow> (pydt \<Rightarrow> string) \<Rightarrow> vdb \<Rightarrow> bool" where
  "vdb_sound H J db \<longleftrightarrow> keys_distinct vj_job_id (vd_jobs db) \<and>
     keys_distinct vx_verification_id (vd_results db) \<and>
     (\<forall>j \<in> set (vd_jobs db). job_ok j) \<and> (\<forall>x \<in> set (vd_results db). row_sound H J x)"

lemma verification_ids_nonempty [simp]:
  "job_verification_id_of H J c p r \<noteq> []" "plan_verification_id_of H J c p r \<noteq> []"
  "[] \<noteq> job_verification_id_of H J c p r" "[] \<noteq> plan_verification_id_of H J c p r"
  by (simp_all add: job_verification_id_of_def plan_verification_id_of_def)

lemma row_sound_ok: "row_sound H J x \<Longrightarrow> row_ok J x"
  unfolding row_sound_def row_ok_def row_columns_def by auto

lemma vdb_sound_ok: "vdb_sound H J db \<Longrightarrow> vdb_ok J db"
  by (auto simp: vdb_sound_def vdb_ok_def intro: row_sound_ok)

lemma keys_distinct_add_iff:
  "keys_distinct key (row_add r rows) \<longleftrightarrow> keys_distinct key rows \<and> row_get key (key r) rows = None"
  by (auto simp: keys_distinct_def row_add_def row_get_None)

lemma set_row_add [simp]: "set (row_add r rows) = insert r (set rows)"
  by (auto simp: row_add_def)

lemma job_id_nonempty [simp]: "job_id_for c p \<noteq> []"
  by (simp add: job_id_for_def)

lemma vdb_sound_insert_result:
  assumes "vdb_sound H J db" and "row_sound H J x"
  shows "vdb_sound H J (insert_result_ignore x db)"
  using assms by (auto simp: vdb_sound_def insert_result_ignore_def keys_distinct_add_iff)

lemma vdb_sound_persist:
  assumes "persist_result x db = Inr (y, db')" and "vdb_sound H J db" and "row_sound H J x"
  shows "vdb_sound H J db'"
proof -
  have "db' = insert_result_ignore x db"
    using assms(1) by (auto simp: persist_result_def Let_def split: option.splits if_splits)
  then show ?thesis using assms(2,3) by (simp add: vdb_sound_insert_result)
qed

lemma vdb_sound_put_job:
  assumes "vdb_sound H J db" and "job_ok j"
  shows "vdb_sound H J (put_job j db)"
  using assms by (auto simp: vdb_sound_def put_job_def dest!: set_row_put)

lemma job_row_ok: "vdb_sound H J db \<Longrightarrow> job_row jid db = Some j \<Longrightarrow> job_ok j"
  using find_Some_in [of "\<lambda>r. vj_job_id r = jid" "vd_jobs db" j]
  by (auto simp: vdb_sound_def job_row_def row_get_def)

lemma job_ok_moves [simp]:
  "job_ok (vj_seize w ls now j) = job_ok j" "job_ok (vj_reviewed why j) = job_ok j"
  "job_ok (vj_completed st j) = job_ok j" "job_ok (j\<lparr>vj_lease_expires_at := e\<rparr>) = job_ok j"
  by (simp_all add: job_ok_def vj_seize_def vj_reviewed_def vj_completed_def)

lemma job_ok_retried: "vj_retried err now j = Inr j' \<Longrightarrow> job_ok j \<Longrightarrow> job_ok j'"
  by (auto simp: vj_retried_def job_ok_def Let_def split: if_splits)

lemma set_row_puts: "x \<in> set (foldl (\<lambda>t r. row_put key r t) tbl rs) \<Longrightarrow> x \<in> set rs \<or> x \<in> set tbl"
proof (induction rs arbitrary: tbl)
  case (Cons r rs)
  from Cons.IH [of "row_put key r tbl"] Cons.prems show ?case by (auto dest: set_row_put)
qed simp

lemma vdb_sound_claim_due: "vdb_sound H J db \<Longrightarrow> vdb_sound H J (snd (vj_claim_due locked w limit ls now db))"
  unfolding vj_claim_due_def Let_def snd_conv vdb_sound_def
  by (auto dest!: set_row_puts vj_due_subset)

lemma plain_result_row_sound:
  assumes "vx_verification_id x = job_verification_id_of H J c (vx_provider x) (plain_result c st)"
    and "vx_result_payload x = vr_dump J (plain_result c st)" and "vx_claim_id x = c" "row_columns x (plain_result c st)"
    and "st \<in> {''NOT_VERIFIABLE'', ''NOT_REQUIRED''}"
  shows "row_sound H J x"
  unfolding row_sound_def
  by (rule exI [of _ "plain_result c st"])
     (use assms in \<open>auto simp: plain_result_def vresult_init_def result_statuses_def bound_statuses_def\<close>)

lemma vdb_sound_enqueue_unverifiable:
  assumes "enqueue_unverifiable H J p tr now c db = Inr db'" and "vdb_sound H J db"
  shows "vdb_sound H J db'"
proof -
  obtain x where "db' = insert_result_ignore x db" and "row_sound H J x"
    using assms(1)
    by (auto simp: enqueue_unverifiable_def Let_def plain_result_row_sound row_columns_def plain_result_def
        split: option.splits if_splits)
  then show ?thesis using assms(2) by (simp add: vdb_sound_insert_result)
qed

lemma vdb_sound_enqueue_verifiable:
  assumes "enqueue_verifiable p tr now c db = Inr (new, db')" and "vdb_sound H J db"
  shows "vdb_sound H J db'"
proof -
  obtain inserted db1 row where ins: "insert_job_ignore (vj_new_job (fc_claim_id c) p tr now) db = Inr (inserted, db1)"
    and row: "find (\<lambda>j. vj_claim_id j = fc_claim_id c \<and> vj_provider j = p) (vd_jobs db1) = Some row"
    and db': "db' = put_job (if truthy tr \<and> \<not> truthy (vj_trace_id row) then row\<lparr>vj_trace_id := tr\<rparr> else row) db1"
    using assms(1) by (auto simp: enqueue_verifiable_def try_bind_Inr_iff Let_def split: option.splits)
  have "job_ok (vj_new_job (fc_claim_id c) p tr now)" by (simp add: job_ok_def vj_new_job_def)
  then have ok1: "vdb_sound H J db1" using ins assms(2)
    by (auto simp: insert_job_ignore_def vdb_sound_def keys_distinct_add_iff split: if_splits)
  then have "job_ok row" using find_Some_in [OF row] by (simp add: vdb_sound_def)
  then show ?thesis unfolding db' by (intro vdb_sound_put_job [OF ok1]) (simp add: job_ok_def)
qed

lemma vdb_sound_enqueue:
  assumes "vj_enqueue H J cs p tr now db = Inr (created, db')" and "vdb_sound H J db"
  shows "vdb_sound H J db'"
proof -
  have "(\<lambda>s. vdb_sound H J (snd s)) (created, db')"
  proof (rule foldM_invariant [OF assms(1) [unfolded vj_enqueue_def]])
    show "vdb_sound H J (snd ([], db))" using assms(2) by simp
  next
    fix s c u
    assume "vdb_sound H J (snd s)" and "(\<lambda>(created, db) claim.
        if \<not> is_quant_verifiable claim
        then try_bind (enqueue_unverifiable H J p tr now claim db) (\<lambda>db'. Inr (created, db'))
        else try_bind (enqueue_verifiable p tr now claim db) (\<lambda>(new, db'). Inr (created @ new, db'))) s c = Inr u"
    then show "vdb_sound H J (snd u)"
      by (cases s) (auto simp: try_bind_Inr_iff vdb_sound_enqueue_unverifiable vdb_sound_enqueue_verifiable split: if_splits)
  qed
  then show ?thesis by simp
qed

lemma result_available_max:
  "result_available_at (r\<lparr>vr_available_at := Some (result_available_at r now)\<rparr>) now = result_available_at r now"
  by (auto simp: result_available_at_def max_def split: option.splits)

lemma completion_row_sound:
  assumes "vresult_init r = Inr r" and "vr_claim_id r = vj_claim_id j" and "vr_available_at r = Some (result_available_at r now)"
  shows "row_sound H J (completion_row H J j r now)"
  unfolding row_sound_def
  by (intro exI [of _ r]) (use assms in \<open>simp_all add: completion_row_def row_columns_def\<close>)

lemma vresult_init_available:
  "vresult_init r = Inr r \<Longrightarrow> vresult_init (r\<lparr>vr_available_at := t\<rparr>) = Inr (r\<lparr>vr_available_at := t\<rparr>)"
  by (auto simp: vresult_init_def split: if_splits)

lemma vdb_sound_complete:
  assumes "vj_complete_result H J jid w res now db = Inr (row, db')" and "vdb_sound H J db" and "vresult_init res = Inr res"
  shows "vdb_sound H J db'"
proof -
  let ?r = "res\<lparr>vr_available_at := Some (result_available_at res now)\<rparr>"
  obtain j where j: "job_row jid db = Some j" "vr_claim_id ?r = vj_claim_id j"
    using assms(1) by (auto simp: vj_complete_result_def Let_def split: if_splits option.splits)
  let ?c = "completion_row H J j ?r now"
  have ok: "row_sound H J ?c" by (rule completion_row_sound [OF vresult_init_available [OF assms(3)] j(2)]) (simp add: result_available_max)
  have jok: "job_ok j" by (rule job_row_ok [OF assms(2) j(1)])
  show ?thesis
  proof (cases "row_get vx_verification_id (vx_verification_id ?c) (vd_results db)")
    case None
    then obtain db1 where "persist_result ?c db = Inr (row, db1)" "db' = put_job (vj_completed (vr_status ?r) j) db1"
      using assms(1) j by (auto simp: vj_complete_result_def Let_def try_bind_Inr_iff completion_row_def split: if_splits)
    then show ?thesis using vdb_sound_persist [OF _ assms(2) ok] jok by (auto intro: vdb_sound_put_job)
  next
    case (Some existing)
    let ?v = "?c\<lparr>vx_available_at := vx_available_at existing, vx_result_payload := vx_result_payload existing\<rparr>"
    obtain db1 where p: "persist_result ?v db = Inr (row, db1)" and db': "db' = put_job (vj_completed (vr_status ?r) j) db1"
      using assms(1) j Some by (auto simp: vj_complete_result_def Let_def try_bind_Inr_iff completion_row_def split: if_splits)
    have "db1 = db" using p Some
      by (auto simp: persist_result_def insert_result_ignore_def Let_def split: if_splits)
    then show ?thesis unfolding db' using jok assms(2) by (auto intro: vdb_sound_put_job)
  qed
qed

text \<open>A completion hands in a constructed result, one its validators accepted.\<close>

fun vj_valid_op :: "vj_op \<Rightarrow> bool" where
  "vj_valid_op (VjComplete jid w res now) = (vresult_init res = Inr res)"
| "vj_valid_op _ = True"

lemma vdb_sound_step:
  assumes "vdb_sound H J db" and "vj_valid_op op"
  shows "vdb_sound H J (vj_step H J db op)"
proof (cases "vj_apply H J db op")
  case (Inr db')
  have "vdb_sound H J db'"
  proof (cases op)
    case (VjEnqueue cs p tr now)
    with Inr assms(1) vdb_sound_enqueue show ?thesis by (auto simp: try_bind_Inr_iff)
  next
    case (VjComplete jid w res now)
    with Inr assms vdb_sound_complete show ?thesis by (auto simp: try_bind_Inr_iff)
  next
    case (VjClaim locked w limit ls now)
    with Inr assms(1) vdb_sound_claim_due [of H J db locked w limit ls now] show ?thesis by auto
  next
    case (VjRetry jid w err now)
    with Inr obtain j j' where "job_row jid db = Some j" "vj_retried err now j = Inr j'" "db' = put_job j' db"
      by (auto simp: vj_mark_retry_iff try_bind_Inr_iff)
    then show ?thesis using assms(1) job_row_ok job_ok_retried by (auto intro: vdb_sound_put_job)
  next
    case (VjRequeue jid now)
    with Inr obtain j where j: "job_row jid db = Some j"
      and db': "db' = put_job (j\<lparr>vj_status := ''VERIFICATION_PENDING'', vj_next_retry_at := Some (Aware now 0),
          vj_lease_owner := None, vj_lease_expires_at := None, vj_last_error := None\<rparr>) db"
      by (auto simp: vj_requeue_def try_bind_Inr_iff Let_def split: option.splits)
    show ?thesis unfolding db'
      by (rule vdb_sound_put_job [OF assms(1)]) (use job_row_ok [OF assms(1) j] in \<open>simp add: job_ok_def\<close>)
  qed (use Inr assms(1) job_row_ok in \<open>auto simp: vj_renew_iff vj_manual_iff try_bind_Inr_iff intro!: vdb_sound_put_job\<close>)
  then show ?thesis by (simp add: vj_step_def Inr)
qed (simp add: vj_step_def assms(1))

lemma vdb_sound_run:
  assumes "vdb_sound H J db" and "list_all vj_valid_op ops"
  shows "vdb_sound H J (run_ops (vj_step H J) db ops)"
  using assms
proof (induction ops arbitrary: db)
  case (Cons op ops)
  from Cons.prems have "vdb_sound H J (vj_step H J db op)" by (intro vdb_sound_step) simp_all
  with Cons show ?case by simp
qed simp

section \<open>The result of a refresh\<close>

text \<open>
  What a verification refresh stores of a result, in the transaction that builds its snapshot: the result
  row under its derived id, and the terminal status of the job. A refresh whose later steps fail is rolled
  back.
\<close>

definition refresh_result ::
  "(string \<Rightarrow> string) \<Rightarrow> (pydt \<Rightarrow> string) \<Rightarrow> string \<Rightarrow> string \<Rightarrow> vresult \<Rightarrow> instant \<Rightarrow> vdb \<Rightarrow> (vrow \<times> vdb) result" where
  "refresh_result H J jid worker res now db =
     (if vr_status res \<in> {''VERIFICATION_PENDING'', ''NOT_REQUIRED''}
      then Inl (JobIntegrityError ''verification refresh requires a terminal external result'')
      else case job_row jid db of
        None \<Rightarrow> Inl (KeyError ''verification job not found'')
      | Some j \<Rightarrow>
          if vr_claim_id res \<noteq> vj_claim_id j
          then Inl (JobIntegrityError ''result claim does not match leased job'')
          else (let available = result_available_at res now;
                    values = (completion_row H J j (res\<lparr>vr_available_at := Some available\<rparr>) now)\<lparr>vx_available_at := Some available\<rparr>;
                    existing = row_get vx_verification_id (vx_verification_id values) (vd_results db);
                    values' = (case existing of
                        None \<Rightarrow> values
                      | Some e \<Rightarrow> (case vx_available_at e of
                            None \<Rightarrow> values
                          | Some a \<Rightarrow> values\<lparr>vx_available_at := Some (to_utc a),
                              vx_result_payload := vr_dump J (res\<lparr>vr_available_at := Some (to_utc a)\<rparr>)\<rparr>))
                in if existing = None \<and> (vj_lease_owner j \<noteq> Some worker \<or> vj_status j \<noteq> ''LEASED'')
                   then Inl (JobIntegrityError ''verification job lease owner mismatch'')
                   else try_bind (persist_result values' db) (\<lambda>(row, db').
                          Inr (row, put_job (vj_completed (vr_status res) j) db'))))"

lemma vdb_sound_refresh:
  assumes "refresh_result H J jid w res now db = Inr (row, db')" and "vdb_sound H J db" and "vresult_init res = Inr res"
  shows "vdb_sound H J db'"
proof -
  let ?r = "res\<lparr>vr_available_at := Some (result_available_at res now)\<rparr>"
  obtain j where j: "job_row jid db = Some j" "vr_claim_id ?r = vj_claim_id j"
    using assms(1) by (auto simp: refresh_result_def split: if_splits option.splits)
  let ?c = "(completion_row H J j ?r now)\<lparr>vx_available_at := Some (result_available_at res now)\<rparr>"
  have c: "?c = completion_row H J j ?r now" by (simp add: completion_row_def result_available_max)
  have ok: "row_sound H J ?c" unfolding c
    by (rule completion_row_sound [OF vresult_init_available [OF assms(3)] j(2)]) (simp add: result_available_max)
  have jok: "job_ok j" by (rule job_row_ok [OF assms(2) j(1)])
  show ?thesis
  proof (cases "row_get vx_verification_id (vx_verification_id ?c) (vd_results db)")
    case None
    then obtain db1 where "persist_result ?c db = Inr (row, db1)" "db' = put_job (vj_completed (vr_status res) j) db1"
      using assms(1) j by (auto simp: refresh_result_def Let_def try_bind_Inr_iff split: if_splits)
    then show ?thesis using vdb_sound_persist [OF _ assms(2) ok] jok by (auto intro: vdb_sound_put_job)
  next
    case (Some existing)
    then obtain vals db1 where p: "persist_result vals db = Inr (row, db1)" "vx_verification_id vals = vx_verification_id ?c"
      and db': "db' = put_job (vj_completed (vr_status res) j) db1"
      using assms(1) j by (auto simp: refresh_result_def Let_def try_bind_Inr_iff split: if_splits option.splits)
    have "db1 = db" using persist_existing [OF p(1)] p(2) Some by simp
    then show ?thesis unfolding db' using jok assms(2) by (auto intro: vdb_sound_put_job)
  qed
qed

end
