(* ===== verification/Iso_Datetime.thy ===== *)
theory Iso_Datetime
  imports Datetime
begin

text \<open>
  \<open>datetime.fromisoformat\<close> of the standard library on the extended formats \<open>YYYY-MM-DD\<close> and
  \<open>YYYY-MM-DDTHH[:MM[:SS[.f]]][zone]\<close> with zone \<open>Z\<close> or a signed offset, which covers everything
  \<open>isoformat\<close> writes; the basic formats and week dates count as invalid here.
\<close>

definition iso_digit :: "char \<Rightarrow> bool" where
  "iso_digit c \<longleftrightarrow> 48 \<le> (of_char c :: nat) \<and> (of_char c :: nat) < 58"

definition numeral_of :: "string \<Rightarrow> int option" where
  "numeral_of s = (if s \<noteq> [] \<and> list_all iso_digit s then Some (int (str_nat s)) else None)"

definition two_digits :: "string \<Rightarrow> (int \<times> string) option" where
  "two_digits s = (if length s < 2 then None
     else map_option (\<lambda>n. (n, drop 2 s)) (numeral_of (take 2 s)))"

definition parse_date :: "string \<Rightarrow> (int \<times> int \<times> int) option" where
  "parse_date s =
     (if length s = 10 \<and> s ! 4 = CHR ''-'' \<and> s ! 7 = CHR ''-''
      then (case (numeral_of (take 4 s), numeral_of (take 2 (drop 5 s)), numeral_of (drop 8 s)) of
              (Some y, Some m, Some d) \<Rightarrow>
                if 1 \<le> y \<and> 1 \<le> m \<and> m \<le> 12 \<and> 1 \<le> d \<and> d \<le> 31 \<and> ord_to_ymd (ymd_to_ord (y, m, d)) = (y, m, d)
                then Some (y, m, d) else None
            | _ \<Rightarrow> None)
      else None)"

definition parse_fraction :: "string \<Rightarrow> int option" where
  "parse_fraction s =
     (case s of
        [] \<Rightarrow> Some 0
      | c # f \<Rightarrow> if c \<in> {CHR ''.'', CHR '',''} \<and> f \<noteq> [] \<and> list_all iso_digit f
                then Some (int (str_nat (take 6 (f @ ''000000'')))) else None)"

definition parse_clock :: "string \<Rightarrow> (int \<times> int \<times> int \<times> int) option" where
  "parse_clock s =
     (case two_digits s of
        None \<Rightarrow> None
      | Some (h, []) \<Rightarrow> Some (h, 0, 0, 0)
      | Some (h, c # s1) \<Rightarrow>
          if c \<noteq> CHR '':'' then None
          else (case two_digits s1 of
                  None \<Rightarrow> None
                | Some (mi, []) \<Rightarrow> Some (h, mi, 0, 0)
                | Some (mi, c # s2) \<Rightarrow>
                    if c \<noteq> CHR '':'' then None
                    else (case two_digits s2 of
                            None \<Rightarrow> None
                          | Some (se, f) \<Rightarrow> map_option (\<lambda>us. (h, mi, se, us)) (parse_fraction f))))"

definition clock_us :: "int \<times> int \<times> int \<times> int \<Rightarrow> int" where
  "clock_us hms = (case hms of (h, mi, se, us) \<Rightarrow> seconds (h * 3600 + mi * 60 + se) + us)"

definition invalid_iso :: "'a result" where
  "invalid_iso = Inl (ValueError ''Invalid isoformat string'')"

definition zone_char :: "char \<Rightarrow> bool" where
  "zone_char c \<longleftrightarrow> c \<in> {CHR ''+'', CHR ''-'', CHR ''Z''}"

definition with_zone :: "int \<Rightarrow> string \<Rightarrow> pydt result" where
  "with_zone wall zone =
     (case zone of
        [] \<Rightarrow> Inr (Naive wall)
      | c # z \<Rightarrow>
          if c = CHR ''Z'' then (if z = [] then Inr (Aware wall 0) else invalid_iso)
          else (case parse_clock z of
                  None \<Rightarrow> invalid_iso
                | Some hms \<Rightarrow>
                    (let off = (if c = CHR ''-'' then - clock_us hms else clock_us hms)
                     in if \<bar>off\<bar> < day_us then Inr (Aware (wall - off) off) else invalid_iso)))"

definition from_isoformat :: "string \<Rightarrow> pydt result" where
  "from_isoformat s =
     (case parse_date (take 10 s) of
        None \<Rightarrow> invalid_iso
      | Some ymd \<Rightarrow>
          (let day = (ymd_to_ord ymd - epoch_ordinal) * day_us; rest = drop 10 s
           in if length rest \<le> 1 then Inr (Naive day)
              else (case parse_clock (takeWhile (\<lambda>c. \<not> zone_char c) (tl rest)) of
                      None \<Rightarrow> invalid_iso
                    | Some (h, mi, se, us) \<Rightarrow>
                        if h < 24 \<and> mi < 60 \<and> se < 60
                        then with_zone (day + clock_us (h, mi, se, us)) (dropWhile (\<lambda>c. \<not> zone_char c) (tl rest))
                        else invalid_iso)))"

text \<open>The datetimes that the standard library has.\<close>

definition datetime_ok :: "pydt \<Rightarrow> bool" where
  "datetime_ok d \<longleftrightarrow> (case date_of d of (y, m, dd) \<Rightarrow> 1 \<le> y \<and> y \<le> 9999) \<and>
     (case d of Naive t \<Rightarrow> True | Aware t off \<Rightarrow> \<bar>off\<bar> < day_us)"

section \<open>Reading padded numbers back\<close>

lemma nat_str_length: "n < 10 ^ Suc w \<Longrightarrow> length (nat_str n) \<le> Suc w"
proof (induction w arbitrary: n)
  case 0
  then show ?case by (simp add: nat_str.simps)
next
  case (Suc w)
  show ?case
  proof (cases "n < 10")
    case False
    have "n div 10 < 10 ^ Suc w" using Suc.prems by (simp add: less_mult_imp_div_less)
    with Suc.IH False show ?thesis by (subst nat_str.simps) simp
  qed (simp add: nat_str.simps)
qed

lemma str_nat_zeros: "str_nat (replicate k (CHR ''0'') @ s) = str_nat s"
  by (induction k) (simp_all add: str_nat_def)

lemma pad_props:
  assumes "0 \<le> n" and "n < 10 ^ Suc w"
  shows "length (pad (Suc w) n) = Suc w" "list_all iso_digit (pad (Suc w) n)" "str_nat (pad (Suc w) n) = nat n"
proof -
  have s: "int_str n = nat_str (nat n)" using assms(1) by (simp add: int_str_def)
  have "nat n < 10 ^ Suc w" using assms by (simp add: nat_less_iff)
  then have "length (nat_str (nat n)) \<le> Suc w" by (rule nat_str_length)
  then show "length (pad (Suc w) n) = Suc w" by (simp add: pad_def s Let_def)
  show "list_all iso_digit (pad (Suc w) n)"
    using nat_str_digits [of "nat n"] by (auto simp: pad_def s Let_def list_all_iff iso_digit_def)
  show "str_nat (pad (Suc w) n) = nat n" by (simp add: pad_def s Let_def str_nat_zeros str_nat_nat_str)
qed

lemma pad_numeral:
  assumes "0 \<le> n" and "n < 10 ^ Suc w"
  shows "numeral_of (pad (Suc w) n) = Some n"
  using pad_props [OF assms] assms(1) by (auto simp: numeral_of_def)

lemma pad2:
  assumes "0 \<le> n" and "n < 100"
  shows "length (pad 2 n) = 2" "list_all iso_digit (pad 2 n)" "numeral_of (pad 2 n) = Some n"
  using pad_props [of n 1] pad_numeral [of n 1] assms by (simp_all add: numeral_2_eq_2)

lemma pad4:
  assumes "0 \<le> n" and "n < 10000"
  shows "length (pad 4 n) = 4" "numeral_of (pad 4 n) = Some n"
  using pad_props [of n 3] pad_numeral [of n 3] assms by (simp_all add: eval_nat_numeral)

lemma pad6:
  assumes "0 \<le> n" and "n < 1000000"
  shows "length (pad 6 n) = 6" "list_all iso_digit (pad 6 n)" "str_nat (pad 6 n) = nat n"
  using pad_props [of n 5] assms by (simp_all add: eval_nat_numeral)

lemma two_digits_pad: "0 \<le> n \<Longrightarrow> n < 100 \<Longrightarrow> two_digits (pad 2 n @ s) = Some (n, s)"
  using pad2 [of n] by (simp add: two_digits_def)

section \<open>The round trip\<close>

lemma hms_seconds:
  fixes s :: int
  shows "s div 3600 * 3600 + s div 60 mod 60 * 60 + s mod 60 = s"
proof -
  have "s div 3600 = s div 60 div 60" by (simp add: zdiv_zmult2_eq [symmetric])
  then show ?thesis using div_mult_mod_eq [of s 60] div_mult_mod_eq [of "s div 60" 60] by linarith
qed

definition clock_text :: "int \<Rightarrow> int \<Rightarrow> int \<Rightarrow> int \<Rightarrow> string" where
  "clock_text h mi se us = pad 2 h @ '':'' @ pad 2 mi @ '':'' @ pad 2 se @ (if us = 0 then [] else ''.'' @ pad 6 us)"

lemma parse_fraction_text:
  "0 \<le> us \<Longrightarrow> us < 1000000 \<Longrightarrow> parse_fraction (if us = 0 then [] else ''.'' @ pad 6 us) = Some us"
  using pad6 [of us] by (cases "pad 6 us") (auto simp: parse_fraction_def)

lemma parse_clock_text:
  assumes "0 \<le> h" "h < 100" "0 \<le> mi" "mi < 100" "0 \<le> se" "se < 100" "0 \<le> us" "us < 1000000"
  shows "parse_clock (clock_text h mi se us) = Some (h, mi, se, us)"
  using assms parse_fraction_text [of us]
  by (simp add: parse_clock_def clock_text_def two_digits_pad)

lemma parse_clock_short:
  assumes "0 \<le> h" "h < 100" "0 \<le> mi" "mi < 100"
  shows "parse_clock (pad 2 h @ '':'' @ pad 2 mi) = Some (h, mi, 0, 0)"
  using assms two_digits_pad [of mi "[]"] by (simp add: parse_clock_def two_digits_pad)

lemma digit_not_zone: "iso_digit c \<Longrightarrow> \<not> zone_char c"
  by (auto simp: iso_digit_def zone_char_def)

lemma clock_text_no_zone:
  assumes "0 \<le> h" "h < 100" "0 \<le> mi" "mi < 100" "0 \<le> se" "se < 100" "0 \<le> us" "us < 1000000"
  shows "list_all (\<lambda>c. \<not> zone_char c) (clock_text h mi se us)"
  using pad2(2) [of h] pad2(2) [of mi] pad2(2) [of se] pad6(2) [of us] assms
  by (auto simp: clock_text_def list_all_iff digit_not_zone) (auto simp: zone_char_def)

lemma ord_to_ymd_bounds:
  assumes "ord_to_ymd n = (y, m, d)"
  shows "1 \<le> m \<and> m \<le> 12 \<and> 1 \<le> d \<and> d \<le> 31"
proof -
  define r1 where "r1 = (((n - 1) mod 146097) mod 36524) mod 1461 mod 365"
  have r1: "0 \<le> r1" "r1 < 365" by (simp_all add: r1_def)
  have leap: "r1 < 365 + (if l then 1 else 0)" for l using r1(2) by simp
  have "(m, d) = (12, 31) \<or> (\<exists>leap. month_day leap r1 = (m, d))"
    using assms unfolding ord_to_ymd_def Let_def r1_def
    by (auto split: if_splits prod.splits)
  then show ?thesis using month_day_ordinal [OF r1(1) leap] by auto
qed

lemma parse_date_text:
  assumes "ord_to_ymd n = (y, m, d)" and "1 \<le> y" "y \<le> 9999"
  shows "parse_date (date_str (y, m, d)) = Some (y, m, d) \<and> length (date_str (y, m, d)) = 10"
proof -
  note b = ord_to_ymd_bounds [OF assms(1)]
  have len: "length (pad 4 y) = 4" "length (pad 2 m) = 2" "length (pad 2 d) = 2"
    using pad4(1) [of y] pad2(1) [of m] pad2(1) [of d] assms b by simp_all
  have num: "numeral_of (pad 4 y) = Some y" "numeral_of (pad 2 m) = Some m" "numeral_of (pad 2 d) = Some d"
    using pad4(2) [of y] pad2(3) [of m] pad2(3) [of d] assms b by simp_all
  have "ymd_to_ord (y, m, d) = n" using ymd_to_ord_to_ymd [of n] assms(1) by simp
  then have again: "ord_to_ymd (ymd_to_ord (y, m, d)) = (y, m, d)" using assms(1) by simp
  have parts: "date_str (y, m, d) ! 4 = CHR ''-''" "date_str (y, m, d) ! 7 = CHR ''-''"
    "take 4 (date_str (y, m, d)) = pad 4 y" "take 2 (drop 5 (date_str (y, m, d))) = pad 2 m"
    "drop 8 (date_str (y, m, d)) = pad 2 d" "length (date_str (y, m, d)) = 10"
    using len by (simp_all add: date_str_def nth_append)
  show ?thesis unfolding parse_date_def parts num using b assms(2) again by simp
qed

lemma offset_text:
  assumes "\<bar>off\<bar> < day_us"
  shows "with_zone wall (offset_str off) = Inr (Aware (wall - off) off)"
proof -
  let ?a = "\<bar>off\<bar>"
  let ?s = "?a div second_us" and ?us = "?a mod second_us"
  have us: "0 \<le> ?us" "?us < 1000000" by (simp_all add: second_us_def)
  have s: "0 \<le> ?s" "?s < 86400" using assms by (simp_all add: day_us_def second_us_def)
  have h: "0 \<le> ?s div 3600" "?s div 3600 < 100" "0 \<le> ?s div 60 mod 60" "?s div 60 mod 60 < 100"
      "0 \<le> ?s mod 60" "?s mod 60 < 100" using s by auto
  have total: "seconds ?s + ?us = ?a" unfolding seconds_def by (rule div_mult_mod_eq)
  have all: "clock_us (?s div 3600, ?s div 60 mod 60, ?s mod 60, ?us) = ?a"
    unfolding clock_us_def prod.case hms_seconds by (rule total)
  have clock: "\<exists>hms. parse_clock (tl (offset_str off)) = Some hms \<and> clock_us hms = ?a"
  proof (cases "?s mod 60 = 0 \<and> ?us = 0")
    case True
    then have "tl (offset_str off) = pad 2 (?s div 3600) @ '':'' @ pad 2 (?s div 60 mod 60)"
      by (simp add: offset_str_def Let_def)
    moreover have "clock_us (?s div 3600, ?s div 60 mod 60, 0, 0) = ?a"
      using all by (simp only: True [THEN conjunct1] True [THEN conjunct2])
    ultimately show ?thesis using parse_clock_short [OF h(1-4)] by (intro exI conjI) (simp only:)
  next
    case False
    then have "tl (offset_str off) = clock_text (?s div 3600) (?s div 60 mod 60) (?s mod 60) ?us"
      unfolding offset_str_def clock_text_def Let_def by (simp only: if_False) simp
    with all show ?thesis using parse_clock_text [OF h us] by (intro exI conjI) (simp only:)
  qed
  then obtain hms where hms: "parse_clock (tl (offset_str off)) = Some hms" "clock_us hms = ?a" by blast
  define z where "z = tl (offset_str off)"
  have "offset_str off = (if off < 0 then CHR ''-'' else CHR ''+'') # z"
    by (simp add: z_def offset_str_def Let_def)
  then show ?thesis using assms hms [folded z_def]
    by (cases "off < 0") (simp_all add: with_zone_def Let_def)
qed

lemma isoformat_parts:
  assumes "date_of d = (y, m, dd)"
  shows "\<exists>h mi se us. 0 \<le> h \<and> h < 24 \<and> 0 \<le> mi \<and> mi < 60 \<and> 0 \<le> se \<and> se < 60 \<and> 0 \<le> us \<and> us < 1000000 \<and>
    clock_us (h, mi, se, us) = wall_us d mod day_us \<and>
    isoformat d = date_str (y, m, dd) @ ''T'' @ clock_text h mi se us @
      (case d of Naive t \<Rightarrow> [] | Aware t off \<Rightarrow> offset_str off)"
proof -
  let ?w = "wall_us d mod day_us"
  let ?s = "?w div second_us"
  have "0 \<le> ?w" "?w < 86400000000" by (simp_all add: day_us_def second_us_def)
  then have s: "0 \<le> ?s" "?s < 86400" by (simp_all add: second_us_def)
  have h: "0 \<le> ?s div 3600" "?s div 3600 < 24" "0 \<le> ?s div 60 mod 60" "?s div 60 mod 60 < 60"
      "0 \<le> ?s mod 60" "?s mod 60 < 60" "0 \<le> ?w mod second_us" "?w mod second_us < 1000000"
    using s by (auto simp: second_us_def)
  have "clock_us (?s div 3600, ?s div 60 mod 60, ?s mod 60, ?w mod second_us) = ?w"
    unfolding clock_us_def seconds_def by (simp only: prod.case hms_seconds div_mult_mod_eq)
  moreover have "isoformat d = date_str (y, m, dd) @ ''T'' @
      clock_text (?s div 3600) (?s div 60 mod 60) (?s mod 60) (?w mod second_us) @
      (case d of Naive t \<Rightarrow> [] | Aware t off \<Rightarrow> offset_str off)"
    unfolding isoformat_def clock_text_def Let_def assms by (simp only: append_assoc)
  ultimately show ?thesis using h by blast
qed

lemma iso_roundtrip:
  assumes "datetime_ok d"
  shows "from_isoformat (isoformat d) = Inr d"
proof -
  define zone where "zone = (case d of Naive t \<Rightarrow> [] | Aware t off \<Rightarrow> offset_str off)"
  obtain y m dd where ymd: "date_of d = (y, m, dd)" by (cases "date_of d")
  have date: "parse_date (date_str (y, m, dd)) = Some (y, m, dd)" "length (date_str (y, m, dd)) = 10"
    using parse_date_text [of "wall_us d div day_us + epoch_ordinal" y m dd] assms ymd
    by (simp_all add: date_of_def datetime_ok_def)
  obtain h mi se us where c: "0 \<le> h" "h < 24" "0 \<le> mi" "mi < 60" "0 \<le> se" "se < 60" "0 \<le> us" "us < 1000000"
    and us: "clock_us (h, mi, se, us) = wall_us d mod day_us"
    and iso: "isoformat d = date_str (y, m, dd) @ ''T'' @ clock_text h mi se us @ zone"
    using isoformat_parts [OF ymd] unfolding zone_def by blast
  have clock: "parse_clock (clock_text h mi se us) = Some (h, mi, se, us)"
    using c by (intro parse_clock_text) simp_all
  have nozone: "list_all (\<lambda>c. \<not> zone_char c) (clock_text h mi se us)"
    using c by (intro clock_text_no_zone) simp_all
  have zone: "takeWhile (\<lambda>c. \<not> zone_char c) zone = []" "dropWhile (\<lambda>c. \<not> zone_char c) zone = zone"
    by (auto simp: zone_def offset_str_def zone_char_def Let_def split: pydt.splits)
  have halves: "takeWhile (\<lambda>c. \<not> zone_char c) (clock_text h mi se us @ zone) = clock_text h mi se us"
      "dropWhile (\<lambda>c. \<not> zone_char c) (clock_text h mi se us @ zone) = zone"
    using nozone zone by (simp_all add: list_all_iff takeWhile_append2 dropWhile_append2)
  have "ymd_to_ord (y, m, dd) = wall_us d div day_us + epoch_ordinal"
    using ymd_to_ord_to_ymd ymd by (metis date_of_def)
  then have wall: "(ymd_to_ord (y, m, dd) - epoch_ordinal) * day_us + clock_us (h, mi, se, us) = wall_us d"
    by (simp add: us)
  have take: "take 10 (isoformat d) = date_str (y, m, dd)" "drop 10 (isoformat d) = CHR ''T'' # clock_text h mi se us @ zone"
    using date(2) by (simp_all add: iso)
  have "from_isoformat (isoformat d) = with_zone (wall_us d) zone"
    unfolding from_isoformat_def take date(1) Let_def option.case list.sel(3) halves clock prod.case wall
    using c by (simp add: clock_text_def)
  also have "\<dots> = Inr d"
    using assms offset_text by (cases d) (simp_all add: zone_def with_zone_def wall_us_def datetime_ok_def)
  finally show ?thesis .
qed

section \<open>The separator of a stored datetime\<close>

definition stamp_char :: "char \<Rightarrow> bool" where
  "stamp_char c \<longleftrightarrow> c \<noteq> CHR ''T'' \<and> c \<noteq> CHR ''Z''"

lemma pad_chars: "list_all stamp_char (pad w n)"
proof -
  have "stamp_char c" if "int_char c" for c using that by (auto simp: int_char_def stamp_char_def)
  then have "list_all stamp_char (int_str n)" using int_str_chars [of n] by (simp add: list_all_iff)
  moreover have "stamp_char (CHR ''0'')" by (simp add: stamp_char_def)
  ultimately show ?thesis by (auto simp: pad_def Let_def list_all_iff)
qed

lemma date_str_chars: "list_all stamp_char (date_str ymd)"
  using pad_chars by (cases ymd) (simp add: date_str_def stamp_char_def)

lemma offset_str_chars: "list_all stamp_char (offset_str off)"
  using pad_chars by (simp add: offset_str_def Let_def stamp_char_def)

lemma isoformat_split:
  "\<exists>u. isoformat d = date_str (date_of d) @ ''T'' @ u \<and> list_all stamp_char u"
proof -
  obtain y m dd where ymd: "date_of d = (y, m, dd)" by (cases "date_of d")
  obtain h mi se us where iso: "isoformat d = date_str (y, m, dd) @ ''T'' @ clock_text h mi se us @
      (case d of Naive t \<Rightarrow> [] | Aware t off \<Rightarrow> offset_str off)"
    using isoformat_parts [OF ymd] by blast
  have "list_all stamp_char (clock_text h mi se us)"
    using pad_chars by (simp add: clock_text_def stamp_char_def)
  then have "list_all stamp_char (clock_text h mi se us @ (case d of Naive t \<Rightarrow> [] | Aware t off \<Rightarrow> offset_str off))"
    using offset_str_chars by (cases d) simp_all
  with iso ymd show ?thesis by auto
qed

lemma swap_separator: "list_all stamp_char u \<Longrightarrow> map (\<lambda>c. if c = CHR ''T'' then CHR '' '' else c) u = u"
  by (induction u) (auto simp: stamp_char_def)

lemma replace_absent: "CHR ''Z'' \<notin> set s \<Longrightarrow> replace_from 0 ''Z'' new s = s"
  by (induction s) auto

lemma replace_same: "replace_from 0 ''Z'' ''Z'' s = s"
  by (induction s) auto

text \<open>A datetime that is written with a space instead of the \<open>T\<close> is read back all the same.\<close>

lemma dt_str_roundtrip:
  assumes "datetime_ok d"
  shows "from_isoformat (replace_from 0 ''Z'' new (dt_str d)) = Inr d"
proof -
  obtain u where u: "isoformat d = date_str (date_of d) @ ''T'' @ u" "list_all stamp_char u"
    using isoformat_split by blast
  obtain y m dd where ymd: "date_of d = (y, m, dd)" by (cases "date_of d")
  have "length (date_str (date_of d)) = 10"
    using parse_date_text [of "wall_us d div day_us + epoch_ordinal" y m dd] assms ymd
    by (simp add: date_of_def datetime_ok_def)
  moreover have t: "dt_str d = date_str (date_of d) @ '' '' @ u"
    unfolding dt_str_def u(1) map_append using date_str_chars u(2) by (simp add: swap_separator)
  moreover have "CHR ''Z'' \<notin> set (dt_str d)"
    unfolding t using date_str_chars [of "date_of d"] u(2) by (auto simp: list_all_iff stamp_char_def)
  ultimately have "replace_from 0 ''Z'' new (dt_str d) = dt_str d"
      and parts: "take 10 (dt_str d) = take 10 (isoformat d)" "tl (drop 10 (dt_str d)) = tl (drop 10 (isoformat d))"
        "length (drop 10 (dt_str d)) = length (drop 10 (isoformat d))"
    by (simp_all add: replace_absent u(1))
  then have "from_isoformat (replace_from 0 ''Z'' new (dt_str d)) = from_isoformat (isoformat d)"
    unfolding from_isoformat_def Let_def by (simp only: parts)
  with iso_roundtrip [OF assms] show ?thesis by simp
qed

lemma dt_str_read: "datetime_ok d \<Longrightarrow> from_isoformat (dt_str d) = Inr d"
  using dt_str_roundtrip [of d "''Z''"] by (simp add: replace_same)

end
