(* ===== verification/Initial_Verification.thy ===== *)
theory Initial_Verification
  imports Verification_Tables Iso_Datetime
begin

text \<open>
  Initial verification planning (\<open>domain/initial_verification.py\<close>) and its place in the snapshot
  transaction (\<open>SqlSnapshotStore._save_verification_bundle\<close> and \<open>_validate_verification_closure\<close> of
  \<open>adapters/postgres/repositories/snapshot_repository.py\<close>). The planner resolves every claim against
  the point-in-time reads of \<open>Verification_Job\<close>; the snapshot stores the rows it plans and then
  checks that each entry of the verification artifact points at a stored row. Locks are not
  modelled: a plan is computed on one state of the tables.
\<close>

section \<open>Requirement and planned rows\<close>

datatype requirement = ASYNC_REQUIRED | NOT_VERIFIABLE | NOT_REQUIRED

definition verification_requirement :: "financial_claim \<Rightarrow> requirement" where
  "verification_requirement c =
     (if is_quant_verifiable c then ASYNC_REQUIRED
      else if fc_fact_category c = ''FACT'' then NOT_VERIFIABLE else NOT_REQUIRED)"

record job_write =
  jw_job_id :: string
  jw_claim_id :: string
  jw_provider :: string
  jw_status :: string
  jw_created_at :: "pydt option"
  jw_trace_id :: "string option"

record result_write =
  rw_verification_id :: string
  rw_claim_id :: string
  rw_provider :: string
  rw_result :: vresult
  rw_available_at :: pydt

record resolved_state =
  rs_requirement :: requirement
  rs_artifact_status :: string
  rs_terminal_result :: "result_write option"
  rs_pending_job :: "job_write option"
  rs_reused_terminal_result_id :: "string option"
  rs_reused_job_id :: "string option"

record verification_plan =
  vp_artifact_results :: "ventry list"
  vp_terminal_results_to_insert :: "result_write list"
  vp_pending_jobs_to_insert :: "job_write list"
  vp_reused_terminal_result_ids :: "string list"
  vp_reused_job_ids :: "string list"

definition terminal_result_for :: "financial_claim \<Rightarrow> requirement \<Rightarrow> pydt \<Rightarrow> string \<Rightarrow> vresult" where
  "terminal_result_for c req available policy =
     (let status = (if req = NOT_VERIFIABLE then ''NOT_VERIFIABLE'' else ''NOT_REQUIRED'')
      in (plain_result (fc_claim_id c) status)
           \<lparr>vr_reason := Some (if status = ''NOT_VERIFIABLE'' then ''FACT_NOT_QUANT_VERIFIABLE'' else ''NON_FACT_CLAIM''),
            vr_rule_version := policy, vr_available_at := Some (to_utc available)\<rparr>)"

definition deterministic_terminal_result ::
  "(string \<Rightarrow> string) \<Rightarrow> (pydt \<Rightarrow> string) \<Rightarrow> financial_claim \<Rightarrow> requirement \<Rightarrow> pydt \<Rightarrow> string \<Rightarrow> string \<Rightarrow>
     result_write result" where
  "deterministic_terminal_result H J c req available provider policy =
     try_bind (vresult_init (terminal_result_for c req available policy)) (\<lambda>r.
       Inr \<lparr>rw_verification_id = plan_verification_id_of H J (fc_claim_id c) provider r,
            rw_claim_id = fc_claim_id c, rw_provider = provider, rw_result = r,
            rw_available_at = to_utc available\<rparr>)"

section \<open>Resolution\<close>

text \<open>\<open>_row_id\<close> of a result row; a job row has no \<open>verification_id\<close>, its id is the job id.\<close>

definition result_row_id :: "vrow \<Rightarrow> string option \<Rightarrow> string" where
  "result_row_id row fallback =
     (if vx_verification_id row \<noteq> [] then vx_verification_id row else str_or fallback [])"

definition no_writes :: "requirement \<Rightarrow> string \<Rightarrow> resolved_state" where
  "no_writes req status =
     \<lparr>rs_requirement = req, rs_artifact_status = status, rs_terminal_result = None,
      rs_pending_job = None, rs_reused_terminal_result_id = None, rs_reused_job_id = None\<rparr>"

definition resolve_deterministic ::
  "(string \<Rightarrow> string) \<Rightarrow> (pydt \<Rightarrow> string) \<Rightarrow> financial_claim \<Rightarrow> requirement \<Rightarrow> string \<Rightarrow> pydt \<Rightarrow> string \<Rightarrow> vdb \<Rightarrow>
     resolved_state result" where
  "resolve_deterministic H J c req provider candidate policy db =
     try_bind (deterministic_terminal_result H J c req candidate provider policy) (\<lambda>terminal.
       let status = vr_status (rw_result terminal);
           fresh = (no_writes req status)\<lparr>rs_terminal_result := Some terminal\<rparr>
       in Inr (case vj_latest_terminal_as_of (fc_claim_id c) provider (instant_of candidate) (Some policy) db of
            None \<Rightarrow> fresh
          | Some row \<Rightarrow>
              if vx_status row = status
              then (no_writes req status)\<lparr>rs_reused_terminal_result_id :=
                     Some (result_row_id row (Some (rw_verification_id terminal)))\<rparr>
              else fresh))"

definition resolve_async :: "financial_claim \<Rightarrow> string \<Rightarrow> pydt \<Rightarrow> string \<Rightarrow> vdb \<Rightarrow> resolved_state" where
  "resolve_async c provider candidate policy db =
     (let cid = fc_claim_id c; pending = no_writes ASYNC_REQUIRED ''VERIFICATION_PENDING''
      in case vj_latest_terminal_as_of cid provider (instant_of candidate) (Some policy) db of
           Some row \<Rightarrow> (no_writes ASYNC_REQUIRED (vx_status row))
             \<lparr>rs_reused_terminal_result_id := Some (result_row_id row None)\<rparr>
         | None \<Rightarrow>
             (case vj_find_active_as_of cid provider (instant_of candidate) db of
                None \<Rightarrow> pending\<lparr>rs_pending_job := Some
                  \<lparr>jw_job_id = job_id_for cid provider, jw_claim_id = cid, jw_provider = provider,
                   jw_status = ''VERIFICATION_PENDING'', jw_created_at = Some (to_utc candidate),
                   jw_trace_id = None\<rparr>\<rparr>
              | Some job \<Rightarrow> pending\<lparr>rs_reused_job_id := Some (vj_job_id job)\<rparr>))"

definition resolve_verification ::
  "(string \<Rightarrow> string) \<Rightarrow> (pydt \<Rightarrow> string) \<Rightarrow> financial_claim \<Rightarrow> string \<Rightarrow> pydt \<Rightarrow> string \<Rightarrow> vdb \<Rightarrow>
     resolved_state result" where
  "resolve_verification H J c provider candidate policy db =
     (let req = verification_requirement c
      in if req \<noteq> ASYNC_REQUIRED
         then resolve_deterministic H J c req provider (to_utc candidate) policy db
         else Inr (resolve_async c provider (to_utc candidate) policy db))"

section \<open>The plan\<close>

definition find_terminal :: "string \<Rightarrow> string \<Rightarrow> pydt \<Rightarrow> string \<Rightarrow> string \<Rightarrow> vdb \<Rightarrow> vrow option" where
  "find_terminal cid provider as_of policy vid db =
     (case vj_get_result vid db of
        Some row \<Rightarrow> Some row
      | None \<Rightarrow> vj_latest_terminal_as_of cid provider (instant_of as_of) (Some policy) db)"

definition set_default :: "string \<Rightarrow> json \<Rightarrow> pydict \<Rightarrow> pydict" where
  "set_default k v d = (case dict_get k d of None \<Rightarrow> d @ [(k, v)] | Some _ \<Rightarrow> d)"

definition as_result ::
  "(pydict \<Rightarrow> vresult result) \<Rightarrow> vrow option \<Rightarrow> string \<Rightarrow> string \<Rightarrow> vresult result" where
  "as_result V row cid status =
     V (set_default ''status'' (JStr status) (set_default ''claim_id'' (JStr cid)
       (case row of None \<Rightarrow> [] | Some r \<Rightarrow> vx_result_payload r)))"

definition add_entry :: "ventry \<Rightarrow> verification_plan \<Rightarrow> verification_plan" where
  "add_entry e plan = plan\<lparr>vp_artifact_results := vp_artifact_results plan @ [e]\<rparr>"

definition plan_terminal :: "string \<Rightarrow> result_write \<Rightarrow> verification_plan \<Rightarrow> verification_plan result" where
  "plan_terminal provider t plan =
     try_bind (ventry_from_result (rw_result t) provider (Some (rw_verification_id t)) None) (\<lambda>e.
       Inr (add_entry e
         (plan\<lparr>vp_terminal_results_to_insert := vp_terminal_results_to_insert plan @ [t]\<rparr>)))"

definition plan_reused ::
  "(pydict \<Rightarrow> vresult result) \<Rightarrow> financial_claim \<Rightarrow> string \<Rightarrow> pydt \<Rightarrow> string \<Rightarrow> string \<Rightarrow> string \<Rightarrow> vdb \<Rightarrow>
     verification_plan \<Rightarrow> verification_plan result" where
  "plan_reused V c provider candidate policy status vid db plan =
     try_bind (as_result V (find_terminal (fc_claim_id c) provider candidate policy vid db)
       (fc_claim_id c) status) (\<lambda>r.
     try_bind (ventry_from_result r provider (Some vid) None) (\<lambda>e.
       Inr (add_entry e
         (plan\<lparr>vp_reused_terminal_result_ids := vp_reused_terminal_result_ids plan @ [vid]\<rparr>))))"

definition plan_job ::
  "financial_claim \<Rightarrow> string \<Rightarrow> pydt \<Rightarrow> string option \<Rightarrow> resolved_state \<Rightarrow> verification_plan \<Rightarrow>
     verification_plan result" where
  "plan_job c provider candidate trace st plan =
     (let jid = (case rs_pending_job st of Some j \<Rightarrow> jw_job_id j | None \<Rightarrow> str_or (rs_reused_job_id st) [])
      in if jid = []
         then Inl (ValueError (''initial verification state has no job lineage for '' @ fc_claim_id c))
         else (let plan' = (case rs_pending_job st of
                   Some j \<Rightarrow> plan\<lparr>vp_pending_jobs_to_insert := vp_pending_jobs_to_insert plan @
                     [\<lparr>jw_job_id = jw_job_id j, jw_claim_id = fc_claim_id c, jw_provider = provider,
                       jw_status = ''VERIFICATION_PENDING'',
                       jw_created_at = Some (to_utc (case jw_created_at j of None \<Rightarrow> candidate | Some t \<Rightarrow> t)),
                       jw_trace_id = trace\<rparr>]\<rparr>
                 | None \<Rightarrow> plan\<lparr>vp_reused_job_ids := vp_reused_job_ids plan @ [jid]\<rparr>)
               in try_bind (vresult_init (plain_result (fc_claim_id c) ''VERIFICATION_PENDING'')) (\<lambda>r.
                  try_bind (ventry_from_result r provider None (Some jid)) (\<lambda>e.
                    Inr (add_entry e plan')))))"

definition plan_claim ::
  "(string \<Rightarrow> string) \<Rightarrow> (pydt \<Rightarrow> string) \<Rightarrow> (pydict \<Rightarrow> vresult result) \<Rightarrow> string \<Rightarrow> pydt \<Rightarrow> string \<Rightarrow>
     string option \<Rightarrow> vdb \<Rightarrow> verification_plan \<Rightarrow> financial_claim \<Rightarrow> verification_plan result" where
  "plan_claim H J V provider candidate policy trace db plan c =
     try_bind (resolve_verification H J c provider candidate policy db) (\<lambda>st.
       case rs_terminal_result st of
         Some t \<Rightarrow> plan_terminal provider t plan
       | None \<Rightarrow>
           if truthy (rs_reused_terminal_result_id st)
           then plan_reused V c provider candidate policy (rs_artifact_status st)
                  (the (rs_reused_terminal_result_id st)) db plan
           else plan_job c provider candidate trace st plan)"

definition empty_plan :: verification_plan where
  "empty_plan = \<lparr>vp_artifact_results = [], vp_terminal_results_to_insert = [],
     vp_pending_jobs_to_insert = [], vp_reused_terminal_result_ids = [], vp_reused_job_ids = []\<rparr>"

definition build_initial_verification_plan ::
  "(string \<Rightarrow> string) \<Rightarrow> (pydt \<Rightarrow> string) \<Rightarrow> (pydict \<Rightarrow> vresult result) \<Rightarrow> financial_claim list \<Rightarrow>
     string \<Rightarrow> pydt \<Rightarrow> string \<Rightarrow> string option \<Rightarrow> vdb \<Rightarrow> verification_plan result" where
  "build_initial_verification_plan H J V claims provider candidate policy trace db =
     foldM (plan_claim H J V provider candidate policy trace db) empty_plan claims"

section \<open>Storing the plan\<close>

definition job_of_write :: "job_write \<Rightarrow> vjob result" where
  "job_of_write w =
     (case jw_created_at w of
        None \<Rightarrow> Inl (IntegrityError ''null value in column created_at'')
      | Some t \<Rightarrow> Inr
          \<lparr>vj_job_id = jw_job_id w, vj_claim_id = jw_claim_id w, vj_provider = jw_provider w,
           vj_status = jw_status w, vj_retry_count = 0, vj_max_retries = 5,
           vj_next_retry_at = Some t, vj_lease_owner = None, vj_lease_expires_at = None,
           vj_last_error = None, vj_trace_id = jw_trace_id w, vj_created_at = t\<rparr>)"

definition row_of_write :: "(pydt \<Rightarrow> string) \<Rightarrow> result_write \<Rightarrow> vrow" where
  "row_of_write J w =
     (let r = rw_result w in
      \<lparr>vx_verification_id = rw_verification_id w, vx_claim_id = rw_claim_id w,
       vx_provider = rw_provider w, vx_status = vr_status r,
       vx_market_snapshot_id = vr_market_snapshot_id r,
       vx_market_data_version = vr_market_data_version r, vx_result_payload = vr_dump J r,
       vx_trace_id = None, vx_fact_date = vr_fact_date r, vx_adjustment = vr_adjustment r,
       vx_verification_timestamp = vr_verification_timestamp r,
       vx_rule_version = Some (vr_rule_version r), vx_verified_at = vr_verification_timestamp r,
       vx_available_at = Some (rw_available_at w), vx_created_at = rw_available_at w\<rparr>)"

definition save_verification_bundle ::
  "(pydt \<Rightarrow> string) \<Rightarrow> result_write list \<Rightarrow> job_write list \<Rightarrow> vdb \<Rightarrow> vdb result" where
  "save_verification_bundle J results jobs db =
     try_bind (foldM (\<lambda>db w. try_bind (job_of_write w) (\<lambda>j.
       try_bind (insert_job_ignore j db) (\<lambda>r. Inr (snd r)))) db jobs) (\<lambda>db'.
       foldM (\<lambda>db w. try_bind (persist_result (row_of_write J w) db) (\<lambda>r. Inr (snd r))) db' results)"

section \<open>Closure of the artifact\<close>

definition closure_job :: "string \<Rightarrow> ventry \<Rightarrow> vjob option \<Rightarrow> instant \<Rightarrow> unit result" where
  "closure_job jid e row candidate =
     (case row of
        None \<Rightarrow> Inl (ValueError (''verification job row missing: '' @ jid))
      | Some j \<Rightarrow>
          if vj_claim_id j \<noteq> ve_claim_id e \<or> vj_provider j \<noteq> ve_provider e
          then Inl (ValueError (''verification job lineage mismatch: '' @ jid))
          else ensure (instant_of (vj_created_at j) \<le> candidate)
            (ValueError (''verification job is not visible at snapshot: '' @ jid)))"

definition closure_result ::
  "(pydt \<Rightarrow> string) \<Rightarrow> string \<Rightarrow> ventry \<Rightarrow> vrow option \<Rightarrow> instant \<Rightarrow> unit result" where
  "closure_result J vid e row candidate =
     (case row of
        None \<Rightarrow> Inl (ValueError (''verification result row missing: '' @ vid))
      | Some x \<Rightarrow>
          if vx_claim_id x \<noteq> ve_claim_id e \<or> vx_provider x \<noteq> ve_provider e \<or>
             vx_status x \<noteq> ve_status e \<or>
             (case ve_result e of None \<Rightarrow> False | Some r \<Rightarrow>
                canonical_json (JObj (vx_result_payload x)) \<noteq> canonical_json (JObj (vr_dump J r)))
          then Inl (ValueError (''verification result lineage mismatch: '' @ vid))
          else ensure (case vx_available_at x of None \<Rightarrow> False | Some a \<Rightarrow> instant_of a \<le> candidate)
            (ValueError (''verification result is not visible at snapshot: '' @ vid)))"

definition closure_entry ::
  "(pydt \<Rightarrow> string) \<Rightarrow> (string \<Rightarrow> vjob option) \<Rightarrow> (string \<Rightarrow> vrow option) \<Rightarrow> instant \<Rightarrow> ventry \<Rightarrow>
     unit result" where
  "closure_entry J jobs results candidate e =
     (if ve_status e = ''VERIFICATION_PENDING''
      then (if \<not> truthy (ve_verification_job_id e)
            then Inl (ValueError (''pending verification artifact missing job lineage: '' @ ve_claim_id e))
            else closure_job (the (ve_verification_job_id e)) e (jobs (the (ve_verification_job_id e))) candidate)
      else if ve_status e \<notin> set terminal_statuses
      then Inl (ValueError (''unknown verification artifact status: '' @ ve_status e))
      else if \<not> truthy (ve_verification_id e)
      then ensure (ve_result e \<noteq> None)
        (ValueError (''terminal verification artifact missing result lineage: '' @ ve_claim_id e))
      else closure_result J (the (ve_verification_id e)) e (results (the (ve_verification_id e))) candidate)"

definition verify_initial_verification_closure ::
  "(pydt \<Rightarrow> string) \<Rightarrow> ventry list \<Rightarrow> (string \<Rightarrow> vjob option) \<Rightarrow> (string \<Rightarrow> vrow option) \<Rightarrow> pydt \<Rightarrow>
     unit result" where
  "verify_initial_verification_closure J entries jobs results committed_at =
     foldM (\<lambda>_ e. closure_entry J jobs results (instant_of committed_at) e) () entries"

text \<open>The rows that a snapshot loads for the check: those the entries name.\<close>

definition named_ids :: "(ventry \<Rightarrow> string option) \<Rightarrow> ventry list \<Rightarrow> string list" where
  "named_ids f entries = map (\<lambda>e. the (f e)) (filter (\<lambda>e. truthy (f e)) entries)"

definition validate_verification_closure :: "(pydt \<Rightarrow> string) \<Rightarrow> ventry list \<Rightarrow> vdb \<Rightarrow> pydt \<Rightarrow> unit result" where
  "validate_verification_closure J entries db created_at =
     (if entries = [] then Inr ()
      else verify_initial_verification_closure J entries
        (\<lambda>jid. if jid \<in> set (named_ids ve_verification_job_id entries) then job_row jid db else None)
        (\<lambda>vid. if vid \<in> set (named_ids ve_verification_id entries) then vj_get_result vid db else None)
        created_at)"

section \<open>What the planner relies on\<close>

text \<open>
  What the planner relies on of \<open>VerificationResult.model_validate\<close>: the dump of a valid stored
  result is read back as that result.
\<close>

definition reads_back :: "(pydt \<Rightarrow> string) \<Rightarrow> (pydict \<Rightarrow> vresult result) \<Rightarrow> vdb \<Rightarrow> bool" where
  "reads_back J V db \<longleftrightarrow> (\<forall>x \<in> set (vd_results db). \<forall>r.
     vx_result_payload x = vr_dump J r \<and> vresult_init r = Inr r \<longrightarrow> V (vx_result_payload x) = Inr r)"

text \<open>The stored availabilities are Python datetimes, with a year from 1 to 9999.\<close>

definition times_ok :: "vdb \<Rightarrow> bool" where
  "times_ok db \<longleftrightarrow> (\<forall>x \<in> set (vd_results db). \<forall>a. vx_available_at x = Some a \<longrightarrow> datetime_ok (to_utc a))"

section \<open>What a plan justifies\<close>

definition planned_job :: "instant \<Rightarrow> job_write \<Rightarrow> bool" where
  "planned_job snap w \<longleftrightarrow> jw_job_id w = job_id_for (jw_claim_id w) (jw_provider w) \<and>
     (\<exists>t. jw_created_at w = Some t \<and> instant_of t \<le> snap)"

definition planned_result :: "instant \<Rightarrow> result_write \<Rightarrow> bool" where
  "planned_result snap w \<longleftrightarrow> rw_verification_id w \<noteq> [] \<and> vr_claim_id (rw_result w) = rw_claim_id w \<and>
     vresult_init (rw_result w) = Inr (rw_result w) \<and> vr_status (rw_result w) \<in> set terminal_statuses \<and>
     instant_of (rw_available_at w) \<le> snap \<and> datetime_ok (to_utc (rw_available_at w))"

text \<open>Each entry rests on a planned row or on a row that was already there.\<close>

definition entry_of_job :: "string \<Rightarrow> string \<Rightarrow> string \<Rightarrow> ventry \<Rightarrow> bool" where
  "entry_of_job jid cid provider e \<longleftrightarrow> ve_status e = ''VERIFICATION_PENDING'' \<and>
     ve_verification_job_id e = Some jid \<and> ve_claim_id e = cid \<and> ve_provider e = provider"

definition entry_of_result :: "string \<Rightarrow> string \<Rightarrow> vresult \<Rightarrow> ventry \<Rightarrow> bool" where
  "entry_of_result vid provider r e \<longleftrightarrow> ve_claim_id e = vr_claim_id r \<and> ve_provider e = provider \<and>
     ve_status e = vr_status r \<and> ve_verification_id e = Some vid \<and> ve_result e = Some r"

definition visible :: "instant \<Rightarrow> vrow \<Rightarrow> bool" where
  "visible snap x \<longleftrightarrow> (case vx_available_at x of None \<Rightarrow> False | Some a \<Rightarrow> instant_of a \<le> snap)"

definition justified :: "(pydt \<Rightarrow> string) \<Rightarrow> instant \<Rightarrow> vdb \<Rightarrow> verification_plan \<Rightarrow> ventry \<Rightarrow> bool" where
  "justified J snap db plan e \<longleftrightarrow>
     (\<exists>w \<in> set (vp_terminal_results_to_insert plan). entry_of_result (rw_verification_id w) (rw_provider w) (rw_result w) e) \<or>
     (\<exists>w \<in> set (vp_pending_jobs_to_insert plan). entry_of_job (jw_job_id w) (jw_claim_id w) (jw_provider w) e) \<or>
     (\<exists>j \<in> set (vd_jobs db). instant_of (vj_created_at j) \<le> snap \<and> entry_of_job (vj_job_id j) (vj_claim_id j) (vj_provider j) e) \<or>
     (\<exists>x \<in> set (vd_results db). visible snap x \<and> (\<exists>r. vx_result_payload x = vr_dump J r \<and> vx_claim_id x = vr_claim_id r \<and>
        vx_status x = vr_status r \<and> vx_status x \<in> set terminal_statuses \<and>
        entry_of_result (vx_verification_id x) (vx_provider x) r e))"

text \<open>And each planned job has its entry.\<close>

definition plan_ok :: "(pydt \<Rightarrow> string) \<Rightarrow> instant \<Rightarrow> vdb \<Rightarrow> verification_plan \<Rightarrow> bool" where
  "plan_ok J snap db plan \<longleftrightarrow> (\<forall>e \<in> set (vp_artifact_results plan). justified J snap db plan e) \<and>
     (\<forall>w \<in> set (vp_pending_jobs_to_insert plan). planned_job snap w \<and>
        (\<exists>e \<in> set (vp_artifact_results plan). entry_of_job (jw_job_id w) (jw_claim_id w) (jw_provider w) e)) \<and>
     (\<forall>w \<in> set (vp_terminal_results_to_insert plan). planned_result snap w)"

lemma ventry_from_result_iff:
  "ventry_from_result r p vid jid = Inr e \<longleftrightarrow>
     e = \<lparr>ve_claim_id = vr_claim_id r, ve_provider = p, ve_status = vr_status r,
          ve_verification_id = vid, ve_verification_job_id = jid, ve_result = Some r\<rparr> \<and>
     (if vr_status r = ''VERIFICATION_PENDING'' then truthy jid else truthy vid)"
  by (auto simp: ventry_from_result_def ventry_init_def)

lemma justified_mono:
  assumes "justified J snap db plan e"
    and "set (vp_terminal_results_to_insert plan) \<subseteq> set (vp_terminal_results_to_insert plan')"
    and "set (vp_pending_jobs_to_insert plan) \<subseteq> set (vp_pending_jobs_to_insert plan')"
  shows "justified J snap db plan' e"
  using assms unfolding justified_def by blast

lemma terminal_result_valid:
  "vresult_init (terminal_result_for c req t policy) = Inr (terminal_result_for c req t policy)"
  by (simp add: terminal_result_for_def plain_result_def vresult_init_def result_statuses_def bound_statuses_def Let_def)

lemma latest_terminal_row:
  assumes "vj_latest_terminal_as_of cid p as_of policy db = Some x"
  shows "x \<in> set (vd_results db) \<and> vx_claim_id x = cid \<and> vx_provider x = p \<and>
     vx_status x \<in> set terminal_statuses \<and>
     (\<exists>a. vx_available_at x = Some a \<and> instant_of a \<le> as_of)"
  using find_Some_in [OF assms [unfolded vj_latest_terminal_as_of_def]]
  by (auto simp: vx_available_by_def split: option.splits)

lemma active_job_row:
  "vj_find_active_as_of cid p as_of db = Some j \<Longrightarrow>
     j \<in> set (vd_jobs db) \<and> vj_claim_id j = cid \<and> vj_provider j = p \<and> instant_of (vj_created_at j) \<le> as_of"
proof -
  assume a: "vj_find_active_as_of cid p as_of db = Some j"
  let ?jobs = "sort_key (\<lambda>j. (instant_of (vj_created_at j), vj_job_id j))
     (filter (\<lambda>j. vj_claim_id j = cid \<and> vj_provider j = p \<and> instant_of (vj_created_at j) \<le> as_of \<and>
        vj_status j \<in> {''VERIFICATION_PENDING'', ''LEASED'', ''RETRYABLE''}) (vd_jobs db))"
  from a have "j \<in> set ?jobs"
    unfolding vj_find_active_as_of_def by (cases ?jobs) auto
  then show ?thesis by auto
qed

lemma dump_defaults:
  "set_default ''status'' (JStr st) (set_default ''claim_id'' (JStr cid) (vr_dump J r)) = vr_dump J r"
  by (simp add: set_default_def dict_get_def vr_dump_def)

section \<open>Planning keeps the plan justified\<close>

lemma plan_ok_add:
  assumes "plan_ok J snap db plan" and "justified J snap db plan' e"
    and "vp_artifact_results plan' = vp_artifact_results plan"
    and "set (vp_terminal_results_to_insert plan') \<subseteq> set (vp_terminal_results_to_insert plan) \<union> T"
    and "set (vp_pending_jobs_to_insert plan') \<subseteq> set (vp_pending_jobs_to_insert plan) \<union> P"
    and "set (vp_terminal_results_to_insert plan) \<subseteq> set (vp_terminal_results_to_insert plan')"
    and "set (vp_pending_jobs_to_insert plan) \<subseteq> set (vp_pending_jobs_to_insert plan')"
    and "\<forall>w \<in> T. planned_result snap w"
    and "\<forall>w \<in> P. planned_job snap w \<and> entry_of_job (jw_job_id w) (jw_claim_id w) (jw_provider w) e"
  shows "plan_ok J snap db (add_entry e plan')"
proof -
  have "justified J snap db (add_entry e plan') e'" if "justified J snap db plan'' e'"
    "set (vp_terminal_results_to_insert plan'') \<subseteq> set (vp_terminal_results_to_insert plan')"
    "set (vp_pending_jobs_to_insert plan'') \<subseteq> set (vp_pending_jobs_to_insert plan')" for plan'' e'
    using that by (intro justified_mono [OF that(1)]) (simp_all add: add_entry_def)
  then show ?thesis using assms
    unfolding plan_ok_def by (auto simp: add_entry_def)
qed

lemma plan_terminal_ok:
  assumes "plan_ok J snap db plan" and "plan_terminal p w plan = Inr plan'" and "planned_result snap w"
    and "rw_provider w = p"
  shows "plan_ok J snap db plan'"
proof -
  from assms(2) obtain e where e: "ventry_from_result (rw_result w) p (Some (rw_verification_id w)) None = Inr e"
    and plan': "plan' = add_entry e (plan\<lparr>vp_terminal_results_to_insert := vp_terminal_results_to_insert plan @ [w]\<rparr>)"
    by (auto simp: plan_terminal_def try_bind_Inr_iff)
  show ?thesis unfolding plan'
  proof (rule plan_ok_add [OF assms(1), where T = "{w}" and P = "{}"])
    show "justified J snap db (plan\<lparr>vp_terminal_results_to_insert := vp_terminal_results_to_insert plan @ [w]\<rparr>) e"
      using e assms(4) unfolding justified_def
      by (intro disjI1 bexI [of _ w]) (simp_all add: ventry_from_result_iff entry_of_result_def)
  qed (use assms(3) in auto)
qed

lemma find_terminal_row:
  assumes "vdb_ok J db" and "vj_latest_terminal_as_of cid p as_of policy db = Some x"
  shows "find_terminal cid p candidate policy' (vx_verification_id x) db = Some x"
  using latest_terminal_row [OF assms(2)] assms(1)
  by (simp add: find_terminal_def vj_get_result_def row_get_member vdb_ok_def)

lemma plan_reused_ok:
  assumes "plan_ok J snap db plan" and "vdb_ok J db" and "as_of \<le> snap"
    and "vj_latest_terminal_as_of (fc_claim_id c) p as_of policy db = Some x"
    and "plan_reused V c p candidate policy' (vx_status x) (vx_verification_id x) db plan = Inr plan'"
    and V: "reads_back J V db"
  shows "plan_ok J snap db plan'"
proof -
  note x = latest_terminal_row [OF assms(4)]
  then obtain r where r: "vresult_init r = Inr r" "vr_claim_id r = vx_claim_id x"
      "vr_status r = vx_status x" "vx_result_payload x = vr_dump J r"
    using assms(2) by (auto simp: vdb_ok_def row_ok_def)
  have "as_result V (find_terminal (fc_claim_id c) p candidate policy' (vx_verification_id x) db)
      (fc_claim_id c) (vx_status x) = Inr r"
    using r V x by (auto simp: as_result_def find_terminal_row [OF assms(2,4)] dump_defaults reads_back_def)
  with assms(5) obtain e where e: "ventry_from_result r p (Some (vx_verification_id x)) None = Inr e"
    and plan': "plan' = add_entry e (plan\<lparr>vp_reused_terminal_result_ids :=
        vp_reused_terminal_result_ids plan @ [vx_verification_id x]\<rparr>)"
    by (auto simp: plan_reused_def try_bind_Inr_iff)
  show ?thesis unfolding plan'
  proof (rule plan_ok_add [OF assms(1), where T = "{}" and P = "{}"])
    have "entry_of_result (vx_verification_id x) (vx_provider x) r e"
      using e x by (simp add: ventry_from_result_iff entry_of_result_def)
    moreover have "visible snap x" using x assms(3) by (auto simp: visible_def)
    ultimately show "justified J snap db (plan\<lparr>vp_reused_terminal_result_ids :=
        vp_reused_terminal_result_ids plan @ [vx_verification_id x]\<rparr>) e"
      unfolding justified_def using r x by (intro disjI2 bexI [of _ x] conjI exI [of _ r]) simp_all
  qed simp_all
qed

lemma plan_job_new_ok:
  assumes "plan_ok J snap db plan" and "rs_pending_job st = Some j"
    and "plan_job c p candidate trace st plan = Inr plan'"
    and "jw_job_id j = job_id_for (fc_claim_id c) p" and "jw_created_at j = Some t" and "instant_of t \<le> snap"
  shows "plan_ok J snap db plan'"
proof -
  let ?w = "\<lparr>jw_job_id = jw_job_id j, jw_claim_id = fc_claim_id c, jw_provider = p,
    jw_status = ''VERIFICATION_PENDING'', jw_created_at = Some (to_utc t), jw_trace_id = trace\<rparr>"
  from assms obtain r e where r: "vresult_init (plain_result (fc_claim_id c) ''VERIFICATION_PENDING'') = Inr r"
    and e: "ventry_from_result r p None (Some (jw_job_id j)) = Inr e"
    and plan': "plan' = add_entry e (plan\<lparr>vp_pending_jobs_to_insert := vp_pending_jobs_to_insert plan @ [?w]\<rparr>)"
    by (auto simp: plan_job_def Let_def try_bind_Inr_iff)
  have "r = plain_result (fc_claim_id c) ''VERIFICATION_PENDING''"
    using r by (auto simp: vresult_init_def split: if_splits)
  then have ew: "entry_of_job (jw_job_id ?w) (jw_claim_id ?w) (jw_provider ?w) e"
    using e by (simp add: ventry_from_result_iff entry_of_job_def plain_result_def)
  show ?thesis unfolding plan'
  proof (rule plan_ok_add [OF assms(1), where T = "{}" and P = "{?w}"])
    show "justified J snap db (plan\<lparr>vp_pending_jobs_to_insert := vp_pending_jobs_to_insert plan @ [?w]\<rparr>) e"
      using ew unfolding justified_def by (intro disjI2 disjI1 bexI [of _ ?w]) simp_all
  qed (use assms(4-6) ew in \<open>auto simp: planned_job_def to_utc_def\<close>)
qed

lemma plan_job_reused_ok:
  assumes "plan_ok J snap db plan" and "rs_pending_job st = None" and "rs_reused_job_id st = Some (vj_job_id j)"
    and "plan_job c p candidate trace st plan = Inr plan'"
    and "j \<in> set (vd_jobs db)" "vj_claim_id j = fc_claim_id c" "vj_provider j = p" "instant_of (vj_created_at j) \<le> snap"
  shows "plan_ok J snap db plan'"
proof -
  from assms obtain r e where r: "vresult_init (plain_result (fc_claim_id c) ''VERIFICATION_PENDING'') = Inr r"
    and e: "ventry_from_result r p None (Some (vj_job_id j)) = Inr e"
    and plan': "plan' = add_entry e (plan\<lparr>vp_reused_job_ids := vp_reused_job_ids plan @ [vj_job_id j]\<rparr>)"
    by (auto simp: plan_job_def Let_def try_bind_Inr_iff split: if_splits)
  have "r = plain_result (fc_claim_id c) ''VERIFICATION_PENDING''"
    using r by (auto simp: vresult_init_def split: if_splits)
  then have "entry_of_job (vj_job_id j) (vj_claim_id j) (vj_provider j) e"
    using e assms(6,7) by (simp add: ventry_from_result_iff entry_of_job_def plain_result_def)
  with assms(5,8) have just: "justified J snap db (plan\<lparr>vp_reused_job_ids := vp_reused_job_ids plan @ [vj_job_id j]\<rparr>) e"
    unfolding justified_def by blast
  show ?thesis unfolding plan'
    by (rule plan_ok_add [OF assms(1) just, where T = "{}" and P = "{}"]) simp_all
qed

lemma plan_claim_ok:
  assumes "plan_ok J snap db plan" and "vdb_ok J db" and "instant_of candidate \<le> snap"
    and V: "reads_back J V db" and ok: "datetime_ok (to_utc candidate)"
    and "plan_claim H J V p candidate policy trace db plan c = Inr plan'"
  shows "plan_ok J snap db plan'"
proof -
  let ?latest = "vj_latest_terminal_as_of (fc_claim_id c) p (instant_of candidate) (Some policy) db"
  have nonempty: "vx_verification_id x \<noteq> []" if "?latest = Some x" for x
    using latest_terminal_row [OF that] assms(2) by (auto simp: vdb_ok_def row_ok_def)
  show ?thesis
  proof (cases "verification_requirement c = ASYNC_REQUIRED")
    case True
    show ?thesis
    proof (cases ?latest)
      case (Some x)
      with True assms(6) nonempty [OF Some] plan_reused_ok [OF assms(1,2,3) Some _ V] show ?thesis
        by (auto simp: plan_claim_def resolve_verification_def resolve_async_def to_utc_def no_writes_def
            result_row_id_def Let_def)
    next
      case none: None
      show ?thesis
      proof (cases "vj_find_active_as_of (fc_claim_id c) p (instant_of candidate) db")
        case None
        let ?st = "(no_writes ASYNC_REQUIRED ''VERIFICATION_PENDING'')\<lparr>rs_pending_job := Some
            \<lparr>jw_job_id = job_id_for (fc_claim_id c) p, jw_claim_id = fc_claim_id c, jw_provider = p,
             jw_status = ''VERIFICATION_PENDING'', jw_created_at = Some (to_utc (to_utc candidate)), jw_trace_id = None\<rparr>\<rparr>"
        have "plan_job c p candidate trace ?st plan = Inr plan'"
          using True none None assms(6)
          by (simp add: plan_claim_def resolve_verification_def resolve_async_def to_utc_def no_writes_def Let_def)
        then show ?thesis
          by (rule plan_job_new_ok [OF assms(1), where t = "to_utc (to_utc candidate)", rotated]) (use assms(3) in \<open>simp_all add: no_writes_def to_utc_def\<close>)
      next
        case (Some j)
        let ?st = "(no_writes ASYNC_REQUIRED ''VERIFICATION_PENDING'')\<lparr>rs_reused_job_id := Some (vj_job_id j)\<rparr>"
        have "plan_job c p candidate trace ?st plan = Inr plan'"
          using True none Some assms(6)
          by (simp add: plan_claim_def resolve_verification_def resolve_async_def to_utc_def no_writes_def Let_def)
        with active_job_row [OF Some] assms(3) show ?thesis
          by (intro plan_job_reused_ok [OF assms(1)]) (auto simp: no_writes_def)
      qed
    qed
  next
    case False
    let ?r = "terminal_result_for c (verification_requirement c) (to_utc candidate) policy"
    let ?w = "\<lparr>rw_verification_id = plan_verification_id_of H J (fc_claim_id c) p ?r, rw_claim_id = fc_claim_id c,
      rw_provider = p, rw_result = ?r, rw_available_at = to_utc (to_utc candidate)\<rparr>"
    have w: "planned_result snap ?w"
      using assms(3) ok by (simp add: planned_result_def plan_verification_id_of_def terminal_result_valid to_utc_def)
         (simp add: terminal_result_for_def plain_result_def terminal_statuses_def Let_def to_utc_def)
    have status: "vr_status ?r = (if verification_requirement c = NOT_VERIFIABLE then ''NOT_VERIFIABLE'' else ''NOT_REQUIRED'')"
      by (simp add: terminal_result_for_def plain_result_def Let_def)
    show ?thesis
    proof (cases "\<exists>x. ?latest = Some x \<and> vx_status x = vr_status ?r")
      case True
      then obtain x where x: "?latest = Some x" "vx_status x = vr_status ?r" by blast
      have "plan_reused V c p candidate policy (vx_status x) (vx_verification_id x) db plan = Inr plan'"
        using False x assms(6) nonempty [OF x(1)]
        by (simp add: plan_claim_def resolve_verification_def resolve_deterministic_def to_utc_def no_writes_def
            deterministic_terminal_result_def terminal_result_valid result_row_id_def Let_def)
      then show ?thesis by (rule plan_reused_ok [OF assms(1,2,3) x(1) _ V])
    next
      case new: False
      have "plan_terminal p ?w plan = Inr plan'"
        using False new assms(6)
        by (auto simp: plan_claim_def resolve_verification_def resolve_deterministic_def no_writes_def
            deterministic_terminal_result_def terminal_result_valid Let_def to_utc_def split: option.splits)
      then show ?thesis by (rule plan_terminal_ok [OF assms(1) _ w]) simp
    qed
  qed
qed

lemma build_plan_ok:
  assumes "build_initial_verification_plan H J V claims p candidate policy trace db = Inr plan"
    and "vdb_ok J db" and "instant_of candidate \<le> snap"
    and "reads_back J V db" and "datetime_ok (to_utc candidate)"
  shows "plan_ok J snap db plan"
proof (rule foldM_invariant [OF assms(1) [unfolded build_initial_verification_plan_def],
      where I = "plan_ok J snap db"])
  show "plan_ok J snap db empty_plan" by (simp add: plan_ok_def empty_plan_def)
next
  fix plan1 c plan2
  assume a: "plan_ok J snap db plan1"
    and b: "plan_claim H J V p candidate policy trace db plan1 c = Inr plan2"
  show "plan_ok J snap db plan2"
    by (rule plan_claim_ok [OF a assms(2-5) b])
qed

section \<open>Storing makes the entries closed\<close>

text \<open>Storing only appends rows.\<close>

definition extends :: "vdb \<Rightarrow> vdb \<Rightarrow> bool" where
  "extends db db' \<longleftrightarrow> set (vd_jobs db) \<subseteq> set (vd_jobs db') \<and> set (vd_results db) \<subseteq> set (vd_results db')"

lemma extends_trans: "extends db db' \<Longrightarrow> extends db' db'' \<Longrightarrow> extends db db''"
  by (auto simp: extends_def)

lemma save_job_step:
  assumes "vdb_ok J db" and "planned_job snap w" and "job_of_write w = Inr j"
    and "insert_job_ignore j db = Inr (new, db')"
  shows "vdb_ok J db' \<and> extends db db' \<and>
     (\<exists>k \<in> set (vd_jobs db'). vj_claim_id k = jw_claim_id w \<and> vj_provider k = jw_provider w \<and>
        (k \<in> set (vd_jobs db) \<or> instant_of (vj_created_at k) \<le> snap)) \<and>
     (\<forall>k \<in> set (vd_jobs db'). k \<in> set (vd_jobs db) \<or> instant_of (vj_created_at k) \<le> snap)"
proof -
  have j: "job_ok j" "vj_claim_id j = jw_claim_id w" "vj_provider j = jw_provider w"
      "instant_of (vj_created_at j) \<le> snap"
    using assms(2,3) by (auto simp: job_of_write_def planned_job_def job_ok_def)
  show ?thesis
  proof (cases "find (\<lambda>k. vj_claim_id k = vj_claim_id j \<and> vj_provider k = vj_provider j) (vd_jobs db)")
    case None
    then have "db' = db\<lparr>vd_jobs := row_add j (vd_jobs db)\<rparr>" "row_get vj_job_id (vj_job_id j) (vd_jobs db) = None"
      using assms(4) by (auto simp: insert_job_ignore_def split: if_splits)
    then show ?thesis using assms(1) j
      by (auto simp: vdb_ok_def extends_def keys_distinct_add_iff)
  next
    case (Some k)
    then have "db' = db" using assms(4) by (auto simp: insert_job_ignore_def)
    then show ?thesis using assms(1) j find_Some_in [OF Some] by (auto simp: extends_def)
  qed
qed

text \<open>Two availabilities with the same UTC text are one moment.\<close>

lemma canon_time_instant:
  assumes "canon_time (Some a) = canon_time (Some b)" and "datetime_ok (to_utc a)" "datetime_ok (to_utc b)"
  shows "instant_of a = instant_of b"
proof -
  have same: "isoformat (to_utc a) = isoformat (to_utc b)" using assms(1) by (simp add: canon_time_def)
  have "Inr (to_utc a) = from_isoformat (isoformat (to_utc a))" by (rule iso_roundtrip [OF assms(2), symmetric])
  also have "\<dots> = from_isoformat (isoformat (to_utc b))" by (simp only: same)
  also have "\<dots> = Inr (to_utc b)" by (rule iso_roundtrip [OF assms(3)])
  finally show ?thesis by (simp add: to_utc_def)
qed

lemma vdb_ok_insert_result: "vdb_ok J db \<Longrightarrow> row_ok J x \<Longrightarrow> vdb_ok J (insert_result_ignore x db)"
  by (auto simp: vdb_ok_def insert_result_ignore_def keys_distinct_add_iff)

lemma save_result_step:
  assumes "vdb_ok J db" and "times_ok db" and "planned_result snap w"
    and "persist_result (row_of_write J w) db = Inr (x, db')"
  shows "vdb_ok J db' \<and> times_ok db' \<and> extends db db' \<and> vd_jobs db' = vd_jobs db \<and>
     (\<exists>y \<in> set (vd_results db'). vx_verification_id y = rw_verification_id w \<and> visible snap y \<and>
        same_immutable y (row_of_write J w))"
proof -
  let ?r = "row_of_write J w"
  have ok: "row_ok J ?r" "vx_verification_id ?r = rw_verification_id w" "vx_available_at ?r = Some (rw_available_at w)"
    using assms(3) by (auto simp: row_ok_def planned_result_def row_of_write_def Let_def)
  have db': "db' = insert_result_ignore ?r db"
    and x: "row_get vx_verification_id (rw_verification_id w) (vd_results db') = Some x" "same_immutable x ?r"
    using assms(4) ok(2) by (auto simp: persist_result_def Let_def split: option.splits if_splits)
  have stored: "vdb_ok J db'" unfolding db' by (rule vdb_ok_insert_result [OF assms(1) ok(1)])
  have ext: "extends db db'" and jobs: "vd_jobs db' = vd_jobs db"
    unfolding db' insert_result_ignore_def by (auto simp: extends_def)
  have times: "times_ok db'"
    using assms(2,3) ok(3) unfolding db' insert_result_ignore_def by (auto simp: times_ok_def planned_result_def)
  have mem: "x \<in> set (vd_results db')" "vx_verification_id x = rw_verification_id w"
    using row_get_Some_key [OF x(1)] by auto
  have "visible snap x"
  proof -
    have "canon_time (vx_available_at x) = canon_time (Some (rw_available_at w))"
      using x(2) ok(3) by (simp add: same_immutable_def)
    then obtain a where a: "vx_available_at x = Some a" "canon_time (Some a) = canon_time (Some (rw_available_at w))"
      by (auto simp: canon_time_def)
    have "datetime_ok (to_utc a)" "datetime_ok (to_utc (rw_available_at w))"
      using times mem(1) a(1) assms(3) by (simp_all add: times_ok_def planned_result_def)
    then have "instant_of a = instant_of (rw_available_at w)" by (rule canon_time_instant [OF a(2)])
    with a assms(3) show ?thesis by (simp add: visible_def planned_result_def)
  qed
  with mem x(2) have "\<exists>y \<in> set (vd_results db'). vx_verification_id y = rw_verification_id w \<and> visible snap y \<and>
      same_immutable y (row_of_write J w)" by blast
  with stored times ext jobs show ?thesis by simp
qed

lemma save_jobs:
  assumes "foldM (\<lambda>db w. try_bind (job_of_write w) (\<lambda>j. try_bind (insert_job_ignore j db) (\<lambda>r. Inr (snd r)))) db jobs = Inr db'"
    and "vdb_ok J db" and "\<forall>w \<in> set jobs. planned_job snap w"
  shows "vdb_ok J db' \<and> extends db db' \<and> vd_results db' = vd_results db \<and>
     (\<forall>w \<in> set jobs. \<exists>k \<in> set (vd_jobs db'). vj_claim_id k = jw_claim_id w \<and> vj_provider k = jw_provider w) \<and>
     (\<forall>k \<in> set (vd_jobs db'). k \<in> set (vd_jobs db) \<or> instant_of (vj_created_at k) \<le> snap)"
  using assms
proof (induction jobs arbitrary: db)
  case Nil
  then show ?case by (simp add: extends_def)
next
  case (Cons w jobs)
  then obtain j new db1 where j: "job_of_write w = Inr j" "insert_job_ignore j db = Inr (new, db1)"
    and rest: "foldM (\<lambda>db w. try_bind (job_of_write w) (\<lambda>j. try_bind (insert_job_ignore j db) (\<lambda>r. Inr (snd r)))) db1 jobs = Inr db'"
    by (auto simp: try_bind_Inr_iff)
  have w: "planned_job snap w" and ws: "\<forall>w \<in> set jobs. planned_job snap w" using Cons.prems(3) by auto
  note step = save_job_step [OF Cons.prems(2) w j]
  have same: "vd_results db1 = vd_results db" using j(2) by (auto simp: insert_job_ignore_def split: if_splits)
  note ih = Cons.IH [OF rest conjunct1 [OF step] ws]
  have jobs: "set (vd_jobs db1) \<subseteq> set (vd_jobs db')" using ih by (simp add: extends_def)
  show ?case
  proof (intro conjI ballI)
    show "vdb_ok J db'" using ih by blast
    show "extends db db'" using step ih extends_trans by blast
    show "vd_results db' = vd_results db" using ih same by simp
    show "\<exists>k \<in> set (vd_jobs db'). vj_claim_id k = jw_claim_id v \<and> vj_provider k = jw_provider v" if "v \<in> set (w # jobs)" for v
      using that step ih jobs by (cases "v = w") (blast, auto)
    show "k \<in> set (vd_jobs db) \<or> instant_of (vj_created_at k) \<le> snap" if "k \<in> set (vd_jobs db')" for k
      using that step ih by blast
  qed
qed

lemma save_results:
  assumes "foldM (\<lambda>db w. try_bind (persist_result (row_of_write J w) db) (\<lambda>r. Inr (snd r))) db ws = Inr db'"
    and "vdb_ok J db" and "times_ok db" and "\<forall>w \<in> set ws. planned_result snap w"
  shows "vdb_ok J db' \<and> extends db db' \<and> vd_jobs db' = vd_jobs db \<and> (\<forall>w \<in> set ws. \<exists>y \<in> set (vd_results db').
     vx_verification_id y = rw_verification_id w \<and> visible snap y \<and> same_immutable y (row_of_write J w))"
  using assms
proof (induction ws arbitrary: db)
  case Nil
  then show ?case by (simp add: extends_def)
next
  case (Cons w ws)
  then obtain x db1 where x: "persist_result (row_of_write J w) db = Inr (x, db1)"
    and rest: "foldM (\<lambda>db w. try_bind (persist_result (row_of_write J w) db) (\<lambda>r. Inr (snd r))) db1 ws = Inr db'"
    by (auto simp: try_bind_Inr_iff)
  have w: "planned_result snap w" and ws: "\<forall>w \<in> set ws. planned_result snap w" using Cons.prems(4) by auto
  note step = save_result_step [OF Cons.prems(2,3) w x]
  have ok: "vdb_ok J db1" "times_ok db1" using step by blast+
  note ih = Cons.IH [OF rest ok ws]
  have results: "set (vd_results db1) \<subseteq> set (vd_results db')" using ih by (simp add: extends_def)
  show ?case
  proof (intro conjI ballI)
    show "vdb_ok J db'" using ih by blast
    show "extends db db'" using step ih extends_trans by blast
    show "vd_jobs db' = vd_jobs db" using ih step by simp
    show "\<exists>y \<in> set (vd_results db'). vx_verification_id y = rw_verification_id v \<and> visible snap y \<and> same_immutable y (row_of_write J v)"
      if "v \<in> set (w # ws)" for v
      using that step ih results by (cases "v = w") (blast, auto)
  qed
qed

lemma closed_job:
  assumes "vdb_ok J db" and "j \<in> set (vd_jobs db)" and "entry_of_job jid (vj_claim_id j) (vj_provider j) e" and "jid = vj_job_id j"
  shows "closure_entry J (\<lambda>k. job_row k db) results snap e = Inr () \<longleftrightarrow> instant_of (vj_created_at j) \<le> snap"
proof -
  have "job_row jid db = Some j"
    using assms by (simp add: vdb_ok_def job_row_def row_get_member)
  moreover have "jid \<noteq> []" using assms by (auto simp: vdb_ok_def job_ok_def)
  ultimately show ?thesis using assms(3)
    by (simp add: closure_entry_def entry_of_job_def closure_job_def ensure_def)
qed

lemma closed_result:
  assumes "vdb_ok J db" and "x \<in> set (vd_results db)" and "vid = vx_verification_id x" and "visible snap x"
    and "entry_of_result vid (vx_provider x) r e" and "vx_claim_id x = vr_claim_id r" "vx_status x = vr_status r"
    and "same_dict (vx_result_payload x) (vr_dump J r)" and "vr_status r \<in> set terminal_statuses"
  shows "closure_entry J jobs (\<lambda>k. vj_get_result k db) snap e = Inr ()"
proof -
  have "vj_get_result vid db = Some x" "vid \<noteq> []"
    using assms by (auto simp: vdb_ok_def vj_get_result_def row_get_member row_ok_def)
  moreover have "\<exists>a. vx_available_at x = Some a \<and> instant_of a \<le> snap"
    using assms(4) by (auto simp: visible_def split: option.splits)
  moreover have "vr_status r \<noteq> ''VERIFICATION_PENDING''" using assms(9) by (auto simp: terminal_statuses_def)
  ultimately show ?thesis using assms
    by (auto simp: closure_entry_def entry_of_result_def closure_result_def same_dict_def canonical_json_def)
qed

text \<open>A planned job stands for one row of its claim and provider, stored before or now.\<close>

lemma planned_job_row:
  assumes "vdb_ok J db" and "planned_job snap w" and "k \<in> set (vd_jobs db)"
    and "vj_claim_id k = jw_claim_id w" and "vj_provider k = jw_provider w"
    and "entry_of_job (jw_job_id w) (jw_claim_id w) (jw_provider w) e"
  shows "closure_entry J (\<lambda>k. job_row k db) results snap e = Inr () \<longleftrightarrow> instant_of (vj_created_at k) \<le> snap"
proof -
  have "job_ok k" using assms(1,3) by (auto simp: vdb_ok_def)
  then show ?thesis using assms
    by (intro closed_job [OF assms(1,3), of "jw_job_id w"]) (auto simp: planned_job_def job_ok_def)
qed

lemma justified_closed:
  assumes "justified J snap db plan e" and "plan_ok J snap db plan" and "vdb_ok J db'" and "extends db db'"
    and jobs: "\<forall>w \<in> set (vp_pending_jobs_to_insert plan). \<exists>k \<in> set (vd_jobs db').
      vj_claim_id k = jw_claim_id w \<and> vj_provider k = jw_provider w \<and> instant_of (vj_created_at k) \<le> snap"
    and results: "\<forall>w \<in> set (vp_terminal_results_to_insert plan). \<exists>y \<in> set (vd_results db').
      vx_verification_id y = rw_verification_id w \<and> visible snap y \<and> same_immutable y (row_of_write J w)"
  shows "closure_entry J (\<lambda>k. job_row k db') (\<lambda>k. vj_get_result k db') snap e = Inr ()"
  using assms(1) unfolding justified_def
proof (elim disjE bexE exE conjE)
  fix w assume w: "w \<in> set (vp_terminal_results_to_insert plan)"
    and e: "entry_of_result (rw_verification_id w) (rw_provider w) (rw_result w) e"
  obtain y where y: "y \<in> set (vd_results db')" "vx_verification_id y = rw_verification_id w" "visible snap y"
      "same_immutable y (row_of_write J w)" using results w by blast
  have "planned_result snap w" using assms(2) w by (simp add: plan_ok_def)
  with y e show ?thesis
    by (intro closed_result [OF assms(3) y(1)])
       (auto simp: same_immutable_def row_of_write_def planned_result_def Let_def)
next
  fix w assume w: "w \<in> set (vp_pending_jobs_to_insert plan)"
    and e: "entry_of_job (jw_job_id w) (jw_claim_id w) (jw_provider w) e"
  obtain k where k: "k \<in> set (vd_jobs db')" "vj_claim_id k = jw_claim_id w" "vj_provider k = jw_provider w"
      "instant_of (vj_created_at k) \<le> snap"
    using jobs w by blast
  have "planned_job snap w" using assms(2) w by (simp add: plan_ok_def)
  from planned_job_row [OF assms(3) this k(1-3) e] k(4) show ?thesis by blast
next
  fix j assume "j \<in> set (vd_jobs db)" and t: "instant_of (vj_created_at j) \<le> snap"
    and e: "entry_of_job (vj_job_id j) (vj_claim_id j) (vj_provider j) e"
  then have "j \<in> set (vd_jobs db')" using assms(4) by (auto simp: extends_def)
  from closed_job [OF assms(3) this e refl] t show ?thesis by blast
next
  fix x r assume "x \<in> set (vd_results db)" and r: "vx_result_payload x = vr_dump J r" "vx_claim_id x = vr_claim_id r"
      "vx_status x = vr_status r" "vx_status x \<in> set terminal_statuses"
      "entry_of_result (vx_verification_id x) (vx_provider x) r e" and v: "visible snap x"
  then have "x \<in> set (vd_results db')" using assms(4) by (auto simp: extends_def)
  then show ?thesis by (rule closed_result [OF assms(3) _ refl v r(5,2,3)]) (use r in \<open>auto simp: same_dict_def\<close>)
qed

lemma closure_named:
  "foldM (\<lambda>_ e. closure_entry J jobs results snap e) () es = Inr ()
     \<longleftrightarrow> (\<forall>e \<in> set es. closure_entry J jobs results snap e = Inr ())"
  by (induction es) (auto simp: try_bind_Inr_iff)

lemma closure_entry_restricted:
  assumes "e \<in> set es"
  shows "closure_entry J (\<lambda>k. if k \<in> set (named_ids ve_verification_job_id es) then jobs k else None)
     (\<lambda>k. if k \<in> set (named_ids ve_verification_id es) then results k else None) snap e =
     closure_entry J jobs results snap e"
  using assms by (force simp: closure_entry_def named_ids_def truthy_def split: option.splits)

text \<open>
  C23. When a plan keeps the snapshot closed. A plan is built from well-formed tables and stored there:
  the tables stay well formed, and every entry of its artifact passes the closure check of the snapshot
  transaction, whichever of the four ways (new or reused result, new or reused job) it came from, exactly
  when no claim it plans a new job for already has a job created later than the snapshot. Such a job makes
  the insert of the planned one be ignored, and the check then refuses the entry. The plan is made no
  later than the snapshot, the times are Python datetimes, and \<open>V\<close> reads stored payloads back.
\<close>

theorem plan_satisfies_closure:
  assumes "vdb_ok J db" and "reads_back J V db" and "times_ok db" and "datetime_ok (to_utc candidate)"
    and "instant_of candidate \<le> instant_of created_at"
    and "build_initial_verification_plan H J V claims provider candidate policy trace db = Inr plan"
    and "save_verification_bundle J (vp_terminal_results_to_insert plan) (vp_pending_jobs_to_insert plan) db = Inr db'"
  shows "vdb_ok J db' \<and>
    (validate_verification_closure J (vp_artifact_results plan) db' created_at = Inr () \<longleftrightarrow>
     (\<forall>w \<in> set (vp_pending_jobs_to_insert plan). \<forall>j \<in> set (vd_jobs db).
        vj_claim_id j = jw_claim_id w \<and> vj_provider j = jw_provider w \<longrightarrow> instant_of (vj_created_at j) \<le> instant_of created_at))"
proof -
  let ?snap = "instant_of created_at"
  have plan: "plan_ok J ?snap db plan" by (rule build_plan_ok [OF assms(6,1,5,2,4)])
  obtain db1 where jobs: "foldM (\<lambda>db w. try_bind (job_of_write w) (\<lambda>j. try_bind (insert_job_ignore j db)
        (\<lambda>r. Inr (snd r)))) db (vp_pending_jobs_to_insert plan) = Inr db1"
    and res: "foldM (\<lambda>db w. try_bind (persist_result (row_of_write J w) db) (\<lambda>r. Inr (snd r))) db1
        (vp_terminal_results_to_insert plan) = Inr db'"
    using assms(7) by (auto simp: save_verification_bundle_def try_bind_Inr_iff)
  have s1: "vdb_ok J db1 \<and> extends db db1 \<and> vd_results db1 = vd_results db \<and> (\<forall>w \<in> set (vp_pending_jobs_to_insert plan).
      \<exists>k \<in> set (vd_jobs db1). vj_claim_id k = jw_claim_id w \<and> vj_provider k = jw_provider w) \<and>
      (\<forall>k \<in> set (vd_jobs db1). k \<in> set (vd_jobs db) \<or> instant_of (vj_created_at k) \<le> ?snap)"
    using plan by (intro save_jobs [OF jobs assms(1)]) (simp add: plan_ok_def)
  then have ok1: "vdb_ok J db1" "times_ok db1" using assms(3) by (auto simp: times_ok_def)
  have s2: "vdb_ok J db' \<and> extends db1 db' \<and> vd_jobs db' = vd_jobs db1 \<and> (\<forall>w \<in> set (vp_terminal_results_to_insert plan).
      \<exists>y \<in> set (vd_results db'). vx_verification_id y = rw_verification_id w \<and> visible ?snap y \<and> same_immutable y (row_of_write J w))"
    using plan by (intro save_results [OF res ok1]) (simp add: plan_ok_def)
  have ok': "vdb_ok J db'" and ext: "extends db db'" and same: "vd_jobs db' = vd_jobs db1"
    using s1 s2 extends_trans by blast+
  let ?entry = "closure_entry J (\<lambda>k. job_row k db') (\<lambda>k. vj_get_result k db') ?snap"
  have check: "validate_verification_closure J (vp_artifact_results plan) db' created_at = Inr () \<longleftrightarrow>
      (\<forall>e \<in> set (vp_artifact_results plan). ?entry e = Inr ())"
    by (simp add: validate_verification_closure_def verify_initial_verification_closure_def closure_named
        closure_entry_restricted)
  have "?entry e = Inr ()" if e: "e \<in> set (vp_artifact_results plan)"
    and none: "\<forall>w \<in> set (vp_pending_jobs_to_insert plan). \<forall>j \<in> set (vd_jobs db).
      vj_claim_id j = jw_claim_id w \<and> vj_provider j = jw_provider w \<longrightarrow> instant_of (vj_created_at j) \<le> ?snap" for e
  proof (rule justified_closed [OF _ plan ok' ext])
    show "justified J ?snap db plan e" using plan e by (simp add: plan_ok_def)
    show "\<forall>w \<in> set (vp_pending_jobs_to_insert plan). \<exists>k \<in> set (vd_jobs db').
        vj_claim_id k = jw_claim_id w \<and> vj_provider k = jw_provider w \<and> instant_of (vj_created_at k) \<le> ?snap"
      unfolding same using s1 none by blast
  qed (use s2 in blast)
  moreover have "\<exists>e \<in> set (vp_artifact_results plan). ?entry e \<noteq> Inr ()"
    if w: "w \<in> set (vp_pending_jobs_to_insert plan)" and j: "j \<in> set (vd_jobs db)"
      "vj_claim_id j = jw_claim_id w" "vj_provider j = jw_provider w" "\<not> instant_of (vj_created_at j) \<le> ?snap" for w j
  proof -
    obtain e where e: "e \<in> set (vp_artifact_results plan)" "entry_of_job (jw_job_id w) (jw_claim_id w) (jw_provider w) e"
      and pw: "planned_job ?snap w" using plan w by (auto simp: plan_ok_def)
    have "j \<in> set (vd_jobs db')" using ext j(1) by (auto simp: extends_def)
    from planned_job_row [OF ok' pw this j(2,3) e(2)] j(4) e(1) show ?thesis by blast
  qed
  ultimately show ?thesis using ok' unfolding check by blast
qed

definition example_fact :: "string \<Rightarrow> string \<Rightarrow> string \<Rightarrow> financial_claim" where
  "example_fact cid ty category = example_claim_record
     \<lparr>fc_claim_id := cid, fc_claim_type := ty, fc_fact_category := category\<rparr>"

definition example_result_row :: vrow where
  "example_result_row = row_of_write isoformat
     \<lparr>rw_verification_id = ''v2'', rw_claim_id = ''c2'', rw_provider = ''quant'',
      rw_result = plain_result ''c2'' ''NOT_REQUIRED'', rw_available_at = Aware 3 0\<rparr>"

definition example_results :: vdb where
  "example_results = \<lparr>vd_jobs = [], vd_results = [example_result_row]\<rparr>"

definition example_validate :: "pydict \<Rightarrow> vresult result" where
  "example_validate d = (if d = vr_dump isoformat (plain_result ''c2'' ''NOT_REQUIRED'')
     then Inr (plain_result ''c2'' ''NOT_REQUIRED'') else Inl (ValueError ''invalid''))"

lemma plain_dump_inj:
  "vr_dump J (plain_result c st) = vr_dump J r \<Longrightarrow> r = plain_result c st"
  by (cases r) (auto simp: vr_dump_def plain_result_def jstr_opt_def jtime_def jftime_def
      split: option.splits ftime.splits)

lemma example_results_ok:
  "vdb_ok isoformat example_results" "times_ok example_results"
  "reads_back isoformat example_validate example_results"
proof -
  have "row_ok isoformat example_result_row"
    unfolding row_ok_def by (intro conjI exI [of _ "plain_result ''c2'' ''NOT_REQUIRED''"])
      (simp_all add: example_result_row_def row_of_write_def plain_result_def vresult_init_def
        result_statuses_def bound_statuses_def)
  then show "vdb_ok isoformat example_results"
    by (simp add: vdb_ok_def example_results_def keys_distinct_def)
  have "datetime_ok (Aware 3 0)" by code_simp
  then show "times_ok example_results"
    by (simp add: times_ok_def example_results_def example_result_row_def row_of_write_def to_utc_def Let_def)
  show "reads_back isoformat example_validate example_results"
    by (auto simp: reads_back_def example_results_def example_result_row_def row_of_write_def
        example_validate_def Let_def dest!: plain_dump_inj)
qed

theorem plan_satisfies_closure_witness:
  "\<exists>plan db'. build_initial_verification_plan (\<lambda>s. s) isoformat example_validate
       [example_fact ''c1'' ''PRICE'' ''FACT'', example_fact ''c2'' ''OPINION'' ''OPINION''] ''quant''
       (Naive 4) ''verification_rule.v1'' None example_results = Inr plan \<and>
     length (vp_artifact_results plan) = 2 \<and> length (vd_jobs db') = 1 \<and>
     validate_verification_closure isoformat (vp_artifact_results plan) db' (Naive 5) = Inr ()"
proof -
  let ?c1 = "example_fact ''c1'' ''PRICE'' ''FACT''" and ?c2 = "example_fact ''c2'' ''OPINION'' ''OPINION''"
  have req: "verification_requirement ?c1 = ASYNC_REQUIRED" "verification_requirement ?c2 = NOT_REQUIRED"
    "fc_claim_id ?c1 = ''c1''" "fc_claim_id ?c2 = ''c2''"
    by (simp_all add: verification_requirement_def is_quant_verifiable_def quant_verifiable_types_def example_fact_def)
  have latest: "vj_latest_terminal_as_of ''c1'' ''quant'' 4 (Some ''verification_rule.v1'') example_results = None"
    "vj_latest_terminal_as_of ''c2'' ''quant'' 4 (Some ''verification_rule.v1'') example_results = Some example_result_row"
    by (simp_all add: vj_latest_terminal_as_of_def example_results_def vx_available_by_def example_result_row_def
        row_of_write_def plain_result_def terminal_statuses_def vx_version_def dict_get_def vr_dump_def)
  have active: "vj_find_active_as_of ''c1'' ''quant'' 4 example_results = None"
    by (simp add: vj_find_active_as_of_def example_results_def)
  have row: "vx_verification_id example_result_row = ''v2''" "vx_status example_result_row = ''NOT_REQUIRED''"
      "vx_result_payload example_result_row = vr_dump isoformat (plain_result ''c2'' ''NOT_REQUIRED'')"
    by (simp_all add: example_result_row_def row_of_write_def plain_result_def Let_def)
  have stored: "find_terminal c p cand pol ''v2'' example_results = Some example_result_row" for c p cand pol
    by (simp add: find_terminal_def vj_get_result_def example_results_def row)
  have valid: "as_result example_validate (Some example_result_row) ''c2'' ''NOT_REQUIRED'' = Inr (plain_result ''c2'' ''NOT_REQUIRED'')"
    by (simp add: as_result_def row dump_defaults example_validate_def)
  obtain plan where plan: "build_initial_verification_plan (\<lambda>s. s) isoformat example_validate [?c1, ?c2] ''quant''
      (Naive 4) ''verification_rule.v1'' None example_results = Inr plan"
    and new: "vp_terminal_results_to_insert plan = []" "length (vp_artifact_results plan) = 2"
      "vp_pending_jobs_to_insert plan = [\<lparr>jw_job_id = job_id_for ''c1'' ''quant'', jw_claim_id = ''c1'',
        jw_provider = ''quant'', jw_status = ''VERIFICATION_PENDING'', jw_created_at = Some (Aware 4 0), jw_trace_id = None\<rparr>]"
    by (auto simp: build_initial_verification_plan_def plan_claim_def resolve_verification_def req resolve_async_def
        latest active stored valid row to_utc_def no_writes_def plan_job_def plan_reused_def result_row_id_def vresult_init_def
        plain_result_def result_statuses_def bound_statuses_def ventry_from_result_def ventry_init_def add_entry_def
        empty_plan_def resolve_deterministic_def deterministic_terminal_result_def terminal_result_for_def Let_def)
  obtain db' where db': "save_verification_bundle isoformat (vp_terminal_results_to_insert plan)
      (vp_pending_jobs_to_insert plan) example_results = Inr db'" and "length (vd_jobs db') = 1"
    by (simp add: save_verification_bundle_def new job_of_write_def insert_job_ignore_def example_results_def
        row_add_def)
  moreover have "instant_of (Naive 4) \<le> instant_of (Naive 5)" by simp
  moreover have candidate: "datetime_ok (to_utc (Naive 4))" by code_simp
  ultimately show ?thesis
    using plan_satisfies_closure [OF example_results_ok(1,3,2) _ _ plan, of "Naive 5" db'] candidate
      plan new(2) by (auto simp: example_results_def)
qed

section \<open>The tables under all their writers\<close>

definition write_sound :: "(string \<Rightarrow> string) \<Rightarrow> (pydt \<Rightarrow> string) \<Rightarrow> result_write \<Rightarrow> bool" where
  "write_sound H J w \<longleftrightarrow> vresult_init (rw_result w) = Inr (rw_result w) \<and> rw_claim_id w = vr_claim_id (rw_result w) \<and>
     vr_available_at (rw_result w) = Some (rw_available_at w) \<and>
     rw_verification_id w = plan_verification_id_of H J (rw_claim_id w) (rw_provider w) (rw_result w)"

definition plan_sound :: "(string \<Rightarrow> string) \<Rightarrow> (pydt \<Rightarrow> string) \<Rightarrow> verification_plan \<Rightarrow> bool" where
  "plan_sound H J plan \<longleftrightarrow> (\<forall>w \<in> set (vp_terminal_results_to_insert plan). write_sound H J w) \<and>
     (\<forall>w \<in> set (vp_pending_jobs_to_insert plan). jw_job_id w = job_id_for (jw_claim_id w) (jw_provider w))"

lemma resolved_writes:
  assumes "resolve_verification H J c p candidate policy db = Inr st"
  shows "(\<forall>t. rs_terminal_result st = Some t \<longrightarrow> write_sound H J t) \<and>
    (\<forall>j. rs_pending_job st = Some j \<longrightarrow> jw_job_id j = job_id_for (fc_claim_id c) p)"
  using assms
  by (auto simp: resolve_verification_def resolve_async_def resolve_deterministic_def deterministic_terminal_result_def
      terminal_result_valid try_bind_Inr_iff no_writes_def write_sound_def Let_def split: option.splits if_splits)
    (simp_all add: terminal_result_for_def plain_result_def to_utc_def Let_def)

lemma plan_claim_sound:
  assumes "plan_sound H J plan" and "plan_claim H J V p candidate policy trace db plan c = Inr plan'"
  shows "plan_sound H J plan'"
proof -
  obtain st where st: "resolve_verification H J c p candidate policy db = Inr st"
    using assms(2) by (auto simp: plan_claim_def try_bind_Inr_iff)
  from resolved_writes [OF st] assms st show ?thesis
    by (auto simp: plan_claim_def plan_terminal_def plan_reused_def plan_job_def add_entry_def plan_sound_def try_bind_Inr_iff
        Let_def split: option.splits if_splits)
qed

lemma build_plan_sound:
  assumes "build_initial_verification_plan H J V claims p candidate policy trace db = Inr plan"
  shows "plan_sound H J plan"
  by (rule foldM_invariant [OF assms [unfolded build_initial_verification_plan_def], where I = "plan_sound H J"])
     (simp add: plan_sound_def empty_plan_def, rule plan_claim_sound)

lemma row_of_write_sound: "write_sound H J w \<Longrightarrow> row_sound H J (row_of_write J w)"
  unfolding row_sound_def
  by (rule exI [of _ "rw_result w"]) (simp add: write_sound_def row_columns_def row_of_write_def Let_def)

lemma vdb_sound_save:
  assumes "save_verification_bundle J (vp_terminal_results_to_insert plan) (vp_pending_jobs_to_insert plan) db = Inr db'"
    and "plan_sound H J plan" and "vdb_sound H J db"
  shows "vdb_sound H J db'"
proof -
  let ?insert = "\<lambda>db w. try_bind (job_of_write w) (\<lambda>j. try_bind (insert_job_ignore j db) (\<lambda>r. Inr (snd r)))"
  obtain db1 where jobs: "foldM ?insert db (vp_pending_jobs_to_insert plan) = Inr db1"
    and res: "foldM (\<lambda>db w. try_bind (persist_result (row_of_write J w) db) (\<lambda>r. Inr (snd r))) db1
        (vp_terminal_results_to_insert plan) = Inr db'"
    using assms(1) by (auto simp: save_verification_bundle_def try_bind_Inr_iff)
  have job: "vdb_sound H J b" if "?insert a w = Inr b" "vdb_sound H J a" "jw_job_id w = job_id_for (jw_claim_id w) (jw_provider w)" for a w b
    using that by (auto simp: try_bind_Inr_iff job_of_write_def insert_job_ignore_def vdb_sound_def keys_distinct_add_iff
        job_ok_def split: option.splits if_splits)
  have "vdb_sound H J db1" if "foldM ?insert a ws = Inr db1" "vdb_sound H J a"
    "\<forall>w \<in> set ws. jw_job_id w = job_id_for (jw_claim_id w) (jw_provider w)" for a ws
    using that
  proof (induction ws arbitrary: a)
    case (Cons w ws)
    from Cons.prems(1) obtain b where b: "?insert a w = Inr b" and rest: "foldM ?insert b ws = Inr db1"
      by (simp only: foldM.simps try_bind_Inr_iff) blast
    have "vdb_sound H J b" using job [OF b Cons.prems(2)] Cons.prems(3) by simp
    with Cons.IH [OF rest] Cons.prems(3) show ?case by simp
  qed simp
  then have "vdb_sound H J db1" using jobs assms(2,3) by (simp add: plan_sound_def)
  moreover have "vdb_sound H J db'" if "foldM (\<lambda>db w. try_bind (persist_result (row_of_write J w) db) (\<lambda>r. Inr (snd r))) a ws = Inr db'"
    "vdb_sound H J a" "\<forall>w \<in> set ws. write_sound H J w" for a ws
    using that
  proof (induction ws arbitrary: a)
    case (Cons w ws)
    then obtain x b where b: "persist_result (row_of_write J w) a = Inr (x, b)"
      and rest: "foldM (\<lambda>db w. try_bind (persist_result (row_of_write J w) db) (\<lambda>r. Inr (snd r))) b ws = Inr db'"
      by (auto simp: try_bind_Inr_iff)
    have "vdb_sound H J b" by (rule vdb_sound_persist [OF b Cons.prems(2)]) (use Cons.prems(3) row_of_write_sound in simp)
    with Cons.IH [OF rest] Cons.prems(3) show ?case by simp
  qed simp
  ultimately show ?thesis using res assms(2) by (simp add: plan_sound_def)
qed

text \<open>
  The three writers: a call of the job repository, the result of a refresh, and a snapshot that stores a
  plan, made on an earlier state of the tables. What raises is rolled back.
\<close>

datatype vt_op =
    VtJob vj_op
  | VtRefresh string string vresult instant
  | VtPlan "pydict \<Rightarrow> vresult result" "financial_claim list" string pydt string "string option" vdb

fun vt_apply :: "(string \<Rightarrow> string) \<Rightarrow> (pydt \<Rightarrow> string) \<Rightarrow> vdb \<Rightarrow> vt_op \<Rightarrow> vdb result" where
  "vt_apply H J db (VtJob op) = vj_apply H J db op"
| "vt_apply H J db (VtRefresh jid w res now) = try_bind (refresh_result H J jid w res now db) (\<lambda>r. Inr (snd r))"
| "vt_apply H J db (VtPlan V claims p candidate policy trace earlier) =
     try_bind (build_initial_verification_plan H J V claims p candidate policy trace earlier) (\<lambda>plan.
       save_verification_bundle J (vp_terminal_results_to_insert plan) (vp_pending_jobs_to_insert plan) db)"

definition vt_step :: "(string \<Rightarrow> string) \<Rightarrow> (pydt \<Rightarrow> string) \<Rightarrow> vdb \<Rightarrow> vt_op \<Rightarrow> vdb" where
  "vt_step H J db op = (case vt_apply H J db op of Inl e \<Rightarrow> db | Inr db' \<Rightarrow> db')"

text \<open>A completion and a refresh hand in a constructed result, one its validators accepted.\<close>

fun vt_valid_op :: "vt_op \<Rightarrow> bool" where
  "vt_valid_op (VtJob op) = vj_valid_op op"
| "vt_valid_op (VtRefresh jid w res now) = (vresult_init res = Inr res)"
| "vt_valid_op (VtPlan V claims p candidate policy trace earlier) = True"

lemma vt_step_sound:
  assumes "vdb_sound H J db" and "vt_valid_op op"
  shows "vdb_sound H J (vt_step H J db op)"
proof (cases op)
  case (VtJob c)
  then have "vt_step H J db op = vj_step H J db c" by (simp add: vt_step_def vj_step_def)
  with vdb_sound_step [OF assms(1), of c] assms(2) VtJob show ?thesis by simp
next
  case (VtRefresh jid w res now)
  with assms vdb_sound_refresh [of H J jid w res now db] show ?thesis
    by (cases "refresh_result H J jid w res now db") (auto simp: vt_step_def)
next
  case (VtPlan V claims p candidate policy trace earlier)
  with assms(1) build_plan_sound vdb_sound_save show ?thesis
    by (auto simp: vt_step_def try_bind_Inr_iff split: sum.splits)
qed



end
