(* ===== verification/Source_Head.thy ===== *)
theory Source_Head
  imports Prelude Lease
begin

text \<open>
  The head of a content source: the row that names its latest snapshot. It is advanced by an
  \<open>INSERT .. ON CONFLICT DO UPDATE\<close> from the snapshot store
  (\<open>adapters/postgres/repositories/snapshot_repository.py\<close>) and from a verification refresh
  (\<open>application/verification/closure.py\<close>), each with a savepoint fallback for other dialects, and
  set directly by a refresh that holds its lock (\<open>application/verification/transaction.py\<close>).
\<close>

record source_head =
  sh_source_identity_hash :: string
  sh_latest_snapshot_id :: string
  sh_latest_verified_snapshot_id :: "string option"
  sh_updated_at :: instant

text \<open>The SQL condition \<open>is_newer\<close> and the tuple comparison of the fallback.\<close>

definition is_newer :: "instant \<Rightarrow> string \<Rightarrow> source_head \<Rightarrow> bool" where
  "is_newer t sid h \<longleftrightarrow> t > sh_updated_at h \<or> (t = sh_updated_at h \<and> sid > sh_latest_snapshot_id h)"

definition head_is_newer :: "pydt \<Rightarrow> string \<Rightarrow> pydt \<Rightarrow> string \<Rightarrow> bool" where
  "head_is_newer t sid t' sid' \<longleftrightarrow> (instant_of t, sid) > (instant_of t', sid')"

definition new_head :: "string \<Rightarrow> string \<Rightarrow> string option \<Rightarrow> instant \<Rightarrow> source_head" where
  "new_head src sid verified t =
     \<lparr>sh_source_identity_hash = src, sh_latest_snapshot_id = sid,
      sh_latest_verified_snapshot_id = verified, sh_updated_at = t\<rparr>"

definition advance :: "string \<Rightarrow> instant \<Rightarrow> source_head \<Rightarrow> source_head" where
  "advance sid t h = h\<lparr>sh_latest_snapshot_id := sid, sh_updated_at := t\<rparr>"

definition write_head ::
  "string \<Rightarrow> source_head \<Rightarrow> (source_head \<Rightarrow> source_head) \<Rightarrow> source_head list \<Rightarrow> source_head list" where
  "write_head src fresh update heads =
     (case row_get sh_source_identity_hash src heads of
        None \<Rightarrow> row_add fresh heads
      | Some h \<Rightarrow> row_put sh_source_identity_hash (update h) heads)"

text \<open>The snapshot store: an initial snapshot says nothing about the verified head.\<close>

definition snapshot_upsert_head :: "string \<Rightarrow> string \<Rightarrow> instant \<Rightarrow> source_head list \<Rightarrow> source_head list" where
  "snapshot_upsert_head src sid t =
     write_head src (new_head src sid None t) (\<lambda>h. if is_newer t sid h then advance sid t h else h)"

definition snapshot_upsert_fallback :: "string \<Rightarrow> string \<Rightarrow> instant \<Rightarrow> source_head list \<Rightarrow> source_head list" where
  "snapshot_upsert_fallback src sid t =
     write_head src (new_head src sid None t)
       (\<lambda>h. if (t, sid) > (sh_updated_at h, sh_latest_snapshot_id h) then advance sid t h else h)"

text \<open>A verification refresh: the verified head is filled when it is empty, else only by a newer snapshot.\<close>

definition verified_is_newer :: "string option \<Rightarrow> instant \<Rightarrow> string \<Rightarrow> source_head \<Rightarrow> bool" where
  "verified_is_newer verified t sid h \<longleftrightarrow>
     verified \<noteq> None \<and> (sh_latest_verified_snapshot_id h = None \<or> is_newer t sid h)"

definition refresh_upsert_head ::
  "string \<Rightarrow> string \<Rightarrow> string option \<Rightarrow> instant \<Rightarrow> source_head list \<Rightarrow> source_head list" where
  "refresh_upsert_head src sid verified t =
     write_head src (new_head src sid verified t)
       (\<lambda>h. let h' = (if is_newer t sid h then advance sid t h else h)
            in if verified_is_newer verified t sid h
               then h'\<lparr>sh_latest_verified_snapshot_id := verified\<rparr> else h')"

definition refresh_upsert_fallback ::
  "string \<Rightarrow> string \<Rightarrow> string option \<Rightarrow> instant \<Rightarrow> source_head list \<Rightarrow> source_head list" where
  "refresh_upsert_fallback src sid verified t =
     write_head src (new_head src sid verified t)
       (\<lambda>h. if head_is_newer (Aware t 0) sid (Aware (sh_updated_at h) 0) (sh_latest_snapshot_id h)
            then (let h' = advance sid t h in if verified \<noteq> None
                  then h'\<lparr>sh_latest_verified_snapshot_id := verified\<rparr> else h')
            else h)"

section \<open>The dialects agree\<close>

lemma is_newer_pair: "is_newer t sid h \<longleftrightarrow> (t, sid) > (sh_updated_at h, sh_latest_snapshot_id h)"
  by (auto simp: is_newer_def less_prod_def)

lemma snapshot_dialects: "snapshot_upsert_fallback = snapshot_upsert_head"
  by (intro ext) (simp add: snapshot_upsert_fallback_def snapshot_upsert_head_def is_newer_pair)

lemma refresh_dialects_unverified: "refresh_upsert_fallback src sid None = refresh_upsert_head src sid None"
  by (intro ext) (simp add: refresh_upsert_fallback_def refresh_upsert_head_def is_newer_pair head_is_newer_def
      verified_is_newer_def Let_def cong: if_cong)

text \<open>
  With a verified snapshot they do not: an older verified refresh fills an empty verified head
  under PostgreSQL and SQLite, and is dropped by the fallback.
\<close>

lemma refresh_dialects_differ:
  "refresh_upsert_head ''s'' ''old'' (Some ''old'') 1 [new_head ''s'' ''new'' None 2]
     \<noteq> refresh_upsert_fallback ''s'' ''old'' (Some ''old'') 1 [new_head ''s'' ''new'' None 2]"
  by (simp add: refresh_upsert_head_def refresh_upsert_fallback_def write_head_def new_head_def is_newer_def
      verified_is_newer_def head_is_newer_def row_put_def)

section \<open>The writers of the head\<close>

text \<open>The heads, and of the stored snapshots their source and creation time.\<close>

record head_db =
  hd_heads :: "source_head list"
  hd_created :: "(string \<times> string \<times> instant) list"

text \<open>
  \<open>save\<close> of the snapshot store: only a snapshot that was inserted contends for the head, or any when the
  source has none. A stored id of another source is refused.
\<close>

definition save_head :: "string \<Rightarrow> string \<Rightarrow> instant \<Rightarrow> head_db \<Rightarrow> head_db result" where
  "save_head src sid t db =
     (case map_of (hd_created db) sid of
        None \<Rightarrow> Inr \<lparr>hd_heads = snapshot_upsert_head src sid t (hd_heads db), hd_created = (sid, src, t) # hd_created db\<rparr>
      | Some (src', t') \<Rightarrow>
          if src' \<noteq> src then Inl (SnapshotIntegrityError ''already stores a different payload'')
          else if row_get sh_source_identity_hash src (hd_heads db) = None
          then Inr (db\<lparr>hd_heads := snapshot_upsert_head src sid t (hd_heads db)\<rparr>)
          else Inr db)"

text \<open>
  The parent of a verification refresh, and whether it is the locked head: the snapshot the worker asked
  for, or the head when another refresh replaced it and it still contains the claim (\<open>contains\<close>).
\<close>

definition refresh_parent :: "(string \<Rightarrow> bool) \<Rightarrow> source_head option \<Rightarrow> string \<Rightarrow> string \<times> bool" where
  "refresh_parent contains head requested =
     (case head of
        None \<Rightarrow> (requested, False)
      | Some h \<Rightarrow>
          if sh_latest_snapshot_id h = requested then (requested, True)
          else if contains (sh_latest_snapshot_id h) then (sh_latest_snapshot_id h, True)
          else (requested, False))"

definition move_locked_head :: "string \<Rightarrow> bool \<Rightarrow> instant \<Rightarrow> source_head \<Rightarrow> source_head" where
  "move_locked_head sid verified t h =
     h\<lparr>sh_latest_snapshot_id := sid, sh_updated_at := t,
       sh_latest_verified_snapshot_id := (if verified then Some sid else sh_latest_verified_snapshot_id h)\<rparr>"

text \<open>The end of the transaction: the locked head, none, or that of another branch.\<close>

definition settle_head ::
  "string \<Rightarrow> source_head option \<Rightarrow> bool \<Rightarrow> string \<Rightarrow> bool \<Rightarrow> instant \<Rightarrow> source_head list \<Rightarrow> source_head list" where
  "settle_head src head locked sid verified t heads =
     (case head of
        None \<Rightarrow> refresh_upsert_head src sid (if verified then Some sid else None) t heads
      | Some h \<Rightarrow>
          if locked then row_put sh_source_identity_hash (move_locked_head sid verified t h) heads else heads)"

text \<open>
  What a refresh does to the heads: \<open>sid\<close> is the id of the snapshot it builds, \<open>verified\<close> tells a
  \<open>VERIFIED\<close> or \<open>PARTIALLY_VERIFIED\<close> result. Its creation time is not before that of its parent.
\<close>

definition refresh_head ::
  "(string \<Rightarrow> bool) \<Rightarrow> string \<Rightarrow> string \<Rightarrow> bool \<Rightarrow> instant \<Rightarrow> head_db \<Rightarrow> head_db result" where
  "refresh_head contains requested sid verified now db =
     (case map_of (hd_created db) requested of
        None \<Rightarrow> Inl (KeyError ''parent content snapshot not found'')
      | Some (src, t0) \<Rightarrow>
          (let head = row_get sh_source_identity_hash src (hd_heads db);
               (parent, locked) = refresh_parent contains head requested
           in case map_of (hd_created db) parent of
                None \<Rightarrow> Inl (JobIntegrityError ''source head points to missing snapshot'')
              | Some (src', t1) \<Rightarrow>
                  if \<not> contains parent
                  then Inl (JobIntegrityError ''parent snapshot does not contain the leased claim'')
                  else (let t = max now t1;
                            created = (if map_of (hd_created db) sid = None then (sid, src', t) # hd_created db else hd_created db)
                        in Inr \<lparr>hd_heads = settle_head src head locked sid verified t (hd_heads db), hd_created = created\<rparr>)))"

datatype head_write =
    Save string string instant
  | Refresh "string \<Rightarrow> bool" string string bool instant

fun head_apply :: "head_db \<Rightarrow> head_write \<Rightarrow> head_db result" where
  "head_apply db (Save src sid t) = save_head src sid t db"
| "head_apply db (Refresh contains requested sid verified now) = refresh_head contains requested sid verified now db"

definition head_step :: "head_db \<Rightarrow> head_write \<Rightarrow> head_db" where
  "head_step db w = (case head_apply db w of Inl e \<Rightarrow> db | Inr db' \<Rightarrow> db')"

section \<open>Ranks\<close>

definition rank_of :: "source_head \<Rightarrow> instant \<times> string" where
  "rank_of h = (sh_updated_at h, sh_latest_snapshot_id h)"

definition head_rank :: "source_head list \<Rightarrow> string \<Rightarrow> (instant \<times> string) option" where
  "head_rank hs src = map_option rank_of (row_get sh_source_identity_hash src hs)"

text \<open>The latest of a collection of snapshots, by time and then by id.\<close>

definition latest_of :: "(instant \<times> string) set \<Rightarrow> (instant \<times> string) option" where
  "latest_of ranks = (if ranks = {} then None else Some (Max ranks))"

lemma head_rank_write:
  assumes "\<And>h. sh_source_identity_hash (update h) = sh_source_identity_hash h"
    and "\<And>h. rank_of (update h) = max (rank_of h) r"
    and "sh_source_identity_hash fresh = src" and "rank_of fresh = r"
  shows "head_rank (write_head src fresh update hs) k =
    (if k \<noteq> src then head_rank hs k
     else Some (case head_rank hs k of None \<Rightarrow> r | Some r' \<Rightarrow> max r' r))"
proof (cases "row_get sh_source_identity_hash src hs")
  case None
  then show ?thesis using assms by (auto simp: head_rank_def write_head_def row_get_add split: option.splits)
next
  case (Some h)
  then have "sh_source_identity_hash h = src" by (rule row_get_Some_key [THEN conjunct1])
  with Some show ?thesis using assms by (simp add: head_rank_def write_head_def row_get_put)
qed

lemma rank_advance: "rank_of (if is_newer t sid h then advance sid t h else h) = max (rank_of h) (t, sid)"
  by (auto simp: is_newer_pair rank_of_def advance_def max_def)

lemma snapshot_upsert_rank:
  "head_rank (snapshot_upsert_head src sid t hs) k =
    (if k \<noteq> src then head_rank hs k
     else Some (case head_rank hs k of None \<Rightarrow> (t, sid) | Some r \<Rightarrow> max r (t, sid)))"
  unfolding snapshot_upsert_head_def
  by (rule head_rank_write) (simp_all add: rank_advance, simp_all add: advance_def new_head_def rank_of_def)

lemma refresh_upsert_rank:
  "head_rank (refresh_upsert_head src sid verified t hs) k =
    (if k \<noteq> src then head_rank hs k
     else Some (case head_rank hs k of None \<Rightarrow> (t, sid) | Some r \<Rightarrow> max r (t, sid)))"
proof -
  have "rank_of (h\<lparr>sh_latest_verified_snapshot_id := v\<rparr>) = rank_of h" for h v by (simp add: rank_of_def)
  then show ?thesis unfolding refresh_upsert_head_def
    by (intro head_rank_write) (simp_all add: rank_advance Let_def, simp_all add: advance_def new_head_def rank_of_def)
qed

lemma latest_of_insert:
  "finite R \<Longrightarrow> latest_of (insert r R) = Some (case latest_of R of None \<Rightarrow> r | Some m \<Rightarrow> max m r)"
  by (auto simp: latest_of_def max.commute)

section \<open>The log of a source\<close>

text \<open>
  How a write that succeeds reaches a head: the source, whether it sets the locked head, and the time and
  id of the snapshot. A refresh of a branch that is not the head reaches none.
\<close>

fun head_entry :: "head_db \<Rightarrow> head_write \<Rightarrow> (string \<times> bool \<times> instant \<times> string) option" where
  "head_entry db (Save src sid t) =
     (case map_of (hd_created db) sid of
        None \<Rightarrow> Some (src, False, t, sid)
      | Some (src', t') \<Rightarrow>
          if src' = src \<and> row_get sh_source_identity_hash src (hd_heads db) = None then Some (src, False, t, sid) else None)"
| "head_entry db (Refresh contains requested sid verified now) =
     (case map_of (hd_created db) requested of None \<Rightarrow> None | Some (src, t0) \<Rightarrow>
        (let head = row_get sh_source_identity_hash src (hd_heads db); parent = fst (refresh_parent contains head requested)
         in case map_of (hd_created db) parent of None \<Rightarrow> None | Some (src', t1) \<Rightarrow>
              if \<not> contains parent then None
              else if head = None then Some (src, False, max now t1, sid)
              else if snd (refresh_parent contains head requested) then Some (src, True, max now t1, sid) else None))"

fun head_log :: "head_db \<Rightarrow> head_write list \<Rightarrow> string \<Rightarrow> (bool \<times> instant \<times> string) list" where
  "head_log db [] src = []"
| "head_log db (w # ws) src =
     (case head_entry db w of None \<Rightarrow> [] | Some (k, e) \<Rightarrow> if k = src then [e] else []) @ head_log (head_step db w) ws src"

text \<open>The last entry that set the locked head, and what follows it.\<close>

definition since_locked :: "(bool \<times> 'a) list \<Rightarrow> 'a list" where
  "since_locked log = foldl (\<lambda>acc (locked, r). if locked then [r] else acc @ [r]) [] log"

text \<open>No refresh builds a snapshot whose id was stored before: it names its parent and the new result.\<close>

fun refreshes_new :: "string list \<Rightarrow> head_write list \<Rightarrow> bool" where
  "refreshes_new known [] \<longleftrightarrow> True"
| "refreshes_new known (Save src sid t # ws) \<longleftrightarrow> refreshes_new (sid # known) ws"
| "refreshes_new known (Refresh contains requested sid verified now # ws) \<longleftrightarrow>
     sid \<notin> set known \<and> refreshes_new (sid # known) ws"

text \<open>
  Every head names a stored snapshot of its source with its creation time, and every stored snapshot has a
  head of its source.
\<close>

definition heads_ok :: "head_db \<Rightarrow> bool" where
  "heads_ok db \<longleftrightarrow>
     (\<forall>src r. head_rank (hd_heads db) src = Some r \<longrightarrow> map_of (hd_created db) (snd r) = Some (src, fst r)) \<and>
     (\<forall>sid src t. map_of (hd_created db) sid = Some (src, t) \<longrightarrow> head_rank (hd_heads db) src \<noteq> None)"

lemma head_rank_row: "row_get sh_source_identity_hash src hs = Some h \<Longrightarrow> head_rank hs src = Some (rank_of h)"
  by (simp add: head_rank_def)

lemma head_rank_none: "head_rank hs src = None \<longleftrightarrow> row_get sh_source_identity_hash src hs = None"
  by (simp add: head_rank_def)

lemma heads_ok_stored:
  "heads_ok db \<Longrightarrow> map_of (hd_created db) sid = Some (src, t) \<Longrightarrow>
     \<exists>h. row_get sh_source_identity_hash src (hd_heads db) = Some h"
  unfolding heads_ok_def head_rank_none by blast

definition log_rank :: "(instant \<times> string) option \<Rightarrow> bool \<times> instant \<times> string \<Rightarrow> instant \<times> string" where
  "log_rank r e = (case r of None \<Rightarrow> snd e | Some m \<Rightarrow> if fst e then snd e else max m (snd e))"

lemma locked_rank:
  assumes "row_get sh_source_identity_hash src hs = Some h"
  shows "head_rank (row_put sh_source_identity_hash (move_locked_head sid verified t h) hs) k =
    (if k = src then Some (t, sid) else head_rank hs k)"
  using row_get_Some_key [OF assms] assms
  by (simp add: head_rank_def row_get_put move_locked_head_def rank_of_def)

text \<open>The effect of one write on the heads, and its log entry.\<close>

definition entry_effect :: "head_db \<Rightarrow> head_db \<Rightarrow> (string \<times> bool \<times> instant \<times> string) option \<Rightarrow> bool" where
  "entry_effect db db' entry \<longleftrightarrow>
     (\<forall>k. head_rank (hd_heads db') k =
        (case entry of None \<Rightarrow> head_rank (hd_heads db) k
         | Some (src, e) \<Rightarrow> if src = k then Some (log_rank (head_rank (hd_heads db) k) e) else head_rank (hd_heads db) k)) \<and>
     (\<forall>src e m. entry = Some (src, e) \<and> fst e \<and> head_rank (hd_heads db) src = Some m \<longrightarrow> fst m \<le> fst (snd e))"

lemma save_head_step:
  assumes "heads_ok db"
  shows "heads_ok (head_step db (Save src sid t)) \<and>
    entry_effect db (head_step db (Save src sid t)) (head_entry db (Save src sid t))"
proof (cases "map_of (hd_created db) sid")
  case None
  then have "head_step db (Save src sid t) =
      \<lparr>hd_heads = snapshot_upsert_head src sid t (hd_heads db), hd_created = (sid, src, t) # hd_created db\<rparr>"
    by (simp add: head_step_def save_head_def)
  with assms None show ?thesis
    by (auto simp: entry_effect_def heads_ok_def snapshot_upsert_rank log_rank_def max_def split: option.splits if_splits)
next
  case (Some st)
  then obtain src' t' where st: "map_of (hd_created db) sid = Some (src', t')" by (cases st) auto
  then have "src' = src \<Longrightarrow> row_get sh_source_identity_hash src (hd_heads db) \<noteq> None"
    using heads_ok_stored [OF assms st] by auto
  with st have "head_step db (Save src sid t) = db" "head_entry db (Save src sid t) = None"
    by (auto simp: head_step_def save_head_def)
  with assms show ?thesis by (simp add: entry_effect_def)
qed

lemma refresh_head_step:
  assumes "heads_ok db" and "map_of (hd_created db) sid = None" and w: "w = Refresh contains requested sid verified now"
  shows "heads_ok (head_step db w) \<and> entry_effect db (head_step db w) (head_entry db w)"
proof (cases "refresh_head contains requested sid verified now db")
  case (Inl e)
  then have "head_step db w = db" by (simp add: w head_step_def)
  moreover have "head_entry db w = None" using Inl
    by (auto simp: w refresh_head_def Let_def split: option.splits prod.splits if_splits)
  ultimately show ?thesis using assms(1) by (simp add: entry_effect_def)
next
  case (Inr db')
  then obtain src t0 where requested: "map_of (hd_created db) requested = Some (src, t0)"
    by (auto simp: refresh_head_def split: option.splits)
  then obtain h where h: "row_get sh_source_identity_hash src (hd_heads db) = Some h"
    using heads_ok_stored [OF assms(1)] by blast
  obtain parent locked where pl: "refresh_parent contains (Some h) requested = (parent, locked)" by fastforce
  with Inr requested h obtain src' t1 where parent: "map_of (hd_created db) parent = Some (src', t1)" "contains parent"
    by (auto simp: refresh_head_def Let_def split: option.splits if_splits)
  have head: "map_of (hd_created db) (sh_latest_snapshot_id h) = Some (src, sh_updated_at h)"
    using assms(1) head_rank_row [OF h] by (auto simp: heads_ok_def rank_of_def)
  have src': "src' = src" using pl parent(1) requested head by (auto simp: refresh_parent_def split: if_splits)
  let ?t = "max now t1"
  have db': "head_step db w = \<lparr>hd_heads = (if locked
        then row_put sh_source_identity_hash (move_locked_head sid verified ?t h) (hd_heads db) else hd_heads db),
      hd_created = (sid, src, ?t) # hd_created db\<rparr>"
    using requested h pl parent assms(2) src' by (simp add: w head_step_def refresh_head_def settle_head_def Let_def)
  have entry: "head_entry db w = (if locked then Some (src, True, ?t, sid) else None)"
    using requested h pl parent by (simp add: w Let_def)
  have later: "locked \<Longrightarrow> sh_updated_at h \<le> ?t"
    using pl head parent(1) by (auto simp: refresh_parent_def split: if_splits)
  show ?thesis unfolding db' entry
    using assms(1,2) later head_rank_row [OF h] locked_rank [OF h]
    by (cases locked) (auto simp: heads_ok_def entry_effect_def log_rank_def rank_of_def split: option.splits)
qed

lemma head_step_created:
  "map_of (hd_created (head_step db w)) sid \<noteq> None \<Longrightarrow>
     map_of (hd_created db) sid \<noteq> None \<or> (case w of Save src k t \<Rightarrow> sid = k | Refresh contains requested k verified now \<Rightarrow> sid = k)"
  by (cases w) (auto simp: head_step_def save_head_def refresh_head_def Let_def split: sum.splits option.splits prod.splits if_splits)

text \<open>A log in which a locked entry is never before the head it replaces.\<close>

fun log_forward :: "(instant \<times> string) option \<Rightarrow> (bool \<times> instant \<times> string) list \<Rightarrow> bool" where
  "log_forward r [] \<longleftrightarrow> True"
| "log_forward r (e # es) \<longleftrightarrow>
     (\<forall>m. fst e \<and> r = Some m \<longrightarrow> fst m \<le> fst (snd e)) \<and> log_forward (Some (log_rank r e)) es"

lemma heads_follow_log:
  assumes "heads_ok db" and "refreshes_new known ws" and "\<forall>sid. map_of (hd_created db) sid \<noteq> None \<longrightarrow> sid \<in> set known"
  shows "head_rank (hd_heads (run_ops head_step db ws)) src =
      foldl (\<lambda>r e. Some (log_rank r e)) (head_rank (hd_heads db) src) (head_log db ws src) \<and>
    log_forward (head_rank (hd_heads db) src) (head_log db ws src)"
  using assms
proof (induction ws arbitrary: db known)
  case Nil
  then show ?case by simp
next
  case (Cons w ws)
  let ?id = "case w of Save src k t \<Rightarrow> k | Refresh contains requested k verified now \<Rightarrow> k"
  have rest: "refreshes_new (?id # known) ws" using Cons.prems(2) by (cases w) simp_all
  have step: "heads_ok (head_step db w) \<and> entry_effect db (head_step db w) (head_entry db w)"
  proof (cases w)
    case (Save s k t)
    with save_head_step [OF Cons.prems(1)] show ?thesis by simp
  next
    case (Refresh contains requested k verified now)
    have "map_of (hd_created db) k = None" using Cons.prems(2) Refresh Cons.prems(3) [rule_format, of k] by (cases "map_of (hd_created db) k") simp_all
    from refresh_head_step [OF Cons.prems(1) this Refresh] show ?thesis .
  qed
  have known: "\<forall>sid. map_of (hd_created (head_step db w)) sid \<noteq> None \<longrightarrow> sid \<in> set (?id # known)"
  proof (intro allI impI)
    fix sid assume "map_of (hd_created (head_step db w)) sid \<noteq> None"
    from head_step_created [OF this] Cons.prems(3) [rule_format, of sid] show "sid \<in> set (?id # known)"
      by (cases w) (simp_all, blast+)
  qed
  note ih = Cons.IH [OF step [THEN conjunct1] rest known]
  have "head_rank (hd_heads (head_step db w)) src = (case head_entry db w of None \<Rightarrow> head_rank (hd_heads db) src
      | Some (k, e) \<Rightarrow> if k = src then Some (log_rank (head_rank (hd_heads db) src) e) else head_rank (hd_heads db) src)"
    using step by (auto simp: entry_effect_def split: option.splits)
  with ih step show ?case
    by (auto simp: entry_effect_def split: option.splits prod.splits if_splits)
qed

lemma log_forward_snoc:
  "log_forward r (es @ [e]) \<longleftrightarrow> log_forward r es \<and>
     (\<forall>m. fst e \<and> foldl (\<lambda>r e. Some (log_rank r e)) r es = Some m \<longrightarrow> fst m \<le> fst (snd e))"
  by (induction es arbitrary: r) auto

lemma fst_max: "fst (max a b) = max (fst a) (fst (b :: instant \<times> string))"
  by (auto simp: max_def less_eq_prod_def)

lemma folded_log:
  assumes "log_forward None log"
  shows "foldl (\<lambda>r e. Some (log_rank r e)) None log = latest_of (set (since_locked log)) \<and>
    map_option fst (foldl (\<lambda>r e. Some (log_rank r e)) None log) =
      (if log = [] then None else Some (Max ((\<lambda>e. fst (snd e)) ` set log)))"
  using assms
proof (induction log rule: rev_induct)
  case Nil
  show ?case by (simp add: since_locked_def latest_of_def)
next
  case (snoc e log)
  let ?r = "foldl (\<lambda>r e. Some (log_rank r e)) None log"
  from snoc have fwd: "log_forward None log" and le: "\<forall>m. fst e \<and> ?r = Some m \<longrightarrow> fst m \<le> fst (snd e)"
    by (simp_all add: log_forward_snoc)
  note ih = snoc.IH [OF fwd]
  have last: "since_locked (log @ [e]) = (if fst e then [snd e] else since_locked log @ [snd e])"
    by (cases e) (simp add: since_locked_def)
  show ?case
  proof (cases ?r)
    case None
    then have "log = []" using ih by (auto split: if_splits)
    then show ?thesis unfolding last by (cases e) (simp add: since_locked_def log_rank_def latest_of_def)
  next
    case (Some m)
    then have nonempty: "log \<noteq> []" and m: "fst m = Max ((\<lambda>e. fst (snd e)) ` set log)" using ih by (auto split: if_splits)
    have time: "Max ((\<lambda>e. fst (snd e)) ` set (log @ [e])) = max (fst m) (fst (snd e))"
      using nonempty by (simp add: m max.commute)
    have latest: "latest_of (set (since_locked log)) = Some m" using ih Some by simp
    show ?thesis
    proof (cases "fst e")
      case True
      then have "fst m \<le> fst (snd e)" using le Some by blast
      with True show ?thesis using Some time by (simp add: last log_rank_def latest_of_def max_def)
    next
      case False
      have "latest_of (set (since_locked (log @ [e]))) = Some (max m (snd e))"
        using latest_of_insert [of "set (since_locked log)" "snd e"] latest False by (simp add: last)
      then show ?thesis using Some False time by (simp add: log_rank_def fst_max)
    qed
  qed
qed

definition no_heads :: head_db where
  "no_heads = \<lparr>hd_heads = [], hd_created = []\<rparr>"

text \<open>
  C35. The head of a source is its latest snapshot, whatever saves and verification refreshes of any
  sources are committed and in whatever order: by time and then by id, it is the latest among the last
  refresh that set the locked head and what contended for the head since; and its time is the latest of
  all that ever reached it, so no write takes a head back in time. A refresh of the locked head replaces its
  parent whatever its id; one of a branch that is not the head leaves the head alone. The ids of refreshed
  snapshots are assumed new, as they name the parent and the new result.
\<close>

theorem source_head_is_latest:
  assumes "refreshes_new [] ws"
  shows "let log = head_log no_heads ws src; rank = head_rank (hd_heads (run_ops head_step no_heads ws)) src in
    rank = latest_of (set (since_locked log)) \<and>
    map_option fst rank = (if log = [] then None else Some (Max ((\<lambda>e. fst (snd e)) ` set log)))"
proof -
  have "heads_ok no_heads" by (simp add: heads_ok_def no_heads_def head_rank_def)
  from heads_follow_log [OF this assms, of src] have log:
    "head_rank (hd_heads (run_ops head_step no_heads ws)) src = foldl (\<lambda>r e. Some (log_rank r e)) None (head_log no_heads ws src)"
    "log_forward None (head_log no_heads ws src)"
    by (simp_all add: no_heads_def head_rank_def)
  from folded_log [OF log(2)] show ?thesis unfolding Let_def log(1) .
qed

text \<open>Two saves at one time, a refresh of the head at that time under a smaller id, and one of the branch it left.\<close>

definition refreshed_source :: "head_write list" where
  "refreshed_source = [Save ''s'' ''m'' 5, Save ''s'' ''k'' 5, Refresh (\<lambda>k. True) ''m'' ''b'' True 3,
     Refresh (\<lambda>k. k = ''m'') ''m'' ''z'' True 9]"

theorem source_head_is_latest_witness:
  "head_rank (hd_heads (run_ops head_step no_heads refreshed_source)) ''s'' =
     latest_of (set (since_locked (head_log no_heads refreshed_source ''s''))) \<and>
   head_log no_heads refreshed_source ''s'' = [(False, 5, ''m''), (False, 5, ''k''), (True, 5, ''b'')]"
proof -
  have "refreshes_new [] refreshed_source" by (simp add: refreshed_source_def)
  from source_head_is_latest [OF this, of "''s''"]
  have "head_rank (hd_heads (run_ops head_step no_heads refreshed_source)) ''s'' =
     latest_of (set (since_locked (head_log no_heads refreshed_source ''s'')))" unfolding Let_def by blast
  moreover have "head_log no_heads refreshed_source ''s'' = [(False, 5, ''m''), (False, 5, ''k''), (True, 5, ''b'')]"
    by (simp add: refreshed_source_def no_heads_def head_step_def save_head_def refresh_head_def settle_head_def refresh_parent_def
        snapshot_upsert_head_def write_head_def new_head_def is_newer_def advance_def move_locked_head_def row_add_def
        row_put_def max_def)
  ultimately show ?thesis by simp
qed

end
