(* ===== verification/Fenced_Effects.thy ===== *)
theory Fenced_Effects
  imports Content_Task Claims
begin

text \<open>
  \<open>PostgresFencedEffectUnitOfWork\<close> (\<open>application/fenced_effects.py\<close>): business effects of a content
  task, committed in the transaction that holds its lease. The database is the task table, the
  effect table and the tables \<open>'w\<close> that SQL callbacks write. \<open>H\<close> is the SHA-256 digest; the clock
  readings of one transaction are one \<open>now\<close>.
\<close>

section \<open>Data\<close>

record effect_intent =
  ei_effect_key :: string
  ei_effect_kind :: string
  ei_payload :: pydict

record effect_row =
  fx_effect_id :: string
  fx_task_id :: string
  fx_effect_key :: string
  fx_effect_kind :: string
  fx_payload_hash :: string
  fx_projection_payload :: pydict
  fx_fencing_token :: int
  fx_state :: string
  fx_attempt_count :: int
  fx_dispatch_owner :: "string option"
  fx_dispatch_expires_at :: "pydt option"
  fx_next_attempt_at :: "pydt option"
  fx_last_error_code :: "string option"
  fx_created_at :: pydt
  fx_completed_at :: "pydt option"

record 'w effect_db =
  ed_tasks :: task_table
  ed_effects :: "effect_row list"
  ed_world :: 'w

definition payload_hash :: "(string \<Rightarrow> string) \<Rightarrow> effect_intent \<Rightarrow> string" where
  "payload_hash H i = H (ascii_json (canonical_json (JObj (ei_payload i))))"

definition effect_id_of :: "(string \<Rightarrow> string) \<Rightarrow> string \<Rightarrow> string \<Rightarrow> string" where
  "effect_id_of H tid key = ''eff_'' @ H (tid @ ''|'' @ key)"

section \<open>Intents\<close>

definition effect_by_key :: "string \<Rightarrow> string \<Rightarrow> effect_row list \<Rightarrow> effect_row option" where
  "effect_by_key tid key effects = find (\<lambda>r. fx_task_id r = tid \<and> fx_effect_key r = key) effects"

definition new_effect :: "(string \<Rightarrow> string) \<Rightarrow> instant \<Rightarrow> string \<Rightarrow> int \<Rightarrow> effect_intent \<Rightarrow> effect_row" where
  "new_effect H now tid tok i =
     \<lparr>fx_effect_id = effect_id_of H tid (ei_effect_key i), fx_task_id = tid,
      fx_effect_key = ei_effect_key i, fx_effect_kind = ei_effect_kind i,
      fx_payload_hash = payload_hash H i, fx_projection_payload = ei_payload i,
      fx_fencing_token = tok, fx_state = ''PENDING'', fx_attempt_count = 0,
      fx_dispatch_owner = None, fx_dispatch_expires_at = None, fx_next_attempt_at = None,
      fx_last_error_code = None, fx_created_at = Aware now 0, fx_completed_at = None\<rparr>"

definition put_effect :: "effect_row \<Rightarrow> effect_row list \<Rightarrow> effect_row list" where
  "put_effect r effects = row_put fx_effect_id r effects"

definition fx_intent ::
  "(string \<Rightarrow> string) \<Rightarrow> instant \<Rightarrow> string \<Rightarrow> int \<Rightarrow> effect_intent \<Rightarrow> effect_row list \<Rightarrow>
     (effect_row \<times> effect_row list) result" where
  "fx_intent H now tid tok i effects =
     (case effect_by_key tid (ei_effect_key i) effects of
        None \<Rightarrow>
          (let row = new_effect H now tid tok i
           in if row_get fx_effect_id (fx_effect_id row) effects \<noteq> None
              then Inl (IntegrityError ''duplicate key value violates unique constraint'')
              else Inr (row, row_add row effects))
      | Some row \<Rightarrow>
          if fx_effect_kind row \<noteq> ei_effect_kind i \<or> fx_payload_hash row \<noteq> payload_hash H i
          then Inl (ValueError ''fenced effect key already binds different immutable payload'')
          else if fx_state row \<noteq> ''COMPLETED''
          then (let row' = row\<lparr>fx_fencing_token := tok\<rparr> in Inr (row', put_effect row' effects))
          else Inr (row, effects))"

definition completed_effect :: "instant \<Rightarrow> effect_row \<Rightarrow> effect_row" where
  "completed_effect now r =
     r\<lparr>fx_state := ''COMPLETED'', fx_completed_at := Some (Aware now 0),
       fx_attempt_count := fx_attempt_count r + 1\<rparr>"

section \<open>Effects in the same transaction\<close>

definition execute_sql ::
  "(string \<Rightarrow> string) \<Rightarrow> string \<Rightarrow> string \<Rightarrow> int \<Rightarrow> effect_intent \<Rightarrow> ('w \<Rightarrow> ('v \<times> 'w) result) \<Rightarrow> instant \<Rightarrow>
     'w effect_db \<Rightarrow> ('v option \<times> 'w effect_db) result" where
  "execute_sql H tid worker tok i callback now db =
     try_bind (fenced_row tid worker tok now (ed_tasks db)) (\<lambda>_.
     try_bind (fx_intent H now tid tok i (ed_effects db)) (\<lambda>(row, effects).
       if fx_state row = ''COMPLETED'' then Inr (None, db\<lparr>ed_effects := effects\<rparr>)
       else try_bind (callback (ed_world db)) (\<lambda>(value, world).
         Inr (Some value, db\<lparr>ed_effects := put_effect (completed_effect now row) effects,
                             ed_world := world\<rparr>))))"

section \<open>External effects\<close>

definition prepare_external ::
  "(string \<Rightarrow> string) \<Rightarrow> string \<Rightarrow> string \<Rightarrow> int \<Rightarrow> effect_intent \<Rightarrow> instant \<Rightarrow> 'w effect_db \<Rightarrow>
     (string \<times> 'w effect_db) result" where
  "prepare_external H tid worker tok i now db =
     try_bind (fenced_row tid worker tok now (ed_tasks db)) (\<lambda>_.
     try_bind (fx_intent H now tid tok i (ed_effects db)) (\<lambda>(row, effects).
       Inr (fx_effect_id row, db\<lparr>ed_effects := effects\<rparr>)))"

definition already_completed :: "string \<Rightarrow> 'w effect_db \<Rightarrow> bool" where
  "already_completed eid db =
     (case row_get fx_effect_id eid (ed_effects db) of
        None \<Rightarrow> False | Some row \<Rightarrow> fx_state row = ''COMPLETED'')"

definition complete_external ::
  "string \<Rightarrow> string \<Rightarrow> int \<Rightarrow> string \<Rightarrow> instant \<Rightarrow> 'w effect_db \<Rightarrow> 'w effect_db result" where
  "complete_external tid worker tok eid now db =
     try_bind (fenced_row tid worker tok now (ed_tasks db)) (\<lambda>_.
       case row_get fx_effect_id eid (ed_effects db) of
         None \<Rightarrow> Inl (RuntimeError ''fenced effect intent disappeared'')
       | Some row \<Rightarrow> Inr (db\<lparr>ed_effects := put_effect (completed_effect now row) (ed_effects db)\<rparr>))"

text \<open>
  \<open>dispatch_external\<close> is three transactions around the external call; \<open>env1\<close> and \<open>env2\<close> are what other
  sessions commit before the second and before the third, \<open>t1 t2 t3\<close> their clocks. The last component
  tells whether the external callback was invoked.
\<close>

definition dispatch_external ::
  "(string \<Rightarrow> string) \<Rightarrow> ('w effect_db \<Rightarrow> 'w effect_db) \<Rightarrow> ('w effect_db \<Rightarrow> 'w effect_db) \<Rightarrow>
     instant \<times> instant \<times> instant \<Rightarrow> string \<Rightarrow> string \<Rightarrow> int \<Rightarrow> effect_intent \<Rightarrow> (string \<Rightarrow> 'v result) \<Rightarrow>
     'w effect_db \<Rightarrow> 'v option result \<times> 'w effect_db \<times> bool" where
  "dispatch_external H env1 env2 clocks tid worker tok i callback db =
     (case clocks of (t1, t2, t3) \<Rightarrow>
      case prepare_external H tid worker tok i t1 db of
        Inl e \<Rightarrow> (Inl e, db, False)
      | Inr (eid, db1) \<Rightarrow>
          (let db2 = env1 db1 in
           case fenced_row tid worker tok t2 (ed_tasks db2) of
             Inl e \<Rightarrow> (Inl e, db2, False)
           | Inr _ \<Rightarrow>
               if already_completed eid db2 then (Inr None, db2, False)
               else (case callback eid of
                       Inl e \<Rightarrow> (Inl e, db2, True)
                     | Inr value \<Rightarrow>
                         (let db3 = env2 db2 in
                          case complete_external tid worker tok eid t3 db3 of
                            Inl e \<Rightarrow> (Inl e, db3, True)
                          | Inr db4 \<Rightarrow> (Inr (Some value), db4, True)))))"

end
