(* ===== verification/Projection_Dispatcher.thy ===== *)
theory Projection_Dispatcher
  imports Fenced_Effects
begin

text \<open>
  \<open>KnowledgeProjectionDispatcher\<close> (\<open>application/knowledge_projection_dispatcher.py\<close>): the dispatch of
  knowledge-index intents from the effect table. \<open>index\<close> is the external index, \<open>locked\<close> the rows
  that \<open>SKIP LOCKED\<close> passes over; a knowledge unit row is its id, its video and the rest.
\<close>

record knowledge_row =
  kr_knowledge_uid :: string
  kr_video_id :: string
  kr_body :: pydict

record dispatcher_config =
  dc_max_attempts :: int
  dc_retry_base_seconds :: int

definition dispatcher_init :: "int \<Rightarrow> int \<Rightarrow> dispatcher_config" where
  "dispatcher_init attempts base =
     \<lparr>dc_max_attempts = max 1 attempts, dc_retry_base_seconds = max 1 base\<rparr>"

record dispatch_claim =
  cl_effect_id :: string
  cl_fencing_token :: int

section \<open>Claiming\<close>

definition past :: "pydt option \<Rightarrow> instant \<Rightarrow> bool" where
  "past t now = (case t of None \<Rightarrow> False | Some e \<Rightarrow> instant_of e \<le> now)"

definition effect_due :: "instant \<Rightarrow> effect_row \<Rightarrow> bool" where
  "effect_due now r \<longleftrightarrow>
     fx_state r = ''PENDING'' \<and> (fx_next_attempt_at r = None \<or> past (fx_next_attempt_at r) now) \<or>
     fx_state r = ''DISPATCHING'' \<and> past (fx_dispatch_expires_at r) now"

definition dispatched_row :: "string \<Rightarrow> int \<Rightarrow> instant \<Rightarrow> effect_row \<Rightarrow> effect_row" where
  "dispatched_row worker lease_seconds now r =
     r\<lparr>fx_state := ''DISPATCHING'', fx_dispatch_owner := Some worker,
       fx_dispatch_expires_at := Some (Aware (now + seconds (max 1 lease_seconds)) 0),
       fx_next_attempt_at := None, fx_attempt_count := fx_attempt_count r + 1,
       fx_fencing_token := fx_fencing_token r + 1\<rparr>"

definition due_effects :: "string set \<Rightarrow> nat \<Rightarrow> instant \<Rightarrow> effect_row list \<Rightarrow> effect_row list" where
  "due_effects locked limit now effects =
     take (max 1 limit) (sort_key (\<lambda>r. (instant_of (fx_created_at r), fx_effect_id r))
       (filter (\<lambda>r. fx_effect_kind r = ''KNOWLEDGE_INDEX'' \<and> effect_due now r \<and>
          fx_effect_id r \<notin> locked) effects))"

definition claim_due ::
  "string set \<Rightarrow> string \<Rightarrow> nat \<Rightarrow> int \<Rightarrow> instant \<Rightarrow> effect_row list \<Rightarrow> dispatch_claim list \<times> effect_row list" where
  "claim_due locked worker limit lease_seconds now effects =
     (let rows = map (dispatched_row worker lease_seconds now) (due_effects locked limit now effects)
      in (map (\<lambda>r. \<lparr>cl_effect_id = fx_effect_id r, cl_fencing_token = fx_fencing_token r\<rparr>) rows,
          foldl (\<lambda>t r. row_put fx_effect_id r t) effects rows))"

definition pending_count :: "effect_row list \<Rightarrow> nat" where
  "pending_count effects = length (filter (\<lambda>r. fx_effect_kind r = ''KNOWLEDGE_INDEX'' \<and>
     fx_state r \<in> {''PENDING'', ''DISPATCHING''}) effects)"

section \<open>The dispatch fence\<close>

definition owned ::
  "string \<Rightarrow> int option \<Rightarrow> string \<Rightarrow> instant \<Rightarrow> effect_row list \<Rightarrow> effect_row option" where
  "owned eid tok worker now effects =
     (case row_get fx_effect_id eid effects of
        None \<Rightarrow> None
      | Some r \<Rightarrow>
          if fx_state r \<noteq> ''DISPATCHING'' \<or> fx_dispatch_owner r \<noteq> Some worker \<or>
             (case fx_dispatch_expires_at r of None \<Rightarrow> True | Some e \<Rightarrow> instant_of e \<le> now) \<or>
             (case tok of None \<Rightarrow> False | Some k \<Rightarrow> fx_fencing_token r \<noteq> k)
          then None else Some r)"

definition receipt :: "instant \<Rightarrow> effect_row \<Rightarrow> effect_row" where
  "receipt now r =
     r\<lparr>fx_state := ''COMPLETED'', fx_completed_at := Some (Aware now 0), fx_dispatch_owner := None,
       fx_dispatch_expires_at := None, fx_last_error_code := None\<rparr>"

definition complete_dispatch :: "string \<Rightarrow> string \<Rightarrow> instant \<Rightarrow> effect_row list \<Rightarrow> effect_row list result" where
  "complete_dispatch eid worker now effects =
     (case owned eid None worker now effects of
        None \<Rightarrow> Inl (RuntimeError ''PROJECTION_DISPATCH_LEASE_LOST'')
      | Some r \<Rightarrow> Inr (put_effect (receipt now r) effects))"

text \<open>
  The delay of \<open>timedelta(seconds=min(3600, base * 2 ** min(attempt_count - 1, 8)))\<close> in microseconds. A row
  that was never claimed has no attempt, and its exponent is negative.
\<close>

definition retry_delay :: "dispatcher_config \<Rightarrow> int \<Rightarrow> int" where
  "retry_delay cfg attempts =
     min (seconds 3600)
       (if attempts \<ge> 1 then seconds (dc_retry_base_seconds cfg * 2 ^ nat (min (attempts - 1) 8))
        else seconds (dc_retry_base_seconds cfg) div 2 ^ nat (1 - attempts))"

definition retried_effect :: "dispatcher_config \<Rightarrow> string \<Rightarrow> instant \<Rightarrow> effect_row \<Rightarrow> effect_row" where
  "retried_effect cfg code now r =
     (let r1 = r\<lparr>fx_dispatch_owner := None, fx_dispatch_expires_at := None,
                 fx_last_error_code := Some (take 64 code)\<rparr>
      in if fx_attempt_count r \<ge> dc_max_attempts cfg then r1\<lparr>fx_state := ''DEAD_LETTER''\<rparr>
         else r1\<lparr>fx_state := ''PENDING'',
                 fx_next_attempt_at := Some (Aware (now + retry_delay cfg (fx_attempt_count r)) 0)\<rparr>)"

definition retry_dispatch ::
  "dispatcher_config \<Rightarrow> dispatch_claim \<Rightarrow> string \<Rightarrow> string \<Rightarrow> instant \<Rightarrow> effect_row list \<Rightarrow>
     string \<times> effect_row list" where
  "retry_dispatch cfg claim worker code now effects =
     (case owned (cl_effect_id claim) (Some (cl_fencing_token claim)) worker now effects of
        None \<Rightarrow> (''LOST'', effects)
      | Some r \<Rightarrow>
          ((if fx_attempt_count r \<ge> dc_max_attempts cfg then ''DEAD_LETTERED'' else ''RETRIED''),
           put_effect (retried_effect cfg code now r) effects))"

section \<open>Projection data\<close>

definition payload_ids :: "pydict \<Rightarrow> string list" where
  "payload_ids payload =
     (case dict_get ''knowledge_ids'' payload of Some (JArr xs) \<Rightarrow> map py_str xs | _ \<Rightarrow> [])"

definition load_units ::
  "knowledge_row list \<Rightarrow> task_table \<Rightarrow> effect_row option \<Rightarrow> knowledge_row list result" where
  "load_units units tasks effect =
     (case effect of
        None \<Rightarrow> Inl (RuntimeError ''projection intent disappeared'')
      | Some e \<Rightarrow>
          (let ids = payload_ids (fx_projection_payload e);
               incomplete = RuntimeError ''PROJECTION_SQL_AUTHORITY_INCOMPLETE''
           in if ids \<noteq> []
              then (if \<exists>k \<in> set ids. row_get kr_knowledge_uid k units = None then Inl incomplete
                    else Inr (map (\<lambda>k. the (row_get kr_knowledge_uid k units)) ids))
              else (let video = (case row_get ct_task_id (fx_task_id e) tasks of
                                   None \<Rightarrow> []
                                 | Some t \<Rightarrow> str_field ''video_id'' [] (ct_result t))
                    in if video = [] then Inl incomplete
                       else Inr (sort_key kr_knowledge_uid (filter (\<lambda>u. kr_video_id u = video) units)))))"

section \<open>Dispatching one claim\<close>

text \<open>
  The outcome, the effect table, and the units handed to the index with the idempotency key, when
  it was called. An exception of the index rolls the transaction back and is recorded as a retry at
  the later clock \<open>now'\<close>.
\<close>

definition exn_name :: "exn \<Rightarrow> string" where
  "exn_name e = (case e of ValueError m \<Rightarrow> ''ValueError'' | KeyError m \<Rightarrow> ''KeyError''
     | TypeError m \<Rightarrow> ''TypeError'' | _ \<Rightarrow> ''RuntimeError'')"

definition dispatch_one ::
  "dispatcher_config \<Rightarrow> (knowledge_row list \<Rightarrow> string \<Rightarrow> unit result) \<Rightarrow> dispatch_claim \<Rightarrow> string \<Rightarrow> instant \<Rightarrow>
     instant \<Rightarrow> knowledge_row list \<Rightarrow> task_table \<Rightarrow> effect_row list \<Rightarrow>
     string \<times> effect_row list \<times> (knowledge_row list \<times> string) option" where
  "dispatch_one cfg index claim worker now now' units tasks effects =
     (let eid = cl_effect_id claim;
          failed = (\<lambda>e call. (case retry_dispatch cfg claim worker (exn_name e) now' effects of
                       (outcome, effects') \<Rightarrow> (outcome, effects', call)))
      in case owned eid (Some (cl_fencing_token claim)) worker now effects of
           None \<Rightarrow> (''LOST'', effects, None)
         | Some r \<Rightarrow>
             (case load_units units tasks (Some r) of
                Inl e \<Rightarrow> failed e None
              | Inr us \<Rightarrow>
                  (case index us eid of
                     Inl e \<Rightarrow> failed e (Some (us, eid))
                   | Inr _ \<Rightarrow> (''DISPATCHED'', put_effect (receipt now r) effects, Some (us, eid)))))"

text \<open>The body of the loop of \<open>dispatch_due\<close>: the units are loaded once before the fence.\<close>

definition dispatch_loop_body ::
  "dispatcher_config \<Rightarrow> (knowledge_row list \<Rightarrow> string \<Rightarrow> unit result) \<Rightarrow> dispatch_claim \<Rightarrow> string \<Rightarrow> instant \<Rightarrow>
     instant \<Rightarrow> knowledge_row list \<Rightarrow> task_table \<Rightarrow> effect_row list \<Rightarrow>
     string \<times> effect_row list \<times> (knowledge_row list \<times> string) option" where
  "dispatch_loop_body cfg index claim worker now now' units tasks effects =
     (case load_units units tasks (row_get fx_effect_id (cl_effect_id claim) effects) of
        Inl e \<Rightarrow> (case retry_dispatch cfg claim worker (exn_name e) now effects of
                    (outcome, effects') \<Rightarrow> (outcome, effects', None))
      | Inr _ \<Rightarrow> dispatch_one cfg index claim worker now now' units tasks effects)"

fun dispatch_claims ::
  "dispatcher_config \<Rightarrow> (knowledge_row list \<Rightarrow> string \<Rightarrow> unit result) \<Rightarrow> string \<Rightarrow> (nat \<Rightarrow> instant) \<Rightarrow>
     knowledge_row list \<Rightarrow> task_table \<Rightarrow> dispatch_claim list \<Rightarrow> effect_row list \<Rightarrow>
     string list \<times> effect_row list" where
  "dispatch_claims cfg index worker clock units tasks [] effects = ([], effects)"
| "dispatch_claims cfg index worker clock units tasks (c # cs) effects =
     (case dispatch_loop_body cfg index c worker (clock (2 * length cs + 1)) (clock (2 * length cs)) units tasks effects of
        (outcome, effects', call) \<Rightarrow>
          (case dispatch_claims cfg index worker clock units tasks cs effects' of
             (outcomes, effects'') \<Rightarrow> (outcome # outcomes, effects'')))"

record dispatch_report =
  dr_dispatched :: nat
  dr_retried :: nat
  dr_dead_lettered :: nat
  dr_pending :: nat

text \<open>\<open>clock n\<close> is the clock when \<open>n\<close> readings are left; an index that is not configured claims nothing.\<close>

definition dispatch_due ::
  "dispatcher_config \<Rightarrow> bool \<Rightarrow> (knowledge_row list \<Rightarrow> string \<Rightarrow> unit result) \<Rightarrow> string set \<Rightarrow> string \<Rightarrow> nat \<Rightarrow>
     int \<Rightarrow> instant \<Rightarrow> (nat \<Rightarrow> instant) \<Rightarrow> knowledge_row list \<Rightarrow> task_table \<Rightarrow> effect_row list \<Rightarrow>
     dispatch_report \<times> effect_row list" where
  "dispatch_due cfg configured index locked worker limit lease_seconds now clock units tasks effects =
     (if \<not> configured
      then (\<lparr>dr_dispatched = 0, dr_retried = 0, dr_dead_lettered = 0, dr_pending = pending_count effects\<rparr>, effects)
      else (case claim_due locked worker limit lease_seconds now effects of
              (claims, effects1) \<Rightarrow>
                (case dispatch_claims cfg index worker clock units tasks claims effects1 of
                   (outcomes, effects2) \<Rightarrow>
                     (\<lparr>dr_dispatched = count_list outcomes ''DISPATCHED'',
                       dr_retried = count_list outcomes ''RETRIED'',
                       dr_dead_lettered = count_list outcomes ''DEAD_LETTERED'',
                       dr_pending = pending_count effects2\<rparr>, effects2))))"

section \<open>Runs of dispatchers\<close>

datatype dispatch_op =
    DClaim "string set" string nat int instant
  | DDispatch dispatch_claim string instant instant
  | DReceipt string string instant

fun dsp_step ::
  "dispatcher_config \<Rightarrow> (knowledge_row list \<Rightarrow> string \<Rightarrow> unit result) \<Rightarrow> knowledge_row list \<Rightarrow> task_table \<Rightarrow>
     effect_row list \<Rightarrow> dispatch_op \<Rightarrow> effect_row list" where
  "dsp_step cfg index units tasks effects (DClaim locked w limit ls now) =
     snd (claim_due locked w limit ls now effects)"
| "dsp_step cfg index units tasks effects (DDispatch c w now now') =
     fst (snd (dispatch_one cfg index c w now now' units tasks effects))"
| "dsp_step cfg index units tasks effects (DReceipt eid w now) =
     (case complete_dispatch eid w now effects of Inl e \<Rightarrow> effects | Inr effects' \<Rightarrow> effects')"

section \<open>Ownership of a dispatch\<close>

lemma owned_row:
  "owned eid tok w now effects = Some r \<Longrightarrow>
     row_get fx_effect_id eid effects = Some r \<and> r \<in> set effects \<and> fx_effect_id r = eid \<and>
     fx_state r = ''DISPATCHING'' \<and> fx_dispatch_owner r = Some w \<and> (\<forall>k. tok = Some k \<longrightarrow> fx_fencing_token r = k)"
  by (auto simp: owned_def split: option.splits if_splits dest!: row_get_Some_key)

lemma dispatch_outcome:
  "fst (snd (dispatch_one cfg index c w now now' units tasks effects)) = effects \<or>
   (\<exists>code. fst (snd (dispatch_one cfg index c w now now' units tasks effects)) =
      snd (retry_dispatch cfg c w code now' effects)) \<or>
   (\<exists>r tok. owned (cl_effect_id c) tok w now effects = Some r \<and>
      fst (snd (dispatch_one cfg index c w now now' units tasks effects)) = put_effect (receipt now r) effects)"
  by (auto simp: dispatch_one_def Let_def split: option.splits sum.splits prod.splits) (metis snd_conv)+

lemma moved_ids [simp]:
  "fx_effect_id (dispatched_row w ls now r) = fx_effect_id r" "fx_effect_id (receipt now r) = fx_effect_id r"
  "fx_effect_id (retried_effect cfg code now r) = fx_effect_id r"
  by (simp_all add: dispatched_row_def receipt_def retried_effect_def Let_def)

lemma moved_tokens [simp]:
  "fx_fencing_token (dispatched_row w ls now r) = fx_fencing_token r + 1"
  "fx_fencing_token (receipt now r) = fx_fencing_token r"
  "fx_fencing_token (retried_effect cfg code now r) = fx_fencing_token r"
  by (simp_all add: dispatched_row_def receipt_def retried_effect_def Let_def)

lemma due_effects_in:
  "r \<in> set (due_effects locked limit now effects) \<Longrightarrow> r \<in> set effects \<and> effect_due now r"
  by (auto simp: due_effects_def dest: in_set_takeD)

lemma claim_due_row:
  assumes "keys_distinct fx_effect_id effects" and "row_get fx_effect_id eid effects = Some r"
  shows "row_get fx_effect_id eid (snd (claim_due locked w limit ls now effects)) =
    Some (if r \<in> set (due_effects locked limit now effects) then dispatched_row w ls now r else r)"
  using row_get_batch [OF assms, of "due_effects locked limit now effects" "dispatched_row w ls now"] due_effects_in
  by (fastforce simp: claim_due_def Let_def)

lemma put_owned_row:
  assumes "owned k tok w now effects = Some r0" and "fx_effect_id r' = fx_effect_id r0"
  shows "row_get fx_effect_id eid (put_effect r' effects) = (if eid = k then Some r' else row_get fx_effect_id eid effects)"
  using owned_row [OF assms(1)] assms(2) by (auto simp: put_effect_def row_get_put)

text \<open>The row of an effect after one dispatcher operation.\<close>

lemma dsp_step_row:
  assumes "keys_distinct fx_effect_id effects" and "row_get fx_effect_id eid effects = Some r"
  shows "\<exists>r'. row_get fx_effect_id eid (dsp_step cfg index units tasks effects op) = Some r' \<and>
    (r' = r \<or> fx_state r = ''DISPATCHING'' \<and> fx_fencing_token r' = fx_fencing_token r \<or>
     (\<exists>locked w limit ls now. op = DClaim locked w limit ls now \<and>
        r \<in> set (due_effects locked limit now effects) \<and> r' = dispatched_row w ls now r))"
proof (cases op)
  case (DClaim locked w limit ls now)
  then show ?thesis using claim_due_row [OF assms, of locked w limit ls now] by auto
next
  case (DReceipt k w now)
  show ?thesis
  proof (cases "owned k None w now effects")
    case None
    then show ?thesis using assms(2) by (simp add: DReceipt complete_dispatch_def)
  next
    case (Some r0)
    with put_owned_row [OF Some, of "receipt now r0" eid] owned_row [OF Some] assms(2) show ?thesis
      by (auto simp: DReceipt complete_dispatch_def)
  qed
next
  case (DDispatch c w now now')
  let ?new = "dsp_step cfg index units tasks effects op"
  have "?new = effects \<or> (\<exists>t r0 r1. owned (cl_effect_id c) t w now effects = Some r0 \<and> fx_effect_id r1 = fx_effect_id r0 \<and>
        fx_fencing_token r1 = fx_fencing_token r0 \<and> ?new = put_effect r1 effects) \<or>
      (\<exists>t r0 r1. owned (cl_effect_id c) t w now' effects = Some r0 \<and> fx_effect_id r1 = fx_effect_id r0 \<and>
        fx_fencing_token r1 = fx_fencing_token r0 \<and> ?new = put_effect r1 effects)"
    using dispatch_outcome [of cfg index c w now now' units tasks effects]
  proof (elim disjE exE conjE)
    fix code
    assume "fst (snd (dispatch_one cfg index c w now now' units tasks effects)) = snd (retry_dispatch cfg c w code now' effects)"
    then have new: "?new = snd (retry_dispatch cfg c w code now' effects)" by (simp add: DDispatch)
    show ?thesis
    proof (cases "owned (cl_effect_id c) (Some (cl_fencing_token c)) w now' effects")
      case (Some r0)
      then have "?new = put_effect (retried_effect cfg code now' r0) effects" by (simp add: new retry_dispatch_def)
      with Some show ?thesis by (metis moved_ids(3) moved_tokens(3))
    qed (simp add: new retry_dispatch_def)
  qed (auto simp: DDispatch, metis moved_ids(2) moved_tokens(2))
  then show ?thesis
    using put_owned_row owned_row assms(2) by (elim disjE exE conjE) (fastforce)+
qed

lemma dsp_step_keys:
  "keys_distinct fx_effect_id effects \<Longrightarrow> keys_distinct fx_effect_id (dsp_step cfg index units tasks effects op)"
proof (cases op)
  case (DDispatch c w now now')
  assume "keys_distinct fx_effect_id effects"
  then show ?thesis using dispatch_outcome [of cfg index c w now now' units tasks effects]
    by (auto simp: DDispatch put_effect_def retry_dispatch_def split: option.splits)
qed (auto simp: claim_due_def Let_def complete_dispatch_def put_effect_def split: option.splits)

definition dsp_invar :: "string \<Rightarrow> effect_row list \<Rightarrow> bool" where
  "dsp_invar eid effects \<longleftrightarrow> keys_distinct fx_effect_id effects \<and> row_get fx_effect_id eid effects \<noteq> None"

definition dsp_token :: "string \<Rightarrow> effect_row list \<Rightarrow> int" where
  "dsp_token eid effects = (case row_get fx_effect_id eid effects of None \<Rightarrow> 0 | Some r \<Rightarrow> fx_fencing_token r)"

fun dsp_granted :: "string \<Rightarrow> effect_row list \<Rightarrow> dispatch_op \<Rightarrow> int option" where
  "dsp_granted eid effects (DClaim locked w limit ls now) =
     map_option cl_fencing_token (find (\<lambda>c. cl_effect_id c = eid) (fst (claim_due locked w limit ls now effects)))"
| "dsp_granted eid effects _ = None"

definition dsp_current :: "string \<Rightarrow> effect_row list \<Rightarrow> string \<Rightarrow> int \<Rightarrow> instant \<Rightarrow> bool" where
  "dsp_current eid effects w k now \<longleftrightarrow> owned eid (Some k) w now effects \<noteq> None"

definition dsp_holder :: "string \<Rightarrow> effect_row list \<Rightarrow> string option" where
  "dsp_holder eid effects = (case row_get fx_effect_id eid effects of None \<Rightarrow> None | Some r \<Rightarrow> fx_dispatch_owner r)"

interpretation dispatch_lease:
  exclusive_lease "dsp_invar eid" "dsp_token eid" "dsp_step cfg index units tasks" "dsp_granted eid"
    "dsp_current eid" "dsp_holder eid"
  for eid cfg index units tasks
proof
  fix effects op
  assume inv: "dsp_invar eid effects"
  then obtain r where d: "keys_distinct fx_effect_id effects" and r: "row_get fx_effect_id eid effects = Some r"
    by (auto simp: dsp_invar_def)
  note step = dsp_step_row [OF d r, of cfg index units tasks op]
  show "dsp_invar eid (dsp_step cfg index units tasks effects op)"
    using step dsp_step_keys [OF d, of cfg index units tasks op] by (auto simp: dsp_invar_def)
  show "dsp_token eid effects \<le> dsp_token eid (dsp_step cfg index units tasks effects op)"
    using step r by (auto simp: dsp_token_def)
next
  fix effects op k
  assume inv: "dsp_invar eid effects" and g: "dsp_granted eid effects op = Some k"
  then obtain r where d: "keys_distinct fx_effect_id effects" and r: "row_get fx_effect_id eid effects = Some r"
    by (auto simp: dsp_invar_def)
  from g obtain locked w limit ls now where op: "op = DClaim locked w limit ls now" by (cases op) auto
  with g obtain c where c: "c \<in> set (fst (claim_due locked w limit ls now effects))" "cl_effect_id c = eid"
      "cl_fencing_token c = k" by (auto dest!: find_Some_in)
  then obtain x where x: "x \<in> set (due_effects locked limit now effects)" "fx_effect_id x = eid" "k = fx_fencing_token x + 1"
    by (auto simp: claim_due_def Let_def)
  then have "x = r" using row_get_member [OF d, of x] due_effects_in r by auto
  with x claim_due_row [OF d r, of locked w limit ls now] r
  show "dsp_token eid effects < k \<and> dsp_token eid (dsp_step cfg index units tasks effects op) = k"
    by (simp add: dsp_token_def op)
next
  fix effects w k t
  assume "dsp_current eid effects w k t"
  then obtain r where "owned eid (Some k) w t effects = Some r" by (auto simp: dsp_current_def)
  from owned_row [OF this] show "dsp_token eid effects = k" "dsp_holder eid effects = Some w"
    by (simp_all add: dsp_token_def dsp_holder_def)
qed

section \<open>Retries\<close>

text \<open>
  A failed dispatch is retried with bounded, growing delays and then given up: with the
  configuration the constructor accepts, the delay after a recorded failure is between one second
  and an hour and never shrinks with the number of attempts, a row at the attempt limit becomes
  a dead letter, and a dead letter or completed row is never due again.
\<close>

theorem dispatch_retry_bounds:
  assumes "cfg = dispatcher_init attempts base" and "1 \<le> n"
  shows "seconds 1 \<le> retry_delay cfg n \<and> retry_delay cfg n \<le> seconds 3600 \<and> retry_delay cfg n \<le> retry_delay cfg (n + 1) \<and>
    (fx_state (retried_effect cfg code now r) = ''DEAD_LETTER'' \<longleftrightarrow> max 1 attempts \<le> fx_attempt_count r) \<and>
    (fx_attempt_count r = n \<and> n < max 1 attempts \<longrightarrow>
       (\<forall>t. effect_due t (retried_effect cfg code now r) \<longleftrightarrow> now + retry_delay cfg n \<le> t)) \<and>
    (fx_state r \<in> {''DEAD_LETTER'', ''COMPLETED''} \<longrightarrow> (\<forall>t. \<not> effect_due t r))"
proof -
  let ?b = "max 1 base"
  have pow: "(2::int) ^ nat (min (n - 1) 8) \<le> 2 ^ nat (min (n + 1 - 1) 8)"
    by (rule power_increasing) auto
  have mono: "seconds x \<le> seconds y" if "x \<le> y" for x y using that by (simp add: seconds_def second_us_def)
  have "1 * 1 \<le> ?b * 2 ^ nat (min (n - 1) 8)" by (rule mult_mono) simp_all
  moreover have "?b * 2 ^ nat (min (n - 1) 8) \<le> ?b * 2 ^ nat (min (n + 1 - 1) 8)"
    using pow by (rule mult_left_mono) simp
  ultimately have "seconds 1 \<le> seconds (?b * 2 ^ nat (min (n - 1) 8))"
      "seconds (?b * 2 ^ nat (min (n - 1) 8)) \<le> seconds (?b * 2 ^ nat (min (n + 1 - 1) 8))"
    by (simp_all only: mono mult_1)
  moreover have "seconds 1 \<le> seconds 3600" by (rule mono) simp
  ultimately have "seconds 1 \<le> retry_delay cfg n \<and> retry_delay cfg n \<le> seconds 3600 \<and> retry_delay cfg n \<le> retry_delay cfg (n + 1)"
    unfolding assms(1) retry_delay_def dispatcher_init_def dispatcher_config.simps
    using assms(2) by (simp add: min_le_iff_disj)
  then show ?thesis
    by (auto simp: assms(1) retried_effect_def dispatcher_init_def effect_due_def past_def Let_def)
qed

theorem dispatch_retry_bounds_witness:
  "seconds 1 \<le> retry_delay (dispatcher_init 10 5) 3 \<and> retry_delay (dispatcher_init 10 5) 3 \<le> seconds 3600"
  using dispatch_retry_bounds [OF refl, of 3 10 5] by simp

end
