(* ===== verification/Effect_Safety.thy ===== *)
theory Effect_Safety
  imports Projection_Dispatcher
begin

text \<open>
  The effect table under all its writers: content workers, the fenced unit of work and projection
  dispatchers. An SQL effect is applied at most once, and a superseded claim of either queue writes
  nothing.
\<close>

section \<open>Writes to the effect table\<close>

definition effect_sig :: "effect_row \<Rightarrow> string \<times> string \<times> string" where
  "effect_sig r = (fx_effect_id r, fx_task_id r, fx_effect_key r)"

definition effects_ok :: "effect_row list \<Rightarrow> bool" where
  "effects_ok effects \<longleftrightarrow> distinct (map fst (map effect_sig effects)) \<and> distinct (map snd (map effect_sig effects))"

text \<open>The keys of the completed effects.\<close>

definition completed_keys :: "effect_row list \<Rightarrow> (string \<times> string) set" where
  "completed_keys effects = (\<lambda>r. (fx_task_id r, fx_effect_key r)) ` {r \<in> set effects. fx_state r = ''COMPLETED''}"

text \<open>A row that replaces the one with its id keeps the identity of the effect.\<close>

definition fits :: "effect_row list \<Rightarrow> effect_row \<Rightarrow> bool" where
  "fits effects r \<longleftrightarrow> (\<forall>s \<in> set (map effect_sig effects). fst s = fx_effect_id r \<longrightarrow> s = effect_sig r)"

lemma effects_ok_keys: "effects_ok effects \<Longrightarrow> keys_distinct fx_effect_id effects"
  by (simp add: effects_ok_def keys_distinct_def effect_sig_def comp_def)

lemma sigs_put: "fits effects r \<Longrightarrow> map effect_sig (row_put fx_effect_id r effects) = map effect_sig effects"
  by (auto simp: row_put_def fits_def effect_sig_def)

lemma sigs_puts:
  "\<forall>r \<in> set rs. fits effects r \<Longrightarrow> map effect_sig (foldl (\<lambda>t r. row_put fx_effect_id r t) effects rs) = map effect_sig effects"
proof (induction rs arbitrary: effects)
  case (Cons r rs)
  then have "map effect_sig (row_put fx_effect_id r effects) = map effect_sig effects" by (simp add: sigs_put)
  moreover from this have "\<forall>r' \<in> set rs. fits (row_put fx_effect_id r effects) r'"
    using Cons.prems unfolding fits_def by (metis list.set_intros(2))
  ultimately show ?case using Cons.IH by simp
qed simp

lemma untouched_row:
  "x \<in> set effects \<Longrightarrow> fx_effect_id x \<notin> fx_effect_id ` set rs \<Longrightarrow>
     x \<in> set (foldl (\<lambda>t r. row_put fx_effect_id r t) effects rs)"
proof (induction rs arbitrary: effects)
  case (Cons r rs)
  then have "x \<in> set (row_put fx_effect_id r effects)" by (force simp: row_put_def)
  with Cons show ?case by simp
qed simp

lemma fits_same:
  assumes "effects_ok effects" and "x \<in> set effects" and "effect_sig r = effect_sig x"
  shows "fits effects r"
proof -
  have "s = effect_sig x" if "s \<in> set (map effect_sig effects)" "fst s = fx_effect_id x" for s
  proof -
    have "effect_sig x \<in> set (map effect_sig effects)" "fst (effect_sig x) = fx_effect_id x"
      using assms(2) by (auto simp: effect_sig_def)
    with that assms(1) show ?thesis unfolding effects_ok_def distinct_map
      by (auto simp: inj_on_def)
  qed
  with assms(3) show ?thesis by (auto simp: fits_def effect_sig_def)
qed

lemma same_id_same_row:
  "effects_ok effects \<Longrightarrow> x \<in> set effects \<Longrightarrow> y \<in> set effects \<Longrightarrow> fx_effect_id x = fx_effect_id y \<Longrightarrow> x = y"
  by (auto dest!: effects_ok_keys simp: keys_distinct_def distinct_map inj_on_def)

text \<open>
  What one operation may do: the table stays well formed and every completed effect stays
  completed.
\<close>

definition keeps :: "effect_row list \<Rightarrow> effect_row list \<Rightarrow> bool" where
  "keeps effects effects' \<longleftrightarrow> effects_ok effects' \<and> completed_keys effects \<subseteq> completed_keys effects'"

lemma keeps_puts:
  assumes "effects_ok effects" and "\<forall>r \<in> set rs. fits effects r"
    and "\<And>x. x \<in> set effects \<Longrightarrow> fx_state x = ''COMPLETED'' \<Longrightarrow> fx_effect_id x \<notin> fx_effect_id ` set rs"
  shows "keeps effects (foldl (\<lambda>t r. row_put fx_effect_id r t) effects rs)"
proof -
  let ?new = "foldl (\<lambda>t r. row_put fx_effect_id r t) effects rs"
  have "effects_ok ?new" using assms(1) by (simp only: effects_ok_def sigs_puts [OF assms(2)])
  moreover have "x \<in> set ?new" if "x \<in> set effects" "fx_state x = ''COMPLETED''" for x
    using untouched_row [OF that(1) assms(3) [OF that]] .
  ultimately show ?thesis by (auto simp: keeps_def completed_keys_def)
qed

lemma keeps_put:
  assumes "effects_ok effects" and "x \<in> set effects" and "effect_sig r = effect_sig x"
    and "fx_state x = ''COMPLETED'' \<longrightarrow> fx_state r = ''COMPLETED''"
  shows "keeps effects (put_effect r effects)"
proof (cases "fx_state x = ''COMPLETED''")
  case False
  have "keeps effects (foldl (\<lambda>t r. row_put fx_effect_id r t) effects [r])"
  proof (rule keeps_puts [OF assms(1)])
    show "\<forall>r \<in> set [r]. fits effects r" using fits_same [OF assms(1-3)] by simp
    show "fx_effect_id y \<notin> fx_effect_id ` set [r]" if "y \<in> set effects" "fx_state y = ''COMPLETED''" for y
      using same_id_same_row [OF assms(1) that(1) assms(2)] that(2) False assms(3) by (auto simp: effect_sig_def)
  qed
  then show ?thesis by (simp add: put_effect_def)
next
  case True
  have "effects_ok (put_effect r effects)"
    using assms(1) sigs_put [OF fits_same [OF assms(1-3)]] by (simp only: effects_ok_def put_effect_def)
  moreover have "completed_keys effects \<subseteq> completed_keys (put_effect r effects)"
  proof
    fix k assume "k \<in> completed_keys effects"
    then obtain y where y: "y \<in> set effects" "fx_state y = ''COMPLETED''" "k = (fx_task_id y, fx_effect_key y)"
      by (auto simp: completed_keys_def)
    let ?y = "if fx_effect_id y = fx_effect_id r then r else y"
    have "?y \<in> set (put_effect r effects)" using y(1) by (auto simp: put_effect_def row_put_def)
    moreover have "fx_state ?y = ''COMPLETED'' \<and> k = (fx_task_id ?y, fx_effect_key ?y)"
      using y True assms(3,4) same_id_same_row [OF assms(1) y(1) assms(2)] by (auto simp: effect_sig_def)
    ultimately show "k \<in> completed_keys (put_effect r effects)"
      unfolding completed_keys_def by (intro image_eqI [of _ _ ?y]) auto
  qed
  ultimately show ?thesis by (simp add: keeps_def)
qed

lemma keeps_refl: "effects_ok effects \<Longrightarrow> keeps effects effects"
  by (simp add: keeps_def)

lemma keeps_trans: "keeps a b \<Longrightarrow> keeps b c \<Longrightarrow> keeps a c"
  by (auto simp: keeps_def)

section \<open>Every writer keeps completed effects\<close>

lemma intent_row:
  assumes "fx_intent H now tid tok i effects = Inr (row, effects')" and "effects_ok effects"
  shows "keeps effects effects' \<and> row \<in> set effects' \<and> fx_task_id row = tid \<and> fx_effect_key row = ei_effect_key i \<and>
     (fx_state row = ''COMPLETED'' \<longleftrightarrow> (tid, ei_effect_key i) \<in> completed_keys effects)"
proof (cases "effect_by_key tid (ei_effect_key i) effects")
  case None
  then have fresh: "row = new_effect H now tid tok i" "effects' = row_add row effects"
      "row_get fx_effect_id (fx_effect_id row) effects = None"
    using assms(1) by (auto simp: fx_intent_def Let_def split: if_splits)
  from None have nokey: "(tid, ei_effect_key i) \<notin> (\<lambda>r. (fx_task_id r, fx_effect_key r)) ` set effects"
    by (auto simp: effect_by_key_def find_None_iff)
  have "effects_ok effects'" using assms(2) fresh nokey
    by (auto simp: effects_ok_def row_add_def effect_sig_def new_effect_def row_get_None comp_def)
  then show ?thesis using fresh nokey
    by (auto simp: keeps_def completed_keys_def row_add_def new_effect_def)
next
  case (Some x)
  then have x: "x \<in> set effects" "fx_task_id x = tid" "fx_effect_key x = ei_effect_key i"
    using find_Some_in [OF Some [unfolded effect_by_key_def]] by auto
  have completed: "(tid, ei_effect_key i) \<in> completed_keys effects \<longleftrightarrow> fx_state x = ''COMPLETED''"
  proof
    assume "(tid, ei_effect_key i) \<in> completed_keys effects"
    then obtain y where y: "y \<in> set effects" "fx_state y = ''COMPLETED''" "snd (effect_sig y) = snd (effect_sig x)"
      using x by (auto simp: completed_keys_def effect_sig_def)
    then have "effect_sig y = effect_sig x"
      using assms(2) x(1) unfolding effects_ok_def distinct_map by (auto simp: inj_on_def)
    then have "y = x" using same_id_same_row [OF assms(2) y(1) x(1)] by (simp add: effect_sig_def)
    with y(2) show "fx_state x = ''COMPLETED''" by simp
  qed (use x in \<open>force simp: completed_keys_def\<close>)
  show ?thesis
  proof (cases "fx_state x = ''COMPLETED''")
    case True
    then have "row = x" "effects' = effects"
      using assms(1) Some by (auto simp: fx_intent_def Let_def split: if_splits)
    then show ?thesis using x completed True keeps_refl [OF assms(2)] by simp
  next
    case False
    then have "row = x\<lparr>fx_fencing_token := tok\<rparr>" "effects' = put_effect row effects"
      using assms(1) Some by (auto simp: fx_intent_def Let_def split: if_splits)
    moreover have "keeps effects (put_effect (x\<lparr>fx_fencing_token := tok\<rparr>) effects)"
      by (rule keeps_put [OF assms(2) x(1)]) (simp_all add: effect_sig_def False)
    moreover have "x\<lparr>fx_fencing_token := tok\<rparr> \<in> set (put_effect (x\<lparr>fx_fencing_token := tok\<rparr>) effects)"
      using x(1) by (auto simp: put_effect_def row_put_def intro!: image_eqI [of _ _ x])
    ultimately show ?thesis using x completed False by simp
  qed
qed

lemma moved_sig [simp]:
  "effect_sig (dispatched_row w ls now r) = effect_sig r" "effect_sig (receipt now r) = effect_sig r"
  "effect_sig (completed_effect now r) = effect_sig r" "effect_sig (retried_effect cfg code now r) = effect_sig r"
  by (simp_all add: effect_sig_def dispatched_row_def receipt_def completed_effect_def retried_effect_def Let_def)

lemma claim_due_keeps:
  assumes "effects_ok effects"
  shows "keeps effects (snd (claim_due locked w limit ls now effects))"
proof -
  let ?rows = "map (dispatched_row w ls now) (due_effects locked limit now effects)"
  have "keeps effects (foldl (\<lambda>t r. row_put fx_effect_id r t) effects ?rows)"
  proof (rule keeps_puts [OF assms])
    show "\<forall>r \<in> set ?rows. fits effects r"
      using fits_same [OF assms] by (auto dest!: due_effects_in)
    fix x assume x: "x \<in> set effects" "fx_state x = ''COMPLETED''"
    have "fx_effect_id r \<noteq> fx_effect_id x" if "r \<in> set (due_effects locked limit now effects)" for r
      using due_effects_in [OF that] same_id_same_row [OF assms, of r x] x by (auto simp: effect_due_def)
    then show "fx_effect_id x \<notin> fx_effect_id ` set ?rows" by (force simp: dispatched_row_def)
  qed
  then show ?thesis by (simp add: claim_due_def Let_def)
qed

lemma keeps_owned:
  "effects_ok effects \<Longrightarrow> owned eid tok w now effects = Some r \<Longrightarrow> effect_sig r' = effect_sig r \<Longrightarrow>
     keeps effects (put_effect r' effects)"
  using owned_row [of eid tok w now effects r] by (intro keeps_put) auto

lemma retry_keeps: "effects_ok effects \<Longrightarrow> keeps effects (snd (retry_dispatch cfg c w code now effects))"
  by (auto simp: retry_dispatch_def keeps_refl intro: keeps_owned split: option.splits)

lemma dispatch_keeps:
  "effects_ok effects \<Longrightarrow> keeps effects (fst (snd (dispatch_one cfg index c w now now' units tasks effects)))"
  using dispatch_outcome [of cfg index c w now now' units tasks effects]
  by (auto simp: retry_keeps keeps_refl elim!: keeps_owned [where r' = "receipt now _"])

lemma dsp_step_keeps:
  "effects_ok effects \<Longrightarrow> keeps effects (dsp_step cfg index units tasks effects op)"
  by (cases op)
     (auto simp: claim_due_keeps dispatch_keeps complete_dispatch_def keeps_refl intro: keeps_owned
        split: option.splits sum.splits)

section \<open>Runs of the effect database\<close>

datatype effect_op =
    FxTask ct_op
  | FxSql string string int effect_intent instant
  | FxPrepare string string int effect_intent instant
  | FxComplete string string int string instant
  | FxDispatcher dispatch_op "knowledge_row list"

text \<open>
  \<open>cb tid key\<close> is the SQL callback that the workers run for the effect \<open>key\<close> of a task, \<open>index\<close>
  the external index. An operation that raises leaves the database as it was.
\<close>

fun fx_apply ::
  "(string \<Rightarrow> string) \<Rightarrow> dispatcher_config \<Rightarrow> (knowledge_row list \<Rightarrow> string \<Rightarrow> unit result) \<Rightarrow>
     (string \<Rightarrow> string \<Rightarrow> 'w \<Rightarrow> (unit \<times> 'w) result) \<Rightarrow> 'w effect_db \<Rightarrow> effect_op \<Rightarrow> 'w effect_db result" where
  "fx_apply H cfg index cb db (FxTask op) = Inr (db\<lparr>ed_tasks := ct_step (ed_tasks db) op\<rparr>)"
| "fx_apply H cfg index cb db (FxSql tid w tok i now) =
     try_bind (execute_sql H tid w tok i (cb tid (ei_effect_key i)) now db) (\<lambda>r. Inr (snd r))"
| "fx_apply H cfg index cb db (FxPrepare tid w tok i now) =
     try_bind (prepare_external H tid w tok i now db) (\<lambda>r. Inr (snd r))"
| "fx_apply H cfg index cb db (FxComplete tid w tok eid now) = complete_external tid w tok eid now db"
| "fx_apply H cfg index cb db (FxDispatcher op units) =
     Inr (db\<lparr>ed_effects := dsp_step cfg index units (ed_tasks db) (ed_effects db) op\<rparr>)"

definition fx_step ::
  "(string \<Rightarrow> string) \<Rightarrow> dispatcher_config \<Rightarrow> (knowledge_row list \<Rightarrow> string \<Rightarrow> unit result) \<Rightarrow>
     (string \<Rightarrow> string \<Rightarrow> 'w \<Rightarrow> (unit \<times> 'w) result) \<Rightarrow> 'w effect_db \<Rightarrow> effect_op \<Rightarrow> 'w effect_db" where
  "fx_step H cfg index cb db op = (case fx_apply H cfg index cb db op of Inl e \<Rightarrow> db | Inr db' \<Rightarrow> db')"

section \<open>SQL effects happen once\<close>

text \<open>Callbacks that leave one mark each in a log; every mark has a completed effect.\<close>

definition marks :: "(string \<Rightarrow> string \<Rightarrow> (string \<times> string) list \<Rightarrow> (unit \<times> (string \<times> string) list) result) \<Rightarrow> bool" where
  "marks cb \<longleftrightarrow> (\<forall>tid key log u log'. cb tid key log = Inr (u, log') \<longrightarrow> log' = log @ [(tid, key)])"

definition log_ok :: "(string \<times> string) list effect_db \<Rightarrow> bool" where
  "log_ok db \<longleftrightarrow> effects_ok (ed_effects db) \<and> distinct (ed_world db) \<and>
     set (ed_world db) \<subseteq> completed_keys (ed_effects db)"

lemma log_ok_keeps:
  "log_ok db \<Longrightarrow> keeps (ed_effects db) effects \<Longrightarrow> log_ok (db\<lparr>ed_effects := effects\<rparr>)"
  by (auto simp: log_ok_def keeps_def)

lemma sql_log_ok:
  assumes "marks cb" and "log_ok db" and "execute_sql H tid w tok i (cb tid (ei_effect_key i)) now db = Inr (v, db')"
  shows "log_ok db'"
proof -
  obtain row effects where row: "fx_intent H now tid tok i (ed_effects db) = Inr (row, effects)"
    using assms(3) by (auto simp: execute_sql_def try_bind_Inr_iff)
  note intent = intent_row [OF row] assms(2) [unfolded log_ok_def, THEN conjunct1]
  then have keeps: "keeps (ed_effects db) effects" and mem: "row \<in> set effects"
    and key: "fx_task_id row = tid" "fx_effect_key row = ei_effect_key i"
    and state: "fx_state row = ''COMPLETED'' \<longleftrightarrow> (tid, ei_effect_key i) \<in> completed_keys (ed_effects db)"
    by blast+
  show ?thesis
  proof (cases "fx_state row = ''COMPLETED''")
    case True
    then have "db' = db\<lparr>ed_effects := effects\<rparr>"
      using assms(3) row by (auto simp: execute_sql_def try_bind_Inr_iff)
    then show ?thesis using log_ok_keeps [OF assms(2) keeps] by simp
  next
    case False
    let ?done = "put_effect (completed_effect now row) effects"
    obtain u log' where cb: "cb tid (ei_effect_key i) (ed_world db) = Inr (u, log')"
      and db': "db' = db\<lparr>ed_effects := ?done, ed_world := log'\<rparr>"
      using assms(3) row False by (auto simp: execute_sql_def try_bind_Inr_iff)
    have log': "log' = ed_world db @ [(tid, ei_effect_key i)]" using assms(1) cb by (simp add: marks_def)
    have ok: "effects_ok effects" using keeps by (simp add: keeps_def)
    have k2: "keeps effects ?done"
      by (rule keeps_put [OF ok mem]) (simp, simp add: completed_effect_def)
    have "completed_effect now row \<in> set ?done"
      using mem by (auto simp: put_effect_def row_put_def completed_effect_def intro!: image_eqI [of _ _ row])
    then have "(tid, ei_effect_key i) \<in> completed_keys ?done"
      unfolding completed_keys_def using key by (intro image_eqI [of _ _ "completed_effect now row"]) (auto simp: completed_effect_def)
    moreover have "(tid, ei_effect_key i) \<notin> set (ed_world db)" using False state assms(2) by (auto simp: log_ok_def)
    ultimately show ?thesis
      using log_ok_keeps [OF assms(2) keeps_trans [OF keeps k2]]
      by (auto simp: db' log' log_ok_def)
  qed
qed

lemma log_ok_step:
  assumes "marks cb" and "log_ok db"
  shows "log_ok (fx_step H cfg index cb db op)"
proof (cases "fx_apply H cfg index cb db op")
  case (Inr db')
  have ok: "effects_ok (ed_effects db)" using assms(2) by (simp add: log_ok_def)
  have "log_ok db'"
  proof (cases op)
    case (FxTask c)
    with Inr assms(2) show ?thesis by (auto simp: log_ok_def)
  next
    case (FxSql tid w tok i now)
    with Inr obtain v where "execute_sql H tid w tok i (cb tid (ei_effect_key i)) now db = Inr (v, db')"
      by (auto simp: try_bind_Inr_iff)
    with assms show ?thesis by (rule sql_log_ok)
  next
    case (FxPrepare tid w tok i now)
    with Inr obtain row effects where "fx_intent H now tid tok i (ed_effects db) = Inr (row, effects)"
        "db' = db\<lparr>ed_effects := effects\<rparr>" by (auto simp: prepare_external_def try_bind_Inr_iff)
    with intent_row [OF this(1) ok] log_ok_keeps [OF assms(2)] show ?thesis by blast
  next
    case (FxComplete tid w tok eid now)
    with Inr obtain r where r: "row_get fx_effect_id eid (ed_effects db) = Some r"
      and db': "db' = db\<lparr>ed_effects := put_effect (completed_effect now r) (ed_effects db)\<rparr>"
      by (auto simp: complete_external_def try_bind_Inr_iff split: option.splits)
    have "keeps (ed_effects db) (put_effect (completed_effect now r) (ed_effects db))"
      using row_get_Some_key [OF r] by (intro keeps_put [OF ok, of r]) (simp, simp, simp add: completed_effect_def)
    then show ?thesis unfolding db' by (rule log_ok_keeps [OF assms(2)])
  next
    case (FxDispatcher d units)
    with Inr log_ok_keeps [OF assms(2) dsp_step_keeps [OF ok]] show ?thesis by auto
  qed
  then show ?thesis by (simp add: fx_step_def Inr)
qed (simp add: fx_step_def assms(2))

text \<open>
  C7. A fenced SQL effect happens at most once. Whatever content workers, recovered workers and
  projection dispatchers do, and in whatever order, no effect key of a task has its callback
  committed twice, and each committed callback has its effect row completed.
\<close>

theorem sql_effect_applied_once:
  assumes "marks cb"
  shows "distinct (ed_world (run_ops (fx_step H cfg index cb) \<lparr>ed_tasks = tasks, ed_effects = [], ed_world = []\<rparr> ops)) \<and>
    set (ed_world (run_ops (fx_step H cfg index cb) \<lparr>ed_tasks = tasks, ed_effects = [], ed_world = []\<rparr> ops))
      \<subseteq> completed_keys (ed_effects (run_ops (fx_step H cfg index cb) \<lparr>ed_tasks = tasks, ed_effects = [], ed_world = []\<rparr> ops))"
proof -
  have "log_ok (run_ops (fx_step H cfg index cb) \<lparr>ed_tasks = tasks, ed_effects = [], ed_world = []\<rparr> ops)"
    by (rule run_ops_invariant) (simp_all add: log_ok_step assms, simp add: log_ok_def effects_ok_def)
  then show ?thesis by (simp add: log_ok_def)
qed

definition log_effect :: "string \<Rightarrow> string \<Rightarrow> (string \<times> string) list \<Rightarrow> (unit \<times> (string \<times> string) list) result" where
  "log_effect tid key log = Inr ((), log @ [(tid, key)])"

definition example_intent :: effect_intent where
  "example_intent = \<lparr>ei_effect_key = ''index:knowledge'', ei_effect_kind = ''KNOWLEDGE_INDEX'', ei_payload = []\<rparr>"

definition example_dispatcher :: dispatcher_config where
  "example_dispatcher = dispatcher_init 10 5"

lemma example_fenced: "\<exists>row. fenced_row ''t1'' ''a'' 1 5 example_claimed = Inr row"
  using example_claim
  by (simp add: example_claimed_def example_table_eq ct_step_def ct_claim_pending_def ct_candidates_def
      ct_claimable_def content_task.defs content_task_row.defs example_task_def fenced_row_def ct_claimed_def
      ct_put_def row_put_def seconds_def second_us_def Let_def)

theorem sql_effect_applied_once_witness:
  "let db = run_ops (fx_step (\<lambda>s. s) example_dispatcher (\<lambda>us k. Inr ()) log_effect)
      \<lparr>ed_tasks = example_claimed, ed_effects = [], ed_world = []\<rparr>
      [FxSql ''t1'' ''a'' 1 example_intent 5, FxSql ''t1'' ''a'' 1 example_intent 5]
   in ed_world db = [(''t1'', ''index:knowledge'')] \<and> distinct (ed_world db) \<and>
      set (ed_world db) \<subseteq> completed_keys (ed_effects db)"
proof -
  let ?ops = "[FxSql ''t1'' ''a'' 1 example_intent 5, FxSql ''t1'' ''a'' 1 example_intent 5]"
  obtain row where "fenced_row ''t1'' ''a'' 1 5 example_claimed = Inr row" using example_fenced by blast
  then have "ed_world (run_ops (fx_step (\<lambda>s. s) example_dispatcher (\<lambda>us k. Inr ()) log_effect)
      \<lparr>ed_tasks = example_claimed, ed_effects = [], ed_world = []\<rparr> ?ops) = [(''t1'', ''index:knowledge'')]"
    by (simp add: fx_step_def execute_sql_def fx_intent_def effect_by_key_def new_effect_def example_intent_def
        log_effect_def put_effect_def row_put_def row_add_def completed_effect_def payload_hash_def Let_def)
  moreover have "marks log_effect" by (simp add: marks_def log_effect_def)
  note once = sql_effect_applied_once [OF this, of "\<lambda>s. s" example_dispatcher "\<lambda>us k. Inr ()" example_claimed ?ops]
  ultimately show ?thesis using once unfolding Let_def by blast
qed

section \<open>A superseded worker has no effects\<close>

text \<open>
  C8. Fencing of effects. After a content task has been claimed again, a worker with an older token
  can neither run an SQL effect nor prepare, dispatch or complete an external one: every entry
  point raises the stale-lease error, the database stays as it is, and the external callback is not
  called, whatever the sessions of other workers did in between.
\<close>

theorem stale_worker_effects:
  assumes "keys_distinct ct_task_id tbl"
    and "ct_claim_pending locked w' kind ls' now' tbl = (Some t, tbl')"
    and "k < ct_fencing_token t"
    and "ed_tasks db = run_ops ct_step tbl' ops"
  shows "execute_sql H (ct_task_id t) w k i callback now db = Inl (ct_stale (ct_task_id t)) \<and>
    prepare_external H (ct_task_id t) w k i now db = Inl (ct_stale (ct_task_id t)) \<and>
    complete_external (ct_task_id t) w k eid now db = Inl (ct_stale (ct_task_id t)) \<and>
    dispatch_external H env1 env2 (now, now2, now3) (ct_task_id t) w k i external db =
      (Inl (ct_stale (ct_task_id t)), db, False)"
proof -
  obtain r where r: "r \<in> set tbl" and t: "t = ct_domain (ct_claimed w' ls' now' r)"
    and tbl': "tbl' = ct_put (ct_claimed w' ls' now' r) tbl"
    by (rule ct_claim_cases [of locked w' kind ls' now' tbl]) (use assms(2) in auto)
  from r row_get_member [OF assms(1) r] have "ct_invar (ct_task_id t) tbl'" "ct_token (ct_task_id t) tbl' = ct_fencing_token t"
    using assms(1) by (auto simp: t tbl' ct_invar_def ct_token_def ct_put_def row_get_put)
  then have "\<not> ct_current (ct_task_id t) (run_ops ct_step tbl' ops) w k now"
    using content_lease.stale_forever [of "ct_task_id t" tbl' k ops w now] assms(3) by simp
  then have "fenced_row (ct_task_id t) w k now (ed_tasks db) = Inl (ct_stale (ct_task_id t))"
    by (simp add: fenced_row_error ct_current_def assms(4) split: option.splits)
  then show ?thesis
    by (simp add: execute_sql_def prepare_external_def complete_external_def dispatch_external_def)
qed

theorem stale_worker_effects_witness:
  "execute_sql (\<lambda>s. s) ''t1'' ''old'' 0 example_intent (log_effect ''t1'' ''index:knowledge'') 5
     \<lparr>ed_tasks = example_claimed, ed_effects = [], ed_world = []\<rparr> = Inl (ct_stale ''t1'')"
proof -
  obtain t where t: "ct_claim_pending {} ''a'' ''video_pipeline'' 900 0 example_table = (Some t, example_claimed)"
    "ct_task_id t = ''t1''" "ct_fencing_token t = 1" using example_claim by blast
  have "(0::int) < ct_fencing_token t" using t(3) by simp
  from stale_worker_effects [OF example_keys t(1) this,
      of "\<lparr>ed_tasks = example_claimed, ed_effects = [], ed_world = []\<rparr>" "[]" "\<lambda>s. s" "''old''" example_intent
        "log_effect ''t1'' ''index:knowledge''" 5, THEN conjunct1]
  show ?thesis by (simp add: t(2))
qed

text \<open>
  Preparing the intent again, as a recovered content worker does, overwrites the token of a row
  that is being dispatched with the task's token: the running dispatcher loses its lease although
  nobody claimed the intent again.
\<close>

definition example_dispatching :: "effect_row list" where
  "example_dispatching = snd (claim_due {} ''d1'' 1 60 6 [new_effect (\<lambda>s. s) 5 ''t1'' 1 example_intent])"

lemma prepare_revokes_dispatch:
  "\<exists>eid db. prepare_external (\<lambda>s. s) ''t1'' ''a'' 1 example_intent 5
       \<lparr>ed_tasks = example_claimed, ed_effects = example_dispatching, ed_world = ()\<rparr> = Inr (eid, db) \<and>
     owned eid (Some 2) ''d1'' 7 example_dispatching \<noteq> None \<and> owned eid (Some 2) ''d1'' 7 (ed_effects db) = None"
proof -
  obtain row where "fenced_row ''t1'' ''a'' 1 5 example_claimed = Inr row" using example_fenced by blast
  then show ?thesis
    by (simp add: prepare_external_def example_dispatching_def claim_due_def due_effects_def effect_due_def
        new_effect_def example_intent_def dispatched_row_def fx_intent_def effect_by_key_def put_effect_def row_put_def
        payload_hash_def owned_def seconds_def second_us_def Let_def)
qed

section \<open>A superseded dispatcher\<close>

lemma put_same_sigs:
  "effects_ok effects \<Longrightarrow> x \<in> set effects \<Longrightarrow> effect_sig r = effect_sig x \<Longrightarrow>
     map effect_sig (put_effect r effects) = map effect_sig effects"
  by (simp only: put_effect_def sigs_put fits_same)

lemma dsp_step_sigs:
  assumes "effects_ok effects"
  shows "map effect_sig (dsp_step cfg index units tasks effects op) = map effect_sig effects"
proof -
  have owned: "map effect_sig (put_effect r' effects) = map effect_sig effects"
    if "owned eid tok w now effects = Some r" "effect_sig r' = effect_sig r" for eid tok w now r r'
    using put_same_sigs [OF assms] owned_row [OF that(1)] that(2) by blast
  show ?thesis
  proof (cases op)
    case (DClaim locked w limit ls now)
    have "\<forall>r \<in> set (map (dispatched_row w ls now) (due_effects locked limit now effects)). fits effects r"
      using fits_same [OF assms] by (auto dest!: due_effects_in)
    from sigs_puts [OF this] show ?thesis by (simp add: DClaim claim_due_def Let_def)
  next
    case (DDispatch c w now now')
    then show ?thesis
      using dispatch_outcome [of cfg index c w now now' units tasks effects]
      by (auto simp: retry_dispatch_def owned split: option.splits)
  next
    case (DReceipt k w now)
    then show ?thesis by (auto simp: complete_dispatch_def owned split: option.splits)
  qed
qed

lemma same_sig_row:
  assumes "effects_ok effects" and "map effect_sig effects' = map effect_sig effects"
    and "row_get fx_effect_id eid effects = Some r" and "row_get fx_effect_id eid effects' = Some r'"
  shows "effect_sig r' = effect_sig r"
proof -
  have mem: "r \<in> set effects" "r' \<in> set effects'" "fx_effect_id r = eid" "fx_effect_id r' = eid"
    using row_get_Some_key [OF assms(3)] row_get_Some_key [OF assms(4)] by auto
  then have "effect_sig r' \<in> set (map effect_sig effects)" "effect_sig r \<in> set (map effect_sig effects)"
    using assms(2) by (metis image_eqI list.set_map)+
  moreover have "fst (effect_sig r') = fst (effect_sig r)" using mem by (simp add: effect_sig_def)
  ultimately show ?thesis using assms(1) unfolding effects_ok_def distinct_map by (blast dest: inj_onD)
qed

lemma completed_ok:
  assumes "effects_ok effects" and "row \<in> set effects"
  shows "effects_ok (put_effect (completed_effect now row) effects)"
proof -
  have "keeps effects (put_effect (completed_effect now row) effects)"
    by (rule keeps_put [OF assms]) (simp, simp add: completed_effect_def)
  then show ?thesis by (simp add: keeps_def)
qed

text \<open>The operations that record the intent \<open>key\<close> of a task, and the tables where a token is superseded.\<close>

fun fx_prepares :: "string \<Rightarrow> string \<Rightarrow> effect_op \<Rightarrow> bool" where
  "fx_prepares tid key (FxSql t w tok i now) \<longleftrightarrow> t = tid \<and> ei_effect_key i = key"
| "fx_prepares tid key (FxPrepare t w tok i now) \<longleftrightarrow> t = tid \<and> ei_effect_key i = key"
| "fx_prepares tid key op \<longleftrightarrow> False"

definition superseded :: "string \<Rightarrow> string \<Rightarrow> string \<Rightarrow> int \<Rightarrow> effect_row list \<Rightarrow> bool" where
  "superseded eid tid key k effects \<longleftrightarrow> effects_ok effects \<and>
     (\<exists>r. row_get fx_effect_id eid effects = Some r \<and> fx_task_id r = tid \<and> fx_effect_key r = key \<and> k < fx_fencing_token r)"

lemma intent_elsewhere:
  assumes "effects_ok effects" and "fx_intent H now t tok i effects = Inr (row, effects')"
    and "row_get fx_effect_id eid effects = Some r" and "(fx_task_id r, fx_effect_key r) \<noteq> (t, ei_effect_key i)"
  shows "row_get fx_effect_id eid effects' = Some r \<and> fx_effect_id row \<noteq> eid"
proof (cases "effect_by_key t (ei_effect_key i) effects")
  case None
  with assms(2,3) show ?thesis
    by (auto simp: fx_intent_def Let_def new_effect_def row_get_add split: if_splits)
next
  case (Some x)
  then have x: "x \<in> set effects" "fx_task_id x = t" "fx_effect_key x = ei_effect_key i"
    using find_Some_in [OF Some [unfolded effect_by_key_def]] by auto
  have "fx_effect_id x \<noteq> eid"
    using row_get_Some_key [OF assms(3)] same_id_same_row [OF assms(1) x(1), of r] x assms(4) by auto
  with assms(2,3) Some show ?thesis
    by (auto simp: fx_intent_def Let_def put_effect_def row_get_put split: if_splits)
qed

lemma superseded_step:
  assumes "superseded eid tid key k (ed_effects db)" and "\<not> fx_prepares tid key op"
  shows "superseded eid tid key k (ed_effects (fx_step H cfg index cb db op))"
proof (cases "fx_apply H cfg index cb db op")
  case (Inr db')
  obtain r where ok: "effects_ok (ed_effects db)" and r: "row_get fx_effect_id eid (ed_effects db) = Some r"
      "fx_task_id r = tid" "fx_effect_key r = key" "k < fx_fencing_token r"
    using assms(1) by (auto simp: superseded_def)
  have intent: "superseded eid tid key k effects \<and> fx_effect_id row \<noteq> eid"
    if "fx_intent H now t tok i (ed_effects db) = Inr (row, effects)" "\<not> (t = tid \<and> ei_effect_key i = key)" for now t tok i row effects
    using intent_elsewhere [OF ok that(1) r(1)] intent_row [OF that(1) ok] that(2) r by (auto simp: superseded_def keeps_def)
  have "superseded eid tid key k (ed_effects db')"
  proof (cases op)
    case (FxTask c)
    with Inr assms(1) show ?thesis by auto
  next
    case (FxSql t w tok i now)
    with Inr obtain v where ex: "execute_sql H t w tok i (cb t (ei_effect_key i)) now db = Inr (v, db')"
      by (auto simp: try_bind_Inr_iff)
    then obtain row effects where row: "fx_intent H now t tok i (ed_effects db) = Inr (row, effects)"
      by (auto simp: execute_sql_def try_bind_Inr_iff)
    with intent FxSql assms(2) have sup: "superseded eid tid key k effects" and other: "fx_effect_id row \<noteq> eid" by auto
    have mem: "row \<in> set effects" using intent_row [OF row ok] by blast
    have "effects_ok (put_effect (completed_effect now row) effects)"
      using completed_ok [OF _ mem] sup by (simp add: superseded_def)
    with sup other have "superseded eid tid key k (put_effect (completed_effect now row) effects)"
      by (auto simp: superseded_def put_effect_def row_get_put completed_effect_def)
    with ex row sup show ?thesis by (auto simp: execute_sql_def try_bind_Inr_iff split: if_splits)
  next
    case (FxPrepare t w tok i now)
    with Inr obtain row effects where "fx_intent H now t tok i (ed_effects db) = Inr (row, effects)"
        "db' = db\<lparr>ed_effects := effects\<rparr>" by (auto simp: prepare_external_def try_bind_Inr_iff)
    with intent [OF this(1)] FxPrepare assms(2) show ?thesis by simp
  next
    case (FxComplete t w tok e now)
    with Inr obtain x where x: "row_get fx_effect_id e (ed_effects db) = Some x"
      and db': "db' = db\<lparr>ed_effects := put_effect (completed_effect now x) (ed_effects db)\<rparr>"
      by (auto simp: complete_external_def try_bind_Inr_iff split: option.splits)
    have "effects_ok (put_effect (completed_effect now x) (ed_effects db))"
      using row_get_Some_key [OF x] completed_ok [OF ok] by simp
    then show ?thesis using r x row_get_Some_key [OF x]
      by (auto simp: db' superseded_def put_effect_def row_get_put completed_effect_def)
  next
    case (FxDispatcher d units)
    let ?new = "dsp_step cfg index units (ed_tasks db) (ed_effects db) d"
    obtain r' where r': "row_get fx_effect_id eid ?new = Some r'" "fx_fencing_token r \<le> fx_fencing_token r'"
      using dsp_step_row [OF effects_ok_keys [OF ok] r(1), of cfg index units "ed_tasks db" d] by auto
    have "effect_sig r' = effect_sig r" by (rule same_sig_row [OF ok dsp_step_sigs [OF ok] r(1) r'(1)])
    then show ?thesis using r' r dsp_step_keeps [OF ok, of cfg index units "ed_tasks db" d] Inr FxDispatcher
      by (auto simp: superseded_def keeps_def effect_sig_def)
  qed
  then show ?thesis by (simp add: fx_step_def Inr)
qed (simp add: fx_step_def assms(1))

lemma superseded_run:
  "superseded eid tid key k (ed_effects db) \<Longrightarrow> list_all (\<lambda>op. \<not> fx_prepares tid key op) ops \<Longrightarrow>
     superseded eid tid key k (ed_effects (run_ops (fx_step H cfg index cb) db ops))"
  by (induction ops arbitrary: db) (simp_all add: superseded_step)

lemma superseded_lost: "superseded eid tid key k effects \<Longrightarrow> owned eid (Some k) w now effects = None"
  by (auto simp: superseded_def owned_def split: option.splits)

text \<open>
  C17. Dispatch is fenced. Once an intent has been claimed again by a dispatcher, the holder of an older
  claim finds its lease lost in every later state, whatever content workers, the fenced unit of work and
  dispatchers do, as long as none of them records this same intent again: it does not call the index, and
  neither its dispatch nor its retry changes the table. Recording the intent again gives the row the token
  of the content task, which may be lower (\<open>prepare_revokes_dispatch\<close>).
\<close>

theorem dispatch_fencing:
  assumes "effects_ok effects" and "row_get fx_effect_id (cl_effect_id old) effects = Some r"
    and "find (\<lambda>c. cl_effect_id c = cl_effect_id old) (fst (claim_due locked w' limit ls now' effects)) = Some new"
    and "cl_fencing_token old < cl_fencing_token new"
    and "ed_effects db = snd (claim_due locked w' limit ls now' effects)"
    and "list_all (\<lambda>op. \<not> fx_prepares (fx_task_id r) (fx_effect_key r) op) ops"
    and "later = ed_effects (run_ops (fx_step H cfg index cb) db ops)"
  shows "dispatch_one cfg index old w now t units tasks later = (''LOST'', later, None) \<and>
    retry_dispatch cfg old w code now later = (''LOST'', later)"
proof -
  let ?eid = "cl_effect_id old" and ?claim = "DClaim locked w' limit ls now'"
  have keys: "keys_distinct fx_effect_id effects" by (rule effects_ok_keys [OF assms(1)])
  have "dsp_invar ?eid effects" using keys assms(2) by (simp add: dsp_invar_def)
  moreover have "dsp_granted ?eid effects ?claim = Some (cl_fencing_token new)" using assms(3) by simp
  ultimately have token: "dsp_token ?eid (ed_effects db) = cl_fencing_token new"
    using dispatch_lease.grant_fresh [of ?eid effects ?claim "cl_fencing_token new" cfg index "[]" "[]"] assms(5) by simp
  obtain r' where r': "row_get fx_effect_id ?eid (ed_effects db) = Some r'" "effect_sig r' = effect_sig r"
    using claim_due_row [OF keys assms(2), of locked w' limit ls now'] assms(5) by auto
  have "effects_ok (ed_effects db)" using claim_due_keeps [OF assms(1)] by (simp add: assms(5) keeps_def)
  with r' token assms(4) have "superseded ?eid (fx_task_id r) (fx_effect_key r) (cl_fencing_token old) (ed_effects db)"
    by (auto simp: superseded_def dsp_token_def effect_sig_def)
  then have "superseded ?eid (fx_task_id r) (fx_effect_key r) (cl_fencing_token old) later"
    unfolding assms(7) using assms(6) by (rule superseded_run)
  then have "owned ?eid (Some (cl_fencing_token old)) w now later = None" for now by (rule superseded_lost)
  then show ?thesis by (simp add: dispatch_one_def retry_dispatch_def Let_def)
qed

definition example_effect :: effect_row where
  "example_effect =
     \<lparr>fx_effect_id = ''e1'', fx_task_id = ''t1'', fx_effect_key = ''index:knowledge'',
      fx_effect_kind = ''KNOWLEDGE_INDEX'', fx_payload_hash = [], fx_projection_payload = [],
      fx_fencing_token = 1, fx_state = ''DISPATCHING'', fx_attempt_count = 1,
      fx_dispatch_owner = Some ''d1'', fx_dispatch_expires_at = Some (Aware 50 0),
      fx_next_attempt_at = None, fx_last_error_code = None, fx_created_at = Aware 0 0, fx_completed_at = None\<rparr>"

theorem dispatch_fencing_witness:
  "dispatch_one example_dispatcher (\<lambda>us k. Inr ()) \<lparr>cl_effect_id = ''e1'', cl_fencing_token = 1\<rparr> ''d1'' 60 61 [] []
     (snd (claim_due {} ''d2'' 5 60 55 [example_effect])) =
   (''LOST'', snd (claim_due {} ''d2'' 5 60 55 [example_effect]), None)"
proof -
  let ?old = "\<lparr>cl_effect_id = ''e1'', cl_fencing_token = 1\<rparr>" and ?new = "\<lparr>cl_effect_id = ''e1'', cl_fencing_token = 2\<rparr>"
  let ?db = "\<lparr>ed_tasks = [], ed_effects = snd (claim_due {} ''d2'' 5 60 55 [example_effect]), ed_world = []\<rparr>"
  have a: "effects_ok [example_effect]" by (simp add: effects_ok_def)
  have b: "row_get fx_effect_id (cl_effect_id ?old) [example_effect] = Some example_effect" by (simp add: example_effect_def)
  have c: "find (\<lambda>c. cl_effect_id c = cl_effect_id ?old) (fst (claim_due {} ''d2'' 5 60 55 [example_effect])) = Some ?new"
    by (simp add: claim_due_def due_effects_def effect_due_def past_def example_effect_def dispatched_row_def Let_def)
  have d: "cl_fencing_token ?old < cl_fencing_token ?new" by simp
  have e: "list_all (\<lambda>op. \<not> fx_prepares (fx_task_id example_effect) (fx_effect_key example_effect) op) [FxTask (CtRenew ''t1'' ''a'' 1 900 5)]" by simp
  from dispatch_fencing [OF a b c d _ e refl, where db = ?db and H = "\<lambda>s. s" and cfg = example_dispatcher
      and index = "\<lambda>us k. Inr ()" and cb = log_effect and w = "''d1''" and now = 60 and t = 61 and units = "[]" and tasks = "[]"]
  show ?thesis by (simp add: fx_step_def)
qed

end
