(* ===== verification/Artifacts.thy ===== *)
theory Artifacts
  imports Iso_Datetime
begin

text \<open>
  The immutable artifacts of \<open>domain/artifacts.py\<close>: stable membership lists, the content-addressed
  identity with its historical profiles, the constructors that canonicalise their fields, and the
  serialised form. An artifact is its class, the fields of \<open>ArtifactBase\<close> and the fields of the
  subclass (\<open>af_body\<close>) in the JSON form that \<open>canonical_json\<close> gives them. \<open>H\<close> is the hexadecimal
  SHA-256 digest.
\<close>

section \<open>Membership lists\<close>

definition membership_names :: "string list" where
  "membership_names = [''claim_id'', ''occurrence_id'', ''lifecycle_event_id'', ''knowledge_uid'']"

fun first_present :: "string list \<Rightarrow> pydict \<Rightarrow> (string \<times> json) option" where
  "first_present [] d = None"
| "first_present (n # ns) d =
     (case dict_get n d of
        None \<Rightarrow> first_present ns d
      | Some v \<Rightarrow> if v = JNull then first_present ns d else Some (n, v))"

definition membership_key :: "json \<Rightarrow> string" where
  "membership_key v =
     (case v of
        JObj d \<Rightarrow>
          (case first_present membership_names d of
             Some (n, c) \<Rightarrow> n @ '':'' @ py_str c
           | None \<Rightarrow> canonical_json v)
      | _ \<Rightarrow> canonical_json v)"

fun first_by :: "('a \<Rightarrow> 'k) \<Rightarrow> 'k list \<Rightarrow> 'a list \<Rightarrow> 'a list" where
  "first_by key seen [] = []"
| "first_by key seen (x # xs) =
     (if key x \<in> set seen then first_by key seen xs else x # first_by key (key x # seen) xs)"

definition member_sort_key :: "bool \<Rightarrow> json \<Rightarrow> string \<times> string" where
  "member_sort_key field_identity v =
     (if field_identity then membership_key v else canonical_json v, canonical_json v)"

definition stable_membership :: "bool \<Rightarrow> json list \<Rightarrow> json list" where
  "stable_membership field_identity vs =
     first_by (\<lambda>v. fst (member_sort_key field_identity v)) [] (sort_key (member_sort_key field_identity) vs)"

section \<open>Artifacts and their identity\<close>

datatype identity_profile = Current | Legacy_Frame | Legacy_OCR | Legacy_Transcript

datatype artifact_class =
    SourceArtifact | MediaArtifact | TranscriptArtifact | EvidenceArtifact | ClaimArtifact
  | VerificationArtifact | KnowledgeArtifact | KnowledgeVisualEvidenceArtifact | SummaryArtifact
  | FrameArtifact | OCRArtifact | VisionArtifact | TranscriptVisualCrosscheckArtifact
  | SecurityEntityAlignmentArtifact | SemanticSegmentArtifact | ClaimOccurrenceArtifact | LifecycleArtifact

definition type_registry :: "(string \<times> artifact_class) list" where
  "type_registry =
     [(''source'', SourceArtifact), (''media'', MediaArtifact), (''transcript'', TranscriptArtifact),
      (''evidence'', EvidenceArtifact), (''claims'', ClaimArtifact), (''verification'', VerificationArtifact),
      (''knowledge'', KnowledgeArtifact), (''knowledge_visual_evidence'', KnowledgeVisualEvidenceArtifact),
      (''summary'', SummaryArtifact), (''frame'', FrameArtifact), (''ocr'', OCRArtifact),
      (''vision'', VisionArtifact), (''transcript_visual_crosscheck'', TranscriptVisualCrosscheckArtifact),
      (''security_entity_alignment'', SecurityEntityAlignmentArtifact),
      (''semantic_segments'', SemanticSegmentArtifact), (''occurrences'', ClaimOccurrenceArtifact),
      (''lifecycle'', LifecycleArtifact)]"

record artifact =
  af_class :: artifact_class
  af_artifact_id :: string
  af_artifact_type :: string
  af_schema_version :: string
  af_created_at :: pydt
  af_producer_stage :: string
  af_producer_version :: string
  af_parent_ids :: "string list"
  af_content_hash :: string
  af_profile :: identity_profile
  af_body :: pydict

definition jstrs :: "string list \<Rightarrow> json" where
  "jstrs ss = JArr (map JStr ss)"

definition dict_drop :: "string list \<Rightarrow> pydict \<Rightarrow> pydict" where
  "dict_drop ks d = filter (\<lambda>(k, v). k \<notin> set ks) d"

definition map_field :: "string \<Rightarrow> (json \<Rightarrow> json) \<Rightarrow> pydict \<Rightarrow> pydict" where
  "map_field k f d = map (\<lambda>(k', v). (k', if k' = k then f v else v)) d"

definition drop_correction_records :: "json \<Rightarrow> json" where
  "drop_correction_records v =
     (case v of
        JArr items \<Rightarrow> JArr (map (\<lambda>i. case i of JObj d \<Rightarrow> JObj (dict_drop [''correction_records''] d) | _ \<Rightarrow> i) items)
      | _ \<Rightarrow> v)"

definition profile_body :: "identity_profile \<Rightarrow> pydict \<Rightarrow> pydict" where
  "profile_body p body =
     (case p of
        Current \<Rightarrow> body
      | Legacy_Frame \<Rightarrow> dict_drop [''planner_request_id''] body
      | Legacy_OCR \<Rightarrow> dict_drop [''requested_device'', ''actual_device'', ''runtime_identity''] body
      | Legacy_Transcript \<Rightarrow> map_field ''segments'' drop_correction_records body)"

text \<open>
  \<open>SemanticSegmentArtifact.to_dict\<close> leaves an empty derivation namespace out of its segments. The
  creation time is written as \<open>str\<close> of the datetime.
\<close>

definition drop_empty_namespace :: "json \<Rightarrow> json" where
  "drop_empty_namespace v =
     (case v of
        JArr items \<Rightarrow> JArr (map (\<lambda>i. case i of
            JObj d \<Rightarrow> (if (case dict_get ''derivation_namespace'' d of None \<Rightarrow> False | Some n \<Rightarrow> py_truthy n) then i
                      else JObj (dict_drop [''derivation_namespace''] d))
          | _ \<Rightarrow> i) items)
      | _ \<Rightarrow> v)"

definition base_dict :: "artifact \<Rightarrow> pydict" where
  "base_dict a =
     [(''artifact_id'', JStr (af_artifact_id a)), (''artifact_type'', JStr (af_artifact_type a)),
      (''schema_version'', JStr (af_schema_version a)), (''created_at'', JStr (dt_str (af_created_at a))),
      (''producer_stage'', JStr (af_producer_stage a)), (''producer_version'', JStr (af_producer_version a)),
      (''parent_artifact_ids'', jstrs (af_parent_ids a)), (''content_hash'', JStr (af_content_hash a))]"

definition body_dict :: "artifact \<Rightarrow> pydict" where
  "body_dict a =
     (let body = profile_body (af_profile a) (af_body a)
      in if af_class a = SemanticSegmentArtifact then map_field ''segments'' drop_empty_namespace body else body)"

definition to_dict :: "artifact \<Rightarrow> pydict" where
  "to_dict a = base_dict a @ body_dict a"

definition identity_excluded :: "artifact \<Rightarrow> string list" where
  "identity_excluded a =
     [''artifact_id'', ''created_at'', ''content_hash''] @
     (if af_artifact_type a = ''frame'' \<and> af_profile a \<noteq> Legacy_Frame then [''storage_ref''] else [])"

definition artifact_identity_payload :: "artifact \<Rightarrow> pydict" where
  "artifact_identity_payload a = dict_drop (identity_excluded a) (to_dict a)"

definition content_hash_of :: "(string \<Rightarrow> string) \<Rightarrow> json \<Rightarrow> string" where
  "content_hash_of H payload = H (canonical_json payload)"

definition identity_hash :: "(string \<Rightarrow> string) \<Rightarrow> artifact \<Rightarrow> string" where
  "identity_hash H a = content_hash_of H (JObj (artifact_identity_payload a))"

definition base_init :: "(string \<Rightarrow> string) \<Rightarrow> artifact \<Rightarrow> artifact" where
  "base_init H a = (if af_content_hash a = [] then a\<lparr>af_content_hash := identity_hash H a\<rparr> else a)"

definition make_artifact_id :: "(string \<Rightarrow> string) \<Rightarrow> string \<Rightarrow> json \<Rightarrow> string" where
  "make_artifact_id H ty payload = ty @ ''-'' @ take 32 (content_hash_of H payload)"

definition artifact_id_of :: "(string \<Rightarrow> string) \<Rightarrow> artifact \<Rightarrow> string" where
  "artifact_id_of H a = make_artifact_id H (af_artifact_type a) (JObj (artifact_identity_payload a))"

definition serialize_artifact :: "artifact \<Rightarrow> pydict" where
  "serialize_artifact a = AList.update ''content_hash'' (JStr (af_content_hash a)) (to_dict a)"

section \<open>Transcript segments\<close>

text \<open>
  A segment is the dictionary of its fields. \<open>ms\<close> is \<open>round(seconds * 1000)\<close> of the floating point
  number that a JSON number stands for.
\<close>

definition with_defaults :: "pydict \<Rightarrow> pydict \<Rightarrow> pydict" where
  "with_defaults defaults d =
     map (\<lambda>(k, v). (k, case dict_get k d of None \<Rightarrow> v | Some w \<Rightarrow> w)) defaults"

definition segment_defaults :: pydict where
  "segment_defaults =
     [(''segment_id'', JStr []), (''segment_index'', JInt 0), (''start_seconds'', JFloat ''0.0''),
      (''end_seconds'', JFloat ''0.0''), (''text'', JStr []), (''raw_text'', JNull),
      (''normalized_text'', JNull), (''confidence'', JNull), (''source'', JStr ''ASR''),
      (''source_artifact_id'', JStr []), (''alignment_status'', JStr ''ALIGNED''), (''speaker_id'', JNull),
      (''correction_records'', JArr []), (''media_artifact_id'', JStr []), (''asr_model'', JStr ''unknown''),
      (''asr_model_version'', JStr ''unknown'')]"

definition field :: "string \<Rightarrow> pydict \<Rightarrow> json" where
  "field k d = (case dict_get k d of None \<Rightarrow> JNull | Some v \<Rightarrow> v)"

definition transcript_segment_identity_payload ::
  "json \<Rightarrow> json \<Rightarrow> json \<Rightarrow> json \<Rightarrow> int \<Rightarrow> int \<Rightarrow> json \<Rightarrow> pydict result" where
  "transcript_segment_identity_payload media model version index start_ms end_ms raw =
     (if \<not> py_truthy media \<or> \<not> py_truthy model \<or> \<not> py_truthy version
      then Inl (ValueError ''media artifact and ASR manifest are required for segment identity'')
      else Inr [(''media_artifact_id'', media), (''asr_model'', model), (''asr_model_version'', version),
                (''segment_index'', index), (''start_ms'', JInt start_ms), (''end_ms'', JInt end_ms),
                (''raw_text'', raw)])"

definition transcript_segment_id ::
  "(string \<Rightarrow> string) \<Rightarrow> json \<Rightarrow> json \<Rightarrow> json \<Rightarrow> json \<Rightarrow> int \<Rightarrow> int \<Rightarrow> json \<Rightarrow> string result" where
  "transcript_segment_id H media model version index start_ms end_ms raw =
     try_bind (transcript_segment_identity_payload media model version index start_ms end_ms raw)
       (\<lambda>p. Inr (''trseg_'' @ H (canonical_json (JObj p))))"

definition legacy_transcript_segment_id :: "(string \<Rightarrow> string) \<Rightarrow> json \<Rightarrow> json \<Rightarrow> json \<Rightarrow> json \<Rightarrow> string" where
  "legacy_transcript_segment_id H index start end_s raw =
     ''legacy_trseg_'' @ H (canonical_json (JObj
       [(''legacy_namespace'', JStr []), (''segment_index'', index), (''start_seconds'', start),
        (''end_seconds'', end_s), (''raw_text'', raw)]))"

definition segment_raw_text :: "pydict \<Rightarrow> json" where
  "segment_raw_text d = (if field ''raw_text'' d \<noteq> JNull then field ''raw_text'' d else field ''text'' d)"

definition segment_init :: "(string \<Rightarrow> string) \<Rightarrow> (json \<Rightarrow> int) \<Rightarrow> pydict \<Rightarrow> pydict result" where
  "segment_init H ms d =
     (if py_truthy (field ''segment_id'' d) then Inr d
      else if py_truthy (field ''media_artifact_id'' d)
      then try_bind (transcript_segment_id H (field ''media_artifact_id'' d) (field ''asr_model'' d)
             (field ''asr_model_version'' d) (field ''segment_index'' d) (ms (field ''start_seconds'' d))
             (ms (field ''end_seconds'' d)) (segment_raw_text d))
             (\<lambda>i. Inr (map_field ''segment_id'' (\<lambda>_. JStr i) d))
      else Inr (map_field ''segment_id'' (\<lambda>_. JStr (legacy_transcript_segment_id H (field ''segment_index'' d)
             (field ''start_seconds'' d) (field ''end_seconds'' d) (segment_raw_text d))) d))"

text \<open>A dataclass called with the entries of a dictionary as keywords; objects keep their keys sorted.\<close>

definition new_item :: "string list \<Rightarrow> pydict \<Rightarrow> pydict \<Rightarrow> pydict result" where
  "new_item required defaults d =
     (if \<not> list_all (\<lambda>(k, _). k \<in> fst ` set defaults) d
      then Inl (TypeError ''unexpected keyword argument'')
      else if \<not> list_all (\<lambda>k. dict_get k d \<noteq> None) required
      then Inl (TypeError ''missing required positional argument'')
      else Inr (sort_key fst (with_defaults defaults d)))"

definition new_segment :: "(string \<Rightarrow> string) \<Rightarrow> (json \<Rightarrow> int) \<Rightarrow> pydict \<Rightarrow> pydict result" where
  "new_segment H ms d = try_bind (new_item [] segment_defaults d) (segment_init H ms)"

definition manifest_mismatch :: "json \<Rightarrow> json \<Rightarrow> json \<Rightarrow> pydict \<Rightarrow> bool" where
  "manifest_mismatch media model version item \<longleftrightarrow>
     \<not> py_truthy (field ''media_artifact_id'' item) \<or> field ''media_artifact_id'' item \<noteq> media \<or>
     field ''asr_model'' item \<noteq> model \<or> field ''asr_model_version'' item \<noteq> version"

definition normalize_segment ::
  "(string \<Rightarrow> string) \<Rightarrow> (json \<Rightarrow> int) \<Rightarrow> json \<Rightarrow> json \<Rightarrow> json \<Rightarrow> pydict \<Rightarrow> pydict result" where
  "normalize_segment H ms media model version item =
     (if manifest_mismatch media model version item
      then segment_init H ms
             (map_field ''segment_id'' (\<lambda>_. JStr []) (map_field ''media_artifact_id'' (\<lambda>_. media)
               (map_field ''asr_model'' (\<lambda>_. model) (map_field ''asr_model_version'' (\<lambda>_. version) item))))
      else Inr item)"

definition transcript_segments ::
  "(string \<Rightarrow> string) \<Rightarrow> (json \<Rightarrow> int) \<Rightarrow> pydict \<Rightarrow> pydict list \<Rightarrow> pydict list result" where
  "transcript_segments H ms body items =
     mapM (normalize_segment H ms (field ''media_artifact_id'' body) (field ''asr_model'' body)
             (field ''asr_model_version'' body)) items"

section \<open>Constructors\<close>

text \<open>
  \<open>__post_init__\<close> of the subclasses: membership fields are sorted and deduplicated, an artifact of a
  historical profile cannot carry the fields that profile did not have.
\<close>

definition member_field :: "string \<Rightarrow> bool \<Rightarrow> pydict \<Rightarrow> pydict" where
  "member_field k field_identity d =
     map_field k (\<lambda>v. case v of JArr vs \<Rightarrow> JArr (stable_membership field_identity vs) | _ \<Rightarrow> v) d"

definition set_truthy :: "string \<Rightarrow> pydict \<Rightarrow> bool" where
  "set_truthy k d = (case dict_get k d of None \<Rightarrow> False | Some v \<Rightarrow> py_truthy v)"

definition canonical_body :: "artifact_class \<Rightarrow> pydict \<Rightarrow> pydict" where
  "canonical_body cls d =
     (case cls of
        ClaimArtifact \<Rightarrow> member_field ''claims'' True d
      | ClaimOccurrenceArtifact \<Rightarrow> member_field ''occurrence_ids'' True d
      | LifecycleArtifact \<Rightarrow>
          member_field ''occurrence_lifecycle_event_ids'' True (member_field ''claim_lifecycle_event_ids'' True d)
      | VerificationArtifact \<Rightarrow> member_field ''results'' False d
      | KnowledgeArtifact \<Rightarrow> member_field ''knowledge_units'' True d
      | KnowledgeVisualEvidenceArtifact \<Rightarrow> member_field ''occurrence_packets'' False d
      | _ \<Rightarrow> d)"

text \<open>The items of a transcript are segment objects; anything else has no attributes to read.\<close>

definition object_items :: "json \<Rightarrow> pydict list result" where
  "object_items v =
     (case v of
        JArr items \<Rightarrow> mapM (\<lambda>i. case i of JObj d \<Rightarrow> Inr d | _ \<Rightarrow> Inl (TypeError ''not a segment'')) items
      | _ \<Rightarrow> Inl (TypeError ''not iterable''))"

definition class_body :: "(string \<Rightarrow> string) \<Rightarrow> (json \<Rightarrow> int) \<Rightarrow> artifact_class \<Rightarrow> pydict \<Rightarrow> pydict result" where
  "class_body H ms cls d =
     (if cls = TranscriptArtifact
      then try_bind (object_items (field ''segments'' d)) (\<lambda>items.
           try_bind (transcript_segments H ms d items) (\<lambda>items'.
             Inr (map_field ''segments'' (\<lambda>_. JArr (map JObj items')) d)))
      else Inr (canonical_body cls d))"

definition post_init :: "(string \<Rightarrow> string) \<Rightarrow> (json \<Rightarrow> int) \<Rightarrow> artifact \<Rightarrow> artifact result" where
  "post_init H ms a =
     try_bind (ensure (\<not> (af_class a = FrameArtifact \<and> af_profile a = Legacy_Frame \<and>
                          set_truthy ''planner_request_id'' (af_body a)))
                (ValueError ''legacy frame identity cannot carry planner_request_id'')) (\<lambda>_.
     try_bind (ensure (\<not> (af_class a = OCRArtifact \<and> af_profile a = Legacy_OCR \<and>
                          (set_truthy ''requested_device'' (af_body a) \<or> set_truthy ''actual_device'' (af_body a) \<or>
                           set_truthy ''runtime_identity'' (af_body a))))
                (ValueError ''legacy OCR identity cannot carry GPU runtime provenance'')) (\<lambda>_.
     try_bind (class_body H ms (af_class a) (af_body a)) (\<lambda>body.
       Inr (base_init H (a\<lparr>af_body := body\<rparr>)))))"

section \<open>Reading serialised artifacts\<close>

definition jf :: "string \<Rightarrow> json \<Rightarrow> string \<times> json" where
  "jf k v = (k, v)"

abbreviation "j_str \<equiv> JStr []"
abbreviation "j_list \<equiv> JArr []"
abbreviation "j_dict \<equiv> JObj []"

fun class_defaults :: "artifact_class \<Rightarrow> pydict" where
  "class_defaults SourceArtifact =
     [jf ''source_type'' j_str, jf ''source_ref'' j_str, jf ''source_content_hash'' j_str, jf ''source_metadata'' j_dict,
      jf ''raw_content_hash'' j_str, jf ''raw_content_length'' JNull, jf ''raw_storage_uri'' JNull,
      jf ''source_identity_hash'' j_str, jf ''source_version_id'' j_str, jf ''resolver_version'' j_str]"
| "class_defaults MediaArtifact =
     [jf ''source_artifact_id'' j_str, jf ''media_uri'' j_str, jf ''duration_ms'' JNull, jf ''audio_hash'' JNull,
      jf ''video_hash'' JNull, jf ''container'' JNull, jf ''audio_codec'' JNull, jf ''video_codec'' JNull,
      jf ''extractor_version'' JNull]"
| "class_defaults TranscriptArtifact =
     [jf ''media_artifact_id'' j_str, jf ''language'' JNull, jf ''segments'' j_list, jf ''asr_model'' (JStr ''unknown''),
      jf ''asr_model_version'' (JStr ''unknown'')]"
| "class_defaults EvidenceArtifact =
     [jf ''transcript_artifact_id'' j_str, jf ''evidences'' j_list, jf ''source_artifact_ids'' j_list]"
| "class_defaults ClaimArtifact = [jf ''evidence_artifact_id'' j_str, jf ''claims'' j_list]"
| "class_defaults VerificationArtifact = [jf ''claim_artifact_id'' j_str, jf ''results'' j_list]"
| "class_defaults KnowledgeArtifact = [jf ''verification_artifact_id'' j_str, jf ''knowledge_units'' j_list]"
| "class_defaults KnowledgeVisualEvidenceArtifact = [jf ''occurrence_packets'' j_list]"
| "class_defaults SummaryArtifact = [jf ''knowledge_artifact_id'' j_str, jf ''core_summary'' j_str]"
| "class_defaults FrameArtifact =
     [jf ''media_artifact_id'' j_str, jf ''frame_id'' j_str, jf ''timestamp_ms'' (JInt 0), jf ''image_hash'' j_str,
      jf ''storage_ref'' j_str, jf ''extraction_reason'' j_str, jf ''semantic_segment_ids'' j_list,
      jf ''evidence_window_ids'' j_list, jf ''planner_version'' j_str, jf ''planner_request_id'' j_str]"
| "class_defaults OCRArtifact =
     [jf ''frame_artifact_id'' j_str, jf ''frame_id'' j_str, jf ''timestamp_ms'' (JInt 0), jf ''image_hash'' j_str,
      jf ''semantic_segment_ids'' j_list, jf ''evidence_window_ids'' j_list, jf ''text'' j_str, jf ''bbox'' JNull,
      jf ''confidence_score'' JNull, jf ''blocks'' j_list, jf ''engine'' j_str, jf ''engine_version'' j_str,
      jf ''requested_device'' j_str, jf ''actual_device'' j_str, jf ''runtime_identity'' j_dict]"
| "class_defaults VisionArtifact =
     [jf ''frame_artifact_id'' j_str, jf ''frame_id'' j_str, jf ''timestamp_ms'' (JInt 0), jf ''image_hash'' j_str,
      jf ''semantic_segment_ids'' j_list, jf ''evidence_window_ids'' j_list, jf ''label'' j_str, jf ''labels'' j_list,
      jf ''confidence_score'' JNull, jf ''payload'' j_dict, jf ''model_name'' j_str, jf ''model_version'' j_str]"
| "class_defaults TranscriptVisualCrosscheckArtifact =
     [jf ''transcript_artifact_id'' j_str, jf ''semantic_segment_artifact_id'' j_str, jf ''crosscheck_version'' j_str,
      jf ''visual_identity'' j_dict, jf ''relations'' j_list, jf ''eligible_frame_ids'' j_list]"
| "class_defaults SecurityEntityAlignmentArtifact =
     [jf ''transcript_artifact_id'' j_str, jf ''crosscheck_artifact_id'' j_str, jf ''security_mentions'' j_list,
      jf ''displayed_target_candidates'' j_list, jf ''alignment_version'' (JStr ''security-entity-alignment.v1'')]"
| "class_defaults SemanticSegmentArtifact =
     [jf ''transcript_artifact_id'' j_str, jf ''segments'' j_list, jf ''model_id'' j_str, jf ''prompt_version'' j_str,
      jf ''segmentation_schema_version'' (JStr ''semantic-segment.v1'')]"
| "class_defaults ClaimOccurrenceArtifact =
     [jf ''semantic_segment_artifact_id'' j_str, jf ''evidence_artifact_id'' j_str, jf ''occurrence_ids'' j_list]"
| "class_defaults LifecycleArtifact =
     [jf ''claim_lifecycle_event_ids'' j_list, jf ''occurrence_lifecycle_event_ids'' j_list,
      jf ''lifecycle_business_as_of'' JNull, jf ''lifecycle_knowledge_as_of'' JNull, jf ''policy_version'' j_str]"

definition identity_profile_from_payload :: "pydict \<Rightarrow> identity_profile" where
  "identity_profile_from_payload payload =
     (let ty = dict_get ''artifact_type'' payload
      in if ty = Some (JStr ''frame'') \<and> dict_get ''planner_request_id'' payload = None then Legacy_Frame
         else if ty = Some (JStr ''ocr'') \<and>
           list_all (\<lambda>k. dict_get k payload = None) [''requested_device'', ''actual_device'', ''runtime_identity'']
         then Legacy_OCR
         else if ty = Some (JStr ''transcript'') \<and>
           (case field ''segments'' payload of
              JArr items \<Rightarrow> list_ex (\<lambda>i. case i of JObj d \<Rightarrow> dict_get ''correction_records'' d = None | _ \<Rightarrow> False) items
            | _ \<Rightarrow> False)
         then Legacy_Transcript else Current)"

definition evidence_defaults :: pydict where
  "evidence_defaults =
     [jf ''evidence_id'' JNull, jf ''source_type'' JNull, jf ''evidence_text'' j_str, jf ''start_ms'' JNull,
      jf ''end_ms'' JNull, jf ''confidence_score'' JNull, jf ''locator'' j_dict, jf ''raw_text'' j_str,
      jf ''normalized_text'' j_str, jf ''source_artifact_id'' j_str]"

definition semantic_item_defaults :: pydict where
  "semantic_item_defaults =
     [jf ''semantic_segment_id'' JNull, jf ''segment_index'' JNull, jf ''start_segment_index'' JNull,
      jf ''end_segment_index'' JNull, jf ''start_segment_id'' JNull, jf ''end_segment_id'' JNull,
      jf ''start_ms'' JNull, jf ''end_ms'' JNull, jf ''topic'' JNull, jf ''subject'' JNull,
      jf ''segment_type'' (JStr ''ANALYSIS''), jf ''confidence'' JNull, jf ''derivation_namespace'' j_str]"

definition hydrate_items :: "(pydict \<Rightarrow> pydict result) \<Rightarrow> json \<Rightarrow> json result" where
  "hydrate_items f v =
     (case v of
        JArr items \<Rightarrow>
          try_bind (mapM (\<lambda>i. case i of JObj d \<Rightarrow> try_bind (f d) (\<lambda>d'. Inr (JObj d')) | _ \<Rightarrow> Inr i) items)
            (\<lambda>items'. Inr (JArr items'))
      | _ \<Rightarrow> Inl (TypeError ''not iterable''))"

definition parse_stored_time :: "string \<Rightarrow> pydt result" where
  "parse_stored_time s = from_isoformat (replace_from 0 ''Z'' ''+00:00'' s)"

definition hydrate_field ::
  "(string \<Rightarrow> string) \<Rightarrow> (json \<Rightarrow> int) \<Rightarrow> artifact_class \<Rightarrow> string \<Rightarrow> json \<Rightarrow> json result" where
  "hydrate_field H ms cls k v =
     (if k = ''segments'' \<and> cls = TranscriptArtifact then hydrate_items (new_segment H ms) v
      else if k = ''segments'' \<and> cls = SemanticSegmentArtifact
      then hydrate_items (new_item (map fst (take 8 semantic_item_defaults)) semantic_item_defaults) v
      else if k = ''evidences'' \<and> cls = EvidenceArtifact
      then hydrate_items (new_item [''evidence_id'', ''source_type''] evidence_defaults) v
      else if k \<in> {''created_at'', ''lifecycle_business_as_of'', ''lifecycle_knowledge_as_of''}
      then (case v of JStr s \<Rightarrow> try_bind (parse_stored_time s) (\<lambda>t. Inr (JStr (dt_str t))) | _ \<Rightarrow> Inr v)
      else Inr v)"

definition str_arg :: "string \<Rightarrow> string option \<Rightarrow> pydict \<Rightarrow> string result" where
  "str_arg k dflt kwargs =
     (case dict_get k kwargs of
        None \<Rightarrow> (case dflt of None \<Rightarrow> Inl (TypeError (''missing argument: '' @ k)) | Some d \<Rightarrow> Inr d)
      | Some v \<Rightarrow> (case v of JStr s \<Rightarrow> Inr s | _ \<Rightarrow> Inl (TypeError k)))"

definition strs_arg :: "string \<Rightarrow> pydict \<Rightarrow> string list result" where
  "strs_arg k kwargs =
     (case dict_get k kwargs of
        None \<Rightarrow> Inr []
      | Some (JArr vs) \<Rightarrow> mapM (\<lambda>v. case v of JStr s \<Rightarrow> Inr s | _ \<Rightarrow> Inl (TypeError k)) vs
      | Some _ \<Rightarrow> Inl (TypeError k))"

definition time_arg :: "pydt \<Rightarrow> pydict \<Rightarrow> pydt result" where
  "time_arg clock kwargs =
     (case dict_get ''created_at'' kwargs of
        None \<Rightarrow> Inr clock
      | Some v \<Rightarrow> (case v of JStr s \<Rightarrow> from_isoformat s | _ \<Rightarrow> Inl (TypeError ''created_at'')))"

text \<open>
  \<open>cls(**kwargs)\<close>: a field that is not given takes its default, \<open>clock\<close> is the default creation time.
  A base field of another type than its annotation is rejected here; in the source it is the row
  validation of the repository that rejects it.
\<close>

definition new_artifact ::
  "(string \<Rightarrow> string) \<Rightarrow> (json \<Rightarrow> int) \<Rightarrow> pydt \<Rightarrow> artifact_class \<Rightarrow> pydict \<Rightarrow> artifact result" where
  "new_artifact H ms clock cls kwargs =
     try_bind (str_arg ''artifact_id'' None kwargs) (\<lambda>aid.
     try_bind (str_arg ''artifact_type'' None kwargs) (\<lambda>ty.
     try_bind (str_arg ''schema_version'' (Some ''artifact.v1'') kwargs) (\<lambda>schema.
     try_bind (time_arg clock kwargs) (\<lambda>created.
     try_bind (str_arg ''producer_stage'' (Some []) kwargs) (\<lambda>stage.
     try_bind (str_arg ''producer_version'' (Some ''1.0.0'') kwargs) (\<lambda>version.
     try_bind (strs_arg ''parent_artifact_ids'' kwargs) (\<lambda>parents.
     try_bind (str_arg ''content_hash'' (Some []) kwargs) (\<lambda>hash.
       post_init H ms
         \<lparr>af_class = cls, af_artifact_id = aid, af_artifact_type = ty, af_schema_version = schema,
          af_created_at = created, af_producer_stage = stage, af_producer_version = version,
          af_parent_ids = parents, af_content_hash = hash, af_profile = Current,
          af_body = with_defaults (class_defaults cls) kwargs\<rparr>))))))))"

definition deserialize_artifact ::
  "(string \<Rightarrow> string) \<Rightarrow> (json \<Rightarrow> int) \<Rightarrow> pydt \<Rightarrow> pydict \<Rightarrow> artifact result" where
  "deserialize_artifact H ms clock payload =
     (case map_of type_registry (py_str (field ''artifact_type'' payload)) of
        None \<Rightarrow> Inl (ValueError ''unknown artifact_type'')
      | Some cls \<Rightarrow>
          try_bind (mapM (\<lambda>(k, v). try_bind (hydrate_field H ms cls k v) (\<lambda>w. Inr (k, w))) payload) (\<lambda>kwargs.
          try_bind (new_artifact H ms clock cls kwargs) (\<lambda>a.
            let profile = identity_profile_from_payload payload
            in if profile = Current then Inr a
               else if set_truthy ''content_hash'' kwargs then Inr (a\<lparr>af_profile := profile\<rparr>)
               else (let b = a\<lparr>af_profile := profile\<rparr> in Inr (b\<lparr>af_content_hash := identity_hash H b\<rparr>)))))"

text \<open>\<open>json.loads(canonical_json(serialize_artifact(a)))\<close>: what a row stores.\<close>

definition json_payload :: "artifact \<Rightarrow> pydict" where
  "json_payload a = sort_key fst (canon_fields (serialize_artifact a))"

section \<open>Membership lists are canonical\<close>

lemma first_by_set: "x \<in> set (first_by key seen xs) \<Longrightarrow> x \<in> set xs \<and> key x \<notin> set seen"
  by (induction xs arbitrary: seen) (fastforce split: if_splits)+

lemma first_by_keys: "key ` set (first_by key seen xs) = key ` set xs - set seen"
proof (induction xs arbitrary: seen)
  case (Cons x xs)
  then show ?case by (cases "key x \<in> set seen") auto
qed simp

lemma first_by_distinct: "distinct (map key (first_by key seen xs))"
  by (induction xs arbitrary: seen) (auto dest: first_by_set)

lemma first_by_id: "distinct (map key xs) \<Longrightarrow> key ` set xs \<inter> set seen = {} \<Longrightarrow> first_by key seen xs = xs"
  by (induction xs arbitrary: seen) auto

lemma first_by_sorted: "sorted (map g xs) \<Longrightarrow> sorted (map g (first_by key seen xs))"
  by (induction xs arbitrary: seen) (auto dest: first_by_set)

lemma first_by_map: "map g (first_by (\<lambda>x. key (g x)) seen xs) = first_by key seen (map g xs)"
  by (induction xs arbitrary: seen) auto

lemma first_by_remdups_adj: "first_by key seen (remdups_adj xs) = first_by key seen xs"
  by (induction xs arbitrary: seen rule: remdups_adj.induct) auto

lemma map_sort_key: "map f (sort_key f xs) = sort (map f xs)"
  by (intro properties_for_sort [symmetric]) simp_all

lemma stable_membership_idem: "stable_membership fi (stable_membership fi vs) = stable_membership fi vs"
proof -
  have "sorted (map (member_sort_key fi) (stable_membership fi vs))"
    unfolding stable_membership_def by (rule first_by_sorted) simp
  then have "sort_key (member_sort_key fi) (stable_membership fi vs) = stable_membership fi vs"
    by (rule sort_key_id_if_sorted)
  moreover have "distinct (map (\<lambda>v. fst (member_sort_key fi v)) (stable_membership fi vs))"
    unfolding stable_membership_def by (rule first_by_distinct)
  ultimately show ?thesis by (subst stable_membership_def) (simp add: first_by_id)
qed

lemma stable_membership_subset: "set (stable_membership fi vs) \<subseteq> set vs"
  unfolding stable_membership_def by (auto dest: first_by_set)

lemma stable_membership_keys:
  "(\<lambda>v. fst (member_sort_key fi v)) ` set (stable_membership fi vs) = (\<lambda>v. fst (member_sort_key fi v)) ` set vs"
  unfolding stable_membership_def by (simp add: first_by_keys)

lemma sorted_distinct_remdups_adj: "sorted xs \<Longrightarrow> distinct (remdups_adj xs)"
  for xs :: "'a :: linorder list"
  by (induction xs rule: remdups_adj.induct) auto

text \<open>The canonical texts depend on the set of members only, not on their order or repetition.\<close>

lemma stable_membership_set:
  assumes "member_sort_key fi ` set vs = member_sort_key fi ` set ws"
  shows "map canonical_json (stable_membership fi vs) = map canonical_json (stable_membership fi ws)"
proof -
  let ?k = "member_sort_key fi"
  have keys: "map ?k (stable_membership fi us) = first_by fst [] (remdups_adj (sort (map ?k us)))" for us
    unfolding stable_membership_def first_by_map first_by_remdups_adj by (simp add: map_sort_key)
  have "remdups_adj (sort (map ?k vs)) = remdups_adj (sort (map ?k ws))"
    by (rule sorted_distinct_set_unique)
      (use assms in \<open>simp_all add: sorted_remdups_adj sorted_distinct_remdups_adj\<close>)
  then have "map ?k (stable_membership fi vs) = map ?k (stable_membership fi ws)" by (simp only: keys)
  then have "map snd (map ?k (stable_membership fi vs)) = map snd (map ?k (stable_membership fi ws))" by simp
  then show ?thesis by (simp add: member_sort_key_def comp_def)
qed

end
