(* ===== verification/Checkpoint.thy ===== *)
theory Checkpoint
  imports Artifacts Claims
begin

text \<open>
  \<open>domain/checkpoint.py\<close>: the artifact checkpoint of a pipeline stage, its JSON form, its state checksum
  and the validation that resuming a task needs. \<open>now\<close> is \<open>datetime.now(UTC)\<close>, \<open>H\<close> the hexadecimal
  SHA-256 digest. JSON lists of a checkpoint hold strings; anything else is a \<open>TypeError\<close>.
\<close>

section \<open>Records\<close>

definition checkpoint_schema_version :: string where
  "checkpoint_schema_version = ''checkpoint.v2''"

definition checkpoint_statuses :: "string list" where
  "checkpoint_statuses = [''SUCCEEDED'', ''FAILED'', ''SKIPPED'']"

type_synonym identity = "(string \<times> string) list"

record checkpoint_record =
  ck_stage :: string
  ck_stage_version :: string
  ck_input_artifact_ids :: "string list"
  ck_output_artifact_ids :: "string list"
  ck_output_hashes :: "string list"
  ck_input_hashes :: "string list"
  ck_public_materialization_hash :: string
  ck_model_identity :: "identity option"
  ck_prompt_identity :: "identity option"
  ck_worker_id :: "string option"
  ck_fencing_token :: "int option"
  ck_state_checksum :: string
  ck_started_at :: "pydt option"
  ck_finished_at :: "pydt option"
  ck_status :: string
  ck_retry_count :: int
  ck_schema_version :: string
  ck_error :: "string option"

definition jidentity :: "identity \<Rightarrow> json" where
  "jidentity i = JObj (map (\<lambda>(k, v). (k, JStr v)) i)"

definition jopt :: "('a \<Rightarrow> json) \<Rightarrow> 'a option \<Rightarrow> json" where
  "jopt f v = (case v of None \<Rightarrow> JNull | Some x \<Rightarrow> f x)"

definition checkpoint_to_dict :: "checkpoint_record \<Rightarrow> pydict" where
  "checkpoint_to_dict r =
     [(''stage'', JStr (ck_stage r)), (''stage_version'', JStr (ck_stage_version r)),
      (''input_artifact_ids'', jstrs (ck_input_artifact_ids r)),
      (''output_artifact_ids'', jstrs (ck_output_artifact_ids r)),
      (''output_hashes'', jstrs (ck_output_hashes r)), (''input_hashes'', jstrs (ck_input_hashes r)),
      (''public_materialization_hash'', JStr (ck_public_materialization_hash r)),
      (''model_identity'', jopt jidentity (ck_model_identity r)),
      (''prompt_identity'', jopt jidentity (ck_prompt_identity r)),
      (''worker_id'', jopt JStr (ck_worker_id r)), (''fencing_token'', jopt JInt (ck_fencing_token r)),
      (''state_checksum'', JStr (ck_state_checksum r)),
      (''started_at'', jopt (\<lambda>t. JStr (isoformat t)) (ck_started_at r)),
      (''finished_at'', jopt (\<lambda>t. JStr (isoformat t)) (ck_finished_at r)),
      (''status'', JStr (ck_status r)), (''retry_count'', JInt (ck_retry_count r)),
      (''schema_version'', JStr (ck_schema_version r)), (''error'', jopt JStr (ck_error r))]"

section \<open>Reading\<close>

definition identity_mapping :: "json \<Rightarrow> identity option result" where
  "identity_mapping v =
     (if \<not> py_truthy v then Inr None
      else (case v of
              JObj d \<Rightarrow> Inr (Some (dict_of_pairs (map (\<lambda>(k, x). (k, py_str x)) (sort_key fst d))))
            | _ \<Rightarrow> Inl (ValueError ''checkpoint identity must be a mapping'')))"

definition tuple_field :: "string \<Rightarrow> pydict \<Rightarrow> string list result" where
  "tuple_field k payload =
     (if \<not> py_truthy (field k payload) then Inr []
      else (case field k payload of
              JArr vs \<Rightarrow> mapM (\<lambda>v. case v of JStr s \<Rightarrow> Inr s | _ \<Rightarrow> Inl (TypeError k)) vs
            | _ \<Rightarrow> Inl (TypeError k)))"

definition opt_str_field :: "string \<Rightarrow> pydict \<Rightarrow> string option" where
  "opt_str_field k payload = (if field k payload = JNull then None else Some (py_str (field k payload)))"

text \<open>\<open>int(value)\<close> of the JSON values that stand for integers.\<close>

definition py_int :: "json \<Rightarrow> int result" where
  "py_int v =
     (case v of
        JInt i \<Rightarrow> Inr i
      | JBool b \<Rightarrow> Inr (if b then 1 else 0)
      | JStr s \<Rightarrow> (case numeral_of s of Some i \<Rightarrow> Inr i | None \<Rightarrow> Inl (ValueError ''invalid literal for int()''))
      | _ \<Rightarrow> Inl (TypeError ''int() argument''))"

definition parse_time_field :: "json \<Rightarrow> pydt option result" where
  "parse_time_field v =
     (case v of
        JStr s \<Rightarrow> try_bind (from_isoformat s) (\<lambda>t. Inr (Some (as_utc t)))
      | _ \<Rightarrow> Inr None)"

definition checkpoint_from_dict :: "pydict \<Rightarrow> checkpoint_record result" where
  "checkpoint_from_dict payload =
     try_bind (tuple_field ''input_artifact_ids'' payload) (\<lambda>inputs.
     try_bind (tuple_field ''output_artifact_ids'' payload) (\<lambda>outputs.
     try_bind (tuple_field ''output_hashes'' payload) (\<lambda>output_hashes.
     try_bind (tuple_field ''input_hashes'' payload) (\<lambda>input_hashes.
     try_bind (identity_mapping (field ''model_identity'' payload)) (\<lambda>model.
     try_bind (identity_mapping (field ''prompt_identity'' payload)) (\<lambda>prompt.
     try_bind (if field ''fencing_token'' payload = JNull then Inr None
               else try_bind (py_int (field ''fencing_token'' payload)) (\<lambda>i. Inr (Some i))) (\<lambda>token.
     try_bind (parse_time_field (field ''started_at'' payload)) (\<lambda>started.
     try_bind (parse_time_field (field ''finished_at'' payload)) (\<lambda>finished.
     try_bind (if py_truthy (field ''retry_count'' payload) then py_int (field ''retry_count'' payload) else Inr 0) (\<lambda>retry.
     try_bind (case field ''error'' payload of JNull \<Rightarrow> Inr None | JStr s \<Rightarrow> Inr (Some s) | _ \<Rightarrow> Inl (TypeError ''error''))
      (\<lambda>err.
       Inr \<lparr>ck_stage = str_field ''stage'' [] payload,
            ck_stage_version = str_field ''stage_version'' ''1.0.0'' payload,
            ck_input_artifact_ids = inputs, ck_output_artifact_ids = outputs, ck_output_hashes = output_hashes,
            ck_input_hashes = input_hashes,
            ck_public_materialization_hash = str_field ''public_materialization_hash'' [] payload,
            ck_model_identity = model, ck_prompt_identity = prompt,
            ck_worker_id = opt_str_field ''worker_id'' payload, ck_fencing_token = token,
            ck_state_checksum = str_field ''state_checksum'' [] payload, ck_started_at = started,
            ck_finished_at = finished, ck_status = str_field ''status'' ''SUCCEEDED'' payload,
            ck_retry_count = retry,
            ck_schema_version = str_field ''schema_version'' checkpoint_schema_version payload,
            ck_error = err\<rparr>)))))))))))"

section \<open>Checksum and construction\<close>

definition jident_or_empty :: "identity option \<Rightarrow> json" where
  "jident_or_empty i = (case i of None \<Rightarrow> JObj [] | Some x \<Rightarrow> jidentity x)"

definition checksum_payload :: "checkpoint_record \<Rightarrow> pydict" where
  "checksum_payload r =
     [(''stage'', JStr (ck_stage r)), (''stage_version'', JStr (ck_stage_version r)),
      (''input_artifact_ids'', jstrs (ck_input_artifact_ids r)), (''input_hashes'', jstrs (ck_input_hashes r)),
      (''output_artifact_ids'', jstrs (ck_output_artifact_ids r)), (''output_hashes'', jstrs (ck_output_hashes r)),
      (''public_materialization_hash'', JStr (ck_public_materialization_hash r)),
      (''model_identity'', jident_or_empty (ck_model_identity r)),
      (''prompt_identity'', jident_or_empty (ck_prompt_identity r)), (''status'', JStr (ck_status r))]"

definition checkpoint_state_checksum :: "(string \<Rightarrow> string) \<Rightarrow> checkpoint_record \<Rightarrow> string" where
  "checkpoint_state_checksum H r = H (canonical_json (JObj (checksum_payload r)))"

definition sorted_identity :: "identity option \<Rightarrow> identity option" where
  "sorted_identity i =
     (case i of None \<Rightarrow> None | Some d \<Rightarrow> if d = [] then None else Some (sort_key fst (dict_of_pairs d)))"

record checkpoint_args =
  ca_stage :: string
  ca_stage_version :: string
  ca_input_artifact_ids :: "string list"
  ca_input_hashes :: "string list"
  ca_outputs :: "artifact list"
  ca_public_materialization_hash :: string
  ca_model_identity :: "identity option"
  ca_prompt_identity :: "identity option"
  ca_worker_id :: "string option"
  ca_fencing_token :: "int option"
  ca_started_at :: "pydt option"
  ca_finished_at :: "pydt option"
  ca_status :: string
  ca_retry_count :: int
  ca_error :: "string option"

definition build_checkpoint :: "(string \<Rightarrow> string) \<Rightarrow> instant \<Rightarrow> checkpoint_args \<Rightarrow> checkpoint_record result" where
  "build_checkpoint H now a =
     (if ca_status a \<notin> set checkpoint_statuses then Inl (ValueError (''invalid checkpoint status: '' @ ca_status a))
      else (let r = \<lparr>ck_stage = ca_stage a, ck_stage_version = ca_stage_version a,
                     ck_input_artifact_ids = ca_input_artifact_ids a,
                     ck_output_artifact_ids = map af_artifact_id (ca_outputs a),
                     ck_output_hashes = map af_content_hash (ca_outputs a),
                     ck_input_hashes = ca_input_hashes a,
                     ck_public_materialization_hash = ca_public_materialization_hash a,
                     ck_model_identity = sorted_identity (ca_model_identity a),
                     ck_prompt_identity = sorted_identity (ca_prompt_identity a),
                     ck_worker_id = ca_worker_id a, ck_fencing_token = ca_fencing_token a,
                     ck_state_checksum = [], ck_started_at = ca_started_at a,
                     ck_finished_at = (case ca_finished_at a of None \<Rightarrow> Some (Aware now 0) | Some t \<Rightarrow> Some t),
                     ck_status = ca_status a, ck_retry_count = ca_retry_count a,
                     ck_schema_version = checkpoint_schema_version, ck_error = ca_error a\<rparr>
            in Inr (r\<lparr>ck_state_checksum := checkpoint_state_checksum H r\<rparr>)))"

section \<open>Validation before a resume\<close>

definition check_outputs :: "(string \<Rightarrow> artifact option) \<Rightarrow> checkpoint_record \<Rightarrow> unit result" where
  "check_outputs arts r =
     foldM (\<lambda>_ (aid, expected).
       case arts aid of
         None \<Rightarrow> Inl (CheckpointValidationError (''missing artifact for stage '' @ ck_stage r @ '': '' @ aid))
       | Some a \<Rightarrow> ensure (af_content_hash a = expected)
                     (CheckpointValidationError (''artifact hash mismatch for stage '' @ ck_stage r @ '': '' @ aid)))
       () (zip (ck_output_artifact_ids r) (ck_output_hashes r))"

definition check_inputs :: "(string \<Rightarrow> artifact option) \<Rightarrow> checkpoint_record \<Rightarrow> unit result" where
  "check_inputs arts r =
     (if ck_input_hashes r = [] then Inr ()
      else if length (ck_input_artifact_ids r) \<noteq> length (ck_input_hashes r)
      then Inl (CheckpointValidationError (''input hash count mismatch for stage '' @ ck_stage r))
      else foldM (\<lambda>_ (aid, expected).
        case arts aid of
          None \<Rightarrow> Inl (CheckpointValidationError (''missing input artifact for stage '' @ ck_stage r @ '': '' @ aid))
        | Some a \<Rightarrow> ensure (af_content_hash a = expected)
                      (CheckpointValidationError (''input artifact hash mismatch for stage '' @ ck_stage r @ '': '' @ aid)))
        () (zip (ck_input_artifact_ids r) (ck_input_hashes r)))"

definition check_record ::
  "(string \<Rightarrow> string) \<Rightarrow> (string \<Rightarrow> artifact option) \<Rightarrow> (string \<times> string) list \<Rightarrow> checkpoint_record \<Rightarrow> unit result" where
  "check_record H arts versions r =
     try_bind (check_outputs arts r) (\<lambda>_.
     try_bind (check_inputs arts r) (\<lambda>_.
     try_bind (ensure (ck_state_checksum r = [] \<or> ck_state_checksum r = checkpoint_state_checksum H r)
                (CheckpointValidationError (''checkpoint state checksum mismatch for stage '' @ ck_stage r))) (\<lambda>_.
       ensure (case map_of versions (ck_stage r) of
                 None \<Rightarrow> True
               | Some v \<Rightarrow> v = [] \<or> ck_stage_version r = [] \<or> v = ck_stage_version r)
         (CheckpointValidationError (''stage version incompatible for '' @ ck_stage r)))))"

fun validate_resume ::
  "(string \<Rightarrow> string) \<Rightarrow> (string \<Rightarrow> artifact option) \<Rightarrow> (string \<times> string) list \<Rightarrow> checkpoint_record list \<Rightarrow>
     string list result" where
  "validate_resume H arts versions [] = Inr []"
| "validate_resume H arts versions (r # rs) =
     (if ck_status r \<noteq> ''SUCCEEDED'' then Inr []
      else try_bind (check_record H arts versions r) (\<lambda>_.
           try_bind (validate_resume H arts versions rs) (\<lambda>completed. Inr (ck_stage r # completed))))"

section \<open>What validation establishes\<close>

text \<open>The specification: the facts that a succeeded checkpoint needs.\<close>

definition holds :: "(string \<Rightarrow> artifact option) \<Rightarrow> string \<times> string \<Rightarrow> bool" where
  "holds arts p \<longleftrightarrow> (case arts (fst p) of None \<Rightarrow> False | Some a \<Rightarrow> af_content_hash a = snd p)"

definition verified ::
  "(string \<Rightarrow> string) \<Rightarrow> (string \<Rightarrow> artifact option) \<Rightarrow> (string \<times> string) list \<Rightarrow> checkpoint_record \<Rightarrow> bool" where
  "verified H arts versions r \<longleftrightarrow>
     list_all (holds arts) (zip (ck_output_artifact_ids r) (ck_output_hashes r)) \<and>
     (ck_input_hashes r = [] \<or>
      length (ck_input_artifact_ids r) = length (ck_input_hashes r) \<and>
      list_all (holds arts) (zip (ck_input_artifact_ids r) (ck_input_hashes r))) \<and>
     (ck_state_checksum r = [] \<or> ck_state_checksum r = checkpoint_state_checksum H r) \<and>
     (case map_of versions (ck_stage r) of
        None \<Rightarrow> True | Some v \<Rightarrow> v = [] \<or> ck_stage_version r = [] \<or> v = ck_stage_version r)"

definition succeeded :: "checkpoint_record \<Rightarrow> bool" where
  "succeeded r \<longleftrightarrow> ck_status r = ''SUCCEEDED''"

definition validation_error :: "'a result \<Rightarrow> bool" where
  "validation_error m \<longleftrightarrow> (case m of Inl (CheckpointValidationError _) \<Rightarrow> True | _ \<Rightarrow> False)"

lemma validation_error_simps [simp]:
  "validation_error (Inl (CheckpointValidationError m))" "\<not> validation_error (Inr x)"
  by (simp_all add: validation_error_def)

lemma validation_error_bind:
  "validation_error (try_bind m f) \<longleftrightarrow> validation_error m \<or> (\<exists>x. m = Inr x \<and> validation_error (f x))"
  by (cases m) (simp_all add: validation_error_def)

lemma foldM_checks:
  assumes "\<And>x. x \<in> set xs \<Longrightarrow> (ok x \<and> f () x = Inr ()) \<or> (\<not> ok x \<and> validation_error (f () x))"
  shows "(list_all ok xs \<and> foldM f () xs = Inr ()) \<or> (\<not> list_all ok xs \<and> validation_error (foldM f () xs))"
  using assms
proof (induction xs)
  case (Cons x xs)
  from Cons.prems [of x] consider "ok x" "f () x = Inr ()" | "\<not> ok x" "validation_error (f () x)" by auto
  then show ?case
  proof cases
    case 1
    with Cons show ?thesis by simp
  qed (simp add: validation_error_bind)
qed simp

lemma check_outputs_iff:
  "(list_all (holds arts) (zip (ck_output_artifact_ids r) (ck_output_hashes r)) \<and> check_outputs arts r = Inr ()) \<or>
   (\<not> list_all (holds arts) (zip (ck_output_artifact_ids r) (ck_output_hashes r)) \<and> validation_error (check_outputs arts r))"
  unfolding check_outputs_def
  by (rule foldM_checks) (auto simp: holds_def ensure_def split: option.splits if_splits)

lemma check_record_iff:
  "(verified H arts versions r \<and> check_record H arts versions r = Inr ()) \<or>
   (\<not> verified H arts versions r \<and> validation_error (check_record H arts versions r))"
proof -
  let ?outs = "list_all (holds arts) (zip (ck_output_artifact_ids r) (ck_output_hashes r))"
  let ?ins = "ck_input_hashes r = [] \<or> length (ck_input_artifact_ids r) = length (ck_input_hashes r) \<and>
      list_all (holds arts) (zip (ck_input_artifact_ids r) (ck_input_hashes r))"
  let ?err = "\<lambda>aid. CheckpointValidationError (''input artifact hash mismatch for stage '' @ ck_stage r @ '': '' @ aid)"
  have folds: "(list_all (holds arts) ps \<and> foldM (\<lambda>_ (aid, expected). case arts aid of
          None \<Rightarrow> Inl (CheckpointValidationError (''missing input artifact for stage '' @ ck_stage r @ '': '' @ aid))
        | Some a \<Rightarrow> ensure (af_content_hash a = expected) (?err aid)) () ps = Inr ()) \<or>
      (\<not> list_all (holds arts) ps \<and> validation_error (foldM (\<lambda>_ (aid, expected). case arts aid of
          None \<Rightarrow> Inl (CheckpointValidationError (''missing input artifact for stage '' @ ck_stage r @ '': '' @ aid))
        | Some a \<Rightarrow> ensure (af_content_hash a = expected) (?err aid)) () ps))" for ps
    by (rule foldM_checks) (auto simp: holds_def ensure_def split: option.splits if_splits)
  have ins: "(?ins \<and> check_inputs arts r = Inr ()) \<or> (\<not> ?ins \<and> validation_error (check_inputs arts r))"
    using folds [of "zip (ck_input_artifact_ids r) (ck_input_hashes r)"] by (simp add: check_inputs_def)
  show ?thesis
  proof (cases "?outs \<and> ?ins")
    case True
    then have "check_outputs arts r = Inr ()" "check_inputs arts r = Inr ()"
      using check_outputs_iff [of arts r] ins by blast+
    then show ?thesis
      using True by (simp add: check_record_def verified_def ensure_def)
  next
    case False
    then have "\<not> verified H arts versions r" by (auto simp: verified_def)
    moreover have "validation_error (check_record H arts versions r)"
      using False check_outputs_iff [of arts r] ins
      by (cases ?outs) (auto simp: check_record_def validation_error_bind)
    ultimately show ?thesis by blast
  qed
qed

lemma validate_resume_split:
  "(list_all (verified H arts versions) (takeWhile succeeded rs) \<and>
      validate_resume H arts versions rs = Inr (map ck_stage (takeWhile succeeded rs))) \<or>
   (\<not> list_all (verified H arts versions) (takeWhile succeeded rs) \<and>
      validation_error (validate_resume H arts versions rs))"
proof (induction rs)
  case (Cons r rs)
  show ?case
  proof (cases "succeeded r")
    case True
    with Cons check_record_iff [of H arts versions r] show ?thesis
      by (auto simp: succeeded_def validation_error_bind)
  qed (simp add: succeeded_def)
qed simp

text \<open>
  C36. Validation accepts exactly the verified prefix: \<open>validate_resume\<close> returns the stages of the
  checkpoints before the first one that has not succeeded when every one of them has its outputs and
  inputs with the recorded hashes, its own checksum and a compatible version, and raises
  \<open>CheckpointValidationError\<close> in every other case.
\<close>

theorem validate_resume_exact:
  "if list_all (verified H arts versions) (takeWhile succeeded rs)
   then validate_resume H arts versions rs = Inr (map ck_stage (takeWhile succeeded rs))
   else validation_error (validate_resume H arts versions rs)"
  using validate_resume_split [of H arts versions rs] by auto

section \<open>The round trip\<close>

definition stored_identity :: "identity option \<Rightarrow> bool" where
  "stored_identity i \<longleftrightarrow> (case i of None \<Rightarrow> True | Some d \<Rightarrow> d \<noteq> [] \<and> sorted (map fst d) \<and> distinct (map fst d))"

lemma sorted_identity_stored: "stored_identity (sorted_identity i)"
proof (cases i)
  case (Some d)
  have "dict_of_pairs d \<noteq> []" if "d \<noteq> []"
  proof -
    have "map_of (rev d) (fst (hd d)) \<noteq> None" using that by (simp add: map_of_eq_None_iff)
    then show ?thesis by (auto simp: map_of_dict_of_pairs [symmetric])
  qed
  moreover have "sort_key fst e = [] \<longleftrightarrow> e = []" for e :: identity by (metis length_sort length_0_conv)
  ultimately show ?thesis
    using distinct_dict_of_pairs [of d] by (simp add: Some sorted_identity_def stored_identity_def distinct_map)
qed (simp add: sorted_identity_def stored_identity_def)

lemma identity_mapping_stored:
  assumes "stored_identity i"
  shows "identity_mapping (jopt jidentity i) = Inr i"
proof (cases i)
  case (Some d)
  have d: "d \<noteq> []" "sorted (map fst d)" "distinct (map fst d)" using assms by (simp_all add: Some stored_identity_def)
  have "map fst (map (\<lambda>(k, v). (k, JStr v)) d) = map fst d" by (simp add: comp_def case_prod_beta)
  then have "sort_key fst (map (\<lambda>(k, v). (k, JStr v)) d) = map (\<lambda>(k, v). (k, JStr v)) d"
    using d(2) by (intro sort_key_id_if_sorted) (simp only:)
  moreover have "map (\<lambda>(k, x). (k, py_str x)) (map (\<lambda>(k, v). (k, JStr v)) d) = d"
    by (simp add: comp_def case_prod_beta)
  ultimately show ?thesis using d by (simp add: Some identity_mapping_def jopt_def jidentity_def dict_of_pairs_distinct)
qed (simp add: identity_mapping_def jopt_def)

definition stored_time :: "pydt option \<Rightarrow> bool" where
  "stored_time t \<longleftrightarrow> (case t of None \<Rightarrow> True | Some d \<Rightarrow> datetime_ok d \<and> utc_offset d \<noteq> None)"

lemma parse_stored_time_field: "stored_time t \<Longrightarrow> parse_time_field (jopt (\<lambda>t. JStr (isoformat t)) t) = Inr t"
proof (cases t)
  case (Some d)
  assume "stored_time t"
  with Some have "datetime_ok d" "as_utc d = d" by (auto simp: stored_time_def) (cases d; simp)
  with Some show ?thesis by (simp add: parse_time_field_def jopt_def iso_roundtrip)
qed (simp add: parse_time_field_def jopt_def)

definition stored_checkpoint :: "checkpoint_record \<Rightarrow> bool" where
  "stored_checkpoint r \<longleftrightarrow>
     ck_stage_version r \<noteq> [] \<and> ck_status r \<noteq> [] \<and> ck_schema_version r \<noteq> [] \<and>
     stored_identity (ck_model_identity r) \<and> stored_identity (ck_prompt_identity r) \<and>
     stored_time (ck_started_at r) \<and> stored_time (ck_finished_at r)"

lemma tuple_field_jstrs: "field k d = jstrs ss \<Longrightarrow> tuple_field k d = Inr ss"
proof -
  have "mapM (\<lambda>v. case v of JStr s \<Rightarrow> Inr s | _ \<Rightarrow> Inl (TypeError k)) (map JStr ss) = Inr ss" by (induction ss) simp_all
  then show "field k d = jstrs ss \<Longrightarrow> ?thesis" by (cases ss) (simp_all add: tuple_field_def jstrs_def)
qed

lemma checkpoint_fields:
  "field ''stage'' (checkpoint_to_dict r) = JStr (ck_stage r)"
  "field ''stage_version'' (checkpoint_to_dict r) = JStr (ck_stage_version r)"
  "field ''input_artifact_ids'' (checkpoint_to_dict r) = jstrs (ck_input_artifact_ids r)"
  "field ''output_artifact_ids'' (checkpoint_to_dict r) = jstrs (ck_output_artifact_ids r)"
  "field ''output_hashes'' (checkpoint_to_dict r) = jstrs (ck_output_hashes r)"
  "field ''input_hashes'' (checkpoint_to_dict r) = jstrs (ck_input_hashes r)"
  "field ''public_materialization_hash'' (checkpoint_to_dict r) = JStr (ck_public_materialization_hash r)"
  "field ''model_identity'' (checkpoint_to_dict r) = jopt jidentity (ck_model_identity r)"
  "field ''prompt_identity'' (checkpoint_to_dict r) = jopt jidentity (ck_prompt_identity r)"
  "field ''worker_id'' (checkpoint_to_dict r) = jopt JStr (ck_worker_id r)"
  "field ''fencing_token'' (checkpoint_to_dict r) = jopt JInt (ck_fencing_token r)"
  "field ''state_checksum'' (checkpoint_to_dict r) = JStr (ck_state_checksum r)"
  "field ''started_at'' (checkpoint_to_dict r) = jopt (\<lambda>t. JStr (isoformat t)) (ck_started_at r)"
  "field ''finished_at'' (checkpoint_to_dict r) = jopt (\<lambda>t. JStr (isoformat t)) (ck_finished_at r)"
  "field ''status'' (checkpoint_to_dict r) = JStr (ck_status r)"
  "field ''retry_count'' (checkpoint_to_dict r) = JInt (ck_retry_count r)"
  "field ''schema_version'' (checkpoint_to_dict r) = JStr (ck_schema_version r)"
  "field ''error'' (checkpoint_to_dict r) = jopt JStr (ck_error r)"
  by (simp_all add: field_def dict_get_def checkpoint_to_dict_def)

lemma str_field_field: "str_field k d payload = (if py_truthy (field k payload) then py_str (field k payload) else d)"
  by (simp add: str_field_def field_def split: option.splits)

lemma checkpoint_from_to:
  assumes "stored_checkpoint r"
  shows "checkpoint_from_dict (checkpoint_to_dict r) = Inr r"
proof -
  have "(if jopt JInt (ck_fencing_token r) = JNull then Inr None
      else try_bind (py_int (jopt JInt (ck_fencing_token r))) (\<lambda>i. Inr (Some i))) = Inr (ck_fencing_token r)"
    by (cases "ck_fencing_token r") (simp_all add: jopt_def py_int_def)
  moreover have "(if py_truthy (JInt (ck_retry_count r)) then py_int (JInt (ck_retry_count r)) else Inr 0) = Inr (ck_retry_count r)"
    by (simp add: py_int_def)
  moreover have "(case jopt JStr (ck_error r) of JNull \<Rightarrow> Inr None | JStr s \<Rightarrow> Inr (Some s) | _ \<Rightarrow> Inl (TypeError ''error'')) =
      Inr (ck_error r)"
    by (cases "ck_error r") (simp_all add: jopt_def)
  moreover have "opt_str_field ''worker_id'' (checkpoint_to_dict r) = ck_worker_id r"
    by (cases "ck_worker_id r") (simp_all add: opt_str_field_def checkpoint_fields jopt_def)
  moreover have "tuple_field ''input_artifact_ids'' (checkpoint_to_dict r) = Inr (ck_input_artifact_ids r)"
      "tuple_field ''output_artifact_ids'' (checkpoint_to_dict r) = Inr (ck_output_artifact_ids r)"
      "tuple_field ''output_hashes'' (checkpoint_to_dict r) = Inr (ck_output_hashes r)"
      "tuple_field ''input_hashes'' (checkpoint_to_dict r) = Inr (ck_input_hashes r)"
    by (rule tuple_field_jstrs, rule checkpoint_fields)+
  ultimately show ?thesis using assms
    unfolding checkpoint_from_dict_def str_field_field checkpoint_fields stored_checkpoint_def
    by (simp add: identity_mapping_stored parse_stored_time_field)
qed

lemma build_checkpoint_stored:
  assumes "build_checkpoint H now a = Inr r" and "ca_stage_version a \<noteq> []"
    and "stored_time (ca_started_at a)" "stored_time (ca_finished_at a)" "datetime_ok (Aware now 0)"
  shows "stored_checkpoint r"
proof -
  have "ca_status a \<noteq> []" "ck_status r = ca_status a" "ck_schema_version r \<noteq> []" "ck_stage_version r = ca_stage_version a"
    "ck_model_identity r = sorted_identity (ca_model_identity a)" "ck_prompt_identity r = sorted_identity (ca_prompt_identity a)"
    "ck_started_at r = ca_started_at a"
    "ck_finished_at r = (case ca_finished_at a of None \<Rightarrow> Some (Aware now 0) | Some t \<Rightarrow> Some t)"
    using assms(1) by (auto simp: build_checkpoint_def checkpoint_statuses_def checkpoint_schema_version_def split: if_splits)
  then show ?thesis
    using assms(2-) sorted_identity_stored
    by (simp add: stored_checkpoint_def) (auto simp: stored_time_def split: option.splits)
qed

text \<open>
  Checkpoints survive the database: what the builder constructs is read back unchanged from its
  JSON dictionary, times, identities, lease ownership and checksum included.
\<close>

theorem checkpoint_roundtrip:
  assumes "build_checkpoint H now a = Inr r" and "ca_stage_version a \<noteq> []"
    and "stored_time (ca_started_at a)" "stored_time (ca_finished_at a)" "datetime_ok (Aware now 0)"
  shows "checkpoint_from_dict (checkpoint_to_dict r) = Inr r"
  by (rule checkpoint_from_to [OF build_checkpoint_stored [OF assms]])

definition sample_args :: checkpoint_args where
  "sample_args =
     \<lparr>ca_stage = ''asr'', ca_stage_version = ''2.0'', ca_input_artifact_ids = [''m1''], ca_input_hashes = [''h1''],
      ca_outputs = [], ca_public_materialization_hash = ''p'', ca_model_identity = Some [(''model'', ''w''), (''asr'', ''v'')],
      ca_prompt_identity = None, ca_worker_id = Some ''w1'', ca_fencing_token = Some 3,
      ca_started_at = Some (Aware 1000001 (3600 * 1000000)), ca_finished_at = None, ca_status = ''SUCCEEDED'', ca_retry_count = 0,
      ca_error = None\<rparr>"

definition sample_checkpoint :: checkpoint_record where
  "sample_checkpoint = projr (build_checkpoint (\<lambda>s. s) 5000000 sample_args)"

lemma sample_built: "build_checkpoint (\<lambda>s. s) 5000000 sample_args = Inr sample_checkpoint"
  by (simp add: sample_checkpoint_def build_checkpoint_def sample_args_def checkpoint_statuses_def Let_def)

theorem checkpoint_roundtrip_witness:
  "checkpoint_from_dict (checkpoint_to_dict sample_checkpoint) = Inr sample_checkpoint"
proof (rule checkpoint_roundtrip [OF sample_built])
  show "datetime_ok (Aware 5000000 0)" "stored_time (ca_started_at sample_args)" by code_simp+
qed (simp_all add: sample_args_def stored_time_def)

section \<open>Tampering\<close>

lemma checksum_payload_wf: "wf_json (JObj (checksum_payload r))"
  by (auto simp: checksum_payload_def jstrs_def jident_or_empty_def jidentity_def list_all_iff split: option.splits)

lemma checksum_payload_distinct: "distinct (map fst (checksum_payload r))"
  by (simp add: checksum_payload_def)

lemma checksum_equal:
  assumes "checkpoint_state_checksum H r = checkpoint_state_checksum H r'" and "inj H"
  shows "map_option canon (dict_get k (checksum_payload r)) = map_option canon (dict_get k (checksum_payload r'))"
proof (rule canon_JObj_field)
  have "canonical_json (JObj (checksum_payload r)) = canonical_json (JObj (checksum_payload r'))"
    using assms by (simp add: checkpoint_state_checksum_def inj_eq)
  then show "canon (JObj (checksum_payload r)) = canon (JObj (checksum_payload r'))"
    by (simp only: canonical_json_eq_iff checksum_payload_wf)
qed (rule checksum_payload_distinct)+

lemma canon_jstrs: "canon (jstrs ss) = jstrs ss"
  by (simp add: jstrs_def)

lemma jstrs_inj: "jstrs ss = jstrs ts \<longleftrightarrow> ss = ts"
  by (auto simp: jstrs_def dest: map_injective [OF _ injI])

definition same_identity :: "identity option \<Rightarrow> identity option \<Rightarrow> bool" where
  "same_identity i j \<longleftrightarrow> canon (jident_or_empty i) = canon (jident_or_empty j)"

text \<open>
  The state checksum makes a checkpoint tamper evident: a stored record that carries the checksum of
  a built checkpoint and passes the checks of a resume agrees with it on the stage, its version, the
  artifacts with their hashes, the materialisation, both identities and the status, if the hash has no
  collisions.
\<close>

theorem checkpoint_tamper_evident:
  assumes "build_checkpoint H now a = Inr r" and "ck_state_checksum s = ck_state_checksum r"
    and "check_record H arts versions s = Inr ()" and "inj H" and "ck_state_checksum r \<noteq> []"
  shows "ck_stage s = ck_stage r \<and> ck_stage_version s = ck_stage_version r \<and>
    ck_input_artifact_ids s = ck_input_artifact_ids r \<and> ck_input_hashes s = ck_input_hashes r \<and>
    ck_output_artifact_ids s = ck_output_artifact_ids r \<and> ck_output_hashes s = ck_output_hashes r \<and>
    ck_public_materialization_hash s = ck_public_materialization_hash r \<and> ck_status s = ck_status r \<and>
    same_identity (ck_model_identity s) (ck_model_identity r) \<and> same_identity (ck_prompt_identity s) (ck_prompt_identity r)"
proof -
  have "verified H arts versions s" using check_record_iff [of H arts versions s] assms(3) by auto
  then have "ck_state_checksum s = checkpoint_state_checksum H s" using assms(2,5) by (auto simp: verified_def)
  moreover have "ck_state_checksum r = checkpoint_state_checksum H r"
    using assms(1) by (auto simp: build_checkpoint_def checkpoint_state_checksum_def checksum_payload_def Let_def split: if_splits)
  ultimately have same: "map_option canon (dict_get k (checksum_payload s)) = map_option canon (dict_get k (checksum_payload r))" for k
    using checksum_equal [of H s r k] assms(2,4) by simp
  show ?thesis
    using same [of "''stage''"] same [of "''stage_version''"] same [of "''input_artifact_ids''"] same [of "''input_hashes''"]
      same [of "''output_artifact_ids''"] same [of "''output_hashes''"] same [of "''public_materialization_hash''"]
      same [of "''model_identity''"] same [of "''prompt_identity''"] same [of "''status''"]
    by (simp add: checksum_payload_def dict_get_def canon_jstrs jstrs_inj same_identity_def)
qed

definition sample_artifact :: "string \<Rightarrow> artifact" where
  "sample_artifact hash =
     \<lparr>af_class = MediaArtifact, af_artifact_id = ''m1'', af_artifact_type = ''media'', af_schema_version = ''artifact.v1'',
      af_created_at = Aware 0 0, af_producer_stage = ''media'', af_producer_version = ''1.0.0'', af_parent_ids = [],
      af_content_hash = hash, af_profile = Current, af_body = class_defaults MediaArtifact\<rparr>"

lemma canonical_json_nonempty: "canonical_json (JObj d) \<noteq> []"
  by (cases "sort_key fst (canon_fields d)") (simp_all add: canonical_json_def canon_JObj del: canon.simps)

theorem checkpoint_tamper_evident_witness:
  "check_record (\<lambda>s. s) (\<lambda>_. Some (sample_artifact ''h1'')) [] sample_checkpoint = Inr () \<and>
   same_identity (ck_model_identity sample_checkpoint) (ck_model_identity sample_checkpoint)"
proof -
  have ok: "check_record (\<lambda>s. s) (\<lambda>_. Some (sample_artifact ''h1'')) [] sample_checkpoint = Inr ()"
    by (simp add: check_record_def check_outputs_def check_inputs_def sample_checkpoint_def build_checkpoint_def sample_args_def
        checkpoint_statuses_def checkpoint_state_checksum_def checksum_payload_def sample_artifact_def Let_def)
  have "ck_state_checksum sample_checkpoint \<noteq> []"
    by (simp add: sample_checkpoint_def build_checkpoint_def sample_args_def checkpoint_statuses_def Let_def
        checkpoint_state_checksum_def canonical_json_nonempty)
  from checkpoint_tamper_evident [OF sample_built refl ok _ this] ok show ?thesis by simp
qed

end
