(* ===== verification/Snapshot.thy ===== *)
theory Snapshot
  imports Checkpoint Claims
begin

text \<open>
  Content snapshots (\<open>domain/lineage.py\<close>, \<open>application/snapshot_service.py\<close>): the release and configuration
  provenance that a snapshot carries twice, its content-addressed id, the constructor, and the service with
  its in-memory store. The names of the models come from a JSON mapping and are kept as its values.
\<close>

section \<open>Provenance\<close>

text \<open>The environment variables \<open>CONTENT_GIT_COMMIT\<close>, \<open>CONTENT_ENV\<close> and \<open>ENVIRONMENT\<close>.\<close>

record deployment =
  dp_commit :: "string option"
  dp_content_env :: "string option"
  dp_environment :: "string option"

definition default_code_sha :: "deployment \<Rightarrow> string result" where
  "default_code_sha dp =
     (let code = (case dp_commit dp of None \<Rightarrow> ''unknown'' | Some v \<Rightarrow> v);
          environment = lower (str_or (dp_content_env dp) (str_or (dp_environment dp) ''development''))
      in if environment \<in> {''production'', ''prod''} \<and> code \<in> {[], ''unknown'', ''none'', ''null''}
         then Inl (ValueError ''CONTENT_GIT_COMMIT must be set in production'')
         else Inr code)"

text \<open>A dictionary of strings as JSON.\<close>

definition jstr_dict :: "(string \<times> string) list \<Rightarrow> json" where
  "jstr_dict d = JObj (map (\<lambda>(k, v). (k, JStr v)) d)"

definition compute_artifact_root_hash :: "(string \<Rightarrow> string) \<Rightarrow> (string \<times> string) list \<Rightarrow> string" where
  "compute_artifact_root_hash H ids = H (canonical_json (jstr_dict (sort ids)))"

definition compute_config_hash :: "(string \<Rightarrow> string) \<Rightarrow> pydict \<Rightarrow> string" where
  "compute_config_hash H config = (if config = [] then [] else H (canonical_json (JObj config)))"

definition is_present :: "json \<Rightarrow> bool" where
  "is_present v \<longleftrightarrow> v \<noteq> JNull \<and> v \<noteq> JStr []"

text \<open>\<open>None\<close> or an object; anything else is refused.\<close>

definition object_or_empty :: "exn \<Rightarrow> json \<Rightarrow> pydict result" where
  "object_or_empty e v = (case v of JNull \<Rightarrow> Inr [] | JObj d \<Rightarrow> Inr d | _ \<Rightarrow> Inl e)"

definition normalize_producer_manifest ::
  "(string \<Rightarrow> string) \<Rightarrow> deployment \<Rightarrow> json \<Rightarrow> string option \<Rightarrow> string option \<Rightarrow> pydict
    \<Rightarrow> (string \<times> string \<times> pydict) result" where
  "normalize_producer_manifest H dp producer_manifest code_sha config_hash configuration =
     try_bind (object_or_empty (ValueError ''producer_manifest must be an object'') producer_manifest) (\<lambda>manifest.
     try_bind
       (if truthy code_sha then Inr (str_or code_sha [])
        else if is_present (field ''code_sha'' manifest) then Inr (py_str (field ''code_sha'' manifest))
        else default_code_sha dp) (\<lambda>code.
     try_bind (object_or_empty (ValueError ''producer_manifest.configs must be an object'') (field ''configs'' manifest))
       (\<lambda>configs.
        let config =
          (if truthy config_hash then str_or config_hash []
           else if is_present (field ''config_hash'' configs) then py_str (field ''config_hash'' configs)
           else compute_config_hash H configuration)
        in Inr (code, config,
             AList.update ''configs'' (JObj (AList.update ''config_hash'' (JStr config) configs))
               (AList.update ''code_sha'' (JStr code) manifest)))))"

section \<open>The snapshot and its identity\<close>

record snapshot =
  cs_id :: string
  cs_source_type :: string
  cs_source_ref :: string
  cs_source_content_hash :: string
  cs_source_artifact_id :: string
  cs_artifact_root_hash :: string
  cs_parser_version :: json
  cs_asr_model :: json
  cs_asr_model_version :: json
  cs_vision_model :: json
  cs_llm_model :: json
  cs_prompt_bundle_version :: string
  cs_entity_alias_version :: string
  cs_verification_policy_version :: string
  cs_quant_market_snapshot_ids :: "string list"
  cs_code_sha :: string
  cs_config_hash :: string
  cs_pipeline_version :: string
  cs_schema_version :: string
  cs_artifact_ids :: "(string \<times> string) list"
  cs_snapshot_kind :: string
  cs_parent_snapshot_id :: "string option"
  cs_supersedes_snapshot_id :: "string option"
  cs_producer_manifest :: pydict
  cs_model_versions :: pydict
  cs_prompt_versions :: pydict
  cs_configuration :: pydict
  cs_external_snapshots :: "string list"
  cs_policy_versions :: pydict
  cs_created_at :: pydt

definition v2_schema :: string where
  "v2_schema = ''content.snapshot.v2''"

text \<open>\<open>sorted(set(ids))\<close>.\<close>

definition sorted_set :: "string list \<Rightarrow> string list" where
  "sorted_set ids = sort (remdups ids)"

text \<open>\<open>to_dict\<close> without the creation time, before redaction.\<close>

definition snapshot_fields :: "snapshot \<Rightarrow> pydict" where
  "snapshot_fields s =
     [(''content_snapshot_id'', JStr (cs_id s)), (''source_type'', JStr (cs_source_type s)),
      (''source_ref'', JStr (cs_source_ref s)), (''source_content_hash'', JStr (cs_source_content_hash s)),
      (''source_artifact_id'', JStr (cs_source_artifact_id s)), (''artifact_root_hash'', JStr (cs_artifact_root_hash s)),
      (''parser_version'', cs_parser_version s), (''asr_model'', cs_asr_model s),
      (''asr_model_version'', cs_asr_model_version s), (''vision_model'', cs_vision_model s),
      (''llm_model'', cs_llm_model s), (''prompt_bundle_version'', JStr (cs_prompt_bundle_version s)),
      (''entity_alias_version'', JStr (cs_entity_alias_version s)),
      (''verification_policy_version'', JStr (cs_verification_policy_version s)),
      (''quant_market_snapshot_ids'', jstrs (cs_quant_market_snapshot_ids s)), (''code_sha'', JStr (cs_code_sha s)),
      (''config_hash'', JStr (cs_config_hash s)), (''pipeline_version'', JStr (cs_pipeline_version s)),
      (''schema_version'', JStr (cs_schema_version s)), (''artifact_ids'', jstr_dict (cs_artifact_ids s)),
      (''snapshot_kind'', JStr (cs_snapshot_kind s)), (''parent_snapshot_id'', jstr_opt (cs_parent_snapshot_id s)),
      (''supersedes_snapshot_id'', jstr_opt (cs_supersedes_snapshot_id s)),
      (''producer_manifest'', JObj (cs_producer_manifest s)), (''model_versions'', JObj (cs_model_versions s)),
      (''prompt_versions'', JObj (cs_prompt_versions s)), (''configuration'', JObj (cs_configuration s)),
      (''external_snapshots'', jstrs (cs_external_snapshots s)), (''policy_versions'', JObj (cs_policy_versions s))]"

text \<open>\<open>to_dict\<close> as the store keeps it: everything is redacted but the creation time, a datetime that redaction
  passes on and that is written as ISO text.\<close>

definition snapshot_payload :: "snapshot \<Rightarrow> pydict result" where
  "snapshot_payload s =
     try_bind (redact_fields (snapshot_fields s)) (\<lambda>fields.
       Inr (fields @ [(''created_at'', JStr (isoformat (cs_created_at s)))]))"

definition snapshot_identity_payload :: "snapshot \<Rightarrow> pydict" where
  "snapshot_identity_payload s =
     [(''source_content_hash'', JStr (cs_source_content_hash s)), (''source_artifact_id'', JStr (cs_source_artifact_id s)),
      (''artifact_root_hash'', JStr (cs_artifact_root_hash s)), (''pipeline_version'', JStr (cs_pipeline_version s)),
      (''parser_version'', cs_parser_version s), (''asr_model'', cs_asr_model s),
      (''asr_model_version'', cs_asr_model_version s), (''vision_model'', cs_vision_model s),
      (''llm_model'', cs_llm_model s), (''prompt_bundle_version'', JStr (cs_prompt_bundle_version s)),
      (''entity_alias_version'', JStr (cs_entity_alias_version s)),
      (''verification_policy_version'', JStr (cs_verification_policy_version s)),
      (''quant_market_snapshot_ids'', jstrs (sorted_set (cs_quant_market_snapshot_ids s))),
      (''code_sha'', JStr (cs_code_sha s)), (''config_hash'', JStr (cs_config_hash s)),
      (''producer_manifest'', JObj (cs_producer_manifest s)), (''policy_versions'', JObj (cs_policy_versions s)),
      (''model_versions'', JObj (cs_model_versions s)), (''prompt_versions'', JObj (cs_prompt_versions s)),
      (''configuration'', JObj (cs_configuration s)),
      (''external_snapshots'', jstrs (sorted_set (cs_external_snapshots s))),
      (''snapshot_kind'', JStr (cs_snapshot_kind s)), (''parent_snapshot_id'', jstr_opt (cs_parent_snapshot_id s)),
      (''supersedes_snapshot_id'', jstr_opt (cs_supersedes_snapshot_id s))]"

definition compute_content_snapshot_id :: "(string \<Rightarrow> string) \<Rightarrow> pydict \<Rightarrow> string" where
  "compute_content_snapshot_id H identity = H (canonical_json (JObj identity))"

text \<open>The keyword arguments of \<open>build_content_snapshot\<close>.\<close>

record snapshot_args =
  sa_source_type :: string
  sa_source_ref :: string
  sa_source_content_hash :: string
  sa_source_artifact_id :: string
  sa_artifact_root_hash :: "string option"
  sa_artifact_ids :: "(string \<times> string) list"
  sa_parser_version :: json
  sa_asr_model :: json
  sa_asr_model_version :: json
  sa_vision_model :: json
  sa_llm_model :: json
  sa_prompt_bundle_version :: string
  sa_entity_alias_version :: string
  sa_verification_policy_version :: string
  sa_quant_market_snapshot_ids :: "string list"
  sa_code_sha :: "string option"
  sa_config_hash :: string
  sa_pipeline_version :: string
  sa_kind :: string
  sa_snapshot_kind :: "string option"
  sa_parent_snapshot_id :: "string option"
  sa_supersedes_snapshot_id :: "string option"
  sa_producer_manifest :: json
  sa_policy_versions :: pydict
  sa_model_versions :: pydict
  sa_prompt_versions :: pydict
  sa_configuration :: pydict
  sa_external_snapshots :: "string list"
  sa_created_at :: pydt

definition str_get :: "string \<Rightarrow> (string \<times> string) list \<Rightarrow> string" where
  "str_get k d = (case map_of d k of None \<Rightarrow> [] | Some v \<Rightarrow> v)"

definition snapshot_draft :: "snapshot_args \<Rightarrow> string \<Rightarrow> string \<times> string \<times> pydict \<Rightarrow> snapshot" where
  "snapshot_draft a root provenance =
     (case provenance of (code, config, manifest) \<Rightarrow>
       \<lparr>cs_id = [], cs_source_type = sa_source_type a, cs_source_ref = sa_source_ref a,
        cs_source_content_hash = sa_source_content_hash a,
        cs_source_artifact_id = (if sa_source_artifact_id a \<noteq> [] then sa_source_artifact_id a
          else str_get ''source'' (sa_artifact_ids a)),
        cs_artifact_root_hash = root, cs_parser_version = sa_parser_version a, cs_asr_model = sa_asr_model a,
        cs_asr_model_version = sa_asr_model_version a, cs_vision_model = sa_vision_model a,
        cs_llm_model = sa_llm_model a, cs_prompt_bundle_version = sa_prompt_bundle_version a,
        cs_entity_alias_version = sa_entity_alias_version a,
        cs_verification_policy_version = sa_verification_policy_version a,
        cs_quant_market_snapshot_ids = sorted_set (sa_quant_market_snapshot_ids a),
        cs_code_sha = code, cs_config_hash = config, cs_pipeline_version = sa_pipeline_version a,
        cs_schema_version = v2_schema, cs_artifact_ids = sa_artifact_ids a,
        cs_snapshot_kind = str_or (sa_snapshot_kind a) (sa_kind a),
        cs_parent_snapshot_id = sa_parent_snapshot_id a, cs_supersedes_snapshot_id = sa_supersedes_snapshot_id a,
        cs_producer_manifest = manifest, cs_model_versions = sa_model_versions a,
        cs_prompt_versions = sa_prompt_versions a, cs_configuration = sa_configuration a,
        cs_external_snapshots = sorted_set (sa_external_snapshots a), cs_policy_versions = sa_policy_versions a,
        cs_created_at = sa_created_at a\<rparr>)"

definition build_content_snapshot :: "(string \<Rightarrow> string) \<Rightarrow> deployment \<Rightarrow> snapshot_args \<Rightarrow> snapshot result" where
  "build_content_snapshot H dp a =
     (let computed = compute_artifact_root_hash H (sa_artifact_ids a)
      in try_bind (ensure (\<not> (truthy (sa_artifact_root_hash a) \<and> sa_artifact_ids a \<noteq> [] \<and>
              sa_artifact_root_hash a \<noteq> Some computed))
           (ValueError ''artifact_root_hash does not match artifact_ids'')) (\<lambda>_.
         try_bind (normalize_producer_manifest H dp (sa_producer_manifest a) (sa_code_sha a)
             (Some (sa_config_hash a)) (sa_configuration a)) (\<lambda>provenance.
           let draft = snapshot_draft a (str_or (sa_artifact_root_hash a) computed) provenance
           in Inr (draft\<lparr>cs_id := ''cs-'' @ take 32 (compute_content_snapshot_id H (snapshot_identity_payload draft))\<rparr>))))"

section \<open>Provenance is written once\<close>

text \<open>Both places of the normalised provenance carry the same values, and normalising again changes nothing.\<close>

lemma field_update [simp]: "field k (AList.update k' v d) = (if k = k' then v else field k d)"
  by (simp add: field_def dict_get_def update_conv')

lemma normalize_aligned:
  assumes "normalize_producer_manifest H dp pm code conf configuration = Inr (code', conf', manifest)"
  shows "field ''code_sha'' manifest = JStr code' \<and>
    (\<exists>configs. field ''configs'' manifest = JObj configs \<and> field ''config_hash'' configs = JStr conf')"
  using assms by (auto simp: normalize_producer_manifest_def try_bind_Inr_iff Let_def)

lemma dict_update_same: "map_of d k = Some v \<Longrightarrow> AList.update k v d = d"
  by (induction d) auto

lemma normalize_idempotent:
  assumes "normalize_producer_manifest H dp pm code conf configuration = Inr (code', conf', manifest)"
    and "code' \<noteq> []" and "conf' \<noteq> []"
  shows "normalize_producer_manifest H dp' (JObj manifest) (Some code') (Some conf') configuration' = Inr (code', conf', manifest)"
proof -
  obtain configs0 manifest0 where m: "manifest = AList.update ''configs'' (JObj (AList.update ''config_hash'' (JStr conf') configs0))
      (AList.update ''code_sha'' (JStr code') manifest0)"
    using assms(1) by (auto simp: normalize_producer_manifest_def try_bind_Inr_iff Let_def)
  then have "map_of manifest ''code_sha'' = Some (JStr code')"
    "map_of manifest ''configs'' = Some (JObj (AList.update ''config_hash'' (JStr conf') configs0))"
    by (simp_all add: update_conv')
  with assms(2,3) m show ?thesis
    by (simp add: normalize_producer_manifest_def object_or_empty_def Let_def dict_update_same field_def dict_get_def update_conv')
qed

section \<open>What a snapshot id stands for\<close>

lemma keyed_lists_eq:
  assumes "map fst xs = map fst ys" and "distinct (map fst xs)" and "map_of xs = map_of ys"
  shows "xs = ys"
proof (rule nth_equalityI)
  show len: "length xs = length ys" using assms(1) by (metis length_map)
  fix i assume i: "i < length xs"
  then have key: "fst (xs ! i) = fst (ys ! i)" using assms(1) len by (metis nth_map)
  have "map_of xs (fst (xs ! i)) = Some (snd (xs ! i))" using assms(2) i by simp
  moreover have "map_of ys (fst (ys ! i)) = Some (snd (ys ! i))" using assms(1,2) i len by simp
  ultimately have "snd (xs ! i) = snd (ys ! i)" unfolding key assms(3) by simp
  with key show "xs ! i = ys ! i" by (rule prod_eqI)
qed

lemma canon_fields_determined:
  assumes "map fst d = map fst d'" and "distinct (map fst d)"
  shows "canon (JObj d) = canon (JObj d') \<longleftrightarrow> canon_fields d = canon_fields d'"
proof
  assume eq: "canon (JObj d) = canon (JObj d')"
  have "map_of (canon_fields d) k = map_of (canon_fields d') k" for k
    using canon_JObj_field [OF eq assms(2), of k] assms by (simp add: canon_fields_lookup dict_get_def)
  then have "map_of (canon_fields d) = map_of (canon_fields d')" by (rule ext)
  then show "canon_fields d = canon_fields d'"
    using assms by (intro keyed_lists_eq) (simp_all only: canon_fields_keys)
qed (simp only: canon_JObj)

lemma jstr_dict_lookup: "map_of (map (\<lambda>(k, v). (k, JStr v)) d) k = map_option JStr (map_of d k)"
  by (simp add: map_of_map)

lemma jstr_dict_wf: "wf_json (jstr_dict d)"
  by (auto simp: jstr_dict_def list_all_iff)

lemma jstr_dict_eq:
  assumes "canonical_json (jstr_dict d) = canonical_json (jstr_dict d')"
    and "distinct (map fst d)" and "distinct (map fst d')"
  shows "set d = set d'"
proof -
  have eq: "canon (jstr_dict d) = canon (jstr_dict d')" using assms(1) by (simp add: canonical_json_eq_iff jstr_dict_wf)
  have keys: "map fst (map (\<lambda>(k, v). (k, JStr v)) d) = map fst d" for d :: "(string \<times> string) list" by auto
  have entry: "map_option canon (dict_get k (map (\<lambda>(k, v). (k, JStr v)) d)) =
      map_option canon (dict_get k (map (\<lambda>(k, v). (k, JStr v)) d'))" for k
    using eq unfolding jstr_dict_def by (rule canon_JObj_field) (simp_all only: keys assms)
  have "map_of d k = map_of d' k" for k
    using entry [of k] by (cases "map_of d k"; cases "map_of d' k") (simp_all add: dict_get_def jstr_dict_lookup)
  then have "map_of d = map_of d'" by (rule ext)
  then show ?thesis by (simp only: map_of_inject_set [OF assms(2,3)])
qed

lemma root_hash_order: "mset ids = mset ids' \<Longrightarrow> compute_artifact_root_hash H ids = compute_artifact_root_hash H ids'"
  by (simp add: compute_artifact_root_hash_def properties_for_sort [of "sort ids'" ids])

lemma root_hash_eq:
  assumes "distinct (map fst ids)" and "distinct (map fst ids')"
    and "inj_on H {canonical_json (jstr_dict (sort ids)), canonical_json (jstr_dict (sort ids'))}"
  shows "compute_artifact_root_hash H ids = compute_artifact_root_hash H ids' \<longleftrightarrow> mset ids = mset ids'"
proof
  assume "compute_artifact_root_hash H ids = compute_artifact_root_hash H ids'"
  then have "canonical_json (jstr_dict (sort ids)) = canonical_json (jstr_dict (sort ids'))"
    unfolding compute_artifact_root_hash_def by (rule inj_onD [OF assms(3)]) simp_all
  moreover have "distinct (map fst (sort d))" if "distinct (map fst d)" for d :: "(string \<times> string) list"
    using that by (simp add: distinct_map inj_on_def)
  ultimately have "set (sort ids) = set (sort ids')" using assms(1,2) by (intro jstr_dict_eq)
  moreover have "distinct ids" "distinct ids'" using assms(1,2) by (simp_all add: distinct_map)
  ultimately show "mset ids = mset ids'" by (simp add: set_eq_iff_mset_eq_distinct)
qed (rule root_hash_order)

lemma build_identity:
  assumes "build_content_snapshot H dp a = Inr s"
  shows "cs_id s = ''cs-'' @ take 32 (H (canonical_json (JObj (snapshot_identity_payload s))))"
    and "cs_artifact_ids s \<noteq> [] \<Longrightarrow> cs_artifact_root_hash s = compute_artifact_root_hash H (cs_artifact_ids s)"
proof -
  obtain draft where draft: "s = draft\<lparr>cs_id := ''cs-'' @ take 32 (compute_content_snapshot_id H (snapshot_identity_payload draft))\<rparr>"
    using assms by (auto simp: build_content_snapshot_def try_bind_Inr_iff Let_def)
  then have "snapshot_identity_payload s = snapshot_identity_payload draft" by (simp add: snapshot_identity_payload_def)
  with draft show "cs_id s = ''cs-'' @ take 32 (H (canonical_json (JObj (snapshot_identity_payload s))))"
    by (simp add: compute_content_snapshot_id_def)
  assume "cs_artifact_ids s \<noteq> []"
  with assms show "cs_artifact_root_hash s = compute_artifact_root_hash H (cs_artifact_ids s)"
    by (cases "sa_artifact_root_hash a")
      (auto simp: build_content_snapshot_def try_bind_Inr_iff Let_def snapshot_draft_def)
qed

text \<open>Two snapshots describe the same content made in the same way.\<close>

definition same_provenance :: "snapshot \<Rightarrow> snapshot \<Rightarrow> bool" where
  "same_provenance s s' \<longleftrightarrow>
     cs_source_content_hash s = cs_source_content_hash s' \<and> cs_source_artifact_id s = cs_source_artifact_id s' \<and>
     mset (cs_artifact_ids s) = mset (cs_artifact_ids s') \<and> cs_pipeline_version s = cs_pipeline_version s' \<and>
     canon (cs_parser_version s) = canon (cs_parser_version s') \<and> canon (cs_asr_model s) = canon (cs_asr_model s') \<and>
     canon (cs_asr_model_version s) = canon (cs_asr_model_version s') \<and>
     canon (cs_vision_model s) = canon (cs_vision_model s') \<and> canon (cs_llm_model s) = canon (cs_llm_model s') \<and>
     cs_prompt_bundle_version s = cs_prompt_bundle_version s' \<and> cs_entity_alias_version s = cs_entity_alias_version s' \<and>
     cs_verification_policy_version s = cs_verification_policy_version s' \<and>
     set (cs_quant_market_snapshot_ids s) = set (cs_quant_market_snapshot_ids s') \<and> cs_code_sha s = cs_code_sha s' \<and>
     cs_config_hash s = cs_config_hash s' \<and> same_dict (cs_producer_manifest s) (cs_producer_manifest s') \<and>
     same_dict (cs_policy_versions s) (cs_policy_versions s') \<and> same_dict (cs_model_versions s) (cs_model_versions s') \<and>
     same_dict (cs_prompt_versions s) (cs_prompt_versions s') \<and> same_dict (cs_configuration s) (cs_configuration s') \<and>
     set (cs_external_snapshots s) = set (cs_external_snapshots s') \<and> cs_snapshot_kind s = cs_snapshot_kind s' \<and>
     cs_parent_snapshot_id s = cs_parent_snapshot_id s' \<and> cs_supersedes_snapshot_id s = cs_supersedes_snapshot_id s'"

lemma sorted_set_eq: "sorted_set xs = sorted_set ys \<longleftrightarrow> set xs = set ys"
proof
  assume "sorted_set xs = sorted_set ys"
  then have "set (sorted_set xs) = set (sorted_set ys)" by simp
  then show "set xs = set ys" by (simp add: sorted_set_def)
next
  assume "set xs = set ys"
  then show "sorted_set xs = sorted_set ys"
    by (intro sorted_distinct_set_unique) (simp_all add: sorted_set_def)
qed

lemma identity_payload_eq:
  assumes "cs_artifact_root_hash s = cs_artifact_root_hash s' \<longleftrightarrow> mset (cs_artifact_ids s) = mset (cs_artifact_ids s')"
  shows "canon (JObj (snapshot_identity_payload s)) = canon (JObj (snapshot_identity_payload s')) \<longleftrightarrow> same_provenance s s'"
proof -
  have "canon (JObj (snapshot_identity_payload s)) = canon (JObj (snapshot_identity_payload s')) \<longleftrightarrow>
      canon_fields (snapshot_identity_payload s) = canon_fields (snapshot_identity_payload s')"
    by (rule canon_fields_determined) (simp_all add: snapshot_identity_payload_def)
  also have "\<dots> \<longleftrightarrow> same_provenance s s'"
    unfolding same_provenance_def assms [symmetric] same_dict_def
    by (simp add: canon_fields_def snapshot_identity_payload_def canon_jstrs jstrs_inj jstr_opt_inj canon_jstr_opt
        sorted_set_eq del: canon.simps(2))
  finally show ?thesis .
qed

text \<open>
  C34. The id of a snapshot identifies its content and the way it was made. If the digests of the two
  identities and of the two artifact lists do not collide, two snapshots that were built of at least one artifact
  each, with one artifact per slot and dictionaries without repeated keys, have the same id exactly
  when they agree on the source content, the artifacts of every slot, the versions of code, models, prompts
  and policies, the configuration, the external snapshots and the predecessors; the order in which slots
  and dictionaries were filled and the creation time have no influence.
\<close>

theorem snapshot_id_identifies:
  assumes "build_content_snapshot H dp a = Inr s" and "build_content_snapshot H dp' a' = Inr s'"
    and "cs_artifact_ids s \<noteq> []" and "cs_artifact_ids s' \<noteq> []"
    and "distinct (map fst (cs_artifact_ids s))" and "distinct (map fst (cs_artifact_ids s'))"
    and "wf_json (JObj (snapshot_identity_payload s))" and "wf_json (JObj (snapshot_identity_payload s'))"
    and "inj_on (\<lambda>x. take 32 (H x))
      {canonical_json (JObj (snapshot_identity_payload s)), canonical_json (JObj (snapshot_identity_payload s'))}"
    and "inj_on H {canonical_json (jstr_dict (sort (cs_artifact_ids s))), canonical_json (jstr_dict (sort (cs_artifact_ids s')))}"
  shows "cs_id s = cs_id s' \<longleftrightarrow> same_provenance s s'"
proof -
  have root: "cs_artifact_root_hash s = cs_artifact_root_hash s' \<longleftrightarrow> mset (cs_artifact_ids s) = mset (cs_artifact_ids s')"
    using build_identity(2) [OF assms(1,3)] build_identity(2) [OF assms(2,4)] root_hash_eq [OF assms(5,6,10)] by simp
  have "cs_id s = cs_id s' \<longleftrightarrow>
      canonical_json (JObj (snapshot_identity_payload s)) = canonical_json (JObj (snapshot_identity_payload s'))"
    unfolding build_identity(1) [OF assms(1)] build_identity(1) [OF assms(2)] same_append_eq
    by (rule inj_on_eq_iff [OF assms(9)]) simp_all
  also have "\<dots> \<longleftrightarrow> same_provenance s s'"
    unfolding canonical_json_eq_iff [OF assms(7,8)] by (rule identity_payload_eq [OF root])
  finally show ?thesis .
qed

text \<open>A snapshot of two artifacts, and the same one with its slots filled in the other order.\<close>

definition sample_request :: snapshot_args where
  "sample_request =
     \<lparr>sa_source_type = ''WEB'', sa_source_ref = ''ref-1'', sa_source_content_hash = ''h1'', sa_source_artifact_id = [],
      sa_artifact_root_hash = None, sa_artifact_ids = [(''source'', ''s1''), (''frame'', ''f1'')],
      sa_parser_version = JNull, sa_asr_model = JNull, sa_asr_model_version = JNull, sa_vision_model = JNull,
      sa_llm_model = JNull, sa_prompt_bundle_version = ''p1'', sa_entity_alias_version = ''e1'',
      sa_verification_policy_version = ''v1'', sa_quant_market_snapshot_ids = [], sa_code_sha = Some ''c1'',
      sa_config_hash = ''k1'', sa_pipeline_version = ''pipeline_v3'', sa_kind = ''INITIAL'', sa_snapshot_kind = None,
      sa_parent_snapshot_id = None, sa_supersedes_snapshot_id = None, sa_producer_manifest = JNull,
      sa_policy_versions = [], sa_model_versions = [], sa_prompt_versions = [], sa_configuration = [],
      sa_external_snapshots = [], sa_created_at = Aware 0 0\<rparr>"

definition no_deployment :: deployment where
  "no_deployment = \<lparr>dp_commit = None, dp_content_env = None, dp_environment = None\<rparr>"

definition sample_manifest :: pydict where
  "sample_manifest = [(''code_sha'', JStr ''c1''), (''configs'', JObj [(''config_hash'', JStr ''k1'')])]"

lemma sample_normalized:
  "normalize_producer_manifest H dp JNull (Some ''c1'') (Some ''k1'') [] = Inr (''c1'', ''k1'', sample_manifest)"
  by (simp add: normalize_producer_manifest_def object_or_empty_def field_def dict_get_def sample_manifest_def Let_def)

definition sample_snapshot :: "(string \<Rightarrow> string) \<Rightarrow> (string \<times> string) list \<Rightarrow> snapshot" where
  "sample_snapshot H ids =
     (let s = snapshot_draft (sample_request\<lparr>sa_artifact_ids := ids\<rparr>) (compute_artifact_root_hash H ids)
          (''c1'', ''k1'', sample_manifest)
      in s\<lparr>cs_id := ''cs-'' @ take 32 (H (canonical_json (JObj (snapshot_identity_payload s))))\<rparr>)"

lemma snapshot_sample_built:
  "build_content_snapshot H no_deployment (sample_request\<lparr>sa_artifact_ids := ids\<rparr>) = Inr (sample_snapshot H ids)"
  by (simp add: build_content_snapshot_def sample_request_def sample_normalized sample_snapshot_def
      compute_content_snapshot_id_def Let_def)

lemma sample_wf: "wf_json (JObj (snapshot_identity_payload (sample_snapshot H ids)))"
  by (simp add: snapshot_identity_payload_def sample_snapshot_def snapshot_draft_def sample_request_def sample_manifest_def
      jstr_opt_def jstrs_def list_all_iff Let_def)

theorem snapshot_id_identifies_witness:
  "cs_id (sample_snapshot (\<lambda>x. x) [(''source'', ''s1''), (''frame'', ''f1'')]) =
     cs_id (sample_snapshot (\<lambda>x. x) [(''frame'', ''f1''), (''source'', ''s1'')])"
proof -
  let ?s = "sample_snapshot (\<lambda>x. x) [(''source'', ''s1''), (''frame'', ''f1'')]"
  let ?t = "sample_snapshot (\<lambda>x. x) [(''frame'', ''f1''), (''source'', ''s1'')]"
  have fields: "cs_artifact_ids ?s = [(''source'', ''s1''), (''frame'', ''f1'')]"
    "cs_artifact_ids ?t = [(''frame'', ''f1''), (''source'', ''s1'')]"
    by (simp_all add: sample_snapshot_def snapshot_draft_def sample_request_def)
  have same: "same_provenance ?s ?t"
    by (simp add: same_provenance_def sample_snapshot_def snapshot_draft_def sample_request_def same_dict_def str_get_def)
  have root: "cs_artifact_root_hash (sample_snapshot (\<lambda>x. x) ids) = compute_artifact_root_hash (\<lambda>x. x) ids" for ids
    by (simp add: sample_snapshot_def snapshot_draft_def)
  have "cs_artifact_root_hash ?s = cs_artifact_root_hash ?t" unfolding root by (rule root_hash_order) simp
  then have "canon (JObj (snapshot_identity_payload ?s)) = canon (JObj (snapshot_identity_payload ?t))"
    using identity_payload_eq [of ?s ?t] same by (simp add: same_provenance_def)
  then have eq: "canonical_json (JObj (snapshot_identity_payload ?s)) = canonical_json (JObj (snapshot_identity_payload ?t))"
    by (simp add: canonical_json_def)
  show ?thesis
    using snapshot_id_identifies [OF snapshot_sample_built snapshot_sample_built, of "\<lambda>x. x" "[(''source'', ''s1''), (''frame'', ''f1'')]"
        "[(''frame'', ''f1''), (''source'', ''s1'')]"] sample_wf same
    by (simp only: fields eq) simp
qed

end
