(* ===== verification/Artifact_Codec.thy ===== *)
theory Artifact_Codec
  imports Artifacts
begin

text \<open>
  Writing and reading artifacts: an artifact that the constructors of \<open>domain/artifacts.py\<close> build is
  read back unchanged from the JSON that a row stores, so its identity hash survives the database.
  Objects inside the fields keep their keys sorted (\<open>canon v = v\<close>); Python compares dictionaries
  regardless of order.
\<close>

section \<open>Dictionaries\<close>

lemma dict_get_field: "dict_get k d = Some v \<Longrightarrow> field k d = v"
  by (simp add: field_def)

lemma map_fst_map_field [simp]: "map fst (map_field k f d) = map fst d"
  by (simp add: map_field_def comp_def case_prod_beta)

lemma dict_get_map_field:
  "dict_get j (map_field k f d) = map_option (if j = k then f else id) (dict_get j d)"
  unfolding dict_get_def map_field_def by (induction d) (auto simp: option.map_id0)

lemma field_map_field [simp]: "j \<noteq> k \<Longrightarrow> field j (map_field k f d) = field j d"
  by (simp add: field_def dict_get_map_field option.map_id0)

lemma field_map_field_same: "k \<in> fst ` set d \<Longrightarrow> field k (map_field k f d) = f (field k d)"
proof -
  assume "k \<in> fst ` set d"
  then obtain v where v: "dict_get k d = Some v" by (metis dict_get_def map_of_eq_None_iff not_Some_eq)
  then have "dict_get k (map_field k f d) = Some (f v)" by (simp add: dict_get_map_field)
  with v show ?thesis by (simp add: dict_get_field)
qed

lemma map_field_idem: "(\<And>v. f (f v) = f v) \<Longrightarrow> map_field k f (map_field k f d) = map_field k f d"
  by (auto simp: map_field_def)

lemma map_field_commute: "j \<noteq> k \<Longrightarrow> map_field j f (map_field k g d) = map_field k g (map_field j f d)"
  by (auto simp: map_field_def)

lemma set_map_field: "(j, w) \<in> set (map_field k f d) \<Longrightarrow> \<exists>v. (j, v) \<in> set d \<and> w = (if j = k then f v else v)"
  by (auto simp: map_field_def)

lemma map_of_sort_key: "distinct (map fst d) \<Longrightarrow> map_of (sort_key fst d) = map_of d"
  by (rule map_of_inject_set [THEN iffD2]) (simp_all add: distinct_map)

lemma alist_eq:
  assumes "map fst b = map fst d" and "distinct (map fst d)" and "\<And>k v. (k, v) \<in> set b \<Longrightarrow> map_of d k = Some v"
  shows "b = d"
proof (rule nth_equalityI)
  show len: "length b = length d" using assms(1) by (metis length_map)
  fix i assume i: "i < length b"
  have "fst (b ! i) = fst (d ! i)" using assms(1) i len by (metis nth_map)
  moreover have "map_of d (fst (b ! i)) = Some (snd (b ! i))" using assms(3) i by (metis nth_mem prod.collapse)
  moreover have "map_of d (fst (d ! i)) = Some (snd (d ! i))"
    using assms(2) i len by (metis nth_mem prod.collapse map_of_is_SomeI)
  ultimately show "b ! i = d ! i" by (simp add: prod_eq_iff)
qed

lemma update_same: "map_of d k = Some v \<Longrightarrow> AList.update k v d = d"
  by (induction d) (auto split: if_splits)

lemma with_defaults_eq:
  assumes "map fst b = map fst defaults" and "distinct (map fst defaults)"
    and "\<And>k v. (k, v) \<in> set b \<Longrightarrow> dict_get k kw = Some v"
  shows "with_defaults defaults kw = b"
proof -
  have keys: "map fst (with_defaults defaults kw) = map fst b"
    using assms(1) by (simp add: with_defaults_def comp_def case_prod_beta)
  have "b = with_defaults defaults kw"
  proof (rule alist_eq)
    show "map_of (with_defaults defaults kw) k = Some v" if "(k, v) \<in> set b" for k v
    proof (rule map_of_is_SomeI)
      have "k \<in> fst ` set defaults" using that assms(1) by (metis fst_conv image_eqI list.set_map)
      then obtain w where "(k, w) \<in> set defaults" by auto
      then show "(k, v) \<in> set (with_defaults defaults kw)"
        using assms(3) [OF that] by (force simp: with_defaults_def)
    qed (use keys assms in simp)
  qed (use keys assms in simp_all)
  then show ?thesis by simp
qed

lemma mapM_total: "(\<And>x. x \<in> set xs \<Longrightarrow> f x = Inr (g x)) \<Longrightarrow> mapM f xs = Inr (map g xs)"
  by (induction xs) simp_all

lemma mapM_fixed: "mapM f xs = Inr xs \<Longrightarrow> x \<in> set xs \<Longrightarrow> f x = Inr x"
  by (induction xs) (auto simp: try_bind_Inr_iff)

section \<open>Segments are stable\<close>

definition segment_names :: "string list" where
  "segment_names = map fst (sort_key fst segment_defaults)"

lemma segment_names_set: "set segment_names = fst ` set segment_defaults"
  by (simp add: segment_names_def)

lemma segment_defaults_distinct: "distinct (map fst segment_defaults)"
  by (simp add: segment_defaults_def)

lemma segment_names_sorted: "sorted segment_names" "distinct segment_names"
  using segment_defaults_distinct by (simp_all add: segment_names_def distinct_map)

definition segment_ok :: "pydict \<Rightarrow> bool" where
  "segment_ok d \<longleftrightarrow> map fst d = segment_names \<and> py_truthy (field ''segment_id'' d)"

lemma new_item_id:
  assumes "map fst d = map fst (sort_key fst defaults)" and "distinct (map fst defaults)"
    and "set required \<subseteq> fst ` set defaults"
  shows "new_item required defaults d = Inr d"
proof -
  have keys: "fst ` set d = fst ` set defaults" using assms(1) by (metis list.set_map set_sort)
  have dist: "distinct (map fst d)" using assms(1,2) by (simp add: distinct_map)
  have "sort_key fst (with_defaults defaults d) = d"
  proof (rule alist_eq)
    have k: "map fst (with_defaults defaults d) = map fst defaults"
      by (simp add: with_defaults_def comp_def case_prod_beta)
    show "map fst (sort_key fst (with_defaults defaults d)) = map fst d"
      unfolding assms(1) map_sort_key k ..
    show "map_of d k = Some v" if "(k, v) \<in> set (sort_key fst (with_defaults defaults d))" for k v
    proof -
      from that obtain w where w: "(k, w) \<in> set defaults" "v = (case dict_get k d of None \<Rightarrow> w | Some x \<Rightarrow> x)"
        by (auto simp: with_defaults_def)
      then have "k \<in> fst ` set d" using keys by force
      then obtain x where "map_of d k = Some x" by (meson map_of_eq_None_iff not_Some_eq)
      with w show ?thesis by (simp add: dict_get_def)
    qed
  qed (rule dist)
  moreover have "list_all (\<lambda>(k, _). k \<in> fst ` set defaults) d" using keys by (force simp: list_all_iff)
  moreover have "list_all (\<lambda>k. dict_get k d \<noteq> None) required"
    using assms(3) keys by (auto simp: list_all_iff dict_get_def map_of_eq_None_iff)
  ultimately show ?thesis by (simp add: new_item_def)
qed

lemma new_item_keys: "new_item required defaults d = Inr d' \<Longrightarrow> map fst d' = map fst (sort_key fst defaults)"
  by (auto simp: new_item_def map_sort_key with_defaults_def comp_def case_prod_beta split: if_splits)

lemma segment_init_ok:
  assumes "segment_init H ms d = Inr d'" and "map fst d = segment_names"
  shows "segment_ok d'"
proof -
  have "''segment_id'' \<in> fst ` set segment_defaults" by (simp add: segment_defaults_def)
  then have "''segment_id'' \<in> set (map fst d)" by (simp only: assms(2) segment_names_set)
  then have id: "field ''segment_id'' (map_field ''segment_id'' (\<lambda>_. JStr i) d) = JStr i" for i
    by (simp add: field_map_field_same)
  consider "py_truthy (field ''segment_id'' d)" "d' = d"
    | i where "d' = map_field ''segment_id'' (\<lambda>_. JStr i) d" "i \<noteq> []"
    using assms(1)
    by (auto simp: segment_init_def try_bind_Inr_iff transcript_segment_id_def legacy_transcript_segment_id_def
        split: if_splits)
  then show ?thesis using assms(2) id by cases (simp_all add: segment_ok_def)
qed

lemma new_segment_iff: "new_segment H ms d = Inr d \<longleftrightarrow> segment_ok d"
proof
  assume "new_segment H ms d = Inr d"
  then obtain e where "new_item [] segment_defaults d = Inr e" "segment_init H ms e = Inr d"
    by (auto simp: new_segment_def try_bind_Inr_iff)
  then show "segment_ok d" using new_item_keys segment_init_ok by (metis segment_names_def)
next
  assume ok: "segment_ok d"
  then have "new_item [] segment_defaults d = Inr d"
    by (intro new_item_id) (simp_all add: segment_ok_def segment_names_def segment_defaults_distinct)
  with ok show "new_segment H ms d = Inr d"
    by (simp add: new_segment_def segment_init_def segment_ok_def)
qed

lemma canon_object:
  "canon (JObj d) = JObj d \<longleftrightarrow> sorted (map fst d) \<and> (\<forall>(k, v) \<in> set d. canon v = v)"
proof
  assume "canon (JObj d) = JObj d"
  then have d: "sort_key fst (canon_fields d) = d" by (simp only: canon_JObj json.inject)
  then have "sorted (map fst d)" by (metis sorted_sort_key)
  moreover from this have "canon_fields d = d"
    using d by (metis canon_fields_keys sort_key_id_if_sorted)
  then have "\<forall>(k, v) \<in> set d. canon v = v"
    unfolding canon_fields_def by (auto simp: map_idI dest: map_eq_conv [THEN iffD1, OF trans, OF _ list.map_ident [symmetric]])
  ultimately show "sorted (map fst d) \<and> (\<forall>(k, v) \<in> set d. canon v = v)" by simp
next
  assume d: "sorted (map fst d) \<and> (\<forall>(k, v) \<in> set d. canon v = v)"
  then have "canon_fields d = d" unfolding canon_fields_def by (intro map_idI) auto
  then show "canon (JObj d) = JObj d" using d by (simp only: canon_JObj sort_key_id_if_sorted)
qed

lemma canon_array: "canon (JArr vs) = JArr vs \<longleftrightarrow> (\<forall>v \<in> set vs. canon v = v)"
  by (simp add: map_eq_conv [of canon vs id, simplified])

lemma field_in: "k \<in> fst ` set d \<Longrightarrow> (k, field k d) \<in> set d"
  by (metis dict_get_def dict_get_field map_of_SomeD map_of_eq_None_iff not_Some_eq)

section \<open>Normalising the segments of a transcript\<close>

lemma segment_keys: "segment_ok d \<Longrightarrow> k \<in> fst ` set segment_defaults \<Longrightarrow> k \<in> fst ` set d"
  using segment_names_set by (metis list.set_map segment_ok_def)

lemma manifest_names:
  "''media_artifact_id'' \<in> fst ` set segment_defaults" "''asr_model'' \<in> fst ` set segment_defaults"
  "''asr_model_version'' \<in> fst ` set segment_defaults" "''segment_id'' \<in> fst ` set segment_defaults"
  by (simp_all add: segment_defaults_def)

lemma segment_init_fields:
  "segment_init H ms d = Inr d' \<Longrightarrow> k \<noteq> ''segment_id'' \<Longrightarrow> field k d' = field k d"
  by (auto simp: segment_init_def try_bind_Inr_iff split: if_splits)

lemma segment_init_keys: "segment_init H ms d = Inr d' \<Longrightarrow> map fst d' = map fst d"
  by (auto simp: segment_init_def try_bind_Inr_iff split: if_splits)

lemma normalize_segment_manifest:
  assumes "normalize_segment H ms media model version item = Inr item'" and "segment_ok item"
  shows "segment_ok item'" "field ''media_artifact_id'' item' = media" "field ''asr_model'' item' = model"
    "field ''asr_model_version'' item' = version"
proof -
  note keys = segment_keys [OF assms(2)]
  have "segment_ok item' \<and> field ''media_artifact_id'' item' = media \<and> field ''asr_model'' item' = model \<and>
      field ''asr_model_version'' item' = version"
  proof (cases "manifest_mismatch media model version item")
    case True
    then have init: "segment_init H ms
        (map_field ''segment_id'' (\<lambda>_. JStr []) (map_field ''media_artifact_id'' (\<lambda>_. media)
          (map_field ''asr_model'' (\<lambda>_. model) (map_field ''asr_model_version'' (\<lambda>_. version) item)))) = Inr item'"
      using assms(1) by (simp add: normalize_segment_def)
    have "segment_ok item'" using segment_init_ok [OF init] assms(2) by (simp add: segment_ok_def)
    moreover have "k \<in> fst ` set (map_field j f d) \<longleftrightarrow> k \<in> fst ` set d" for k j f and d :: pydict
      by (metis list.set_map map_fst_map_field)
    ultimately show ?thesis
      using keys manifest_names by (simp add: segment_init_fields [OF init] field_map_field_same)
  next
    case False
    then show ?thesis using assms by (simp add: normalize_segment_def manifest_mismatch_def)
  qed
  then show "segment_ok item'" "field ''media_artifact_id'' item' = media" "field ''asr_model'' item' = model"
    "field ''asr_model_version'' item' = version" by simp_all
qed

lemma map_field_const:
  assumes "distinct (map fst d)" and "k \<in> fst ` set d" and "field k d = v"
  shows "map_field k (\<lambda>_. v) d = d"
proof (rule alist_eq)
  show "map_of d j = Some w" if m: "(j, w) \<in> set (map_field k (\<lambda>_. v) d)" for j w
  proof -
    obtain u where u: "(j, u) \<in> set d" "w = (if j = k then v else u)" using set_map_field [OF m] by blast
    have k: "map_of d k = Some v" using field_in [OF assms(2)] assms(1,3) by (simp add: map_of_is_SomeI)
    show ?thesis
    proof (cases "j = k")
      case False
      with u assms(1) show ?thesis by (simp add: map_of_is_SomeI)
    qed (use k u in simp)
  qed
qed (use assms(1) in simp_all)

definition legacy_id :: "(string \<Rightarrow> string) \<Rightarrow> pydict \<Rightarrow> string" where
  "legacy_id H d = legacy_transcript_segment_id H (field ''segment_index'' d) (field ''start_seconds'' d)
     (field ''end_seconds'' d) (segment_raw_text d)"

lemma segment_init_legacy:
  assumes "\<not> py_truthy (field ''segment_id'' d)" and "\<not> py_truthy (field ''media_artifact_id'' d)"
  shows "segment_init H ms d = Inr (map_field ''segment_id'' (\<lambda>_. JStr (legacy_id H d)) d)"
  using assms by (simp add: segment_init_def legacy_id_def)

lemma legacy_id_cong: "(\<And>k. k \<noteq> ''segment_id'' \<Longrightarrow> field k d' = field k d) \<Longrightarrow> legacy_id H d' = legacy_id H d"
  by (simp add: legacy_id_def segment_raw_text_def)

lemma map_field_twice: "map_field k (\<lambda>_. v) (map_field k f d) = map_field k (\<lambda>_. v) d"
  by (auto simp: map_field_def)

lemma normalize_segment_idem:
  assumes "normalize_segment H ms media model version item = Inr item'" and "segment_ok item"
  shows "normalize_segment H ms media model version item' = Inr item'"
proof (cases "py_truthy media")
  case True
  then show ?thesis using normalize_segment_manifest [OF assms]
    by (simp add: normalize_segment_def manifest_mismatch_def)
next
  case False
  note man = normalize_segment_manifest [OF assms]
  define e where "e = map_field ''segment_id'' (\<lambda>_. JStr []) (map_field ''media_artifact_id'' (\<lambda>_. media)
          (map_field ''asr_model'' (\<lambda>_. model) (map_field ''asr_model_version'' (\<lambda>_. version) item)))"
  have ok: "distinct (map fst d) \<and> (\<forall>k \<in> fst ` set segment_defaults. k \<in> fst ` set d)" if "segment_ok d" for d
    using that segment_names_sorted segment_keys by (auto simp: segment_ok_def)
  have sid: "''segment_id'' \<in> fst ` set item" "''media_artifact_id'' \<in> fst ` set item"
    using segment_keys [OF assms(2)] manifest_names by blast+
  have "manifest_mismatch media model version item"
    using False by (auto simp: manifest_mismatch_def)
  then have init: "segment_init H ms e = Inr item'" using assms(1) by (simp add: normalize_segment_def e_def)
  have same_keys: "k \<in> fst ` set (map_field j f d) \<longleftrightarrow> k \<in> fst ` set d" for k j f and d :: pydict
    by (metis list.set_map map_fst_map_field)
  have falsy: "\<not> py_truthy (field ''segment_id'' e)" "\<not> py_truthy (field ''media_artifact_id'' e)"
    using False sid by (simp_all add: e_def field_map_field_same same_keys)
  have item': "item' = map_field ''segment_id'' (\<lambda>_. JStr (legacy_id H e)) e"
    using init segment_init_legacy [OF falsy] by simp
  have "''segment_id'' \<in> fst ` set e" using sid by (simp add: e_def same_keys)
  then have id: "field ''segment_id'' item' = JStr (legacy_id H e)" by (simp add: item' field_map_field_same)
  have fields: "k \<noteq> ''segment_id'' \<Longrightarrow> field k e = field k item'" for k by (simp add: item')
  let ?f = "map_field ''segment_id'' (\<lambda>_. JStr []) item'"
  have keys': "distinct (map fst item')" "''segment_id'' \<in> fst ` set item'" "''media_artifact_id'' \<in> fst ` set item'"
      "''asr_model'' \<in> fst ` set item'" "''asr_model_version'' \<in> fst ` set item'"
    using ok [OF man(1)] manifest_names by blast+
  have "map_field ''segment_id'' (\<lambda>_. JStr []) (map_field ''media_artifact_id'' (\<lambda>_. media)
          (map_field ''asr_model'' (\<lambda>_. model) (map_field ''asr_model_version'' (\<lambda>_. version) item'))) = ?f"
    using man keys' by (simp add: map_field_const)
  moreover have "segment_init H ms ?f = Inr (map_field ''segment_id'' (\<lambda>_. JStr (legacy_id H ?f)) ?f)"
    using False man keys' by (intro segment_init_legacy) (simp_all add: field_map_field_same)
  moreover have "legacy_id H ?f = legacy_id H e" by (rule legacy_id_cong) (simp add: fields)
  moreover have "map_field ''segment_id'' (\<lambda>_. JStr (legacy_id H e)) ?f = item'"
    using keys' id by (simp add: map_field_twice map_field_const)
  ultimately show ?thesis using False man by (simp add: normalize_segment_def manifest_mismatch_def)
qed

lemma segment_init_canon:
  assumes "segment_init H ms d = Inr d'" and "\<forall>(k, v) \<in> set d. canon v = v"
  shows "\<forall>(k, v) \<in> set d'. canon v = v"
  using assms by (auto simp: segment_init_def try_bind_Inr_iff split: if_splits dest!: set_map_field)

lemma normalize_segment_canon:
  assumes "normalize_segment H ms media model version item = Inr item'" and "segment_ok item"
    and "canon (JObj item) = JObj item" and "canon media = media" "canon model = model" "canon version = version"
  shows "canon (JObj item') = JObj item'"
proof -
  have "sorted (map fst item')"
    using normalize_segment_manifest(1) [OF assms(1,2)] segment_names_sorted by (simp add: segment_ok_def)
  moreover have vals: "\<forall>(k, v) \<in> set item. canon v = v" using assms(3) canon_object by blast
  have "\<forall>(k, v) \<in> set item'. canon v = v"
  proof (cases "manifest_mismatch media model version item")
    case True
    then show ?thesis using assms(1,4-6) vals
      by (auto simp: normalize_segment_def elim!: segment_init_canon [rule_format, THEN case_prodD]
          dest!: set_map_field split: if_splits)
  next
    case False
    then show ?thesis using assms(1) vals by (simp add: normalize_segment_def)
  qed
  ultimately show ?thesis by (simp only: canon_object)
qed

section \<open>Constructors are idempotent\<close>

definition emitted :: "artifact_class \<Rightarrow> string \<Rightarrow> json \<Rightarrow> json" where
  "emitted cls k v = (if cls = SemanticSegmentArtifact \<and> k = ''segments'' then drop_empty_namespace v else v)"

text \<open>The nested items of a field are constructed objects: reading what they emit gives them back.\<close>

definition field_ok :: "(string \<Rightarrow> string) \<Rightarrow> (json \<Rightarrow> int) \<Rightarrow> artifact_class \<Rightarrow> string \<Rightarrow> json \<Rightarrow> bool" where
  "field_ok H ms cls k v \<longleftrightarrow>
     canon (emitted cls k v) = emitted cls k v \<and> hydrate_field H ms cls k (emitted cls k v) = Inr v"

definition body_ok :: "(string \<Rightarrow> string) \<Rightarrow> (json \<Rightarrow> int) \<Rightarrow> artifact_class \<Rightarrow> pydict \<Rightarrow> bool" where
  "body_ok H ms cls b \<longleftrightarrow>
     map fst b = map fst (class_defaults cls) \<and> (\<forall>(k, v) \<in> set b. field_ok H ms cls k v) \<and>
     class_body H ms cls b = Inr b"

definition base_names :: "string list" where
  "base_names = [''artifact_id'', ''artifact_type'', ''schema_version'', ''created_at'', ''producer_stage'',
     ''producer_version'', ''parent_artifact_ids'', ''content_hash'']"

lemma class_names_distinct: "distinct (base_names @ map fst (class_defaults cls))"
  by (cases cls) (code_simp, simp?)+

lemma object_items_array: "object_items v = Inr items \<longleftrightarrow> v = JArr (map JObj items)"
proof -
  have "mapM (\<lambda>i. case i of JObj d \<Rightarrow> Inr d | _ \<Rightarrow> Inl (TypeError ''not a segment'')) vs = Inr items \<longleftrightarrow>
      vs = map JObj items" for vs
  proof (induction vs arbitrary: items)
    case (Cons v vs)
    then show ?case by (cases v; cases items) (auto simp: try_bind_Inr_iff)
  qed auto
  then show ?thesis by (cases v) (simp_all add: object_items_def)
qed

lemma hydrate_segments_iff:
  "hydrate_items (new_segment H ms) (JArr (map JObj items)) = Inr (JArr (map JObj items)) \<longleftrightarrow>
     (\<forall>d \<in> set items. segment_ok d)"
proof -
  have "mapM (\<lambda>i. case i of JObj d \<Rightarrow> try_bind (new_segment H ms d) (\<lambda>d'. Inr (JObj d')) | _ \<Rightarrow> Inr i) (map JObj items) =
      Inr (map JObj items) \<longleftrightarrow> (\<forall>d \<in> set items. new_segment H ms d = Inr d)"
    by (induction items) (auto simp: try_bind_Inr_iff)
  then show ?thesis by (auto simp: hydrate_items_def try_bind_Inr_iff new_segment_iff)
qed

lemma transcript_field_ok:
  "field_ok H ms TranscriptArtifact ''segments'' (JArr (map JObj items)) \<longleftrightarrow>
     (\<forall>d \<in> set items. segment_ok d \<and> canon (JObj d) = JObj d)"
  by (auto simp: field_ok_def emitted_def hydrate_field_def hydrate_segments_iff canon_array simp del: canon.simps)

lemma mapM_Inr_set: "mapM f xs = Inr ys \<Longrightarrow> y \<in> set ys \<Longrightarrow> \<exists>x \<in> set xs. f x = Inr y"
  by (induction xs arbitrary: ys) (auto simp: try_bind_Inr_iff)

lemma transcript_body_ok:
  assumes "map fst d = map fst (class_defaults TranscriptArtifact)"
    and "\<forall>(k, v) \<in> set d. field_ok H ms TranscriptArtifact k v"
    and "class_body H ms TranscriptArtifact d = Inr b"
  shows "body_ok H ms TranscriptArtifact b"
proof -
  obtain items items' where items: "field ''segments'' d = JArr (map JObj items)"
    and items': "transcript_segments H ms d items = Inr items'" and b: "b = map_field ''segments'' (\<lambda>_. JArr (map JObj items')) d"
    using assms(3) by (auto simp: class_body_def try_bind_Inr_iff object_items_array)
  have "fst ` set d = fst ` set (class_defaults TranscriptArtifact)" using assms(1) by (metis list.set_map)
  then have keys: "k \<in> {''segments'', ''media_artifact_id'', ''asr_model'', ''asr_model_version''} \<Longrightarrow> k \<in> fst ` set d" for k
    by (auto simp: jf_def)
  have ok: "k \<in> fst ` set d \<Longrightarrow> field_ok H ms TranscriptArtifact k (field k d)" for k
    using bspec [OF assms(2) field_in [of k d]] by simp
  have seg: "\<forall>i \<in> set items. segment_ok i \<and> canon (JObj i) = JObj i"
    using ok [of "''segments''"] keys items by (simp add: transcript_field_ok del: canon.simps)
  have man: "canon (field k d) = field k d" if "k \<in> {''media_artifact_id'', ''asr_model'', ''asr_model_version''}" for k
    using ok [of k] keys [of k] that by (auto simp: field_ok_def emitted_def)
  have ok': "segment_ok i \<and> canon (JObj i) = JObj i \<and>
      normalize_segment H ms (field ''media_artifact_id'' d) (field ''asr_model'' d) (field ''asr_model_version'' d) i = Inr i"
    if i: "i \<in> set items'" for i
  proof -
    obtain j where j: "j \<in> set items"
      "normalize_segment H ms (field ''media_artifact_id'' d) (field ''asr_model'' d) (field ''asr_model_version'' d) j = Inr i"
      using mapM_Inr_set [OF items' [unfolded transcript_segments_def] i] by blast
    with seg have s: "segment_ok j" "canon (JObj j) = JObj j" by (auto simp del: canon.simps)
    show ?thesis
      using normalize_segment_manifest(1) [OF j(2) s(1)] normalize_segment_idem [OF j(2) s(1)]
        normalize_segment_canon [OF j(2) s man man man] by simp
  qed
  have "field ''segments'' b = JArr (map JObj items')" using keys by (simp add: b field_map_field_same)
  moreover have "transcript_segments H ms b items' = Inr items'"
    using mapM_total [of items' "normalize_segment H ms (field ''media_artifact_id'' d) (field ''asr_model'' d)
      (field ''asr_model_version'' d)" id] ok' by (simp add: transcript_segments_def b)
  ultimately have "class_body H ms TranscriptArtifact b = Inr b"
    by (simp add: class_body_def object_items_array [THEN iffD2] b map_field_twice)
  moreover have "\<forall>(k, v) \<in> set b. field_ok H ms TranscriptArtifact k v"
    using assms(2) ok' by (auto simp: b transcript_field_ok simp del: canon.simps dest!: set_map_field)
  ultimately show ?thesis using assms(1) by (simp add: body_ok_def b)
qed

lemma member_names:
  assumes "(j, w) \<in> set (member_field k fi d)"
  shows "\<exists>v. (j, v) \<in> set d \<and>
    (w = v \<or> (j = k \<and> (\<exists>vs. v = JArr vs \<and> w = JArr (stable_membership fi vs))))"
proof -
  obtain v where v: "(j, v) \<in> set d"
    "w = (if j = k then (case v of JArr vs \<Rightarrow> JArr (stable_membership fi vs) | _ \<Rightarrow> v) else v)"
    using set_map_field [OF assms [unfolded member_field_def]] by blast
  then show ?thesis by (intro exI [of _ v]) (cases v; simp)
qed

lemma member_field_idem: "member_field k fi (member_field k fi d) = member_field k fi d"
  unfolding member_field_def by (rule map_field_idem) (simp add: stable_membership_idem split: json.splits)

lemma member_field_keys [simp]: "map fst (member_field k fi d) = map fst d"
  by (simp add: member_field_def)

lemma canonical_body_idem: "canonical_body cls (canonical_body cls d) = canonical_body cls d"
proof (cases "cls = LifecycleArtifact")
  case True
  then show ?thesis
    by (simp add: canonical_body_def member_field_idem)
      (simp add: member_field_def map_field_commute [of "''claim_lifecycle_event_ids''" "''occurrence_lifecycle_event_ids''"]
        map_field_idem stable_membership_idem split: json.splits)
next
  case False
  then show ?thesis by (cases cls) (simp_all add: canonical_body_def member_field_idem)
qed

lemma field_ok_member:
  assumes "field_ok H ms cls k (JArr vs)" and "cls \<notin> {TranscriptArtifact, SemanticSegmentArtifact, EvidenceArtifact}"
  shows "field_ok H ms cls k (JArr (stable_membership fi vs))"
proof -
  have "canon (JArr vs) = JArr vs" using assms by (simp add: field_ok_def emitted_def del: canon.simps)
  then have "canon (JArr (stable_membership fi vs)) = JArr (stable_membership fi vs)"
    using stable_membership_subset [of fi vs] unfolding canon_array by blast
  then show ?thesis using assms by (simp add: field_ok_def emitted_def hydrate_field_def del: canon.simps)
qed

lemma member_field_ok:
  assumes "\<forall>(k, v) \<in> set d. field_ok H ms cls k v"
    and "cls \<notin> {TranscriptArtifact, SemanticSegmentArtifact, EvidenceArtifact}"
  shows "\<forall>(k, v) \<in> set (member_field j fi d). field_ok H ms cls k v"
proof (intro ballI, clarify)
  fix k w assume "(k, w) \<in> set (member_field j fi d)"
  then obtain v where v: "(k, v) \<in> set d"
    "w = v \<or> (\<exists>vs. v = JArr vs \<and> w = JArr (stable_membership fi vs))" using member_names by blast
  have "field_ok H ms cls k v" using bspec [OF assms(1) v(1)] by simp
  with v(2) assms(2) field_ok_member show "field_ok H ms cls k w" by blast
qed

lemma canonical_body_ok:
  assumes "map fst d = map fst (class_defaults cls)" and "\<forall>(k, v) \<in> set d. field_ok H ms cls k v"
    and "cls \<noteq> TranscriptArtifact"
  shows "body_ok H ms cls (canonical_body cls d)"
proof -
  have "map fst (canonical_body cls d) = map fst d"
    by (cases cls) (simp_all add: canonical_body_def)
  moreover have "\<forall>(k, v) \<in> set (canonical_body cls d). field_ok H ms cls k v"
  proof (cases "cls = LifecycleArtifact")
    case True
    have "\<forall>(k, v) \<in> set (member_field ''occurrence_lifecycle_event_ids'' True
        (member_field ''claim_lifecycle_event_ids'' True d)). field_ok H ms cls k v"
      by (rule member_field_ok [OF member_field_ok [OF assms(2)]]) (simp_all add: True)
    with True show ?thesis by (simp add: canonical_body_def)
  next
    case False
    with assms(2) show ?thesis by (cases cls) (simp_all add: canonical_body_def member_field_ok)
  qed
  ultimately show ?thesis using assms by (simp add: body_ok_def class_body_def canonical_body_idem)
qed

lemma class_body_ok:
  assumes "map fst d = map fst (class_defaults cls)" and "\<forall>(k, v) \<in> set d. field_ok H ms cls k v"
    and "class_body H ms cls d = Inr b"
  shows "body_ok H ms cls b"
proof (cases "cls = TranscriptArtifact")
  case True
  with transcript_body_ok assms show ?thesis by blast
next
  case False
  with assms(3) have "b = canonical_body cls d" by (simp add: class_body_def)
  with canonical_body_ok [OF assms(1,2) False] show ?thesis by simp
qed

section \<open>The round trip\<close>

definition artifact_ok :: "(string \<Rightarrow> string) \<Rightarrow> (json \<Rightarrow> int) \<Rightarrow> artifact \<Rightarrow> bool" where
  "artifact_ok H ms a \<longleftrightarrow>
     map_of type_registry (af_artifact_type a) = Some (af_class a) \<and> datetime_ok (af_created_at a) \<and>
     af_content_hash a \<noteq> [] \<and> af_profile a = Current \<and> body_ok H ms (af_class a) (af_body a)"

lemma base_dict_keys: "map fst (base_dict a) = base_names"
  by (simp add: base_dict_def base_names_def)

lemma body_dict_emitted:
  "af_profile a = Current \<Longrightarrow> body_dict a = map (\<lambda>(k, v). (k, emitted (af_class a) k v)) (af_body a)"
  by (auto simp: body_dict_def profile_body_def map_field_def emitted_def Let_def intro!: map_idI [symmetric])

lemma to_dict_keys:
  assumes "af_profile a = Current" and "body_ok H ms (af_class a) (af_body a)"
  shows "map fst (to_dict a) = base_names @ map fst (class_defaults (af_class a))"
  using assms by (simp add: to_dict_def base_dict_keys body_dict_emitted body_ok_def comp_def case_prod_beta)

lemma to_dict_distinct:
  assumes "af_profile a = Current" and "body_ok H ms (af_class a) (af_body a)"
  shows "distinct (map fst (to_dict a))"
  unfolding to_dict_keys [OF assms] by (rule class_names_distinct)

lemma json_payload_ok:
  assumes "af_profile a = Current" and "body_ok H ms (af_class a) (af_body a)"
  shows "json_payload a = sort_key fst (to_dict a)"
proof -
  have "map_of (to_dict a) ''content_hash'' = Some (JStr (af_content_hash a))"
    by (simp add: to_dict_def base_dict_def)
  then have "serialize_artifact a = to_dict a" by (simp add: serialize_artifact_def update_same)
  moreover have "canon_fields (to_dict a) = to_dict a"
    unfolding canon_fields_def
  proof (rule map_idI)
    fix x assume "x \<in> set (to_dict a)"
    moreover obtain k v where x: "x = (k, v)" by (cases x)
    ultimately consider "(k, v) \<in> set (base_dict a)" | w where "(k, w) \<in> set (af_body a)" "v = emitted (af_class a) k w"
      using assms(1) by (auto simp: to_dict_def body_dict_emitted)
    then have "canon v = v"
    proof cases
      case 1
      then show ?thesis by (auto simp: base_dict_def jstrs_def)
    next
      case 2
      have "field_ok H ms (af_class a) k w" using assms(2) 2(1) by (force simp: body_ok_def)
      with 2 show ?thesis by (simp add: field_ok_def)
    qed
    then show "(case x of (k, v) \<Rightarrow> (k, canon v)) = x" by (simp add: x)
  qed
  ultimately show ?thesis by (simp add: json_payload_def)
qed

lemma map_of_map_values: "map_of (map (\<lambda>(k, v). (k, h k v)) d) k = map_option (h k) (map_of d k)"
  by (induction d) auto

lemma base_hydrate:
  assumes "(k, v) \<in> set (base_dict a)" and "datetime_ok (af_created_at a)"
  shows "hydrate_field H ms cls k v = Inr v"
  using assms(1) dt_str_roundtrip [OF assms(2)]
  by (auto simp: base_dict_def hydrate_field_def parse_stored_time_def)

lemma hydrated_kwargs:
  assumes ok: "artifact_ok H ms a"
  shows "\<exists>kwargs. mapM (\<lambda>(k, v). try_bind (hydrate_field H ms (af_class a) k v) (\<lambda>w. Inr (k, w))) (json_payload a) = Inr kwargs \<and>
    (\<forall>(k, v) \<in> set (base_dict a). dict_get k kwargs = Some v) \<and>
    (\<forall>(k, v) \<in> set (af_body a). dict_get k kwargs = Some v)"
proof -
  let ?hyd = "\<lambda>k v. projr (hydrate_field H ms (af_class a) k v)"
  have cur: "af_profile a = Current" and body: "body_ok H ms (af_class a) (af_body a)"
    and time: "datetime_ok (af_created_at a)" using ok by (simp_all add: artifact_ok_def)
  have dist: "distinct (map fst (to_dict a))" by (rule to_dict_distinct [OF cur body])
  have in_body: "hydrate_field H ms (af_class a) k (emitted (af_class a) k v) = Inr v" if "(k, v) \<in> set (af_body a)" for k v
    using body that by (force simp: body_ok_def field_ok_def)
  have all: "\<exists>w. hydrate_field H ms (af_class a) k v = Inr w" if "(k, v) \<in> set (to_dict a)" for k v
    using that in_body base_hydrate [OF _ time] cur by (auto simp: to_dict_def body_dict_emitted)
  have "mapM (\<lambda>(k, v). try_bind (hydrate_field H ms (af_class a) k v) (\<lambda>w. Inr (k, w))) (json_payload a) =
      Inr (map (\<lambda>(k, v). (k, ?hyd k v)) (json_payload a))"
    by (rule mapM_total) (use all in \<open>force simp: json_payload_ok [OF cur body]\<close>)
  moreover have lookup: "dict_get k (map (\<lambda>(k, v). (k, ?hyd k v)) (json_payload a)) = Some (?hyd k v)"
    if "(k, v) \<in> set (to_dict a)" for k v
    using that dist by (simp add: dict_get_def map_of_map_values json_payload_ok [OF cur body] map_of_sort_key map_of_is_SomeI)
  have "dict_get k (map (\<lambda>(k, v). (k, ?hyd k v)) (json_payload a)) = Some v" if "(k, v) \<in> set (base_dict a)" for k v
    using lookup [of k v] that base_hydrate [OF that time] by (simp add: to_dict_def)
  moreover have "dict_get k (map (\<lambda>(k, v). (k, ?hyd k v)) (json_payload a)) = Some v" if "(k, v) \<in> set (af_body a)" for k v
    using lookup [of k "emitted (af_class a) k v"] that in_body [OF that] cur
    by (force simp: to_dict_def body_dict_emitted)
  ultimately show ?thesis by blast
qed

lemma payload_lookup:
  assumes "af_profile a = Current" and "body_ok H ms (af_class a) (af_body a)"
  shows "dict_get k (json_payload a) = map_of (to_dict a) k"
  using to_dict_distinct [OF assms] by (simp add: dict_get_def json_payload_ok [OF assms] map_of_sort_key)

lemma registered_type:
  assumes "map_of type_registry ty = Some cls"
  shows "ty = ''frame'' \<longleftrightarrow> cls = FrameArtifact" "ty = ''ocr'' \<longleftrightarrow> cls = OCRArtifact"
    "ty = ''transcript'' \<longleftrightarrow> cls = TranscriptArtifact"
  using assms by (auto simp: type_registry_def split: if_splits)

lemma payload_keys:
  assumes "af_profile a = Current" and "body_ok H ms (af_class a) (af_body a)" and "k \<in> fst ` set (class_defaults (af_class a))"
  shows "dict_get k (json_payload a) \<noteq> None"
proof -
  have "k \<in> set (map fst (to_dict a))" unfolding to_dict_keys [OF assms(1,2)] using assms(3) by simp
  then show ?thesis unfolding payload_lookup [OF assms(1,2)] by (simp add: map_of_eq_None_iff)
qed

lemma payload_segments:
  assumes "af_profile a = Current" and "body_ok H ms TranscriptArtifact (af_body a)" and "af_class a = TranscriptArtifact"
  shows "\<exists>items. field ''segments'' (json_payload a) = JArr (map JObj items) \<and> (\<forall>d \<in> set items. segment_ok d)"
proof -
  obtain items where items: "field ''segments'' (af_body a) = JArr (map JObj items)"
    using assms(2) by (auto simp: body_ok_def class_body_def try_bind_Inr_iff object_items_array)
  have "map fst (af_body a) = map fst (class_defaults TranscriptArtifact)" using assms(2) by (simp add: body_ok_def)
  then have "fst ` set (af_body a) = fst ` set (class_defaults TranscriptArtifact)" by (metis list.set_map)
  then have "''segments'' \<in> fst ` set (af_body a)" by (auto simp: jf_def)
  then have mem: "(''segments'', JArr (map JObj items)) \<in> set (af_body a)" using field_in items by metis
  then have "(''segments'', JArr (map JObj items)) \<in> set (to_dict a)"
    using assms(1,3) by (force simp: to_dict_def body_dict_emitted emitted_def)
  then have "dict_get ''segments'' (json_payload a) = Some (JArr (map JObj items))"
    using assms to_dict_distinct [OF assms(1)] by (simp add: payload_lookup map_of_is_SomeI)
  moreover have "field_ok H ms TranscriptArtifact ''segments'' (JArr (map JObj items))"
    using mem assms(2) by (force simp: body_ok_def)
  ultimately show ?thesis by (auto simp: dict_get_field transcript_field_ok)
qed

lemma payload_profile:
  assumes "artifact_ok H ms a"
  shows "identity_profile_from_payload (json_payload a) = Current"
proof -
  have cur: "af_profile a = Current" and body: "body_ok H ms (af_class a) (af_body a)"
    and ty: "map_of type_registry (af_artifact_type a) = Some (af_class a)" using assms by (simp_all add: artifact_ok_def)
  note keys = payload_keys [OF cur body]
  have t: "dict_get ''artifact_type'' (json_payload a) = Some (JStr (af_artifact_type a))"
    unfolding payload_lookup [OF cur body] by (simp add: to_dict_def base_dict_def)
  have "dict_get ''planner_request_id'' (json_payload a) \<noteq> None" if "af_class a = FrameArtifact"
    using keys that by (simp add: jf_def)
  moreover have "dict_get ''requested_device'' (json_payload a) \<noteq> None" if "af_class a = OCRArtifact"
    using keys that by (simp add: jf_def)
  moreover have "\<not> (case field ''segments'' (json_payload a) of
        JArr items \<Rightarrow> list_ex (\<lambda>i. case i of JObj d \<Rightarrow> dict_get ''correction_records'' d = None | _ \<Rightarrow> False) items
      | _ \<Rightarrow> False)" if tr: "af_class a = TranscriptArtifact"
  proof -
    obtain items where items: "field ''segments'' (json_payload a) = JArr (map JObj items)" "\<forall>d \<in> set items. segment_ok d"
      using payload_segments [of a H ms] cur body tr by auto
    have "''correction_records'' \<in> fst ` set segment_defaults" by (simp add: segment_defaults_def)
    then have "dict_get ''correction_records'' d \<noteq> None" if "d \<in> set items" for d
      using items(2) that segment_keys by (auto simp: dict_get_def map_of_eq_None_iff)
    with items(1) show ?thesis by (auto simp: list_ex_iff)
  qed
  ultimately show ?thesis
    unfolding identity_profile_from_payload_def Let_def t using registered_type [OF ty] by auto
qed

lemma artifact_read_back:
  assumes ok: "artifact_ok H ms a"
  shows "deserialize_artifact H ms clock (json_payload a) = Inr a"
proof -
  have cur: "af_profile a = Current" and body: "body_ok H ms (af_class a) (af_body a)" and hash: "af_content_hash a \<noteq> []"
    and ty: "map_of type_registry (af_artifact_type a) = Some (af_class a)" and time: "datetime_ok (af_created_at a)"
    using ok by (simp_all add: artifact_ok_def)
  obtain kw where kw: "mapM (\<lambda>(k, v). try_bind (hydrate_field H ms (af_class a) k v) (\<lambda>w. Inr (k, w))) (json_payload a) = Inr kw"
    and base: "\<forall>(k, v) \<in> set (base_dict a). dict_get k kw = Some v"
    and rest: "\<forall>(k, v) \<in> set (af_body a). dict_get k kw = Some v"
    using hydrated_kwargs [OF ok] by blast
  have args: "str_arg ''artifact_id'' None kw = Inr (af_artifact_id a)"
    "str_arg ''artifact_type'' None kw = Inr (af_artifact_type a)"
    "str_arg ''schema_version'' (Some ''artifact.v1'') kw = Inr (af_schema_version a)"
    "time_arg clock kw = Inr (af_created_at a)"
    "str_arg ''producer_stage'' (Some []) kw = Inr (af_producer_stage a)"
    "str_arg ''producer_version'' (Some ''1.0.0'') kw = Inr (af_producer_version a)"
    "str_arg ''content_hash'' (Some []) kw = Inr (af_content_hash a)"
    using base dt_str_read [OF time] by (simp_all add: base_dict_def str_arg_def time_arg_def)
  have parents: "strs_arg ''parent_artifact_ids'' kw = Inr (af_parent_ids a)"
  proof -
    have "mapM (\<lambda>v. case v of JStr s \<Rightarrow> Inr s | _ \<Rightarrow> Inl (TypeError ''parent_artifact_ids'')) (map JStr ss) = Inr ss" for ss
      by (induction ss) simp_all
    then show ?thesis using base by (simp add: base_dict_def strs_arg_def jstrs_def)
  qed
  have "with_defaults (class_defaults (af_class a)) kw = af_body a"
    using body rest class_names_distinct [of "af_class a"] by (intro with_defaults_eq) (auto simp: body_ok_def)
  then have "new_artifact H ms clock (af_class a) kw = post_init H ms a"
    using cur by (cases a) (simp add: new_artifact_def args parents)
  also have "\<dots> = Inr a"
    using cur body hash by (simp add: post_init_def body_ok_def base_init_def)
  finally have new: "new_artifact H ms clock (af_class a) kw = Inr a" .
  have "dict_get ''artifact_type'' (json_payload a) = Some (JStr (af_artifact_type a))"
    unfolding payload_lookup [OF cur body] by (simp add: to_dict_def base_dict_def)
  then show ?thesis
    using ty payload_profile [OF ok] kw new by (simp add: deserialize_artifact_def dict_get_field)
qed

text \<open>What the constructors build satisfies the hypothesis.\<close>

lemma defaults_ok: "\<forall>(k, v) \<in> set (class_defaults cls). field_ok H ms cls k v"
  by (cases cls) (simp_all add: jf_def field_ok_def emitted_def hydrate_field_def hydrate_items_def drop_empty_namespace_def)

lemma new_artifact_ok:
  assumes "new_artifact H ms clock cls kwargs = Inr a"
    and "map_of type_registry (af_artifact_type a) = Some cls"
    and "\<forall>k v. dict_get k kwargs = Some v \<longrightarrow> field_ok H ms cls k v"
    and "datetime_ok (af_created_at a)" and "\<And>s. H s \<noteq> []"
  shows "artifact_ok H ms a"
proof -
  let ?d = "with_defaults (class_defaults cls) kwargs"
  obtain b h where b: "class_body H ms cls ?d = Inr b" "af_body a = b" "af_class a = cls" "af_profile a = Current"
    and h: "af_content_hash a \<noteq> []"
    using assms(1,5)
    by (auto simp: new_artifact_def post_init_def base_init_def try_bind_Inr_iff identity_hash_def content_hash_of_def
        split: if_splits)
  have "map fst ?d = map fst (class_defaults cls)" by (simp add: with_defaults_def comp_def case_prod_beta)
  moreover have "\<forall>(k, v) \<in> set ?d. field_ok H ms cls k v"
    using assms(3) defaults_ok [of cls H ms] by (auto simp: with_defaults_def split: option.splits)
  ultimately have "body_ok H ms cls b" by (rule class_body_ok [OF _ _ b(1)])
  with b h assms(2,4) show ?thesis by (simp add: artifact_ok_def)
qed

text \<open>
  Artifacts survive the database: an artifact that a constructor builds from constructed nested
  items (its membership lists sorted, its segments renamed under its own manifest, its content hash
  computed) is read back unchanged from the canonical JSON that a row stores.
\<close>

theorem artifact_roundtrip:
  assumes "new_artifact H ms clock cls kwargs = Inr a"
    and "map_of type_registry (af_artifact_type a) = Some cls"
    and "\<forall>k v. dict_get k kwargs = Some v \<longrightarrow> field_ok H ms cls k v"
    and "datetime_ok (af_created_at a)" and "\<And>s. H s \<noteq> []"
  shows "deserialize_artifact H ms clock' (json_payload a) = Inr a"
  by (rule artifact_read_back [OF new_artifact_ok [OF assms]])

definition sample_segment :: pydict where
  "sample_segment = sort_key fst (with_defaults segment_defaults
     [(''segment_id'', JStr ''s0''), (''end_seconds'', JFloat ''1.5''), (''text'', JStr ''rates rise'')])"

definition sample_transcript :: pydict where
  "sample_transcript =
     [(''artifact_id'', JStr ''t1''), (''artifact_type'', JStr ''transcript''),
      (''media_artifact_id'', JStr ''media-1''), (''segments'', JArr [JObj sample_segment])]"

lemma sample_segment_ok: "segment_ok sample_segment" "canon (JObj sample_segment) = JObj sample_segment"
  by code_simp+

theorem artifact_roundtrip_witness:
  "\<exists>a. new_artifact (\<lambda>s. ''h'') (\<lambda>_. 0) (Aware 0 0) TranscriptArtifact sample_transcript = Inr a \<and>
     deserialize_artifact (\<lambda>s. ''h'') (\<lambda>_. 0) (Naive 7) (json_payload a) = Inr a"
proof -
  let ?H = "\<lambda>s :: string. ''h''" and ?ms = "\<lambda>_ :: json. 0 :: int"
  let ?a = "projr (new_artifact ?H ?ms (Aware 0 0) TranscriptArtifact sample_transcript)"
  have new: "new_artifact ?H ?ms (Aware 0 0) TranscriptArtifact sample_transcript = Inr ?a"
    and ty: "af_artifact_type ?a = ''transcript''" and time: "af_created_at ?a = Aware 0 0" by code_simp+
  have fields: "field_ok ?H ?ms TranscriptArtifact k v" if "dict_get k sample_transcript = Some v" for k v
    using that transcript_field_ok [of ?H ?ms "[sample_segment]"] sample_segment_ok
    by (auto simp: sample_transcript_def dict_get_def field_ok_def emitted_def hydrate_field_def split: if_splits)
  have "deserialize_artifact ?H ?ms (Naive 7) (json_payload ?a) = Inr ?a"
  proof (rule artifact_roundtrip [OF new])
    show "map_of type_registry (af_artifact_type ?a) = Some TranscriptArtifact"
      unfolding ty by (simp add: type_registry_def)
    show "datetime_ok (af_created_at ?a)" unfolding time by code_simp
  qed (use fields in simp_all)
  with new show ?thesis by blast
qed

end
