(* ===== verification/Artifact_Store.thy ===== *)
theory Artifact_Store
  imports Artifact_Codec Checkpoint Fenced_Effects
begin

text \<open>
  \<open>SqlArtifactRepository\<close> (\<open>adapters/postgres/repositories/artifact_repository.py\<close>): immutable artifact
  rows, the edges to their parents, the provenance of source artifacts, and the stage checkpoints with
  their fenced receipts. Every method is a transaction on the record of these tables; an exception
  leaves them as they were.
\<close>

section \<open>Tables\<close>

record artifact_row =
  ar_artifact_id :: string
  ar_artifact_type :: string
  ar_schema_version :: string
  ar_producer_stage :: string
  ar_producer_version :: string
  ar_content_hash :: string
  ar_parent_ids :: "string list"
  ar_payload :: pydict
  ar_created_at :: pydt

record edge_row =
  eg_edge_id :: string
  eg_artifact_id :: string
  eg_parent_id :: string
  eg_relation :: string

record source_row =
  sm_artifact_id :: string
  sm_source_policy_version :: string
  sm_retention_class :: string
  sm_access_classification :: string
  sm_source_content_hash :: string
  sm_content_size :: int
  sm_mime_type :: string
  sm_encryption_key_id :: "string option"
  sm_canonical_url :: "string option"
  sm_source_type :: "string option"
  sm_source_id :: "string option"
  sm_source_part :: "string option"
  sm_source_identity_hash :: "string option"
  sm_source_version_id :: "string option"
  sm_author :: "string option"
  sm_published_at :: "instant option"
  sm_business_as_of :: "instant option"
  sm_source_available_from :: "instant option"
  sm_pipeline_version :: "string option"
  sm_service_version :: "string option"

record stage_row =
  sr_checkpoint_id :: string
  sr_task_id :: string
  sr_stage :: string
  sr_stage_version :: string
  sr_status :: string
  sr_artifact_ids :: "string list"
  sr_artifact_hashes :: "string list"
  sr_payload :: pydict
  sr_created_at :: pydt

record store =
  so_tasks :: task_table
  so_artifacts :: "artifact_row list"
  so_edges :: "edge_row list"
  so_sources :: "source_row list"
  so_locators :: "(string \<times> string \<times> string) list"
  so_checkpoints :: "stage_row list"
  so_effects :: "effect_row list"

text \<open>
  What the repository takes from its surroundings: the SHA-256 digest, millisecond rounding, the column
  default of the timestamps, the public projection of a source URL (built on \<open>urllib\<close>), the environment
  variable \<open>CONTENT_SERVICE_VERSION\<close>, and the private root and relative path at which the file system
  finds the bytes of a source artifact.
\<close>

record surroundings =
  en_hash :: "string \<Rightarrow> string"
  en_ms :: "json \<Rightarrow> int"
  en_clock :: pydt
  en_public_url :: "string \<Rightarrow> json \<Rightarrow> string option"
  en_service_version :: "string option"
  en_locate :: "artifact \<Rightarrow> (string \<times> string) option"

section \<open>Validation\<close>

definition last_part :: "string \<Rightarrow> string" where
  "last_part s = rev (takeWhile (\<lambda>c. c \<noteq> CHR ''-'') (rev s))"

definition validate_artifact_id :: "(string \<Rightarrow> string) \<Rightarrow> artifact \<Rightarrow> unit result" where
  "validate_artifact_id H a =
     ensure (\<not> (length (last_part (af_artifact_id a)) = 32 \<and> af_artifact_id a \<noteq> artifact_id_of H a))
       (ArtifactIntegrityError ''artifact_id does not match canonical identity'')"

definition validate_object :: "(string \<Rightarrow> string) \<Rightarrow> artifact \<Rightarrow> string result" where
  "validate_object H a =
     try_bind (ensure (af_content_hash a = identity_hash H a)
       (ArtifactIntegrityError (''artifact content_hash does not match canonical identity: '' @ af_artifact_id a))) (\<lambda>_.
     try_bind (validate_artifact_id H a) (\<lambda>_. Inr (identity_hash H a)))"

definition stored_fields :: "pydict \<Rightarrow> pydict" where
  "stored_fields payload = dict_drop [''artifact_id'', ''created_at'', ''content_hash''] payload"

definition list_or_empty :: "json \<Rightarrow> json list" where
  "list_or_empty v = (case v of JArr xs \<Rightarrow> xs | _ \<Rightarrow> [])"

definition row_matches :: "artifact_row \<Rightarrow> pydict \<Rightarrow> artifact \<Rightarrow> string \<Rightarrow> bool" where
  "row_matches row payload a expected_hash \<longleftrightarrow>
     ar_artifact_id row = af_artifact_id a \<and> field ''artifact_id'' payload = JStr (ar_artifact_id row) \<and>
     ar_artifact_type row = af_artifact_type a \<and> field ''artifact_type'' payload = JStr (ar_artifact_type row) \<and>
     ar_schema_version row = af_schema_version a \<and> field ''schema_version'' payload = JStr (ar_schema_version row) \<and>
     ar_producer_stage row = af_producer_stage a \<and> field ''producer_stage'' payload = JStr (ar_producer_stage row) \<and>
     ar_producer_version row = af_producer_version a \<and>
     field ''producer_version'' payload = JStr (ar_producer_version row) \<and>
     ar_parent_ids row = af_parent_ids a \<and>
     list_or_empty (field ''parent_artifact_ids'' payload) = map JStr (ar_parent_ids row) \<and>
     ar_content_hash row = expected_hash \<and> field ''content_hash'' payload = JStr expected_hash \<and>
     same_dict (stored_fields payload) (stored_fields (json_payload a))"

definition validate_row_payload :: "(string \<Rightarrow> string) \<Rightarrow> artifact_row \<Rightarrow> pydict \<Rightarrow> artifact \<Rightarrow> unit result" where
  "validate_row_payload H row payload a =
     try_bind (validate_object H a) (\<lambda>expected_hash.
       ensure (row_matches row payload a expected_hash)
         (ArtifactIntegrityError (''artifact row/payload mismatch: '' @ ar_artifact_id row)))"

definition read_row :: "surroundings \<Rightarrow> artifact_row \<Rightarrow> artifact result" where
  "read_row env row =
     try_bind (deserialize_artifact (en_hash env) (en_ms env) (en_clock env) (ar_payload row)) (\<lambda>a.
     try_bind (validate_row_payload (en_hash env) row (ar_payload row) a) (\<lambda>_. Inr a))"

section \<open>Source provenance\<close>

definition strip :: "string \<Rightarrow> string" where
  "strip s = rev (dropWhile is_space (rev (dropWhile is_space s)))"

definition safe_identifier :: "json \<Rightarrow> string option" where
  "safe_identifier v =
     (case v of
        JStr s \<Rightarrow>
          (let candidate = strip s
           in if candidate = [] \<or> list_ex (\<lambda>w. contains_sub w (lower candidate))
                 [''cookie'', ''secret'', ''token'', ''signed'', ''://'']
              then None else Some candidate)
      | _ \<Rightarrow> None)"

definition safe_hash :: "json \<Rightarrow> string option" where
  "safe_hash v =
     (case safe_identifier v of
        None \<Rightarrow> None
      | Some s \<Rightarrow> if length s = 64 \<and> list_all (\<lambda>c. c \<in> set ''0123456789abcdef'') (lower s) then Some s else None)"

definition meta_instant :: "json \<Rightarrow> instant option" where
  "meta_instant v =
     (case v of
        JStr s \<Rightarrow> (case parse_stored_time s of Inl _ \<Rightarrow> None | Inr t \<Rightarrow> Some (instant_of t))
      | _ \<Rightarrow> None)"

definition source_metadata :: "artifact \<Rightarrow> pydict" where
  "source_metadata a = (case field ''source_metadata'' (af_body a) of JObj d \<Rightarrow> d | _ \<Rightarrow> [])"

definition source_values :: "surroundings \<Rightarrow> artifact \<Rightarrow> source_row" where
  "source_values env a =
     (let body = af_body a; md = source_metadata a;
          ident = (\<lambda>k. safe_identifier (field k md))
      in \<lparr>sm_artifact_id = af_artifact_id a,
          sm_source_policy_version = str_field ''source_policy_version'' [] md,
          sm_retention_class = ''raw_media'',
          sm_access_classification = str_field ''access_classification'' [] md,
          sm_source_content_hash = str_field ''source_content_hash'' (str_field ''raw_content_hash'' [] body) body,
          sm_content_size = (case field ''raw_content_length'' body of JInt n \<Rightarrow> n | _ \<Rightarrow> 0),
          sm_mime_type = str_field ''mime_type'' ''application/octet-stream'' md,
          sm_encryption_key_id = ident ''encryption_key_id'',
          sm_canonical_url = en_public_url env (str_field ''source_type'' [] body) (field ''canonical_url'' md),
          sm_source_type = safe_identifier (field ''source_type'' body), sm_source_id = ident ''source_id'',
          sm_source_part = ident ''source_part'', sm_source_identity_hash = safe_hash (field ''source_identity_hash'' body),
          sm_source_version_id = safe_identifier (field ''source_version_id'' body), sm_author = ident ''author'',
          sm_published_at = meta_instant (field ''published_at'' md),
          sm_business_as_of = meta_instant (field ''business_as_of'' md),
          sm_source_available_from = meta_instant (field ''source_available_from'' md),
          sm_pipeline_version = ident ''pipeline_version'',
          sm_service_version = (case en_service_version env of None \<Rightarrow> None | Some v \<Rightarrow> safe_identifier (JStr v))\<rparr>)"

definition provenance_complete :: "artifact \<Rightarrow> bool" where
  "provenance_complete a \<longleftrightarrow>
     (let md = source_metadata a
      in strip (str_field ''source_policy_version'' [] md) \<noteq> [] \<and>
         strip (str_field ''access_classification'' [] md) \<noteq> [] \<and>
         strip (str_field ''mime_type'' ''application/octet-stream'' md) \<noteq> [])"

definition register_locator :: "surroundings \<Rightarrow> artifact \<Rightarrow> store \<Rightarrow> store result" where
  "register_locator env a db =
     (case en_locate env a of
        None \<Rightarrow> Inr db
      | Some (root, path) \<Rightarrow>
          (case row_get fst (af_artifact_id a) (so_locators db) of
             None \<Rightarrow> Inr (db\<lparr>so_locators := row_add (af_artifact_id a, root, path) (so_locators db)\<rparr>)
           | Some (_, found) \<Rightarrow>
               if found \<noteq> (root, path) then Inl (ArtifactIntegrityError ''retention locator is immutable'') else Inr db))"

definition persist_source_provenance :: "surroundings \<Rightarrow> artifact \<Rightarrow> store \<Rightarrow> store result" where
  "persist_source_provenance env a db =
     (if \<not> provenance_complete a then Inr db
      else try_bind
        (case row_get sm_artifact_id (af_artifact_id a) (so_sources db) of
           None \<Rightarrow> Inr (db\<lparr>so_sources := row_add (source_values env a) (so_sources db)\<rparr>)
         | Some found \<Rightarrow>
             if found \<noteq> source_values env a
             then Inl (ArtifactIntegrityError ''source artifact provenance is immutable'') else Inr db)
        (register_locator env a))"

section \<open>Artifacts\<close>

definition new_artifact_row :: "(string \<Rightarrow> string) \<Rightarrow> artifact \<Rightarrow> artifact_row" where
  "new_artifact_row H a =
     \<lparr>ar_artifact_id = af_artifact_id a, ar_artifact_type = af_artifact_type a,
      ar_schema_version = af_schema_version a, ar_producer_stage = af_producer_stage a,
      ar_producer_version = af_producer_version a, ar_content_hash = identity_hash H a,
      ar_parent_ids = af_parent_ids a, ar_payload = json_payload a, ar_created_at = af_created_at a\<rparr>"

definition same_content :: "string \<Rightarrow> string \<Rightarrow> artifact_row \<Rightarrow> bool" where
  "same_content ty hash row \<longleftrightarrow> ar_artifact_type row = ty \<and> ar_content_hash row = hash"

text \<open>\<open>_insert_ignore\<close> with no conflict target: a conflict on the id or on type and hash inserts nothing.\<close>

definition insert_artifact_ignore :: "artifact_row \<Rightarrow> artifact_row list \<Rightarrow> artifact_row list" where
  "insert_artifact_ignore row rows =
     (if row_get ar_artifact_id (ar_artifact_id row) rows \<noteq> None \<or>
         list_ex (same_content (ar_artifact_type row) (ar_content_hash row)) rows
      then rows else row_add row rows)"

definition find_artifact_row :: "string \<Rightarrow> string \<Rightarrow> string \<Rightarrow> artifact_row list \<Rightarrow> artifact_row option" where
  "find_artifact_row aid ty hash rows =
     (case row_get ar_artifact_id aid rows of
        Some row \<Rightarrow> Some row
      | None \<Rightarrow> find (same_content ty hash) rows)"

definition parent_relation :: string where
  "parent_relation = ''PARENT''"

definition insert_edge_ignore :: "(string \<Rightarrow> string) \<Rightarrow> string \<Rightarrow> edge_row list \<Rightarrow> string \<Rightarrow> edge_row list" where
  "insert_edge_ignore H aid edges parent =
     (let eid = H (aid @ '':'' @ parent)
      in if row_get eg_edge_id eid edges \<noteq> None then edges
         else row_add \<lparr>eg_edge_id = eid, eg_artifact_id = aid, eg_parent_id = parent, eg_relation = parent_relation\<rparr> edges)"

definition put_artifact :: "surroundings \<Rightarrow> artifact \<Rightarrow> store \<Rightarrow> (artifact \<times> store) result" where
  "put_artifact env a db =
     (let H = en_hash env in
      try_bind (validate_object H a) (\<lambda>expected_hash.
        let rows = insert_artifact_ignore (new_artifact_row H a) (so_artifacts db)
        in case find_artifact_row (af_artifact_id a) (af_artifact_type a) expected_hash rows of
             None \<Rightarrow> Inl (RuntimeError ''artifact disappeared after a unique-key conflict'')
           | Some row \<Rightarrow>
               try_bind (read_row env row) (\<lambda>stored.
               try_bind (ensure (same_dict (stored_fields (ar_payload row)) (stored_fields (json_payload a)))
                 (ArtifactIntegrityError (''artifact id '' @ af_artifact_id a @ '' already stores a different payload''))) (\<lambda>_.
                 let db' = db\<lparr>so_artifacts := rows,
                              so_edges := foldl (insert_edge_ignore H (af_artifact_id stored)) (so_edges db) (af_parent_ids stored)\<rparr>
                 in if af_class stored = SourceArtifact
                    then try_bind (persist_source_provenance env stored db') (\<lambda>db''. Inr (stored, db''))
                    else Inr (stored, db')))))"

definition get_artifact :: "surroundings \<Rightarrow> string \<Rightarrow> store \<Rightarrow> artifact option result" where
  "get_artifact env aid db =
     (case row_get ar_artifact_id aid (so_artifacts db) of
        None \<Rightarrow> Inr None
      | Some row \<Rightarrow> try_bind (read_row env row) (\<lambda>a. Inr (Some a)))"

definition get_many_artifacts :: "surroundings \<Rightarrow> string list \<Rightarrow> store \<Rightarrow> artifact list result" where
  "get_many_artifacts env ids db =
     (if ids = [] then Inr []
      else try_bind (mapM (\<lambda>row. try_bind (read_row env row) (\<lambda>a. Inr (ar_artifact_id row, a)))
                      (filter (\<lambda>row. ar_artifact_id row \<in> set ids) (so_artifacts db)))
             (\<lambda>by_id. Inr (List.map_filter (map_of by_id) ids)))"

definition verify_artifact :: "surroundings \<Rightarrow> string \<Rightarrow> store \<Rightarrow> bool result" where
  "verify_artifact env aid db =
     (case row_get ar_artifact_id aid (so_artifacts db) of
        None \<Rightarrow> Inl (KeyError aid)
      | Some row \<Rightarrow> try_bind (read_row env row) (\<lambda>_. Inr True))"

section \<open>Checkpoints\<close>

definition checkpoint_key :: "string \<Rightarrow> checkpoint_record \<Rightarrow> string" where
  "checkpoint_key tid ck = tid @ '':'' @ ck_stage ck @ '':'' @ ck_stage_version ck"

definition put_stage_row :: "pydt \<Rightarrow> string \<Rightarrow> checkpoint_record \<Rightarrow> stage_row list \<Rightarrow> stage_row list" where
  "put_stage_row clock tid ck rows =
     (case row_get sr_checkpoint_id (checkpoint_key tid ck) rows of
        None \<Rightarrow>
          row_add \<lparr>sr_checkpoint_id = checkpoint_key tid ck, sr_task_id = tid, sr_stage = ck_stage ck,
                   sr_stage_version = ck_stage_version ck, sr_status = ck_status ck,
                   sr_artifact_ids = ck_output_artifact_ids ck, sr_artifact_hashes = ck_output_hashes ck,
                   sr_payload = checkpoint_to_dict ck, sr_created_at = clock\<rparr> rows
      | Some row \<Rightarrow>
          (let history = list_or_empty (field ''attempt_history'' (sr_payload row)) @ [JObj (sr_payload row)]
           in row_put sr_checkpoint_id
                (row\<lparr>sr_status := ck_status ck, sr_artifact_ids := ck_output_artifact_ids ck,
                     sr_artifact_hashes := ck_output_hashes ck,
                     sr_payload := checkpoint_to_dict ck @ [(''attempt_history'', JArr history)]\<rparr>) rows))"

definition put_artifacts :: "surroundings \<Rightarrow> artifact list \<Rightarrow> store \<Rightarrow> store result" where
  "put_artifacts env items db = foldM (\<lambda>db a. try_bind (put_artifact env a db) (\<lambda>(_, db'). Inr db')) db items"

definition put_checkpoint_rows ::
  "surroundings \<Rightarrow> artifact list \<Rightarrow> string \<Rightarrow> checkpoint_record \<Rightarrow> store \<Rightarrow> store result" where
  "put_checkpoint_rows env items tid ck db =
     try_bind (put_artifacts env items db) (\<lambda>db'.
       Inr (db'\<lparr>so_checkpoints := put_stage_row (en_clock env) tid ck (so_checkpoints db')\<rparr>))"

definition put_with_checkpoint ::
  "surroundings \<Rightarrow> artifact list \<Rightarrow> string \<Rightarrow> checkpoint_record \<Rightarrow> store \<Rightarrow> store result" where
  "put_with_checkpoint env items tid ck db = put_checkpoint_rows env items tid ck db"

definition fenced_payload_hash :: "(string \<Rightarrow> string) \<Rightarrow> checkpoint_record \<Rightarrow> artifact list \<Rightarrow> string result" where
  "fenced_payload_hash H ck items =
     (let stable = checkpoint_state_checksum H ck
      in if ck_state_checksum ck \<noteq> [] \<and> ck_state_checksum ck \<noteq> stable
         then Inl (ArtifactIntegrityError ''fenced checkpoint state checksum is invalid'')
         else Inr (H (canonical_json (JObj
           [(''checkpoint_state_checksum'', JStr stable), (''schema_version'', JStr (ck_schema_version ck)),
            (''output_artifact_ids'', jstrs (ck_output_artifact_ids ck)),
            (''output_artifact_hashes'', jstrs (ck_output_hashes ck)),
            (''artifacts'', jstrs (map af_content_hash items))]))))"

definition stage_effect_key :: "checkpoint_record \<Rightarrow> string" where
  "stage_effect_key ck = ''stage:'' @ ck_stage ck @ '':'' @ ck_stage_version ck"

definition receipt_kind :: string where
  "receipt_kind = ''STAGE_ARTIFACT_CHECKPOINT''"

definition stage_receipt ::
  "(string \<Rightarrow> string) \<Rightarrow> instant \<Rightarrow> pydt \<Rightarrow> string \<Rightarrow> checkpoint_record \<Rightarrow> string \<Rightarrow> int \<Rightarrow> effect_row" where
  "stage_receipt H now clock tid ck phash tok =
     \<lparr>fx_effect_id = effect_id_of H tid (stage_effect_key ck), fx_task_id = tid,
      fx_effect_key = stage_effect_key ck, fx_effect_kind = receipt_kind, fx_payload_hash = phash,
      fx_projection_payload = [], fx_fencing_token = tok, fx_state = ''COMPLETED'', fx_attempt_count = 1,
      fx_dispatch_owner = None, fx_dispatch_expires_at = None, fx_next_attempt_at = None,
      fx_last_error_code = None, fx_created_at = clock, fx_completed_at = Some (Aware now 0)\<rparr>"

definition put_with_fenced_checkpoint ::
  "surroundings \<Rightarrow> instant \<Rightarrow> artifact list \<Rightarrow> string \<Rightarrow> checkpoint_record \<Rightarrow> string \<Rightarrow> int \<Rightarrow> store \<Rightarrow> store result" where
  "put_with_fenced_checkpoint env now items tid ck worker tok db =
     try_bind (fenced_row tid worker tok now (so_tasks db)) (\<lambda>_.
       if ck_status ck \<noteq> ''SUCCEEDED'' then put_checkpoint_rows env items tid ck db
       else try_bind (fenced_payload_hash (en_hash env) ck items) (\<lambda>phash.
         case effect_by_key tid (stage_effect_key ck) (so_effects db) of
           Some effect \<Rightarrow>
             if fx_payload_hash effect \<noteq> phash \<or> fx_effect_kind effect \<noteq> receipt_kind
             then Inl (ArtifactIntegrityError ''fenced stage effect identity already stores different payload'')
             else Inr db
         | None \<Rightarrow>
             try_bind (put_checkpoint_rows env items tid ck db) (\<lambda>db'.
               let row = stage_receipt (en_hash env) now (en_clock env) tid ck phash tok
               in if row_get fx_effect_id (fx_effect_id row) (so_effects db') \<noteq> None
                  then Inl (IntegrityError ''duplicate key value violates unique constraint'')
                  else Inr (db'\<lparr>so_effects := row_add row (so_effects db')\<rparr>))))"

section \<open>Reading checkpoints\<close>

definition payload_mismatch :: "string \<Rightarrow> stage_row \<Rightarrow> exn" where
  "payload_mismatch what row =
     CheckpointValidationError (''CHECKPOINT_ERROR: '' @ what @ '' mismatch for '' @ sr_checkpoint_id row)"

definition check_stage_payload :: "stage_row \<Rightarrow> unit result" where
  "check_stage_payload row =
     (let payload = sr_payload row in
      if payload = [] then Inr ()
      else try_bind (ensure (str_field ''stage'' (sr_stage row) payload = sr_stage row) (payload_mismatch ''stage payload'' row)) (\<lambda>_.
           try_bind (ensure (str_field ''stage_version'' (sr_stage_version row) payload = sr_stage_version row)
             (payload_mismatch ''stage version payload'' row)) (\<lambda>_.
           try_bind (ensure (str_field ''status'' (sr_status row) payload = sr_status row)
             (payload_mismatch ''status payload'' row)) (\<lambda>_.
             ensure (list_or_empty (field ''output_artifact_ids'' payload) = map JStr (sr_artifact_ids row) \<and>
                     list_or_empty (field ''output_hashes'' payload) = map JStr (sr_artifact_hashes row))
               (payload_mismatch ''checkpoint payload'' row)))))"

definition with_default :: "string \<Rightarrow> json \<Rightarrow> pydict \<Rightarrow> pydict" where
  "with_default k v d = (if dict_get k d = None then d @ [(k, v)] else d)"

definition stage_payload :: "stage_row \<Rightarrow> pydict" where
  "stage_payload row =
     with_default ''output_hashes'' (jstrs (sr_artifact_hashes row))
       (with_default ''output_artifact_ids'' (jstrs (sr_artifact_ids row))
         (with_default ''status'' (JStr (sr_status row))
           (with_default ''stage_version'' (JStr (sr_stage_version row))
             (with_default ''stage'' (JStr (sr_stage row)) (sr_payload row)))))"

definition list_checkpoints :: "string \<Rightarrow> store \<Rightarrow> checkpoint_record list result" where
  "list_checkpoints tid db =
     mapM (\<lambda>row. try_bind (check_stage_payload row) (\<lambda>_. checkpoint_from_dict (stage_payload row)))
       (sort_key (\<lambda>row. (instant_of (sr_created_at row), sr_checkpoint_id row))
         (filter (\<lambda>row. sr_task_id row = tid) (so_checkpoints db)))"

definition referenced_ids :: "checkpoint_record list \<Rightarrow> string list" where
  "referenced_ids records =
     remdups (filter (\<lambda>i. i \<noteq> []) (concat (map (\<lambda>r. ck_input_artifact_ids r @ ck_output_artifact_ids r) records)))"

definition load_referenced :: "surroundings \<Rightarrow> store \<Rightarrow> string \<Rightarrow> (string \<times> artifact) result" where
  "load_referenced env db aid =
     (case row_get ar_artifact_id aid (so_artifacts db) of
        None \<Rightarrow> Inl (ArtifactIntegrityError (''ARTIFACT_INTEGRITY_ERROR: missing artifact '' @ aid))
      | Some row \<Rightarrow>
          (case read_row env row of
             Inl _ \<Rightarrow> Inl (ArtifactIntegrityError (''ARTIFACT_INTEGRITY_ERROR: invalid artifact '' @ aid))
           | Inr a \<Rightarrow> Inr (aid, a)))"

definition check_loaded ::
  "(string \<times> string) list \<Rightarrow> (string \<times> artifact) list \<Rightarrow> checkpoint_record \<Rightarrow> unit result" where
  "check_loaded versions arts r =
     try_bind (ensure (case map_of versions (ck_stage r) of None \<Rightarrow> True | Some v \<Rightarrow> v = [] \<or> ck_stage_version r = v)
       (CheckpointValidationError (''CHECKPOINT_ERROR: checkpoint stage version incompatible for '' @ ck_stage r))) (\<lambda>_.
     try_bind (ensure (length (ck_output_artifact_ids r) = length (ck_output_hashes r))
       (CheckpointValidationError (''checkpoint output hash count mismatch for stage '' @ ck_stage r))) (\<lambda>_.
       foldM (\<lambda>_ (aid, expected).
         case map_of arts aid of
           None \<Rightarrow> Inl (ArtifactIntegrityError (''ARTIFACT_INTEGRITY_ERROR: checkpoint artifact missing '' @ aid))
         | Some a \<Rightarrow> ensure (expected = [] \<or> af_content_hash a = expected)
                       (ArtifactIntegrityError (''ARTIFACT_INTEGRITY_ERROR: checkpoint hash mismatch '' @ aid)))
         () (zip (ck_output_artifact_ids r) (ck_output_hashes r))))"

definition load_checkpoints ::
  "surroundings \<Rightarrow> (string \<times> string) list \<Rightarrow> string \<Rightarrow> store \<Rightarrow>
     (checkpoint_record list \<times> (string \<times> artifact) list) result" where
  "load_checkpoints env versions tid db =
     try_bind (list_checkpoints tid db) (\<lambda>records.
     try_bind (mapM (load_referenced env db) (referenced_ids records)) (\<lambda>arts.
     try_bind (mapM (check_loaded versions arts) records) (\<lambda>_.
       Inr (records, arts))))"

section \<open>Rows read back\<close>

text \<open>Artifacts that may cross the boundary, and the rows that the repository makes of them.\<close>

definition storable :: "surroundings \<Rightarrow> artifact \<Rightarrow> bool" where
  "storable env a \<longleftrightarrow>
     artifact_ok (en_hash env) (en_ms env) a \<and> validate_object (en_hash env) a = Inr (identity_hash (en_hash env) a)"

definition row_of :: "surroundings \<Rightarrow> artifact_row \<Rightarrow> artifact \<Rightarrow> bool" where
  "row_of env row a \<longleftrightarrow> storable env a \<and> row = new_artifact_row (en_hash env) a"

definition store_ok :: "surroundings \<Rightarrow> store \<Rightarrow> bool" where
  "store_ok env db \<longleftrightarrow> keys_distinct ar_artifact_id (so_artifacts db) \<and> (\<forall>row \<in> set (so_artifacts db). \<exists>a. row_of env row a)"

lemma payload_base_field:
  assumes "artifact_ok H ms a" and "(k, v) \<in> set (base_dict a)"
  shows "field k (json_payload a) = v"
proof -
  have cur: "af_profile a = Current" and body: "body_ok H ms (af_class a) (af_body a)"
    using assms(1) by (simp_all add: artifact_ok_def)
  have "map_of (to_dict a) k = Some v"
    using to_dict_distinct [OF cur body] assms(2) by (simp add: to_dict_def map_of_is_SomeI)
  then show ?thesis by (intro dict_get_field) (simp add: payload_lookup [OF cur body])
qed

lemma read_row_of:
  assumes "row_of env row a"
  shows "read_row env row = Inr a"
proof -
  have ok: "artifact_ok (en_hash env) (en_ms env) a" and valid: "validate_object (en_hash env) a = Inr (identity_hash (en_hash env) a)"
    and row: "row = new_artifact_row (en_hash env) a" using assms by (simp_all add: row_of_def storable_def)
  have hash: "af_content_hash a = identity_hash (en_hash env) a"
    using valid by (auto simp: validate_object_def try_bind_Inr_iff)
  note base = payload_base_field [OF ok]
  have "row_matches row (json_payload a) a (identity_hash (en_hash env) a)"
    using base [of "''artifact_id''"] base [of "''artifact_type''"] base [of "''schema_version''"]
      base [of "''producer_stage''"] base [of "''producer_version''"] base [of "''parent_artifact_ids''"]
      base [of "''content_hash''"] hash
    by (simp add: row_matches_def row new_artifact_row_def base_dict_def jstrs_def list_or_empty_def same_dict_def)
  then show ?thesis
    using artifact_read_back [OF ok] valid
    by (simp add: read_row_def validate_row_payload_def row new_artifact_row_def)
qed

lemma row_of_simps:
  "row_of env row a \<Longrightarrow> ar_artifact_id row = af_artifact_id a"
  "row_of env row a \<Longrightarrow> ar_artifact_type row = af_artifact_type a"
  "row_of env row a \<Longrightarrow> ar_content_hash row = af_content_hash a"
  "row_of env row a \<Longrightarrow> ar_payload row = json_payload a"
  by (auto simp: row_of_def new_artifact_row_def storable_def validate_object_def try_bind_Inr_iff)

lemma store_ok_row:
  "store_ok env db \<Longrightarrow> row_get ar_artifact_id aid (so_artifacts db) = Some row \<Longrightarrow> \<exists>a. row_of env row a \<and> af_artifact_id a = aid"
  by (auto simp: store_ok_def dest!: row_get_Some_key) (metis row_of_simps(1))

lemma row_of_unique: "row_of env row a \<Longrightarrow> row_of env row b \<Longrightarrow> a = b"
  by (metis read_row_of sum.inject(2))

lemma get_artifact_iff:
  assumes "store_ok env db"
  shows "get_artifact env aid db = Inr (Some a) \<longleftrightarrow>
    (\<exists>row. row_get ar_artifact_id aid (so_artifacts db) = Some row \<and> row_of env row a)"
proof (cases "row_get ar_artifact_id aid (so_artifacts db)")
  case (Some row)
  with store_ok_row [OF assms] obtain b where "row_of env row b" by blast
  with Some show ?thesis using read_row_of [of env row b] row_of_unique [of env row b a] by (auto simp: get_artifact_def)
qed (simp add: get_artifact_def)

text \<open>Reading never fails on a well-formed store.\<close>

lemma get_artifact_total: "store_ok env db \<Longrightarrow> \<exists>x. get_artifact env aid db = Inr x"
  using store_ok_row [of env db aid] read_row_of
  by (cases "row_get ar_artifact_id aid (so_artifacts db)") (fastforce simp: get_artifact_def)+

section \<open>Putting artifacts\<close>

definition same_artifacts :: "store \<Rightarrow> store \<Rightarrow> bool" where
  "same_artifacts db db' \<longleftrightarrow> so_artifacts db' = so_artifacts db"

lemma provenance_artifacts:
  "persist_source_provenance env a db = Inr db' \<Longrightarrow>
     so_artifacts db' = so_artifacts db \<and> so_checkpoints db' = so_checkpoints db \<and> so_effects db' = so_effects db \<and>
     so_tasks db' = so_tasks db"
  by (auto simp: persist_source_provenance_def register_locator_def try_bind_Inr_iff split: if_splits option.splits prod.splits)

lemma put_artifact_cases:
  assumes "put_artifact env a db = Inr (stored, db')" and "storable env a" and "store_ok env db"
  shows "so_artifacts db' = insert_artifact_ignore (new_artifact_row (en_hash env) a) (so_artifacts db)"
    "\<exists>row. find_artifact_row (af_artifact_id a) (af_artifact_type a) (identity_hash (en_hash env) a) (so_artifacts db') = Some row \<and>
       row_of env row stored \<and> same_dict (stored_fields (json_payload stored)) (stored_fields (json_payload a))"
    "so_checkpoints db' = so_checkpoints db" "so_effects db' = so_effects db" "so_tasks db' = so_tasks db"
    "store_ok env db'"
proof -
  let ?rows = "insert_artifact_ignore (new_artifact_row (en_hash env) a) (so_artifacts db)"
  have valid: "validate_object (en_hash env) a = Inr (identity_hash (en_hash env) a)" using assms(2) by (simp add: storable_def)
  obtain row where row: "find_artifact_row (af_artifact_id a) (af_artifact_type a) (identity_hash (en_hash env) a) ?rows = Some row"
    and read: "read_row env row = Inr stored" and same: "same_dict (stored_fields (ar_payload row)) (stored_fields (json_payload a))"
    and rest: "so_artifacts db' = ?rows \<and> so_checkpoints db' = so_checkpoints db \<and> so_effects db' = so_effects db \<and> so_tasks db' = so_tasks db"
    using assms(1) valid
    by (auto simp: put_artifact_def Let_def try_bind_Inr_iff split: option.splits if_splits dest!: provenance_artifacts)
  have new: "row_of env (new_artifact_row (en_hash env) a) a" using assms(2) by (simp add: row_of_def)
  have all: "\<forall>r \<in> set ?rows. \<exists>b. row_of env r b"
    using assms(3) new by (auto simp: store_ok_def insert_artifact_ignore_def row_add_def)
  have dist: "keys_distinct ar_artifact_id ?rows"
    using assms(3) by (simp add: store_ok_def insert_artifact_ignore_def keys_distinct_add)
  have "row \<in> set ?rows"
    using row by (auto simp: find_artifact_row_def split: option.splits dest: row_get_Some_key find_Some_in)
  then obtain b where b: "row_of env row b" using all by blast
  with read read_row_of have "b = stored" by fastforce
  with b row same rest show "so_artifacts db' = ?rows"
    "\<exists>row. find_artifact_row (af_artifact_id a) (af_artifact_type a) (identity_hash (en_hash env) a) (so_artifacts db') = Some row \<and>
       row_of env row stored \<and> same_dict (stored_fields (json_payload stored)) (stored_fields (json_payload a))"
    "so_checkpoints db' = so_checkpoints db" "so_effects db' = so_effects db" "so_tasks db' = so_tasks db"
    by (auto simp: row_of_simps(4))
  show "store_ok env db'" using all dist rest by (simp add: store_ok_def)
qed

lemma put_artifact_keeps:
  assumes "put_artifact env a db = Inr (stored, db')" and "storable env a" and "store_ok env db"
    and "row_get ar_artifact_id aid (so_artifacts db) = Some row"
  shows "row_get ar_artifact_id aid (so_artifacts db') = Some row"
  using assms(4) unfolding put_artifact_cases(1) [OF assms(1-3)]
  by (simp add: insert_artifact_ignore_def row_get_add)

definition keeps_artifacts :: "surroundings \<Rightarrow> store \<Rightarrow> store \<Rightarrow> bool" where
  "keeps_artifacts env db db' \<longleftrightarrow> store_ok env db' \<and>
     (\<forall>aid row. row_get ar_artifact_id aid (so_artifacts db) = Some row \<longrightarrow>
        row_get ar_artifact_id aid (so_artifacts db') = Some row)"

lemma artifacts_refl: "store_ok env db \<Longrightarrow> keeps_artifacts env db db"
  by (simp add: keeps_artifacts_def)

lemma artifacts_trans: "keeps_artifacts env db1 db2 \<Longrightarrow> keeps_artifacts env db2 db3 \<Longrightarrow> keeps_artifacts env db1 db3"
  by (simp add: keeps_artifacts_def)

lemma artifacts_get: "keeps_artifacts env db db' \<Longrightarrow> store_ok env db \<Longrightarrow> get_artifact env aid db = Inr (Some a) \<Longrightarrow>
    get_artifact env aid db' = Inr (Some a)"
  by (auto simp: get_artifact_iff keeps_artifacts_def)

lemma put_artifact_step:
  "put_artifact env a db = Inr (stored, db') \<Longrightarrow> storable env a \<Longrightarrow> store_ok env db \<Longrightarrow> keeps_artifacts env db db'"
  using put_artifact_cases(6) put_artifact_keeps by (auto simp: keeps_artifacts_def)

lemma put_artifacts_step:
  assumes "put_artifacts env items db = Inr db'" and "\<forall>a \<in> set items. storable env a" and "store_ok env db"
  shows "keeps_artifacts env db db' \<and> so_checkpoints db' = so_checkpoints db \<and> so_effects db' = so_effects db \<and>
    so_tasks db' = so_tasks db"
  using assms
proof (induction items arbitrary: db)
  case Nil
  then show ?case by (simp add: put_artifacts_def artifacts_refl)
next
  case (Cons a items)
  then obtain stored mid where put: "put_artifact env a db = Inr (stored, mid)" and rest: "put_artifacts env items mid = Inr db'"
    by (auto simp: put_artifacts_def try_bind_Inr_iff)
  from Cons.prems have a: "storable env a" "store_ok env db" by simp_all
  note first = put_artifact_step [OF put a] put_artifact_cases(3-6) [OF put a]
  with Cons.IH [OF rest] Cons.prems(2) show ?case by (auto intro: artifacts_trans)
qed

end
