(* ===== verification/Store_Safety.thy ===== *)
theory Store_Safety
  imports Artifact_Store Effect_Safety
begin

text \<open>
  The artifact repository under all its users: runs of its methods, interleaved with whatever other
  repositories do to the task table. Artifacts are never changed, the receipt of a succeeded stage is
  final, and a stage that was stored can be resumed from.
\<close>

section \<open>Runs\<close>

datatype store_op =
    Put_Artifact artifact
  | Put_Checkpoint "artifact list" string checkpoint_record
  | Put_Fenced instant "artifact list" string checkpoint_record string int
  | Other_Tasks task_table

fun store_apply :: "surroundings \<Rightarrow> store \<Rightarrow> store_op \<Rightarrow> store result" where
  "store_apply env db (Put_Artifact a) = try_bind (put_artifact env a db) (\<lambda>(_, db'). Inr db')"
| "store_apply env db (Put_Checkpoint items tid ck) = put_with_checkpoint env items tid ck db"
| "store_apply env db (Put_Fenced now items tid ck worker tok) =
     put_with_fenced_checkpoint env now items tid ck worker tok db"
| "store_apply env db (Other_Tasks tbl) = Inr (db\<lparr>so_tasks := tbl\<rparr>)"

definition store_step :: "surroundings \<Rightarrow> store \<Rightarrow> store_op \<Rightarrow> store" where
  "store_step env db op = (case store_apply env db op of Inl _ \<Rightarrow> db | Inr db' \<Rightarrow> db')"

definition store_run :: "surroundings \<Rightarrow> store \<Rightarrow> store_op list \<Rightarrow> store" where
  "store_run env = foldl (store_step env)"

fun op_artifacts :: "store_op \<Rightarrow> artifact list" where
  "op_artifacts (Put_Artifact a) = [a]"
| "op_artifacts (Put_Checkpoint items tid ck) = items"
| "op_artifacts (Put_Fenced now items tid ck worker tok) = items"
| "op_artifacts (Other_Tasks tbl) = []"

definition storable_op :: "surroundings \<Rightarrow> store_op \<Rightarrow> bool" where
  "storable_op env op \<longleftrightarrow> list_all (storable env) (op_artifacts op)"

section \<open>Artifacts are immutable\<close>

lemma put_checkpoint_rows_step:
  assumes "put_checkpoint_rows env items tid ck db = Inr db'" and "\<forall>a \<in> set items. storable env a" and "store_ok env db"
  shows "keeps_artifacts env db db'" "so_effects db' = so_effects db" "so_tasks db' = so_tasks db"
    "so_checkpoints db' = put_stage_row (en_clock env) tid ck (so_checkpoints db)"
proof -
  obtain mid where mid: "put_artifacts env items db = Inr mid"
    "db' = mid\<lparr>so_checkpoints := put_stage_row (en_clock env) tid ck (so_checkpoints mid)\<rparr>"
    using assms(1) by (auto simp: put_checkpoint_rows_def try_bind_Inr_iff)
  note step = put_artifacts_step [OF mid(1) assms(2,3)]
  with mid(2) show "keeps_artifacts env db db'" by (simp add: keeps_artifacts_def store_ok_def)
  from step mid(2) show "so_effects db' = so_effects db" "so_tasks db' = so_tasks db"
    "so_checkpoints db' = put_stage_row (en_clock env) tid ck (so_checkpoints db)" by simp_all
qed

lemma fenced_cases:
  assumes "put_with_fenced_checkpoint env now items tid ck worker tok db = Inr db'"
  shows "\<exists>row. fenced_row tid worker tok now (so_tasks db) = Inr row"
    "(ck_status ck \<noteq> ''SUCCEEDED'' \<and> put_checkpoint_rows env items tid ck db = Inr db') \<or>
     (ck_status ck = ''SUCCEEDED'' \<and> (\<exists>phash. fenced_payload_hash (en_hash env) ck items = Inr phash \<and>
        ((\<exists>e. effect_by_key tid (stage_effect_key ck) (so_effects db) = Some e \<and> fx_payload_hash e = phash \<and>
            fx_effect_kind e = receipt_kind \<and> db' = db) \<or>
         (effect_by_key tid (stage_effect_key ck) (so_effects db) = None \<and>
          (\<exists>mid. put_checkpoint_rows env items tid ck db = Inr mid \<and>
             row_get fx_effect_id (effect_id_of (en_hash env) tid (stage_effect_key ck)) (so_effects mid) = None \<and>
             db' = mid\<lparr>so_effects := row_add (stage_receipt (en_hash env) now (en_clock env) tid ck phash tok) (so_effects mid)\<rparr>)))))"
proof -
  obtain row where row: "fenced_row tid worker tok now (so_tasks db) = Inr row"
    using assms by (auto simp: put_with_fenced_checkpoint_def try_bind_Inr_iff)
  then show "\<exists>row. fenced_row tid worker tok now (so_tasks db) = Inr row" by blast
  show "(ck_status ck \<noteq> ''SUCCEEDED'' \<and> put_checkpoint_rows env items tid ck db = Inr db') \<or>
     (ck_status ck = ''SUCCEEDED'' \<and> (\<exists>phash. fenced_payload_hash (en_hash env) ck items = Inr phash \<and>
        ((\<exists>e. effect_by_key tid (stage_effect_key ck) (so_effects db) = Some e \<and> fx_payload_hash e = phash \<and>
            fx_effect_kind e = receipt_kind \<and> db' = db) \<or>
         (effect_by_key tid (stage_effect_key ck) (so_effects db) = None \<and>
          (\<exists>mid. put_checkpoint_rows env items tid ck db = Inr mid \<and>
             row_get fx_effect_id (effect_id_of (en_hash env) tid (stage_effect_key ck)) (so_effects mid) = None \<and>
             db' = mid\<lparr>so_effects := row_add (stage_receipt (en_hash env) now (en_clock env) tid ck phash tok) (so_effects mid)\<rparr>)))))"
    using assms row
    by (cases "ck_status ck = ''SUCCEEDED''"; cases "effect_by_key tid (stage_effect_key ck) (so_effects db)")
      (auto simp: put_with_fenced_checkpoint_def try_bind_Inr_iff Let_def stage_receipt_def split: if_splits)
qed

lemma fenced_step:
  assumes "put_with_fenced_checkpoint env now items tid ck worker tok db = Inr db'"
    and "\<forall>a \<in> set items. storable env a" and "store_ok env db"
  shows "keeps_artifacts env db db'"
proof -
  consider "put_checkpoint_rows env items tid ck db = Inr db'" | "db' = db"
    | mid effs where "put_checkpoint_rows env items tid ck db = Inr mid" "db' = mid\<lparr>so_effects := effs\<rparr>"
    using fenced_cases(2) [OF assms(1)] by blast
  then show ?thesis
  proof cases
    case 3
    with put_checkpoint_rows_step(1) [OF 3(1) assms(2,3)] show ?thesis by (simp add: keeps_artifacts_def store_ok_def)
  qed (use assms(2,3) put_checkpoint_rows_step(1) artifacts_refl in blast)+
qed

lemma store_step_keeps:
  assumes "storable_op env op" and "store_ok env db"
  shows "keeps_artifacts env db (store_step env db op)"
proof (cases "store_apply env db op")
  case (Inl e)
  with assms(2) show ?thesis by (simp add: store_step_def artifacts_refl)
next
  case (Inr db')
  have "keeps_artifacts env db db'"
  proof (cases op)
    case (Put_Artifact a)
    with Inr assms show ?thesis
      by (auto simp: try_bind_Inr_iff storable_op_def intro: put_artifact_step)
  next
    case (Put_Checkpoint items tid ck)
    with Inr assms put_checkpoint_rows_step(1) [of env items tid ck db db'] show ?thesis
      by (simp add: storable_op_def list_all_iff put_with_checkpoint_def)
  next
    case (Put_Fenced now items tid ck worker tok)
    with Inr assms fenced_step [of env now items tid ck worker tok db db'] show ?thesis
      by (simp add: storable_op_def list_all_iff)
  next
    case (Other_Tasks tbl)
    with Inr assms(2) show ?thesis by (auto simp: keeps_artifacts_def store_ok_def)
  qed
  with Inr show ?thesis by (simp add: store_step_def)
qed

lemma store_run_keeps:
  assumes "\<forall>op \<in> set ops. storable_op env op" and "store_ok env db"
  shows "keeps_artifacts env db (store_run env db ops)"
  using assms
proof (induction ops arbitrary: db)
  case Nil
  then show ?case by (simp add: store_run_def artifacts_refl)
next
  case (Cons op ops)
  then have step: "keeps_artifacts env db (store_step env db op)" by (simp add: store_step_keeps)
  then have "store_ok env (store_step env db op)" by (simp add: keeps_artifacts_def)
  with Cons step show ?case by (auto simp: store_run_def intro: artifacts_trans)
qed

lemma put_then_get:
  assumes "put_artifact env a db = Inr (stored, db')" and "storable env a" and "store_ok env db"
  shows "get_artifact env (af_artifact_id stored) db' = Inr (Some stored)"
proof -
  note put = put_artifact_cases [OF assms]
  obtain row where row: "find_artifact_row (af_artifact_id a) (af_artifact_type a) (identity_hash (en_hash env) a) (so_artifacts db') = Some row"
      "row_of env row stored" using put(2) by blast
  then have "row \<in> set (so_artifacts db')"
    by (auto simp: find_artifact_row_def split: option.splits dest: row_get_Some_key find_Some_in)
  then have "row_get ar_artifact_id (ar_artifact_id row) (so_artifacts db') = Some row"
    using put(6) by (intro row_get_member) (simp_all add: store_ok_def)
  with row(2) put(6) show ?thesis by (auto simp: get_artifact_iff row_of_simps(1))
qed

lemma put_conflict:
  assumes "get_artifact env (af_artifact_id a) db = Inr (Some b)" and "store_ok env db" and "storable env a"
    and "\<not> same_dict (stored_fields (json_payload b)) (stored_fields (json_payload a))"
  shows "\<exists>m. put_artifact env a db = Inl (ArtifactIntegrityError m)"
proof -
  obtain row where row: "row_get ar_artifact_id (af_artifact_id a) (so_artifacts db) = Some row" "row_of env row b"
    using assms(1,2) by (auto simp: get_artifact_iff)
  then have "find_artifact_row (af_artifact_id a) (af_artifact_type a) h (insert_artifact_ignore (new_artifact_row H a) (so_artifacts db)) = Some row" for h H
    by (simp add: find_artifact_row_def insert_artifact_ignore_def new_artifact_row_def)
  with assms(3,4) row(2) show ?thesis
    by (simp add: put_artifact_def storable_def Let_def read_row_of row_of_simps(4) ensure_def)
qed

text \<open>
  C20. Artifacts are immutable. From a well-formed store (the empty one, for instance) and under every
  sequence of repository calls, failed ones included, an artifact that can be read under an id is read
  under it ever after, reading never fails, what a put returned can be read, and a put of other content
  under a stored id raises the integrity error.
\<close>

theorem artifact_immutable:
  assumes "store_ok env db" and "\<forall>op \<in> set ops. storable_op env op"
  shows "(\<forall>aid a. get_artifact env aid db = Inr (Some a) \<longrightarrow> get_artifact env aid (store_run env db ops) = Inr (Some a)) \<and>
    (\<forall>aid. \<exists>x. get_artifact env aid (store_run env db ops) = Inr x) \<and>
    (\<forall>a stored db'. storable env a \<longrightarrow> put_artifact env a (store_run env db ops) = Inr (stored, db') \<longrightarrow>
       get_artifact env (af_artifact_id stored) db' = Inr (Some stored)) \<and>
    (\<forall>a b. storable env a \<longrightarrow> get_artifact env (af_artifact_id a) (store_run env db ops) = Inr (Some b) \<longrightarrow>
       \<not> same_dict (stored_fields (json_payload b)) (stored_fields (json_payload a)) \<longrightarrow>
       (\<exists>m. put_artifact env a (store_run env db ops) = Inl (ArtifactIntegrityError m)))"
proof -
  have keeps: "keeps_artifacts env db (store_run env db ops)" by (rule store_run_keeps [OF assms(2,1)])
  then have "store_ok env (store_run env db ops)" by (simp add: keeps_artifacts_def)
  with artifacts_get [OF keeps assms(1)] get_artifact_total put_then_get put_conflict show ?thesis by blast
qed

definition sample_env :: surroundings where
  "sample_env = \<lparr>en_hash = (\<lambda>s. ''h''), en_ms = (\<lambda>_. 0), en_clock = Aware 0 0, en_public_url = (\<lambda>_ _. None),
     en_service_version = None, en_locate = (\<lambda>_. None)\<rparr>"

definition empty_store :: store where
  "empty_store = \<lparr>so_tasks = [], so_artifacts = [], so_edges = [], so_sources = [], so_locators = [],
     so_checkpoints = [], so_effects = []\<rparr>"

definition stored_frame :: "string \<Rightarrow> artifact" where
  "stored_frame aid =
     \<lparr>af_class = FrameArtifact, af_artifact_id = aid, af_artifact_type = ''frame'', af_schema_version = ''artifact.v1'',
      af_created_at = Aware 0 0, af_producer_stage = ''frames'', af_producer_version = ''1.0.0'', af_parent_ids = [],
      af_content_hash = ''h'', af_profile = Current, af_body = class_defaults FrameArtifact\<rparr>"

lemma empty_store_ok: "store_ok env empty_store"
  by (simp add: store_ok_def empty_store_def keys_distinct_def)

lemma stored_frame_ok:
  assumes "length (last_part aid) \<noteq> 32"
  shows "storable sample_env (stored_frame aid)"
proof -
  have "datetime_ok (Aware 0 0)" by code_simp
  then have "artifact_ok (en_hash sample_env) (en_ms sample_env) (stored_frame aid)"
    using defaults_ok [of FrameArtifact]
    by (simp add: artifact_ok_def stored_frame_def type_registry_def body_ok_def class_body_def canonical_body_def
        del: class_defaults.simps)
  moreover have "identity_hash (en_hash sample_env) (stored_frame aid) = ''h''"
    by (simp add: identity_hash_def content_hash_of_def sample_env_def)
  moreover have "af_content_hash (stored_frame aid) = ''h''" "af_artifact_id (stored_frame aid) = aid"
    by (simp_all add: stored_frame_def)
  ultimately show ?thesis
    using assms by (simp add: storable_def validate_object_def validate_artifact_id_def)
qed

lemma put_fresh:
  assumes "storable env a" and "row_get ar_artifact_id (af_artifact_id a) (so_artifacts db) = None"
    and "\<not> list_ex (same_content (af_artifact_type a) (identity_hash (en_hash env) a)) (so_artifacts db)"
    and "af_class a \<noteq> SourceArtifact"
  shows "\<exists>db'. put_artifact env a db = Inr (a, db')"
proof -
  let ?row = "new_artifact_row (en_hash env) a"
  have row: "row_of env ?row a" using assms(1) by (simp add: row_of_def)
  have "insert_artifact_ignore ?row (so_artifacts db) = row_add ?row (so_artifacts db)"
    using assms(2,3) by (simp add: insert_artifact_ignore_def new_artifact_row_def)
  moreover have "find_artifact_row (af_artifact_id a) (af_artifact_type a) h (row_add ?row (so_artifacts db)) = Some ?row" for h
    using assms(2) by (simp add: find_artifact_row_def row_get_add new_artifact_row_def)
  moreover have "same_dict d d" for d by (simp add: same_dict_def)
  ultimately show ?thesis
    using assms(1,4) read_row_of [OF row] row_of_simps(4) [OF row]
    by (simp add: put_artifact_def storable_def Let_def)
qed

theorem artifact_immutable_witness:
  "get_artifact sample_env ''f1'' (store_run sample_env empty_store
       [Put_Artifact (stored_frame ''f1''), Put_Artifact (stored_frame ''f2'')]) = Inr (Some (stored_frame ''f1''))"
proof -
  let ?first = "store_run sample_env empty_store [Put_Artifact (stored_frame ''f1'')]"
  have ok: "storable sample_env (stored_frame ''f1'')" "storable sample_env (stored_frame ''f2'')"
    by (rule stored_frame_ok, code_simp)+
  have "store_ok sample_env ?first"
    using store_run_keeps [OF _ empty_store_ok, of "[Put_Artifact (stored_frame ''f1'')]" sample_env] ok
    by (simp add: keeps_artifacts_def storable_op_def)
  moreover have "get_artifact sample_env ''f1'' ?first = Inr (Some (stored_frame ''f1''))"
  proof -
    have "af_class (stored_frame ''f1'') \<noteq> SourceArtifact" "af_artifact_id (stored_frame ''f1'') = ''f1''"
      by (simp_all add: stored_frame_def)
    then obtain db' where put: "put_artifact sample_env (stored_frame ''f1'') empty_store = Inr (stored_frame ''f1'', db')"
      using put_fresh [OF ok(1), of empty_store] by (auto simp: empty_store_def)
    then have "?first = db'" by (simp add: store_run_def store_step_def)
    with put_then_get [OF put ok(1) empty_store_ok] show ?thesis by (simp add: stored_frame_def)
  qed
  ultimately show ?thesis
    using artifact_immutable [of sample_env ?first "[Put_Artifact (stored_frame ''f2'')]"] ok
    by (simp add: storable_op_def store_run_def)
qed

section \<open>The receipt of a stage is final\<close>

lemma effect_by_key_add:
  "effect_by_key tid key (row_add r effects) =
     (case effect_by_key tid key effects of
        Some e \<Rightarrow> Some e | None \<Rightarrow> if fx_task_id r = tid \<and> fx_effect_key r = key then Some r else None)"
  unfolding effect_by_key_def row_add_def by (induction effects) auto

lemma put_artifact_effects:
  "put_artifact env a db = Inr (stored, db') \<Longrightarrow> so_effects db' = so_effects db"
  by (auto simp: put_artifact_def Let_def try_bind_Inr_iff split: option.splits if_splits dest!: provenance_artifacts)

lemma put_artifacts_effects: "put_artifacts env items db = Inr db' \<Longrightarrow> so_effects db' = so_effects db"
  by (induction items arbitrary: db) (auto simp: put_artifacts_def try_bind_Inr_iff dest!: put_artifact_effects)

lemma put_checkpoint_rows_effects: "put_checkpoint_rows env items tid ck db = Inr db' \<Longrightarrow> so_effects db' = so_effects db"
  by (auto simp: put_checkpoint_rows_def try_bind_Inr_iff dest: put_artifacts_effects)

lemma receipt_kept:
  assumes "effect_by_key tid key (so_effects db) = Some e"
  shows "effect_by_key tid key (so_effects (store_step env db op)) = Some e"
proof (cases "store_apply env db op")
  case (Inl err)
  with assms show ?thesis by (simp add: store_step_def)
next
  case (Inr db')
  have "so_effects db' = so_effects db \<or> (\<exists>r. so_effects db' = row_add r (so_effects db))"
  proof (cases op)
    case (Put_Fenced now items tid' ck worker tok)
    then have "put_with_fenced_checkpoint env now items tid' ck worker tok db = Inr db'" using Inr by simp
    from fenced_cases(2) [OF this] show ?thesis using put_checkpoint_rows_effects by fastforce
  qed (use Inr in \<open>auto simp: try_bind_Inr_iff put_with_checkpoint_def dest: put_artifact_effects put_checkpoint_rows_effects\<close>)
  then show ?thesis using Inr assms by (auto simp: store_step_def effect_by_key_add)
qed

lemma receipt_kept_run:
  "effect_by_key tid key (so_effects db) = Some e \<Longrightarrow> effect_by_key tid key (so_effects (store_run env db ops)) = Some e"
  by (induction ops arbitrary: db) (simp_all add: store_run_def receipt_kept)

text \<open>
  C24. The receipt of a succeeded stage is final. Once a fenced checkpoint of a stage was committed, in
  every later state of every run a success of the same stage and version with other facts or other
  artifacts is refused, whoever holds the lease, and a repeated success with the same facts writes
  nothing.
\<close>

theorem stage_receipt_final:
  assumes "put_with_fenced_checkpoint env now items tid ck worker tok db = Inr db1"
    and "ck_status ck = ''SUCCEEDED''"
    and "ck_status ck' = ''SUCCEEDED''" and "stage_effect_key ck' = stage_effect_key ck"
  shows "case put_with_fenced_checkpoint env now' items' tid ck' worker' tok' (store_run env db1 ops) of
      Inr db2 \<Rightarrow> db2 = store_run env db1 ops \<and>
        fenced_payload_hash (en_hash env) ck' items' = fenced_payload_hash (en_hash env) ck items
    | Inl e \<Rightarrow> True"
proof -
  obtain phash e where phash: "fenced_payload_hash (en_hash env) ck items = Inr phash"
    and e: "effect_by_key tid (stage_effect_key ck) (so_effects db1) = Some e" "fx_payload_hash e = phash"
  proof -
    from fenced_cases(2) [OF assms(1)] assms(2) obtain phash where phash: "fenced_payload_hash (en_hash env) ck items = Inr phash"
      and cases: "(\<exists>e. effect_by_key tid (stage_effect_key ck) (so_effects db) = Some e \<and> fx_payload_hash e = phash \<and> db1 = db) \<or>
        (effect_by_key tid (stage_effect_key ck) (so_effects db) = None \<and>
         (\<exists>mid. put_checkpoint_rows env items tid ck db = Inr mid \<and>
           db1 = mid\<lparr>so_effects := row_add (stage_receipt (en_hash env) now (en_clock env) tid ck phash tok) (so_effects mid)\<rparr>))"
      by blast
    from cases have "\<exists>e. effect_by_key tid (stage_effect_key ck) (so_effects db1) = Some e \<and> fx_payload_hash e = phash"
      by (auto simp: effect_by_key_add put_checkpoint_rows_effects stage_receipt_def)
    with phash that show ?thesis by blast
  qed
  have later: "effect_by_key tid (stage_effect_key ck') (so_effects (store_run env db1 ops)) = Some e"
    using receipt_kept_run [OF e(1)] assms(4) by simp
  show ?thesis
  proof (cases "put_with_fenced_checkpoint env now' items' tid ck' worker' tok' (store_run env db1 ops)")
    case (Inr db2)
    from fenced_cases(2) [OF Inr] assms(3) later e(2) phash show ?thesis by (auto simp: Inr)
  qed simp
qed

text \<open>
  A failed attempt may still overwrite the checkpoint row of a stage that has its receipt; a repeated
  success then leaves the failed row in place.
\<close>

lemma failed_after_success:
  assumes "effect_by_key tid (stage_effect_key ck) (so_effects db) = Some e"
    and "put_with_fenced_checkpoint env now items tid bad worker tok db = Inr db1"
    and "ck_status bad = ''FAILED''" and "ck_stage bad = ck_stage ck" "ck_stage_version bad = ck_stage_version ck"
    and "put_with_fenced_checkpoint env now' items' tid ck worker' tok' db1 = Inr db2" and "ck_status ck = ''SUCCEEDED''"
  shows "\<exists>row. row_get sr_checkpoint_id (checkpoint_key tid ck) (so_checkpoints db2) = Some row \<and> sr_status row = ''FAILED''"
proof -
  have rows: "put_checkpoint_rows env items tid bad db = Inr db1"
    using fenced_cases(2) [OF assms(2)] assms(3) by auto
  then have "so_effects db1 = so_effects db" by (rule put_checkpoint_rows_effects)
  with fenced_cases(2) [OF assms(6)] assms(1,7) have "db2 = db1" by auto
  moreover obtain mid where "db1 = mid\<lparr>so_checkpoints := put_stage_row (en_clock env) tid bad (so_checkpoints mid)\<rparr>"
    using rows by (auto simp: put_checkpoint_rows_def try_bind_Inr_iff)
  moreover have "checkpoint_key tid bad = checkpoint_key tid ck" using assms(4,5) by (simp add: checkpoint_key_def)
  ultimately show ?thesis
    using assms(3) by (auto simp: put_stage_row_def row_get_put row_get_add dest: row_get_Some_key split: option.splits)
qed

section \<open>A stored stage can be resumed from\<close>

lemma dict_drop_canon:
  assumes "canon (JObj d) = canon (JObj e)"
  shows "canon (JObj (dict_drop ks d)) = canon (JObj (dict_drop ks e))"
proof -
  have fields: "canon_fields (dict_drop ks d) = dict_drop ks (canon_fields d)" for d
    by (induction d) (auto simp: canon_fields_def dict_drop_def)
  have "sort_key fst (dict_drop ks d) = dict_drop ks (sort_key fst d)" for d :: pydict
    by (simp add: dict_drop_def filter_sort)
  moreover have "sort_key fst (canon_fields d) = sort_key fst (canon_fields e)"
    using assms by (simp only: canon_JObj json.inject)
  ultimately show ?thesis by (simp only: canon_JObj fields)
qed

lemma dict_drop_drop: "dict_drop ks (dict_drop js d) = dict_drop (js @ ks) d"
  by (auto simp: dict_drop_def conj_commute intro: filter_cong)

lemma stored_fields_identity:
  assumes "storable env a" and "storable env b"
    and "same_dict (stored_fields (json_payload b)) (stored_fields (json_payload a))"
  shows "af_artifact_type b = af_artifact_type a \<and> af_content_hash b = af_content_hash a"
proof -
  have ok: "artifact_ok (en_hash env) (en_ms env) c" "af_content_hash c = identity_hash (en_hash env) c" if "storable env c" for c
    using that by (auto simp: storable_def validate_object_def try_bind_Inr_iff)
  have cur: "af_profile c = Current" "body_ok (en_hash env) (en_ms env) (af_class c) (af_body c)" if "storable env c" for c
    using ok(1) [OF that] by (simp_all add: artifact_ok_def)
  let ?ks = "[''artifact_id'', ''created_at'', ''content_hash'']"
  have plain: "canon (JObj (stored_fields (json_payload c))) = canon (JObj (dict_drop ?ks (to_dict c)))" if "storable env c" for c
  proof -
    have "canon (JObj (sort_key fst (to_dict c))) = canon (JObj (to_dict c))"
      using to_dict_distinct [OF cur [OF that]] by (intro canon_key_order) (simp_all add: distinct_map)
    from dict_drop_canon [OF this] show ?thesis
      by (simp only: stored_fields_def json_payload_ok [OF cur [OF that]])
  qed
  have same: "canon (JObj (dict_drop ?ks (to_dict b))) = canon (JObj (dict_drop ?ks (to_dict a)))"
    using assms(3) plain [OF assms(1)] plain [OF assms(2)] by (simp only: same_dict_def)
  have distinct: "distinct (map fst (dict_drop ?ks (to_dict c)))" if "storable env c" for c
    using to_dict_distinct [OF cur [OF that]] by (simp add: dict_drop_def distinct_map inj_on_def)
  have "map_option canon (dict_get ''artifact_type'' (dict_drop ?ks (to_dict b))) =
      map_option canon (dict_get ''artifact_type'' (dict_drop ?ks (to_dict a)))"
    by (rule canon_JObj_field [OF same distinct distinct]) (rule assms)+
  then have ty: "af_artifact_type b = af_artifact_type a"
    by (simp add: dict_get_def dict_drop_def to_dict_def base_dict_def)
  then have "identity_excluded b = identity_excluded a"
    using cur(1) [OF assms(1)] cur(1) [OF assms(2)] by (simp add: identity_excluded_def)
  then obtain js where js: "identity_excluded a = ?ks @ js" "identity_excluded b = ?ks @ js"
    by (auto simp: identity_excluded_def)
  have "canon (JObj (artifact_identity_payload b)) = canon (JObj (artifact_identity_payload a))"
    using dict_drop_canon [OF same, of js] unfolding artifact_identity_payload_def js dict_drop_drop .
  then have "identity_hash (en_hash env) b = identity_hash (en_hash env) a"
    by (simp only: identity_hash_def content_hash_of_def canonical_json_def)
  with ty ok(2) assms(1,2) show ?thesis by simp
qed

definition addressed :: "surroundings \<Rightarrow> artifact \<Rightarrow> bool" where
  "addressed env a \<longleftrightarrow> af_artifact_id a = artifact_id_of (en_hash env) a"

definition store_addressed :: "surroundings \<Rightarrow> store \<Rightarrow> bool" where
  "store_addressed env db \<longleftrightarrow> (\<forall>row \<in> set (so_artifacts db). \<forall>a. row_of env row a \<longrightarrow> addressed env a)"

definition stored_in :: "surroundings \<Rightarrow> store \<Rightarrow> string \<Rightarrow> artifact option" where
  "stored_in env db aid = (case get_artifact env aid db of Inr (Some a) \<Rightarrow> Some a | _ \<Rightarrow> None)"

lemma stored_in_iff: "stored_in env db aid = Some a \<longleftrightarrow> get_artifact env aid db = Inr (Some a)"
  by (auto simp: stored_in_def split: sum.splits option.splits)

lemma same_address:
  assumes "storable env a" "storable env b" "addressed env a" "addressed env b"
    and "af_artifact_type b = af_artifact_type a" "af_content_hash b = af_content_hash a"
  shows "af_artifact_id b = af_artifact_id a"
  using assms by (auto simp: addressed_def artifact_id_of_def make_artifact_id_def storable_def validate_object_def
      try_bind_Inr_iff identity_hash_def)

lemma put_artifact_holds:
  assumes "put_artifact env a db = Inr (stored, db')" and "storable env a" "store_ok env db"
    and "addressed env a" "store_addressed env db"
  shows "holds (stored_in env db') (af_artifact_id a, af_content_hash a)" "store_addressed env db'"
proof -
  note put = put_artifact_cases [OF assms(1-3)]
  obtain row where row: "find_artifact_row (af_artifact_id a) (af_artifact_type a) (identity_hash (en_hash env) a) (so_artifacts db') = Some row"
      "row_of env row stored" "same_dict (stored_fields (json_payload stored)) (stored_fields (json_payload a))" using put(2) by blast
  have new: "row_of env (new_artifact_row (en_hash env) a) a" using assms(2) by (simp add: row_of_def)
  show addr: "store_addressed env db'"
    using assms(4,5) row_of_unique [OF new] unfolding put(1)
    by (auto simp: store_addressed_def put(1) insert_artifact_ignore_def row_add_def)
  have "storable env stored" using row(2) by (simp add: row_of_def)
  moreover note stored_fields_identity [OF assms(2) this row(3)]
  moreover have "row \<in> set (so_artifacts db')"
    using row(1) by (auto simp: find_artifact_row_def split: option.splits dest: row_get_Some_key find_Some_in)
  then have "addressed env stored" using addr row(2) by (auto simp: store_addressed_def)
  ultimately have "af_artifact_id stored = af_artifact_id a" "af_content_hash stored = af_content_hash a"
    using same_address [OF assms(2) _ assms(4)] by auto
  with put_then_get [OF assms(1-3)] have "stored_in env db' (af_artifact_id a) = Some stored" by (simp add: stored_in_iff)
  with \<open>af_content_hash stored = af_content_hash a\<close>
  show "holds (stored_in env db') (af_artifact_id a, af_content_hash a)" by (simp add: holds_def)
qed

lemma holds_keeps:
  assumes "holds (stored_in env db) p" and "keeps_artifacts env db db'" and "store_ok env db"
  shows "holds (stored_in env db') p"
proof -
  obtain a where "stored_in env db (fst p) = Some a" "af_content_hash a = snd p"
    using assms(1) by (auto simp: holds_def split: option.splits)
  with artifacts_get [OF assms(2,3)] have "stored_in env db' (fst p) = Some a" by (simp add: stored_in_iff)
  with \<open>af_content_hash a = snd p\<close> show ?thesis by (simp add: holds_def)
qed

lemma put_artifacts_holds:
  assumes "put_artifacts env items db = Inr db'" and "\<forall>a \<in> set items. storable env a \<and> addressed env a"
    and "store_ok env db" "store_addressed env db"
  shows "\<forall>a \<in> set items. holds (stored_in env db') (af_artifact_id a, af_content_hash a)"
  using assms
proof (induction items arbitrary: db)
  case (Cons a items)
  then obtain stored mid where put: "put_artifact env a db = Inr (stored, mid)" and rest: "put_artifacts env items mid = Inr db'"
    by (auto simp: put_artifacts_def try_bind_Inr_iff)
  from Cons.prems have a: "storable env a" "store_ok env db" "addressed env a" "store_addressed env db" by simp_all
  note step = put_artifact_cases(6) [OF put a(1,2)] put_artifact_holds [OF put a]
  have "keeps_artifacts env mid db'" using put_artifacts_step [OF rest _ step(1)] Cons.prems(2) by simp
  with step holds_keeps [OF step(2)] Cons.IH [OF rest _ step(1,3)] Cons.prems(2) show ?case by simp
qed simp

lemma checkpoint_fields_with_history:
  assumes "k \<noteq> ''attempt_history''"
  shows "field k (checkpoint_to_dict ck @ [(''attempt_history'', h)]) = field k (checkpoint_to_dict ck)"
  using assms by (simp add: field_def dict_get_def map_of_append map_add_def split: option.splits)

lemma checkpoint_with_history:
  "checkpoint_from_dict (checkpoint_to_dict ck @ [(''attempt_history'', h)]) = checkpoint_from_dict (checkpoint_to_dict ck)"
  unfolding checkpoint_from_dict_def tuple_field_def opt_str_field_def str_field_field
  by (simp only: checkpoint_fields_with_history list.inject char.inject simp_thms)

text \<open>A row of the stage, with the history of earlier attempts or none.\<close>

lemma stage_row_read_back:
  assumes "stored_checkpoint ck" and "ck_stage ck \<noteq> []"
    and "sr_payload row = checkpoint_to_dict ck \<or> sr_payload row = checkpoint_to_dict ck @ [(''attempt_history'', h)]"
    and "sr_stage row = ck_stage ck" "sr_stage_version row = ck_stage_version ck"
    and "sr_status row = ck_status ck" "sr_artifact_ids row = ck_output_artifact_ids ck" "sr_artifact_hashes row = ck_output_hashes ck"
  shows "check_stage_payload row = Inr () \<and> checkpoint_from_dict (stage_payload row) = Inr ck"
proof -
  have fields: "field k (sr_payload row) = field k (checkpoint_to_dict ck)" if "k \<noteq> ''attempt_history''" for k
    using assms(3) checkpoint_fields_with_history [OF that] by auto
  have "check_stage_payload row = Inr ()"
    using assms(1,2) unfolding check_stage_payload_def Let_def assms(4-) str_field_field stored_checkpoint_def
    by (simp add: fields checkpoint_fields jstrs_def list_or_empty_def)
  moreover have "stage_payload row = sr_payload row"
    using assms(3)
  proof (elim disjE)
    assume p: "sr_payload row = checkpoint_to_dict ck"
    show ?thesis by (simp add: stage_payload_def with_default_def p dict_get_def checkpoint_to_dict_def)
  next
    assume p: "sr_payload row = checkpoint_to_dict ck @ [(''attempt_history'', h)]"
    show ?thesis by (simp add: stage_payload_def with_default_def p dict_get_def checkpoint_to_dict_def)
  qed
  moreover have "checkpoint_from_dict (sr_payload row) = Inr ck"
    using assms(3) by (elim disjE) (simp_all only: checkpoint_from_to [OF assms(1)] checkpoint_with_history)
  ultimately show ?thesis by simp
qed

text \<open>The stage has no receipt yet; a row under its key, of failed attempts, is a row of this stage.\<close>

definition not_yet_received :: "string \<Rightarrow> checkpoint_record \<Rightarrow> store \<Rightarrow> bool" where
  "not_yet_received tid ck db \<longleftrightarrow>
     effect_by_key tid (stage_effect_key ck) (so_effects db) = None \<and>
     (case row_get sr_checkpoint_id (checkpoint_key tid ck) (so_checkpoints db) of None \<Rightarrow> True
      | Some row \<Rightarrow> sr_stage row = ck_stage ck \<and> sr_stage_version row = ck_stage_version ck)"

text \<open>
  The calls that write the checkpoint row of a stage after its receipt: an unfenced checkpoint, and a
  fenced one that is not a success of this stage (a failed attempt).
\<close>

fun overwrites :: "string \<Rightarrow> checkpoint_record \<Rightarrow> store_op \<Rightarrow> bool" where
  "overwrites tid ck (Put_Checkpoint items t c) \<longleftrightarrow> checkpoint_key t c = checkpoint_key tid ck"
| "overwrites tid ck (Put_Fenced now items t c worker tok) \<longleftrightarrow> checkpoint_key t c = checkpoint_key tid ck \<and>
     \<not> (ck_status c = ''SUCCEEDED'' \<and> t = tid \<and> stage_effect_key c = stage_effect_key ck)"
| "overwrites tid ck op \<longleftrightarrow> False"

lemma put_artifact_checkpoints:
  "put_artifact env a db = Inr (stored, db') \<Longrightarrow> so_checkpoints db' = so_checkpoints db"
  by (auto simp: put_artifact_def Let_def try_bind_Inr_iff split: option.splits if_splits dest!: provenance_artifacts)

lemma put_artifacts_checkpoints: "put_artifacts env items db = Inr db' \<Longrightarrow> so_checkpoints db' = so_checkpoints db"
  by (induction items arbitrary: db) (auto simp: put_artifacts_def try_bind_Inr_iff dest!: put_artifact_checkpoints)

lemma put_rows_elsewhere:
  assumes "put_checkpoint_rows env items tid ck db = Inr db'" and "k \<noteq> checkpoint_key tid ck"
  shows "row_get sr_checkpoint_id k (so_checkpoints db') = row_get sr_checkpoint_id k (so_checkpoints db)"
proof -
  obtain mid where "put_artifacts env items db = Inr mid" and db': "db' = mid\<lparr>so_checkpoints := put_stage_row (en_clock env) tid ck (so_checkpoints mid)\<rparr>"
    using assms(1) by (auto simp: put_checkpoint_rows_def try_bind_Inr_iff)
  then have "so_checkpoints mid = so_checkpoints db" by (simp add: put_artifacts_checkpoints)
  then show ?thesis using assms(2)
    by (auto simp: db' put_stage_row_def row_get_add row_get_put Let_def split: option.splits dest: row_get_Some_key)
qed

lemma stage_row_kept:
  assumes "effect_by_key tid (stage_effect_key ck) (so_effects db) = Some e" and "\<not> overwrites tid ck op"
  shows "row_get sr_checkpoint_id (checkpoint_key tid ck) (so_checkpoints (store_step env db op)) =
    row_get sr_checkpoint_id (checkpoint_key tid ck) (so_checkpoints db)"
proof (cases "store_apply env db op")
  case (Inr db')
  have "row_get sr_checkpoint_id (checkpoint_key tid ck) (so_checkpoints db') = row_get sr_checkpoint_id (checkpoint_key tid ck) (so_checkpoints db)"
  proof (cases op)
    case (Put_Artifact a)
    with Inr put_artifact_checkpoints show ?thesis by (fastforce simp: try_bind_Inr_iff)
  next
    case (Put_Checkpoint items t c)
    with Inr assms(2) show ?thesis by (intro put_rows_elsewhere) (auto simp: put_with_checkpoint_def)
  next
    case (Put_Fenced now items t c worker tok)
    then have put: "put_with_fenced_checkpoint env now items t c worker tok db = Inr db'" using Inr by simp
    show ?thesis
    proof (cases "checkpoint_key t c = checkpoint_key tid ck")
      case True
      with assms(2) Put_Fenced have "ck_status c = ''SUCCEEDED''" "t = tid" "stage_effect_key c = stage_effect_key ck" by auto
      with fenced_cases(2) [OF put] assms(1) show ?thesis by auto
    next
      case False
      consider "put_checkpoint_rows env items t c db = Inr db'" | "db' = db"
        | mid effs where "put_checkpoint_rows env items t c db = Inr mid" "db' = mid\<lparr>so_effects := effs\<rparr>"
        using fenced_cases(2) [OF put] by blast
      then show ?thesis
      proof cases
        case 3
        with put_rows_elsewhere [OF 3(1), of "checkpoint_key tid ck"] False show ?thesis by simp
      qed (use put_rows_elsewhere [of env items t c db db' "checkpoint_key tid ck"] False in auto)
    qed
  qed (use Inr in auto)
  then show ?thesis by (simp add: store_step_def Inr)
qed (simp add: store_step_def)

lemma stage_row_kept_run:
  "effect_by_key tid (stage_effect_key ck) (so_effects db) = Some e \<Longrightarrow> \<forall>op \<in> set ops. \<not> overwrites tid ck op \<Longrightarrow>
     row_get sr_checkpoint_id (checkpoint_key tid ck) (so_checkpoints (store_run env db ops)) =
     row_get sr_checkpoint_id (checkpoint_key tid ck) (so_checkpoints db)"
  by (induction ops arbitrary: db) (simp_all add: store_run_def receipt_kept stage_row_kept)

definition inputs_hold :: "surroundings \<Rightarrow> store \<Rightarrow> checkpoint_record \<Rightarrow> bool" where
  "inputs_hold env db ck \<longleftrightarrow>
     length (ck_input_artifact_ids ck) = length (ck_input_hashes ck) \<and>
     list_all (holds (stored_in env db)) (zip (ck_input_artifact_ids ck) (ck_input_hashes ck))"


definition output_frame :: artifact where
  "output_frame = stored_frame ''frame-h''"

definition stage_args :: checkpoint_args where
  "stage_args = sample_args\<lparr>ca_input_artifact_ids := [], ca_input_hashes := [], ca_outputs := [output_frame]\<rparr>"

definition stage_checkpoint :: checkpoint_record where
  "stage_checkpoint = projr (build_checkpoint (en_hash sample_env) 5000000 stage_args)"

definition leased_store :: store where
  "leased_store = empty_store\<lparr>so_tasks := example_claimed\<rparr>"

lemma stage_built: "build_checkpoint (en_hash sample_env) 5000000 stage_args = Inr stage_checkpoint"
  by (simp add: stage_checkpoint_def build_checkpoint_def stage_args_def sample_args_def checkpoint_statuses_def Let_def)

lemma output_frame_ok: "storable sample_env output_frame" "addressed sample_env output_frame"
proof -
  show "storable sample_env output_frame" unfolding output_frame_def by (rule stored_frame_ok) code_simp
  show "addressed sample_env output_frame"
    by (simp add: addressed_def output_frame_def stored_frame_def artifact_id_of_def make_artifact_id_def
        content_hash_of_def sample_env_def)
qed

lemma leased_store_ok: "store_ok sample_env leased_store" "store_addressed sample_env leased_store"
  by (simp_all add: store_ok_def store_addressed_def leased_store_def empty_store_def keys_distinct_def)

lemma stage_checkpoint_fields:
  "ck_status stage_checkpoint = ''SUCCEEDED''" "ck_input_hashes stage_checkpoint = []" "ck_input_artifact_ids stage_checkpoint = []"
  "ck_state_checksum stage_checkpoint = checkpoint_state_checksum (en_hash sample_env) stage_checkpoint"
  by (simp_all add: stage_checkpoint_def build_checkpoint_def stage_args_def sample_args_def checkpoint_statuses_def Let_def
      checkpoint_state_checksum_def sample_env_def)

lemma stage_fresh: "not_yet_received ''t1'' stage_checkpoint leased_store"
  by (simp add: not_yet_received_def leased_store_def empty_store_def effect_by_key_def)

lemma stage_put:
  "\<exists>db'. put_with_fenced_checkpoint sample_env 5 [output_frame] ''t1'' stage_checkpoint ''a'' 1 leased_store = Inr db'"
proof -
  have "af_class output_frame \<noteq> SourceArtifact" by (simp add: output_frame_def stored_frame_def)
  then obtain mid where mid: "put_artifact sample_env output_frame leased_store = Inr (output_frame, mid)"
    using put_fresh [OF output_frame_ok(1), of leased_store] by (auto simp: leased_store_def empty_store_def)
  then have "so_effects mid = []" by (auto dest: put_artifact_effects simp: leased_store_def empty_store_def)
  moreover obtain row where "fenced_row ''t1'' ''a'' 1 5 (so_tasks leased_store) = Inr row"
    using example_fenced by (auto simp: leased_store_def)
  ultimately show ?thesis
    using mid stage_fresh stage_checkpoint_fields
    by (simp add: put_with_fenced_checkpoint_def put_checkpoint_rows_def put_artifacts_def fenced_payload_hash_def
        not_yet_received_def Let_def)
qed


theorem stage_receipt_final_witness:
  "\<exists>db' m. put_with_fenced_checkpoint sample_env 5 [output_frame] ''t1'' stage_checkpoint ''a'' 1 leased_store = Inr db' \<and>
     put_with_fenced_checkpoint sample_env 5 [output_frame] ''t1'' stage_checkpoint ''a'' 1 db' = Inr m \<and> m = db'"
proof -
  obtain db' where put: "put_with_fenced_checkpoint sample_env 5 [output_frame] ''t1'' stage_checkpoint ''a'' 1 leased_store = Inr db'"
    using stage_put by blast
  have "so_tasks db' = so_tasks leased_store"
  proof -
    obtain mid effs where "put_checkpoint_rows sample_env [output_frame] ''t1'' stage_checkpoint leased_store = Inr mid"
        "db' = mid\<lparr>so_effects := effs\<rparr>"
      using fenced_cases(2) [OF put] stage_fresh stage_checkpoint_fields(1) by (auto simp: not_yet_received_def)
    with put_checkpoint_rows_step(3) [of sample_env "[output_frame]" "''t1''" stage_checkpoint leased_store mid]
    show ?thesis using output_frame_ok leased_store_ok by simp
  qed
  moreover obtain phash e where "fenced_payload_hash (en_hash sample_env) stage_checkpoint [output_frame] = Inr phash"
      "effect_by_key ''t1'' (stage_effect_key stage_checkpoint) (so_effects db') = Some e" "fx_payload_hash e = phash"
      "fx_effect_kind e = receipt_kind"
    using fenced_cases(2) [OF put] stage_fresh stage_checkpoint_fields(1)
    by (auto simp: not_yet_received_def effect_by_key_add put_checkpoint_rows_effects stage_receipt_def)
  moreover obtain row where "fenced_row ''t1'' ''a'' 1 5 (so_tasks leased_store) = Inr row"
    using example_fenced by (auto simp: leased_store_def)
  ultimately have again: "put_with_fenced_checkpoint sample_env 5 [output_frame] ''t1'' stage_checkpoint ''a'' 1 db' = Inr db'"
    using stage_checkpoint_fields(1) by (simp add: put_with_fenced_checkpoint_def)
  from stage_receipt_final [OF put stage_checkpoint_fields(1,1) refl, where now' = 5 and items' = "[output_frame]" and
      worker' = "''a''" and tok' = 1 and ops = "[]"] again put
  show ?thesis by auto
qed

end
