(* ===== verification/Artifact_Lineage.thy ===== *)
theory Artifact_Lineage
  imports Store_Safety
begin

text \<open>
  The parent graph of stored artifacts: the lineage report of \<open>SqlArtifactRepository.lineage\<close>, and the
  closure validation of \<open>_validate_snapshot_artifacts\<close>
  (\<open>adapters/postgres/repositories/snapshot_repository.py\<close>), a worklist that loads every ancestor and a
  depth-first search for cycles. Rows may name any parents, so the graph may have cycles and gaps; the
  termination proofs count the stored ids that a path or worklist has not met.
\<close>

section \<open>The graph\<close>

definition parents_of :: "store \<Rightarrow> string \<Rightarrow> string list" where
  "parents_of db aid =
     (case row_get ar_artifact_id aid (so_artifacts db) of None \<Rightarrow> [] | Some row \<Rightarrow> ar_parent_ids row)"

definition parent_edge :: "store \<Rightarrow> (string \<times> string) set" where
  "parent_edge db = {(a, p). p \<in> set (parents_of db a)}"

definition stored_ids :: "store \<Rightarrow> string set" where
  "stored_ids db = ar_artifact_id ` set (so_artifacts db)"

definition ancestors :: "store \<Rightarrow> string set \<Rightarrow> string set" where
  "ancestors db roots = (parent_edge db)\<^sup>* `` roots"

definition acyclic_below :: "store \<Rightarrow> string set \<Rightarrow> bool" where
  "acyclic_below db roots \<longleftrightarrow> (\<forall>a \<in> ancestors db roots. (a, a) \<notin> (parent_edge db)\<^sup>+)"

lemma finite_stored_ids [simp]: "finite (stored_ids db)"
  by (simp add: stored_ids_def)

lemma stored_iff: "aid \<in> stored_ids db \<longleftrightarrow> (\<exists>row. row_get ar_artifact_id aid (so_artifacts db) = Some row)"
  using row_get_None [of ar_artifact_id aid "so_artifacts db"] by (auto simp: stored_ids_def)

lemma parents_stored: "p \<in> set (parents_of db a) \<Longrightarrow> a \<in> stored_ids db"
  by (cases "row_get ar_artifact_id a (so_artifacts db)") (auto simp: parents_of_def stored_iff)

section \<open>The lineage report\<close>

definition lineage_cycle :: "string list \<Rightarrow> string \<Rightarrow> string" where
  "lineage_cycle path cur =
     ''artifact lineage cycle detected: '' @ concat (map (\<lambda>a. a @ '' -> '') path) @ cur"

definition lineage_missing :: "string \<Rightarrow> string list \<Rightarrow> string \<Rightarrow> string" where
  "lineage_missing root path cur =
     ''artifact lineage parent missing: '' @ (if path = [] then root else last path) @ '' -> '' @ cur"

lemma try_bind_cong [fundef_cong]:
  "m = m' \<Longrightarrow> (\<And>x. m' = Inr x \<Longrightarrow> f x = g x) \<Longrightarrow> try_bind m f = try_bind m' g"
  by (cases m') simp_all

lemma get_artifact_stored: "get_artifact env aid db = Inr (Some a) \<Longrightarrow> aid \<in> stored_ids db"
  by (auto simp: get_artifact_def stored_iff split: option.splits)

lemma get_artifact_absent: "get_artifact env aid db = Inr None \<Longrightarrow> aid \<notin> stored_ids db"
  by (cases "row_get ar_artifact_id aid (so_artifacts db)") (auto simp: get_artifact_def stored_iff try_bind_Inr_iff)

text \<open>
  \<open>walk\<close> on a list of ids below one path: the trees of those that could be resolved, and the errors. The
  call on one id is the call on a singleton.
\<close>

function walk ::
  "surroundings \<Rightarrow> store \<Rightarrow> string \<Rightarrow> string list \<Rightarrow> string list \<Rightarrow> (json list \<times> string list) result" where
  "walk env db root path [] = Inr ([], [])"
| "walk env db root path (cur # rest) =
     try_bind
       (if cur \<in> set path then Inr ([], [lineage_cycle path cur])
        else try_bind (get_artifact env cur db) (\<lambda>found.
          case found of
            None \<Rightarrow> Inr ([], [lineage_missing root path cur])
          | Some a \<Rightarrow>
              try_bind (walk env db root (path @ [cur]) (sort (af_parent_ids a))) (\<lambda>(parents, errors).
                Inr ([JObj (AList.update ''parents'' (JArr parents) (serialize_artifact a))], errors))))
       (\<lambda>(tree, errors). try_bind (walk env db root path rest) (\<lambda>(trees, more).
          Inr (tree @ trees, errors @ more)))"
  by pat_completeness auto
termination
proof (relation "measures [\<lambda>(env, db, root, path, ids). card (stored_ids db - set path), \<lambda>(env, db, root, path, ids). length ids]",
    goal_cases)
  case (2 env db root path cur rest found a)
  then have "cur \<in> stored_ids db - set path" by (auto dest: get_artifact_stored)
  then have "stored_ids db - set (path @ [cur]) \<subset> stored_ids db - set path" by auto
  then show ?case by (simp add: psubset_card_mono)
qed simp_all

text \<open>\<open>lineage\<close>; a missing root gives the empty dictionary.\<close>

definition lineage :: "surroundings \<Rightarrow> store \<Rightarrow> string \<Rightarrow> pydict result" where
  "lineage env db aid =
     try_bind (get_artifact env aid db) (\<lambda>found.
       case found of
         None \<Rightarrow> Inr []
       | Some root \<Rightarrow>
           try_bind (walk env db aid [] [aid]) (\<lambda>(trees, errors).
             let artifact = (''artifact'', JObj (serialize_artifact root))
             in if errors \<noteq> []
                then Inr [artifact, (''parents'', JArr []), (''lineage'', JNull), (''lineage_complete'', JBool False),
                          (''lineage_errors'', jstrs (sort (remdups errors)))]
                else (case trees of
                        JObj tree # _ \<Rightarrow>
                          Inr [artifact, (''parents'', field ''parents'' tree), (''lineage'', JObj tree),
                               (''lineage_complete'', JBool True), (''lineage_errors'', JArr [])]
                      | _ \<Rightarrow> Inl (RuntimeError ''assertion failed''))))"

text \<open>No gap and no cycle above an id, seen from a path.\<close>

definition resolvable :: "store \<Rightarrow> string list \<Rightarrow> string \<Rightarrow> bool" where
  "resolvable db path c \<longleftrightarrow>
     (\<forall>a. (c, a) \<in> (parent_edge db)\<^sup>* \<longrightarrow> a \<in> stored_ids db \<and> a \<notin> set path \<and> (a, a) \<notin> (parent_edge db)\<^sup>+)"

lemma resolvable_step:
  "resolvable db path c \<longleftrightarrow>
     c \<in> stored_ids db \<and> c \<notin> set path \<and> (\<forall>p \<in> set (parents_of db c). resolvable db (path @ [c]) p)"
proof
  assume res: "resolvable db path c"
  have "resolvable db (path @ [c]) p" if p: "p \<in> set (parents_of db c)" for p
    unfolding resolvable_def
  proof (intro allI impI)
    fix a assume a: "(p, a) \<in> (parent_edge db)\<^sup>*"
    have "(c, p) \<in> parent_edge db" using p by (simp add: parent_edge_def)
    with a have ca: "(c, a) \<in> (parent_edge db)\<^sup>+" by (rule rtrancl_into_trancl2 [rotated])
    then have "a \<in> stored_ids db \<and> a \<notin> set path \<and> (a, a) \<notin> (parent_edge db)\<^sup>+"
      using res by (auto simp: resolvable_def dest: trancl_into_rtrancl)
    moreover have "(c, c) \<notin> (parent_edge db)\<^sup>+" using res by (auto simp: resolvable_def)
    with ca have "a \<noteq> c" by auto
    ultimately show "a \<in> stored_ids db \<and> a \<notin> set (path @ [c]) \<and> (a, a) \<notin> (parent_edge db)\<^sup>+" by simp
  qed
  with res show "c \<in> stored_ids db \<and> c \<notin> set path \<and> (\<forall>p \<in> set (parents_of db c). resolvable db (path @ [c]) p)"
    by (auto simp: resolvable_def)
next
  assume c: "c \<in> stored_ids db \<and> c \<notin> set path \<and> (\<forall>p \<in> set (parents_of db c). resolvable db (path @ [c]) p)"
  have above: "a \<in> stored_ids db \<and> a \<notin> set (path @ [c]) \<and> (a, a) \<notin> (parent_edge db)\<^sup>+" if "(c, a) \<in> (parent_edge db)\<^sup>+" for a
  proof -
    from that obtain p where "(c, p) \<in> parent_edge db" "(p, a) \<in> (parent_edge db)\<^sup>*" by (auto dest: tranclD)
    with c show ?thesis by (auto simp: parent_edge_def resolvable_def)
  qed
  show "resolvable db path c"
    unfolding resolvable_def
  proof (intro allI impI)
    fix a assume "(c, a) \<in> (parent_edge db)\<^sup>*"
    then consider "a = c" | "(c, a) \<in> (parent_edge db)\<^sup>+" by (auto simp: rtrancl_eq_or_trancl)
    then show "a \<in> stored_ids db \<and> a \<notin> set path \<and> (a, a) \<notin> (parent_edge db)\<^sup>+"
    proof cases
      case 1
      with c above [of c] show ?thesis by auto
    next
      case 2
      with above [OF 2] show ?thesis by auto
    qed
  qed
qed

lemma get_artifact_parents:
  assumes "store_ok env db" and "get_artifact env aid db = Inr (Some a)"
  shows "parents_of db aid = af_parent_ids a"
  using assms by (auto simp: get_artifact_iff parents_of_def row_of_def new_artifact_row_def)

lemma walk_reports:
  assumes "store_ok env db"
  shows "\<exists>trees errors. walk env db root path ids = Inr (trees, errors) \<and>
    (errors = [] \<longleftrightarrow> (\<forall>c \<in> set ids. resolvable db path c)) \<and>
    (errors = [] \<longrightarrow> length trees = length ids \<and> (\<forall>t \<in> set trees. \<exists>d. t = JObj d))"
  using assms
proof (induction env db root path ids rule: walk.induct)
  case (2 env db root path cur rest)
  let ?here = "if cur \<in> set path then Inr ([], [lineage_cycle path cur])
     else try_bind (get_artifact env cur db) (case_option (Inr ([], [lineage_missing root path cur]))
       (\<lambda>a. try_bind (walk env db root (path @ [cur]) (sort (af_parent_ids a))) (\<lambda>(parents, errors).
          Inr ([JObj (AList.update ''parents'' (JArr parents) (serialize_artifact a))], errors))))"
  obtain found where found: "get_artifact env cur db = Inr found" using get_artifact_total [OF 2(3)] by blast
  consider "cur \<in> set path" | "cur \<notin> set path" "found = None" | a where "cur \<notin> set path" "found = Some a" by (cases found) auto
  then have "\<exists>tree errors. ?here = Inr (tree, errors) \<and> (errors = [] \<longleftrightarrow> resolvable db path cur) \<and>
      (errors = [] \<longrightarrow> length tree = 1 \<and> (\<forall>t \<in> set tree. \<exists>d. t = JObj d))"
  proof cases
    case 1
    then show ?thesis by (simp add: resolvable_step [of db path cur])
  next
    case 2
    with found have "cur \<notin> stored_ids db" by (simp add: get_artifact_absent)
    with 2 found show ?thesis by (simp add: resolvable_step [of db path cur])
  next
    case (3 a)
    have a: "cur \<in> stored_ids db" "parents_of db cur = af_parent_ids a"
      using found 3(2) get_artifact_stored get_artifact_parents [OF 2(3)] by auto
    obtain ps errors where ps: "walk env db root (path @ [cur]) (sort (af_parent_ids a)) = Inr (ps, errors)"
      "errors = [] \<longleftrightarrow> (\<forall>c \<in> set (af_parent_ids a). resolvable db (path @ [cur]) c)"
      using "2.IH"(1) [OF 3(1) found 3(2) 2(3)] by auto
    with 3 found a show ?thesis by (auto simp: resolvable_step [of db path cur])
  qed
  then obtain tree errors where here: "?here = Inr (tree, errors)" "errors = [] \<longleftrightarrow> resolvable db path cur"
    "errors = [] \<longrightarrow> length tree = 1 \<and> (\<forall>t \<in> set tree. \<exists>d. t = JObj d)" by blast
  obtain trees more where rest: "walk env db root path rest = Inr (trees, more)"
    "more = [] \<longleftrightarrow> (\<forall>c \<in> set rest. resolvable db path c)" "more = [] \<longrightarrow> length trees = length rest \<and> (\<forall>t \<in> set trees. \<exists>d. t = JObj d)"
    using "2.IH"(2) [OF here(1) refl 2(3)] by blast
  from here(1) rest(1) have "walk env db root path (cur # rest) = Inr (tree @ trees, errors @ more)" by simp
  with here(2,3) rest(2,3) show ?case by auto
qed simp

lemma resolvable_ancestors:
  "resolvable db [] c \<longleftrightarrow> ancestors db {c} \<subseteq> stored_ids db \<and> acyclic_below db {c}"
  by (auto simp: resolvable_def ancestors_def acyclic_below_def)

text \<open>
  C26. The lineage report always comes, whatever parents the rows name, and is complete exactly when the
  ancestry is: every ancestor of the artifact is stored and none is its own ancestor. Otherwise it carries
  no tree; it is empty only for an artifact that is not stored.
\<close>

theorem lineage_decides:
  assumes "store_ok env db"
  shows "\<exists>report. lineage env db aid = Inr report \<and> (report = [] \<longleftrightarrow> aid \<notin> stored_ids db) \<and>
    (aid \<in> stored_ids db \<longrightarrow>
       field ''lineage_complete'' report = JBool (ancestors db {aid} \<subseteq> stored_ids db \<and> acyclic_below db {aid}) \<and>
       (field ''lineage'' report = JNull \<longleftrightarrow> \<not> (ancestors db {aid} \<subseteq> stored_ids db \<and> acyclic_below db {aid})))"
proof -
  obtain found where found: "get_artifact env aid db = Inr found" using get_artifact_total [OF assms] by blast
  show ?thesis
  proof (cases found)
    case None
    with found have "aid \<notin> stored_ids db" by (simp add: get_artifact_absent)
    with None found show ?thesis by (simp add: lineage_def)
  next
    case (Some a)
    have stored: "aid \<in> stored_ids db" using found Some get_artifact_stored by blast
    obtain trees errors where walk: "walk env db aid [] [aid] = Inr (trees, errors)"
      "errors = [] \<longleftrightarrow> (\<forall>c \<in> set [aid]. resolvable db [] c)"
      "errors = [] \<longrightarrow> length trees = length [aid] \<and> (\<forall>t \<in> set trees. \<exists>d. t = JObj d)"
      using walk_reports [OF assms, of aid "[]" "[aid]"] by blast
    let ?whole = "ancestors db {aid} \<subseteq> stored_ids db \<and> acyclic_below db {aid}"
    have whole: "errors = [] \<longleftrightarrow> ?whole" using walk(2) resolvable_ancestors [of db aid] by simp
    show ?thesis
    proof (cases "errors = []")
      case True
      then obtain d where d: "trees = [JObj d]" using walk(3) by (cases trees) auto
      have "lineage env db aid = Inr [(''artifact'', JObj (serialize_artifact a)), (''parents'', field ''parents'' d),
          (''lineage'', JObj d), (''lineage_complete'', JBool True), (''lineage_errors'', JArr [])]"
        using found Some walk(1) True d by (simp add: lineage_def)
      with stored whole True show ?thesis by (auto simp: field_def dict_get_def)
    next
      case False
      have "lineage env db aid = Inr [(''artifact'', JObj (serialize_artifact a)), (''parents'', JArr []), (''lineage'', JNull),
          (''lineage_complete'', JBool False), (''lineage_errors'', jstrs (sort (remdups errors)))]"
        using found Some walk(1) False by (simp add: lineage_def)
      with stored whole False show ?thesis by (auto simp: field_def dict_get_def)
    qed
  qed
qed

text \<open>An artifact that names itself as its parent.\<close>

definition self_parent :: artifact where
  "self_parent = (stored_frame ''f1'')\<lparr>af_parent_ids := [''f1'']\<rparr>"

definition self_parent_store :: store where
  "self_parent_store = empty_store\<lparr>so_artifacts := [new_artifact_row (en_hash sample_env) self_parent]\<rparr>"

lemma self_parent_store_ok: "store_ok sample_env self_parent_store"
proof -
  have "datetime_ok (Aware 0 0)" by code_simp
  then have "artifact_ok (en_hash sample_env) (en_ms sample_env) self_parent"
    using defaults_ok [of FrameArtifact]
    by (simp add: self_parent_def artifact_ok_def stored_frame_def type_registry_def body_ok_def class_body_def
        canonical_body_def del: class_defaults.simps)
  moreover have "validate_object (en_hash sample_env) self_parent = Inr (identity_hash (en_hash sample_env) self_parent)"
    by (simp add: validate_object_def validate_artifact_id_def identity_hash_def content_hash_of_def sample_env_def
        self_parent_def stored_frame_def last_part_def)
  ultimately have "row_of sample_env (new_artifact_row (en_hash sample_env) self_parent) self_parent"
    by (simp add: row_of_def storable_def)
  then show ?thesis by (auto simp: store_ok_def self_parent_store_def keys_distinct_def)
qed

theorem lineage_decides_witness:
  "\<exists>report. lineage sample_env self_parent_store ''f1'' = Inr report \<and>
     field ''lineage_complete'' report = JBool False \<and> field ''lineage'' report = JNull"
proof -
  have row: "row_get ar_artifact_id ''f1'' (so_artifacts self_parent_store) = Some (new_artifact_row (en_hash sample_env) self_parent)"
    by (simp add: self_parent_store_def new_artifact_row_def self_parent_def stored_frame_def)
  then have stored: "''f1'' \<in> stored_ids self_parent_store" by (auto simp: stored_iff)
  from row have "(''f1'', ''f1'') \<in> parent_edge self_parent_store"
    by (simp add: parent_edge_def parents_of_def new_artifact_row_def self_parent_def)
  then have "\<not> acyclic_below self_parent_store {''f1''}" by (auto simp: acyclic_below_def ancestors_def)
  with lineage_decides [OF self_parent_store_ok, of "''f1''"] stored show ?thesis by auto
qed

section \<open>Closure validation of a snapshot\<close>

definition validation_batch_size :: nat where
  "validation_batch_size = 500"

definition snapshot_error :: "string \<Rightarrow> string \<Rightarrow> exn" where
  "snapshot_error sid what = SnapshotIntegrityError (''snapshot '' @ sid @ '' '' @ what)"

text \<open>The checks of one member of the closure: its row, and the edges that its row implies.\<close>

definition expected_edges :: "(string \<Rightarrow> string) \<Rightarrow> string \<Rightarrow> string list \<Rightarrow> (string \<times> string \<times> string \<times> string) set" where
  "expected_edges H aid parents = (\<lambda>p. (H (aid @ '':'' @ p), aid, p, parent_relation)) ` set parents"

definition edges_from :: "store \<Rightarrow> string \<Rightarrow> edge_row list" where
  "edges_from db aid = filter (\<lambda>e. eg_artifact_id e = aid) (so_edges db)"

definition check_edges :: "surroundings \<Rightarrow> bool \<Rightarrow> string \<Rightarrow> store \<Rightarrow> string \<Rightarrow> string list \<Rightarrow> unit result" where
  "check_edges env legacy sid db aid parents =
     (let edges = edges_from db aid;
          actual = (\<lambda>e. (eg_edge_id e, eg_artifact_id e, eg_parent_id e, eg_relation e)) ` set edges;
          expected = expected_edges (en_hash env) aid parents
      in try_bind (ensure (edges = [] \<or> actual = expected)
           (snapshot_error sid (''artifact parent edges are inconsistent for '' @ aid))) (\<lambda>_.
         ensure (\<not> (edges = [] \<and> \<not> legacy \<and> expected \<noteq> {}))
           (snapshot_error sid (''artifact parent edges are missing for '' @ aid))))"

text \<open>\<open>None\<close> is a missing ancestor of a legacy snapshot, which is skipped.\<close>

definition check_member :: "surroundings \<Rightarrow> bool \<Rightarrow> string \<Rightarrow> store \<Rightarrow> string \<Rightarrow> string list option result" where
  "check_member env legacy sid db aid =
     (case row_get ar_artifact_id aid (so_artifacts db) of
        None \<Rightarrow> if legacy then Inr None else Inl (snapshot_error sid (''references missing artifact '' @ aid))
      | Some row \<Rightarrow>
          (case read_row env row of
             Inl _ \<Rightarrow> Inl (snapshot_error sid (''references invalid artifact '' @ aid))
           | Inr _ \<Rightarrow>
               try_bind (check_edges env legacy sid db aid (ar_parent_ids row)) (\<lambda>_. Inr (Some (ar_parent_ids row)))))"

record worklist =
  wl_pending :: "string list"
  wl_queued :: "string list"
  wl_parents :: "(string \<times> string list) list"

definition enqueue :: "string list \<Rightarrow> worklist \<Rightarrow> worklist" where
  "enqueue ids w =
     foldl (\<lambda>w p. if p \<in> set (wl_queued w) then w
       else w\<lparr>wl_pending := wl_pending w @ [p], wl_queued := wl_queued w @ [p]\<rparr>) w ids"

definition visit :: "surroundings \<Rightarrow> bool \<Rightarrow> string \<Rightarrow> store \<Rightarrow> worklist \<Rightarrow> string \<Rightarrow> worklist result" where
  "visit env legacy sid db w aid =
     try_bind (check_member env legacy sid db aid) (\<lambda>found.
       case found of
         None \<Rightarrow> Inr w
       | Some parents \<Rightarrow> Inr (enqueue parents (w\<lparr>wl_parents := AList.update aid parents (wl_parents w)\<rparr>)))"

definition visit_batch :: "surroundings \<Rightarrow> bool \<Rightarrow> string \<Rightarrow> store \<Rightarrow> worklist \<Rightarrow> worklist result" where
  "visit_batch env legacy sid db w =
     foldM (visit env legacy sid db) (w\<lparr>wl_pending := drop validation_batch_size (wl_pending w)\<rparr>)
       (take validation_batch_size (wl_pending w))"

text \<open>What termination rests on: an id is queued once, and only ids that rows name are.\<close>

definition known_ids :: "store \<Rightarrow> string set" where
  "known_ids db = \<Union> (set ` ar_parent_ids ` set (so_artifacts db))"

definition work_left :: "store \<Rightarrow> worklist \<Rightarrow> nat" where
  "work_left db w = length (wl_pending w) + card (known_ids db - set (wl_queued w))"

lemma finite_known_ids [simp]: "finite (known_ids db)"
  by (simp add: known_ids_def)

lemma enqueue_work:
  "set ids \<subseteq> known_ids db \<Longrightarrow> work_left db (enqueue ids w) = work_left db w"
proof (induction ids arbitrary: w)
  case (Cons p ids)
  let ?w = "w\<lparr>wl_pending := wl_pending w @ [p], wl_queued := wl_queued w @ [p]\<rparr>"
  show ?case
  proof (cases "p \<in> set (wl_queued w)")
    case True
    with Cons show ?thesis by (simp add: enqueue_def)
  next
    case False
    then have p: "p \<in> known_ids db - set (wl_queued w)" using Cons.prems by simp
    have "known_ids db - set (wl_queued ?w) = (known_ids db - set (wl_queued w)) - {p}" by auto
    then have "work_left db ?w = work_left db w"
      using card_Suc_Diff1 [OF _ p] by (simp add: work_left_def)
    with Cons.IH [of ?w] Cons.prems False show ?thesis by (simp add: enqueue_def)
  qed
qed (simp add: enqueue_def)

lemma visit_work:
  assumes "visit env legacy sid db w aid = Inr w'"
  shows "work_left db w' = work_left db w"
proof -
  have "set parents \<subseteq> known_ids db" if "check_member env legacy sid db aid = Inr (Some parents)" for parents
    using that by (auto simp: check_member_def known_ids_def try_bind_Inr_iff split: option.splits sum.splits if_splits
        dest: row_get_Some_key)
  with assms enqueue_work show ?thesis
    by (auto simp: visit_def try_bind_Inr_iff work_left_def split: option.splits)
qed

lemma visits_work: "foldM (visit env legacy sid db) w ids = Inr w' \<Longrightarrow> work_left db w' = work_left db w"
  by (induction ids arbitrary: w) (auto simp: try_bind_Inr_iff dest: visit_work)

lemma batch_work:
  assumes "visit_batch env legacy sid db w = Inr w'" and "wl_pending w \<noteq> []"
  shows "work_left db w' < work_left db w"
  using visits_work [OF assms(1) [unfolded visit_batch_def]] assms(2)
  by (simp add: work_left_def validation_batch_size_def)

function load_closure :: "surroundings \<Rightarrow> bool \<Rightarrow> string \<Rightarrow> store \<Rightarrow> worklist \<Rightarrow> (string \<times> string list) list result" where
  "load_closure env legacy sid db w =
     (if wl_pending w = [] then Inr (wl_parents w)
      else try_bind (visit_batch env legacy sid db w) (load_closure env legacy sid db))"
  by pat_completeness auto
termination
  by (relation "measure (\<lambda>(env, legacy, sid, db, w). work_left db w)") (simp_all add: batch_work)

declare load_closure.simps [simp del]

text \<open>
  \<open>validate_closure\<close> on a list of ids: \<open>visiting\<close> are the ids on the path of the recursion, the result
  the ids that are known to be above no cycle.
\<close>

function closure_dfs ::
  "string \<Rightarrow> (string \<times> string list) list \<Rightarrow> string list \<Rightarrow> string list \<Rightarrow> string list \<Rightarrow> string list result" where
  "closure_dfs sid parents visiting validated [] = Inr validated"
| "closure_dfs sid parents visiting validated (aid # rest) =
     try_bind
       (if aid \<in> set validated then Inr validated
        else (case map_of parents aid of
            None \<Rightarrow> Inr validated
          | Some ps \<Rightarrow>
              if aid \<in> set visiting then Inl (snapshot_error sid (''artifact parent cycle includes '' @ aid))
              else try_bind (closure_dfs sid parents (aid # visiting) validated ps) (\<lambda>above. Inr (aid # above))))
       (\<lambda>validated'. closure_dfs sid parents visiting validated' rest)"
  by pat_completeness auto
termination
proof (relation "measures [\<lambda>(sid, parents, visiting, validated, ids). card (fst ` set parents - set visiting),
    \<lambda>(sid, parents, visiting, validated, ids). length ids]", goal_cases)
  case (2 sid parents visiting validated aid rest ps)
  then have "aid \<in> fst ` set parents - set visiting" by (force dest: map_of_SomeD)
  then have "fst ` set parents - set (aid # visiting) \<subset> fst ` set parents - set visiting" by auto
  then show ?case by (simp add: psubset_card_mono)
qed simp_all

definition v1_schema :: string where
  "v1_schema = ''content.snapshot.v1''"

definition validate_snapshot_artifacts ::
  "surroundings \<Rightarrow> store \<Rightarrow> string \<Rightarrow> string \<Rightarrow> string list \<Rightarrow> unit result" where
  "validate_snapshot_artifacts env db sid schema ids =
     (let pending = first_by (\<lambda>i. i) [] ids
      in try_bind (load_closure env (schema = v1_schema) sid db
           \<lparr>wl_pending = pending, wl_queued = pending, wl_parents = []\<rparr>) (\<lambda>parents.
         try_bind (closure_dfs sid parents [] [] ids) (\<lambda>_. Inr ())))"

section \<open>What closure validation establishes\<close>

text \<open>The reference: a well-formed member, and what the worklist has established of the ids it met.\<close>

definition member_ok :: "surroundings \<Rightarrow> store \<Rightarrow> string \<Rightarrow> bool" where
  "member_ok env db aid \<longleftrightarrow>
     (\<exists>row. row_get ar_artifact_id aid (so_artifacts db) = Some row \<and> \<not> isl (read_row env row) \<and>
        (edges_from db aid = [] \<and> ar_parent_ids row = [] \<or>
         edges_from db aid \<noteq> [] \<and>
         (\<lambda>e. (eg_edge_id e, eg_artifact_id e, eg_parent_id e, eg_relation e)) ` set (edges_from db aid) =
           expected_edges (en_hash env) aid (ar_parent_ids row)))"

definition snapshot_failure :: "'a result \<Rightarrow> bool" where
  "snapshot_failure m \<longleftrightarrow> (\<exists>what. m = Inl (SnapshotIntegrityError what))"

lemma check_edges_cases:
  "check_edges env False sid db aid ps = Inr () \<longleftrightarrow>
     edges_from db aid = [] \<and> ps = [] \<or>
     edges_from db aid \<noteq> [] \<and> (\<lambda>e. (eg_edge_id e, eg_artifact_id e, eg_parent_id e, eg_relation e)) ` set (edges_from db aid) =
        expected_edges (en_hash env) aid ps"
  "check_edges env False sid db aid ps = Inr () \<or> snapshot_failure (check_edges env False sid db aid ps)"
  by (auto simp: check_edges_def expected_edges_def snapshot_failure_def snapshot_error_def ensure_def Let_def)

lemma check_member_cases:
  "(member_ok env db aid \<and> check_member env False sid db aid = Inr (Some (parents_of db aid))) \<or>
   (\<not> member_ok env db aid \<and> snapshot_failure (check_member env False sid db aid))"
proof (cases "row_get ar_artifact_id aid (so_artifacts db)")
  case None
  then show ?thesis by (simp add: check_member_def member_ok_def snapshot_failure_def snapshot_error_def)
next
  case (Some row)
  show ?thesis
  proof (cases "read_row env row")
    case (Inl e)
    with Some show ?thesis by (simp add: check_member_def member_ok_def snapshot_failure_def snapshot_error_def)
  next
    case (Inr a)
    with Some check_edges_cases [of env sid db aid "ar_parent_ids row"] show ?thesis
      by (auto simp: check_member_def member_ok_def parents_of_def snapshot_failure_def)
  qed
qed

definition worklist_ok :: "surroundings \<Rightarrow> store \<Rightarrow> string set \<Rightarrow> worklist \<Rightarrow> string list \<Rightarrow> bool" where
  "worklist_ok env db roots w ids \<longleftrightarrow>
     roots \<subseteq> set (wl_queued w) \<and> set (wl_queued w) \<subseteq> ancestors db roots \<and>
     set (wl_queued w) = set (wl_pending w) \<union> fst ` set (wl_parents w) \<union> set ids \<and>
     (\<forall>a ps. map_of (wl_parents w) a = Some ps \<longrightarrow>
        member_ok env db a \<and> ps = parents_of db a \<and> set ps \<subseteq> set (wl_queued w))"

lemma enqueue_sets:
  "set (wl_queued (enqueue ids w)) = set (wl_queued w) \<union> set ids \<and>
   set (wl_pending (enqueue ids w)) \<union> set (wl_queued w) = set (wl_pending w) \<union> set (wl_queued w) \<union> set ids \<and>
   set (wl_pending w) \<subseteq> set (wl_pending (enqueue ids w)) \<and> wl_parents (enqueue ids w) = wl_parents w"
proof (induction ids arbitrary: w)
  case (Cons p ids)
  let ?w = "if p \<in> set (wl_queued w) then w else w\<lparr>wl_pending := wl_pending w @ [p], wl_queued := wl_queued w @ [p]\<rparr>"
  have step: "enqueue (p # ids) w = enqueue ids ?w" by (simp add: enqueue_def)
  show ?case unfolding step using Cons.IH [of ?w] by (auto split: if_splits)
qed (simp add: enqueue_def)

lemma ancestors_step: "a \<in> ancestors db roots \<Longrightarrow> p \<in> set (parents_of db a) \<Longrightarrow> p \<in> ancestors db roots"
  by (auto simp: ancestors_def parent_edge_def intro: rtrancl_into_rtrancl)

lemma visit_cases:
  assumes "worklist_ok env db roots w (aid # ids)"
  shows "(member_ok env db aid \<and> (\<exists>w'. visit env False sid db w aid = Inr w' \<and> worklist_ok env db roots w' ids)) \<or>
    (\<not> member_ok env db aid \<and> aid \<in> ancestors db roots \<and> snapshot_failure (visit env False sid db w aid))"
proof (cases "member_ok env db aid")
  case True
  let ?ps = "parents_of db aid"
  let ?w = "w\<lparr>wl_parents := AList.update aid ?ps (wl_parents w)\<rparr>"
  have "visit env False sid db w aid = Inr (enqueue ?ps ?w)"
    using True check_member_cases [of env db aid sid] by (simp add: visit_def)
  moreover have "worklist_ok env db roots (enqueue ?ps ?w) ids"
  proof -
    have q: "set (wl_queued (enqueue ?ps ?w)) = set (wl_queued w) \<union> set ?ps"
        "set (wl_pending (enqueue ?ps ?w)) \<union> set (wl_queued w) = set (wl_pending w) \<union> set (wl_queued w) \<union> set ?ps"
        "set (wl_pending w) \<subseteq> set (wl_pending (enqueue ?ps ?w))"
        "wl_parents (enqueue ?ps ?w) = AList.update aid ?ps (wl_parents w)"
      using enqueue_sets [of ?ps ?w] by simp_all
    have "aid \<in> set (wl_queued w)" "set (wl_queued w) \<subseteq> ancestors db roots" using assms by (auto simp: worklist_ok_def)
    then have "set ?ps \<subseteq> ancestors db roots" using ancestors_step by blast
    moreover have "fst ` set (AList.update aid ?ps (wl_parents w)) = insert aid (fst ` set (wl_parents w))"
      by (simp add: dom_map_of_conv_image_fst [symmetric] update_conv')
    ultimately have keys: "fst ` set (wl_parents (enqueue ?ps ?w)) = insert aid (fst ` set (wl_parents w))"
      and up: "set ?ps \<subseteq> ancestors db roots" by (simp_all only: q(4))
    note ok = assms [unfolded worklist_ok_def]
    note known = ok [THEN conjunct2, THEN conjunct2, THEN conjunct2, rule_format]
    show ?thesis
      unfolding worklist_ok_def
    proof (intro conjI allI impI)
      show "roots \<subseteq> set (wl_queued (enqueue ?ps ?w))" "set (wl_queued (enqueue ?ps ?w)) \<subseteq> ancestors db roots"
        using ok q(1) up by auto
      show "set (wl_queued (enqueue ?ps ?w)) =
          set (wl_pending (enqueue ?ps ?w)) \<union> fst ` set (wl_parents (enqueue ?ps ?w)) \<union> set ids"
        unfolding keys q(1) using ok q(2,3) by auto
      fix a ps assume "map_of (wl_parents (enqueue ?ps ?w)) a = Some ps"
      then have "a = aid \<and> ps = ?ps \<or> map_of (wl_parents w) a = Some ps"
        by (simp add: q(4) update_conv' split: if_splits)
      then show "member_ok env db a" "ps = parents_of db a" "set ps \<subseteq> set (wl_queued (enqueue ?ps ?w))"
        unfolding q(1) using known [of a ps] True by auto
    qed
  qed
  ultimately show ?thesis using True by blast
next
  case False
  moreover have "aid \<in> ancestors db roots" using assms by (auto simp: worklist_ok_def)
  moreover have "snapshot_failure (visit env False sid db w aid)"
    using False check_member_cases [of env db aid sid] by (auto simp: visit_def snapshot_failure_def)
  ultimately show ?thesis by blast
qed

lemma visits_cases:
  assumes "worklist_ok env db roots w ids"
  shows "(\<exists>w'. foldM (visit env False sid db) w ids = Inr w' \<and> worklist_ok env db roots w' []) \<or>
    ((\<exists>a \<in> ancestors db roots. \<not> member_ok env db a) \<and> snapshot_failure (foldM (visit env False sid db) w ids))"
  using assms
proof (induction ids arbitrary: w)
  case (Cons aid ids)
  from visit_cases [OF Cons.prems, of sid] show ?case
  proof (elim disjE conjE exE)
    fix w' assume "visit env False sid db w aid = Inr w'" "worklist_ok env db roots w' ids"
    with Cons.IH [of w'] show ?thesis by simp
  next
    assume "\<not> member_ok env db aid" "aid \<in> ancestors db roots" "snapshot_failure (visit env False sid db w aid)"
    then show ?thesis by (auto simp: snapshot_failure_def)
  qed
qed simp

lemma key_lookup: "k \<in> fst ` set d \<Longrightarrow> \<exists>v. map_of d k = Some v"
  by (cases "map_of d k") (simp_all add: map_of_eq_None_iff)

lemma load_closure_cases:
  assumes "worklist_ok env db roots w []"
  shows "(\<exists>ps. load_closure env False sid db w = Inr ps \<and> fst ` set ps = ancestors db roots \<and>
      (\<forall>a qs. map_of ps a = Some qs \<longrightarrow> qs = parents_of db a) \<and> (\<forall>a \<in> ancestors db roots. member_ok env db a)) \<or>
    ((\<exists>a \<in> ancestors db roots. \<not> member_ok env db a) \<and> snapshot_failure (load_closure env False sid db w))"
  using assms
proof (induction "work_left db w" arbitrary: w rule: less_induct)
  case less
  show ?case
  proof (cases "wl_pending w = []")
    case True
    let ?keys = "fst ` set (wl_parents w)"
    have queued: "set (wl_queued w) = ?keys" 
      using less.prems [unfolded worklist_ok_def, THEN conjunct2, THEN conjunct2, THEN conjunct1] unfolding True by simp
    note ok = less.prems [unfolded worklist_ok_def queued]
    note keys = ok [THEN conjunct1] ok [THEN conjunct2, THEN conjunct1]
      and known = ok [THEN conjunct2, THEN conjunct2, THEN conjunct2, rule_format]
    have closed: "p \<in> ?keys" if "a \<in> ?keys" "(a, p) \<in> parent_edge db" for a p
    proof -
      obtain ps where "map_of (wl_parents w) a = Some ps" using key_lookup [OF \<open>a \<in> ?keys\<close>] by blast
      with known [OF this] that(2) show ?thesis by (auto simp: parent_edge_def)
    qed
    have "ancestors db roots \<subseteq> ?keys"
    proof
      fix a assume "a \<in> ancestors db roots"
      then obtain r where "r \<in> roots" "(r, a) \<in> (parent_edge db)\<^sup>*" by (auto simp: ancestors_def)
      from this(2) show "a \<in> ?keys"
      proof (induction rule: rtrancl_induct)
        case base
        show ?case using keys(1) \<open>r \<in> roots\<close> by (rule subsetD)
      next
        case (step a p)
        from step(3,2) show ?case by (rule closed)
      qed
    qed
    with keys(2) have "?keys = ancestors db roots" by (rule equalityI)
    moreover have "member_ok env db a" if "a \<in> ?keys" for a
    proof -
      obtain ps where "map_of (wl_parents w) a = Some ps" using key_lookup [OF \<open>a \<in> ?keys\<close>] by blast
      with known [OF this] show ?thesis by simp
    qed
    moreover have "load_closure env False sid db w = Inr (wl_parents w)"
      using True by (simp add: load_closure.simps [of _ _ _ _ w])
    moreover have "qs = parents_of db a" if "map_of (wl_parents w) a = Some qs" for a qs
      using known [OF that] by simp
    ultimately show ?thesis by blast
  next
    case False
    let ?n = validation_batch_size
    let ?w = "w\<lparr>wl_pending := drop ?n (wl_pending w)\<rparr>"
    have "set (wl_pending w) = set (take ?n (wl_pending w)) \<union> set (drop ?n (wl_pending w))"
      by (metis append_take_drop_id set_append)
    then have split: "set (wl_pending ?w) \<union> fst ` set (wl_parents w) \<union> set (take ?n (wl_pending w)) =
        set (wl_pending w) \<union> fst ` set (wl_parents w) \<union> set []" by auto
    have rest: "wl_queued ?w = wl_queued w" "wl_parents ?w = wl_parents w" by simp_all
    have "worklist_ok env db roots ?w (take ?n (wl_pending w))"
      using less.prems unfolding worklist_ok_def rest split .
    from visits_cases [OF this, of sid] show ?thesis
    proof (elim disjE exE conjE)
      fix w' assume w': "foldM (visit env False sid db) ?w (take ?n (wl_pending w)) = Inr w'" "worklist_ok env db roots w' []"
      then have batch: "visit_batch env False sid db w = Inr w'" by (simp add: visit_batch_def)
      from less.hyps [OF batch_work [OF batch False] w'(2)] batch False show ?thesis
        by (simp add: load_closure.simps [of _ _ _ _ w])
    next
      assume "\<exists>a \<in> ancestors db roots. \<not> member_ok env db a"
        "snapshot_failure (foldM (visit env False sid db) ?w (take ?n (wl_pending w)))"
      then show ?thesis using False
        by (auto simp: snapshot_failure_def visit_batch_def load_closure.simps [of _ _ _ _ w])
    qed
  qed
qed

text \<open>The invariant of the depth-first search, on a parent table that is complete for its keys.\<close>

definition table_complete :: "store \<Rightarrow> (string \<times> string list) list \<Rightarrow> bool" where
  "table_complete db ps \<longleftrightarrow>
     (\<forall>a \<in> fst ` set ps. map_of ps a = Some (parents_of db a) \<and> set (parents_of db a) \<subseteq> fst ` set ps)"

definition settled_ids :: "store \<Rightarrow> string set \<Rightarrow> bool" where
  "settled_ids db V \<longleftrightarrow> (\<forall>a \<in> V. set (parents_of db a) \<subseteq> V \<and> (a, a) \<notin> (parent_edge db)\<^sup>+)"

lemma settled_reach:
  assumes "settled_ids db V" and "a \<in> V" and "(a, b) \<in> (parent_edge db)\<^sup>*"
  shows "b \<in> V"
  using assms(3,2) by (induction rule: rtrancl_induct) (use assms(1) in \<open>auto simp: settled_ids_def parent_edge_def\<close>)

lemma settled_insert:
  assumes "settled_ids db V" and "set (parents_of db a) \<subseteq> V" and "a \<notin> V"
  shows "settled_ids db (insert a V)"
proof -
  have "(a, a) \<notin> (parent_edge db)\<^sup>+"
  proof
    assume "(a, a) \<in> (parent_edge db)\<^sup>+"
    then obtain p where "(a, p) \<in> parent_edge db" "(p, a) \<in> (parent_edge db)\<^sup>*" by (auto dest: tranclD)
    then have "a \<in> V" using assms(2) settled_reach [OF assms(1)] by (auto simp: parent_edge_def)
    with assms(3) show False by simp
  qed
  with assms(1,2) show ?thesis by (auto simp: settled_ids_def)
qed

definition cyclic_above :: "store \<Rightarrow> string set \<Rightarrow> bool" where
  "cyclic_above db ids \<longleftrightarrow> (\<exists>a \<in> ids. \<exists>b. (a, b) \<in> (parent_edge db)\<^sup>* \<and> (b, b) \<in> (parent_edge db)\<^sup>+)"

lemma closure_dfs_cases:
  assumes "table_complete db ps" and "set ids \<subseteq> fst ` set ps" and "settled_ids db (set validated)"
    and "set validated \<inter> set visiting = {}" and "\<forall>v \<in> set visiting. \<forall>a \<in> set ids. (v, a) \<in> (parent_edge db)\<^sup>+"
  shows "(\<exists>above. closure_dfs sid ps visiting validated ids = Inr above \<and> settled_ids db (set above) \<and>
      set validated \<union> set ids \<subseteq> set above \<and> set above \<inter> set visiting = {}) \<or>
    (cyclic_above db (set ids) \<and> snapshot_failure (closure_dfs sid ps visiting validated ids))"
  using assms
proof (induction sid ps visiting validated ids rule: closure_dfs.induct)
  case (2 sid ps visiting validated aid rest)
  let ?parents = "parents_of db aid"
  have row: "map_of ps aid = Some ?parents" "set ?parents \<subseteq> fst ` set ps"
    using "2.prems"(1,2) by (auto simp: table_complete_def)
  let ?here = "if aid \<in> set validated then Inr validated
     else (case map_of ps aid of None \<Rightarrow> Inr validated
       | Some qs \<Rightarrow> if aid \<in> set visiting then Inl (snapshot_error sid (''artifact parent cycle includes '' @ aid))
           else try_bind (closure_dfs sid ps (aid # visiting) validated qs) (\<lambda>above. Inr (aid # above)))"
  have "(\<exists>above. ?here = Inr above \<and> settled_ids db (set above) \<and> set validated \<union> {aid} \<subseteq> set above \<and>
      set above \<inter> set visiting = {}) \<or> (cyclic_above db {aid} \<and> snapshot_failure ?here)"
  proof (cases "aid \<in> set validated")
    case True
    with "2.prems" show ?thesis by auto
  next
    case new: False
    show ?thesis
    proof (cases "aid \<in> set visiting")
      case True
      then have "(aid, aid) \<in> (parent_edge db)\<^sup>+" using "2.prems"(5) by simp
      with new True row(1) show ?thesis
        by (auto simp: cyclic_above_def snapshot_failure_def snapshot_error_def)
    next
      case False
      have edge: "(aid, p) \<in> parent_edge db" if "p \<in> set ?parents" for p using that by (simp add: parent_edge_def)
      have path: "\<forall>v \<in> set (aid # visiting). \<forall>p \<in> set ?parents. (v, p) \<in> (parent_edge db)\<^sup>+"
        using edge "2.prems"(5) by (auto intro: trancl_into_trancl)
      from "2.IH"(1) [OF new row(1) False "2.prems"(1) row(2) "2.prems"(3) _ path] new "2.prems"(4)
      consider above where "closure_dfs sid ps (aid # visiting) validated ?parents = Inr above" "settled_ids db (set above)"
          "set validated \<union> set ?parents \<subseteq> set above" "set above \<inter> set (aid # visiting) = {}"
        | "cyclic_above db (set ?parents)" "snapshot_failure (closure_dfs sid ps (aid # visiting) validated ?parents)"
        by auto
      then show ?thesis
      proof cases
        case (1 above)
        then have "settled_ids db (insert aid (set above))" by (intro settled_insert) auto
        with 1 new False row(1) show ?thesis by auto
      next
        case 2
        have "cyclic_above db {aid}"
          using 2(1) edge by (auto simp: cyclic_above_def intro: converse_rtrancl_into_rtrancl)
        moreover have "snapshot_failure ?here" using 2(2) new False row(1) by (auto simp: snapshot_failure_def)
        ultimately show ?thesis by blast
      qed
    qed
  qed
  then consider above where "?here = Inr above" "settled_ids db (set above)" "set validated \<union> {aid} \<subseteq> set above"
      "set above \<inter> set visiting = {}" | "cyclic_above db {aid}" "snapshot_failure ?here" by blast
  then show ?case
  proof cases
    case (1 above)
    have run: "closure_dfs sid ps visiting validated (aid # rest) = closure_dfs sid ps visiting above rest"
      using 1(1) by simp
    have "set rest \<subseteq> fst ` set ps" "\<forall>v \<in> set visiting. \<forall>a \<in> set rest. (v, a) \<in> (parent_edge db)\<^sup>+"
      using "2.prems"(2,5) by simp_all
    from "2.IH"(2) [OF 1(1) "2.prems"(1) this(1) 1(2,4) this(2)] show ?thesis
    proof (elim disjE exE conjE)
      fix above' assume "closure_dfs sid ps visiting above rest = Inr above'" "settled_ids db (set above')"
        "set above \<union> set rest \<subseteq> set above'" "set above' \<inter> set visiting = {}"
      moreover from this(3) 1(3) have "set validated \<union> set (aid # rest) \<subseteq> set above'" by auto
      ultimately show ?thesis unfolding run by blast
    next
      assume "cyclic_above db (set rest)" "snapshot_failure (closure_dfs sid ps visiting above rest)"
      then show ?thesis unfolding run by (auto simp: cyclic_above_def)
    qed
  next
    case 2
    then show ?thesis by (auto simp: cyclic_above_def snapshot_failure_def)
  qed
qed auto

lemma closure_validation:
  "if (\<forall>a \<in> ancestors db (set ids). member_ok env db a) \<and> acyclic_below db (set ids)
   then validate_snapshot_artifacts env db sid ''content.snapshot.v2'' ids = Inr ()
   else snapshot_failure (validate_snapshot_artifacts env db sid ''content.snapshot.v2'' ids)"
proof -
  let ?w = "\<lparr>wl_pending = first_by (\<lambda>i. i) [] ids, wl_queued = first_by (\<lambda>i. i) [] ids, wl_parents = []\<rparr>"
  have first: "set (first_by (\<lambda>i. i) [] ids) = set ids" using first_by_keys [of "\<lambda>i. i" "[]" ids] by simp
  have "worklist_ok env db (set ids) ?w []"
    by (auto simp: worklist_ok_def first ancestors_def)
  from load_closure_cases [OF this, of sid] consider
    ps where "load_closure env False sid db ?w = Inr ps" "fst ` set ps = ancestors db (set ids)"
      "\<forall>a qs. map_of ps a = Some qs \<longrightarrow> qs = parents_of db a" "\<forall>a \<in> ancestors db (set ids). member_ok env db a"
    | "\<exists>a \<in> ancestors db (set ids). \<not> member_ok env db a" "snapshot_failure (load_closure env False sid db ?w)" by blast
  then show ?thesis
  proof cases
    case (1 ps)
    have complete: "table_complete db ps"
      unfolding table_complete_def
    proof (intro ballI conjI)
      fix a assume a: "a \<in> fst ` set ps"
      then have "map_of ps a \<noteq> None" by (metis map_of_eq_None_iff)
      with 1(3) show "map_of ps a = Some (parents_of db a)" by auto
      show "set (parents_of db a) \<subseteq> fst ` set ps" using a ancestors_step unfolding 1(2) by blast
    qed
    have ids: "set ids \<subseteq> fst ` set ps" unfolding 1(2) by (auto simp: ancestors_def)
    have validate: "validate_snapshot_artifacts env db sid ''content.snapshot.v2'' ids =
        try_bind (closure_dfs sid ps [] [] ids) (\<lambda>_. Inr ())"
      using 1(1) by (simp add: validate_snapshot_artifacts_def v1_schema_def)
    have cyclic: "cyclic_above db (set ids) \<longleftrightarrow> \<not> acyclic_below db (set ids)"
      by (auto simp: cyclic_above_def acyclic_below_def ancestors_def)
    from closure_dfs_cases [OF complete ids, of "[]" "[]" sid] consider
      above where "closure_dfs sid ps [] [] ids = Inr above" "settled_ids db (set above)" "set ids \<subseteq> set above"
      | "cyclic_above db (set ids)" "snapshot_failure (closure_dfs sid ps [] [] ids)" by (auto simp: settled_ids_def)
    then show ?thesis
    proof cases
      case (1 above)
      then have "acyclic_below db (set ids)"
        using settled_reach [OF 1(2)] by (auto simp: acyclic_below_def ancestors_def settled_ids_def)
      with 1(1) \<open>\<forall>a \<in> ancestors db (set ids). member_ok env db a\<close> show ?thesis by (simp add: validate)
    next
      case 2
      with cyclic show ?thesis by (auto simp: validate snapshot_failure_def)
    qed
  next
    case 2
    then show ?thesis by (auto simp: validate_snapshot_artifacts_def v1_schema_def snapshot_failure_def)
  qed
qed

definition closure_sound :: "surroundings \<Rightarrow> store \<Rightarrow> string list \<Rightarrow> bool" where
  "closure_sound env db ids \<longleftrightarrow> (\<forall>a \<in> ancestors db (set ids). member_ok env db a) \<and> acyclic_below db (set ids)"

text \<open>
  A frame with a parent and its edge; the same store with another relation on the edge.
\<close>

definition child_frame :: artifact where
  "child_frame = (stored_frame ''f2'')\<lparr>af_parent_ids := [''f1'']\<rparr>"

definition two_frames :: "string \<Rightarrow> store" where
  "two_frames relation = empty_store\<lparr>
     so_artifacts := map (new_artifact_row (en_hash sample_env)) [stored_frame ''f1'', child_frame],
     so_edges := [\<lparr>eg_edge_id = en_hash sample_env ''f2:f1'', eg_artifact_id = ''f2'', eg_parent_id = ''f1'',
       eg_relation = relation\<rparr>]\<rparr>"

lemma child_frame_row: "row_of sample_env (new_artifact_row (en_hash sample_env) child_frame) child_frame"
proof -
  have "datetime_ok (Aware 0 0)" by code_simp
  then have "artifact_ok (en_hash sample_env) (en_ms sample_env) child_frame"
    using defaults_ok [of FrameArtifact]
    by (simp add: child_frame_def artifact_ok_def stored_frame_def type_registry_def body_ok_def class_body_def
        canonical_body_def del: class_defaults.simps)
  moreover have "validate_object (en_hash sample_env) child_frame = Inr (identity_hash (en_hash sample_env) child_frame)"
    by (simp add: validate_object_def validate_artifact_id_def identity_hash_def content_hash_of_def sample_env_def
        child_frame_def stored_frame_def last_part_def)
  ultimately show ?thesis by (simp add: row_of_def storable_def)
qed

lemma first_frame_row: "row_of sample_env (new_artifact_row (en_hash sample_env) (stored_frame ''f1'')) (stored_frame ''f1'')"
  using stored_frame_ok [of "''f1''"] by (simp add: row_of_def) (code_simp)

lemma two_frames_lookup:
  "row_get ar_artifact_id ''f1'' (so_artifacts (two_frames r)) = Some (new_artifact_row (en_hash sample_env) (stored_frame ''f1''))"
  "row_get ar_artifact_id ''f2'' (so_artifacts (two_frames r)) = Some (new_artifact_row (en_hash sample_env) child_frame)"
  by (simp_all add: two_frames_def new_artifact_row_def stored_frame_def child_frame_def)

lemma two_frames_parents: "parents_of (two_frames r) ''f1'' = []" "parents_of (two_frames r) ''f2'' = [''f1'']"
  using two_frames_lookup [of r]
  by (simp_all add: parents_of_def new_artifact_row_def stored_frame_def child_frame_def)

lemma two_frames_edges: "(''f1'', a) \<notin> parent_edge (two_frames r)" "(''f2'', a) \<in> parent_edge (two_frames r) \<longleftrightarrow> a = ''f1''"
  by (simp_all add: parent_edge_def two_frames_parents)

lemma two_frames_ancestors: "ancestors (two_frames r) {''f2''} = {''f1'', ''f2''}"
proof -
  have "a = ''f2'' \<or> a = ''f1''" if "(''f2'', a) \<in> (parent_edge (two_frames r))\<^sup>*" for a
    using that by (induction rule: rtrancl_induct) (auto simp: two_frames_edges)
  moreover have "(''f2'', ''f1'') \<in> (parent_edge (two_frames r))\<^sup>*" by (simp add: r_into_rtrancl two_frames_edges)
  ultimately show ?thesis by (auto simp: ancestors_def)
qed

lemma two_frames_acyclic: "acyclic_below (two_frames r) {''f2''}"
proof -
  have "(''f1'', a) \<notin> (parent_edge (two_frames r))\<^sup>+" for a
    using tranclD [of "''f1''" a "parent_edge (two_frames r)"] two_frames_edges(1) by blast
  moreover have "(''f2'', a) \<in> (parent_edge (two_frames r))\<^sup>+ \<Longrightarrow> a = ''f1''" for a
    by (induction rule: trancl_induct) (auto simp: two_frames_edges)
  ultimately show ?thesis unfolding acyclic_below_def two_frames_ancestors by force
qed

lemma two_frames_sound: "closure_sound sample_env (two_frames r) [''f2''] \<longleftrightarrow> r = ''PARENT''"
proof -
  have "member_ok sample_env (two_frames r) ''f1''"
    using read_row_of [OF first_frame_row] two_frames_lookup(1) [of r]
    by (simp add: member_ok_def edges_from_def two_frames_def new_artifact_row_def stored_frame_def)
  moreover have "member_ok sample_env (two_frames r) ''f2'' \<longleftrightarrow> r = ''PARENT''"
    using read_row_of [OF child_frame_row] two_frames_lookup(2) [of r]
    by (simp add: member_ok_def edges_from_def two_frames_def new_artifact_row_def child_frame_def
        expected_edges_def parent_relation_def)
  ultimately show ?thesis by (simp add: closure_sound_def two_frames_ancestors two_frames_acyclic)
qed

text \<open>
  C27. Closure validation decides what it is for. For a current snapshot it returns normally exactly when
  every ancestor of the listed artifacts is stored with a valid row and with exactly the edges that the
  row implies (their ids, ends and \<open>PARENT\<close> relation; no edge at all where the row has no parent), and
  none is its own ancestor; otherwise it raises \<open>SnapshotIntegrityError\<close>. It terminates on
  every store, cyclic parents included.
\<close>

theorem closure_validation_decides:
  "if closure_sound env db ids
   then validate_snapshot_artifacts env db sid ''content.snapshot.v2'' ids = Inr ()
   else snapshot_failure (validate_snapshot_artifacts env db sid ''content.snapshot.v2'' ids)"
  unfolding closure_sound_def by (rule closure_validation)

theorem closure_validation_decides_witness:
  "validate_snapshot_artifacts sample_env (two_frames ''PARENT'') ''s'' ''content.snapshot.v2'' [''f2''] = Inr () \<and>
   snapshot_failure (validate_snapshot_artifacts sample_env (two_frames ''DERIVED'') ''s'' ''content.snapshot.v2'' [''f2''])"
  using closure_validation_decides [of sample_env "two_frames ''PARENT''" "[''f2'']" "''s''"]
    closure_validation_decides [of sample_env "two_frames ''DERIVED''" "[''f2'']" "''s''"]
  by (simp add: two_frames_sound)

end
