(* ===== verification/Snapshot_Store.thy ===== *)
theory Snapshot_Store
  imports Snapshot Artifact_Lineage Source_Head
begin

text \<open>
  The store of content snapshots (\<open>adapters/postgres/repositories/snapshot_repository.py\<close>): the validation of a
  stored or offered identity against its redundant columns, of the membership rows and of the provenance,
  the comparison of a replay with the stored row, the two writers, and reading back. A call that raises leaves
  the archive as it was, as the transaction around it is rolled back.
\<close>

section \<open>Rows\<close>

record snapshot_row =
  sn_id :: string
  sn_source_type :: string
  sn_source_ref :: string
  sn_source_content_hash :: string
  sn_identity :: pydict
  sn_artifact_ids :: "(string \<times> string) list"
  sn_quant_market_snapshot_ids :: "string list"
  sn_pipeline_version :: string
  sn_schema_version :: string
  sn_code_sha :: "string option"
  sn_config_hash :: "string option"
  sn_created_at :: pydt
  sn_source_artifact_id :: "string option"
  sn_artifact_root_hash :: "string option"
  sn_snapshot_kind :: string
  sn_parent_snapshot_id :: "string option"
  sn_supersedes_snapshot_id :: "string option"
  sn_producer_manifest :: pydict
  sn_lifecycle_artifact_id :: "string option"

record member_row =
  sm_member_id :: string
  sm_content_snapshot_id :: string
  sm_artifact_id :: string
  sm_slot :: string
  sm_artifact_role :: string

record archive =
  rc_store :: store
  rc_snapshots :: "snapshot_row list"
  rc_members :: "member_row list"
  rc_heads :: "source_head list"

section \<open>Identity and redundant columns\<close>

text \<open>\<open>_ROW_IDENTITY_FIELDS\<close> of a row and of an offered snapshot.\<close>

definition row_columns :: "snapshot_row \<Rightarrow> pydict" where
  "row_columns row =
     [(''source_type'', JStr (sn_source_type row)), (''source_ref'', JStr (sn_source_ref row)),
      (''source_content_hash'', JStr (sn_source_content_hash row)), (''artifact_ids'', jstr_dict (sn_artifact_ids row)),
      (''quant_market_snapshot_ids'', jstrs (sn_quant_market_snapshot_ids row)),
      (''pipeline_version'', JStr (sn_pipeline_version row)), (''schema_version'', JStr (sn_schema_version row)),
      (''code_sha'', jstr_opt (sn_code_sha row)), (''config_hash'', jstr_opt (sn_config_hash row)),
      (''source_artifact_id'', jstr_opt (sn_source_artifact_id row)),
      (''artifact_root_hash'', jstr_opt (sn_artifact_root_hash row)), (''snapshot_kind'', JStr (sn_snapshot_kind row)),
      (''parent_snapshot_id'', jstr_opt (sn_parent_snapshot_id row)),
      (''supersedes_snapshot_id'', jstr_opt (sn_supersedes_snapshot_id row)),
      (''producer_manifest'', JObj (sn_producer_manifest row))]"

definition snapshot_columns :: "snapshot \<Rightarrow> pydict" where
  "snapshot_columns s =
     [(''source_type'', JStr (cs_source_type s)), (''source_ref'', JStr (cs_source_ref s)),
      (''source_content_hash'', JStr (cs_source_content_hash s)), (''artifact_ids'', jstr_dict (cs_artifact_ids s)),
      (''quant_market_snapshot_ids'', jstrs (cs_quant_market_snapshot_ids s)),
      (''pipeline_version'', JStr (cs_pipeline_version s)), (''schema_version'', JStr (cs_schema_version s)),
      (''code_sha'', JStr (cs_code_sha s)), (''config_hash'', JStr (cs_config_hash s)),
      (''source_artifact_id'', JStr (cs_source_artifact_id s)),
      (''artifact_root_hash'', JStr (cs_artifact_root_hash s)), (''snapshot_kind'', JStr (cs_snapshot_kind s)),
      (''parent_snapshot_id'', jstr_opt (cs_parent_snapshot_id s)),
      (''supersedes_snapshot_id'', jstr_opt (cs_supersedes_snapshot_id s)),
      (''producer_manifest'', JObj (cs_producer_manifest s))]"

definition additive_identity_fields :: "string list" where
  "additive_identity_fields =
     [''source_artifact_id'', ''artifact_root_hash'', ''snapshot_kind'', ''parent_snapshot_id'',
      ''supersedes_snapshot_id'', ''producer_manifest'', ''model_versions'', ''prompt_versions'', ''configuration'',
      ''external_snapshots'', ''policy_versions'']"

definition core_identity_fields :: "string list" where
  "core_identity_fields =
     [''content_snapshot_id'', ''source_type'', ''source_ref'', ''source_content_hash'', ''artifact_ids'',
      ''quant_market_snapshot_ids'', ''pipeline_version'', ''schema_version'', ''code_sha'', ''config_hash'',
      ''parser_version'', ''asr_model'', ''asr_model_version'', ''vision_model'', ''llm_model'',
      ''prompt_bundle_version'', ''entity_alias_version'', ''verification_policy_version'']"

definition required_identity_fields :: "string \<Rightarrow> string list option" where
  "required_identity_fields schema =
     (if schema = v1_schema then Some core_identity_fields
      else if schema = v2_schema then Some (core_identity_fields @ additive_identity_fields) else None)"

definition canonical_equal :: "json \<Rightarrow> json \<Rightarrow> bool" where
  "canonical_equal left right \<longleftrightarrow> canonical_json left = canonical_json right"

text \<open>\<open>"" if value is None else str(value)\<close>.\<close>

definition text_or_empty :: "json \<Rightarrow> string" where
  "text_or_empty v = (if v = JNull then [] else py_str v)"

definition check_aligned :: "string \<Rightarrow> string \<Rightarrow> string \<Rightarrow> string \<Rightarrow> unit result" where
  "check_aligned sid what outer nested =
     ensure (\<not> ((outer \<noteq> [] \<or> nested \<noteq> []) \<and> (outer = [] \<or> nested = [] \<or> outer \<noteq> nested)))
       (snapshot_error sid (what @ '' disagrees with producer_manifest''))"

definition validate_provenance_alignment :: "string \<Rightarrow> string \<Rightarrow> json \<Rightarrow> json \<Rightarrow> json \<Rightarrow> unit result" where
  "validate_provenance_alignment sid schema code config producer_manifest =
     try_bind (object_or_empty (snapshot_error sid ''producer_manifest must be an object'') producer_manifest) (\<lambda>manifest.
     try_bind (object_or_empty (snapshot_error sid ''producer_manifest.configs must be an object'') (field ''configs'' manifest))
       (\<lambda>configs.
        if schema = v1_schema \<and> manifest = [] then Inr ()
        else try_bind (check_aligned sid ''code_sha'' (text_or_empty code) (text_or_empty (field ''code_sha'' manifest))) (\<lambda>_.
          check_aligned sid ''config_hash'' (text_or_empty config) (text_or_empty (field ''config_hash'' configs)))))"

text \<open>The message lists the missing names in the way Python prints a list.\<close>

definition py_list :: "string list \<Rightarrow> string" where
  "py_list ss = ''['' @ concat (map (\<lambda>(i, s). (if i = (0 :: nat) then [] else '', '') @ [CHR 0x27] @ s @ [CHR 0x27])
     (enumerate 0 ss)) @ '']''"

definition check_column :: "string \<Rightarrow> pydict \<Rightarrow> string \<times> json \<Rightarrow> unit result" where
  "check_column sid identity column =
     (case dict_get (fst column) identity of
        None \<Rightarrow> Inr ()
      | Some v \<Rightarrow> ensure (canonical_equal v (snd column))
          (snapshot_error sid (''identity field '' @ [CHR 0x27] @ fst column @ [CHR 0x27] @
             '' disagrees with its redundant column'')))"

definition validate_identity ::
  "(string \<Rightarrow> string) \<Rightarrow> string \<Rightarrow> pydict \<Rightarrow> pydict \<Rightarrow> string \<Rightarrow> (string \<times> string) list \<Rightarrow> unit result" where
  "validate_identity H sid identity columns schema ids =
     try_bind (ensure (field ''schema_version'' identity = JStr schema)
       (snapshot_error sid ''identity schema does not match the row'')) (\<lambda>_.
     case required_identity_fields schema of
       None \<Rightarrow> Inl (snapshot_error sid (''has unsupported schema '' @ [CHR 0x27] @ schema @ [CHR 0x27]))
     | Some required \<Rightarrow>
         let missing = filter (\<lambda>k. dict_get k identity = None) required;
             sid' = field ''content_snapshot_id'' identity;
             source = text_or_empty (field ''source_artifact_id'' columns); slot = str_get ''source'' ids;
             root = text_or_empty (field ''artifact_root_hash'' columns)
         in try_bind (ensure (missing = [])
              (snapshot_error sid (''identity is missing required fields: '' @ py_list (sort missing)))) (\<lambda>_.
            try_bind (ensure (sid' = JNull \<or> py_str sid' = sid)
              (snapshot_error sid ''identity id does not match the row id'')) (\<lambda>_.
            try_bind (mapM (check_column sid identity) columns) (\<lambda>_.
            try_bind (ensure (source = [] \<or> slot = [] \<or> source = slot)
              (snapshot_error sid ''source artifact does not match artifact_ids'')) (\<lambda>_.
            try_bind (ensure (root = [] \<or> root = compute_artifact_root_hash H ids)
              (snapshot_error sid ''artifact root does not match artifact_ids'')) (\<lambda>_.
            validate_provenance_alignment sid schema (field ''code_sha'' columns) (field ''config_hash'' columns)
              (field ''producer_manifest'' columns)))))))"

section \<open>Membership\<close>

definition member_id :: "(string \<Rightarrow> string) \<Rightarrow> string \<Rightarrow> string \<Rightarrow> string \<Rightarrow> string" where
  "member_id H sid slot aid = H (sid @ '':'' @ slot @ '':'' @ aid)"

definition expected_members :: "(string \<Rightarrow> string) \<Rightarrow> string \<Rightarrow> (string \<times> string) list \<Rightarrow> (string \<times> string \<times> string) set" where
  "expected_members H sid ids = (\<lambda>(slot, aid). (member_id H sid slot aid, aid, slot)) ` set ids"

definition members_of :: "member_row list \<Rightarrow> string \<Rightarrow> (string \<times> string \<times> string) list" where
  "members_of members sid =
     map (\<lambda>m. (sm_member_id m, sm_artifact_id m, sm_slot m)) (filter (\<lambda>m. sm_content_snapshot_id m = sid) members)"

definition is_legacy_identity :: "pydict \<Rightarrow> snapshot_row \<Rightarrow> bool" where
  "is_legacy_identity identity row \<longleftrightarrow>
     sn_schema_version row = v1_schema \<and> field ''schema_version'' identity = JStr v1_schema"

definition validate_snapshot_members :: "(string \<Rightarrow> string) \<Rightarrow> snapshot_row \<Rightarrow> member_row list \<Rightarrow> unit result" where
  "validate_snapshot_members H row members =
     (let found = members_of members (sn_id row)
      in if found = [] \<and> is_legacy_identity (sn_identity row) row then Inr ()
         else ensure (distinct found \<and> set found = expected_members H (sn_id row) (sn_artifact_ids row))
           (snapshot_error (sn_id row) ''artifact membership is inconsistent''))"

definition validate_snapshot_row :: "surroundings \<Rightarrow> archive \<Rightarrow> snapshot_row \<Rightarrow> unit result" where
  "validate_snapshot_row env db row =
     try_bind (validate_identity (en_hash env) (sn_id row) (sn_identity row) (row_columns row) (sn_schema_version row)
       (sn_artifact_ids row)) (\<lambda>_.
     try_bind (validate_snapshot_members (en_hash env) row (rc_members db)) (\<lambda>_.
     validate_snapshot_artifacts env (rc_store db) (sn_id row) (sn_schema_version row) (map snd (sn_artifact_ids row))))"

definition validate_snapshot_candidate :: "(string \<Rightarrow> string) \<Rightarrow> snapshot \<Rightarrow> pydict result" where
  "validate_snapshot_candidate H s =
     try_bind (snapshot_payload s) (\<lambda>payload.
     try_bind (validate_identity H (cs_id s) payload (snapshot_columns s) (cs_schema_version s) (cs_artifact_ids s)) (\<lambda>_.
     Inr payload))"

section \<open>Replays\<close>

definition different_payload :: "string \<Rightarrow> exn" where
  "different_payload sid = SnapshotIntegrityError (''snapshot id '' @ sid @ '' already stores a different payload'')"

definition compare_entry :: "string \<Rightarrow> bool \<Rightarrow> pydict \<Rightarrow> string \<times> json \<Rightarrow> unit result" where
  "compare_entry sid legacy candidate entry =
     (case dict_get (fst entry) candidate of
        None \<Rightarrow> ensure (legacy \<and> fst entry \<in> set additive_identity_fields) (different_payload sid)
      | Some v \<Rightarrow> ensure (canonical_equal (snd entry) v) (different_payload sid))"

definition compare_existing_identity :: "string \<Rightarrow> pydict \<Rightarrow> pydict \<Rightarrow> unit result" where
  "compare_existing_identity sid existing candidate =
     (let existing = dict_drop [''created_at''] existing; candidate = dict_drop [''created_at''] candidate;
          legacy = (field ''schema_version'' existing = JStr v1_schema)
      in try_bind (mapM (compare_entry sid legacy candidate) existing) (\<lambda>_. Inr ()))"

definition compare_redundant :: "string \<Rightarrow> pydict \<Rightarrow> pydict \<Rightarrow> pydict \<Rightarrow> string \<Rightarrow> unit result" where
  "compare_redundant sid identity candidate existing key =
     (if dict_get key identity = None
      then ensure (field ''schema_version'' identity = JStr v1_schema \<and> key \<in> set additive_identity_fields)
        (SnapshotIntegrityError (''snapshot id '' @ sid @ '' identity omitted redundant column '' @ [CHR 0x27] @ key @ [CHR 0x27]))
      else ensure (canonical_equal (field key candidate) (field key existing))
        (SnapshotIntegrityError (''snapshot id '' @ sid @ '' redundant column '' @ [CHR 0x27] @ key @ [CHR 0x27] @ '' changed'')))"

definition compare_candidate_to_existing_row :: "snapshot \<Rightarrow> snapshot_row \<Rightarrow> unit result" where
  "compare_candidate_to_existing_row s row =
     try_bind (mapM (compare_redundant (cs_id s) (sn_identity row) (snapshot_columns s) (row_columns row))
       (map fst (row_columns row))) (\<lambda>_. Inr ())"

section \<open>Writing\<close>

definition new_snapshot_row :: "pydict \<Rightarrow> snapshot \<Rightarrow> snapshot_row" where
  "new_snapshot_row payload s =
     \<lparr>sn_id = cs_id s, sn_source_type = cs_source_type s, sn_source_ref = cs_source_ref s,
      sn_source_content_hash = cs_source_content_hash s, sn_identity = payload, sn_artifact_ids = cs_artifact_ids s,
      sn_quant_market_snapshot_ids = cs_quant_market_snapshot_ids s, sn_pipeline_version = cs_pipeline_version s,
      sn_schema_version = cs_schema_version s, sn_code_sha = Some (cs_code_sha s),
      sn_config_hash = Some (cs_config_hash s), sn_created_at = cs_created_at s,
      sn_source_artifact_id = Some (cs_source_artifact_id s), sn_artifact_root_hash = Some (cs_artifact_root_hash s),
      sn_snapshot_kind = cs_snapshot_kind s, sn_parent_snapshot_id = cs_parent_snapshot_id s,
      sn_supersedes_snapshot_id = cs_supersedes_snapshot_id s, sn_producer_manifest = cs_producer_manifest s,
      sn_lifecycle_artifact_id = map_of (cs_artifact_ids s) ''lifecycle''\<rparr>"

definition upper_char :: "char \<Rightarrow> char" where
  "upper_char c = (if is_lower c then char_of ((of_char c :: nat) - 32) else c)"

definition new_member :: "(string \<Rightarrow> string) \<Rightarrow> string \<Rightarrow> string \<times> string \<Rightarrow> member_row" where
  "new_member H sid entry =
     \<lparr>sm_member_id = member_id H sid (fst entry) (snd entry), sm_content_snapshot_id = sid,
      sm_artifact_id = snd entry, sm_slot = fst entry, sm_artifact_role = map upper_char (fst entry)\<rparr>"

definition insert_member_ignore :: "member_row list \<Rightarrow> member_row \<Rightarrow> member_row list" where
  "insert_member_ignore members m =
     (if row_get sm_member_id (sm_member_id m) members \<noteq> None then members else row_add m members)"

definition source_identity_hash :: "(string \<Rightarrow> string) \<Rightarrow> snapshot \<Rightarrow> string" where
  "source_identity_hash H s = H (cs_source_type s @ '':'' @ cs_source_ref s)"

definition insert_snapshot_ignore :: "snapshot_row \<Rightarrow> snapshot_row list \<Rightarrow> snapshot_row list" where
  "insert_snapshot_ignore row rows = (if row_get sn_id (sn_id row) rows \<noteq> None then rows else row_add row rows)"

text \<open>
  The body that \<open>save\<close> and \<open>_save_in_session\<close> share. The second validates the row after every write
  (\<open>always\<close>), the first only after an insertion.
\<close>

definition write_snapshot :: "bool \<Rightarrow> surroundings \<Rightarrow> snapshot \<Rightarrow> pydict \<Rightarrow> archive \<Rightarrow> archive result" where
  "write_snapshot always env s payload db =
     (let H = en_hash env; sid = cs_id s
      in try_bind (validate_snapshot_artifacts env (rc_store db) sid (cs_schema_version s) (map snd (cs_artifact_ids s))) (\<lambda>_.
         let inserted = (row_get sn_id sid (rc_snapshots db) = None);
             db = db\<lparr>rc_snapshots := insert_snapshot_ignore (new_snapshot_row payload s) (rc_snapshots db)\<rparr>
         in case row_get sn_id sid (rc_snapshots db) of
              None \<Rightarrow> Inl (RuntimeError ''snapshot disappeared after a unique-key conflict'')
            | Some row \<Rightarrow>
                try_bind (if inserted then Inr () else
                  try_bind (validate_snapshot_row env db row) (\<lambda>_.
                  try_bind (compare_existing_identity sid (sn_identity row) payload) (\<lambda>_.
                  compare_candidate_to_existing_row s row))) (\<lambda>_.
                let db = db\<lparr>rc_members := foldl insert_member_ignore (rc_members db) (map (new_member H sid) (cs_artifact_ids s))\<rparr>
                in try_bind (if inserted \<or> always then validate_snapshot_row env db row else Inr ()) (\<lambda>_.
                   let source = source_identity_hash H s
                   in if inserted \<or> row_get sh_source_identity_hash source (rc_heads db) = None
                      then Inr (db\<lparr>rc_heads := snapshot_upsert_head source sid (instant_of (cs_created_at s)) (rc_heads db)\<rparr>)
                      else Inr db))))"

definition save_in_session :: "surroundings \<Rightarrow> snapshot \<Rightarrow> pydict \<Rightarrow> archive \<Rightarrow> archive result" where
  "save_in_session = write_snapshot True"

definition save_snapshot :: "surroundings \<Rightarrow> snapshot \<Rightarrow> archive \<Rightarrow> (snapshot \<times> archive) result" where
  "save_snapshot env s db =
     try_bind (validate_snapshot_candidate (en_hash env) s) (\<lambda>payload.
     try_bind (write_snapshot False env s payload db) (\<lambda>db'. Inr (s, db')))"

section \<open>Reading\<close>

definition json_list :: "json \<Rightarrow> string list" where
  "json_list v = (case v of JArr xs \<Rightarrow> map py_str xs | _ \<Rightarrow> [])"

definition json_dict :: "json \<Rightarrow> pydict" where
  "json_dict v = (case v of JObj d \<Rightarrow> d | _ \<Rightarrow> [])"

definition json_str_dict :: "json \<Rightarrow> (string \<times> string) list" where
  "json_str_dict v = map (\<lambda>(k, v). (k, py_str v)) (json_dict v)"

definition text_or :: "json \<Rightarrow> string \<Rightarrow> string" where
  "text_or v d = (if py_truthy v then py_str v else d)"

definition text_option :: "json \<Rightarrow> string option \<Rightarrow> string option" where
  "text_option v d = (if py_truthy v then Some (py_str v) else d)"

definition snapshot_time :: "snapshot_row \<Rightarrow> pydt result" where
  "snapshot_time row =
     (case field ''created_at'' (sn_identity row) of
        JStr t \<Rightarrow> try_bind (from_isoformat t) (\<lambda>parsed. Inr (as_utc parsed))
      | _ \<Rightarrow> Inr (sn_created_at row))"

definition row_to_snapshot :: "surroundings \<Rightarrow> archive \<Rightarrow> snapshot_row \<Rightarrow> snapshot result" where
  "row_to_snapshot env db row =
     try_bind (validate_snapshot_row env db row) (\<lambda>_.
     try_bind (snapshot_time row) (\<lambda>created_at.
     let get = (\<lambda>k. field k (sn_identity row)) in
     Inr \<lparr>cs_id = sn_id row, cs_source_type = sn_source_type row, cs_source_ref = sn_source_ref row,
       cs_source_content_hash = sn_source_content_hash row,
       cs_source_artifact_id = text_or (get ''source_artifact_id'') (str_or (sn_source_artifact_id row) []),
       cs_artifact_root_hash = text_or (get ''artifact_root_hash'') (str_or (sn_artifact_root_hash row) []),
       cs_parser_version = get ''parser_version'', cs_asr_model = get ''asr_model'',
       cs_asr_model_version = get ''asr_model_version'', cs_vision_model = get ''vision_model'',
       cs_llm_model = get ''llm_model'',
       cs_prompt_bundle_version = text_or (get ''prompt_bundle_version'') ''prompt_bundle.v1'',
       cs_entity_alias_version = text_or (get ''entity_alias_version'') ''entity_alias.v1'',
       cs_verification_policy_version = text_or (get ''verification_policy_version'') ''verification_policy.v1'',
       cs_quant_market_snapshot_ids = json_list (get ''quant_market_snapshot_ids''),
       cs_code_sha = text_or (get ''code_sha'') [], cs_config_hash = text_or (get ''config_hash'') [],
       cs_pipeline_version = text_or (get ''pipeline_version'') (sn_pipeline_version row),
       cs_schema_version = text_or (get ''schema_version'') (sn_schema_version row),
       cs_artifact_ids = json_str_dict (get ''artifact_ids''),
       cs_snapshot_kind = text_or (get ''snapshot_kind'') (if sn_snapshot_kind row = [] then ''INITIAL'' else sn_snapshot_kind row),
       cs_parent_snapshot_id = text_option (get ''parent_snapshot_id'') (sn_parent_snapshot_id row),
       cs_supersedes_snapshot_id = text_option (get ''supersedes_snapshot_id'') (sn_supersedes_snapshot_id row),
       cs_producer_manifest = (if json_dict (get ''producer_manifest'') = [] then sn_producer_manifest row
         else json_dict (get ''producer_manifest'')),
       cs_model_versions = json_dict (get ''model_versions''), cs_prompt_versions = json_dict (get ''prompt_versions''),
       cs_configuration = json_dict (get ''configuration''), cs_external_snapshots = json_list (get ''external_snapshots''),
       cs_policy_versions = json_dict (get ''policy_versions''), cs_created_at = created_at\<rparr>))"

definition get_snapshot :: "surroundings \<Rightarrow> string \<Rightarrow> archive \<Rightarrow> snapshot option result" where
  "get_snapshot env sid db =
     (case row_get sn_id sid (rc_snapshots db) of
        None \<Rightarrow> Inr None
      | Some row \<Rightarrow> try_bind (row_to_snapshot env db row) (\<lambda>s. Inr (Some s)))"

definition list_for_source :: "surroundings \<Rightarrow> string \<Rightarrow> string \<Rightarrow> archive \<Rightarrow> snapshot list result" where
  "list_for_source env ty ref db =
     mapM (row_to_snapshot env db) (sort_key (\<lambda>row. instant_of (sn_created_at row))
       (filter (\<lambda>row. sn_source_type row = ty \<and> sn_source_ref row = ref) (rc_snapshots db)))"

end
