(* ===== verification/Archive_Safety.thy ===== *)
theory Archive_Safety
  imports Snapshot_Store
begin

text \<open>
  Snapshots under all writers of the archive: saves of snapshots, interleaved with the writes of the artifact
  repository. What was validated once stays valid, so a stored snapshot reads back unchanged for ever.
\<close>

section \<open>The provenance of a stored artifact stays valid\<close>

definition keeps_closure :: "surroundings \<Rightarrow> store \<Rightarrow> store \<Rightarrow> bool" where
  "keeps_closure env db db' \<longleftrightarrow> keeps_artifacts env db db' \<and> (\<forall>aid. member_ok env db aid \<longrightarrow> member_ok env db' aid)"

lemma closure_refl: "store_ok env db \<Longrightarrow> keeps_closure env db db"
  by (simp add: keeps_closure_def artifacts_refl)

lemma closure_trans: "keeps_closure env db1 db2 \<Longrightarrow> keeps_closure env db2 db3 \<Longrightarrow> keeps_closure env db1 db3"
  by (simp add: keeps_closure_def artifacts_trans [of env db1 db2 db3])

definition edge_entries :: "edge_row list \<Rightarrow> string \<Rightarrow> (string \<times> string \<times> string \<times> string) set" where
  "edge_entries edges aid =
     (\<lambda>e. (eg_edge_id e, eg_artifact_id e, eg_parent_id e, eg_relation e)) ` set (filter (\<lambda>e. eg_artifact_id e = aid) edges)"

lemma edge_entries_add:
  "edge_entries (row_add e edges) aid =
     edge_entries edges aid \<union> (if eg_artifact_id e = aid then {(eg_edge_id e, eg_artifact_id e, eg_parent_id e, eg_relation e)} else {})"
  by (auto simp: edge_entries_def row_add_def)

lemma edge_entries_empty: "edge_entries edges aid = {} \<longleftrightarrow> filter (\<lambda>e. eg_artifact_id e = aid) edges = []"
  by (simp only: edge_entries_def image_is_empty set_empty)

lemma insert_edges:
  "edge_entries edges aid \<subseteq> edge_entries (foldl (insert_edge_ignore H own) edges ps) aid \<and>
   edge_entries (foldl (insert_edge_ignore H own) edges ps) aid \<subseteq>
     edge_entries edges aid \<union> (if aid = own then expected_edges H own ps else {})"
proof (induction ps arbitrary: edges)
  case (Cons p ps)
  have "edge_entries edges aid \<subseteq> edge_entries (insert_edge_ignore H own edges p) aid"
    "edge_entries (insert_edge_ignore H own edges p) aid \<subseteq> edge_entries edges aid \<union> (if aid = own then expected_edges H own [p] else {})"
    by (auto simp: insert_edge_ignore_def edge_entries_add expected_edges_def Let_def)
  with Cons [of "insert_edge_ignore H own edges p"] show ?case
    by (auto simp: expected_edges_def split: if_splits)
qed simp

lemma member_ok_entries:
  "member_ok env db aid \<longleftrightarrow>
     (\<exists>row. row_get ar_artifact_id aid (so_artifacts db) = Some row \<and> \<not> isl (read_row env row) \<and>
        (edge_entries (so_edges db) aid = {} \<and> ar_parent_ids row = [] \<or>
         edge_entries (so_edges db) aid \<noteq> {} \<and>
         edge_entries (so_edges db) aid = expected_edges (en_hash env) aid (ar_parent_ids row)))"
  unfolding edge_entries_empty by (simp only: member_ok_def edge_entries_def edges_from_def)

lemma provenance_edges: "persist_source_provenance env a db = Inr db' \<Longrightarrow> so_edges db' = so_edges db"
  by (auto simp: persist_source_provenance_def register_locator_def try_bind_Inr_iff split: if_splits option.splits prod.splits)

lemma put_artifact_edges:
  assumes "put_artifact env a db = Inr (stored, db')"
  shows "so_edges db' = foldl (insert_edge_ignore (en_hash env) (af_artifact_id stored)) (so_edges db) (af_parent_ids stored)"
  using assms by (auto simp: put_artifact_def Let_def try_bind_Inr_iff split: option.splits if_splits dest!: provenance_edges)

lemma put_artifact_closure:
  assumes "put_artifact env a db = Inr (stored, db')" and "storable env a" and "store_ok env db"
  shows "keeps_closure env db db'"
  unfolding keeps_closure_def
proof (intro conjI allI impI)
  show keep: "keeps_artifacts env db db'" by (rule put_artifact_step [OF assms])
  fix aid assume "member_ok env db aid"
  then obtain row where row: "row_get ar_artifact_id aid (so_artifacts db) = Some row" "\<not> isl (read_row env row)"
    and edges: "edge_entries (so_edges db) aid = {} \<and> ar_parent_ids row = [] \<or> edge_entries (so_edges db) aid \<noteq> {} \<and>
         edge_entries (so_edges db) aid = expected_edges (en_hash env) aid (ar_parent_ids row)"
    by (auto simp: member_ok_entries)
  have row': "row_get ar_artifact_id aid (so_artifacts db') = Some row"
    using keep row(1) by (simp add: keeps_artifacts_def)
  have own: "af_parent_ids stored = ar_parent_ids row" if "aid = af_artifact_id stored"
  proof -
    obtain r where r: "find_artifact_row (af_artifact_id a) (af_artifact_type a) (identity_hash (en_hash env) a) (so_artifacts db') = Some r"
      "row_of env r stored" using put_artifact_cases(2) [OF assms] by blast
    from r(1) have "r \<in> set (so_artifacts db')"
      by (auto simp: find_artifact_row_def split: option.splits dest: row_get_Some_key find_Some_in)
    moreover have "keys_distinct ar_artifact_id (so_artifacts db')" using put_artifact_cases(6) [OF assms] by (simp add: store_ok_def)
    ultimately have "row_get ar_artifact_id (ar_artifact_id r) (so_artifacts db') = Some r" by (simp add: row_get_member)
    with r(2) row' that have "r = row" by (simp add: row_of_simps(1))
    with r(2) show ?thesis by (auto simp: row_of_def new_artifact_row_def)
  qed
  have "edge_entries (so_edges db) aid \<subseteq> edge_entries (so_edges db') aid"
    "edge_entries (so_edges db') aid \<subseteq> edge_entries (so_edges db) aid \<union>
       (if aid = af_artifact_id stored then expected_edges (en_hash env) aid (ar_parent_ids row) else {})"
    using insert_edges [of "so_edges db" aid "en_hash env" "af_artifact_id stored" "af_parent_ids stored"] own
    unfolding put_artifact_edges [OF assms(1)] by auto
  moreover have "expected_edges (en_hash env) aid [] = {}" by (simp add: expected_edges_def)
  ultimately have "edge_entries (so_edges db') aid = {} \<and> ar_parent_ids row = [] \<or> edge_entries (so_edges db') aid \<noteq> {} \<and>
         edge_entries (so_edges db') aid = expected_edges (en_hash env) aid (ar_parent_ids row)"
    using edges by (auto split: if_splits)
  with row' row(2) show "member_ok env db' aid" by (auto simp: member_ok_entries)
qed

lemma put_artifacts_closure:
  assumes "put_artifacts env items db = Inr db'" and "\<forall>a \<in> set items. storable env a" and "store_ok env db"
  shows "keeps_closure env db db'"
  using assms
proof (induction items arbitrary: db)
  case Nil
  then show ?case by (simp add: put_artifacts_def closure_refl)
next
  case (Cons a items)
  then obtain stored mid where put: "put_artifact env a db = Inr (stored, mid)" and rest: "put_artifacts env items mid = Inr db'"
    by (auto simp: put_artifacts_def try_bind_Inr_iff)
  have first: "keeps_closure env db mid" using put_artifact_closure [OF put] Cons.prems by simp
  then have "store_ok env mid" by (simp add: keeps_closure_def keeps_artifacts_def)
  from Cons.IH [OF rest _ this] Cons.prems(2) first show ?case by (auto intro: closure_trans)
qed

lemma closure_other_tables:
  "keeps_closure env db mid \<Longrightarrow> so_artifacts db' = so_artifacts mid \<Longrightarrow> so_edges db' = so_edges mid \<Longrightarrow> keeps_closure env db db'"
  by (simp add: keeps_closure_def keeps_artifacts_def store_ok_def member_ok_entries)

lemma checkpoint_rows_closure:
  assumes "put_checkpoint_rows env items tid ck db = Inr db'" and "\<forall>a \<in> set items. storable env a" and "store_ok env db"
  shows "keeps_closure env db db'"
proof -
  obtain mid where mid: "put_artifacts env items db = Inr mid"
    "db' = mid\<lparr>so_checkpoints := put_stage_row (en_clock env) tid ck (so_checkpoints mid)\<rparr>"
    using assms(1) by (auto simp: put_checkpoint_rows_def try_bind_Inr_iff)
  show ?thesis by (rule closure_other_tables [OF put_artifacts_closure [OF mid(1) assms(2,3)]]) (simp_all add: mid(2))
qed

lemma store_step_closure:
  assumes "storable_op env op" and "store_ok env db"
  shows "keeps_closure env db (store_step env db op)"
proof (cases "store_apply env db op")
  case (Inl e)
  with assms(2) show ?thesis by (simp add: store_step_def closure_refl)
next
  case (Inr db')
  have items: "\<forall>a \<in> set (op_artifacts op). storable env a" using assms(1) by (simp add: storable_op_def list_all_iff)
  have "keeps_closure env db db'"
  proof (cases op)
    case (Put_Artifact a)
    with Inr items assms(2) show ?thesis by (auto simp: try_bind_Inr_iff intro: put_artifact_closure)
  next
    case (Put_Checkpoint its tid ck)
    with Inr items assms(2) show ?thesis by (auto simp: put_with_checkpoint_def intro: checkpoint_rows_closure)
  next
    case (Put_Fenced now its tid ck worker tok)
    then have put: "put_with_fenced_checkpoint env now its tid ck worker tok db = Inr db'" and its: "\<forall>a \<in> set its. storable env a"
      using Inr items by simp_all
    consider "put_checkpoint_rows env its tid ck db = Inr db'" | "db' = db"
      | mid effs where "put_checkpoint_rows env its tid ck db = Inr mid" "db' = mid\<lparr>so_effects := effs\<rparr>"
      using fenced_cases(2) [OF put] by blast
    then show ?thesis
    proof cases
      case 3
      show ?thesis by (rule closure_other_tables [OF checkpoint_rows_closure [OF 3(1) its assms(2)]]) (simp_all add: 3(2))
    qed (use its assms(2) checkpoint_rows_closure closure_refl in blast)+
  next
    case (Other_Tasks tbl)
    with Inr show ?thesis by (intro closure_other_tables [OF closure_refl [OF assms(2)]]) auto
  qed
  with Inr show ?thesis by (simp add: store_step_def)
qed

text \<open>A valid and acyclic ancestry stays both: none of its rows changes.\<close>

lemma ancestry_kept:
  assumes "keeps_closure env db db'" and "\<forall>a \<in> ancestors db R. member_ok env db a"
  shows "ancestors db' R \<subseteq> ancestors db R"
    and "acyclic_below db R \<Longrightarrow> acyclic_below db' R"
proof -
  have same: "parents_of db' a = parents_of db a" if a: "a \<in> ancestors db R" for a
  proof -
    obtain row where "row_get ar_artifact_id a (so_artifacts db) = Some row"
      using bspec [OF assms(2) a] by (auto simp: member_ok_entries)
    with assms(1) show ?thesis by (simp add: keeps_closure_def keeps_artifacts_def parents_of_def)
  qed
  have walk: "(r, a) \<in> (parent_edge db)\<^sup>*" if "(r, a) \<in> (parent_edge db')\<^sup>*" "r \<in> ancestors db R" for r a
    using that
  proof (induction rule: rtrancl_induct)
    case (step a p)
    then have "(r, a) \<in> (parent_edge db)\<^sup>*" by simp
    moreover from this have "a \<in> ancestors db R" using step.prems by (auto simp: ancestors_def intro: rtrancl_trans)
    with step same have "(a, p) \<in> parent_edge db" by (simp add: parent_edge_def)
    ultimately show ?case by (rule rtrancl_into_rtrancl)
  qed simp
  have roots: "R \<subseteq> ancestors db R" by (auto simp: ancestors_def)
  show sub: "ancestors db' R \<subseteq> ancestors db R"
    using walk roots by (auto simp: ancestors_def)
  assume acyclic: "acyclic_below db R"
  have "(a, a) \<notin> (parent_edge db')\<^sup>+" if a: "a \<in> ancestors db' R" for a
  proof
    assume "(a, a) \<in> (parent_edge db')\<^sup>+"
    then obtain p where p: "(a, p) \<in> parent_edge db'" "(p, a) \<in> (parent_edge db')\<^sup>*" by (auto dest: tranclD)
    have anc: "a \<in> ancestors db R" using a sub by blast
    with p(1) same have edge: "(a, p) \<in> parent_edge db" by (simp add: parent_edge_def)
    with anc have "p \<in> ancestors db R" by (auto simp: ancestors_def intro: rtrancl_into_rtrancl)
    with walk p(2) have "(p, a) \<in> (parent_edge db)\<^sup>*" by blast
    with edge have "(a, a) \<in> (parent_edge db)\<^sup>+" by (rule rtrancl_into_trancl2)
    with acyclic anc show False by (auto simp: acyclic_below_def)
  qed
  then show "acyclic_below db' R" by (auto simp: acyclic_below_def)
qed

lemma artifacts_stay_valid:
  assumes "keeps_closure env db db'" and "validate_snapshot_artifacts env db sid v2_schema ids = Inr ()"
  shows "validate_snapshot_artifacts env db' sid v2_schema ids = Inr ()"
proof -
  have v: "v2_schema = ''content.snapshot.v2''" by (simp add: v2_schema_def)
  have ok: "(\<forall>a \<in> ancestors db (set ids). member_ok env db a) \<and> acyclic_below db (set ids)"
    using closure_validation [of db ids env sid] assms(2) v by (auto simp: snapshot_failure_def split: if_splits)
  note kept = ancestry_kept [OF assms(1) ok [THEN conjunct1]]
  have "(\<forall>a \<in> ancestors db' (set ids). member_ok env db' a) \<and> acyclic_below db' (set ids)"
    using kept(1) kept(2) [OF ok [THEN conjunct2]] ok assms(1) by (auto simp: keeps_closure_def)
  then show ?thesis using closure_validation [of db' ids env sid] v by simp
qed

section \<open>Runs of the archive\<close>

datatype archive_op = Artifact_Write store_op | Save snapshot | Save_In_Session snapshot

fun archive_apply :: "surroundings \<Rightarrow> archive \<Rightarrow> archive_op \<Rightarrow> archive result" where
  "archive_apply env db (Artifact_Write op) = Inr (db\<lparr>rc_store := store_step env (rc_store db) op\<rparr>)"
| "archive_apply env db (Save s) = try_bind (save_snapshot env s db) (\<lambda>(_, db'). Inr db')"
| "archive_apply env db (Save_In_Session s) =
     try_bind (validate_snapshot_candidate (en_hash env) s) (\<lambda>payload. save_in_session env s payload db)"

definition archive_step :: "surroundings \<Rightarrow> archive \<Rightarrow> archive_op \<Rightarrow> archive" where
  "archive_step env db op = (case archive_apply env db op of Inl _ \<Rightarrow> db | Inr db' \<Rightarrow> db')"

definition archive_run :: "surroundings \<Rightarrow> archive \<Rightarrow> archive_op list \<Rightarrow> archive" where
  "archive_run env = foldl (archive_step env)"

text \<open>Dictionaries have distinct keys, and only artifacts that their constructor can build are put.\<close>

fun archive_op_ok :: "surroundings \<Rightarrow> archive_op \<Rightarrow> bool" where
  "archive_op_ok env (Artifact_Write op) = storable_op env op"
| "archive_op_ok env (Save s) = distinct (map fst (cs_artifact_ids s))"
| "archive_op_ok env (Save_In_Session s) = distinct (map fst (cs_artifact_ids s))"

text \<open>A snapshot row that has been validated.\<close>

definition published :: "surroundings \<Rightarrow> snapshot_row \<Rightarrow> archive \<Rightarrow> bool" where
  "published env row db \<longleftrightarrow>
     store_ok env (rc_store db) \<and> row_get sn_id (sn_id row) (rc_snapshots db) = Some row \<and>
     sn_schema_version row = v2_schema \<and> distinct (map fst (sn_artifact_ids row)) \<and> validate_snapshot_row env db row = Inr ()"

lemma published_same_reading:
  assumes "published env row db" and "published env row db'"
  shows "get_snapshot env (sn_id row) db' = get_snapshot env (sn_id row) db"
  using assms by (simp add: published_def get_snapshot_def row_to_snapshot_def)

text \<open>The parts of a validated row do not depend on each other's tables.\<close>

lemma validate_row_parts:
  "validate_snapshot_row env db row = Inr () \<longleftrightarrow>
     validate_identity (en_hash env) (sn_id row) (sn_identity row) (row_columns row) (sn_schema_version row)
       (sn_artifact_ids row) = Inr () \<and>
     validate_snapshot_members (en_hash env) row (rc_members db) = Inr () \<and>
     validate_snapshot_artifacts env (rc_store db) (sn_id row) (sn_schema_version row) (map snd (sn_artifact_ids row)) = Inr ()"
  by (auto simp: validate_snapshot_row_def try_bind_Inr_iff)

lemma published_transfer:
  assumes "published env row db" and "store_ok env (rc_store db')" and "row_get sn_id (sn_id row) (rc_snapshots db') = Some row"
    and "members_of (rc_members db') (sn_id row) = members_of (rc_members db) (sn_id row)"
    and "keeps_closure env (rc_store db) (rc_store db')"
  shows "published env row db'"
proof -
  have v2: "sn_schema_version row = v2_schema" using assms(1) by (simp add: published_def)
  note parts = assms(1) [unfolded published_def validate_row_parts v2]
  have "validate_snapshot_members (en_hash env) row (rc_members db') = Inr ()"
    using parts by (simp add: validate_snapshot_members_def assms(4))
  moreover have "validate_snapshot_artifacts env (rc_store db') (sn_id row) v2_schema (map snd (sn_artifact_ids row)) = Inr ()"
    using parts by (intro artifacts_stay_valid [OF assms(5)]) simp
  ultimately show ?thesis
    unfolding published_def validate_row_parts v2 using parts assms(2,3) by simp
qed

lemma published_artifact_write:
  assumes "published env row db" and "storable_op env op"
  shows "published env row (db\<lparr>rc_store := store_step env (rc_store db) op\<rparr>)"
proof -
  have ok: "store_ok env (rc_store db)" using assms(1) by (simp add: published_def)
  have keep: "keeps_closure env (rc_store db) (store_step env (rc_store db) op)"
    by (rule store_step_closure [OF assms(2) ok])
  with assms(1) show ?thesis
    by (intro published_transfer [OF assms(1)]) (simp_all add: published_def keeps_closure_def keeps_artifacts_def)
qed

section \<open>What a write of a snapshot touches\<close>

lemma members_of_add:
  "members_of (insert_member_ignore members m) sid =
     (if sm_content_snapshot_id m = sid \<and> row_get sm_member_id (sm_member_id m) members = None
      then members_of members sid @ [(sm_member_id m, sm_artifact_id m, sm_slot m)] else members_of members sid)"
  by (auto simp: insert_member_ignore_def members_of_def row_add_def)

lemma insert_members_other:
  "sid \<noteq> own \<Longrightarrow> members_of (foldl insert_member_ignore members (map (new_member H own) ids)) sid = members_of members sid"
  by (induction ids arbitrary: members) (simp_all add: members_of_add new_member_def)

lemma insert_member_present:
  "row_get sm_member_id k members \<noteq> None \<Longrightarrow> row_get sm_member_id k (insert_member_ignore members m) \<noteq> None"
  by (auto simp: insert_member_ignore_def row_get_add)

lemma insert_members_present:
  "\<forall>e \<in> set ids. row_get sm_member_id (member_id H own (fst e) (snd e)) members \<noteq> None \<Longrightarrow>
     foldl insert_member_ignore members (map (new_member H own) ids) = members"
  by (induction ids) (auto simp: insert_member_ignore_def new_member_def)

lemma write_snapshot_cases:
  assumes "write_snapshot always env s payload db = Inr db'"
  obtains (fresh) "row_get sn_id (cs_id s) (rc_snapshots db) = None"
    "rc_snapshots db' = row_add (new_snapshot_row payload s) (rc_snapshots db)"
    "validate_snapshot_row env db' (new_snapshot_row payload s) = Inr ()"
    "rc_members db' = foldl insert_member_ignore (rc_members db) (map (new_member (en_hash env) (cs_id s)) (cs_artifact_ids s))"
    "rc_store db' = rc_store db"
    "rc_heads db' = snapshot_upsert_head (source_identity_hash (en_hash env) s) (cs_id s) (instant_of (cs_created_at s)) (rc_heads db)"
  | (replay) row where "row_get sn_id (cs_id s) (rc_snapshots db) = Some row" "rc_snapshots db' = rc_snapshots db"
    "validate_snapshot_row env db row = Inr ()" "compare_existing_identity (cs_id s) (sn_identity row) payload = Inr ()"
    "compare_candidate_to_existing_row s row = Inr ()"
    "rc_members db' = foldl insert_member_ignore (rc_members db) (map (new_member (en_hash env) (cs_id s)) (cs_artifact_ids s))"
    "rc_store db' = rc_store db"
proof (cases "row_get sn_id (cs_id s) (rc_snapshots db)")
  case None
  let ?mid = "db\<lparr>rc_snapshots := row_add (new_snapshot_row payload s) (rc_snapshots db),
    rc_members := foldl insert_member_ignore (rc_members db) (map (new_member (en_hash env) (cs_id s)) (cs_artifact_ids s))\<rparr>"
  have get: "row_get sn_id (cs_id s) (row_add (new_snapshot_row payload s) (rc_snapshots db)) = Some (new_snapshot_row payload s)"
    using None by (simp add: row_get_add new_snapshot_row_def)
  have "validate_snapshot_row env ?mid (new_snapshot_row payload s) = Inr () \<and>
    db' = ?mid\<lparr>rc_heads := snapshot_upsert_head (source_identity_hash (en_hash env) s) (cs_id s) (instant_of (cs_created_at s)) (rc_heads db)\<rparr>"
    using assms None get
    by (auto simp: write_snapshot_def Let_def try_bind_Inr_iff insert_snapshot_ignore_def new_snapshot_row_def [of payload s] sn_id_def split: if_splits)
  with None show ?thesis by (intro fresh) (auto simp: validate_snapshot_row_def)
next
  case (Some row)
  then show ?thesis using assms
    by (intro replay [of row])
      (auto simp: write_snapshot_def Let_def try_bind_Inr_iff insert_snapshot_ignore_def new_snapshot_row_def validate_snapshot_row_def
        split: if_splits)
qed

text \<open>A replay that was accepted names the artifacts of the stored row, so its members are all there.\<close>

lemma mapM_unit: "mapM f xs = Inr us \<Longrightarrow> x \<in> set xs \<Longrightarrow> f x = Inr ()" for f :: "'a \<Rightarrow> 'e + unit"
  by (induction xs arbitrary: us) (auto simp: try_bind_Inr_iff)

lemma snapshot_identity_keys:
  assumes "validate_identity H sid identity columns v2_schema ids = Inr ()"
    and "k \<in> set (core_identity_fields @ additive_identity_fields)"
  shows "dict_get k identity \<noteq> None"
proof -
  have "required_identity_fields v2_schema = Some (core_identity_fields @ additive_identity_fields)"
    by (simp add: required_identity_fields_def v1_schema_def v2_schema_def)
  then have "filter (\<lambda>k. dict_get k identity = None) (core_identity_fields @ additive_identity_fields) = []"
    using assms(1) by (auto simp: validate_identity_def Let_def try_bind_Inr_iff simp del: filter_append)
  with assms(2) show ?thesis by (auto simp: filter_empty_conv)
qed

lemma replay_column:
  assumes "compare_candidate_to_existing_row s row = Inr ()" and "dict_get k (sn_identity row) \<noteq> None"
    and "k \<in> fst ` set (row_columns row)"
  shows "canonical_json (field k (snapshot_columns s)) = canonical_json (field k (row_columns row))"
proof -
  obtain us where us: "mapM (compare_redundant (cs_id s) (sn_identity row) (snapshot_columns s) (row_columns row)) (map fst (row_columns row)) = Inr us"
    using assms(1) by (auto simp: compare_candidate_to_existing_row_def try_bind_Inr_iff)
  have "compare_redundant (cs_id s) (sn_identity row) (snapshot_columns s) (row_columns row) k = Inr ()"
    by (rule mapM_unit [OF us]) (use assms(3) in simp)
  with assms(2) show ?thesis by (auto simp: compare_redundant_def canonical_equal_def)
qed

lemma replay_same_schema:
  assumes "compare_candidate_to_existing_row s row = Inr ()" and "dict_get ''schema_version'' (sn_identity row) \<noteq> None"
  shows "sn_schema_version row = cs_schema_version s"
proof -
  have "canonical_json (field ''schema_version'' (snapshot_columns s)) = canonical_json (field ''schema_version'' (row_columns row))"
    by (rule replay_column [OF assms]) (simp add: row_columns_def)
  then show ?thesis
    by (simp add: snapshot_columns_def row_columns_def field_def dict_get_def canonical_json_eq_iff)
qed

lemma replay_same_artifacts:
  assumes "published env row db" and "compare_candidate_to_existing_row s row = Inr ()" and "distinct (map fst (cs_artifact_ids s))"
  shows "set (cs_artifact_ids s) = set (sn_artifact_ids row)"
proof -
  have row: "sn_schema_version row = v2_schema" "distinct (map fst (sn_artifact_ids row))"
    "validate_identity (en_hash env) (sn_id row) (sn_identity row) (row_columns row) v2_schema (sn_artifact_ids row) = Inr ()"
    using assms(1) by (auto simp: published_def validate_row_parts)
  have "dict_get ''artifact_ids'' (sn_identity row) \<noteq> None"
    by (rule snapshot_identity_keys [OF row(3)]) (simp add: core_identity_fields_def)
  then have "canonical_json (field ''artifact_ids'' (snapshot_columns s)) = canonical_json (field ''artifact_ids'' (row_columns row))"
    by (rule replay_column [OF assms(2)]) (simp add: row_columns_def)
  then have "canonical_json (jstr_dict (cs_artifact_ids s)) = canonical_json (jstr_dict (sn_artifact_ids row))"
    by (simp add: snapshot_columns_def row_columns_def field_def dict_get_def)
  then show ?thesis using assms(3) row(2) by (rule jstr_dict_eq)
qed

lemma published_members_present:
  assumes "published env row db" and "(slot, aid) \<in> set (sn_artifact_ids row)"
  shows "row_get sm_member_id (member_id (en_hash env) (sn_id row) slot aid) (rc_members db) \<noteq> None"
proof -
  have "set (members_of (rc_members db) (sn_id row)) = expected_members (en_hash env) (sn_id row) (sn_artifact_ids row)"
    using assms(1)
    by (auto simp: published_def validate_row_parts validate_snapshot_members_def is_legacy_identity_def v1_schema_def
        v2_schema_def Let_def split: if_splits)
  with assms(2) have "(member_id (en_hash env) (sn_id row) slot aid, aid, slot) \<in> set (members_of (rc_members db) (sn_id row))"
    by (force simp: expected_members_def)
  then have "member_id (en_hash env) (sn_id row) slot aid \<in> sm_member_id ` set (rc_members db)"
    by (auto simp: members_of_def)
  then show ?thesis using row_get_None [of sm_member_id] by blast
qed

lemma published_write:
  assumes "published env row db" and "write_snapshot always env s payload db = Inr db'" and "distinct (map fst (cs_artifact_ids s))"
  shows "published env row db'"
proof -
  have ok: "store_ok env (rc_store db)" using assms(1) by (simp add: published_def)
  from assms(2) show ?thesis
  proof (cases rule: write_snapshot_cases)
  case fresh
  then have other: "sn_id row \<noteq> cs_id s" using assms(1) by (auto simp: published_def)
  have "row_get sn_id (sn_id row) (rc_snapshots db') = Some row"
    using fresh(2) assms(1) by (simp add: published_def row_get_add)
  moreover have "members_of (rc_members db') (sn_id row) = members_of (rc_members db) (sn_id row)"
    unfolding fresh(4) by (rule insert_members_other [OF other])
  ultimately show ?thesis using ok unfolding fresh(5) [symmetric]
    by (intro published_transfer [OF assms(1)]) (simp_all add: closure_refl fresh(5))
next
  case (replay stored)
  have "members_of (rc_members db') (sn_id row) = members_of (rc_members db) (sn_id row)"
  proof (cases "sn_id row = cs_id s")
    case True
    with replay(1) assms(1) have "stored = row" by (simp add: published_def)
    with replay(5) have same: "set (cs_artifact_ids s) = set (sn_artifact_ids row)"
      using replay_same_artifacts [OF assms(1) _ assms(3)] by simp
    have "rc_members db' = rc_members db"
      unfolding replay(6) True [symmetric]
    proof (rule insert_members_present, rule ballI)
      fix e assume "e \<in> set (cs_artifact_ids s)"
      then have "(fst e, snd e) \<in> set (sn_artifact_ids row)" unfolding same by simp
      then show "row_get sm_member_id (member_id (en_hash env) (sn_id row) (fst e) (snd e)) (rc_members db) \<noteq> None"
        by (rule published_members_present [OF assms(1)])
    qed
    then show ?thesis by simp
  next
    case False
    then show ?thesis unfolding replay(6) by (rule insert_members_other)
  qed
  moreover have "row_get sn_id (sn_id row) (rc_snapshots db) = Some row" using assms(1) by (simp add: published_def)
  ultimately show ?thesis using ok
    by (intro published_transfer [OF assms(1)]) (simp_all add: closure_refl replay(2,7))
  qed
qed

lemma published_step:
  assumes "published env row db" and "archive_op_ok env op"
  shows "published env row (archive_step env db op)"
proof (cases op)
  case (Artifact_Write w)
  with assms published_artifact_write show ?thesis by (simp add: archive_step_def)
next
  case (Save s)
  with assms published_write [OF assms(1), of False s] show ?thesis
    by (auto simp: archive_step_def save_snapshot_def try_bind_Inr_iff split: sum.splits)
next
  case (Save_In_Session s)
  with assms published_write [OF assms(1), of True s] show ?thesis
    by (auto simp: archive_step_def save_in_session_def try_bind_Inr_iff split: sum.splits)
qed

lemma published_run:
  assumes "published env row db" and "\<forall>op \<in> set ops. archive_op_ok env op"
  shows "published env row (archive_run env db ops)"
  using assms
proof (induction ops arbitrary: db)
  case (Cons op ops)
  then show ?case using published_step [of env row db op] by (simp add: archive_run_def)
qed (simp add: archive_run_def)

lemma write_published:
  assumes w: "write_snapshot always env s payload db = Inr db'" and "store_ok env (rc_store db)" and "cs_schema_version s = v2_schema"
    and "distinct (map fst (cs_artifact_ids s))" and "\<forall>row \<in> set (rc_snapshots db). distinct (map fst (sn_artifact_ids row))"
  shows "\<exists>row. sn_id row = cs_id s \<and> published env row db'"
proof -
  from w show ?thesis
  proof (cases rule: write_snapshot_cases)
    case fresh
    have row: "sn_id (new_snapshot_row payload s) = cs_id s" "sn_schema_version (new_snapshot_row payload s) = v2_schema"
      "sn_artifact_ids (new_snapshot_row payload s) = cs_artifact_ids s"
      using assms(3) by (simp_all add: new_snapshot_row_def)
    have "row_get sn_id (cs_id s) (rc_snapshots db') = Some (new_snapshot_row payload s)"
      unfolding fresh(2) using fresh(1) row(1) by (simp add: row_get_add)
    with fresh(3,5) row assms(2,4) show ?thesis
      by (intro exI [of _ "new_snapshot_row payload s"]) (simp add: published_def)
  next
    case (replay row)
    have id: "sn_id row = cs_id s" "row \<in> set (rc_snapshots db)" using replay(1) by (auto dest: row_get_Some_key)
    have v: "validate_identity (en_hash env) (sn_id row) (sn_identity row) (row_columns row) (sn_schema_version row) (sn_artifact_ids row) = Inr ()"
      using replay(3) by (simp add: validate_row_parts)
    have "dict_get ''schema_version'' (sn_identity row) \<noteq> None"
      using v by (auto simp: validate_identity_def try_bind_Inr_iff field_def split: option.splits)
    then have "sn_schema_version row = v2_schema"
      using replay_same_schema [OF replay(5)] assms(3) by simp
    then have "published env row db" using assms(2,5) id replay(1,3) by (simp add: published_def)
    with published_write [OF this w assms(4)] id show ?thesis by blast
  qed
qed

lemma save_published:
  assumes "save_snapshot env s db = Inr (s', db')" and "store_ok env (rc_store db)" and "cs_schema_version s = v2_schema"
    and "distinct (map fst (cs_artifact_ids s))" and "\<forall>row \<in> set (rc_snapshots db). distinct (map fst (sn_artifact_ids row))"
  shows "\<exists>row. sn_id row = cs_id s \<and> published env row db'"
proof -
  obtain payload where "write_snapshot False env s payload db = Inr db'"
    using assms(1) by (auto simp: save_snapshot_def try_bind_Inr_iff)
  from write_published [OF this assms(2-5)] show ?thesis .
qed

section \<open>Published snapshots are permanent\<close>

definition distinct_slots :: "archive \<Rightarrow> bool" where
  "distinct_slots db \<longleftrightarrow> (\<forall>row \<in> set (rc_snapshots db). distinct (map fst (sn_artifact_ids row)))"

definition snapshot_row_of :: "string \<Rightarrow> archive \<Rightarrow> snapshot_row option" where
  "snapshot_row_of sid db = row_get sn_id sid (rc_snapshots db)"

section \<open>A fresh save reads back\<close>

text \<open>An identity that holds every field and agrees with its columns passes, if the columns agree with each other.\<close>

lemma validate_identity_agreeing:
  assumes "\<forall>k \<in> set (core_identity_fields @ additive_identity_fields). dict_get k identity \<noteq> None"
    and "field ''schema_version'' identity = JStr v2_schema" and "field ''content_snapshot_id'' identity = JStr sid"
    and "\<forall>(k, v) \<in> set columns. field k identity = v"
    and "text_or_empty (field ''source_artifact_id'' columns) \<in> {[], str_get ''source'' ids}"
    and "text_or_empty (field ''artifact_root_hash'' columns) = compute_artifact_root_hash H ids"
    and "validate_provenance_alignment sid v2_schema (field ''code_sha'' columns) (field ''config_hash'' columns)
      (field ''producer_manifest'' columns) = Inr ()"
  shows "validate_identity H sid identity columns v2_schema ids = Inr ()"
proof -
  have "check_column sid identity c = Inr ()" if "c \<in> set columns" for c
    using that assms(4) by (cases c) (auto simp: check_column_def canonical_equal_def field_def split: option.splits)
  then have cols: "\<exists>us. mapM (check_column sid identity) columns = Inr us"
    by (induction columns) auto
  have required: "required_identity_fields v2_schema = Some (core_identity_fields @ additive_identity_fields)"
    by (simp add: required_identity_fields_def v1_schema_def v2_schema_def)
  have missing: "filter (\<lambda>k. dict_get k identity = None) (core_identity_fields @ additive_identity_fields) = []"
    using assms(1) by (simp only: filter_empty_conv simp_thms)
  show ?thesis
    using cols assms(2,3,5-7) unfolding validate_identity_def required Let_def option.case missing
    by (auto simp: try_bind_def)
qed

lemma insert_members_new:
  assumes "distinct (map (\<lambda>e. member_id H sid (fst e) (snd e)) ids)"
    and "\<forall>e \<in> set ids. row_get sm_member_id (member_id H sid (fst e) (snd e)) members = None"
  shows "foldl insert_member_ignore members (map (new_member H sid) ids) = members @ map (new_member H sid) ids"
  using assms
proof (induction ids arbitrary: members)
  case (Cons e ids)
  have "insert_member_ignore members (new_member H sid e) = members @ [new_member H sid e]"
    using Cons.prems(2) by (simp add: insert_member_ignore_def new_member_def row_add_def)
  with Cons show ?case by (simp add: row_get_append new_member_def image_iff)
qed simp

lemma members_of_new:
  assumes "members_of members sid = []"
  shows "members_of (members @ map (new_member H sid) ids) sid =
    map (\<lambda>e. (member_id H sid (fst e) (snd e), snd e, fst e)) ids"
  using assms by (simp add: members_of_def new_member_def filter_map comp_def)

lemma built_parts:
  assumes "build_content_snapshot H dp a = Inr s"
  shows "cs_schema_version s = v2_schema" "cs_artifact_ids s = sa_artifact_ids a"
    "cs_source_artifact_id s = (if sa_source_artifact_id a \<noteq> [] then sa_source_artifact_id a else str_get ''source'' (sa_artifact_ids a))"
    "validate_provenance_alignment sid v2_schema (JStr (cs_code_sha s)) (JStr (cs_config_hash s)) (JObj (cs_producer_manifest s)) = Inr ()"
proof -
  obtain code config manifest where norm: "normalize_producer_manifest H dp (sa_producer_manifest a) (sa_code_sha a)
      (Some (sa_config_hash a)) (sa_configuration a) = Inr (code, config, manifest)"
    and draft: "s = (snapshot_draft a (str_or (sa_artifact_root_hash a) (compute_artifact_root_hash H (sa_artifact_ids a)))
      (code, config, manifest))\<lparr>cs_id := cs_id s\<rparr>"
    using assms by (auto simp: build_content_snapshot_def try_bind_Inr_iff Let_def)
  obtain root own where s: "s = (snapshot_draft a root (code, config, manifest))\<lparr>cs_id := own\<rparr>" using draft by blast
  then show "cs_schema_version s = v2_schema" "cs_artifact_ids s = sa_artifact_ids a"
    "cs_source_artifact_id s = (if sa_source_artifact_id a \<noteq> [] then sa_source_artifact_id a else str_get ''source'' (sa_artifact_ids a))"
    by (auto simp: snapshot_draft_def)
  show "validate_provenance_alignment sid v2_schema (JStr (cs_code_sha s)) (JStr (cs_config_hash s)) (JObj (cs_producer_manifest s)) = Inr ()"
    using s normalize_aligned [OF norm]
    by (auto simp: snapshot_draft_def validate_provenance_alignment_def object_or_empty_def check_aligned_def
        text_or_empty_def v1_schema_def v2_schema_def)
qed

text \<open>What the stored identity of a snapshot without sensitive values says.\<close>

definition saved_identity :: "snapshot \<Rightarrow> pydict" where
  "saved_identity s = snapshot_fields s @ [(''created_at'', JStr (isoformat (cs_created_at s)))]"

lemma saved_identity_keys:
  "\<forall>k \<in> set (core_identity_fields @ additive_identity_fields). dict_get k (saved_identity s) \<noteq> None"
  by (simp add: core_identity_fields_def additive_identity_fields_def saved_identity_def snapshot_fields_def dict_get_def)

lemma saved_identity_columns: "\<forall>(k, v) \<in> set (snapshot_columns s). field k (saved_identity s) = v"
  by (simp add: snapshot_columns_def saved_identity_def snapshot_fields_def field_def dict_get_def)

lemma new_row_columns: "row_columns (new_snapshot_row payload s) = snapshot_columns s"
  by (simp add: row_columns_def new_snapshot_row_def snapshot_columns_def jstr_opt_def)

lemma built_identity_valid:
  assumes "build_content_snapshot H dp a = Inr s" and "sa_artifact_ids a \<noteq> []"
    and "sa_source_artifact_id a \<in> {[], str_get ''source'' (sa_artifact_ids a)}"
  shows "validate_identity H (cs_id s) (saved_identity s) (snapshot_columns s) v2_schema (cs_artifact_ids s) = Inr ()"
proof (rule validate_identity_agreeing [OF saved_identity_keys _ _ saved_identity_columns])
  show "field ''schema_version'' (saved_identity s) = JStr v2_schema"
    using built_parts(1) [OF assms(1)] by (simp add: saved_identity_def snapshot_fields_def field_def dict_get_def)
  show "field ''content_snapshot_id'' (saved_identity s) = JStr (cs_id s)"
    by (simp add: saved_identity_def snapshot_fields_def field_def dict_get_def)
  show "text_or_empty (field ''source_artifact_id'' (snapshot_columns s)) \<in> {[], str_get ''source'' (cs_artifact_ids s)}"
    using built_parts(2,3) [OF assms(1)] assms(3)
    by (auto simp: snapshot_columns_def field_def dict_get_def text_or_empty_def)
  show "text_or_empty (field ''artifact_root_hash'' (snapshot_columns s)) = compute_artifact_root_hash H (cs_artifact_ids s)"
    using build_identity(2) [OF assms(1)] built_parts(2) [OF assms(1)] assms(2)
    by (simp add: snapshot_columns_def field_def dict_get_def text_or_empty_def)
  show "validate_provenance_alignment (cs_id s) v2_schema (field ''code_sha'' (snapshot_columns s))
      (field ''config_hash'' (snapshot_columns s)) (field ''producer_manifest'' (snapshot_columns s)) = Inr ()"
    using built_parts(4) [OF assms(1)] by (simp add: snapshot_columns_def field_def dict_get_def)
qed

text \<open>Reading a stored identity back.\<close>

lemma identity_readers [simp]:
  "json_list (jstrs ss) = ss" "json_str_dict (jstr_dict d) = d" "json_dict (JObj kvs) = kvs"
  "text_or (JStr x) y = (if x = [] then y else x)" "text_option (jstr_opt z) z = z"
  by (simp_all add: json_list_def jstrs_def comp_def json_str_dict_def json_dict_def jstr_dict_def text_or_def
      text_option_def jstr_opt_def case_prod_unfold split: option.splits)

definition readable_snapshot :: "snapshot \<Rightarrow> bool" where
  "readable_snapshot s \<longleftrightarrow>
     cs_prompt_bundle_version s \<noteq> [] \<and> cs_entity_alias_version s \<noteq> [] \<and> cs_verification_policy_version s \<noteq> [] \<and>
     cs_snapshot_kind s \<noteq> [] \<and> datetime_ok (cs_created_at s) \<and> as_utc (cs_created_at s) = cs_created_at s"

lemma row_reads_back:
  assumes "validate_snapshot_row env db (new_snapshot_row (saved_identity s) s) = Inr ()" and "readable_snapshot s"
  shows "row_to_snapshot env db (new_snapshot_row (saved_identity s) s) = Inr s"
proof -
  let ?get = "\<lambda>k. field k (saved_identity s)"
  have get: "?get ''source_artifact_id'' = JStr (cs_source_artifact_id s)" "?get ''artifact_root_hash'' = JStr (cs_artifact_root_hash s)"
    "?get ''parser_version'' = cs_parser_version s" "?get ''asr_model'' = cs_asr_model s"
    "?get ''asr_model_version'' = cs_asr_model_version s" "?get ''vision_model'' = cs_vision_model s" "?get ''llm_model'' = cs_llm_model s"
    "?get ''prompt_bundle_version'' = JStr (cs_prompt_bundle_version s)" "?get ''entity_alias_version'' = JStr (cs_entity_alias_version s)"
    "?get ''verification_policy_version'' = JStr (cs_verification_policy_version s)"
    "?get ''quant_market_snapshot_ids'' = jstrs (cs_quant_market_snapshot_ids s)" "?get ''code_sha'' = JStr (cs_code_sha s)"
    "?get ''config_hash'' = JStr (cs_config_hash s)" "?get ''pipeline_version'' = JStr (cs_pipeline_version s)"
    "?get ''schema_version'' = JStr (cs_schema_version s)" "?get ''artifact_ids'' = jstr_dict (cs_artifact_ids s)"
    "?get ''snapshot_kind'' = JStr (cs_snapshot_kind s)" "?get ''parent_snapshot_id'' = jstr_opt (cs_parent_snapshot_id s)"
    "?get ''supersedes_snapshot_id'' = jstr_opt (cs_supersedes_snapshot_id s)"
    "?get ''producer_manifest'' = JObj (cs_producer_manifest s)" "?get ''model_versions'' = JObj (cs_model_versions s)"
    "?get ''prompt_versions'' = JObj (cs_prompt_versions s)" "?get ''configuration'' = JObj (cs_configuration s)"
    "?get ''external_snapshots'' = jstrs (cs_external_snapshots s)" "?get ''policy_versions'' = JObj (cs_policy_versions s)"
    "?get ''created_at'' = JStr (isoformat (cs_created_at s))"
    by (simp_all add: saved_identity_def snapshot_fields_def field_def dict_get_def)
  have time: "snapshot_time (new_snapshot_row (saved_identity s) s) = Inr (cs_created_at s)"
    using assms(2) get(26) by (simp add: snapshot_time_def new_snapshot_row_def readable_snapshot_def iso_roundtrip)
  show ?thesis
    using assms time
    by (simp add: row_to_snapshot_def Let_def) (simp add: new_snapshot_row_def get readable_snapshot_def)
qed

lemma fresh_save:
  assumes "build_content_snapshot (en_hash env) dp a = Inr s" and "sa_artifact_ids a \<noteq> []"
    and "sa_source_artifact_id a \<in> {[], str_get ''source'' (sa_artifact_ids a)}"
    and "redact_fields (snapshot_fields s) = Inr (snapshot_fields s)" and "readable_snapshot s"
    and "snapshot_row_of (cs_id s) db = None" and "members_of (rc_members db) (cs_id s) = []"
    and "distinct (map (\<lambda>e. member_id (en_hash env) (cs_id s) (fst e) (snd e)) (cs_artifact_ids s))"
    and "\<forall>e \<in> set (cs_artifact_ids s). row_get sm_member_id (member_id (en_hash env) (cs_id s) (fst e) (snd e)) (rc_members db) = None"
    and "validate_snapshot_artifacts env (rc_store db) (cs_id s) ''content.snapshot.v2'' (map snd (cs_artifact_ids s)) = Inr ()"
  shows "\<exists>db'. save_snapshot env s db = Inr (s, db') \<and> get_snapshot env (cs_id s) db' = Inr (Some s) \<and>
    rc_store db' = rc_store db \<and>
    rc_heads db' = snapshot_upsert_head (source_identity_hash (en_hash env) s) (cs_id s) (instant_of (cs_created_at s)) (rc_heads db)"
proof -
  let ?H = "en_hash env" and ?sid = "cs_id s" and ?payload = "saved_identity s"
  let ?row = "new_snapshot_row ?payload s"
  let ?mid = "db\<lparr>rc_snapshots := row_add ?row (rc_snapshots db),
    rc_members := rc_members db @ map (new_member ?H ?sid) (cs_artifact_ids s)\<rparr>"
  have v2: "cs_schema_version s = v2_schema" by (rule built_parts(1) [OF assms(1)])
  have artifacts: "validate_snapshot_artifacts env (rc_store db) ?sid v2_schema (map snd (cs_artifact_ids s)) = Inr ()"
    using assms(10) by (simp add: v2_schema_def)
  have identity: "validate_identity ?H ?sid ?payload (snapshot_columns s) v2_schema (cs_artifact_ids s) = Inr ()"
    by (rule built_identity_valid [OF assms(1-3)])
  have candidate: "validate_snapshot_candidate ?H s = Inr ?payload"
    using assms(4) identity v2 by (simp add: validate_snapshot_candidate_def snapshot_payload_def saved_identity_def)
  have members: "members_of (rc_members db @ map (new_member ?H ?sid) (cs_artifact_ids s)) ?sid =
      map (\<lambda>e. (member_id ?H ?sid (fst e) (snd e), snd e, fst e)) (cs_artifact_ids s)"
    by (rule members_of_new [OF assms(7)])
  have "distinct (map (\<lambda>e. (member_id ?H ?sid (fst e) (snd e), snd e, fst e)) (cs_artifact_ids s))"
    using assms(8) by (simp add: distinct_map inj_on_def)
  moreover have row_fields: "sn_id ?row = ?sid" "sn_identity ?row = ?payload" "sn_artifact_ids ?row = cs_artifact_ids s"
    "sn_schema_version ?row = v2_schema" using v2 by (simp_all add: new_snapshot_row_def)
  moreover have "\<not> is_legacy_identity ?payload ?row"
    by (simp add: is_legacy_identity_def row_fields v1_schema_def v2_schema_def)
  ultimately have valid: "validate_snapshot_row env ?mid ?row = Inr ()"
    using identity artifacts members
    by (simp add: validate_row_parts new_row_columns validate_snapshot_members_def Let_def expected_members_def case_prod_unfold)
  have row: "row_get sn_id ?sid (row_add ?row (rc_snapshots db)) = Some ?row" "sn_id ?row = ?sid"
    using assms(6) by (simp_all add: row_get_add snapshot_row_of_def new_snapshot_row_def)
  let ?db = "?mid\<lparr>rc_heads := snapshot_upsert_head (source_identity_hash ?H s) ?sid (instant_of (cs_created_at s)) (rc_heads db)\<rparr>"
  have "write_snapshot False env s ?payload db = Inr ?db"
    using artifacts v2 assms(6) row valid insert_members_new [OF assms(8,9)]
    by (simp add: write_snapshot_def Let_def insert_snapshot_ignore_def snapshot_row_of_def)
  then have "save_snapshot env s db = Inr (s, ?db)" by (simp add: save_snapshot_def candidate)
  moreover have "validate_snapshot_row env ?db ?row = Inr ()" using valid by (simp add: validate_row_parts)
  then have "get_snapshot env ?sid ?db = Inr (Some s)"
    using row row_reads_back [OF _ assms(5), of env ?db] by (simp add: get_snapshot_def)
  ultimately show ?thesis by auto
qed

text \<open>A snapshot whose artifacts are not stored with a sound provenance is refused before anything is written.\<close>

lemma unsound_save:
  assumes "build_content_snapshot (en_hash env) dp a = Inr s" and "sa_artifact_ids a \<noteq> []"
    and "sa_source_artifact_id a \<in> {[], str_get ''source'' (sa_artifact_ids a)}"
    and "redact_fields (snapshot_fields s) = Inr (snapshot_fields s)"
    and "\<not> closure_sound env (rc_store db) (map snd (cs_artifact_ids s))"
  shows "snapshot_failure (save_snapshot env s db)"
proof -
  have v2: "cs_schema_version s = v2_schema" by (rule built_parts(1) [OF assms(1)])
  have "snapshot_failure (validate_snapshot_artifacts env (rc_store db) (cs_id s) v2_schema (map snd (cs_artifact_ids s)))"
    using closure_validation [of "rc_store db" "map snd (cs_artifact_ids s)" env "cs_id s"] assms(5)
    by (simp add: closure_sound_def v2_schema_def)
  then have "snapshot_failure (write_snapshot False env s (saved_identity s) db)"
    by (auto simp: write_snapshot_def v2 snapshot_failure_def Let_def)
  moreover have "validate_snapshot_candidate (en_hash env) s = Inr (saved_identity s)"
    using assms(4) built_identity_valid [OF assms(1-3)] v2
    by (simp add: validate_snapshot_candidate_def snapshot_payload_def saved_identity_def)
  ultimately show ?thesis by (auto simp: save_snapshot_def snapshot_failure_def)
qed

text \<open>An archive that holds one frame, and a snapshot of it.\<close>

definition frame_archive :: archive where
  "frame_archive =
     \<lparr>rc_store = empty_store\<lparr>so_artifacts := [new_artifact_row (en_hash sample_env) (stored_frame ''f1'')]\<rparr>,
      rc_snapshots = [], rc_members = [], rc_heads = []\<rparr>"

definition frame_snapshot :: snapshot where
  "frame_snapshot = sample_snapshot (en_hash sample_env) [(''frame'', ''f1'')]"

lemma frame_archive_ok: "store_ok sample_env (rc_store frame_archive)"
  using first_frame_row by (auto simp: store_ok_def frame_archive_def keys_distinct_def)

lemma frame_archive_sound: "closure_sound sample_env (rc_store frame_archive) [''f1'']"
proof -
  let ?db = "rc_store frame_archive"
  have row: "row_get ar_artifact_id ''f1'' (so_artifacts ?db) = Some (new_artifact_row (en_hash sample_env) (stored_frame ''f1''))"
    by (simp add: frame_archive_def new_artifact_row_def stored_frame_def)
  have parents: "ar_parent_ids (new_artifact_row (en_hash sample_env) (stored_frame ''f1'')) = []"
    by (simp add: new_artifact_row_def stored_frame_def)
  have none: "parents_of ?db a = []" for a
    using parents by (simp add: parents_of_def frame_archive_def)
  have "so_edges ?db = []" by (simp add: frame_archive_def empty_store_def)
  then have "member_ok sample_env ?db ''f1''"
    using row parents read_row_of [OF first_frame_row] by (simp add: member_ok_def edges_from_def)
  moreover have "parent_edge ?db = {}" using none by (simp add: parent_edge_def)
  then have "ancestors ?db {''f1''} = {''f1''}" "acyclic_below ?db {''f1''}" by (simp_all add: ancestors_def acyclic_below_def)
  ultimately show ?thesis by (simp add: closure_sound_def)
qed

lemma frame_archive_valid: "validate_snapshot_artifacts sample_env (rc_store frame_archive) sid ''content.snapshot.v2'' [''f1''] = Inr ()"
  using closure_validation [of "rc_store frame_archive" "[''f1'']" sample_env sid] frame_archive_sound by (simp add: closure_sound_def)

lemma frame_snapshot_fields:
  "cs_artifact_ids frame_snapshot = [(''frame'', ''f1'')]" "cs_id frame_snapshot = ''cs-h''"
  "cs_schema_version frame_snapshot = ''content.snapshot.v2''" "cs_created_at frame_snapshot = Aware 0 0"
  "readable_snapshot frame_snapshot"
proof -
  show "cs_artifact_ids frame_snapshot = [(''frame'', ''f1'')]" "cs_id frame_snapshot = ''cs-h''"
    "cs_schema_version frame_snapshot = ''content.snapshot.v2''" "cs_created_at frame_snapshot = Aware 0 0"
    by (simp_all add: frame_snapshot_def sample_snapshot_def snapshot_draft_def sample_request_def sample_env_def v2_schema_def)
  have "datetime_ok (Aware 0 0)" by code_simp
  then show "readable_snapshot frame_snapshot"
    by (simp add: readable_snapshot_def frame_snapshot_def sample_snapshot_def snapshot_draft_def sample_request_def)
qed

definition frame_request :: snapshot_args where
  "frame_request = sample_request\<lparr>sa_artifact_ids := [(''frame'', ''f1'')]\<rparr>"

lemma frame_built: "build_content_snapshot (en_hash sample_env) no_deployment frame_request = Inr frame_snapshot"
  unfolding frame_request_def frame_snapshot_def by (rule snapshot_sample_built)

lemma frame_request_fields: "sa_artifact_ids frame_request \<noteq> []" "sa_source_artifact_id frame_request = []"
  by (simp_all add: frame_request_def sample_request_def)

lemma frame_archive_empty: "rc_snapshots frame_archive = []" "rc_members frame_archive = []"
  by (simp_all add: frame_archive_def)

lemma frame_snapshot_clean: "redact_fields (snapshot_fields frame_snapshot) = Inr (snapshot_fields frame_snapshot)"
  by code_simp

text \<open>
  C12. Take a snapshot that its constructor built with at least one artifact and no source artifact but that of its
  source slot, with its version and kind texts set and its time in UTC, that redaction leaves as it is (see the finding
  for those it does not), under an id of which neither a row nor a member is stored and whose membership ids do not
  collide. If every ancestor of its artifacts is stored with a valid row and the edges that row implies, and none is
  its own ancestor, the save succeeds: the constructor establishes everything else the store validates, the snapshot
  reads back unchanged, the head of its source takes it in, and the artifact store is as before. Otherwise the save
  raises \<open>SnapshotIntegrityError\<close>.
\<close>

theorem snapshot_roundtrip:
  assumes "build_content_snapshot (en_hash env) dp a = Inr s" and "sa_artifact_ids a \<noteq> []"
    and "sa_source_artifact_id a \<in> {[], str_get ''source'' (sa_artifact_ids a)}"
    and "redact_fields (snapshot_fields s) = Inr (snapshot_fields s)" and "readable_snapshot s"
    and "snapshot_row_of (cs_id s) db = None" and "members_of (rc_members db) (cs_id s) = []"
    and "distinct (map (\<lambda>e. member_id (en_hash env) (cs_id s) (fst e) (snd e)) (cs_artifact_ids s))"
    and "\<forall>e \<in> set (cs_artifact_ids s). row_get sm_member_id (member_id (en_hash env) (cs_id s) (fst e) (snd e)) (rc_members db) = None"
  shows "if closure_sound env (rc_store db) (map snd (cs_artifact_ids s))
    then \<exists>db'. save_snapshot env s db = Inr (s, db') \<and> get_snapshot env (cs_id s) db' = Inr (Some s) \<and>
      rc_store db' = rc_store db \<and>
      rc_heads db' = snapshot_upsert_head (source_identity_hash (en_hash env) s) (cs_id s) (instant_of (cs_created_at s)) (rc_heads db)
    else snapshot_failure (save_snapshot env s db)"
proof (cases "closure_sound env (rc_store db) (map snd (cs_artifact_ids s))")
  case True
  then have "validate_snapshot_artifacts env (rc_store db) (cs_id s) ''content.snapshot.v2'' (map snd (cs_artifact_ids s)) = Inr ()"
    using closure_validation [of "rc_store db" "map snd (cs_artifact_ids s)" env "cs_id s"] by (simp add: closure_sound_def)
  from fresh_save [OF assms this] True show ?thesis by simp
next
  case False
  with unsound_save [OF assms(1-4) False] show ?thesis by simp
qed

theorem snapshot_roundtrip_witness:
  "(\<exists>db'. save_snapshot sample_env frame_snapshot frame_archive = Inr (frame_snapshot, db') \<and>
      get_snapshot sample_env ''cs-h'' db' = Inr (Some frame_snapshot)) \<and>
   snapshot_failure (save_snapshot sample_env frame_snapshot (frame_archive\<lparr>rc_store := empty_store\<rparr>))"
proof -
  have empty: "\<not> closure_sound sample_env empty_store [''f1'']"
    by (auto simp: closure_sound_def ancestors_def member_ok_def empty_store_def)
  show ?thesis
    using snapshot_roundtrip [OF frame_built frame_request_fields(1) _ frame_snapshot_clean frame_snapshot_fields(5), of frame_archive]
      snapshot_roundtrip [OF frame_built frame_request_fields(1) _ frame_snapshot_clean frame_snapshot_fields(5),
        of "frame_archive\<lparr>rc_store := empty_store\<rparr>"] frame_archive_sound empty
    by (auto simp: frame_snapshot_fields frame_request_fields(2) frame_archive_empty snapshot_row_of_def members_of_def)
qed

text \<open>
  C11. A snapshot that was saved is permanent. Whatever other saves, publications and writes of artifacts and
  checkpoints follow, with whatever arguments, its row is never changed or removed, it stays valid with its
  membership and its complete provenance, and reading it gives what it gave right after the save.
\<close>

theorem snapshot_durable:
  assumes "save_snapshot env s db = Inr (s', db')" and "store_ok env (rc_store db)" and "distinct_slots db"
    and "cs_schema_version s = ''content.snapshot.v2''" and "distinct (map fst (cs_artifact_ids s))"
    and "\<forall>op \<in> set ops. archive_op_ok env op"
  shows "\<exists>row. snapshot_row_of (cs_id s) db' = Some row \<and> snapshot_row_of (cs_id s) (archive_run env db' ops) = Some row \<and>
    validate_snapshot_row env (archive_run env db' ops) row = Inr () \<and>
    get_snapshot env (cs_id s) (archive_run env db' ops) = get_snapshot env (cs_id s) db'"
proof -
  obtain row where row: "sn_id row = cs_id s" "published env row db'"
    using save_published [OF assms(1,2) _ assms(5)] assms(3,4) by (auto simp: distinct_slots_def v2_schema_def)
  have later: "published env row (archive_run env db' ops)" by (rule published_run [OF row(2) assms(6)])
  have "get_snapshot env (cs_id s) (archive_run env db' ops) = get_snapshot env (cs_id s) db'"
    unfolding row(1) [symmetric] by (rule published_same_reading [OF row(2) later])
  with row later show ?thesis by (auto simp: published_def snapshot_row_of_def)
qed

theorem snapshot_durable_witness:
  "\<exists>db'. save_snapshot sample_env frame_snapshot frame_archive = Inr (frame_snapshot, db') \<and>
     get_snapshot sample_env ''cs-h'' (archive_run sample_env db'
       [Artifact_Write (Put_Artifact (stored_frame ''f2'')), Save frame_snapshot]) = Inr (Some frame_snapshot)"
proof -
  obtain db' where db': "save_snapshot sample_env frame_snapshot frame_archive = Inr (frame_snapshot, db')"
    "get_snapshot sample_env ''cs-h'' db' = Inr (Some frame_snapshot)"
    using fresh_save [OF frame_built frame_request_fields(1) _ frame_snapshot_clean frame_snapshot_fields(5), of frame_archive]
      frame_archive_valid
    by (auto simp: frame_snapshot_fields frame_request_fields(2) frame_archive_empty snapshot_row_of_def members_of_def)
  have "storable sample_env (stored_frame ''f2'')" by (rule stored_frame_ok) code_simp
  then have ops: "\<forall>op \<in> set [Artifact_Write (Put_Artifact (stored_frame ''f2'')), Save frame_snapshot]. archive_op_ok sample_env op"
    by (simp add: storable_op_def frame_snapshot_fields)
  have "distinct_slots frame_archive" by (simp add: distinct_slots_def frame_archive_empty)
  from snapshot_durable [OF db'(1) frame_archive_ok this frame_snapshot_fields(3) _ ops] db'
  show ?thesis by (auto simp: frame_snapshot_fields)
qed

end
