(* ===== verification/Snapshot_Service.thy ===== *)
theory Snapshot_Service
  imports Snapshot
begin

text \<open>
  The snapshot service and its in-memory store (\<open>application/snapshot_service.py\<close>): the service aligns the
  provenance before the constructor aligns it again, which is shown to be the same as aligning it once.
\<close>

section \<open>Commit time\<close>

text \<open>\<open>max\<close> of aware datetimes: the first of the latest.\<close>

definition latest_time :: "pydt list \<Rightarrow> pydt" where
  "latest_time ts = foldl (\<lambda>m t. if instant_of t > instant_of m then t else m) (hd ts) (tl ts)"

definition choose_snapshot_commit_candidate ::
  "pydt \<Rightarrow> pydt \<Rightarrow> pydt option \<Rightarrow> pydt option \<Rightarrow> pydt option \<Rightarrow> pydt option \<Rightarrow> pydt result" where
  "choose_snapshot_commit_candidate ingested extracted source reference external candidate =
     (let minimum = latest_time (ingested # extracted # List.map_filter id [source, reference, external])
      in case candidate of
           None \<Rightarrow> Inr minimum
         | Some t \<Rightarrow> if instant_of t < instant_of minimum
             then Inl (ValueError ''snapshot commit candidate precedes an available dependency'') else Inr t)"

lemma latest_fold:
  "instant_of (foldl (\<lambda>m t. if instant_of t > instant_of m then t else m) m ts) = foldl max (instant_of m) (map instant_of ts)"
  by (induction ts arbitrary: m) (auto simp: max_def)

lemma latest_time_upper: "t \<in> set (m # ts) \<Longrightarrow> instant_of t \<le> instant_of (latest_time (m # ts))"
proof -
  have mono: "a \<le> foldl max a xs" for a :: int and xs
  proof (induction xs arbitrary: a)
    case (Cons y ys)
    from Cons.IH [of "max a y"] show ?case by simp
  qed simp
  have upper: "x \<le> foldl max a xs" if "x = a \<or> x \<in> set xs" for x a :: int and xs
    using that
  proof (induction xs arbitrary: a)
    case (Cons y ys)
    from Cons.IH [of "max a y"] mono [of "max a y" ys] Cons.prems show ?case by auto
  qed simp
  assume "t \<in> set (m # ts)"
  then show ?thesis unfolding latest_time_def by (simp add: latest_fold) (metis upper image_eqI list.set_map)
qed

text \<open>A commit time that was chosen is not before anything the snapshot depends on.\<close>

lemma commit_candidate_late_enough:
  assumes "choose_snapshot_commit_candidate ingested extracted source reference external candidate = Inr t"
    and "d \<in> set (ingested # extracted # List.map_filter id [source, reference, external])"
  shows "instant_of d \<le> instant_of t"
proof -
  have "instant_of (latest_time (ingested # extracted # List.map_filter id [source, reference, external])) \<le> instant_of t"
    using assms(1) by (auto simp: choose_snapshot_commit_candidate_def Let_def split: option.splits if_splits)
  with latest_time_upper [OF assms(2)] show ?thesis by simp
qed

section \<open>The in-memory store\<close>

type_synonym memory_store = "(string \<times> snapshot) list"

definition memory_save :: "snapshot \<Rightarrow> memory_store \<Rightarrow> (snapshot \<times> memory_store) result" where
  "memory_save s st =
     (case map_of st (cs_id s) of
        None \<Rightarrow> Inr (s, AList.update (cs_id s) s st)
      | Some existing \<Rightarrow>
          try_bind (redact_fields (snapshot_fields existing)) (\<lambda>left.
          try_bind (redact_fields (snapshot_fields s)) (\<lambda>right.
          if same_dict left right then Inr (existing, st)
          else Inl (SnapshotIntegrityError (''snapshot id '' @ cs_id s @ '' already stores a different payload'')))))"

definition memory_get :: "string \<Rightarrow> memory_store \<Rightarrow> snapshot option" where
  "memory_get sid st = map_of st sid"

definition memory_list_for_source :: "string \<Rightarrow> string \<Rightarrow> memory_store \<Rightarrow> snapshot list" where
  "memory_list_for_source ty ref st =
     sort_key (\<lambda>s. instant_of (cs_created_at s)) (filter (\<lambda>s. cs_source_type s = ty \<and> cs_source_ref s = ref) (map snd st))"

lemma memory_save_keeps: "memory_save s st = Inr (t, st') \<Longrightarrow> memory_get sid st = Some x \<Longrightarrow> memory_get sid st' = Some x"
  by (auto simp: memory_save_def memory_get_def try_bind_Inr_iff update_conv' split: option.splits if_splits)

section \<open>The service\<close>

text \<open>\<open>record_from_artifacts\<close> without the save: the provenance by truthiness, the model names from one mapping.\<close>

definition model_version_or :: "string \<Rightarrow> string \<Rightarrow> pydict \<Rightarrow> string" where
  "model_version_or k d models = str_field k d models"

definition record_from_artifacts :: "(string \<Rightarrow> string) \<Rightarrow> deployment \<Rightarrow> snapshot_args \<Rightarrow> snapshot result" where
  "record_from_artifacts H dp a =
     (let models = sa_model_versions a in
      try_bind (object_or_empty (TypeError ''producer_manifest'') (sa_producer_manifest a)) (\<lambda>manifest.
      try_bind
        (if truthy (sa_code_sha a) then Inr (str_or (sa_code_sha a) [])
         else if py_truthy (field ''code_sha'' manifest) then Inr (py_str (field ''code_sha'' manifest))
         else default_code_sha dp) (\<lambda>code.
      try_bind (if py_truthy (field ''configs'' manifest) then object_or_empty (TypeError ''configs'') (field ''configs'' manifest)
                else Inr []) (\<lambda>configs.
      let config =
          (if sa_config_hash a \<noteq> [] then sa_config_hash a
           else if py_truthy (field ''config_hash'' configs) then py_str (field ''config_hash'' configs)
           else compute_config_hash H (sa_configuration a));
          manifest = AList.update ''configs'' (JObj (AList.update ''config_hash'' (JStr config) configs))
            (AList.update ''code_sha'' (JStr code) manifest)
      in build_content_snapshot H dp (a\<lparr>
           sa_source_artifact_id := (if sa_source_artifact_id a \<noteq> [] then sa_source_artifact_id a
             else str_get ''source'' (sa_artifact_ids a)),
           sa_artifact_root_hash := None, sa_parser_version := field ''parser_version'' models,
           sa_asr_model := field ''asr_model'' models, sa_asr_model_version := field ''asr_model_version'' models,
           sa_vision_model := field ''vision_model'' models, sa_llm_model := field ''llm_model'' models,
           sa_prompt_bundle_version := model_version_or ''prompt_bundle_version'' ''prompt_bundle.v1'' models,
           sa_entity_alias_version := model_version_or ''entity_alias_version'' ''entity_alias.v1'' models,
           sa_verification_policy_version := model_version_or ''verification_policy_version'' ''verification_policy.v1'' models,
           sa_code_sha := Some code, sa_config_hash := config, sa_producer_manifest := JObj manifest\<rparr>)))))"

text \<open>On string values of the manifest the service computes what the constructor would have computed alone.\<close>

definition text_value :: "json \<Rightarrow> bool" where
  "text_value v \<longleftrightarrow> v = JNull \<or> (\<exists>s. v = JStr s)"

lemma text_value_present: "text_value v \<Longrightarrow> py_truthy v \<longleftrightarrow> is_present v"
  by (auto simp: text_value_def is_present_def)

lemma record_provenance:
  assumes "object_or_empty e (sa_producer_manifest a) = Inr manifest"
    and "text_value (field ''code_sha'' manifest)" and "field ''configs'' manifest = JNull \<or> (\<exists>c. field ''configs'' manifest = JObj c)"
    and "\<forall>c. field ''configs'' manifest = JObj c \<longrightarrow> text_value (field ''config_hash'' c)"
    and "normalize_producer_manifest H dp (sa_producer_manifest a) (sa_code_sha a) (Some (sa_config_hash a)) (sa_configuration a)
      = Inr (code, config, manifest')" and "code \<noteq> []" and "config \<noteq> []"
  shows "record_from_artifacts H dp a =
    build_content_snapshot H dp (a\<lparr>
      sa_source_artifact_id := (if sa_source_artifact_id a \<noteq> [] then sa_source_artifact_id a
        else str_get ''source'' (sa_artifact_ids a)),
      sa_artifact_root_hash := None, sa_parser_version := field ''parser_version'' (sa_model_versions a),
      sa_asr_model := field ''asr_model'' (sa_model_versions a), sa_asr_model_version := field ''asr_model_version'' (sa_model_versions a),
      sa_vision_model := field ''vision_model'' (sa_model_versions a), sa_llm_model := field ''llm_model'' (sa_model_versions a),
      sa_prompt_bundle_version := model_version_or ''prompt_bundle_version'' ''prompt_bundle.v1'' (sa_model_versions a),
      sa_entity_alias_version := model_version_or ''entity_alias_version'' ''entity_alias.v1'' (sa_model_versions a),
      sa_verification_policy_version := model_version_or ''verification_policy_version'' ''verification_policy.v1'' (sa_model_versions a)\<rparr>)"
proof -
  let ?a = "a\<lparr>
      sa_source_artifact_id := (if sa_source_artifact_id a \<noteq> [] then sa_source_artifact_id a
        else str_get ''source'' (sa_artifact_ids a)),
      sa_artifact_root_hash := None, sa_parser_version := field ''parser_version'' (sa_model_versions a),
      sa_asr_model := field ''asr_model'' (sa_model_versions a), sa_asr_model_version := field ''asr_model_version'' (sa_model_versions a),
      sa_vision_model := field ''vision_model'' (sa_model_versions a), sa_llm_model := field ''llm_model'' (sa_model_versions a),
      sa_prompt_bundle_version := model_version_or ''prompt_bundle_version'' ''prompt_bundle.v1'' (sa_model_versions a),
      sa_entity_alias_version := model_version_or ''entity_alias_version'' ''entity_alias.v1'' (sa_model_versions a),
      sa_verification_policy_version := model_version_or ''verification_policy_version'' ''verification_policy.v1'' (sa_model_versions a)\<rparr>"
  have manifest: "object_or_empty e' (sa_producer_manifest a) = Inr manifest" for e'
    using assms(1) by (auto simp: object_or_empty_def split: json.splits)
  have configs: "(if py_truthy (field ''configs'' manifest) then object_or_empty e' (field ''configs'' manifest) else Inr []) =
      object_or_empty e'' (field ''configs'' manifest)" for e' e''
    using assms(3) by (auto simp: object_or_empty_def)
  have config_text: "text_value (field ''config_hash'' c)" if "object_or_empty e' (field ''configs'' manifest) = Inr c" for e' c
    using that assms(3,4) by (auto simp: object_or_empty_def text_value_def field_def dict_get_def)
  have "record_from_artifacts H dp a =
      build_content_snapshot H dp (?a\<lparr>sa_code_sha := Some code, sa_config_hash := config, sa_producer_manifest := JObj manifest'\<rparr>)"
    using assms(5) configs [of "TypeError ''configs''" "ValueError ''producer_manifest.configs must be an object''"]
    by (auto simp: record_from_artifacts_def normalize_producer_manifest_def manifest try_bind_Inr_iff Let_def
        text_value_present assms(2) config_text split: if_splits)
  also have "\<dots> = build_content_snapshot H dp ?a"
    using assms(5) normalize_idempotent [OF assms(5-7), of dp]
    by (simp add: build_content_snapshot_def snapshot_draft_def)
  finally show ?thesis .
qed

end
