(* ===== verification/Artifact_Registry.thy ===== *)
theory Artifact_Registry
  imports Artifacts
begin

text \<open>
  \<open>ArtifactRegistry\<close> (\<open>domain/artifacts.py\<close>): the typed slots through which the stages of the pipeline
  hand artifacts to each other. The single-valued attributes are one map from slot names, the visual
  attributes lists. An exception leaves the registry as it was.
\<close>

section \<open>Slots\<close>

definition artifact_slot_names :: "string list" where
  "artifact_slot_names = [''source'', ''media'', ''transcript'', ''evidence'', ''claims'', ''verification'',
     ''knowledge'', ''summary'']"

definition single_artifact_slot_names :: "string list" where
  "single_artifact_slot_names = [''semantic_segments'', ''occurrences'', ''lifecycle'',
     ''transcript_visual_crosscheck'', ''security_entity_alignment'', ''knowledge_visual_evidence'']"

definition visual_artifact_slot_names :: "string list" where
  "visual_artifact_slot_names = [''frames'', ''ocr'', ''vision'']"

record registry =
  rg_slots :: "(string \<times> artifact) list"
  rg_visual :: "(string \<times> artifact list) list"

definition empty_registry :: registry where
  "empty_registry = \<lparr>rg_slots = [], rg_visual = []\<rparr>"

definition slot_of :: "string \<Rightarrow> registry \<Rightarrow> artifact option" where
  "slot_of slot reg = map_of (rg_slots reg) slot"

definition visual_of :: "string \<Rightarrow> registry \<Rightarrow> artifact list" where
  "visual_of slot reg = (case map_of (rg_visual reg) slot of None \<Rightarrow> [] | Some as \<Rightarrow> as)"

definition set_slot :: "string \<Rightarrow> artifact \<Rightarrow> registry \<Rightarrow> registry" where
  "set_slot slot a reg = reg\<lparr>rg_slots := AList.update slot a (rg_slots reg)\<rparr>"

definition present :: "string list \<Rightarrow> registry \<Rightarrow> artifact list" where
  "present slots reg = List.map_filter (\<lambda>s. slot_of s reg) slots"

definition visual_artifacts :: "registry \<Rightarrow> artifact list" where
  "visual_artifacts reg = concat (map (\<lambda>s. visual_of s reg) visual_artifact_slot_names)"

definition artifacts :: "registry \<Rightarrow> artifact list" where
  "artifacts reg = present artifact_slot_names reg @ visual_artifacts reg @ present single_artifact_slot_names reg"

definition enumerate_ids :: "string \<Rightarrow> artifact list \<Rightarrow> (string \<times> string) list" where
  "enumerate_ids slot as =
     map (\<lambda>(i, a). (slot @ '':'' @ nat_str i, af_artifact_id a)) (List.enumerate 0 (sort_key af_artifact_id as))"

definition slot_ids :: "string list \<Rightarrow> registry \<Rightarrow> (string \<times> string) list" where
  "slot_ids slots reg =
     List.map_filter (\<lambda>s. map_option (\<lambda>a. (s, af_artifact_id a)) (slot_of s reg)) slots"

definition artifact_ids :: "registry \<Rightarrow> (string \<times> string) list" where
  "artifact_ids reg = slot_ids artifact_slot_names reg @ slot_ids single_artifact_slot_names reg @
     concat (map (\<lambda>s. enumerate_ids s (visual_of s reg)) visual_artifact_slot_names)"

section \<open>Operations\<close>

definition payload_conflict :: "artifact \<Rightarrow> artifact \<Rightarrow> bool" where
  "payload_conflict a e \<longleftrightarrow> af_artifact_id e = af_artifact_id a \<and> af_content_hash e \<noteq> af_content_hash a"

definition different_payload :: "artifact \<Rightarrow> exn" where
  "different_payload a = ValueError (''artifact id '' @ af_artifact_id a @ '' already has a different payload'')"

definition single_class :: "string \<Rightarrow> artifact_class option" where
  "single_class slot = map_of
     [(''semantic_segments'', SemanticSegmentArtifact), (''occurrences'', ClaimOccurrenceArtifact),
      (''lifecycle'', LifecycleArtifact), (''transcript_visual_crosscheck'', TranscriptVisualCrosscheckArtifact),
      (''security_entity_alignment'', SecurityEntityAlignmentArtifact),
      (''knowledge_visual_evidence'', KnowledgeVisualEvidenceArtifact)] slot"

definition visual_class :: "string \<Rightarrow> artifact_class option" where
  "visual_class slot = map_of [(''frames'', FrameArtifact), (''ocr'', OCRArtifact), (''vision'', VisionArtifact)] slot"

definition reg_add :: "string \<Rightarrow> artifact \<Rightarrow> registry \<Rightarrow> registry result" where
  "reg_add slot a reg =
     (case visual_class slot of
        None \<Rightarrow> Inl (KeyError (''unknown visual artifact slot: '' @ slot))
      | Some cls \<Rightarrow>
          if af_class a \<noteq> cls then Inl (TypeError (slot @ '' expects another class''))
          else if list_ex (payload_conflict a) (artifacts reg) then Inl (different_payload a)
          else if list_ex (\<lambda>e. af_artifact_id e = af_artifact_id a) (visual_of slot reg) then Inr reg
          else Inr (reg\<lparr>rg_visual := AList.update slot (visual_of slot reg @ [a]) (rg_visual reg)\<rparr>))"

definition reg_set :: "string \<Rightarrow> artifact \<Rightarrow> registry \<Rightarrow> registry result" where
  "reg_set slot a reg =
     (case single_class slot of
        Some cls \<Rightarrow>
          if (case slot_of slot reg of None \<Rightarrow> False | Some e \<Rightarrow> payload_conflict a e) then Inl (different_payload a)
          else if af_class a \<noteq> cls then Inl (TypeError (slot @ '' expects another class''))
          else Inr (set_slot slot a reg)
      | None \<Rightarrow>
          if list_ex (payload_conflict a) (artifacts reg) then Inl (different_payload a)
          else if slot \<in> set visual_artifact_slot_names then reg_add slot a reg
          else if slot \<notin> set artifact_slot_names then Inl (KeyError (''unknown artifact slot: '' @ slot))
          else Inr (set_slot slot a reg))"

text \<open>A visual slot gives its list, which is never \<open>None\<close>.\<close>

datatype slot_value = Single "artifact option" | Visual "artifact list"

definition reg_get :: "string \<Rightarrow> registry \<Rightarrow> slot_value result" where
  "reg_get slot reg =
     (if slot \<in> set single_artifact_slot_names then Inr (Single (slot_of slot reg))
      else if slot \<in> set visual_artifact_slot_names then Inr (Visual (visual_of slot reg))
      else if slot \<notin> set artifact_slot_names then Inl (KeyError (''unknown artifact slot: '' @ slot))
      else Inr (Single (slot_of slot reg)))"

section \<open>Consistency\<close>

text \<open>One artifact id stands for one payload throughout the registry.\<close>

definition consistent :: "registry \<Rightarrow> bool" where
  "consistent reg \<longleftrightarrow>
     (\<forall>a \<in> set (artifacts reg). \<forall>b \<in> set (artifacts reg).
        af_artifact_id a = af_artifact_id b \<longrightarrow> af_content_hash a = af_content_hash b)"

lemma set_present: "set (present slots reg) = {a. \<exists>s \<in> set slots. slot_of s reg = Some a}"
  by (force simp: present_def List.map_filter_def)

lemma slot_of_set_slot: "slot_of s (set_slot slot a reg) = (if s = slot then Some a else slot_of s reg)"
  by (simp add: slot_of_def set_slot_def update_conv')

lemma visual_of_set_slot [simp]: "visual_of s (set_slot slot a reg) = visual_of s reg"
  by (simp add: visual_of_def set_slot_def)

lemma set_artifacts:
  "a \<in> set (artifacts reg) \<longleftrightarrow>
     (\<exists>s \<in> set artifact_slot_names \<union> set single_artifact_slot_names. slot_of s reg = Some a) \<or>
     (\<exists>s \<in> set visual_artifact_slot_names. a \<in> set (visual_of s reg))"
  by (auto simp: artifacts_def set_present visual_artifacts_def)

lemma artifacts_set_slot: "b \<in> set (artifacts (set_slot slot a reg)) \<Longrightarrow> b = a \<or> b \<in> set (artifacts reg)"
  by (auto simp: set_artifacts slot_of_set_slot split: if_splits)

lemma consistent_extend:
  assumes "consistent reg" and "\<not> list_ex (payload_conflict a) (artifacts reg)"
    and "\<And>b. b \<in> set (artifacts reg') \<Longrightarrow> b = a \<or> b \<in> set (artifacts reg)"
  shows "consistent reg'"
proof -
  have a: "af_content_hash e = af_content_hash a"
    if "e \<in> set (artifacts reg)" "af_artifact_id e = af_artifact_id a" for e
  proof (rule ccontr)
    assume "af_content_hash e \<noteq> af_content_hash a"
    with that(2) have "payload_conflict a e" by (simp add: payload_conflict_def)
    with that(1) have "list_ex (payload_conflict a) (artifacts reg)" unfolding list_ex_iff by (rule bexI [rotated])
    with assms(2) show False by simp
  qed
  have old: "af_content_hash e = af_content_hash f"
    if "e \<in> set (artifacts reg)" "f \<in> set (artifacts reg)" "af_artifact_id e = af_artifact_id f" for e f
    using assms(1) that unfolding consistent_def by blast
  show ?thesis
    unfolding consistent_def
  proof (intro ballI impI)
    fix b c assume b: "b \<in> set (artifacts reg')" and c: "c \<in> set (artifacts reg')"
      and same: "af_artifact_id b = af_artifact_id c"
    from assms(3) [OF b] show "af_content_hash b = af_content_hash c"
    proof
      assume "b = a"
      with assms(3) [OF c] a [of c] same show ?thesis by auto
    next
      assume "b \<in> set (artifacts reg)"
      with assms(3) [OF c] a [of b] old [of b c] same show ?thesis by auto
    qed
  qed
qed

lemma reg_add_artifacts:
  assumes "reg_add slot a reg = Inr reg'"
  shows "set (artifacts reg) \<subseteq> set (artifacts reg')" "\<not> list_ex (payload_conflict a) (artifacts reg)"
    "b \<in> set (artifacts reg') \<Longrightarrow> b = a \<or> b \<in> set (artifacts reg)"
proof -
  show "\<not> list_ex (payload_conflict a) (artifacts reg)"
    using assms by (auto simp: reg_add_def split: option.splits if_splits)
  consider "reg' = reg" | "reg' = reg\<lparr>rg_visual := AList.update slot (visual_of slot reg @ [a]) (rg_visual reg)\<rparr>"
    using assms by (auto simp: reg_add_def split: option.splits if_splits)
  then have "slot_of s reg' = slot_of s reg \<and> set (visual_of s reg) \<subseteq> set (visual_of s reg') \<and>
      set (visual_of s reg') \<subseteq> insert a (set (visual_of s reg))" for s
    by cases (auto simp: slot_of_def visual_of_def update_conv')
  then have same: "slot_of s reg' = slot_of s reg" and up: "x \<in> set (visual_of s reg) \<Longrightarrow> x \<in> set (visual_of s reg')"
    and down: "x \<in> set (visual_of s reg') \<Longrightarrow> x = a \<or> x \<in> set (visual_of s reg)" for s x by blast+
  show "set (artifacts reg) \<subseteq> set (artifacts reg')"
    unfolding subset_iff set_artifacts same using up by blast
  show "b \<in> set (artifacts reg') \<Longrightarrow> b = a \<or> b \<in> set (artifacts reg)"
    unfolding set_artifacts same using down by blast
qed

fun reg_sets :: "(string \<times> artifact) list \<Rightarrow> registry \<Rightarrow> registry result" where
  "reg_sets [] reg = Inr reg"
| "reg_sets ((slot, a) # sets) reg = try_bind (reg_set slot a reg) (reg_sets sets)"

lemma reg_set_consistent:
  assumes "reg_set slot a reg = Inr reg'" and "consistent reg" and "slot \<notin> set single_artifact_slot_names"
  shows "consistent reg'"
proof -
  have none: "single_class slot = None"
    using assms(3) by (simp add: single_class_def single_artifact_slot_names_def)
  note set = assms(1) [unfolded reg_set_def none option.case]
  have conflict: "\<not> list_ex (payload_conflict a) (artifacts reg)"
    using set by (rule contrapos_pn) simp
  consider "reg_add slot a reg = Inr reg'" | "reg' = set_slot slot a reg"
  proof (cases "slot \<in> set visual_artifact_slot_names")
    case True
    with set conflict that(1) show ?thesis by (simp only: if_True if_False)
  next
    case False
    with set conflict that(2) show ?thesis by (cases "slot \<in> set artifact_slot_names") (simp_all only: if_True if_False not_not sum.inject, simp_all)
  qed
  then show ?thesis
  proof cases
    case 1
    with reg_add_artifacts(3) consistent_extend [OF assms(2) conflict] show ?thesis by blast
  next
    case 2
    with artifacts_set_slot consistent_extend [OF assms(2) conflict] show ?thesis by blast
  qed
qed

lemma reg_sets_consistent:
  assumes "reg_sets sets reg = Inr reg'" and "consistent reg"
    and "\<And>slot a. (slot, a) \<in> set sets \<Longrightarrow> slot \<notin> set single_artifact_slot_names"
  shows "consistent reg'"
  using assms
proof (induction sets arbitrary: reg)
  case (Cons sa sets)
  obtain slot a where sa: "sa = (slot, a)" by (cases sa)
  with Cons.prems obtain mid where "reg_set slot a reg = Inr mid" "reg_sets sets mid = Inr reg'"
    by (auto simp: try_bind_Inr_iff)
  with Cons sa reg_set_consistent show ?case by (metis list.set_intros)
qed simp

text \<open>
  The single-valued slots of the semantic chain look at their own slot only: an id may then stand
  for two payloads, and later writes of either are refused.
\<close>

lemma single_slot_conflict:
  assumes "slot_of ''claims'' reg = Some e" and "payload_conflict a e" and "slot_of ''lifecycle'' reg = None"
    and "af_class a = LifecycleArtifact"
  shows "\<exists>reg'. reg_set ''lifecycle'' a reg = Inr reg' \<and> \<not> consistent reg'"
proof -
  have set: "reg_set ''lifecycle'' a reg = Inr (set_slot ''lifecycle'' a reg)"
    using assms(3,4) by (simp add: reg_set_def single_class_def)
  have "a \<in> set (artifacts (set_slot ''lifecycle'' a reg))" "e \<in> set (artifacts (set_slot ''lifecycle'' a reg))"
    using assms(1) unfolding set_artifacts slot_of_set_slot
    by (simp_all add: single_artifact_slot_names_def artifact_slot_names_def)
  then have "\<not> consistent (set_slot ''lifecycle'' a reg)"
    using assms(2) by (auto simp: consistent_def payload_conflict_def)
  with set show ?thesis by blast
qed

lemma if_Inl_Inr: "(if c then Inl e else m) = Inr x \<longleftrightarrow> \<not> c \<and> m = Inr x"
  by simp

lemma reg_set_cases:
  assumes "reg_set slot a reg = Inr reg'"
  shows "reg_add slot a reg = Inr reg' \<or> reg' = set_slot slot a reg"
proof (cases "single_class slot")
  case None
  note eq = assms [unfolded reg_set_def None option.case if_Inl_Inr]
  show ?thesis
  proof (cases "slot \<in> set visual_artifact_slot_names")
    case True
    with eq show ?thesis by (simp only: if_True simp_thms)
  next
    case False
    with eq show ?thesis by (simp only: if_False if_Inl_Inr sum.inject) blast
  qed
next
  case (Some cls)
  then show ?thesis using assms unfolding reg_set_def Some option.case if_Inl_Inr by (simp only: sum.inject) blast
qed

text \<open>Visual slots never lose an artifact, whatever is written.\<close>

lemma reg_set_visual:
  assumes "reg_set slot a reg = Inr reg'" and "e \<in> set (visual_of s reg)" and "s \<in> set visual_artifact_slot_names"
  shows "e \<in> set (visual_of s reg')"
proof -
  consider "reg_add slot a reg = Inr reg'" | "reg' = set_slot slot a reg"
    using reg_set_cases [OF assms(1)] by blast
  then show ?thesis
  proof cases
    case 1
    then have "visual_of s reg' = visual_of s reg \<or> set (visual_of s reg) \<subseteq> set (visual_of s reg')"
      by (auto simp: reg_add_def visual_of_def update_conv' split: option.splits if_splits)
    with assms(2) show ?thesis by auto
  qed (use assms(2) in simp)
qed

lemma reg_sets_keep:
  assumes "reg_sets sets reg = Inr reg'" and "e \<in> set (visual_of s reg)" and "s \<in> set visual_artifact_slot_names"
  shows "e \<in> set (visual_of s reg')"
  using assms
proof (induction sets arbitrary: reg)
  case (Cons sa sets)
  obtain slot a where sa: "sa = (slot, a)" by (cases sa)
  with Cons.prems obtain mid where "reg_set slot a reg = Inr mid" "reg_sets sets mid = Inr reg'"
    by (auto simp: try_bind_Inr_iff)
  with Cons reg_set_visual show ?case by blast
qed simp

lemma reg_set_written:
  assumes "reg_set slot a reg = Inr reg'" and "slot \<in> set visual_artifact_slot_names"
  shows "\<exists>e \<in> set (visual_of slot reg'). af_artifact_id e = af_artifact_id a"
proof -
  have "single_class slot = None" using assms(2) by (auto simp: single_class_def visual_artifact_slot_names_def)
  then have "reg_add slot a reg = Inr reg'"
    using assms unfolding reg_set_def by (auto split: if_split_asm)
  then show ?thesis
    by (auto simp: reg_add_def visual_of_def update_conv' list_ex_iff split: option.splits if_splits)
qed

lemma reg_sets_visual:
  assumes "reg_sets sets reg = Inr reg'" and "(slot, a) \<in> set sets" and "slot \<in> set visual_artifact_slot_names"
  shows "\<exists>e \<in> set (visual_of slot reg'). af_artifact_id e = af_artifact_id a"
  using assms
proof (induction sets arbitrary: reg)
  case (Cons sb sets)
  obtain slot' b where sb: "sb = (slot', b)" by (cases sb)
  with Cons.prems obtain mid where mid: "reg_set slot' b reg = Inr mid" "reg_sets sets mid = Inr reg'"
    by (auto simp: try_bind_Inr_iff)
  show ?case
  proof (cases "(slot, a) = sb")
    case True
    with sb mid(1) Cons.prems(3) reg_set_written [of slot a reg mid]
    obtain e where "e \<in> set (visual_of slot mid)" "af_artifact_id e = af_artifact_id a" by auto
    with reg_sets_keep [OF mid(2) _ Cons.prems(3)] show ?thesis by blast
  next
    case False
    with Cons mid show ?thesis by auto
  qed
qed simp

text \<open>
  The registry is consistent: after any sequence of writes to the original slots and the visual
  slots an artifact id stands for one payload only, and every frame, OCR or vision artifact that was
  written is still there.
\<close>

theorem registry_consistent:
  assumes "reg_sets sets empty_registry = Inr reg"
    and "\<forall>(slot, a) \<in> set sets. slot \<notin> set single_artifact_slot_names"
  shows "consistent reg \<and>
    (\<forall>(slot, a) \<in> set sets. slot \<in> set visual_artifact_slot_names \<longrightarrow>
       (\<exists>e \<in> set (visual_of slot reg). af_artifact_id e = af_artifact_id a))"
proof -
  have "consistent empty_registry"
    by (simp add: consistent_def artifacts_def present_def visual_artifacts_def empty_registry_def slot_of_def visual_of_def
        List.map_filter_def)
  with assms have "consistent reg" by (auto intro: reg_sets_consistent)
  moreover have "\<exists>e \<in> set (visual_of slot reg). af_artifact_id e = af_artifact_id a"
    if "(slot, a) \<in> set sets" "slot \<in> set visual_artifact_slot_names" for slot a
    by (rule reg_sets_visual [OF assms(1) that])
  ultimately show ?thesis by blast
qed

definition sample_frame :: "string \<Rightarrow> string \<Rightarrow> artifact" where
  "sample_frame aid hash =
     \<lparr>af_class = FrameArtifact, af_artifact_id = aid, af_artifact_type = ''frame'', af_schema_version = ''artifact.v1'',
      af_created_at = Aware 0 0, af_producer_stage = ''frames'', af_producer_version = ''1.0.0'', af_parent_ids = [],
      af_content_hash = hash, af_profile = Current, af_body = class_defaults FrameArtifact\<rparr>"

theorem registry_consistent_witness:
  "\<exists>reg. reg_sets [(''frames'', sample_frame ''f1'' ''h1''), (''source'', sample_frame ''s'' ''h2''),
        (''frames'', sample_frame ''f2'' ''h3''), (''frames'', sample_frame ''f1'' ''h1'')] empty_registry = Inr reg \<and>
      consistent reg \<and> length (visual_of ''frames'' reg) = 2"
proof -
  let ?sets = "[(''frames'', sample_frame ''f1'' ''h1''), (''source'', sample_frame ''s'' ''h2''),
        (''frames'', sample_frame ''f2'' ''h3''), (''frames'', sample_frame ''f1'' ''h1'')]"
  let ?reg = "projr (reg_sets ?sets empty_registry)"
  have run: "reg_sets ?sets empty_registry = Inr ?reg" and two: "length (visual_of ''frames'' ?reg) = 2" by code_simp+
  have "consistent ?reg"
    using registry_consistent [OF run] by (simp add: single_artifact_slot_names_def)
  with run two show ?thesis by blast
qed

end
