(* ===== verification/Stage_Runner.thy ===== *)
theory Stage_Runner
  imports Artifact_Store Artifact_Registry
begin

text \<open>
  \<open>StageRunner\<close> (\<open>application/stage_runner.py\<close>) and the context it runs a stage in
  (\<open>application/pipeline.py\<close>): the runner checks the inputs a stage declares, runs it, checks what it
  declares to produce, and records a succeeded or failed checkpoint with the identity of source, models
  and prompts. A stage is a parameter: a function on the run that raises or returns its artifacts.
\<close>

section \<open>Context and stages\<close>

text \<open>
  \<open>cx_state\<close> stands for what only the stages read and write: the typed state, the workspace, the trace
  and the heartbeat. A run is the context, the store that the repositories share, and the instants that
  successive readings of the clock give. A stage changes the context it is given and hands it back.
\<close>

record 's pipeline_context =
  cx_task_id :: string
  cx_source :: pydict
  cx_options :: pydict
  cx_state :: 's
  cx_artifacts :: registry
  cx_restored :: "(string \<times> artifact) list"
  cx_checkpoints :: "checkpoint_record list"
  cx_current_stage :: string
  cx_worker_id :: "string option"
  cx_fencing_token :: "int option"

record 's run =
  ru_context :: "'s pipeline_context"
  ru_store :: store
  ru_clock :: "nat \<Rightarrow> instant"
  ru_reads :: nat

definition now_of :: "'s run \<Rightarrow> instant" where
  "now_of run = ru_clock run (ru_reads run)"

definition ticked :: "'s run \<Rightarrow> 's run" where
  "ticked run = run\<lparr>ru_reads := Suc (ru_reads run)\<rparr>"

record stage_contract =
  sc_name :: string
  sc_version :: string
  sc_required_inputs :: "string list"
  sc_output_types :: "string list"
  sc_optional_output_types :: "string list"

text \<open>A production stage returns a \<open>StageResult\<close>; a legacy stage returns the context only.\<close>

datatype stage_result = StageResult "artifact list" | LegacyResult

record 's stage =
  st_name :: string
  st_required_inputs :: "string list"
  st_output_types :: "string list"
  st_optional_output_types :: "string list"
  st_execute :: "'s run \<Rightarrow> stage_result result \<times> 's run"

record 's runner =
  rn_stage :: "'s stage"
  rn_stage_version :: string
  rn_contract :: stage_contract
  rn_has_repository :: bool
  rn_legacy_fallback :: bool

definition rn_name :: "'s runner \<Rightarrow> string" where
  "rn_name rn = st_name (rn_stage rn)"

definition wrap_stage :: "(string \<times> string) list \<Rightarrow> bool \<Rightarrow> bool \<Rightarrow> 's stage \<Rightarrow> 's runner" where
  "wrap_stage versions has_repository legacy_fallback st =
     (let version = (case map_of versions (st_name st) of None \<Rightarrow> ''1.0.0'' | Some v \<Rightarrow> v)
      in \<lparr>rn_stage = st, rn_stage_version = version,
          rn_contract = \<lparr>sc_name = st_name st, sc_version = version, sc_required_inputs = st_required_inputs st,
            sc_output_types = st_output_types st, sc_optional_output_types = st_optional_output_types st\<rparr>,
          rn_has_repository = has_repository, rn_legacy_fallback = legacy_fallback\<rparr>)"

definition wrap_all :: "(string \<times> string) list \<Rightarrow> bool \<Rightarrow> bool \<Rightarrow> 's stage list \<Rightarrow> 's runner list" where
  "wrap_all versions has_repository legacy_fallback stages =
     map (wrap_stage versions has_repository legacy_fallback) stages"

section \<open>Contracts\<close>

text \<open>How Python prints a list of names, and an exception.\<close>

definition show_names :: "string list \<Rightarrow> string" where
  "show_names names =
     ''['' @ (case names of [] \<Rightarrow> [] | n # ns \<Rightarrow> CHR 0x27 # n @ [CHR 0x27] @
       concat (map (\<lambda>m. '', '' @ [CHR 0x27] @ m @ [CHR 0x27]) ns)) @ '']''"

fun exn_name :: "exn \<Rightarrow> string" where
  "exn_name (LeaseError m) = ''LeaseError''"
| "exn_name (ValueError m) = ''ValueError''"
| "exn_name (KeyError m) = ''KeyError''"
| "exn_name (TypeError m) = ''TypeError''"
| "exn_name (RuntimeError m) = ''RuntimeError''"
| "exn_name (StaleTaskLease m) = ''StaleTaskLease''"
| "exn_name (IdempotencyConflict m) = ''IdempotencyConflict''"
| "exn_name (IntegrityError m) = ''IntegrityError''"
| "exn_name (OutboxIntegrityError m) = ''SignalOutboxIntegrityError''"
| "exn_name (JobIntegrityError m) = ''VerificationJobIntegrityError''"
| "exn_name (CheckpointValidationError m) = ''CheckpointValidationError''"
| "exn_name (ArtifactIntegrityError m) = ''ArtifactIntegrityError''"
| "exn_name (SnapshotIntegrityError m) = ''SnapshotIntegrityError''"
| "exn_name (PublicationConflictError m) = ''PublicationConflictError''"
| "exn_name (ProviderError m) = ''ProviderError''"

fun exn_message :: "exn \<Rightarrow> string" where
  "exn_message (LeaseError m) = m"
| "exn_message (ValueError m) = m"
| "exn_message (KeyError m) = [CHR 0x27] @ m @ [CHR 0x27]"
| "exn_message (TypeError m) = m"
| "exn_message (RuntimeError m) = m"
| "exn_message (StaleTaskLease m) = m"
| "exn_message (IdempotencyConflict m) = m"
| "exn_message (IntegrityError m) = m"
| "exn_message (OutboxIntegrityError m) = m"
| "exn_message (JobIntegrityError m) = m"
| "exn_message (CheckpointValidationError m) = m"
| "exn_message (ArtifactIntegrityError m) = m"
| "exn_message (SnapshotIntegrityError m) = m"
| "exn_message (PublicationConflictError m) = m"
| "exn_message (ProviderError m) = m"

definition error_text :: "exn \<Rightarrow> string" where
  "error_text e = exn_name e @ '': '' @ exn_message e"

definition validate_inputs :: "'s runner \<Rightarrow> 's pipeline_context \<Rightarrow> unit result" where
  "validate_inputs rn ctx =
     try_bind (mapM (\<lambda>slot. try_bind (reg_get slot (cx_artifacts ctx)) (\<lambda>v. Inr (slot, v)))
       (sc_required_inputs (rn_contract rn))) (\<lambda>slots.
       let missing = map fst (filter (\<lambda>(slot, v). v = Single None) slots)
       in ensure (missing = [])
            (ValueError (''stage '' @ rn_name rn @ '' missing required artifacts: '' @ show_names missing)))"

definition validate_outputs :: "'s runner \<Rightarrow> artifact list \<Rightarrow> unit result" where
  "validate_outputs rn outputs =
     (let actual = map af_artifact_type outputs;
          declared = sc_output_types (rn_contract rn);
          undeclared = sort (remdups (filter (\<lambda>t. t \<notin> set declared) actual));
          missing = filter (\<lambda>t. t \<notin> set actual \<and> t \<notin> set (sc_optional_output_types (rn_contract rn))) declared
      in try_bind (ensure (undeclared = [])
           (ValueError (''stage '' @ rn_name rn @ '' produced undeclared outputs: '' @ show_names undeclared))) (\<lambda>_.
         ensure (missing = [])
           (ValueError (''stage '' @ rn_name rn @ '' missing declared outputs: '' @ show_names missing))))"

section \<open>The identity a checkpoint seals\<close>

text \<open>\<open>str(a or b or "")\<close>, and a dictionary of the entries that have a truthy value.\<close>

definition first_text :: "json list \<Rightarrow> string" where
  "first_text vs = (case find py_truthy vs of None \<Rightarrow> [] | Some v \<Rightarrow> py_str v)"

definition identity_entries :: "string set \<Rightarrow> (string \<times> json list) list \<Rightarrow> identity" where
  "identity_entries left_out entries =
     List.map_filter (\<lambda>(k, vs). case find py_truthy vs of
         None \<Rightarrow> None | Some v \<Rightarrow> if k \<in> left_out then None else Some (k, py_str v)) entries"

definition source_attr :: "string \<Rightarrow> 's pipeline_context \<Rightarrow> json" where
  "source_attr k ctx = (case slot_of ''source'' (cx_artifacts ctx) of None \<Rightarrow> JNull | Some a \<Rightarrow> field k (af_body a))"

definition public_materialization_hash :: "(string \<Rightarrow> string) \<Rightarrow> 's pipeline_context \<Rightarrow> string" where
  "public_materialization_hash H ctx =
     H (canonical_json (JObj
       [(''source_type'', JStr (first_text [source_attr ''source_type'' ctx, field ''type'' (cx_source ctx)])),
        (''source_ref'', JStr (first_text [source_attr ''source_ref'' ctx, field ''ref'' (cx_source ctx)])),
        (''source_identity_hash'', JStr (first_text [source_attr ''source_identity_hash'' ctx])),
        (''source_version_id'', JStr (first_text [source_attr ''source_version_id'' ctx]))]))"

definition pipeline_config :: "'s pipeline_context \<Rightarrow> pydict result" where
  "pipeline_config ctx =
     (let v = field ''pipeline_config'' (cx_options ctx)
      in if \<not> py_truthy v then Inr []
         else (case v of JObj d \<Rightarrow> Inr d | _ \<Rightarrow> Inl (TypeError ''pipeline_config'')))"

definition text_only_semantic_context :: "'s pipeline_context \<Rightarrow> bool" where
  "text_only_semantic_context ctx \<longleftrightarrow>
     cx_current_stage ctx = ''semantic_context'' \<and> visual_artifacts (cx_artifacts ctx) = []"

definition visual_model_keys :: "string set" where
  "visual_model_keys = {''knowledge_evidence_window_planner'', ''knowledge_frame_planner'',
     ''transcript_visual_crosscheck'', ''security_entity_alignment'', ''ocr_engine'', ''ocr_engine_version'',
     ''ocr_requested_device'', ''vision'', ''vision_version''}"

definition visual_prompt_keys :: "string set" where
  "visual_prompt_keys = {''vision'', ''vision_adapter''}"

definition model_identity_entries :: "pydict \<Rightarrow> pydict \<Rightarrow> (string \<times> json list) list" where
  "model_identity_entries opts config =
     [(''asr'', [field ''asr_model'' opts, JStr ''faster-whisper'']),
      (''asr_version'', [field ''asr_model_version'' opts, JStr ''1.0'']),
      (''segmentation'', [field ''segmentation_model'' opts, field ''segmentation_model'' config]),
      (''extraction'', [field ''extraction_model'' opts, field ''extraction_model'' config]),
      (''knowledge_evidence_window_planner'', [field ''knowledge_evidence_window_planner_version'' config]),
      (''knowledge_frame_planner'', [field ''knowledge_frame_planner_version'' config]),
      (''transcript_visual_crosscheck'', [field ''transcript_visual_crosscheck_version'' config]),
      (''security_entity_alignment'', [field ''security_entity_alignment_version'' config]),
      (''ocr_engine'', [field ''ocr_engine'' config, field ''ocr_model'' opts]),
      (''ocr_engine_version'', [field ''ocr_engine_version'' config, field ''ocr_model_version'' opts]),
      (''ocr_requested_device'', [field ''ocr_device'' config]),
      (''vision'', [field ''vision_model'' config, field ''vision_model'' opts]),
      (''vision_version'', [field ''vision_model_version'' config, field ''vision_model_version'' opts])]"

definition prompt_identity_entries :: "pydict \<Rightarrow> pydict \<Rightarrow> (string \<times> json list) list" where
  "prompt_identity_entries opts config =
     [(''segmentation'', [field ''segmentation_prompt_version'' opts, field ''segmentation_prompt_version'' config]),
      (''extraction'', [field ''atomic_claim_prompt_version'' opts, field ''extraction_prompt_version'' config]),
      (''chapter_thesis'', [field ''chapter_thesis_prompt_version'' config]),
      (''vision'', [field ''vision_prompt_version'' opts, field ''vision_prompt_version'' config]),
      (''vision_adapter'', [field ''vision_adapter_version'' config])]"

definition ocr_runtime_entries :: "pydict \<Rightarrow> identity \<Rightarrow> identity" where
  "ocr_runtime_entries opts model =
     (case field ''ocr_runtime_identity'' opts of
        JObj d \<Rightarrow>
          if d = [] then model
          else AList.update ''ocr_runtime_identity'' (canonical_json (JObj d))
                 (AList.update ''ocr_actual_device'' (first_text [field ''actual_device'' d]) model)
      | _ \<Rightarrow> model)"

record run_identity =
  ri_public_materialization_hash :: string
  ri_model_identity :: identity
  ri_prompt_identity :: identity
  ri_worker_id :: "string option"
  ri_fencing_token :: "int option"

definition checkpoint_identity :: "(string \<Rightarrow> string) \<Rightarrow> 's pipeline_context \<Rightarrow> run_identity result" where
  "checkpoint_identity H ctx =
     try_bind (pipeline_config ctx) (\<lambda>config.
       let opts = cx_options ctx;
           text_only = text_only_semantic_context ctx;
           model = identity_entries (if text_only then visual_model_keys else {}) (model_identity_entries opts config);
           prompt = identity_entries (if text_only then visual_prompt_keys else {}) (prompt_identity_entries opts config)
       in Inr \<lparr>ri_public_materialization_hash = public_materialization_hash H ctx,
               ri_model_identity = (if text_only then model else ocr_runtime_entries opts model),
               ri_prompt_identity = prompt, ri_worker_id = cx_worker_id ctx,
               ri_fencing_token = cx_fencing_token ctx\<rparr>)"

section \<open>Running a stage\<close>

definition runner_args ::
  "'s runner \<Rightarrow> artifact list \<Rightarrow> run_identity \<Rightarrow> instant \<Rightarrow> artifact list \<Rightarrow> string \<Rightarrow> string option \<Rightarrow> checkpoint_args" where
  "runner_args rn inputs ident started outputs status err =
     \<lparr>ca_stage = rn_name rn, ca_stage_version = rn_stage_version rn,
      ca_input_artifact_ids = map af_artifact_id inputs, ca_input_hashes = map af_content_hash inputs,
      ca_outputs = outputs, ca_public_materialization_hash = ri_public_materialization_hash ident,
      ca_model_identity = Some (ri_model_identity ident), ca_prompt_identity = Some (ri_prompt_identity ident),
      ca_worker_id = ri_worker_id ident, ca_fencing_token = ri_fencing_token ident,
      ca_started_at = Some (Aware started 0), ca_finished_at = None, ca_status = status, ca_retry_count = 0,
      ca_error = err\<rparr>"

definition add_checkpoint :: "checkpoint_record \<Rightarrow> 's run \<Rightarrow> 's run" where
  "add_checkpoint ck run =
     run\<lparr>ru_context := (ru_context run)\<lparr>cx_checkpoints := cx_checkpoints (ru_context run) @ [ck]\<rparr>\<rparr>"

definition persist_checkpoint ::
  "surroundings \<Rightarrow> 's runner \<Rightarrow> artifact list \<Rightarrow> checkpoint_record \<Rightarrow> 's run \<Rightarrow> unit result \<times> 's run" where
  "persist_checkpoint env rn outputs ck run =
     (if \<not> rn_has_repository rn then (Inr (), run)
      else (let ctx = ru_context run;
                stored = (case (cx_worker_id ctx, cx_fencing_token ctx) of
                    (Some w, Some tok) \<Rightarrow>
                      if w = [] then put_with_checkpoint env outputs (cx_task_id ctx) ck (ru_store run)
                      else put_with_fenced_checkpoint env (now_of run) outputs (cx_task_id ctx) ck w tok (ru_store run)
                  | _ \<Rightarrow> put_with_checkpoint env outputs (cx_task_id ctx) ck (ru_store run))
            in case stored of
                 Inl e \<Rightarrow> (Inl e, ticked run)
               | Inr db \<Rightarrow> (Inr (), (ticked run)\<lparr>ru_store := db\<rparr>)))"

definition record_checkpoint ::
  "surroundings \<Rightarrow> 's runner \<Rightarrow> checkpoint_args \<Rightarrow> 's run \<Rightarrow> unit result \<times> 's run" where
  "record_checkpoint env rn args run =
     (case build_checkpoint (en_hash env) (now_of run) args of
        Inl e \<Rightarrow> (Inl e, ticked run)
      | Inr ck \<Rightarrow> persist_checkpoint env rn (ca_outputs args) ck (add_checkpoint ck (ticked run)))"

text \<open>The body of the \<open>try\<close>: \<open>None\<close> stands for the outputs that a legacy stage does not declare.\<close>

definition attempt_stage :: "'s runner \<Rightarrow> 's run \<Rightarrow> artifact list option result \<times> 's run" where
  "attempt_stage rn run =
     (case st_execute (rn_stage rn) run of
        (Inl e, run') \<Rightarrow> (Inl e, run')
      | (Inr (StageResult outputs), run') \<Rightarrow>
          (try_bind (validate_outputs rn outputs) (\<lambda>_. Inr (Some outputs)), run')
      | (Inr LegacyResult, run') \<Rightarrow>
          (if rn_legacy_fallback rn then Inr None
           else Inl (TypeError (''production stage '' @ rn_name rn @ '' must return StageResult'')), run'))"

definition fresh_artifacts :: "'s runner \<Rightarrow> artifact list \<Rightarrow> 's run \<Rightarrow> artifact list" where
  "fresh_artifacts rn before run =
     filter (\<lambda>a. af_artifact_id a \<notin> (if rn_legacy_fallback rn then af_artifact_id ` set before else {}))
       (artifacts (cx_artifacts (ru_context run)))"

definition execute_stage :: "surroundings \<Rightarrow> 's runner \<Rightarrow> 's run \<Rightarrow> unit result \<times> 's run" where
  "execute_stage env rn run =
     (let inputs = artifacts (cx_artifacts (ru_context run)) in
      case validate_inputs rn (ru_context run) of Inl e \<Rightarrow> (Inl e, run) | Inr _ \<Rightarrow>
      case checkpoint_identity (en_hash env) (ru_context run) of Inl e \<Rightarrow> (Inl e, run) | Inr ident \<Rightarrow>
      case attempt_stage rn (ticked run) of
        (Inl e, run') \<Rightarrow>
          (case record_checkpoint env rn
                  (runner_args rn inputs ident (now_of run) [] ''FAILED'' (Some (error_text e))) run' of
             (Inl e', run'') \<Rightarrow> (Inl e', run'')
           | (Inr _, run'') \<Rightarrow> (Inl e, run''))
      | (Inr declared, run') \<Rightarrow>
          (let outputs = (case declared of Some as \<Rightarrow> as | None \<Rightarrow> fresh_artifacts rn inputs run') in
           case checkpoint_identity (en_hash env) (ru_context run') of
             Inl e \<Rightarrow> (Inl e, run')
           | Inr ident' \<Rightarrow>
               record_checkpoint env rn
                 (runner_args rn inputs ident' (now_of run) outputs ''SUCCEEDED'' None) run'))"

section \<open>What a run of a stage records\<close>

text \<open>The checkpoints of the context are the runner's business: stages and callbacks leave them alone.\<close>

definition checkpoints_of :: "'s run \<Rightarrow> checkpoint_record list" where
  "checkpoints_of run = cx_checkpoints (ru_context run)"

definition leaves_checkpoints :: "('s run \<Rightarrow> 'a result \<times> 's run) \<Rightarrow> bool" where
  "leaves_checkpoints f \<longleftrightarrow> (\<forall>run. checkpoints_of (snd (f run)) = checkpoints_of run)"

definition meets_contract :: "stage_contract \<Rightarrow> artifact list \<Rightarrow> bool" where
  "meets_contract c outputs \<longleftrightarrow>
     af_artifact_type ` set outputs \<subseteq> set (sc_output_types c) \<and>
     set (sc_output_types c) - set (sc_optional_output_types c) \<subseteq> af_artifact_type ` set outputs"

text \<open>A checkpoint that the runner made of the registry it found and the outputs it was given.\<close>

definition runner_checkpoint ::
  "(string \<Rightarrow> string) \<Rightarrow> 's runner \<Rightarrow> artifact list \<Rightarrow> artifact list \<Rightarrow> checkpoint_record \<Rightarrow> bool" where
  "runner_checkpoint H rn inputs outputs ck \<longleftrightarrow>
     ck_stage ck = rn_name rn \<and> ck_stage_version ck = rn_stage_version rn \<and>
     ck_input_artifact_ids ck = map af_artifact_id inputs \<and> ck_input_hashes ck = map af_content_hash inputs \<and>
     ck_output_artifact_ids ck = map af_artifact_id outputs \<and> ck_output_hashes ck = map af_content_hash outputs \<and>
     ck_state_checksum ck = checkpoint_state_checksum H ck"

lemma checkpoints_of_simps [simp]:
  "checkpoints_of (ticked run) = checkpoints_of run"
  "checkpoints_of (add_checkpoint ck run) = checkpoints_of run @ [ck]"
  "checkpoints_of (run\<lparr>ru_store := db\<rparr>) = checkpoints_of run"
  by (simp_all add: checkpoints_of_def ticked_def add_checkpoint_def)

lemma persist_checkpoint_keeps: "checkpoints_of (snd (persist_checkpoint env rn outputs ck run)) = checkpoints_of run"
  by (auto simp: persist_checkpoint_def Let_def split: sum.split)

lemma validate_outputs_iff: "validate_outputs rn outputs = Inr () \<longleftrightarrow> meets_contract (rn_contract rn) outputs"
proof -
  let ?actual = "map af_artifact_type outputs" and ?declared = "sc_output_types (rn_contract rn)"
  have "sort (remdups (filter (\<lambda>t. t \<notin> set ?declared) ?actual)) = [] \<longleftrightarrow> set ?actual \<subseteq> set ?declared"
    by (auto simp: filter_empty_conv simp flip: set_empty)
  moreover have "filter (\<lambda>t. t \<notin> set ?actual \<and> t \<notin> set (sc_optional_output_types (rn_contract rn))) ?declared = [] \<longleftrightarrow>
      set ?declared - set (sc_optional_output_types (rn_contract rn)) \<subseteq> set ?actual"
    by (auto simp: filter_empty_conv)
  ultimately show ?thesis
    unfolding validate_outputs_def Let_def try_bind_Inr_iff ensure_simps meets_contract_def by simp
qed

lemma record_checkpoint_records:
  assumes "record_checkpoint env rn args run = (r, run')" and "ca_status args \<in> set checkpoint_statuses"
  shows "\<exists>ck. checkpoints_of run' = checkpoints_of run @ [ck] \<and>
    build_checkpoint (en_hash env) (now_of run) args = Inr ck \<and>
    (r, run') = persist_checkpoint env rn (ca_outputs args) ck (add_checkpoint ck (ticked run))"
proof -
  obtain ck where ck: "build_checkpoint (en_hash env) (now_of run) args = Inr ck"
    using assms(2) by (auto simp: build_checkpoint_def Let_def)
  with assms(1) have r: "(r, run') = persist_checkpoint env rn (ca_outputs args) ck (add_checkpoint ck (ticked run))"
    by (simp add: record_checkpoint_def)
  from arg_cong [OF this, of snd] persist_checkpoint_keeps [of env rn "ca_outputs args" ck "add_checkpoint ck (ticked run)"]
  have "checkpoints_of run' = checkpoints_of run @ [ck]" by simp
  with ck r show ?thesis by blast
qed

lemma built_by_runner:
  assumes "build_checkpoint H now (runner_args rn inputs ident started outputs status err) = Inr ck"
  shows "runner_checkpoint H rn inputs outputs ck" "ck_status ck = status" "ck_worker_id ck = ri_worker_id ident"
    "ck_fencing_token ck = ri_fencing_token ident"
  using assms
  by (auto simp: build_checkpoint_def runner_args_def runner_checkpoint_def checkpoint_state_checksum_def
      checksum_payload_def Let_def split: if_splits)

lemma attempt_stage_declared:
  assumes "attempt_stage rn run = (Inr declared, run')"
  shows "case declared of None \<Rightarrow> rn_legacy_fallback rn | Some outputs \<Rightarrow> meets_contract (rn_contract rn) outputs"
  using assms validate_outputs_iff [of rn]
  by (auto simp: attempt_stage_def try_bind_Inr_iff split: prod.splits sum.splits stage_result.splits if_splits)

lemma attempt_stage_keeps:
  assumes "leaves_checkpoints (st_execute (rn_stage rn))"
  shows "checkpoints_of (snd (attempt_stage rn run)) = checkpoints_of run"
proof -
  have "snd (attempt_stage rn run) = snd (st_execute (rn_stage rn) run)"
    by (auto simp: attempt_stage_def split: prod.splits sum.splits stage_result.splits)
  with assms show ?thesis by (simp add: leaves_checkpoints_def)
qed

text \<open>The four ways a run of a stage goes: refused, failed, sealed without an identity, succeeded.\<close>

lemma execute_stage_cases:
  assumes "execute_stage env rn run = (r, run')"
  obtains (refused) e where "r = Inl e" "run' = run"
  | (failed) ident e mid r1 where "attempt_stage rn (ticked run) = (Inl e, mid)"
      "record_checkpoint env rn (runner_args rn (artifacts (cx_artifacts (ru_context run))) ident (now_of run) []
         ''FAILED'' (Some (error_text e))) mid = (r1, run')" "r = (case r1 of Inl e' \<Rightarrow> Inl e' | Inr _ \<Rightarrow> Inl e)"
  | (unsealed) declared e where "attempt_stage rn (ticked run) = (Inr declared, run')" "r = Inl e"
  | (sealed) declared mid ident outputs where "attempt_stage rn (ticked run) = (Inr declared, mid)"
      "checkpoint_identity (en_hash env) (ru_context mid) = Inr ident"
      "outputs = (case declared of Some as \<Rightarrow> as
         | None \<Rightarrow> fresh_artifacts rn (artifacts (cx_artifacts (ru_context run))) mid)"
      "record_checkpoint env rn (runner_args rn (artifacts (cx_artifacts (ru_context run))) ident (now_of run) outputs
         ''SUCCEEDED'' None) mid = (r, run')"
proof (cases "validate_inputs rn (ru_context run)")
  case (Inl e)
  with assms have "r = Inl e" "run' = run" by (simp_all add: execute_stage_def)
  then show ?thesis by (rule refused)
next
  case valid: (Inr u)
  show ?thesis
  proof (cases "checkpoint_identity (en_hash env) (ru_context run)")
    case (Inl e)
    with assms valid have "r = Inl e" "run' = run" by (simp_all add: execute_stage_def)
    then show ?thesis by (rule refused)
  next
    case ident: (Inr ident)
    obtain res mid where att: "attempt_stage rn (ticked run) = (res, mid)" by (cases "attempt_stage rn (ticked run)")
    note run = assms [unfolded execute_stage_def Let_def valid ident att sum.case prod.case]
    show ?thesis
    proof (cases res)
      case (Inl e)
      with run att show ?thesis by (auto intro!: failed split: prod.splits sum.splits)
    next
      case (Inr declared)
      with run att show ?thesis
        by (cases "checkpoint_identity (en_hash env) (ru_context mid)") (auto intro: unsealed sealed)
    qed
  qed
qed

lemma record_runner_checkpoint:
  assumes "record_checkpoint env rn (runner_args rn inputs ident started outputs status err) run = (r, run')"
    and "status \<in> set checkpoint_statuses"
  shows "\<exists>ck. checkpoints_of run' = checkpoints_of run @ [ck] \<and> runner_checkpoint (en_hash env) rn inputs outputs ck \<and>
    ck_status ck = status"
proof -
  obtain ck where "checkpoints_of run' = checkpoints_of run @ [ck]"
    and built: "build_checkpoint (en_hash env) (now_of run) (runner_args rn inputs ident started outputs status err) = Inr ck"
    using record_checkpoint_records [OF assms(1)] assms(2) by (auto simp: runner_args_def)
  with built_by_runner [OF built] show ?thesis by blast
qed

lemma stage_run_outcome:
  assumes "execute_stage env rn run = (r, run')" and "leaves_checkpoints (st_execute (rn_stage rn))"
    and "\<not> rn_legacy_fallback rn"
  shows "(checkpoints_of run' = checkpoints_of run \<and> r \<noteq> Inr ()) \<or>
    (\<exists>ck outputs. checkpoints_of run' = checkpoints_of run @ [ck] \<and>
       runner_checkpoint (en_hash env) rn (artifacts (cx_artifacts (ru_context run))) outputs ck \<and>
       (if succeeded ck then meets_contract (rn_contract rn) outputs
        else ck_status ck = ''FAILED'' \<and> outputs = [] \<and> r \<noteq> Inr ()))"
proof -
  note keeps = attempt_stage_keeps [OF assms(2), of "ticked run", simplified]
  from assms(1) show ?thesis
  proof (cases rule: execute_stage_cases)
    case (failed ident e mid r1)
    from record_runner_checkpoint [OF failed(2)] failed(1,3) keeps show ?thesis
      by (force simp: succeeded_def checkpoint_statuses_def split: sum.splits)
  next
    case (unsealed declared e)
    with keeps show ?thesis by simp
  next
    case (sealed declared mid ident outputs)
    then have "meets_contract (rn_contract rn) outputs"
      using attempt_stage_declared [OF sealed(1)] assms(3) by (simp split: option.splits)
    with record_runner_checkpoint [OF sealed(4)] sealed(1) keeps show ?thesis
      by (force simp: succeeded_def checkpoint_statuses_def)
  qed simp
qed

text \<open>
  What a stage run records. A run of a stage either raises before or without a checkpoint, or appends
  exactly one: with the name and version of the runner, the artifacts it found in the registry with their
  hashes, its outputs with theirs, and its own checksum. The checkpoint is \<open>SUCCEEDED\<close> only when the
  outputs meet the declared contract, \<open>FAILED\<close> without outputs otherwise, and the run returns normally
  only after a succeeded one.
\<close>

theorem stage_run_records:
  assumes "execute_stage env rn run = (r, run')" and "leaves_checkpoints (st_execute (rn_stage rn))"
    and "\<not> rn_legacy_fallback rn"
  shows "(checkpoints_of run' = checkpoints_of run \<and> r \<noteq> Inr ()) \<or>
    (\<exists>ck outputs. checkpoints_of run' = checkpoints_of run @ [ck] \<and>
       runner_checkpoint (en_hash env) rn (artifacts (cx_artifacts (ru_context run))) outputs ck \<and>
       (if succeeded ck then meets_contract (rn_contract rn) outputs
        else ck_status ck = ''FAILED'' \<and> outputs = [] \<and> r \<noteq> Inr ()))"
  using assms by (rule stage_run_outcome)

definition runner_env :: surroundings where
  "runner_env = \<lparr>en_hash = (\<lambda>s. ''h''), en_ms = (\<lambda>_. 0), en_clock = Aware 0 0, en_public_url = (\<lambda>_ _. None),
     en_service_version = None, en_locate = (\<lambda>_. None)\<rparr>"

definition silent_stage :: "string \<Rightarrow> stage_result result \<Rightarrow> nat stage" where
  "silent_stage name res =
     \<lparr>st_name = name, st_required_inputs = [''frames''], st_output_types = [''frame''],
      st_optional_output_types = [''frame''], st_execute = (\<lambda>run. (res, run))\<rparr>"

definition silent_run :: "nat run" where
  "silent_run =
     \<lparr>ru_context = \<lparr>cx_task_id = ''t1'', cx_source = [], cx_options = [], cx_state = 0, cx_artifacts = empty_registry,
        cx_restored = [], cx_checkpoints = [], cx_current_stage = ''queued'', cx_worker_id = Some ''w'',
        cx_fencing_token = Some 1\<rparr>,
      ru_store = \<lparr>so_tasks = [], so_artifacts = [], so_edges = [], so_sources = [], so_locators = [],
        so_checkpoints = [], so_effects = []\<rparr>,
      ru_clock = (\<lambda>n. int n), ru_reads = 0\<rparr>"

lemma silent_stage_leaves: "leaves_checkpoints (st_execute (rn_stage (wrap_stage vs b c (silent_stage name res))))"
  by (simp add: leaves_checkpoints_def wrap_stage_def silent_stage_def Let_def)

theorem stage_run_records_witness:
  "\<exists>ck. checkpoints_of (snd (execute_stage runner_env
       (wrap_stage [] False False (silent_stage ''frame'' (Inr (StageResult [])))) silent_run)) = [ck] \<and>
     ck_stage ck = ''frame'' \<and> succeeded ck"
proof -
  let ?rn = "wrap_stage [] False False (silent_stage ''frame'' (Inr (StageResult [])))"
  let ?run = "snd (execute_stage runner_env ?rn silent_run)"
  have fst: "fst (execute_stage runner_env ?rn silent_run) = Inr ()" by code_simp
  then have run: "execute_stage runner_env ?rn silent_run = (Inr (), ?run)" by (metis prod.collapse)
  have fields: "\<not> rn_legacy_fallback ?rn" "rn_name ?rn = ''frame''" "checkpoints_of silent_run = []"
    by (simp_all add: wrap_stage_def silent_stage_def rn_name_def silent_run_def checkpoints_of_def Let_def)
  from stage_run_records [OF run silent_stage_leaves fields(1)] fields(2,3) show ?thesis
    by (auto simp: runner_checkpoint_def split: if_splits)
qed

end
