(* ===== verification/Pipeline.thy ===== *)
theory Pipeline
  imports Stage_Runner
begin

text \<open>
  \<open>ContentPipeline.process\<close> (\<open>application/pipeline.py\<close>): the stages in order, from the first one that no
  validated checkpoint covers, with the progress and checkpoint callbacks of the caller. An exception of a
  stage or callback ends the run; what it changed before stays changed.
\<close>

section \<open>The loop over the stages\<close>

definition and_then :: "('e + 'a) \<times> 's \<Rightarrow> ('s \<Rightarrow> ('e + 'b) \<times> 's) \<Rightarrow> ('e + 'b) \<times> 's" where
  "and_then m f = (case m of (Inl e, run) \<Rightarrow> (Inl e, run) | (Inr _, run) \<Rightarrow> f run)"

record 's callbacks =
  on_progress :: "(string \<Rightarrow> int \<Rightarrow> 's run \<Rightarrow> unit result \<times> 's run) option"
  on_checkpoint :: "(string \<Rightarrow> pydict \<Rightarrow> int \<Rightarrow> 's run \<Rightarrow> unit result \<times> 's run) option"

definition set_stage :: "string \<Rightarrow> 's run \<Rightarrow> 's run" where
  "set_stage name run = run\<lparr>ru_context := (ru_context run)\<lparr>cx_current_stage := name\<rparr>\<rparr>"

definition report_progress :: "'s callbacks \<Rightarrow> string \<Rightarrow> int \<Rightarrow> 's run \<Rightarrow> unit result \<times> 's run" where
  "report_progress cb name pct run = (case on_progress cb of None \<Rightarrow> (Inr (), run) | Some f \<Rightarrow> f name pct run)"

text \<open>The names of the fields of \<open>PipelineState\<close>, which \<open>keys\<close> lists.\<close>

definition state_keys :: "string list" where
  "state_keys =
     [''metadata'', ''segments'', ''transcript_candidates'', ''transcript_quality_report'',
      ''validated_atomic_claims'', ''atomic_claim_rejections'', ''transcript'', ''frames'',
      ''knowledge_evidence_windows'', ''claim_evidence_window_ids'', ''frame_insights'', ''ocr_evidence'',
      ''transcript_visual_crosschecks'', ''security_mentions'', ''displayed_target_candidates'',
      ''eligible_frame_insights'', ''multimodal_context'', ''temporal_windows'', ''semantic_segments'',
      ''semantic_contexts'', ''chapter_theses'', ''knowledge_hierarchy'', ''claim_drafts'',
      ''grounded_occurrences'', ''temporal_bindings'', ''temporal_bindings_by_draft'', ''occurrences'',
      ''lifecycle_events'', ''chapters'', ''video'', ''knowledge'', ''evidence'', ''claims'',
      ''financial_numeric_facts'', ''financial_events'', ''summary'', ''content_snapshot_id'',
      ''diarization_status'', ''quality_warnings'', ''claims_persisted'']"

definition checkpoint_payload :: "'s pipeline_context \<Rightarrow> pydict" where
  "checkpoint_payload ctx =
     [(''completed'', JBool True), (''output_keys'', jstrs (sort state_keys))] @
     (if cx_checkpoints ctx = [] then []
      else [(''checkpoint'', JObj (checkpoint_to_dict (last (cx_checkpoints ctx))))])"

definition report_checkpoint :: "'s callbacks \<Rightarrow> string \<Rightarrow> int \<Rightarrow> 's run \<Rightarrow> unit result \<times> 's run" where
  "report_checkpoint cb name pct run =
     (case on_checkpoint cb of None \<Rightarrow> (Inr (), run) | Some f \<Rightarrow> f name (checkpoint_payload (ru_context run)) pct run)"

text \<open>One stage with the callbacks around it, and the loop; \<open>n\<close> is the index of the first stage of the list.\<close>

definition process_stage ::
  "surroundings \<Rightarrow> 's callbacks \<Rightarrow> nat \<Rightarrow> nat \<Rightarrow> 's runner \<Rightarrow> 's run \<Rightarrow> unit result \<times> 's run" where
  "process_stage env cb stages n rn run =
     and_then (report_progress cb (rn_name rn) (int (n * 100 div stages)) run) (\<lambda>run.
     and_then (execute_stage env rn run) (\<lambda>run.
       report_checkpoint cb (rn_name rn) (int (Suc n * 100 div stages)) run))"

fun process_stages ::
  "surroundings \<Rightarrow> 's callbacks \<Rightarrow> string list \<Rightarrow> nat \<Rightarrow> nat \<Rightarrow> 's runner list \<Rightarrow> 's run \<Rightarrow> unit result \<times> 's run" where
  "process_stages env cb completed stages n [] run = (Inr (), run)"
| "process_stages env cb completed stages n (rn # rns) run =
     (let run = set_stage (rn_name rn) run in
      if rn_name rn \<in> set completed then process_stages env cb completed stages (Suc n) rns run
      else and_then (process_stage env cb stages n rn run)
             (process_stages env cb completed stages (Suc n) rns))"

text \<open>The artifacts that the validation of a resume looks up: the active slots, overridden by the restored ones.\<close>

definition artifacts_by_id :: "'s pipeline_context \<Rightarrow> string \<Rightarrow> artifact option" where
  "artifacts_by_id ctx aid =
     (case map_of (cx_restored ctx) aid of
        Some a \<Rightarrow> Some a
      | None \<Rightarrow> map_of (rev (map (\<lambda>a. (af_artifact_id a, a)) (artifacts (cx_artifacts ctx)))) aid)"

definition completed_stages ::
  "(string \<Rightarrow> string) \<Rightarrow> bool \<Rightarrow> string list \<Rightarrow> 's pipeline_context \<Rightarrow> string list result" where
  "completed_stages H resume names ctx =
     (if resume \<and> cx_checkpoints ctx \<noteq> []
      then try_bind (validate_resume H (artifacts_by_id ctx) [] (cx_checkpoints ctx)) (\<lambda>validated.
             Inr (takeWhile (\<lambda>name. name \<in> set validated) names))
      else Inr [])"

definition process ::
  "surroundings \<Rightarrow> 's callbacks \<Rightarrow> bool \<Rightarrow> 's runner list \<Rightarrow> 's run \<Rightarrow> unit result \<times> 's run" where
  "process env cb resume rns run =
     (case completed_stages (en_hash env) resume (map rn_name rns) (ru_context run) of
        Inl e \<Rightarrow> (Inl e, run)
      | Inr completed \<Rightarrow>
          and_then (process_stages env cb completed (max (length rns) 1) 0 rns run)
            (\<lambda>run. report_progress cb ''completed'' 100 (set_stage ''completed'' run)))"

section \<open>What a run executes\<close>

definition callbacks_leave :: "'s callbacks \<Rightarrow> bool" where
  "callbacks_leave cb \<longleftrightarrow>
     (\<forall>f. on_progress cb = Some f \<longrightarrow> (\<forall>name pct. leaves_checkpoints (f name pct))) \<and>
     (\<forall>f. on_checkpoint cb = Some f \<longrightarrow> (\<forall>name payload pct. leaves_checkpoints (f name payload pct)))"

text \<open>How many stages a resume skips: the stages in front that succeeded checkpoints cover.\<close>

definition resumed_stages :: "bool \<Rightarrow> string list \<Rightarrow> checkpoint_record list \<Rightarrow> nat" where
  "resumed_stages resume names cks =
     (if resume then length (takeWhile (\<lambda>name. name \<in> ck_stage ` set (takeWhile succeeded cks)) names) else 0)"

text \<open>Checkpoints of the stages \<open>todo\<close>, in order, of which only the last may have failed.\<close>

definition recorded_in_order :: "string list \<Rightarrow> unit result \<Rightarrow> checkpoint_record list \<Rightarrow> bool" where
  "recorded_in_order todo r cks \<longleftrightarrow>
     map ck_stage cks = take (length cks) todo \<and> list_all succeeded (butlast cks) \<and>
     (r = Inr () \<longrightarrow> list_all succeeded cks \<and> length cks = length todo)"

lemma checkpoints_of_set_stage [simp]: "checkpoints_of (set_stage name run) = checkpoints_of run"
  by (simp add: checkpoints_of_def set_stage_def)

lemma report_keeps:
  assumes "callbacks_leave cb"
  shows "checkpoints_of (snd (report_progress cb name pct run)) = checkpoints_of run"
    "checkpoints_of (snd (report_checkpoint cb name pct run)) = checkpoints_of run"
  using assms
  by (auto simp: report_progress_def report_checkpoint_def callbacks_leave_def leaves_checkpoints_def split: option.splits)

lemma and_then_cases:
  assumes "and_then m f = (r, run')"
  obtains e where "m = (Inl e, run')" "r = Inl e" | x run where "m = (Inr x, run)" "f run = (r, run')"
  using assms by (cases m; cases "fst m") (auto simp: and_then_def)

text \<open>A stage with its callbacks: one checkpoint of it, or none and an exception.\<close>

definition well_behaved :: "'s runner \<Rightarrow> bool" where
  "well_behaved rn \<longleftrightarrow> leaves_checkpoints (st_execute (rn_stage rn)) \<and> \<not> rn_legacy_fallback rn"

lemma process_stage_records:
  assumes "process_stage env cb stages n rn run = (r, run')" and "well_behaved rn" and "callbacks_leave cb"
  shows "(checkpoints_of run' = checkpoints_of run \<and> r \<noteq> Inr ()) \<or>
    (\<exists>ck. checkpoints_of run' = checkpoints_of run @ [ck] \<and> ck_stage ck = rn_name rn \<and> (r = Inr () \<longrightarrow> succeeded ck))"
proof -
  note wb = assms(2) [unfolded well_behaved_def]
  from assms(1) [unfolded process_stage_def] show ?thesis
  proof (cases rule: and_then_cases)
    case (1 e)
    with report_keeps(1) [OF assms(3), of "rn_name rn" _ run] show ?thesis by (metis snd_conv sum.distinct(1))
  next
    case (2 x run1)
    then have run1: "checkpoints_of run1 = checkpoints_of run"
      using report_keeps(1) [OF assms(3), of "rn_name rn" _ run] by (metis snd_conv)
    from 2(2) show ?thesis
    proof (cases rule: and_then_cases)
      case (1 e)
      from stage_run_outcome [OF 1(1)] wb run1 1(2) show ?thesis by (auto simp: runner_checkpoint_def)
    next
      case (2 x run2)
      then have "checkpoints_of run' = checkpoints_of run2"
        using report_keeps(2) [OF assms(3), of "rn_name rn" _ run2] by (metis snd_conv)
      with stage_run_outcome [OF 2(1)] wb run1 show ?thesis by (auto simp: runner_checkpoint_def split: if_splits)
    qed
  qed
qed

lemma process_stages_record:
  assumes "process_stages env cb completed stages n rns run = (r, run')"
    and "list_all well_behaved rns" and "callbacks_leave cb"
  shows "\<exists>cks. checkpoints_of run' = checkpoints_of run @ cks \<and>
    recorded_in_order (filter (\<lambda>name. name \<notin> set completed) (map rn_name rns)) r cks"
  using assms
proof (induction rns arbitrary: n run)
  case Nil
  then show ?case by (auto simp: recorded_in_order_def)
next
  case (Cons rn rns)
  let ?run = "set_stage (rn_name rn) run" and ?todo = "filter (\<lambda>name. name \<notin> set completed) (map rn_name rns)"
  show ?case
  proof (cases "rn_name rn \<in> set completed")
    case True
    with Cons.prems Cons.IH [of "Suc n" ?run] show ?thesis by (simp add: Let_def)
  next
    case False
    with Cons.prems(1) have "and_then (process_stage env cb stages n rn ?run)
        (process_stages env cb completed stages (Suc n) rns) = (r, run')" by (simp add: Let_def)
    then show ?thesis
    proof (cases rule: and_then_cases)
      case (1 e)
      from process_stage_records [OF 1(1)] Cons.prems(2,3) consider "checkpoints_of run' = checkpoints_of run @ []"
        | ck where "checkpoints_of run' = checkpoints_of run @ [ck]" "ck_stage ck = rn_name rn" by auto
      then show ?thesis
      proof cases
        case 1
        then show ?thesis using \<open>r = Inl e\<close> by (intro exI [of _ "[]"]) (simp add: recorded_in_order_def)
      next
        case (2 ck)
        then show ?thesis using False \<open>r = Inl e\<close> by (intro exI [of _ "[ck]"]) (simp add: recorded_in_order_def)
      qed
    next
      case (2 x mid)
      from process_stage_records [OF 2(1)] Cons.prems(2,3) obtain ck where
        ck: "checkpoints_of mid = checkpoints_of run @ [ck]" "ck_stage ck = rn_name rn" "succeeded ck" by auto
      obtain cks where "checkpoints_of run' = checkpoints_of mid @ cks" "recorded_in_order ?todo r cks"
        using Cons.IH [OF 2(2)] Cons.prems(2,3) by auto
      then show ?thesis
        using False ck by (intro exI [of _ "ck # cks"]) (auto simp: recorded_in_order_def)
    qed
  qed
qed

lemma filter_not_takeWhile:
  assumes "distinct xs"
  shows "filter (\<lambda>x. x \<notin> set (takeWhile P xs)) xs = drop (length (takeWhile P xs)) xs"
proof -
  have xs: "xs = takeWhile P xs @ drop (length (takeWhile P xs)) xs"
    by (metis takeWhile_eq_take append_take_drop_id)
  then have "distinct (takeWhile P xs @ drop (length (takeWhile P xs)) xs)" using assms by simp
  then have "filter (\<lambda>x. x \<notin> set (takeWhile P xs)) (takeWhile P xs @ drop (length (takeWhile P xs)) xs) =
      drop (length (takeWhile P xs)) xs"
    by (auto simp: filter_id_conv)
  with xs show ?thesis by simp
qed

lemma completed_stages_prefix:
  assumes "completed_stages H resume names ctx = Inr completed"
  shows "completed = take (resumed_stages resume names (cx_checkpoints ctx)) names"
    "distinct names \<Longrightarrow> filter (\<lambda>name. name \<notin> set completed) names =
       drop (resumed_stages resume names (cx_checkpoints ctx)) names"
proof -
  have none: "takeWhile (\<lambda>name. False) names = []" by (cases names) simp_all
  have "completed = (if resume then takeWhile (\<lambda>name. name \<in> ck_stage ` set (takeWhile succeeded (cx_checkpoints ctx))) names else [])"
    using assms validate_resume_split [of H "artifacts_by_id ctx" "[]" "cx_checkpoints ctx"]
    by (auto simp: completed_stages_def try_bind_Inr_iff none split: if_splits)
  then show "completed = take (resumed_stages resume names (cx_checkpoints ctx)) names"
    and "distinct names \<Longrightarrow> filter (\<lambda>name. name \<notin> set completed) names =
       drop (resumed_stages resume names (cx_checkpoints ctx)) names"
    by (auto simp: resumed_stages_def takeWhile_eq_take [symmetric] filter_not_takeWhile)
qed

text \<open>
  C9. A run executes exactly the stages that remain. Whether it returns or raises, the context has gained
  the checkpoints of consecutive stages, in order, once each, starting right after the stages in front
  that succeeded checkpoints cover (or at the first stage without a resume); all but the last succeeded,
  and a run that returns has a succeeded checkpoint of every remaining stage.
\<close>

theorem pipeline_runs_remaining:
  assumes "process env cb resume rns run = (r, run')" and "distinct (map rn_name rns)"
    and "list_all well_behaved rns" and "callbacks_leave cb"
  shows "\<exists>cks. checkpoints_of run' = checkpoints_of run @ cks \<and>
    recorded_in_order (drop (resumed_stages resume (map rn_name rns) (checkpoints_of run)) (map rn_name rns)) r cks"
proof (cases "completed_stages (en_hash env) resume (map rn_name rns) (ru_context run)")
  case (Inl e)
  with assms(1) have "r = Inl e" "run' = run" by (simp_all add: process_def)
  then show ?thesis by (intro exI [of _ "[]"]) (simp add: recorded_in_order_def)
next
  case (Inr completed)
  note todo = completed_stages_prefix(2) [OF Inr assms(2), folded checkpoints_of_def]
  from assms(1) Inr have "and_then (process_stages env cb completed (max (length rns) 1) 0 rns run)
      (\<lambda>run. report_progress cb ''completed'' 100 (set_stage ''completed'' run)) = (r, run')"
    by (simp add: process_def)
  then show ?thesis
  proof (cases rule: and_then_cases)
    case (1 e)
    with process_stages_record [OF 1(1) assms(3,4)] todo show ?thesis by simp
  next
    case (2 x mid)
    have "checkpoints_of run' = checkpoints_of mid"
      using report_keeps(1) [OF assms(4), of "''completed''" 100 "set_stage ''completed'' mid"] 2(2) by simp
    with process_stages_record [OF 2(1) assms(3,4)] todo show ?thesis
      by (auto simp: recorded_in_order_def)
  qed
qed

text \<open>A failing second stage: the first has succeeded, the third is not reached.\<close>

definition sample_stages :: "nat runner list" where
  "sample_stages = wrap_all [] False False
     [silent_stage ''resolve'' (Inr (StageResult [])), silent_stage ''frame'' (Inl (ProviderError ''down'')),
      silent_stage ''ocr'' (Inr (StageResult []))]"

definition no_callbacks :: "nat callbacks" where
  "no_callbacks = \<lparr>on_progress = None, on_checkpoint = None\<rparr>"

theorem pipeline_runs_remaining_witness:
  "\<exists>cks r. checkpoints_of (snd (process runner_env no_callbacks True sample_stages silent_run)) = cks \<and>
     recorded_in_order [''resolve'', ''frame'', ''ocr''] r cks \<and> r \<noteq> Inr () \<and> length cks = 2"
proof -
  obtain r run' where run: "process runner_env no_callbacks True sample_stages silent_run = (r, run')"
    by (cases "process runner_env no_callbacks True sample_stages silent_run")
  have "fst (process runner_env no_callbacks True sample_stages silent_run) \<noteq> Inr ()"
      "length (checkpoints_of (snd (process runner_env no_callbacks True sample_stages silent_run))) = 2"
    by code_simp+
  then have r: "r \<noteq> Inr ()" "length (checkpoints_of run') = 2" by (simp_all add: run)
  have names: "map rn_name sample_stages = [''resolve'', ''frame'', ''ocr'']"
    by (simp add: sample_stages_def wrap_all_def wrap_stage_def silent_stage_def rn_name_def Let_def)
  have none: "checkpoints_of silent_run = []" by (simp add: silent_run_def checkpoints_of_def)
  have "list_all well_behaved sample_stages"
    by (simp add: sample_stages_def wrap_all_def well_behaved_def silent_stage_leaves) (simp add: wrap_stage_def Let_def)
  moreover have "callbacks_leave no_callbacks" by (simp add: callbacks_leave_def no_callbacks_def)
  moreover have "distinct (map rn_name sample_stages)" by (simp add: names)
  ultimately have "recorded_in_order (drop (resumed_stages True [''resolve'', ''frame'', ''ocr''] []) [''resolve'', ''frame'', ''ocr'']) r
      (checkpoints_of run')"
    using pipeline_runs_remaining [OF run] by (auto simp: none names)
  then have "recorded_in_order [''resolve'', ''frame'', ''ocr''] r (checkpoints_of run')"
    by (simp add: resumed_stages_def)
  with r show ?thesis by (auto simp: run)
qed

end
