(* ===== verification/Content_Service.thy ===== *)
theory Content_Service
  imports Pipeline Task_Repository
begin

text \<open>
  \<open>ContentApplication.process_next\<close> (\<open>application/service.py\<close>): a worker claims a task, restores what an
  earlier attempt left, runs the pipeline under the fence of the claim, and settles the task. What comes
  from outside is a field of \<open>service\<close>: the stages, the probe of the OCR runtime, the rebuilding of
  in-memory state and media handles, and the reading of the summary that a succeeded task reports.
\<close>

section \<open>Checkpoint payloads carry no signed locators\<close>

definition unquote_plus :: "string \<Rightarrow> string" where
  "unquote_plus s = map (\<lambda>c. if c = CHR ''+'' then CHR '' '' else c) s"

definition hex_digit_value :: "char \<Rightarrow> nat option" where
  "hex_digit_value c =
     (if is_digit c then Some (of_char c - 48)
      else if in_range 65 c 70 then Some (of_char c - 55)
      else if in_range 97 c 102 then Some (of_char c - 87) else None)"

fun unquote :: "string \<Rightarrow> string" where
  "unquote [] = []"
| "unquote (c # a # b # s) =
     (case (hex_digit_value a, hex_digit_value b) of
        (Some x, Some y) \<Rightarrow> if c = CHR ''%'' then char_of (16 * x + y) # unquote s else c # unquote (a # b # s)
      | _ \<Rightarrow> c # unquote (a # b # s))"
| "unquote (c # s) = c # unquote s"

fun split_on :: "char \<Rightarrow> string \<Rightarrow> string list" where
  "split_on d [] = [[]]"
| "split_on d (c # s) =
     (if c = d then [] # split_on d s else (case split_on d s of [] \<Rightarrow> [[c]] | p # ps \<Rightarrow> (c # p) # ps))"

text \<open>The names that \<open>parse_qsl\<close> finds in a query: of the parameters that have a value.\<close>

definition query_names :: "string \<Rightarrow> string list" where
  "query_names query =
     map (\<lambda>p. unquote (unquote_plus (fst (split_at (CHR ''='') p))))
       (filter (\<lambda>p. snd (split_at (CHR ''='') p) \<noteq> []) (split_on (CHR ''&'') query))"

definition ephemeral_url_keys :: "string set" where
  "ephemeral_url_keys = {''signature'', ''sig'', ''token'', ''expires'', ''x-amz-signature'', ''x-amz-credential''}"

definition refuse_sensitive :: "json \<Rightarrow> unit result" where
  "refuse_sensitive v =
     try_bind (contains_sensitive_value v) (\<lambda>b.
       ensure (\<not> b) (ValueError ''CHECKPOINT_CONTAINS_SECRET_OR_SIGNED_LOCATOR''))"

fun assert_no_signed_url :: "json \<Rightarrow> unit result"
  and assert_items :: "json list \<Rightarrow> unit result"
  and assert_fields :: "pydict \<Rightarrow> unit result" where
  "assert_no_signed_url (JObj kvs) = try_bind (assert_fields kvs) (\<lambda>_. refuse_sensitive (JObj kvs))"
| "assert_no_signed_url (JArr vs) = try_bind (assert_items vs) (\<lambda>_. refuse_sensitive (JArr vs))"
| "assert_no_signed_url (JStr s) =
     try_bind (urlsplit s) (\<lambda>parsed.
     try_bind (ensure (\<not> (url_scheme parsed \<noteq> [] \<and>
         list_ex (\<lambda>k. lower k \<in> ephemeral_url_keys) (query_names (url_query parsed))))
       (ValueError ''CHECKPOINT_CONTAINS_SECRET_OR_SIGNED_LOCATOR: EPHEMERAL_SIGNED_URL'')) (\<lambda>_.
       refuse_sensitive (JStr s)))"
| "assert_no_signed_url JNull = refuse_sensitive JNull"
| "assert_no_signed_url (JBool b) = refuse_sensitive (JBool b)"
| "assert_no_signed_url (JInt i) = refuse_sensitive (JInt i)"
| "assert_no_signed_url (JFloat f) = refuse_sensitive (JFloat f)"
| "assert_items [] = Inr ()"
| "assert_items (v # vs) = try_bind (assert_no_signed_url v) (\<lambda>_. assert_items vs)"
| "assert_fields [] = Inr ()"
| "assert_fields ((k, v) # kvs) = try_bind (assert_no_signed_url v) (\<lambda>_. assert_fields kvs)"

section \<open>Restoring an earlier attempt\<close>

definition is_offline_fixture_options :: "pydict \<Rightarrow> bool" where
  "is_offline_fixture_options opts \<longleftrightarrow>
     py_truthy (field ''offline_fixture'' opts) \<or> dict_get ''transcript'' opts \<noteq> None \<or> dict_get ''segments'' opts \<noteq> None"

definition visual_checkpoint_stages :: "string list" where
  "visual_checkpoint_stages =
     [''knowledge_frame'', ''ocr'', ''vision'', ''transcript_visual_crosscheck'', ''security_entity_alignment'',
      ''multimodal_context'', ''temporal_window'', ''semantic_context'']"

definition visual_model_identity_keys :: "string list" where
  "visual_model_identity_keys =
     [''knowledge_evidence_window_planner'', ''knowledge_frame_planner'', ''transcript_visual_crosscheck'',
      ''security_entity_alignment'', ''ocr_engine'', ''ocr_engine_version'', ''ocr_requested_device'',
      ''vision'', ''vision_version'']"

definition visual_prompt_identity_keys :: "string list" where
  "visual_prompt_identity_keys = [''vision'', ''vision_adapter'']"

definition ocr_runtime_identity_keys :: "string list" where
  "ocr_runtime_identity_keys = [''ocr_actual_device'', ''ocr_runtime_identity'']"

definition ocr_runtime_bound_stages :: "string list" where
  "ocr_runtime_bound_stages =
     [''ocr'', ''vision'', ''transcript_visual_crosscheck'', ''security_entity_alignment'',
      ''claim_visual_binding'', ''multimodal_context'', ''temporal_window'', ''semantic_context'']"

definition identity_get :: "string \<Rightarrow> identity option \<Rightarrow> string option" where
  "identity_get k i = (case i of None \<Rightarrow> None | Some d \<Rightarrow> map_of d k)"

definition incompatible :: "string \<Rightarrow> checkpoint_record \<Rightarrow> string \<Rightarrow> exn" where
  "incompatible what r k =
     CheckpointValidationError (''CHECKPOINT_ERROR: '' @ what @ '' identity incompatible for '' @ ck_stage r @ '': '' @ k)"

definition check_visual_record :: "pydict \<Rightarrow> run_identity \<Rightarrow> checkpoint_record \<Rightarrow> unit result" where
  "check_visual_record opts expected r =
     (let actual_model = (\<lambda>k. identity_get k (ck_model_identity r));
          actual_prompt = (\<lambda>k. identity_get k (ck_prompt_identity r));
          model = map_of (ri_model_identity expected); prompt = map_of (ri_prompt_identity expected)
      in if ck_status r \<noteq> ''SUCCEEDED'' \<or> ck_stage r \<notin> set visual_checkpoint_stages then Inr ()
         else if ck_stage r = ''semantic_context'' \<and> \<not> truthy (actual_model ''ocr_runtime_identity'') then Inr ()
         else try_bind (foldM (\<lambda>_ k. ensure (actual_model k = model k) (incompatible ''visual model'' r k)) ()
                visual_model_identity_keys) (\<lambda>_.
              try_bind (if ck_stage r \<in> set ocr_runtime_bound_stages \<and> \<not> is_offline_fixture_options opts
                then foldM (\<lambda>_ k. ensure (truthy (actual_model k) \<and> actual_model k = model k)
                       (incompatible ''OCR runtime'' r k)) () ocr_runtime_identity_keys
                else Inr ()) (\<lambda>_.
              foldM (\<lambda>_ k. ensure (actual_prompt k = prompt k) (incompatible ''visual prompt'' r k)) ()
                visual_prompt_identity_keys)))"

definition validate_visual_checkpoint_identity ::
  "(string \<Rightarrow> string) \<Rightarrow> checkpoint_record list \<Rightarrow> 's pipeline_context \<Rightarrow> unit result" where
  "validate_visual_checkpoint_identity H records ctx =
     try_bind (checkpoint_identity H ctx) (\<lambda>expected.
       foldM (\<lambda>_ r. check_visual_record (cx_options ctx) expected r) () records)"

definition restorable_stages :: "string list" where
  "restorable_stages =
     [''resolve'', ''download'', ''frame'', ''audio'', ''asr'', ''transcript_candidate'', ''transcript_selection'',
      ''transcript_quality'', ''diarization'', ''transcript_postprocess'', ''transcript'', ''chapter'',
      ''semantic_segmentation'', ''knowledge_frame'', ''ocr'', ''vision'', ''transcript_visual_crosscheck'',
      ''security_entity_alignment'']"

definition restorable_prefix :: "checkpoint_record list \<Rightarrow> checkpoint_record list" where
  "restorable_prefix records = takeWhile (\<lambda>r. ck_status r = ''SUCCEEDED'' \<and> ck_stage r \<in> set restorable_stages) records"

definition visual_slot :: "string \<Rightarrow> string option" where
  "visual_slot ty = map_of [(''frame'', ''frames''), (''ocr'', ''ocr''), (''vision'', ''vision'')] ty"

definition restored_slots :: "string list" where
  "restored_slots =
     [''source'', ''media'', ''transcript'', ''semantic_segments'', ''evidence'', ''claims'', ''occurrences'',
      ''lifecycle'', ''verification'', ''knowledge'', ''summary'', ''transcript_visual_crosscheck'',
      ''security_entity_alignment'']"

definition restore_output :: "(string \<times> artifact) list \<Rightarrow> registry \<Rightarrow> string \<Rightarrow> registry result" where
  "restore_output persisted reg aid =
     (case map_of persisted aid of
        None \<Rightarrow> Inl (RuntimeError (''ARTIFACT_INTEGRITY_ERROR: checkpoint artifact missing '' @ aid))
      | Some a \<Rightarrow>
          (case visual_slot (af_artifact_type a) of
             Some slot \<Rightarrow> reg_add slot a reg
           | None \<Rightarrow> if af_artifact_type a \<in> set restored_slots then reg_set (af_artifact_type a) a reg else Inr reg))"

definition restore_registry :: "(string \<times> artifact) list \<Rightarrow> checkpoint_record list \<Rightarrow> registry result" where
  "restore_registry persisted prefix =
     foldM (restore_output persisted) empty_registry (concat (map ck_output_artifact_ids prefix))"

record 's service =
  sv_env :: surroundings
  sv_runners :: "'s runner list"
  sv_has_repository :: bool
  sv_has_task_runs :: bool
  sv_fresh_state :: 's
  sv_observe :: "checkpoint_record list \<Rightarrow> 's pipeline_context \<Rightarrow> 's pipeline_context result"
  sv_rehydrate :: "checkpoint_record list \<Rightarrow> 's pipeline_context \<Rightarrow> 's pipeline_context result"
  sv_snapshot_id :: "'s \<Rightarrow> string option"
  sv_payload :: "'s \<Rightarrow> pydict result"

text \<open>
  \<open>_restore_resume_context\<close>; \<open>sv_observe\<close> is the OCR probe, which may add the runtime it saw to the
  options, \<open>sv_rehydrate\<close> what the restored artifacts mean for the in-memory state and the media files.
  An exception ends the attempt: of the context only the current stage is read after it.
\<close>

definition restore_resume_context :: "'s service \<Rightarrow> 's run \<Rightarrow> bool result \<times> 's run" where
  "restore_resume_context sv run =
     (let env = sv_env sv; ctx = ru_context run;
          versions = dict_of_pairs (map (\<lambda>rn. (rn_name rn, rn_stage_version rn)) (sv_runners sv))
      in if \<not> sv_has_repository sv then (Inr False, run)
         else (case load_checkpoints env versions (cx_task_id ctx) (ru_store run) of
             Inl e \<Rightarrow> (Inl e, run)
           | Inr (records, persisted) \<Rightarrow>
               if records = [] then (Inr False, run)
               else (case try_bind (sv_observe sv records ctx) (\<lambda>ctx.
                       try_bind (validate_visual_checkpoint_identity (en_hash env) records ctx) (\<lambda>_.
                       try_bind (restore_registry persisted (restorable_prefix records)) (\<lambda>reg.
                         sv_rehydrate sv records (ctx\<lparr>cx_restored := persisted, cx_artifacts := reg,
                           cx_checkpoints := restorable_prefix records\<rparr>)))) of
                   Inl e \<Rightarrow> (Inl e, run)
                 | Inr ctx' \<Rightarrow> (Inr True, run\<lparr>ru_context := ctx'\<rparr>))))"

section \<open>Processing a task\<close>

text \<open>A call of the task repository at the time it reads.\<close>

definition on_tasks :: "(instant \<Rightarrow> task_table \<Rightarrow> task_table result) \<Rightarrow> 's run \<Rightarrow> unit result \<times> 's run" where
  "on_tasks f run =
     (case f (now_of run) (so_tasks (ru_store run)) of
        Inl e \<Rightarrow> (Inl e, ticked run)
      | Inr tbl \<Rightarrow> (Inr (), (ticked run)\<lparr>ru_store := (ru_store run)\<lparr>so_tasks := tbl\<rparr>\<rparr>))"

definition heartbeat :: "string \<Rightarrow> string \<Rightarrow> int \<Rightarrow> int \<Rightarrow> 's run \<Rightarrow> unit result \<times> 's run" where
  "heartbeat tid worker tok lease_seconds =
     on_tasks (\<lambda>now tbl. try_bind (ct_renew_lease tid worker tok lease_seconds now tbl) (\<lambda>(_, tbl'). Inr tbl'))"

definition task_callbacks :: "string \<Rightarrow> string \<Rightarrow> int \<Rightarrow> int \<Rightarrow> 's callbacks" where
  "task_callbacks tid worker tok lease_seconds =
     \<lparr>on_progress = Some (\<lambda>stage pct run.
        and_then (heartbeat tid worker tok lease_seconds run) (\<lambda>run.
          on_tasks (ct_update_progress tid stage pct worker tok) run)),
      on_checkpoint = Some (\<lambda>stage payload pct run.
        and_then (heartbeat tid worker tok lease_seconds run) (\<lambda>run.
        and_then (assert_no_signed_url (JObj payload), run) (\<lambda>run.
          on_tasks (ct_save_checkpoint tid stage payload worker tok (Some pct)) run)))\<rparr>"

definition task_context :: "'s service \<Rightarrow> content_task \<Rightarrow> string \<Rightarrow> 's pipeline_context" where
  "task_context sv t worker =
     \<lparr>cx_task_id = ct_task_id t, cx_source = [(''type'', JStr (ct_source_type t)), (''ref'', JStr (ct_source_ref t))],
      cx_options = (if truthy (ct_credential_ref_hash t)
        then AList.update ''credential_ref_hash'' (JStr (the (ct_credential_ref_hash t))) (ct_options t) else ct_options t),
      cx_state = sv_fresh_state sv, cx_artifacts = empty_registry, cx_restored = [], cx_checkpoints = [],
      cx_current_stage = ''queued'', cx_worker_id = Some worker, cx_fencing_token = Some (ct_fencing_token t)\<rparr>"

text \<open>
  The lease of the task run that goes with a content task: taken before the pipeline, never renewed, and
  given up by the transition to the final state. \<open>others\<close> is what other sessions commit to the task
  runs while the pipeline works.
\<close>

definition begin_task_run ::
  "'s service \<Rightarrow> string \<Rightarrow> string \<Rightarrow> int \<Rightarrow> instant \<Rightarrow> task_db \<Rightarrow> (task_run option \<times> task_db) result" where
  "begin_task_run sv tid worker lease_seconds now db =
     (if \<not> sv_has_task_runs sv then Inr (None, db)
      else (let clock = en_clock (sv_env sv)
            in try_bind (repo_get clock db tid) (\<lambda>existing.
                 let db1 = (if existing = None then snd (pg_service_create clock ''content'' (Some tid) [] db) else db)
                 in try_bind (repo_acquire clock tid worker (Aware now 0) (seconds lease_seconds) db1) (\<lambda>(lease, db2).
                      Inr (Some lease, db2)))))"

definition end_task_run ::
  "'s service \<Rightarrow> (task_db \<Rightarrow> task_db) \<Rightarrow> string \<Rightarrow> task_run option \<Rightarrow> string \<Rightarrow> string \<Rightarrow> instant \<Rightarrow> task_db \<Rightarrow> task_db result" where
  "end_task_run sv others tid lease worker state now db =
     (case lease of
        None \<Rightarrow> Inr db
      | Some t \<Rightarrow> try_bind (repo_transition (en_clock (sv_env sv)) tid state worker (tr_fencing_token t) (Aware now 0) (others db))
          (\<lambda>(_, db'). Inr db'))"

datatype process_outcome =
    Task_Succeeded string pydict
  | Task_Failed string string string
  | Lease_Lost string

text \<open>The body of the \<open>try\<close>: after the pipeline, and as a whole.\<close>

definition missing_snapshot :: string where
  "missing_snapshot = ''CONTENT_SNAPSHOT_PERSIST_FAILED: missing snapshot''"

definition settle_processed ::
  "'s service \<Rightarrow> (task_db \<Rightarrow> task_db) \<Rightarrow> string \<Rightarrow> string \<Rightarrow> int \<Rightarrow> task_run option \<Rightarrow> 's run \<Rightarrow> task_db \<Rightarrow>
     process_outcome result \<times> 's run \<times> task_db" where
  "settle_processed sv others tid worker tok lease run db =
     (let st = cx_state (ru_context run) in
      case sv_payload sv st of Inl e \<Rightarrow> (Inl e, run, db) | Inr payload \<Rightarrow>
      if \<not> truthy (sv_snapshot_id sv st)
      then (case on_tasks (ct_fail tid ''content_snapshot'' missing_snapshot worker tok) run of
              (Inl e, run1) \<Rightarrow> (Inl e, run1, db)
            | (Inr _, run1) \<Rightarrow> (Inr (Task_Failed tid ''content_snapshot'' missing_snapshot), run1, db))
      else (let payload = AList.update ''content_snapshot_id'' (JStr (the (sv_snapshot_id sv st))) payload in
            case on_tasks (ct_commit_effect tid payload worker tok) run of
              (Inl e, run1) \<Rightarrow> (Inl e, run1, db)
            | (Inr _, run1) \<Rightarrow>
                (case end_task_run sv others tid lease worker ''SUCCEEDED'' (now_of run1) db of
                   Inl e \<Rightarrow> (Inl e, ticked run1, db)
                 | Inr db' \<Rightarrow> (Inr (Task_Succeeded tid payload), ticked run1, db'))))"

definition attempt_task ::
  "'s service \<Rightarrow> (task_db \<Rightarrow> task_db) \<Rightarrow> string \<Rightarrow> string \<Rightarrow> int \<Rightarrow> int \<Rightarrow> task_run option \<Rightarrow> 's run \<Rightarrow> task_db \<Rightarrow>
     process_outcome result \<times> 's run \<times> task_db" where
  "attempt_task sv others tid worker tok lease_seconds lease run db =
     (case restore_resume_context sv run of
        (Inl e, run1) \<Rightarrow> (Inl e, run1, db)
      | (Inr resume, run1) \<Rightarrow>
          (case process (sv_env sv) (task_callbacks tid worker tok lease_seconds) resume (sv_runners sv) run1 of
             (Inl e, run2) \<Rightarrow> (Inl e, run2, db)
           | (Inr _, run2) \<Rightarrow> settle_processed sv others tid worker tok lease run2 db))"

text \<open>The handlers: a lost lease is left alone, any other exception fails the task under its fence.\<close>

definition handle_failure ::
  "'s service \<Rightarrow> (task_db \<Rightarrow> task_db) \<Rightarrow> string \<Rightarrow> string \<Rightarrow> int \<Rightarrow> task_run option \<Rightarrow> exn \<Rightarrow> 's run \<Rightarrow> task_db \<Rightarrow>
     process_outcome result \<times> 's run \<times> task_db" where
  "handle_failure sv others tid worker tok lease e run db =
     (case e of
        StaleTaskLease _ \<Rightarrow> (Inr (Lease_Lost tid), run, db)
      | _ \<Rightarrow>
          (case redact_text (error_text e) of
             Inl e' \<Rightarrow> (Inl e', run, db)
           | Inr safe \<Rightarrow>
               (let stage = cx_current_stage (ru_context run) in
                case on_tasks (ct_fail tid stage safe worker tok) run of
                  (Inl (StaleTaskLease _), run1) \<Rightarrow> (Inr (Lease_Lost tid), run1, db)
                | (Inl e', run1) \<Rightarrow> (Inl e', run1, db)
                | (Inr _, run1) \<Rightarrow>
                    (case end_task_run sv others tid lease worker ''FAILED'' (now_of run1) db of
                       Inl _ \<Rightarrow> (Inr (Task_Failed tid stage safe), ticked run1, db)
                     | Inr db' \<Rightarrow> (Inr (Task_Failed tid stage safe), ticked run1, db')))))"

definition process_claimed ::
  "'s service \<Rightarrow> (task_db \<Rightarrow> task_db) \<Rightarrow> content_task \<Rightarrow> string \<Rightarrow> int \<Rightarrow> task_run option \<Rightarrow> 's run \<Rightarrow> task_db \<Rightarrow>
     process_outcome result \<times> 's run \<times> task_db" where
  "process_claimed sv others t worker lease_seconds lease run db =
     (let tid = ct_task_id t; tok = ct_fencing_token t in
      case attempt_task sv others tid worker tok lease_seconds lease (run\<lparr>ru_context := task_context sv t worker\<rparr>) db of
        (Inr out, run', db') \<Rightarrow> (Inr out, run', db')
      | (Inl e, run', db') \<Rightarrow> handle_failure sv others tid worker tok lease e run' db')"

definition process_next ::
  "'s service \<Rightarrow> string set \<Rightarrow> (task_db \<Rightarrow> task_db) \<Rightarrow> string \<Rightarrow> string \<Rightarrow> int \<Rightarrow> 's run \<Rightarrow> task_db \<Rightarrow>
     process_outcome option result \<times> 's run \<times> task_db" where
  "process_next sv locked others worker kind lease_seconds run db =
     (let (claimed, tbl) = ct_claim_pending locked worker kind lease_seconds (now_of run) (so_tasks (ru_store run));
          run1 = (ticked run)\<lparr>ru_store := (ru_store run)\<lparr>so_tasks := tbl\<rparr>\<rparr>
      in case claimed of None \<Rightarrow> (Inr None, run1, db) | Some t \<Rightarrow>
         case begin_task_run sv (ct_task_id t) worker lease_seconds (now_of run1) db of
           Inl e \<Rightarrow> (Inl e, ticked run1, db)
         | Inr (lease, db1) \<Rightarrow>
             (case process_claimed sv others t worker lease_seconds lease (ticked run1) db1 of
                (Inl e, run', db') \<Rightarrow> (Inl e, run', db')
              | (Inr out, run', db') \<Rightarrow> (Inr (Some out), run', db')))"

section \<open>How a task is settled\<close>

definition tasks_of :: "'s run \<Rightarrow> task_table" where
  "tasks_of run = so_tasks (ru_store run)"

definition committed_row :: "string \<Rightarrow> pydict \<Rightarrow> task_table \<Rightarrow> bool" where
  "committed_row tid payload tbl \<longleftrightarrow>
     (case row_get ct_task_id tid tbl of None \<Rightarrow> False
      | Some row \<Rightarrow> ct_status row = ''SUCCEEDED'' \<and> ct_result row = payload \<and> ct_lease_owner row = None)"

definition failed_row :: "string \<Rightarrow> string \<Rightarrow> string \<Rightarrow> task_table \<Rightarrow> bool" where
  "failed_row tid stage err tbl \<longleftrightarrow>
     (case row_get ct_task_id tid tbl of None \<Rightarrow> False
      | Some row \<Rightarrow>
          ct_status row = (if ct_retry_count row \<ge> ct_max_retries row then ''FAILED'' else ''PENDING'') \<and>
          ct_stage row = stage \<and> ct_error row = Some (take 4000 err) \<and> ct_lease_owner row = None)"

definition is_stale :: "exn \<Rightarrow> bool" where
  "is_stale e \<longleftrightarrow> (case e of StaleTaskLease m \<Rightarrow> True | _ \<Rightarrow> False)"

text \<open>
  What an answer of \<open>process_next\<close> says, given the end of the attempt \<open>(res, run1, db1)\<close> and the
  state \<open>run'\<close> it leaves: a success was acknowledged by the queue, a failure was recorded with the stage
  and the redacted text of the exception, and a lost lease left the queue as the attempt did, because
  the attempt itself raised the stale-lease error or the fence refused to record its failure.
\<close>

fun settled :: "process_outcome result \<times> 's run \<times> task_db \<Rightarrow> string \<Rightarrow> int \<Rightarrow> process_outcome \<Rightarrow> 's run \<Rightarrow> bool" where
  "settled (res, run1, db1) worker tok (Task_Succeeded tid payload) run' \<longleftrightarrow>
     res = Inr (Task_Succeeded tid payload) \<and> committed_row tid payload (tasks_of run')"
| "settled (res, run1, db1) worker tok (Task_Failed tid stage err) run' \<longleftrightarrow>
     failed_row tid stage err (tasks_of run') \<and>
     (case res of
        Inr out \<Rightarrow> out = Task_Failed tid stage err \<and> stage = ''content_snapshot'' \<and> err = missing_snapshot
      | Inl e \<Rightarrow> \<not> is_stale e \<and> stage = cx_current_stage (ru_context run1) \<and> redact_text (error_text e) = Inr err)"
| "settled (res, run1, db1) worker tok (Lease_Lost tid) run' \<longleftrightarrow>
     tasks_of run' = tasks_of run1 \<and>
     (case res of
        Inr out \<Rightarrow> False
      | Inl e \<Rightarrow> is_stale e \<or> fenced_row tid worker tok (now_of run1) (tasks_of run1) = Inl (ct_stale tid))"

fun outcome_task :: "process_outcome \<Rightarrow> string" where
  "outcome_task (Task_Succeeded tid payload) = tid"
| "outcome_task (Task_Failed tid stage err) = tid"
| "outcome_task (Lease_Lost tid) = tid"

lemma ct_commit_settles:
  assumes "ct_commit_effect tid payload w k now tbl = Inr tbl'"
  shows "committed_row tid payload tbl'"
  using assms
  by (auto simp: ct_commit_effect_def committed_row_def try_bind_Inr_iff fenced_row_iff ct_put_def row_get_put
      dest: row_get_Some_key)

lemma ct_fail_settles:
  assumes "ct_fail tid stage err w k now tbl = Inr tbl'"
  shows "failed_row tid stage err tbl'"
proof -
  obtain row where row: "row_get ct_task_id tid tbl = Some row" "row_leased row w k now"
    using assms by (auto simp: ct_fail_def try_bind_Inr_iff fenced_row_iff)
  then have "fenced_row tid w k now tbl = Inr row" by (simp add: fenced_row_iff)
  let ?new = "row\<lparr>ct_retry_count := ct_retry_count row + 1,
    ct_status := (if ct_retry_count row + 1 \<ge> ct_max_retries row then ''FAILED'' else ''PENDING''), ct_stage := stage,
    ct_error := Some (take 4000 err), ct_lease_owner := None, ct_lease_expires_at := None, ct_updated_at := Aware now 0\<rparr>"
  from assms \<open>fenced_row tid w k now tbl = Inr row\<close> have "tbl' = row_put ct_task_id ?new tbl"
    by (simp add: ct_fail_def Let_def ct_put_def)
  then have "row_get ct_task_id tid tbl' = Some ?new"
    using row(1) row_get_Some_key [OF row(1)] by (simp add: row_get_put)
  then show ?thesis by (simp add: failed_row_def)
qed

lemma on_tasks_Inr:
  assumes "on_tasks f run = (Inr u, run')"
  shows "f (now_of run) (tasks_of run) = Inr (tasks_of run')" "ru_context run' = ru_context run"
  using assms by (auto simp: on_tasks_def tasks_of_def ticked_def split: sum.splits)

lemma tasks_of_ticked [simp]: "tasks_of (ticked run) = tasks_of run"
  by (simp add: tasks_of_def ticked_def)

lemma on_tasks_Inl:
  assumes "on_tasks f run = (Inl e, run')"
  shows "f (now_of run) (tasks_of run) = Inl e" "tasks_of run' = tasks_of run"
  using assms by (auto simp: on_tasks_def split: sum.splits) (auto simp: tasks_of_def)

lemma settle_processed_settles:
  assumes "settle_processed sv others tid worker tok lease run db = (Inr out, run', db')"
  shows "settled (Inr out, run', db') worker tok out run' \<and> outcome_task out = tid"
proof (cases "sv_payload sv (cx_state (ru_context run))")
  case (Inr payload)
  let ?sid = "sv_snapshot_id sv (cx_state (ru_context run))"
  let ?payload = "AList.update ''content_snapshot_id'' (JStr (the ?sid)) payload"
  note body = assms [unfolded settle_processed_def Let_def Inr sum.case]
  show ?thesis
  proof (cases "truthy ?sid")
    case True
    with body obtain u run1 where "on_tasks (ct_commit_effect tid ?payload worker tok) run = (Inr u, run1)"
        "out = Task_Succeeded tid ?payload" "run' = ticked run1"
      by (auto split: prod.splits sum.splits)
    then show ?thesis using on_tasks_Inr(1) ct_commit_settles by fastforce
  next
    case False
    with body obtain u where "on_tasks (ct_fail tid ''content_snapshot'' missing_snapshot worker tok) run = (Inr u, run')"
        "out = Task_Failed tid ''content_snapshot'' missing_snapshot"
      by (auto split: prod.splits sum.splits)
    then show ?thesis using on_tasks_Inr(1) ct_fail_settles by fastforce
  qed
qed (use assms in \<open>simp add: settle_processed_def\<close>)

text \<open>The diagnosis of a failure can always be redacted: its class name reads as a scheme without a host.\<close>

lemma redact_labelled:
  assumes "name \<noteq> []" and "is_alpha (hd name)" and "list_all scheme_char name"
  shows "\<exists>t. redact_text (name @ '': '' @ m) = Inr t"
proof -
  have keep: "c \<notin> {CHR 0x09, CHR 0x0A, CHR 0x0D}" "c \<noteq> CHR '':''" if "c \<in> set name" for c
    using that assms(3) by (auto simp: list_all_iff scheme_char_def is_alpha_def is_upper_def is_lower_def is_digit_def in_range_def)
  obtain c cs where name: "name = c # cs" using assms(1) by (cases name) auto
  have head: "dropWhile (\<lambda>c. in_range 0 c 32) (name @ s) = name @ s" for s
    using assms(2) by (auto simp: name is_alpha_def is_upper_def is_lower_def in_range_def)
  let ?m = "filter (\<lambda>c. c \<notin> {CHR 0x09, CHR 0x0A, CHR 0x0D}) m"
  have "filter (\<lambda>c. c \<notin> {CHR 0x09, CHR 0x0A, CHR 0x0D}) name = name"
    using keep(1) by (intro filter_True) blast
  then have strip: "strip_url (name @ '': '' @ m) = name @ CHR '':'' # CHR '' '' # ?m"
    unfolding strip_url_def head by simp
  have "split_scheme (name @ CHR '':'' # u) = (lower name, u)" for u
    using assms keep(2) by (auto simp: split_scheme_def takeWhile_append2 dropWhile_append2 name)
  then have "\<exists>u. urlsplit (name @ '': '' @ m) = Inr u"
    unfolding urlsplit_def strip by (simp add: starts_with_def Let_def split: prod.split)
  then show ?thesis by (auto simp: redact_text_def)
qed

lemma error_text_redacts: "\<exists>t. redact_text (error_text e) = Inr t"
  unfolding error_text_def
  by (rule redact_labelled; cases e)
    (simp_all add: scheme_char_def is_alpha_def is_upper_def is_lower_def in_range_def)

lemma ct_fail_error:
  "ct_fail tid stage err w k now tbl = Inl e \<Longrightarrow> e = ct_stale tid \<and> fenced_row tid w k now tbl = Inl (ct_stale tid)"
  by (auto simp: ct_fail_def try_bind_Inl_iff fenced_row_error Let_def)

lemma handle_failure_settles:
  assumes "handle_failure sv others tid worker tok lease e run db = (r, run', db')"
  shows "\<exists>out. r = Inr out \<and> settled (Inl e, run, db) worker tok out run' \<and> outcome_task out = tid"
proof (cases "is_stale e")
  case True
  then obtain m where "e = StaleTaskLease m" by (auto simp: is_stale_def split: exn.splits)
  with assms True show ?thesis by (auto simp: handle_failure_def)
next
  case False
  obtain safe where safe: "redact_text (error_text e) = Inr safe" using error_text_redacts by blast
  let ?stage = "cx_current_stage (ru_context run)"
  obtain res run1 where fail: "on_tasks (ct_fail tid ?stage safe worker tok) run = (res, run1)"
    by (cases "on_tasks (ct_fail tid ?stage safe worker tok) run")
  note body = assms [unfolded handle_failure_def Let_def safe sum.case fail prod.case]
  show ?thesis
  proof (cases res)
    case (Inl e')
    note refused = on_tasks_Inl [OF fail [unfolded Inl]]
    note stale = ct_fail_error [OF refused(1)]
    with body False Inl have "r = Inr (Lease_Lost tid)" "run' = run1"
      by (cases e; simp add: is_stale_def ct_stale_def)+
    with stale refused(2) show ?thesis by simp
  next
    case (Inr u)
    with body False have "r = Inr (Task_Failed tid ?stage safe)" "run' = ticked run1"
      by (cases e; auto simp: is_stale_def split: sum.splits)+
    with ct_fail_settles [OF on_tasks_Inr(1) [OF fail [unfolded Inr]]] False safe show ?thesis by simp
  qed
qed

lemma process_claimed_settles:
  assumes "process_claimed sv others t worker ls lease run db = (r, run', db')"
  shows "\<exists>out. r = Inr out \<and> outcome_task out = ct_task_id t \<and>
    settled (attempt_task sv others (ct_task_id t) worker (ct_fencing_token t) ls lease
        (run\<lparr>ru_context := task_context sv t worker\<rparr>) db) worker (ct_fencing_token t) out run'"
proof -
  let ?run = "run\<lparr>ru_context := task_context sv t worker\<rparr>"
  obtain res run1 db1 where att: "attempt_task sv others (ct_task_id t) worker (ct_fencing_token t) ls lease ?run db = (res, run1, db1)"
    using prod_cases3 by blast
  show ?thesis
  proof (cases res)
    case (Inl e)
    with assms att have "handle_failure sv others (ct_task_id t) worker (ct_fencing_token t) lease e run1 db1 = (r, run', db')"
      by (simp add: process_claimed_def)
    from handle_failure_settles [OF this] show ?thesis unfolding att Inl by blast
  next
    case (Inr out)
    with assms att have r: "r = Inr out" "run' = run1" by (simp_all add: process_claimed_def)
    obtain run2 where "settle_processed sv others (ct_task_id t) worker (ct_fencing_token t) lease run2 db = (Inr out, run1, db1)"
      using att Inr by (auto simp: attempt_task_def split: prod.splits sum.splits)
    from settle_processed_settles [OF this] r show ?thesis unfolding att Inr by blast
  qed
qed

text \<open>The state in which the pipeline starts on a claimed task.\<close>

definition claimed_run :: "'s service \<Rightarrow> content_task \<Rightarrow> string \<Rightarrow> task_table \<Rightarrow> 's run \<Rightarrow> 's run" where
  "claimed_run sv t worker tbl run =
     (ticked ((ticked run)\<lparr>ru_store := (ru_store run)\<lparr>so_tasks := tbl\<rparr>\<rparr>))\<lparr>ru_context := task_context sv t worker\<rparr>"

text \<open>
  C10. What \<open>process_next\<close> answers is what happened. It answers for the task it claimed. A success is
  that of the attempt and a \<open>SUCCEEDED\<close> row with the reported payload; a failure is a row that is pending
  again, or failed when its retries are used up, with the stage the attempt had reached and the redacted
  text of its exception, both rows without an owner. \<open>LEASE_LOST\<close> is answered only when the attempt raised
  the stale-lease error, or when the fence refuses this worker and token as the failure is recorded, and the
  queue stays as the attempt left it; it does not say that the task has not succeeded
  (\<open>overrun_reports_lease_lost\<close>). \<open>process_next\<close> raises only when the lease of the task run cannot be
  taken, and answers nothing only when there is nothing to claim.
\<close>

theorem process_next_settles:
  assumes "process_next sv locked others worker kind ls run db = (r, run', db')"
  shows "\<exists>claimed tbl. ct_claim_pending locked worker kind ls (now_of run) (tasks_of run) = (claimed, tbl) \<and>
    (case r of
       Inl e \<Rightarrow> \<exists>t. claimed = Some t \<and> begin_task_run sv (ct_task_id t) worker ls (now_of (ticked run)) db = Inl e
     | Inr None \<Rightarrow> claimed = None
     | Inr (Some out) \<Rightarrow> \<exists>t lease db1. claimed = Some t \<and> outcome_task out = ct_task_id t \<and>
         begin_task_run sv (ct_task_id t) worker ls (now_of (ticked run)) db = Inr (lease, db1) \<and>
         settled (attempt_task sv others (ct_task_id t) worker (ct_fencing_token t) ls lease (claimed_run sv t worker tbl run) db1)
           worker (ct_fencing_token t) out run')"
proof -
  obtain claimed tbl where claim: "ct_claim_pending locked worker kind ls (now_of run) (tasks_of run) = (claimed, tbl)"
    by (cases "ct_claim_pending locked worker kind ls (now_of run) (tasks_of run)")
  let ?run = "(ticked run)\<lparr>ru_store := (ru_store run)\<lparr>so_tasks := tbl\<rparr>\<rparr>"
  have now: "now_of ?run = now_of (ticked run)" by (simp add: now_of_def)
  note body = assms [unfolded process_next_def Let_def claim [unfolded tasks_of_def] prod.case]
  show ?thesis
  proof (cases claimed)
    case None
    with body claim show ?thesis by auto
  next
    case (Some t)
    note body = body [unfolded Some option.case now]
    show ?thesis
    proof (cases "begin_task_run sv (ct_task_id t) worker ls (now_of (ticked run)) db")
      case (Inl e)
      with body have "r = Inl e" by simp
      with Inl claim Some show ?thesis by auto
    next
      case (Inr started)
      obtain lease db1 where started: "started = (lease, db1)" by (cases started)
      obtain res run1 db2 where done1: "process_claimed sv others t worker ls lease (ticked ?run) db1 = (res, run1, db2)"
        using prod_cases3 by blast
      obtain out where out: "res = Inr out" "outcome_task out = ct_task_id t"
          "settled (attempt_task sv others (ct_task_id t) worker (ct_fencing_token t) ls lease (claimed_run sv t worker tbl run) db1)
             worker (ct_fencing_token t) out run1"
        using process_claimed_settles [OF done1] unfolding claimed_run_def by blast
      moreover from body [unfolded Inr started sum.case prod.case done1] \<open>res = Inr out\<close>
      have "r = Inr (Some out)" "run' = run1" by simp_all
      ultimately show ?thesis using claim Some Inr started by fastforce
    qed
  qed
qed

definition sample_service :: "nat service" where
  "sample_service =
     \<lparr>sv_env = runner_env, sv_runners = [], sv_has_repository = False, sv_has_task_runs = False, sv_fresh_state = 0,
      sv_observe = (\<lambda>_ ctx. Inr ctx), sv_rehydrate = (\<lambda>_ ctx. Inr ctx), sv_snapshot_id = (\<lambda>_. Some ''snap''),
      sv_payload = (\<lambda>_. Inr [(''chapter_count'', JInt 2)])\<rparr>"

definition queued_run :: "nat run" where
  "queued_run = silent_run\<lparr>ru_store := (ru_store silent_run)\<lparr>so_tasks := example_table\<rparr>\<rparr>"

theorem process_next_settles_witness:
  "\<exists>out run' db' t. process_next sample_service {} id ''a'' ''video_pipeline'' 900 queued_run \<lparr>db_runs = [], db_operator_audit = []\<rparr> =
       (Inr (Some out), run', db') \<and> outcome_task out = ''t1'' \<and>
     settled (attempt_task sample_service id ''t1'' ''a'' (ct_fencing_token t) 900 None
         (claimed_run sample_service t ''a'' example_claimed queued_run) \<lparr>db_runs = [], db_operator_audit = []\<rparr>)
       ''a'' (ct_fencing_token t) out run'"
proof -
  let ?db = "\<lparr>db_runs = [], db_operator_audit = []\<rparr> :: task_db"
  obtain r run' db' where run: "process_next sample_service {} id ''a'' ''video_pipeline'' 900 queued_run ?db = (r, run', db')"
    using prod_cases3 by blast
  have now: "now_of queued_run = 0" "tasks_of queued_run = example_table"
    by (simp_all add: queued_run_def silent_run_def now_of_def tasks_of_def)
  obtain t where t: "ct_claim_pending {} ''a'' ''video_pipeline'' 900 0 example_table = (Some t, example_claimed)" "ct_task_id t = ''t1''"
    using example_claim by blast
  have none: "begin_task_run sample_service tid w ls n d = Inr (None, d)" for tid w ls n d
    by (simp add: begin_task_run_def sample_service_def)
  from process_next_settles [OF run] t none show ?thesis
    by (auto simp: now run split: sum.splits option.splits)
qed

section \<open>A run that outlasts its task run\<close>

text \<open>
  The heartbeat renews the lease of the content task only. When the pipeline takes longer than
  \<open>lease_seconds\<close>, the final transition of the task run is refused after the task was committed: the
  worker reports a lost lease for a task that has succeeded, and the task run stays \<open>RUNNING\<close>.
\<close>

lemma begin_task_run_row:
  assumes "begin_task_run sv tid worker ls now db = Inr (Some lease, db1)"
  shows "\<exists>row. row_get trr_task_run_id tid (db_runs db1) = Some row \<and> trr_owner row = Some worker \<and>
    trr_fencing_token row = tr_fencing_token lease \<and> trr_lease_expires_at row = Some (Aware (now + seconds ls) 0)"
proof -
  obtain db0 where "repo_acquire (en_clock (sv_env sv)) tid worker (Aware now 0) (seconds ls) db0 = Inr (lease, db1)"
    using assms by (auto simp: begin_task_run_def Let_def try_bind_Inr_iff split: if_splits)
  then obtain row loaded where row: "row_get trr_task_run_id tid (db_runs db0) = Some row"
      "row_domain (en_clock (sv_env sv)) row = Inr loaded" "acquire_lease worker (Aware now 0) (seconds ls) loaded = Inr lease"
      "db1 = write_row (row\<lparr>trr_state := state_value (tr_state lease), trr_owner := tr_owner lease,
         trr_lease_expires_at := tr_lease_expires_at lease, trr_fencing_token := tr_fencing_token lease,
         trr_updated_at := Aware now 0\<rparr>) db0"
    by (auto simp: repo_acquire_def try_bind_Inr_iff locked_row_def split: option.splits)
  have "tr_owner lease = Some worker" "tr_lease_expires_at lease = Some (Aware (now + seconds ls) 0)"
    using row(3) by (auto simp: acquire_lease_def add_audit_def Let_def split: if_splits)
  with row(1,4) row_get_Some_key [OF row(1)] show ?thesis by (simp add: write_row_def row_get_put)
qed

lemma end_task_run_expired:
  assumes "row_get trr_task_run_id tid (db_runs (others db)) = Some row" and "trr_lease_expires_at row = Some e"
    and "instant_of e \<le> now"
  shows "\<exists>err. end_task_run sv others tid (Some lease) worker state now db = Inl err \<and> (\<nexists>m. err = StaleTaskLease m)"
proof (cases "row_domain (en_clock (sv_env sv)) row")
  case (Inl err)
  then have "\<exists>m. err = ValueError m"
    by (auto simp: row_domain_def try_bind_Inl_iff task_run_state_of_def split: option.splits)
  with Inl assms(1) show ?thesis by (auto simp: end_task_run_def repo_transition_def locked_row_def)
next
  case (Inr loaded)
  then have "tr_lease_expires_at loaded = Some e" using row_domain_stores [OF Inr] assms(2) by (simp add: stores_def)
  then have "\<exists>m. require_lease worker tok (Aware now 0) loaded = Inl (LeaseError m)" for tok
    using assms(3) by (simp add: require_lease_def)
  then have "\<exists>m. transition_to state worker tok (Aware now 0) loaded = Inl (LeaseError m)" for tok
    by (simp add: transition_to_def Let_def) (metis try_bind_simps(1))
  then obtain m where "transition_to state worker (tr_fencing_token lease) (Aware now 0) loaded = Inl (LeaseError m)" by blast
  with Inr assms(1) show ?thesis by (simp add: end_task_run_def repo_transition_def locked_row_def)
qed

lemma overrun_reports_lease_lost:
  assumes "begin_task_run sv (ct_task_id t) worker ls began db = Inr (Some lease, db1)"
    and "row_get trr_task_run_id (ct_task_id t) (db_runs (others db1)) = row_get trr_task_run_id (ct_task_id t) (db_runs db1)"
    and "restore_resume_context sv (run\<lparr>ru_context := task_context sv t worker\<rparr>) = (Inr resume, run1)"
    and "process (sv_env sv) (task_callbacks (ct_task_id t) worker (ct_fencing_token t) ls) resume (sv_runners sv) run1 = (Inr u, run2)"
    and "sv_payload sv (cx_state (ru_context run2)) = Inr payload" and "sv_snapshot_id sv (cx_state (ru_context run2)) = Some sid" "sid \<noteq> []"
    and "on_tasks (ct_commit_effect (ct_task_id t) (AList.update ''content_snapshot_id'' (JStr sid) payload) worker (ct_fencing_token t)) run2
      = (Inr v, run3)" and "began + seconds ls \<le> now_of run3"
  shows "\<exists>run'. process_claimed sv others t worker ls (Some lease) run db1 = (Inr (Lease_Lost (ct_task_id t)), run', db1) \<and>
    committed_row (ct_task_id t) (AList.update ''content_snapshot_id'' (JStr sid) payload) (tasks_of run')"
proof -
  let ?tid = "ct_task_id t" and ?payload = "AList.update ''content_snapshot_id'' (JStr sid) payload"
  obtain row where row: "row_get trr_task_run_id ?tid (db_runs (others db1)) = Some row"
      "trr_lease_expires_at row = Some (Aware (began + seconds ls) 0)"
    using begin_task_run_row [OF assms(1)] assms(2) by auto
  obtain err where err: "end_task_run sv others ?tid (Some lease) worker ''SUCCEEDED'' (now_of run3) db1 = Inl err" "\<nexists>m. err = StaleTaskLease m"
    using end_task_run_expired [where others = others and db = db1 and sv = sv, OF row] assms(9) by (metis instant_of.simps(2))
  have att: "attempt_task sv others ?tid worker (ct_fencing_token t) ls (Some lease) (run\<lparr>ru_context := task_context sv t worker\<rparr>) db1 =
      (Inl err, ticked run3, db1)"
    using assms(3-8) err by (simp add: attempt_task_def settle_processed_def Let_def)
  have done1: "committed_row ?tid ?payload (tasks_of run3)"
    using on_tasks_Inr(1) [OF assms(8)] by (rule ct_commit_settles)
  then obtain r where r: "row_get ct_task_id ?tid (tasks_of run3) = Some r" "ct_status r = ''SUCCEEDED''"
    by (auto simp: committed_row_def split: option.splits)
  have stale: "on_tasks (ct_fail ?tid st e worker (ct_fencing_token t)) (ticked run3) = (Inl (ct_stale ?tid), ticked (ticked run3))" for st e
    using r by (simp add: on_tasks_def ct_fail_def fenced_row_def tasks_of_def ticked_def)
  obtain safe where "redact_text (error_text err) = Inr safe" using error_text_redacts by blast
  then have "handle_failure sv others ?tid worker (ct_fencing_token t) (Some lease) err (ticked run3) db1 =
      (Inr (Lease_Lost ?tid), ticked (ticked run3), db1)"
    using err(2) by (cases err) (simp_all add: handle_failure_def Let_def stale ct_stale_def)
  with att done1 show ?thesis by (auto simp: process_claimed_def)
qed

end
