(* ===== verification/Lifecycle.thy ===== *)
theory Lifecycle
  imports Initial_Verification Iso_Datetime
begin

text \<open>
  The lifecycle ledger: events with content-addressed ids (\<open>domain/lifecycle_event.py\<close>), the append-only
  repository with its bitemporal read (\<open>adapters/postgres/repositories/lifecycle_repository.py\<close>), the policy
  (\<open>domain/lifecycle_policy.py\<close>) and the review of expired forecasts
  (\<open>application/forecast_outcome_review.py\<close>). Clocks are compared as instants: comparing a naive with an
  aware datetime, which raises in Python, does not occur for rows that keep their offset.
\<close>

section \<open>Events\<close>

datatype lifecycle_target = Claim_Target | Occurrence_Target

definition target_value :: "lifecycle_target \<Rightarrow> string" where
  "target_value t = (case t of Claim_Target \<Rightarrow> ''CLAIM'' | Occurrence_Target \<Rightarrow> ''OCCURRENCE'')"

record lifecycle_event =
  le_event_id :: string
  le_target_type :: lifecycle_target
  le_target_id :: string
  le_from_status :: "string option"
  le_to_status :: string
  le_effective_at :: pydt
  le_recorded_at :: pydt
  le_reason_code :: string
  le_policy_version :: string
  le_supersedes_event_id :: "string option"

text \<open>The identity leaves out when the event was recorded.\<close>

definition lifecycle_identity :: "lifecycle_event \<Rightarrow> pydict" where
  "lifecycle_identity e =
     [(''target_type'', JStr (target_value (le_target_type e))), (''target_id'', JStr (le_target_id e)),
      (''from_status'', jstr_opt (le_from_status e)), (''to_status'', JStr (le_to_status e)),
      (''effective_at'', JStr (dt_str (le_effective_at e))), (''reason_code'', JStr (le_reason_code e)),
      (''policy_version'', JStr (le_policy_version e))]"

definition lifecycle_id_of :: "(string \<Rightarrow> string) \<Rightarrow> lifecycle_event \<Rightarrow> string" where
  "lifecycle_id_of H e = ''le_'' @ H (canonical_json (JObj (lifecycle_identity e)))"

definition lifecycle_init :: "(string \<Rightarrow> string) \<Rightarrow> lifecycle_event \<Rightarrow> lifecycle_event" where
  "lifecycle_init H e = (if le_event_id e = [] then e\<lparr>le_event_id := lifecycle_id_of H e\<rparr> else e)"

section \<open>The bitemporal read\<close>

definition lifecycle_key :: "lifecycle_event \<Rightarrow> instant \<times> instant \<times> string" where
  "lifecycle_key e = (instant_of (le_effective_at e), instant_of (le_recorded_at e), le_event_id e)"

definition lifecycle_candidate :: "lifecycle_target \<Rightarrow> string \<Rightarrow> instant \<Rightarrow> instant \<Rightarrow> lifecycle_event \<Rightarrow> bool" where
  "lifecycle_candidate ty tid business knowledge e \<longleftrightarrow>
     le_target_type e = ty \<and> le_target_id e = tid \<and> instant_of (le_effective_at e) \<le> business \<and>
     instant_of (le_recorded_at e) \<le> knowledge"

text \<open>\<open>max\<close> keeps the first of equal keys.\<close>

fun max_by :: "('a \<Rightarrow> 'k :: linorder) \<Rightarrow> 'a \<Rightarrow> 'a list \<Rightarrow> 'a" where
  "max_by key m [] = m"
| "max_by key m (x # xs) = max_by key (if key x > key m then x else m) xs"

definition select_lifecycle_event ::
  "lifecycle_target \<Rightarrow> string \<Rightarrow> instant \<Rightarrow> instant \<Rightarrow> lifecycle_event list \<Rightarrow> lifecycle_event option" where
  "select_lifecycle_event ty tid business knowledge events =
     (case filter (lifecycle_candidate ty tid business knowledge) events of
        [] \<Rightarrow> None
      | e # es \<Rightarrow> Some (max_by lifecycle_key e es))"

section \<open>The ledger\<close>

text \<open>\<open>_same_time\<close>: a naive right side is read in the offset of the left one.\<close>

definition same_instant :: "pydt \<Rightarrow> pydt \<Rightarrow> bool" where
  "same_instant l r =
     (case as_utc l of
        Aware t off \<Rightarrow> t = (case r of Naive w \<Rightarrow> w - off | Aware t' _ \<Rightarrow> t')
      | Naive t \<Rightarrow> t = instant_of r)"

definition same_lifecycle_event :: "lifecycle_event \<Rightarrow> lifecycle_event \<Rightarrow> bool" where
  "same_lifecycle_event row e \<longleftrightarrow>
     le_target_type row = le_target_type e \<and> le_target_id row = le_target_id e \<and>
     le_from_status row = le_from_status e \<and> le_to_status row = le_to_status e \<and>
     same_instant (le_effective_at row) (le_effective_at e) \<and> same_instant (le_recorded_at row) (le_recorded_at e) \<and>
     le_reason_code row = le_reason_code e \<and> le_policy_version row = le_policy_version e \<and>
     le_supersedes_event_id row = le_supersedes_event_id e"

definition lifecycle_append :: "lifecycle_event \<Rightarrow> lifecycle_event list \<Rightarrow> lifecycle_event list result" where
  "lifecycle_append e ledger =
     (case row_get le_event_id (le_event_id e) ledger of
        Some row \<Rightarrow>
          if same_lifecycle_event row e then Inr ledger
          else Inl (ValueError (''lifecycle event id '' @ le_event_id e @ '' already stores different payload''))
      | None \<Rightarrow> Inr (row_add e ledger))"

definition lifecycle_get :: "string \<Rightarrow> lifecycle_event list \<Rightarrow> lifecycle_event option" where
  "lifecycle_get eid ledger =
     map_option (\<lambda>e. e\<lparr>le_effective_at := as_utc (le_effective_at e), le_recorded_at := as_utc (le_recorded_at e)\<rparr>)
       (row_get le_event_id eid ledger)"

definition select_as_of ::
  "lifecycle_target \<Rightarrow> string \<Rightarrow> instant \<Rightarrow> instant \<Rightarrow> lifecycle_event list \<Rightarrow> lifecycle_event option" where
  "select_as_of ty tid business knowledge ledger =
     select_lifecycle_event ty tid business knowledge
       (filter (\<lambda>e. le_target_id e = tid \<and> le_target_type e = ty) ledger)"

section \<open>Reads are answers about the past\<close>

lemma max_by_cases:
  "max_by key m xs \<in> set (m # xs) \<and> (\<forall>x \<in> set (m # xs). key x \<le> key (max_by key m xs))"
proof (induction xs arbitrary: m)
  case (Cons x xs)
  from Cons [of "if key x > key m then x else m"] show ?case by (auto split: if_splits intro: order_trans less_imp_le)
qed simp

text \<open>The selected event is the greatest candidate; with distinct ids there is no other.\<close>

lemma select_spec:
  assumes "keys_distinct le_event_id events"
  shows "select_lifecycle_event ty tid b k events = Some e \<longleftrightarrow>
    e \<in> set events \<and> lifecycle_candidate ty tid b k e \<and>
    (\<forall>x \<in> set events. lifecycle_candidate ty tid b k x \<longrightarrow> lifecycle_key x \<le> lifecycle_key e)"
proof -
  let ?c = "filter (lifecycle_candidate ty tid b k) events"
  have unique: "x = y" if "x \<in> set events" "y \<in> set events" "lifecycle_key x = lifecycle_key y" for x y
    using that assms by (auto simp: lifecycle_key_def keys_distinct_def distinct_map inj_on_def)
  show ?thesis
  proof (cases ?c)
    case Nil
    then have "\<not> lifecycle_candidate ty tid b k x" if "x \<in> set events" for x using that by (auto simp: filter_empty_conv)
    with Nil show ?thesis by (auto simp: select_lifecycle_event_def)
  next
    case (Cons c cs)
    let ?m = "max_by lifecycle_key c cs"
    note greatest = max_by_cases [of lifecycle_key c cs, folded Cons]
    note m = greatest [THEN conjunct1] greatest [THEN conjunct2]
    have "select_lifecycle_event ty tid b k events = Some ?m" by (simp add: select_lifecycle_event_def Cons)
    moreover have "e = ?m" if "e \<in> set events" "lifecycle_candidate ty tid b k e"
      "\<forall>x \<in> set events. lifecycle_candidate ty tid b k x \<longrightarrow> lifecycle_key x \<le> lifecycle_key e"
    proof -
      have "lifecycle_key e = lifecycle_key ?m" using that m by (auto intro: antisym)
      with unique that(1) m(1) show ?thesis by auto
    qed
    ultimately show ?thesis using m by auto
  qed
qed

lemma append_cases:
  assumes "lifecycle_append e ledger = Inr ledger'"
  shows "ledger' = ledger \<or> (ledger' = ledger @ [e] \<and> row_get le_event_id (le_event_id e) ledger = None)"
  using assms by (auto simp: lifecycle_append_def row_add_def split: option.splits if_splits)

definition ledger_step :: "lifecycle_event list \<Rightarrow> lifecycle_event \<Rightarrow> lifecycle_event list" where
  "ledger_step ledger e = (case lifecycle_append e ledger of Inl _ \<Rightarrow> ledger | Inr ledger' \<Rightarrow> ledger')"

lemma ledger_step_cases:
  "ledger_step ledger e = ledger \<or> (ledger_step ledger e = ledger @ [e] \<and> row_get le_event_id (le_event_id e) ledger = None)"
  using append_cases [of e ledger] by (auto simp: ledger_step_def split: sum.splits)

lemma select_as_of_candidates:
  "select_as_of ty tid b k ledger = select_lifecycle_event ty tid b k ledger"
proof -
  have "filter (lifecycle_candidate ty tid b k) (filter (\<lambda>e. le_target_id e = tid \<and> le_target_type e = ty) ledger) =
      filter (lifecycle_candidate ty tid b k) ledger"
    by (simp add: conj_commute) (rule filter_cong, simp, auto simp: lifecycle_candidate_def)
  then show ?thesis by (simp add: select_as_of_def select_lifecycle_event_def)
qed

lemma select_ignores_later:
  assumes "instant_of (le_recorded_at e) > k"
  shows "select_as_of ty tid b k (ledger_step ledger e) = select_as_of ty tid b k ledger"
  using ledger_step_cases [of ledger e] assms
  by (auto simp: select_as_of_candidates select_lifecycle_event_def lifecycle_candidate_def)

lemma ledger_step_distinct: "keys_distinct le_event_id ledger \<Longrightarrow> keys_distinct le_event_id (ledger_step ledger e)"
  using ledger_step_cases [of ledger e] keys_distinct_add [of le_event_id e ledger] by (auto simp: row_add_def)

text \<open>
  C28. The bitemporal read answers about the past once and for all. It returns the latest event, by business
  time, then by recording time, then by id, among those that were effective and recorded at the two clocks,
  whatever the order of the ledger, and none when there is none; and no event that is recorded after the
  knowledge clock, accepted or refused, ever changes the answer.
\<close>

theorem lifecycle_reads_reproducible:
  assumes "keys_distinct le_event_id ledger" and "\<forall>e \<in> set later. instant_of (le_recorded_at e) > knowledge"
  shows "select_as_of ty tid business knowledge (foldl ledger_step ledger later) =
      select_as_of ty tid business knowledge ledger \<and>
    (select_as_of ty tid business knowledge ledger = Some e \<longleftrightarrow>
       e \<in> set ledger \<and> lifecycle_candidate ty tid business knowledge e \<and>
       (\<forall>x \<in> set ledger. lifecycle_candidate ty tid business knowledge x \<longrightarrow> lifecycle_key x \<le> lifecycle_key e))"
proof
  show "select_as_of ty tid business knowledge (foldl ledger_step ledger later) = select_as_of ty tid business knowledge ledger"
    using assms(2)
  proof (induction later rule: rev_induct)
    case (snoc x xs)
    then show ?case by (simp add: select_ignores_later)
  qed simp
qed (simp only: select_as_of_candidates select_spec [OF assms(1)])

definition sample_lifecycle_event :: "string \<Rightarrow> string \<Rightarrow> pydt \<Rightarrow> pydt \<Rightarrow> lifecycle_event" where
  "sample_lifecycle_event eid status effective recorded =
     \<lparr>le_event_id = eid, le_target_type = Claim_Target, le_target_id = ''c'', le_from_status = None, le_to_status = status,
      le_effective_at = effective, le_recorded_at = recorded, le_reason_code = ''r'', le_policy_version = ''p'',
      le_supersedes_event_id = None\<rparr>"

theorem lifecycle_reads_reproducible_witness:
  "select_as_of Claim_Target ''c'' 10 10
     (foldl ledger_step [sample_lifecycle_event ''a'' ''ACTIVE'' (Aware 1 0) (Aware 1 0)]
        [sample_lifecycle_event ''b'' ''RETIRED'' (Aware 2 0) (Aware 11 0)]) =
   Some (sample_lifecycle_event ''a'' ''ACTIVE'' (Aware 1 0) (Aware 1 0))"
proof -
  let ?a = "sample_lifecycle_event ''a'' ''ACTIVE'' (Aware 1 0) (Aware 1 0)"
  have "keys_distinct le_event_id [?a]" by (simp add: keys_distinct_def)
  from lifecycle_reads_reproducible [OF this, of "[sample_lifecycle_event ''b'' ''RETIRED'' (Aware 2 0) (Aware 11 0)]" 10
      Claim_Target "''c''" 10 ?a]
  show ?thesis by (simp add: sample_lifecycle_event_def lifecycle_candidate_def)
qed

section \<open>The policy\<close>

record lifecycle_evaluation =
  lv_current_status :: string
  lv_action :: string
  lv_reason_code :: string

definition lifecycle_terminal_statuses :: "string list" where
  "lifecycle_terminal_statuses = [''REJECTED'', ''RETIRED'', ''RETRACTED'', ''INVALID'', ''SUPERSEDED'']"

definition lifecycle_evaluate :: "string \<Rightarrow> string \<Rightarrow> bool \<Rightarrow> lifecycle_evaluation" where
  "lifecycle_evaluate claim_type status expired =
     (if status \<in> set lifecycle_terminal_statuses
      then \<lparr>lv_current_status = status, lv_action = ''KEEP'', lv_reason_code = ''TERMINAL''\<rparr>
      else if expired \<and> claim_type = ''FORECAST'' \<and> status = ''ACTIVE''
      then \<lparr>lv_current_status = status, lv_action = ''OUTCOME_REVIEW'', lv_reason_code = ''FORECAST_TARGET_DATE_REACHED''\<rparr>
      else \<lparr>lv_current_status = status, lv_action = ''KEEP'', lv_reason_code = ''WITHIN_POLICY''\<rparr>)"

definition outcome_review_outcomes :: "string list" where
  "outcome_review_outcomes = [''VALIDATED'', ''VERIFIED'', ''CONTRADICTED'', ''PARTIALLY_VERIFIED'', ''NOT_VERIFIABLE'']"

definition upper_text :: "string \<Rightarrow> string" where
  "upper_text s = map (\<lambda>c. if is_lower c then char_of ((of_char c :: nat) - 32) else c) s"

definition outcome_review_evaluation :: "string \<Rightarrow> lifecycle_evaluation result" where
  "outcome_review_evaluation verification_status =
     (let status = upper_text verification_status
      in try_bind (ensure (status \<in> set outcome_review_outcomes)
           (ValueError (''unsupported outcome review status: '' @ verification_status))) (\<lambda>_.
         let status = (if status = ''VERIFIED'' then ''VALIDATED'' else status)
         in Inr \<lparr>lv_current_status = ''OUTCOME_REVIEW'', lv_action = status,
                 lv_reason_code = ''OUTCOME_REVIEW_RESULT:'' @ status\<rparr>))"

definition outcome_review_event ::
  "(string \<Rightarrow> string) \<Rightarrow> string \<Rightarrow> string \<Rightarrow> pydt \<Rightarrow> pydt \<Rightarrow> string \<Rightarrow> lifecycle_event result" where
  "outcome_review_event H cid verification_status effective recorded policy_version =
     try_bind (outcome_review_evaluation verification_status) (\<lambda>evaluation.
       Inr (lifecycle_init H
         \<lparr>le_event_id = [], le_target_type = Claim_Target, le_target_id = cid,
          le_from_status = Some (lv_current_status evaluation), le_to_status = lv_action evaluation,
          le_effective_at = effective, le_recorded_at = recorded, le_reason_code = lv_reason_code evaluation,
          le_policy_version = policy_version, le_supersedes_event_id = None\<rparr>))"

end
