(* ===== verification/Forecast_Review.thy ===== *)
theory Forecast_Review
  imports Lifecycle Claim_Events
begin

text \<open>
  \<open>ForecastOutcomeReview.review_claim\<close> (\<open>application/forecast_outcome_review.py\<close>): a forecast whose target is
  reached moves from \<open>ACTIVE\<close> to \<open>OUTCOME_REVIEW\<close> in the lifecycle ledger, mirrored into the claim state
  events. The two stores commit separately, so a failure of the second keeps the first. The IANA time zones
  are an argument: the offset of a zone at a wall-clock time.
\<close>

section \<open>The target of a forecast\<close>

record target_binding =
  tg_role :: string
  tg_normalization_status :: string
  tg_end_date :: "(int \<times> int \<times> int) option"
  tg_end_time :: "pydt option"
  tg_timezone :: "string option"

type_synonym time_zones = "string \<Rightarrow> (int \<Rightarrow> int) option"

definition declared_timezone :: "time_zones \<Rightarrow> string option \<Rightarrow> (int \<Rightarrow> int) option" where
  "declared_timezone zones name =
     (if \<not> truthy name then Some (\<lambda>_. 0)
      else case zones (str_or name []) of
             Some z \<Rightarrow> Some z
           | None \<Rightarrow> if str_or name [] \<in> {''UTC'', ''Etc/UTC'', ''GMT''} then Some (\<lambda>_. 0) else None)"

definition last_microsecond :: "int \<times> int \<times> int \<Rightarrow> int" where
  "last_microsecond ymd = (ymd_to_ord ymd - epoch_ordinal) * day_us + (day_us - 1)"

definition resolved_target_end :: "time_zones \<Rightarrow> target_binding \<Rightarrow> pydt option" where
  "resolved_target_end zones b =
     (case tg_end_time b of
        Some t \<Rightarrow> Some t
      | None \<Rightarrow>
          (case tg_end_date b of
             None \<Rightarrow> None
           | Some d \<Rightarrow> map_option (\<lambda>z. let wall = last_microsecond d in Aware (wall - z wall) (z wall))
               (declared_timezone zones (tg_timezone b))))"

definition forecast_target_bindings :: "target_binding list \<Rightarrow> target_binding list" where
  "forecast_target_bindings bs =
     filter (\<lambda>b. tg_role b = ''FORECAST_TARGET'' \<and>
       upper_text (tg_normalization_status b) \<notin> {''PARTIAL'', ''UNRESOLVED''} \<and>
       (tg_end_date b \<noteq> None \<or> tg_end_time b \<noteq> None)) bs"

text \<open>\<open>min\<close> keeps the first of equal keys.\<close>

fun min_by :: "('a \<Rightarrow> 'k :: linorder) \<Rightarrow> 'a \<Rightarrow> 'a list \<Rightarrow> 'a" where
  "min_by key m [] = m"
| "min_by key m (x # xs) = min_by key (if key x < key m then x else m) xs"

definition select_target_end :: "time_zones \<Rightarrow> target_binding list \<Rightarrow> pydt option" where
  "select_target_end zones bs =
     (case List.map_filter (resolved_target_end zones) (forecast_target_bindings bs) of
        [] \<Rightarrow> None
      | t # ts \<Rightarrow> Some (min_by (\<lambda>t. (instant_of t, isoformat t)) t ts))"

section \<open>The review\<close>

record review_state =
  rv_ledger :: "lifecycle_event list"
  rv_events :: "claim_event list option"

record review_result =
  fr_claim_id :: string
  fr_transitioned :: bool
  fr_lifecycle_event :: "lifecycle_event option"
  fr_reason_code :: string

definition review_skipped :: "string \<Rightarrow> string \<Rightarrow> review_result" where
  "review_skipped cid reason =
     \<lparr>fr_claim_id = cid, fr_transitioned = False, fr_lifecycle_event = None, fr_reason_code = reason\<rparr>"

definition review_event :: "(string \<Rightarrow> string) \<Rightarrow> string \<Rightarrow> string \<Rightarrow> pydt \<Rightarrow> pydt \<Rightarrow> lifecycle_event" where
  "review_event H policy cid target recorded =
     lifecycle_init H
       \<lparr>le_event_id = [], le_target_type = Claim_Target, le_target_id = cid, le_from_status = Some ''ACTIVE'',
        le_to_status = ''OUTCOME_REVIEW'', le_effective_at = target, le_recorded_at = recorded,
        le_reason_code = ''FORECAST_TARGET_DATE_REACHED'', le_policy_version = policy, le_supersedes_event_id = None\<rparr>"

text \<open>\<open>==\<close> of two datetimes: a naive one never equals an aware one.\<close>

definition dt_equal :: "pydt \<Rightarrow> pydt \<Rightarrow> bool" where
  "dt_equal l r = (case (l, r) of (Naive a, Naive b) \<Rightarrow> a = b | (Aware a _, Aware b _) \<Rightarrow> a = b | _ \<Rightarrow> False)"

definition mirrored :: "lifecycle_event \<Rightarrow> claim_event \<Rightarrow> bool" where
  "mirrored e item \<longleftrightarrow>
     ce_event_type item = ''LIFECYCLE'' \<and> dict_get ''artifact_id'' (ce_payload item) = Some (JStr (le_event_id e)) \<and>
     (case ce_known_from item of None \<Rightarrow> False | Some t \<Rightarrow> dt_equal t (le_recorded_at e))"

definition append_claim_state ::
  "(string \<Rightarrow> string) \<Rightarrow> lifecycle_event \<Rightarrow> claim_event list option \<Rightarrow> claim_event list option result" where
  "append_claim_state H e events =
     (case events of
        None \<Rightarrow> Inr None
      | Some tbl \<Rightarrow>
          try_bind (list_for_claim H (le_target_id e) tbl) (\<lambda>prior.
            if list_ex (mirrored e) prior then Inr (Some tbl)
            else try_bind (ce_init H
                \<lparr>ce_claim_id = le_target_id e, ce_event_type = ''LIFECYCLE'',
                 ce_payload = [(''status'', JStr (le_to_status e)), (''artifact_id'', JStr (le_event_id e))],
                 ce_known_from = Some (le_recorded_at e), ce_business_valid_from = Some (le_effective_at e),
                 ce_business_valid_to = None, ce_known_to = None, ce_source_available_from = Some (le_recorded_at e),
                 ce_previous_event_hash = (if prior = [] then None else Some (ce_event_hash (last prior))),
                 ce_event_id = [], ce_event_hash = [], ce_legacy_history_incomplete = False\<rparr>) (\<lambda>state_event.
              try_bind (event_append H state_event tbl) (\<lambda>(_, tbl'). Inr (Some tbl')))))"

text \<open>The mirror and the result, after the ledger holds the event.\<close>

definition settle_review ::
  "(string \<Rightarrow> string) \<Rightarrow> string \<Rightarrow> lifecycle_event \<Rightarrow> string \<Rightarrow> review_state \<Rightarrow> review_result result \<times> review_state" where
  "settle_review H cid e reason st =
     (case append_claim_state H e (rv_events st) of
        Inl err \<Rightarrow> (Inl err, st)
      | Inr events \<Rightarrow>
          (Inr \<lparr>fr_claim_id = cid, fr_transitioned = True, fr_lifecycle_event = Some e, fr_reason_code = reason\<rparr>,
           st\<lparr>rv_events := events\<rparr>))"

text \<open>An event the ledger already holds is returned as it is; its identity does not say when it was recorded.\<close>

definition record_review ::
  "(string \<Rightarrow> string) \<Rightarrow> string \<Rightarrow> lifecycle_event \<Rightarrow> review_state \<Rightarrow> review_result result \<times> review_state" where
  "record_review H cid e st =
     (case lifecycle_get (le_event_id e) (rv_ledger st) of
        Some existing \<Rightarrow> settle_review H cid existing ''ALREADY_OUTCOME_REVIEW'' st
      | None \<Rightarrow>
          (case lifecycle_append e (rv_ledger st) of
             Inl err \<Rightarrow> (Inl err, st)
           | Inr ledger \<Rightarrow> settle_review H cid e (le_reason_code e) (st\<lparr>rv_ledger := ledger\<rparr>)))"

text \<open>\<open>claim\<close> is what the claim repository returns for the id, with its temporal bindings.\<close>

definition review_claim ::
  "(string \<Rightarrow> string) \<Rightarrow> time_zones \<Rightarrow> string \<Rightarrow> (financial_claim \<times> target_binding list) option \<Rightarrow> string
    \<Rightarrow> pydt \<Rightarrow> pydt option \<Rightarrow> review_state \<Rightarrow> review_result result \<times> review_state" where
  "review_claim H zones policy claim cid evaluation recorded st =
     (case claim of
        None \<Rightarrow> (Inr (review_skipped cid ''CLAIM_NOT_FOUND''), st)
      | Some (c, bindings) \<Rightarrow>
          if fc_claim_type c \<noteq> ''FORECAST'' then (Inr (review_skipped cid ''NOT_FORECAST''), st)
          else case select_target_end zones bindings of
            None \<Rightarrow> (Inr (review_skipped cid ''FORECAST_TARGET_UNRESOLVED''), st)
          | Some target \<Rightarrow>
              if \<not> instant_of target < instant_of evaluation then (Inr (review_skipped cid ''FORECAST_TARGET_NOT_REACHED''), st)
              else case select_as_of Claim_Target (fc_claim_id c) (instant_of evaluation) (instant_of evaluation) (rv_ledger st) of
                None \<Rightarrow> (Inr (review_skipped cid ''CLAIM_LIFECYCLE_NOT_FOUND''), st)
              | Some current \<Rightarrow>
                  if le_to_status current \<noteq> ''ACTIVE'' then (Inr (review_skipped cid ''CLAIM_NOT_ACTIVE''), st)
                  else let decision = lifecycle_evaluate (fc_claim_type c) (le_to_status current) True in
                    if lv_action decision \<noteq> ''OUTCOME_REVIEW'' then (Inr (review_skipped cid (lv_reason_code decision)), st)
                    else let e = review_event H policy (fc_claim_id c) target (case recorded of None \<Rightarrow> evaluation | Some r \<Rightarrow> r) in
                      record_review H (fc_claim_id c) e st)"

section \<open>A forecast is moved once\<close>

lemma settle_ledger [simp]: "rv_ledger (snd (settle_review H cid e reason st)) = rv_ledger st"
  by (simp add: settle_review_def split: sum.splits)

lemma review_event_id: "le_event_id (review_event H policy cid target r) = le_event_id (review_event H policy cid target r')"
  by (simp add: review_event_def lifecycle_init_def lifecycle_id_of_def lifecycle_identity_def)

lemma lifecycle_get_stored: "lifecycle_get eid ledger = None \<longleftrightarrow> row_get le_event_id eid ledger = None"
  by (simp add: lifecycle_get_def)

lemma record_review_ledger:
  "rv_ledger (snd (record_review H cid e st)) =
     (if row_get le_event_id (le_event_id e) (rv_ledger st) = None then rv_ledger st @ [e] else rv_ledger st)"
  by (simp add: record_review_def lifecycle_append_def row_add_def lifecycle_get_def split: option.splits)

text \<open>What a review does to the ledger: nothing, or the event of an expired target that was active.\<close>

lemma review_ledger_cases:
  obtains (kept) "rv_ledger (snd (review_claim H zones policy claim cid evaluation recorded st)) = rv_ledger st"
  | (moved) c bindings target e where "claim = Some (c, bindings)" "select_target_end zones bindings = Some target"
      "instant_of target < instant_of evaluation"
      "e = review_event H policy (fc_claim_id c) target (case recorded of None \<Rightarrow> evaluation | Some r \<Rightarrow> r)"
      "row_get le_event_id (le_event_id e) (rv_ledger st) = None"
      "rv_ledger (snd (review_claim H zones policy claim cid evaluation recorded st)) = rv_ledger st @ [e]"
proof (cases claim)
  case (Some cb)
  obtain c bindings where cb: "cb = (c, bindings)" by fastforce
  show ?thesis
  proof (cases "select_target_end zones bindings")
    case None
    with Some cb kept show ?thesis by (simp add: review_claim_def)
  next
    case target: (Some target)
    let ?e = "review_event H policy (fc_claim_id c) target (case recorded of None \<Rightarrow> evaluation | Some r \<Rightarrow> r)"
    let ?r = "review_claim H zones policy claim cid evaluation recorded st"
    have "rv_ledger (snd ?r) = rv_ledger st \<or>
        (instant_of target < instant_of evaluation \<and> ?r = record_review H (fc_claim_id c) ?e st)"
      unfolding review_claim_def Some cb prod.case option.case target Let_def by (auto split: option.splits)
    then show ?thesis
      using kept moved [OF Some [unfolded cb] target, of ?e] record_review_ledger [of H "fc_claim_id c" ?e st]
      by (auto split: if_splits)
  qed
qed (use kept in \<open>simp add: review_claim_def\<close>)

definition review_again ::
  "(string \<Rightarrow> string) \<Rightarrow> time_zones \<Rightarrow> string \<Rightarrow> (financial_claim \<times> target_binding list) option \<Rightarrow> string
    \<Rightarrow> (pydt \<times> pydt option) list \<Rightarrow> review_state \<Rightarrow> review_state" where
  "review_again H zones policy claim cid attempts st =
     foldl (\<lambda>st (evaluation, recorded). snd (review_claim H zones policy claim cid evaluation recorded st)) st attempts"

lemma review_again_kept:
  assumes "claim = Some (c, bindings)" and "select_target_end zones bindings = Some target"
    and "row_get le_event_id (le_event_id (review_event H policy (fc_claim_id c) target t)) (rv_ledger st) \<noteq> None"
  shows "rv_ledger (review_again H zones policy claim cid attempts st) = rv_ledger st"
proof (induction attempts rule: rev_induct)
  case (snoc a attempts)
  obtain evaluation recorded where a: "a = (evaluation, recorded)" by fastforce
  let ?st = "review_again H zones policy claim cid attempts st"
  have "rv_ledger (snd (review_claim H zones policy claim cid evaluation recorded ?st)) = rv_ledger ?st"
  proof (cases rule: review_ledger_cases [of H zones policy claim cid evaluation recorded ?st])
    case (moved c' bindings' target' e)
    with assms have "le_event_id e = le_event_id (review_event H policy (fc_claim_id c) target t)"
      by (simp add: review_event_id)
    with moved snoc assms(3) show ?thesis by simp
  qed
  with snoc a show ?case by (simp add: review_again_def)
qed (simp add: review_again_def)

text \<open>
  C29. A forecast moves to its outcome review exactly once. When a review adds to the ledger, it adds the one
  event that takes the claim from \<open>ACTIVE\<close> to \<open>OUTCOME_REVIEW\<close> at the target it reached, strictly before the time
  of evaluation; and however often the same claim is reviewed afterwards, with whatever clocks, the ledger is
  not touched again, since the identity of the event leaves out when it was recorded.
\<close>

theorem forecast_review_once:
  assumes "st' = snd (review_claim H zones policy (Some (c, bindings)) cid evaluation recorded st)"
    and "rv_ledger st' \<noteq> rv_ledger st"
  shows "(\<exists>target e. select_target_end zones bindings = Some target \<and> instant_of target < instant_of evaluation \<and>
      rv_ledger st' = rv_ledger st @ [e] \<and> le_target_id e = fc_claim_id c \<and> le_effective_at e = target \<and>
      le_from_status e = Some ''ACTIVE'' \<and> le_to_status e = ''OUTCOME_REVIEW'') \<and>
    rv_ledger (review_again H zones policy (Some (c, bindings)) cid attempts st') = rv_ledger st'"
proof (cases rule: review_ledger_cases [of H zones policy "Some (c, bindings)" cid evaluation recorded st])
  case kept
  with assms show ?thesis by simp
next
  case (moved c' bindings' target e)
  note e = moved(4) [unfolded review_event_def lifecycle_init_def]
  have same: "c' = c" "bindings' = bindings" using moved(1) by simp_all
  have ledger: "rv_ledger st' = rv_ledger st @ [e]" using moved(6) assms(1) by simp
  have "row_get le_event_id (le_event_id e) (rv_ledger st') \<noteq> None"
    using ledger moved(5) by (simp add: row_get_append)
  then have "rv_ledger (review_again H zones policy (Some (c, bindings)) cid attempts st') = rv_ledger st'"
    unfolding moved(4) same by (rule review_again_kept [OF refl moved(2) [unfolded same]])
  moreover have "le_target_id e = fc_claim_id c \<and> le_effective_at e = target \<and>
      le_from_status e = Some ''ACTIVE'' \<and> le_to_status e = ''OUTCOME_REVIEW''"
    using e same by (auto split: if_splits)
  ultimately show ?thesis using ledger moved(2,3) same by blast
qed

definition sample_forecast :: financial_claim where
  "sample_forecast = example_claim_record\<lparr>fc_claim_id := ''c'', fc_claim_type := ''FORECAST''\<rparr>"

definition sample_target :: target_binding where
  "sample_target =
     \<lparr>tg_role = ''FORECAST_TARGET'', tg_normalization_status = ''RESOLVED'', tg_end_date = None,
      tg_end_time = Some (Aware 5 0), tg_timezone = None\<rparr>"

definition sample_review :: "pydt \<Rightarrow> review_state" where
  "sample_review active_at =
     \<lparr>rv_ledger = [sample_lifecycle_event ''a'' ''ACTIVE'' active_at active_at], rv_events = None\<rparr>"

lemma sample_moves:
  "rv_ledger (snd (review_claim (\<lambda>s. ''h'') (\<lambda>_. None) ''v'' (Some (sample_forecast, [sample_target])) ''c'' (Aware 9 0)
     None (sample_review (Aware 1 0)))) \<noteq> rv_ledger (sample_review (Aware 1 0))"
  by code_simp

theorem forecast_review_once_witness:
  "rv_ledger (review_again (\<lambda>s. ''h'') (\<lambda>_. None) ''v'' (Some (sample_forecast, [sample_target])) ''c''
       [(Aware 10 0, None), (Aware 11 0, Some (Aware 12 0))]
     (snd (review_claim (\<lambda>s. ''h'') (\<lambda>_. None) ''v'' (Some (sample_forecast, [sample_target])) ''c'' (Aware 9 0) None
        (sample_review (Aware 1 0))))) =
   rv_ledger (snd (review_claim (\<lambda>s. ''h'') (\<lambda>_. None) ''v'' (Some (sample_forecast, [sample_target])) ''c'' (Aware 9 0) None
        (sample_review (Aware 1 0))))"
  using forecast_review_once [OF refl sample_moves, of "[(Aware 10 0, None), (Aware 11 0, Some (Aware 12 0))]"] by blast

section \<open>A forecast that was ingested after its target\<close>

text \<open>
  The review event takes effect at the target. When the claim became \<open>ACTIVE\<close> later than that, because the content
  was ingested after the date it forecasts, the active event stays the greatest one of every read: the ledger holds
  the review, and the status remains \<open>ACTIVE\<close>.
\<close>

lemma late_forecast_stays_active:
  assumes "select_as_of Claim_Target cid business knowledge ledger = Some active"
    and "keys_distinct le_event_id ledger" and "row_get le_event_id (le_event_id e) ledger = None"
    and "instant_of (le_effective_at e) < instant_of (le_effective_at active)"
  shows "select_as_of Claim_Target cid business knowledge (ledger @ [e]) = Some active"
proof -
  have d: "keys_distinct le_event_id (ledger @ [e])"
    using assms(2,3) keys_distinct_add [of le_event_id e ledger] by (simp add: row_add_def)
  show ?thesis
    using assms(1,4) unfolding select_as_of_candidates select_spec [OF assms(2)] select_spec [OF d]
    by (auto simp: lifecycle_key_def less_eq_prod_def)
qed

lemma late_forecast_example:
  "(let st = snd (review_claim (\<lambda>s. ''h'') (\<lambda>_. None) ''v'' (Some (sample_forecast, [sample_target])) ''c'' (Aware 9 0) None
        (sample_review (Aware 7 0)))
    in (length (rv_ledger st), map_option le_to_status (select_as_of Claim_Target ''c'' 100 100 (rv_ledger st)))) =
   (2, Some ''ACTIVE'')"
  by code_simp

end
