(* ===== verification/Publication_Run.thy ===== *)
theory Publication_Run
  imports Signal_Outbox Artifacts
begin

text \<open>
  Publication runs: the state machine and identity of \<open>domain/publication_run.py\<close>, and the tables of
  \<open>adapters/postgres/repositories/publication_repository.py\<close>. A stored run has the fields of the run it stores.
  The functions that take a session may have written before they raise, so they return their result together
  with the tables they leave behind; a transaction restores the tables when they raise.
\<close>

section \<open>Sessions\<close>

type_synonym ('a, 's) session = "'s \<Rightarrow> 'a result \<times> 's"

definition sreturn :: "'a \<Rightarrow> ('a, 's) session" where
  "sreturn x = (\<lambda>s. (Inr x, s))"

definition sraise :: "exn \<Rightarrow> ('a, 's) session" where
  "sraise e = (\<lambda>s. (Inl e, s))"

definition sbind :: "('a, 's) session \<Rightarrow> ('a \<Rightarrow> ('b, 's) session) \<Rightarrow> ('b, 's) session" where
  "sbind m f = (\<lambda>s. case m s of (Inl e, s') \<Rightarrow> (Inl e, s') | (Inr x, s') \<Rightarrow> f x s')"

text \<open>A computation that reads the tables and may raise.\<close>

definition sread :: "('s \<Rightarrow> 'a result) \<Rightarrow> ('a, 's) session" where
  "sread f = (\<lambda>s. (f s, s))"

fun smapM :: "('b \<Rightarrow> ('a, 's) session) \<Rightarrow> 'b list \<Rightarrow> (unit, 's) session" where
  "smapM f [] = sreturn ()"
| "smapM f (x # xs) = sbind (f x) (\<lambda>_. smapM f xs)"

definition transaction :: "('a, 's) session \<Rightarrow> ('a, 's) session" where
  "transaction m = (\<lambda>s. case m s of (Inl e, s') \<Rightarrow> (Inl e, s) | (Inr x, s') \<Rightarrow> (Inr x, s'))"

lemma sbind_Inr: "sbind m f s = (Inr y, s'') \<longleftrightarrow> (\<exists>x s'. m s = (Inr x, s') \<and> f x s' = (Inr y, s''))"
  by (auto simp: sbind_def split: prod.splits sum.splits)

lemma session_simps [simp]:
  "sreturn x s = (Inr y, s') \<longleftrightarrow> y = x \<and> s' = s"
  "sraise e s = (r, s') \<longleftrightarrow> r = Inl e \<and> s' = s"
  "sread f s = (r, s') \<longleftrightarrow> f s = r \<and> s' = s"
  by (auto simp: sreturn_def sraise_def sread_def)

lemma sbind_simps [simp]:
  "sbind (sreturn x) f = f x"
  "sbind (sraise e) f = sraise e"
  by (simp_all add: sbind_def sreturn_def sraise_def fun_eq_iff)

lemma transaction_Inr: "transaction m s = (Inr x, s') \<longleftrightarrow> m s = (Inr x, s')"
  by (auto simp: transaction_def split: prod.splits sum.splits)

lemma transaction_Inl: "transaction m s = (Inl e, s') \<longleftrightarrow> s' = s \<and> fst (m s) = Inl e"
  by (auto simp: transaction_def split: prod.splits sum.splits)

lemma smapM_invariant:
  assumes "smapM f xs s = (r, s')" and "I s"
    and "\<And>s x r t. I s \<Longrightarrow> x \<in> set xs \<Longrightarrow> f x s = (r, t) \<Longrightarrow> I t"
  shows "I s'"
  using assms
proof (induction xs arbitrary: s)
  case (Cons x xs)
  obtain r1 t where t: "f x s = (r1, t)" by fastforce
  have It: "I t" by (rule Cons.prems(3) [OF Cons.prems(2) _ t]) simp
  show ?case
  proof (cases r1)
    case (Inl e)
    with Cons.prems(1) t It show ?thesis by (simp add: sbind_def)
  next
    case (Inr u)
    with Cons.prems(1) t have rest: "smapM f xs t = (r, s')" by (simp add: sbind_def)
    show ?thesis
    proof (rule Cons.IH [OF rest It])
      show "I t'" if "I u" "y \<in> set xs" "f y u = (q, t')" for u y q t'
        by (rule Cons.prems(3) [OF that(1) _ that(3)]) (simp add: that(2))
    qed
  qed
qed (simp add: sreturn_def)

section \<open>The state machine\<close>

datatype pub_state =
    ASSEMBLING | PROJECTING | SEALING | READY | PUBLISHING | PUBLISHED | FAILED_RETRYABLE | FAILED_TERMINAL

fun pub_transitions :: "pub_state \<Rightarrow> pub_state set" where
  "pub_transitions ASSEMBLING = {PROJECTING, FAILED_RETRYABLE, FAILED_TERMINAL}"
| "pub_transitions PROJECTING = {SEALING, FAILED_RETRYABLE, FAILED_TERMINAL}"
| "pub_transitions SEALING = {READY, FAILED_RETRYABLE, FAILED_TERMINAL}"
| "pub_transitions READY = {PUBLISHING, FAILED_RETRYABLE}"
| "pub_transitions PUBLISHING = {PUBLISHED, FAILED_RETRYABLE}"
| "pub_transitions FAILED_RETRYABLE = {ASSEMBLING, PROJECTING, SEALING, PUBLISHING, FAILED_TERMINAL}"
| "pub_transitions PUBLISHED = {}"
| "pub_transitions FAILED_TERMINAL = {}"

record pub_run =
  pn_content_snapshot_id :: string
  pn_query_hash :: string
  pn_signal_policy_version :: string
  pn_state :: pub_state
  pn_manifest_hash :: "string option"
  pn_version :: int
  pn_publication_run_id :: string

type_synonym pub_identity = "string \<times> string \<times> string"

definition pn_identity :: "pub_run \<Rightarrow> pub_identity" where
  "pn_identity r = (pn_content_snapshot_id r, pn_query_hash r, pn_signal_policy_version r)"

definition pub_run_id :: "(string \<Rightarrow> string) \<Rightarrow> pub_identity \<Rightarrow> string" where
  "pub_run_id H k =
     (case k of (snapshot, query, policy) \<Rightarrow>
        ''pub_'' @ take 32 (H (canonical_json (JObj
          [(''content_snapshot_id'', JStr snapshot), (''query_hash'', JStr query), (''signal_policy_version'', JStr policy)]))))"

definition pub_run_init :: "(string \<Rightarrow> string) \<Rightarrow> pub_run \<Rightarrow> pub_run result" where
  "pub_run_init H r =
     try_bind (ensure (pn_content_snapshot_id r \<noteq> []) (ValueError ''content_snapshot_id is required'')) (\<lambda>_.
     try_bind (ensure (pn_query_hash r \<noteq> []) (ValueError ''query_hash is required'')) (\<lambda>_.
     try_bind (ensure (pn_signal_policy_version r \<noteq> []) (ValueError ''signal_policy_version is required'')) (\<lambda>_.
     let expected = pub_run_id H (pn_identity r) in
     try_bind (ensure (pn_publication_run_id r = [] \<or> pn_publication_run_id r = expected)
       (ValueError ''publication_run_id does not match identity'')) (\<lambda>_.
     try_bind (ensure (1 \<le> pn_version r) (ValueError ''version must be positive'')) (\<lambda>_.
       Inr (r\<lparr>pn_publication_run_id := expected\<rparr>))))))"

definition new_pub_run :: "pub_identity \<Rightarrow> pub_run" where
  "new_pub_run k =
     (case k of (snapshot, query, policy) \<Rightarrow>
        \<lparr>pn_content_snapshot_id = snapshot, pn_query_hash = query, pn_signal_policy_version = policy,
         pn_state = ASSEMBLING, pn_manifest_hash = None, pn_version = 1, pn_publication_run_id = []\<rparr>)"

definition state_name :: "pub_state \<Rightarrow> string" where
  "state_name st =
     (case st of ASSEMBLING \<Rightarrow> ''ASSEMBLING'' | PROJECTING \<Rightarrow> ''PROJECTING'' | SEALING \<Rightarrow> ''SEALING'' | READY \<Rightarrow> ''READY''
      | PUBLISHING \<Rightarrow> ''PUBLISHING'' | PUBLISHED \<Rightarrow> ''PUBLISHED'' | FAILED_RETRYABLE \<Rightarrow> ''FAILED_RETRYABLE''
      | FAILED_TERMINAL \<Rightarrow> ''FAILED_TERMINAL'')"

text \<open>\<open>a or b\<close> on two optional hashes, and \<open>replace\<close>, which runs the constructor again.\<close>

definition or_hash :: "string option \<Rightarrow> string option \<Rightarrow> string option" where
  "or_hash a b = (if truthy a then a else b)"

definition pub_transition ::
  "(string \<Rightarrow> string) \<Rightarrow> pub_state \<Rightarrow> string option \<Rightarrow> pub_run \<Rightarrow> pub_run result" where
  "pub_transition H target mh r =
     try_bind (ensure (target = pn_state r \<or> target \<in> pub_transitions (pn_state r))
       (ValueError (''invalid publication transition '' @ state_name (pn_state r) @ ''->'' @ state_name target))) (\<lambda>_.
     try_bind (ensure (\<not> (target = READY \<and> \<not> truthy (or_hash mh (pn_manifest_hash r))))
       (ValueError ''READY publication requires manifest_hash'')) (\<lambda>_.
     pub_run_init H (r\<lparr>pn_state := target, pn_manifest_hash := or_hash mh (pn_manifest_hash r),
       pn_version := pn_version r + (if target = pn_state r then 0 else 1)\<rparr>)))"

definition pub_manifest_hash :: "(string \<Rightarrow> string) \<Rightarrow> json \<Rightarrow> string" where
  "pub_manifest_hash H manifest = H (canonical_json manifest)"

section \<open>The tables\<close>

record manifest_row =
  pm_publication_run_id :: string
  pm_content_snapshot_id :: string
  pm_query_hash :: string
  pm_signal_policy_version :: string
  pm_manifest_hash :: string
  pm_manifest :: pydict

record sealed_row =
  ps_sealed_signal_id :: string
  ps_publication_run_id :: string
  ps_signal_id :: string
  ps_content_snapshot_id :: string
  ps_claim_id :: "json option"
  ps_schema_version :: string
  ps_payload :: pydict

record publication_tables =
  pt_runs :: "pub_run list"
  pt_manifests :: "manifest_row list"
  pt_sealed :: "sealed_row list"

definition run_by_identity :: "(string \<Rightarrow> string) \<Rightarrow> pub_identity \<Rightarrow> publication_tables \<Rightarrow> pub_run option result" where
  "run_by_identity H k db =
     (case row_get pn_identity k (pt_runs db) of
        None \<Rightarrow> Inr None
      | Some row \<Rightarrow> try_bind (pub_run_init H row) (\<lambda>r. Inr (Some r)))"

definition is_ready :: "string \<Rightarrow> publication_tables \<Rightarrow> bool" where
  "is_ready snapshot db =
     list_ex (\<lambda>r. pn_content_snapshot_id r = snapshot \<and> pn_state r \<in> {READY, PUBLISHING, PUBLISHED}) (pt_runs db)"

definition save_run :: "pub_run \<Rightarrow> publication_tables \<Rightarrow> publication_tables result" where
  "save_run run db =
     (case row_get pn_publication_run_id (pn_publication_run_id run) (pt_runs db) of
        None \<Rightarrow> Inr (db\<lparr>pt_runs := row_add run (pt_runs db)\<rparr>)
      | Some row \<Rightarrow>
          try_bind (ensure (pn_identity row = pn_identity run)
            (ValueError ''publication run id conflicts with immutable publication identity'')) (\<lambda>_.
          try_bind (ensure (\<not> (pn_manifest_hash row \<noteq> None \<and> pn_manifest_hash run \<noteq> None \<and>
              pn_manifest_hash row \<noteq> pn_manifest_hash run))
            (ValueError ''publication run already contains a different sealed manifest'')) (\<lambda>_.
          Inr (db\<lparr>pt_runs := row_put pn_publication_run_id
            (row\<lparr>pn_state := pn_state run, pn_manifest_hash := pn_manifest_hash run, pn_version := pn_version run\<rparr>)
            (pt_runs db)\<rparr>))))"

definition save_manifest :: "pub_run \<Rightarrow> pydict \<Rightarrow> string \<Rightarrow> publication_tables \<Rightarrow> publication_tables result" where
  "save_manifest run manifest sealed_hash db =
     (case row_get pm_publication_run_id (pn_publication_run_id run) (pt_manifests db) of
        None \<Rightarrow>
          Inr (db\<lparr>pt_manifests := row_add
            \<lparr>pm_publication_run_id = pn_publication_run_id run, pm_content_snapshot_id = pn_content_snapshot_id run,
             pm_query_hash = pn_query_hash run, pm_signal_policy_version = pn_signal_policy_version run,
             pm_manifest_hash = sealed_hash, pm_manifest = manifest\<rparr> (pt_manifests db)\<rparr>)
      | Some row \<Rightarrow>
          try_bind (ensure (pm_manifest_hash row = sealed_hash \<and> same_dict (pm_manifest row) manifest)
            (ValueError ''publication manifest already contains different sealed content'')) (\<lambda>_. Inr db))"

definition signal_key :: "pydict \<Rightarrow> string" where
  "signal_key payload = str_field ''signal_id'' [] payload"

definition sealed_id :: "(string \<Rightarrow> string) \<Rightarrow> string \<Rightarrow> string \<Rightarrow> string" where
  "sealed_id H run_id signal_id = ''sealed-'' @ take 32 (H (run_id @ '':'' @ signal_id))"

definition seal_signal ::
  "(string \<Rightarrow> string) \<Rightarrow> string \<Rightarrow> string \<Rightarrow> pydict \<Rightarrow> publication_tables \<Rightarrow> publication_tables result" where
  "seal_signal H run_id snapshot_id payload db =
     try_bind (ensure (signal_key payload \<noteq> []) (ValueError ''sealed signal requires signal_id'')) (\<lambda>_.
       let sid = sealed_id H run_id (signal_key payload) in
       case row_get ps_sealed_signal_id sid (pt_sealed db) of
         None \<Rightarrow>
           Inr (db\<lparr>pt_sealed := row_add
             \<lparr>ps_sealed_signal_id = sid, ps_publication_run_id = run_id, ps_signal_id = signal_key payload,
              ps_content_snapshot_id = snapshot_id, ps_claim_id = dict_get ''claim_id'' payload,
              ps_schema_version = str_field ''signal_schema_version'' (str_field ''schema_version'' [] payload) payload,
              ps_payload = payload\<rparr> (pt_sealed db)\<rparr>)
       | Some row \<Rightarrow>
           try_bind (ensure (same_dict (ps_payload row) payload)
             (ValueError ''sealed signal already contains different payload'')) (\<lambda>_. Inr db))"

text \<open>The form that takes the id of the run, which the production wiring of \<open>api/dependencies.py\<close> uses.\<close>

definition save_sealed_signals ::
  "(string \<Rightarrow> string) \<Rightarrow> string \<Rightarrow> pydict list \<Rightarrow> publication_tables \<Rightarrow> publication_tables result" where
  "save_sealed_signals H run_id signals db =
     (case row_get pn_publication_run_id run_id (pt_runs db) of
        None \<Rightarrow> Inl (ValueError ''publication run is required before sealing signals'')
      | Some run \<Rightarrow> foldM (\<lambda>db payload. seal_signal H run_id (pn_content_snapshot_id run) payload db) db signals)"

definition get_manifest :: "string \<Rightarrow> publication_tables \<Rightarrow> pydict option" where
  "get_manifest run_id db = map_option pm_manifest (row_get pm_publication_run_id run_id (pt_manifests db))"

definition list_sealed_signals :: "string \<Rightarrow> publication_tables \<Rightarrow> pydict list" where
  "list_sealed_signals run_id db =
     map ps_payload (sort_key ps_signal_id (filter (\<lambda>r. ps_publication_run_id r = run_id) (pt_sealed db)))"

definition read_sealed ::
  "(string \<Rightarrow> string) \<Rightarrow> pub_identity \<Rightarrow> publication_tables \<Rightarrow> (pub_run \<times> pydict option \<times> pydict list) option result" where
  "read_sealed H k db =
     try_bind (run_by_identity H k db) (\<lambda>r.
       Inr (map_option (\<lambda>run. (run, get_manifest (pn_publication_run_id run) db,
         list_sealed_signals (pn_publication_run_id run) db)) r))"

definition signal_keyed_set :: "pydict list \<Rightarrow> (string \<times> pydict) list result" where
  "signal_keyed_set rows =
     foldM (\<lambda>keyed payload.
       try_bind (ensure (signal_key payload \<noteq> []) (ValueError ''sealed signal requires signal_id'')) (\<lambda>_.
       try_bind (ensure (map_of keyed (signal_key payload) = None)
         (ValueError (''duplicate sealed signal_id: '' @ signal_key payload))) (\<lambda>_.
       Inr (keyed @ [(signal_key payload, payload)])))) [] rows"

text \<open>Equality of two dictionaries of payloads.\<close>

definition same_signals :: "(string \<times> pydict) list \<Rightarrow> (string \<times> pydict) list \<Rightarrow> bool" where
  "same_signals a b \<longleftrightarrow>
     set (map fst a) = set (map fst b) \<and>
     list_all (\<lambda>(k, p). case map_of b k of None \<Rightarrow> False | Some q \<Rightarrow> same_dict p q) a"

definition verify_sealed ::
  "pub_run \<Rightarrow> pydict \<Rightarrow> pydict list \<Rightarrow> string \<Rightarrow> publication_tables \<Rightarrow> unit result" where
  "verify_sealed run manifest signals sealed_hash db =
     (case get_manifest (pn_publication_run_id run) db of
        None \<Rightarrow> Inl (ValueError ''publication sealed manifest is unavailable for retry'')
      | Some stored \<Rightarrow>
          try_bind (if \<not> same_dict stored manifest then Inr False
            else try_bind (signal_keyed_set (list_sealed_signals (pn_publication_run_id run) db)) (\<lambda>kept.
                 try_bind (signal_keyed_set signals) (\<lambda>offered. Inr (same_signals kept offered)))) (\<lambda>same.
          try_bind (ensure same (ValueError ''publication sealed projection differs from retry payload'')) (\<lambda>_.
          ensure (pn_manifest_hash run = Some sealed_hash)
            (ValueError ''publication sealed hash differs from retry payload''))))"

section \<open>What the state machine lets through\<close>

text \<open>A run that failed before it was sealed can still be published: only \<open>READY\<close> asks for a manifest.\<close>

lemma published_without_manifest:
  "foldM (\<lambda>r target. pub_transition (\<lambda>_. ''h'') target None r)
     (new_pub_run (''s'', ''q'', ''p'')) [FAILED_RETRYABLE, PUBLISHING, PUBLISHED] =
   Inr \<lparr>pn_content_snapshot_id = ''s'', pn_query_hash = ''q'', pn_signal_policy_version = ''p'', pn_state = PUBLISHED,
        pn_manifest_hash = None, pn_version = 4, pn_publication_run_id = ''pub_h''\<rparr>"
  by code_simp

text \<open>Saving a run without a hash over a sealed one takes the hash away, and with it the protection of the seal.\<close>

lemma save_run_unseals:
  assumes "row_get pn_publication_run_id (pn_publication_run_id run) (pt_runs t) = Some run" and "pn_manifest_hash run = Some mh"
  shows "\<exists>t'. save_run (run\<lparr>pn_manifest_hash := None\<rparr>) t = Inr t' \<and>
    row_get pn_publication_run_id (pn_publication_run_id run) (pt_runs t') = Some (run\<lparr>pn_manifest_hash := None\<rparr>)"
  using assms by (auto simp: save_run_def pn_identity_def row_get_put)

end
