(* ===== verification/Claim_Occurrence.thy ===== *)
theory Claim_Occurrence
  imports Snapshot Redaction
begin

text \<open>
  Occurrences of a claim in a source (\<open>domain/claim_occurrence.py\<close>, \<open>OccurrenceTimes\<close> of
  \<open>domain/temporal_semantics.py\<close>) and their immutable store
  (\<open>adapters/postgres/repositories/claim_occurrence_repository.py\<close>). \<open>H\<close> is the hexadecimal SHA-256 digest of a
  text. The two confidences are carried as the tokens of their floats; that they lie between 0 and 1 is what
  their field types say. Times are compared as instants.
\<close>

section \<open>Occurrences\<close>

record occurrence_times =
  ot_asserted_at :: "pydt option"
  ot_source_published_at :: "pydt option"
  ot_source_available_at :: "pydt option"
  ot_source_availability_quality :: string
  ot_ingested_at :: pydt
  ot_extraction_completed_at :: pydt
  ot_snapshot_committed_at :: pydt
  ot_available_from :: pydt

definition times_init :: "occurrence_times \<Rightarrow> occurrence_times result" where
  "times_init t =
     try_bind (ensure (\<not> instant_of (ot_available_from t) <
         max (instant_of (ot_ingested_at t)) (max (instant_of (ot_extraction_completed_at t)) (instant_of (ot_snapshot_committed_at t))))
       (ValueError ''available_from must be no earlier than required dependencies'')) (\<lambda>_.
     try_bind (ensure (instant_of (ot_available_from t) = instant_of (ot_snapshot_committed_at t))
       (ValueError ''available_from must equal snapshot_committed_at'')) (\<lambda>_.
     Inr t))"

record claim_occurrence =
  co_occurrence_id :: string
  co_claim_id :: string
  co_source_artifact_id :: string
  co_transcript_artifact_id :: string
  co_semantic_segment_id :: string
  co_assertion_locator_hash :: string
  co_evidence_refs :: "string list"
  co_secondary_evidence_refs :: "string list"
  co_condition_evidence_refs :: "string list"
  co_invalidation_evidence_refs :: "string list"
  co_temporal_evidence_refs :: "string list"
  co_times :: occurrence_times
  co_source_support_status :: string
  co_source_confidence :: string
  co_extractor_confidence :: string
  co_raw_temporal_expressions :: "json list"
  co_provenance :: pydict
  co_primary_quote :: "string option"
  co_normalized_statement :: "string option"
  co_grounding_status :: string
  co_grounding_reason_codes :: "string list"
  co_contradiction_group_id :: "string option"
  co_claim_schema_version :: string
  co_legacy_grounding_incomplete :: bool

text \<open>The locator hashes the set of all evidence, whatever role each piece plays.\<close>

definition assertion_locator_hash_of ::
  "(string \<Rightarrow> string) \<Rightarrow> string \<Rightarrow> string \<Rightarrow> string \<Rightarrow> string list \<Rightarrow> string list \<Rightarrow> string" where
  "assertion_locator_hash_of H source transcript segment refs temporal =
     H (canonical_json (JObj
       [(''source_artifact_id'', JStr source), (''transcript_artifact_id'', JStr transcript),
        (''semantic_segment_id'', JStr segment), (''evidence_refs'', jstrs (sorted_set (refs @ temporal)))]))"

definition occurrence_digest_length :: nat where
  "occurrence_digest_length = 61"

definition occurrence_id_of :: "(string \<Rightarrow> string) \<Rightarrow> string \<Rightarrow> string \<Rightarrow> string \<Rightarrow> string" where
  "occurrence_id_of H cid source locator =
     ''co_'' @ take occurrence_digest_length (H (canonical_json (JObj
       [(''claim_id'', JStr cid), (''source_artifact_id'', JStr source), (''assertion_locator_hash'', JStr locator)])))"

definition asserted_refs :: "claim_occurrence \<Rightarrow> string list" where
  "asserted_refs oc =
     co_evidence_refs oc @ co_secondary_evidence_refs oc @ co_condition_evidence_refs oc @ co_invalidation_evidence_refs oc"

definition expected_locator :: "(string \<Rightarrow> string) \<Rightarrow> claim_occurrence \<Rightarrow> string" where
  "expected_locator H oc =
     assertion_locator_hash_of H (co_source_artifact_id oc) (co_transcript_artifact_id oc) (co_semantic_segment_id oc)
       (asserted_refs oc) (co_temporal_evidence_refs oc)"

definition occurrence_init :: "(string \<Rightarrow> string) \<Rightarrow> claim_occurrence \<Rightarrow> claim_occurrence result" where
  "occurrence_init H oc =
     try_bind (times_init (co_times oc)) (\<lambda>_.
     try_bind (ensure (co_grounding_status oc = ''GROUNDED'' \<longrightarrow>
         co_evidence_refs oc \<noteq> [] \<and> truthy (co_primary_quote oc) \<and> truthy (co_normalized_statement oc))
       (ValueError ''grounded occurrence requires primary evidence, quote, and normalized statement'')) (\<lambda>_.
     try_bind (ensure (\<not> (co_grounding_status oc = ''GROUNDED'' \<and> co_legacy_grounding_incomplete oc))
       (ValueError ''grounded occurrence cannot be marked legacy incomplete'')) (\<lambda>_.
       let locator = (if co_assertion_locator_hash oc = [] then expected_locator H oc else co_assertion_locator_hash oc)
       in Inr (oc\<lparr>co_assertion_locator_hash := locator,
                 co_occurrence_id := (if co_occurrence_id oc = [] then occurrence_id_of H (co_claim_id oc) (co_source_artifact_id oc) locator
                                      else co_occurrence_id oc)\<rparr>))))"

text \<open>The key of the knowledge unit that an occurrence projects to.\<close>

definition hex_digit :: "char \<Rightarrow> bool" where
  "hex_digit c \<longleftrightarrow> c \<in> set ''0123456789abcdefABCDEF''"

definition knowledge_uid_for_occurrence :: "(string \<Rightarrow> string) \<Rightarrow> string \<Rightarrow> string" where
  "knowledge_uid_for_occurrence H uid =
     (if take 3 uid = ''co_'' \<and> length (drop 3 uid) \<ge> occurrence_digest_length \<and> list_all hex_digit (drop 3 uid)
      then ''co_'' @ lower (take occurrence_digest_length (drop 3 uid))
      else if length uid \<le> 3 + occurrence_digest_length then uid
      else ''co_'' @ take occurrence_digest_length (H uid))"

section \<open>The store\<close>

record evidence_row =
  oe_occurrence_id :: string
  oe_evidence_id :: string
  oe_evidence_role :: string
  oe_ordinal :: nat

text \<open>A row of \<open>claim_occurrence\<close> is the occurrence without its evidence.\<close>

record occurrence_db =
  od_rows :: "claim_occurrence list"
  od_evidence :: "evidence_row list"

definition occurrence_row :: "claim_occurrence \<Rightarrow> claim_occurrence" where
  "occurrence_row oc =
     oc\<lparr>co_evidence_refs := [], co_secondary_evidence_refs := [], co_condition_evidence_refs := [],
       co_invalidation_evidence_refs := [], co_temporal_evidence_refs := []\<rparr>"

definition evidence_key :: "evidence_row \<Rightarrow> string \<times> string \<times> string" where
  "evidence_key e = (oe_occurrence_id e, oe_evidence_id e, oe_evidence_role e)"

definition insert_evidence_ignore :: "evidence_row list \<Rightarrow> evidence_row \<Rightarrow> evidence_row list" where
  "insert_evidence_ignore tbl e = (if row_get evidence_key (evidence_key e) tbl = None then row_add e tbl else tbl)"

definition utc_times :: "occurrence_times \<Rightarrow> occurrence_times" where
  "utc_times t =
     t\<lparr>ot_asserted_at := map_option as_utc (ot_asserted_at t),
       ot_source_published_at := map_option as_utc (ot_source_published_at t),
       ot_source_available_at := map_option as_utc (ot_source_available_at t),
       ot_ingested_at := as_utc (ot_ingested_at t), ot_extraction_completed_at := as_utc (ot_extraction_completed_at t),
       ot_snapshot_committed_at := as_utc (ot_snapshot_committed_at t), ot_available_from := as_utc (ot_available_from t)\<rparr>"

definition row_payload :: "claim_occurrence \<Rightarrow> claim_occurrence" where
  "row_payload row = (occurrence_row row)\<lparr>co_times := utc_times (co_times row)\<rparr>"

definition with_refs :: "claim_occurrence \<Rightarrow> (string \<Rightarrow> string list) \<Rightarrow> claim_occurrence" where
  "with_refs oc refs =
     oc\<lparr>co_evidence_refs := refs ''PRIMARY'', co_secondary_evidence_refs := refs ''SECONDARY'',
       co_condition_evidence_refs := refs ''CONDITION'', co_invalidation_evidence_refs := refs ''INVALIDATION'',
       co_temporal_evidence_refs := refs ''TEMPORAL''\<rparr>"

definition evidence_of :: "string \<Rightarrow> occurrence_db \<Rightarrow> evidence_row list" where
  "evidence_of oid db = filter (\<lambda>e. oe_occurrence_id e = oid) (od_evidence db)"

definition existing_payload :: "occurrence_db \<Rightarrow> claim_occurrence \<Rightarrow> claim_occurrence" where
  "existing_payload db row =
     with_refs (row_payload row) (\<lambda>role.
       sort (map oe_evidence_id (filter (\<lambda>e. oe_evidence_role e = role) (evidence_of (co_occurrence_id row) db))))"

definition get_occurrence :: "(string \<Rightarrow> string) \<Rightarrow> string \<Rightarrow> occurrence_db \<Rightarrow> claim_occurrence option result" where
  "get_occurrence H oid db =
     (case row_get co_occurrence_id oid (od_rows db) of
        None \<Rightarrow> Inr None
      | Some row \<Rightarrow>
          let items = sort_key (\<lambda>e. (oe_evidence_role e, oe_ordinal e, oe_evidence_id e)) (evidence_of oid db);
              refs = (\<lambda>role. map oe_evidence_id (filter (\<lambda>e. oe_evidence_role e = role) items));
              payload = row_payload row
          in try_bind (occurrence_init H (with_refs payload (refs(''PRIMARY'' :=
                 sorted_set (co_evidence_refs payload @ refs ''PRIMARY''))))) (\<lambda>oc. Inr (Some oc)))"

definition validate_occurrence_identity :: "(string \<Rightarrow> string) \<Rightarrow> claim_occurrence \<Rightarrow> unit result" where
  "validate_occurrence_identity H oc =
     (let locator = expected_locator H oc
      in try_bind (ensure (co_assertion_locator_hash oc = locator)
           (ValueError (''occurrence '' @ co_occurrence_id oc @ '' assertion locator does not match evidence coordinates''))) (\<lambda>_.
         ensure (co_occurrence_id oc = occurrence_id_of H (co_claim_id oc) (co_source_artifact_id oc) locator)
           (ValueError (''occurrence id '' @ co_occurrence_id oc @ '' does not match immutable identity''))))"

definition occurrence_identity :: "claim_occurrence \<Rightarrow> pydict" where
  "occurrence_identity oc =
     [(''claim_id'', JStr (co_claim_id oc)), (''source_artifact_id'', JStr (co_source_artifact_id oc)),
      (''transcript_artifact_id'', JStr (co_transcript_artifact_id oc)),
      (''semantic_segment_id'', JStr (co_semantic_segment_id oc)),
      (''assertion_locator_hash'', JStr (co_assertion_locator_hash oc)),
      (''evidence_coordinate_refs'', jstrs (sorted_set (asserted_refs oc @ co_temporal_evidence_refs oc)))]"

definition compare_occurrence_identity :: "claim_occurrence \<Rightarrow> claim_occurrence \<Rightarrow> string \<Rightarrow> unit result" where
  "compare_occurrence_identity existing candidate oid =
     ensure (canonical_json (JObj (occurrence_identity existing)) = canonical_json (JObj (occurrence_identity candidate)))
       (ValueError (''occurrence id '' @ oid @ '' already stores a different identity''))"

definition occurrence_roles :: "claim_occurrence \<Rightarrow> (string \<times> string list) list" where
  "occurrence_roles oc =
     [(''PRIMARY'', co_evidence_refs oc), (''SECONDARY'', co_secondary_evidence_refs oc),
      (''CONDITION'', co_condition_evidence_refs oc), (''INVALIDATION'', co_invalidation_evidence_refs oc),
      (''TEMPORAL'', co_temporal_evidence_refs oc)]"

definition role_rows :: "string \<Rightarrow> string \<times> string list \<Rightarrow> evidence_row list" where
  "role_rows oid rr =
     map (\<lambda>(ordinal, eid). \<lparr>oe_occurrence_id = oid, oe_evidence_id = eid, oe_evidence_role = fst rr, oe_ordinal = ordinal\<rparr>)
       (enumerate 0 (sorted_set (snd rr)))"

definition save_occurrence ::
  "(string \<Rightarrow> string) \<Rightarrow> claim_occurrence \<Rightarrow> occurrence_db \<Rightarrow> (claim_occurrence \<times> occurrence_db) result" where
  "save_occurrence H oc db =
     try_bind (validate_occurrence_identity H oc) (\<lambda>_.
       case row_get co_occurrence_id (co_occurrence_id oc) (od_rows db) of
         Some row \<Rightarrow>
           (let existing = existing_payload db row
            in try_bind (compare_occurrence_identity existing oc (co_occurrence_id oc)) (\<lambda>_.
               try_bind (occurrence_init H existing) (\<lambda>stored. Inr (stored, db))))
       | None \<Rightarrow>
           Inr (oc, db\<lparr>od_rows := row_add (occurrence_row oc) (od_rows db),
                      od_evidence := foldl insert_evidence_ignore (od_evidence db)
                        (concat (map (role_rows (co_occurrence_id oc)) (occurrence_roles oc)))\<rparr>))"

definition validate_immutable :: "(string \<Rightarrow> string) \<Rightarrow> claim_occurrence \<Rightarrow> occurrence_db \<Rightarrow> unit result" where
  "validate_immutable H oc db =
     try_bind (get_occurrence H (co_occurrence_id oc) db) (\<lambda>existing.
       case existing of
         None \<Rightarrow> Inr ()
       | Some e \<Rightarrow> try_bind (validate_occurrence_identity H oc) (\<lambda>_. compare_occurrence_identity e oc (co_occurrence_id oc)))"

definition list_occurrences :: "(string \<Rightarrow> string) \<Rightarrow> string list \<Rightarrow> occurrence_db \<Rightarrow> claim_occurrence list result" where
  "list_occurrences H ids db =
     try_bind (mapM (\<lambda>oid. get_occurrence H oid db) ids) (\<lambda>items. Inr (List.map_filter (\<lambda>x. x) items))"

definition occurrences_for_claim :: "(string \<Rightarrow> string) \<Rightarrow> string \<Rightarrow> occurrence_db \<Rightarrow> claim_occurrence list result" where
  "occurrences_for_claim H cid db =
     list_occurrences H (sort (map co_occurrence_id (filter (\<lambda>oc. co_claim_id oc = cid) (od_rows db)))) db"

definition occurrences_by_evidence :: "(string \<Rightarrow> string) \<Rightarrow> string \<Rightarrow> occurrence_db \<Rightarrow> claim_occurrence list result" where
  "occurrences_by_evidence H eid db =
     list_occurrences H (sorted_set (map oe_occurrence_id (filter (\<lambda>e. oe_evidence_id e = eid) (od_evidence db)))) db"

section \<open>Keys of knowledge units\<close>

definition lower_hex :: "char \<Rightarrow> bool" where
  "lower_hex c \<longleftrightarrow> c \<in> set ''0123456789abcdef''"

definition hex_digest :: "(string \<Rightarrow> string) \<Rightarrow> bool" where
  "hex_digest H \<longleftrightarrow> (\<forall>s. length (H s) = 64 \<and> list_all lower_hex (H s))"

lemma lower_hex_char: "lower_hex c \<Longrightarrow> hex_digit c \<and> lower_char c = c"
  by (auto simp: lower_hex_def hex_digit_def lower_char_def is_upper_def in_range_def)

lemma hex_lower_char: "hex_digit c \<Longrightarrow> hex_digit (lower_char c) \<and> lower_char (lower_char c) = lower_char c"
proof -
  have "list_all (\<lambda>c. hex_digit (lower_char c) \<and> lower_char (lower_char c) = lower_char c) ''0123456789abcdefABCDEF''"
    by code_simp
  then show "hex_digit c \<Longrightarrow> ?thesis" unfolding list_all_iff hex_digit_def by blast
qed

lemma lower_hex_text:
  assumes "list_all lower_hex s"
  shows "list_all hex_digit s" and "lower s = s"
  using assms lower_hex_char by (auto simp: list_all_iff lower_def intro: map_idI)

lemma hex_lower_text:
  assumes "list_all hex_digit s"
  shows "list_all hex_digit (lower s)" and "lower (lower s) = lower s"
  using assms hex_lower_char by (auto simp: list_all_iff lower_def)

lemma uid_of_digest:
  assumes "list_all hex_digit d" and "length d \<ge> 61"
  shows "knowledge_uid_for_occurrence H (''co_'' @ d) = ''co_'' @ lower (take 61 d)"
  using assms by (simp add: knowledge_uid_for_occurrence_def occurrence_digest_length_def)

lemma uid_of_lower_digest:
  assumes "list_all lower_hex d" and "length d \<ge> 61"
  shows "knowledge_uid_for_occurrence H (''co_'' @ d) = ''co_'' @ take 61 d"
proof -
  have "list_all lower_hex (take 61 d)"
    using assms(1) by (auto simp: list_all_iff dest: in_set_takeD)
  then show ?thesis using uid_of_digest [OF lower_hex_text(1) [OF assms(1)] assms(2)] lower_hex_text(2) by simp
qed

text \<open>
  C38. The key of the knowledge unit that an occurrence projects to fits its column of 64 characters whatever the
  id of the occurrence; it is a fixed point; an occurrence id of the current generation is its own key, and an id
  of the former generation, which kept the whole digest, has the key of the current one.
\<close>

theorem knowledge_uid_compact:
  assumes "hex_digest H"
  shows "length (knowledge_uid_for_occurrence H uid) \<le> 64 \<and>
    knowledge_uid_for_occurrence H (knowledge_uid_for_occurrence H uid) = knowledge_uid_for_occurrence H uid \<and>
    knowledge_uid_for_occurrence H (occurrence_id_of H cid source locator) = occurrence_id_of H cid source locator \<and>
    knowledge_uid_for_occurrence H (''co_'' @ H content) = ''co_'' @ take 61 (H content)"
proof -
  have digest: "list_all lower_hex (H s)" "length (H s) = 64" for s
    using assms by (simp_all add: hex_digest_def)
  have front: "list_all lower_hex (take 61 (H s))" for s
    using digest(1) [of s] by (auto simp: list_all_iff dest: in_set_takeD)
  have current: "knowledge_uid_for_occurrence H (''co_'' @ take 61 (H s)) = ''co_'' @ take 61 (H s)" for s
    using uid_of_lower_digest [OF front, of s H] digest(2) [of s] by simp
  have "knowledge_uid_for_occurrence H (''co_'' @ H content) = ''co_'' @ take 61 (H content)"
    using uid_of_lower_digest [OF digest(1), of content H] digest(2) [of content] by simp
  moreover have "length (knowledge_uid_for_occurrence H uid) \<le> 64 \<and>
    knowledge_uid_for_occurrence H (knowledge_uid_for_occurrence H uid) = knowledge_uid_for_occurrence H uid"
  proof (cases "take 3 uid = ''co_'' \<and> length (drop 3 uid) \<ge> 61 \<and> list_all hex_digit (drop 3 uid)")
    case True
    let ?d = "take 61 (drop 3 uid)"
    have hex: "list_all hex_digit ?d" using True by (auto simp: list_all_iff dest: in_set_takeD)
    have uid: "knowledge_uid_for_occurrence H uid = ''co_'' @ lower ?d"
      using True by (simp add: knowledge_uid_for_occurrence_def occurrence_digest_length_def)
    have "length (lower ?d) = 61" using True by (simp add: lower_def)
    with uid uid_of_digest [OF hex_lower_text(1) [OF hex], of H] hex_lower_text(2) [OF hex] show ?thesis by simp
  next
    case False
    show ?thesis
    proof (cases "length uid \<le> 64")
      case True
      have "knowledge_uid_for_occurrence H uid = uid"
        unfolding knowledge_uid_for_occurrence_def occurrence_digest_length_def using False True by auto
      with True show ?thesis by simp
    next
      case long: False
      have "knowledge_uid_for_occurrence H uid = ''co_'' @ take 61 (H uid)"
        unfolding knowledge_uid_for_occurrence_def occurrence_digest_length_def using False long by auto
      then show ?thesis using current [of uid] by simp
    qed
  qed
  moreover have "knowledge_uid_for_occurrence H (occurrence_id_of H cid source locator) = occurrence_id_of H cid source locator"
    unfolding occurrence_id_of_def occurrence_digest_length_def by (rule current)
  ultimately show ?thesis by blast
qed

theorem knowledge_uid_compact_witness:
  "length (knowledge_uid_for_occurrence (\<lambda>s. replicate 64 CHR ''7'') (replicate 100 CHR ''z'')) \<le> 64"
proof -
  have "hex_digest (\<lambda>s. replicate 64 CHR ''7'')" by (simp add: hex_digest_def list_all_iff lower_hex_def)
  from knowledge_uid_compact [OF this] show ?thesis by blast
qed

section \<open>The first write of an occurrence stays\<close>

definition occurrence_step :: "(string \<Rightarrow> string) \<Rightarrow> occurrence_db \<Rightarrow> claim_occurrence \<Rightarrow> occurrence_db" where
  "occurrence_step H db oc = (case save_occurrence H oc db of Inl _ \<Rightarrow> db | Inr (_, db') \<Rightarrow> db')"

text \<open>Evidence belongs to a stored occurrence.\<close>

definition evidence_owned :: "occurrence_db \<Rightarrow> bool" where
  "evidence_owned db \<longleftrightarrow> oe_occurrence_id ` set (od_evidence db) \<subseteq> co_occurrence_id ` set (od_rows db)"

definition stored_occurrence :: "claim_occurrence \<Rightarrow> claim_occurrence" where
  "stored_occurrence oc =
     oc\<lparr>co_times := utc_times (co_times oc),
       co_evidence_refs := sorted_set (co_evidence_refs oc), co_secondary_evidence_refs := sorted_set (co_secondary_evidence_refs oc),
       co_condition_evidence_refs := sorted_set (co_condition_evidence_refs oc),
       co_invalidation_evidence_refs := sorted_set (co_invalidation_evidence_refs oc),
       co_temporal_evidence_refs := sorted_set (co_temporal_evidence_refs oc)\<rparr>"

definition new_evidence :: "claim_occurrence \<Rightarrow> evidence_row list" where
  "new_evidence oc = concat (map (role_rows (co_occurrence_id oc)) (occurrence_roles oc))"

lemma insert_all_evidence:
  "distinct (map evidence_key xs) \<Longrightarrow> \<forall>x \<in> set xs. row_get evidence_key (evidence_key x) tbl = None \<Longrightarrow>
     foldl insert_evidence_ignore tbl xs = tbl @ xs"
proof (induction xs arbitrary: tbl)
  case (Cons x xs)
  have "\<forall>y \<in> set xs. row_get evidence_key (evidence_key y) (tbl @ [x]) = None"
    using Cons.prems by (auto simp: row_get_append image_iff)
  with Cons show ?case by (simp add: insert_evidence_ignore_def row_add_def)
qed simp

lemma map_over_enumerate: "map (\<lambda>(n, x). f x) (enumerate k xs) = map f xs"
  by (induction xs arbitrary: k) auto

lemma role_rows_maps:
  "map oe_evidence_id (role_rows oid rr) = sorted_set (snd rr)"
  "map evidence_key (role_rows oid rr) = map (\<lambda>eid. (oid, eid, fst rr)) (sorted_set (snd rr))"
  using map_over_enumerate [of "\<lambda>x. x" 0 "sorted_set (snd rr)"]
    map_over_enumerate [of "\<lambda>eid. (oid, eid, fst rr)" 0 "sorted_set (snd rr)"]
  by (simp_all add: role_rows_def case_prod_unfold comp_def evidence_key_def)

lemma role_rows_fields: "e \<in> set (role_rows oid rr) \<Longrightarrow> oe_occurrence_id e = oid \<and> oe_evidence_role e = fst rr"
  by (auto simp: role_rows_def)

lemma distinct_sorted_set: "distinct (sorted_set xs)"
  by (simp add: sorted_set_def)

lemma set_sorted_set: "set (sorted_set xs) = set xs"
  by (simp add: sorted_set_def)

lemma sorted_set_cong: "set xs = set ys \<Longrightarrow> sorted_set xs = sorted_set ys"
  by (simp add: sorted_set_eq)

lemma sort_map_distinct: "distinct xs \<Longrightarrow> set xs = set ys \<Longrightarrow> sort xs = sorted_set ys"
  unfolding sorted_set_def by (rule sorted_distinct_set_unique) simp_all

lemma new_evidence_distinct: "distinct (map evidence_key (new_evidence oc))"
  by (auto simp: new_evidence_def occurrence_roles_def role_rows_maps distinct_map inj_on_def distinct_sorted_set)

lemma new_evidence_owner: "e \<in> set (new_evidence oc) \<Longrightarrow> oe_occurrence_id e = co_occurrence_id oc"
  by (auto simp: new_evidence_def dest: role_rows_fields)

lemma new_evidence_role:
  "(role, refs) \<in> set (occurrence_roles oc) \<Longrightarrow>
     filter (\<lambda>e. oe_evidence_role e = role) (new_evidence oc) = role_rows (co_occurrence_id oc) (role, refs)"
proof -
  have f: "filter (\<lambda>e. oe_evidence_role e = role) (role_rows oid rr) = (if fst rr = role then role_rows oid rr else [])" for oid rr
    using role_rows_fields [of _ oid rr] by (auto simp: filter_empty_conv filter_id_conv)
  show "(role, refs) \<in> set (occurrence_roles oc) \<Longrightarrow> ?thesis"
    by (auto simp: new_evidence_def occurrence_roles_def f)
qed

lemma role_rows_sorted:
  "sort_key (\<lambda>e. (oe_evidence_role e, oe_ordinal e, oe_evidence_id e)) (role_rows oid rr) = role_rows oid rr"
proof (rule sort_key_id_if_sorted)
  show "sorted (map (\<lambda>e. (oe_evidence_role e, oe_ordinal e, oe_evidence_id e)) (role_rows oid rr))"
    unfolding role_rows_def map_map comp_def
    by (rule sorted_iff_nth_mono [THEN iffD2]) (auto simp: nth_enumerate_eq less_eq_prod_def le_less)
qed

lemma save_fresh_occurrence:
  assumes "save_occurrence H oc db = Inr (oc', db')" and "row_get co_occurrence_id (co_occurrence_id oc) (od_rows db) = None"
    and "evidence_owned db"
  shows "od_rows db' = od_rows db @ [occurrence_row oc]" and "od_evidence db' = od_evidence db @ new_evidence oc"
    and "oc' = oc" and "validate_occurrence_identity H oc = Inr ()"
proof -
  have "row_get evidence_key (evidence_key x) (od_evidence db) = None" if "x \<in> set (new_evidence oc)" for x
    using that assms(2,3) new_evidence_owner [of x oc]
    by (fastforce simp: row_get_None evidence_key_def evidence_owned_def subset_iff image_iff)
  with new_evidence_distinct have f: "foldl insert_evidence_ignore (od_evidence db) (new_evidence oc) = od_evidence db @ new_evidence oc"
    by (intro insert_all_evidence) blast+
  have saved: "oc' = oc \<and> db' = db\<lparr>od_rows := row_add (occurrence_row oc) (od_rows db),
      od_evidence := foldl insert_evidence_ignore (od_evidence db) (new_evidence oc)\<rparr> \<and> validate_occurrence_identity H oc = Inr ()"
    using assms(1,2) by (auto simp: save_occurrence_def try_bind_Inr_iff new_evidence_def)
  show "od_rows db' = od_rows db @ [occurrence_row oc]" "od_evidence db' = od_evidence db @ new_evidence oc"
    "oc' = oc" "validate_occurrence_identity H oc = Inr ()"
    using saved by (simp_all add: row_add_def f)
qed

lemma save_known_occurrence:
  assumes "save_occurrence H oc db = Inr (oc', db')" and "row_get co_occurrence_id (co_occurrence_id oc) (od_rows db) = Some row"
  shows "db' = db" and "occurrence_init H (existing_payload db row) = Inr oc'"
  using assms by (auto simp: save_occurrence_def try_bind_Inr_iff Let_def)

lemma occurrence_step_cases:
  obtains (kept) "occurrence_step H db oc = db"
  | (added) "row_get co_occurrence_id (co_occurrence_id oc) (od_rows db) = None" "save_occurrence H oc db = Inr (oc, occurrence_step H db oc)"
proof (cases "save_occurrence H oc db")
  case (Inl e)
  with kept show ?thesis by (simp add: occurrence_step_def)
next
  case (Inr r)
  obtain oc' db' where r: "r = (oc', db')" by fastforce
  show ?thesis
  proof (cases "row_get co_occurrence_id (co_occurrence_id oc) (od_rows db)")
    case None
    with Inr r have "oc' = oc" by (auto simp: save_occurrence_def try_bind_Inr_iff)
    with None Inr r added show ?thesis by (simp add: occurrence_step_def)
  next
    case (Some row)
    from save_known_occurrence(1) [OF Inr [unfolded r] this] Inr r kept show ?thesis by (simp add: occurrence_step_def)
  qed
qed

lemma occurrence_init_stored:
  assumes "occurrence_init H oc = Inr oc" and "validate_occurrence_identity H oc = Inr ()"
  shows "occurrence_init H (stored_occurrence oc) = Inr (stored_occurrence oc)"
proof -
  have refs: "sorted_set (asserted_refs (stored_occurrence oc) @ co_temporal_evidence_refs (stored_occurrence oc)) =
      sorted_set (asserted_refs oc @ co_temporal_evidence_refs oc)"
    by (rule sorted_set_cong) (simp add: asserted_refs_def stored_occurrence_def set_sorted_set)
  have "expected_locator H (stored_occurrence oc) = expected_locator H oc"
    unfolding expected_locator_def assertion_locator_hash_of_def refs by (simp add: stored_occurrence_def)
  moreover have "co_assertion_locator_hash oc = expected_locator H oc" "co_occurrence_id oc \<noteq> []"
    using assms(2) by (auto simp: validate_occurrence_identity_def Let_def try_bind_Inr_iff occurrence_id_of_def)
  moreover have "times_init (utc_times (co_times oc)) = Inr (utc_times (co_times oc))"
    using assms(1) by (auto simp: occurrence_init_def try_bind_Inr_iff times_init_def utc_times_def)
  moreover have "sorted_set (co_evidence_refs oc) = [] \<longleftrightarrow> co_evidence_refs oc = []"
    using set_sorted_set [of "co_evidence_refs oc"] by (metis set_empty)
  ultimately show ?thesis
    using assms(1) unfolding occurrence_init_def
    by (auto simp: try_bind_Inr_iff stored_occurrence_def)
qed

text \<open>An occurrence is whole: its row and exactly its evidence are stored.\<close>

definition holds_occurrence :: "claim_occurrence \<Rightarrow> occurrence_db \<Rightarrow> bool" where
  "holds_occurrence oc db \<longleftrightarrow>
     row_get co_occurrence_id (co_occurrence_id oc) (od_rows db) = Some (occurrence_row oc) \<and>
     evidence_of (co_occurrence_id oc) db = new_evidence oc"

lemma new_evidence_refs:
  assumes "(role, refs) \<in> set (occurrence_roles oc)"
  shows "map oe_evidence_id (filter (\<lambda>e. oe_evidence_role e = role) (new_evidence oc)) = sorted_set refs"
    and "map oe_evidence_id (filter (\<lambda>e. oe_evidence_role e = role)
      (sort_key (\<lambda>e. (oe_evidence_role e, oe_ordinal e, oe_evidence_id e)) (new_evidence oc))) = sorted_set refs"
  unfolding filter_sort new_evidence_role [OF assms] role_rows_sorted role_rows_maps by simp_all

lemma sorted_set_idem: "sorted_set (sorted_set xs) = sorted_set xs"
  by (rule sorted_set_cong) (rule set_sorted_set)

lemma sort_sorted_set: "sort (sorted_set xs) = sorted_set xs"
  by (simp add: sorted_set_def sorted_sort_id)

lemmas occurrence_role_refs =
  new_evidence_refs [of "''PRIMARY''" "co_evidence_refs oc" oc for oc]
  new_evidence_refs [of "''SECONDARY''" "co_secondary_evidence_refs oc" oc for oc]
  new_evidence_refs [of "''CONDITION''" "co_condition_evidence_refs oc" oc for oc]
  new_evidence_refs [of "''INVALIDATION''" "co_invalidation_evidence_refs oc" oc for oc]
  new_evidence_refs [of "''TEMPORAL''" "co_temporal_evidence_refs oc" oc for oc]

lemma read_held_occurrence:
  assumes "holds_occurrence oc db"
  shows "get_occurrence H (co_occurrence_id oc) db = try_bind (occurrence_init H (stored_occurrence oc)) (\<lambda>x. Inr (Some x))"
    and "existing_payload db (occurrence_row oc) = stored_occurrence oc"
proof -
  have ev: "evidence_of (co_occurrence_id oc) db = new_evidence oc"
    and row: "row_get co_occurrence_id (co_occurrence_id oc) (od_rows db) = Some (occurrence_row oc)"
    using assms by (simp_all add: holds_occurrence_def)
  show "get_occurrence H (co_occurrence_id oc) db = try_bind (occurrence_init H (stored_occurrence oc)) (\<lambda>x. Inr (Some x))"
    by (simp add: get_occurrence_def row ev Let_def with_refs_def occurrence_role_refs occurrence_roles_def
        row_payload_def occurrence_row_def stored_occurrence_def sorted_set_idem)
  show "existing_payload db (occurrence_row oc) = stored_occurrence oc"
    by (simp add: existing_payload_def occurrence_row_def ev with_refs_def occurrence_role_refs occurrence_roles_def
        row_payload_def stored_occurrence_def sort_sorted_set)
qed

lemma holds_occurrence_step:
  assumes "holds_occurrence oc db" and "evidence_owned db"
  shows "holds_occurrence oc (occurrence_step H db x) \<and> evidence_owned (occurrence_step H db x)"
proof (cases rule: occurrence_step_cases [of H db x])
  case kept
  with assms show ?thesis by simp
next
  case added
  note s = save_fresh_occurrence(1,2) [OF added(2,1) assms(2)]
  have "co_occurrence_id x \<noteq> co_occurrence_id oc" using added(1) assms(1) by (auto simp: holds_occurrence_def)
  then have "filter (\<lambda>e. oe_occurrence_id e = co_occurrence_id oc) (new_evidence x) = []"
    using new_evidence_owner [of _ x] by (auto simp: filter_empty_conv)
  with assms show ?thesis
    using new_evidence_owner [of _ x]
    by (auto simp: holds_occurrence_def evidence_of_def s row_get_append evidence_owned_def occurrence_row_def subset_iff image_iff)
qed

lemma holds_occurrence_run:
  assumes "holds_occurrence oc db" and "evidence_owned db"
  shows "holds_occurrence oc (foldl (occurrence_step H) db xs) \<and> evidence_owned (foldl (occurrence_step H) db xs)"
proof (induction xs rule: rev_induct)
  case (snoc x xs)
  then show ?case using holds_occurrence_step by auto
qed (simp add: assms)

lemma saved_occurrence_held:
  assumes "save_occurrence H oc db = Inr (oc', db')" and "row_get co_occurrence_id (co_occurrence_id oc) (od_rows db) = None"
    and "evidence_owned db"
  shows "holds_occurrence oc db' \<and> evidence_owned db'"
proof -
  note s = save_fresh_occurrence(1,2) [OF assms]
  have "filter (\<lambda>e. oe_occurrence_id e = co_occurrence_id oc) (od_evidence db) = []"
  proof -
    have "co_occurrence_id oc \<notin> co_occurrence_id ` set (od_rows db)" using assms(2) by (simp add: row_get_None)
    then have "co_occurrence_id oc \<notin> oe_occurrence_id ` set (od_evidence db)" using assms(3) unfolding evidence_owned_def by blast
    then have "oe_occurrence_id e \<noteq> co_occurrence_id oc" if "e \<in> set (od_evidence db)" for e
      using imageI [OF that, of oe_occurrence_id] by auto
    then show ?thesis by (simp add: filter_empty_conv)
  qed
  moreover have "filter (\<lambda>e. oe_occurrence_id e = co_occurrence_id oc) (new_evidence oc) = new_evidence oc"
    using new_evidence_owner [of _ oc] by (auto simp: filter_id_conv)
  moreover have "evidence_owned db'"
  proof -
    have "oe_occurrence_id ` set (new_evidence oc) \<subseteq> {co_occurrence_id oc}" using new_evidence_owner [of _ oc] by blast
    with assms(3) show ?thesis unfolding evidence_owned_def s by (auto simp: occurrence_row_def)
  qed
  ultimately show ?thesis using assms(2)
    by (simp add: holds_occurrence_def evidence_of_def s row_get_append occurrence_row_def)
qed

text \<open>
  C30. The first write of an occurrence is its last. Take the save of a constructed occurrence under an id that is not
  stored, in tables whose evidence rows belong to stored occurrences (the foreign key). Whatever is saved afterwards,
  the occurrence reads back as it was
  first saved, its times in UTC and its evidence of each role sorted and without repetitions; and a later save under
  the same id, which may assign the same evidence to other roles, writes nothing and returns the first one.
\<close>

theorem occurrence_first_write:
  assumes "save_occurrence H oc db = Inr (oc', db')" and "occurrence_init H oc = Inr oc"
    and "row_get co_occurrence_id (co_occurrence_id oc) (od_rows db) = None" and "evidence_owned db"
  shows "get_occurrence H (co_occurrence_id oc) (foldl (occurrence_step H) db' later) = Inr (Some (stored_occurrence oc)) \<and>
    (save_occurrence H again (foldl (occurrence_step H) db' later) = Inr (result, db'') \<and>
       co_occurrence_id again = co_occurrence_id oc \<longrightarrow>
     result = stored_occurrence oc \<and> db'' = foldl (occurrence_step H) db' later)"
proof -
  let ?db = "foldl (occurrence_step H) db' later"
  have init: "occurrence_init H (stored_occurrence oc) = Inr (stored_occurrence oc)"
    by (rule occurrence_init_stored [OF assms(2) save_fresh_occurrence(4) [OF assms(1,3,4)]])
  have held: "holds_occurrence oc ?db"
    using holds_occurrence_run saved_occurrence_held [OF assms(1,3,4)] by blast
  then have row: "row_get co_occurrence_id (co_occurrence_id oc) (od_rows ?db) = Some (occurrence_row oc)"
    by (simp add: holds_occurrence_def)
  have "result = stored_occurrence oc \<and> db'' = ?db"
    if "save_occurrence H again ?db = Inr (result, db'')" "co_occurrence_id again = co_occurrence_id oc"
    using save_known_occurrence [OF that(1)] row that(2) read_held_occurrence(2) [OF held] init by simp
  with read_held_occurrence(1) [OF held] init show ?thesis by auto
qed

definition sample_occurrence :: "string list \<Rightarrow> claim_occurrence" where
  "sample_occurrence refs =
     \<lparr>co_occurrence_id = ''co_h'', co_claim_id = ''c'', co_source_artifact_id = ''s'', co_transcript_artifact_id = ''t'',
      co_semantic_segment_id = ''g'', co_assertion_locator_hash = ''h'', co_evidence_refs = refs,
      co_secondary_evidence_refs = [], co_condition_evidence_refs = [], co_invalidation_evidence_refs = [],
      co_temporal_evidence_refs = [''e1''],
      co_times = \<lparr>ot_asserted_at = None, ot_source_published_at = Some (Naive 1), ot_source_available_at = None,
        ot_source_availability_quality = ''UNKNOWN'', ot_ingested_at = Aware 2 0, ot_extraction_completed_at = Aware 3 0,
        ot_snapshot_committed_at = Aware 4 0, ot_available_from = Aware 4 0\<rparr>,
      co_source_support_status = ''SOURCE_LOCATED'', co_source_confidence = ''0.5'', co_extractor_confidence = ''0.5'',
      co_raw_temporal_expressions = [], co_provenance = [], co_primary_quote = None, co_normalized_statement = None,
      co_grounding_status = ''LEGACY_UNGROUNDED'', co_grounding_reason_codes = [], co_contradiction_group_id = None,
      co_claim_schema_version = ''claim.legacy.v1'', co_legacy_grounding_incomplete = True\<rparr>"

theorem occurrence_first_write_witness:
  "get_occurrence (\<lambda>_. ''h'') ''co_h''
     (foldl (occurrence_step (\<lambda>_. ''h''))
        (occurrence_step (\<lambda>_. ''h'') \<lparr>od_rows = [], od_evidence = []\<rparr> (sample_occurrence [''e2'', ''e1'']))
        [sample_occurrence [''e1'']]) = Inr (Some (stored_occurrence (sample_occurrence [''e2'', ''e1''])))"
proof -
  let ?H = "\<lambda>_ :: string. ''h''" and ?o = "sample_occurrence [''e2'', ''e1'']" and ?db = "\<lparr>od_rows = [], od_evidence = []\<rparr>"
  have saved: "save_occurrence ?H ?o ?db = Inr (?o, occurrence_step ?H ?db ?o)" by code_simp
  have init: "occurrence_init ?H ?o = Inr ?o" by code_simp
  have cid: "co_occurrence_id ?o = ''co_h''" by (simp add: sample_occurrence_def)
  from occurrence_first_write [OF saved init, of "[sample_occurrence [''e1'']]"] show ?thesis
    unfolding cid by (simp add: evidence_owned_def)
qed

end
