(* ===== verification/Snapshot_Bundle.thy ===== *)
theory Snapshot_Bundle
  imports Archive_Safety Claim_Occurrence Lifecycle
begin

text \<open>
  \<open>SqlSnapshotStore.save_bundle\<close> (\<open>adapters/postgres/repositories/snapshot_repository.py\<close>): a snapshot and the
  ledgers that depend on it, its occurrences, lifecycle events, verification jobs and results, in one unit. The
  entries of a verification artifact, which the decoding of its stored payload yields, are an argument.
\<close>

record snapshot_bundle =
  bn_snapshot :: snapshot
  bn_occurrences :: "claim_occurrence list"
  bn_lifecycle_events :: "lifecycle_event list"
  bn_verification_results :: "result_write list"
  bn_verification_jobs :: "job_write list"

record content_db =
  cb_archive :: archive
  cb_occurrences :: occurrence_db
  cb_ledger :: "lifecycle_event list"
  cb_verification :: vdb

type_synonym decode_entries = "artifact_row \<Rightarrow> ventry list result"

definition bundle_closure ::
  "(pydt \<Rightarrow> string) \<Rightarrow> decode_entries \<Rightarrow> snapshot \<Rightarrow> artifact_row list \<Rightarrow> vdb \<Rightarrow> unit result" where
  "bundle_closure J entries s rows v =
     (let verification_id = str_or (map_of (cs_artifact_ids s) ''verification'') []
      in if verification_id = [] then Inr ()
         else case row_get ar_artifact_id verification_id rows of
                None \<Rightarrow> Inr ()
              | Some row \<Rightarrow> try_bind (entries row) (\<lambda>es. validate_verification_closure J es v (cs_created_at s)))"

definition save_bundle ::
  "surroundings \<Rightarrow> (pydt \<Rightarrow> string) \<Rightarrow> decode_entries \<Rightarrow> snapshot_bundle \<Rightarrow> content_db \<Rightarrow> content_db result" where
  "save_bundle env J entries b db =
     try_bind (validate_snapshot_candidate (en_hash env) (bn_snapshot b)) (\<lambda>payload.
     try_bind (save_in_session env (bn_snapshot b) payload (cb_archive db)) (\<lambda>archive.
     try_bind (foldM (\<lambda>d oc. try_bind (save_occurrence (en_hash env) oc d) (\<lambda>r. Inr (snd r)))
       (cb_occurrences db) (bn_occurrences b)) (\<lambda>occurrences.
     try_bind (foldM (\<lambda>l e. lifecycle_append e l) (cb_ledger db) (bn_lifecycle_events b)) (\<lambda>ledger.
     try_bind (save_verification_bundle J (bn_verification_results b) (bn_verification_jobs b) (cb_verification db)) (\<lambda>v.
     try_bind (bundle_closure J entries (bn_snapshot b) (so_artifacts (rc_store archive)) v) (\<lambda>_.
       Inr \<lparr>cb_archive = archive, cb_occurrences = occurrences, cb_ledger = ledger, cb_verification = v\<rparr>))))))"

section \<open>What a bundle leaves behind\<close>

definition archive_ok :: "surroundings \<Rightarrow> archive \<Rightarrow> bool" where
  "archive_ok env db \<longleftrightarrow> store_ok env (rc_store db) \<and> distinct_slots db"

definition bundle_ok :: "snapshot_bundle \<Rightarrow> bool" where
  "bundle_ok b \<longleftrightarrow> distinct (map fst (cs_artifact_ids (bn_snapshot b))) \<and> cs_schema_version (bn_snapshot b) = v2_schema"

definition stored_result :: "result_write \<Rightarrow> vdb \<Rightarrow> bool" where
  "stored_result w v \<longleftrightarrow> row_get vx_verification_id (rw_verification_id w) (vd_results v) \<noteq> None"

text \<open>Everything a bundle brings is in the tables.\<close>

definition bundle_held :: "surroundings \<Rightarrow> snapshot_bundle \<Rightarrow> content_db \<Rightarrow> bool" where
  "bundle_held env b db \<longleftrightarrow>
     (\<exists>row. sn_id row = cs_id (bn_snapshot b) \<and> published env row (cb_archive db)) \<and>
     (\<forall>oc \<in> set (bn_occurrences b). row_get co_occurrence_id (co_occurrence_id oc) (od_rows (cb_occurrences db)) \<noteq> None) \<and>
     (\<forall>e \<in> set (bn_lifecycle_events b). \<exists>row. row_get le_event_id (le_event_id e) (cb_ledger db) = Some row \<and> same_lifecycle_event row e) \<and>
     (\<forall>w \<in> set (bn_verification_results b). stored_result w (cb_verification db))"

lemma foldM_establishes:
  assumes "foldM f s xs = Inr s'" and "x \<in> set xs"
    and "\<And>s t. f s x = Inr t \<Longrightarrow> P t" and "\<And>s y t. f s y = Inr t \<Longrightarrow> P s \<Longrightarrow> P t"
  shows "P s'"
  using assms(1,2)
proof (induction xs arbitrary: s)
  case (Cons y ys)
  then obtain t where t: "f s y = Inr t" "foldM f t ys = Inr s'" by (auto simp: try_bind_Inr_iff)
  show ?case
  proof (cases "x \<in> set ys")
    case True
    with Cons.IH t(2) show ?thesis by blast
  next
    case False
    with Cons.prems(2) have "y = x" by simp
    with t(1) assms(3) have "P t" by blast
    then show ?thesis by (rule foldM_invariant [where I = P, OF t(2)]) (rule assms(4))
  qed
qed simp

lemma archive_ok_write:
  assumes "archive_ok env db" and "write_snapshot always env s payload db = Inr db'" and "distinct (map fst (cs_artifact_ids s))"
  shows "archive_ok env db'"
  using assms(2)
proof (cases rule: write_snapshot_cases)
  case fresh
  with assms(1,3) show ?thesis by (auto simp: archive_ok_def distinct_slots_def row_add_def new_snapshot_row_def)
next
  case replay
  with assms(1) show ?thesis by (simp add: archive_ok_def distinct_slots_def)
qed

lemma save_occurrence_rows:
  assumes "save_occurrence H oc db = Inr (oc', db')"
  shows "row_get co_occurrence_id (co_occurrence_id oc) (od_rows db') \<noteq> None"
    and "row_get co_occurrence_id k (od_rows db) \<noteq> None \<Longrightarrow> row_get co_occurrence_id k (od_rows db') \<noteq> None"
  using assms
  by (auto simp: save_occurrence_def try_bind_Inr_iff Let_def row_get_add occurrence_row_def split: option.splits)

lemma same_lifecycle_event_refl: "same_lifecycle_event e e"
  by (cases "le_effective_at e"; cases "le_recorded_at e") (simp_all add: same_lifecycle_event_def same_instant_def)

lemma lifecycle_append_holds:
  assumes "lifecycle_append e ledger = Inr ledger'"
  shows "\<exists>row. row_get le_event_id (le_event_id e) ledger' = Some row \<and> same_lifecycle_event row e"
    and "row_get le_event_id k ledger = Some r \<Longrightarrow> row_get le_event_id k ledger' = Some r"
  using assms same_lifecycle_event_refl [of e]
  by (auto simp: lifecycle_append_def row_get_add split: option.splits if_splits)

lemma persist_result_holds:
  assumes "persist_result x v = Inr (row, v')"
  shows "row_get vx_verification_id (vx_verification_id x) (vd_results v') \<noteq> None"
    and "row_get vx_verification_id k (vd_results v) \<noteq> None \<Longrightarrow> row_get vx_verification_id k (vd_results v') \<noteq> None"
  using assms
  by (auto simp: persist_result_def Let_def insert_result_ignore_def row_get_add split: option.splits if_splits)

lemma insert_job_results: "insert_job_ignore j v = Inr (new, v') \<Longrightarrow> vd_results v' = vd_results v"
  by (auto simp: insert_job_ignore_def split: if_splits)

lemma verification_bundle_holds:
  assumes "save_verification_bundle J results jobs v = Inr v'"
  shows "w \<in> set results \<Longrightarrow> stored_result w v'" and "stored_result w v \<Longrightarrow> stored_result w v'"
proof -
  let ?job = "\<lambda>db w. try_bind (job_of_write w) (\<lambda>j. try_bind (insert_job_ignore j db) (\<lambda>r. Inr (snd r)))"
  let ?res = "\<lambda>db w. try_bind (persist_result (row_of_write J w) db) (\<lambda>r. Inr (snd r))"
  obtain m where jobs: "foldM ?job v jobs = Inr m" and res: "foldM ?res m results = Inr v'"
    using assms by (auto simp: save_verification_bundle_def try_bind_Inr_iff)
  have wid: "vx_verification_id (row_of_write J w) = rw_verification_id w" for w by (simp add: row_of_write_def Let_def)
  have keep: "stored_result w t" if "?res s y = Inr t" "stored_result w s" for w s y t
    using that persist_result_holds(2) by (force simp: stored_result_def try_bind_Inr_iff)
  have put: "stored_result w t" if "?res s w = Inr t" for w s t
    using that persist_result_holds(1) wid by (fastforce simp: stored_result_def try_bind_Inr_iff)
  show "stored_result w v'" if "w \<in> set results"
    by (rule foldM_establishes [where P = "stored_result w" and f = ?res, OF res that put keep])
  show "stored_result w v'" if "stored_result w v"
  proof (rule foldM_invariant [where I = "stored_result w" and f = ?res, OF res _ keep])
    show "stored_result w m"
      by (rule foldM_invariant [where I = "stored_result w" and f = ?job, OF jobs that])
         (auto simp: stored_result_def try_bind_Inr_iff dest: insert_job_results)
  qed
qed

lemma save_bundle_parts:
  assumes "save_bundle env J entries b db = Inr db'"
  obtains payload where "write_snapshot True env (bn_snapshot b) payload (cb_archive db) = Inr (cb_archive db')"
    "foldM (\<lambda>d oc. try_bind (save_occurrence (en_hash env) oc d) (\<lambda>r. Inr (snd r))) (cb_occurrences db) (bn_occurrences b)
       = Inr (cb_occurrences db')"
    "foldM (\<lambda>l e. lifecycle_append e l) (cb_ledger db) (bn_lifecycle_events b) = Inr (cb_ledger db')"
    "save_verification_bundle J (bn_verification_results b) (bn_verification_jobs b) (cb_verification db) = Inr (cb_verification db')"
  using assms by (auto simp: save_bundle_def try_bind_Inr_iff save_in_session_def)

lemma save_bundle_holds:
  assumes "save_bundle env J entries b db = Inr db'" and "archive_ok env (cb_archive db)" and "bundle_ok b"
  shows "bundle_held env b db'" and "archive_ok env (cb_archive db')"
proof -
  obtain payload where w: "write_snapshot True env (bn_snapshot b) payload (cb_archive db) = Inr (cb_archive db')"
    and oc: "foldM (\<lambda>d oc. try_bind (save_occurrence (en_hash env) oc d) (\<lambda>r. Inr (snd r))) (cb_occurrences db) (bn_occurrences b)
       = Inr (cb_occurrences db')"
    and ev: "foldM (\<lambda>l e. lifecycle_append e l) (cb_ledger db) (bn_lifecycle_events b) = Inr (cb_ledger db')"
    and v: "save_verification_bundle J (bn_verification_results b) (bn_verification_jobs b) (cb_verification db) = Inr (cb_verification db')"
    using save_bundle_parts [OF assms(1)] .
  have "\<exists>row. sn_id row = cs_id (bn_snapshot b) \<and> published env row (cb_archive db')"
    using assms(2,3) by (intro write_published [OF w]) (simp_all add: archive_ok_def bundle_ok_def distinct_slots_def)
  moreover have "row_get co_occurrence_id (co_occurrence_id x) (od_rows (cb_occurrences db')) \<noteq> None" if "x \<in> set (bn_occurrences b)" for x
    by (rule foldM_establishes [where P = "\<lambda>d. row_get co_occurrence_id (co_occurrence_id x) (od_rows d) \<noteq> None", OF oc that])
       (use save_occurrence_rows in \<open>fastforce simp: try_bind_Inr_iff\<close>)+
  moreover have "\<exists>row. row_get le_event_id (le_event_id x) (cb_ledger db') = Some row \<and> same_lifecycle_event row x"
    if "x \<in> set (bn_lifecycle_events b)" for x
    by (rule foldM_establishes [where P = "\<lambda>l. \<exists>row. row_get le_event_id (le_event_id x) l = Some row \<and> same_lifecycle_event row x",
          OF ev that]) (use lifecycle_append_holds in blast)+
  ultimately show "bundle_held env b db'"
    using verification_bundle_holds(1) [OF v] by (simp add: bundle_held_def)
  show "archive_ok env (cb_archive db')"
    by (rule archive_ok_write [OF assms(2) w]) (use assms(3) in \<open>simp add: bundle_ok_def\<close>)
qed

lemma save_bundle_keeps:
  assumes "save_bundle env J entries b db = Inr db'" and "bundle_ok b" and "bundle_held env b0 db"
  shows "bundle_held env b0 db'"
proof -
  obtain payload where w: "write_snapshot True env (bn_snapshot b) payload (cb_archive db) = Inr (cb_archive db')"
    and oc: "foldM (\<lambda>d oc. try_bind (save_occurrence (en_hash env) oc d) (\<lambda>r. Inr (snd r))) (cb_occurrences db) (bn_occurrences b)
       = Inr (cb_occurrences db')"
    and ev: "foldM (\<lambda>l e. lifecycle_append e l) (cb_ledger db) (bn_lifecycle_events b) = Inr (cb_ledger db')"
    and v: "save_verification_bundle J (bn_verification_results b) (bn_verification_jobs b) (cb_verification db) = Inr (cb_verification db')"
    using save_bundle_parts [OF assms(1)] .
  have "\<exists>row. sn_id row = cs_id (bn_snapshot b0) \<and> published env row (cb_archive db')"
    using assms(2,3) published_write [OF _ w] by (auto simp: bundle_held_def bundle_ok_def)
  moreover have "row_get co_occurrence_id k (od_rows (cb_occurrences db')) \<noteq> None"
    if "row_get co_occurrence_id k (od_rows (cb_occurrences db)) \<noteq> None" for k
    by (rule foldM_invariant [where I = "\<lambda>d. row_get co_occurrence_id k (od_rows d) \<noteq> None", OF oc that])
       (use save_occurrence_rows(2) in \<open>fastforce simp: try_bind_Inr_iff\<close>)
  moreover have "row_get le_event_id k (cb_ledger db') = Some row" if "row_get le_event_id k (cb_ledger db) = Some row" for k row
    by (rule foldM_invariant [where I = "\<lambda>l. row_get le_event_id k l = Some row", OF ev that])
       (use lifecycle_append_holds(2) in blast)
  ultimately show ?thesis
    using assms(3) verification_bundle_holds(2) [OF v] unfolding bundle_held_def by blast
qed

end
