(* ===== verification/Publication_Unit.thy ===== *)
theory Publication_Unit
  imports Publication_Run Snapshot_Bundle
begin

text \<open>
  \<open>PublicationUnitOfWork.publish\<close> (\<open>application/publication_unit_of_work.py\<close>) over the SQL repository, with the
  signal and outbox writers that \<open>api/dependencies.py\<close> gives it. The writer of the snapshot is an argument, for which
  \<open>save_bundle\<close> is put in; so are the check of a signal against its contract and the failure hook, which may raise
  at each of the points where the code calls it.
\<close>

record 'c pub_db =
  pd_tables :: publication_tables
  pd_outbox :: outbox
  pd_content :: 'c

record 'b publish_args =
  pa_identity :: pub_identity
  pa_manifest :: pydict
  pa_signals :: "pydict list"
  pa_outbox :: "pydict list"
  pa_bundle :: 'b

record publish_env =
  pe_hash :: "string \<Rightarrow> string"
  pe_valid :: "pydict \<Rightarrow> unit result"
  pe_hook :: "string \<Rightarrow> unit result"
  pe_now :: instant

definition on_tables :: "(publication_tables \<Rightarrow> publication_tables result) \<Rightarrow> (unit, 'c pub_db) session" where
  "on_tables f = (\<lambda>s. case f (pd_tables s) of Inl e \<Rightarrow> (Inl e, s) | Inr t \<Rightarrow> (Inr (), s\<lparr>pd_tables := t\<rparr>))"

definition on_outbox :: "(outbox \<Rightarrow> outbox result) \<Rightarrow> (unit, 'c pub_db) session" where
  "on_outbox f = (\<lambda>s. case f (pd_outbox s) of Inl e \<Rightarrow> (Inl e, s) | Inr t \<Rightarrow> (Inr (), s\<lparr>pd_outbox := t\<rparr>))"

definition on_content :: "('c \<Rightarrow> 'c result) \<Rightarrow> (unit, 'c pub_db) session" where
  "on_content f = (\<lambda>s. case f (pd_content s) of Inl e \<Rightarrow> (Inl e, s) | Inr t \<Rightarrow> (Inr (), s\<lparr>pd_content := t\<rparr>))"

definition advance_run ::
  "publish_env \<Rightarrow> pub_state \<Rightarrow> string option \<Rightarrow> pub_run \<Rightarrow> (pub_run, 'c pub_db) session" where
  "advance_run env target mh run =
     sbind (sread (\<lambda>_. pub_transition (pe_hash env) target mh run)) (\<lambda>updated.
     sbind (sread (\<lambda>_. pe_hook env (lower (state_name target)))) (\<lambda>_.
     sbind (on_tables (save_run updated)) (\<lambda>_. sreturn updated)))"

definition seal_signal_rows :: "publish_env \<Rightarrow> string \<Rightarrow> pydict list \<Rightarrow> (unit, 'c pub_db) session" where
  "seal_signal_rows env run_id signals =
     sbind (sread (\<lambda>_. try_bind (mapM (pe_valid env) signals) (\<lambda>_. Inr ()))) (\<lambda>_.
       on_tables (save_sealed_signals (pe_hash env) run_id signals))"

definition enqueue_rows :: "publish_env \<Rightarrow> pydict list \<Rightarrow> (unit, 'c pub_db) session" where
  "enqueue_rows env rows =
     smapM (\<lambda>p. on_outbox (\<lambda>t. try_bind (ob_enqueue (pe_hash env) p (pe_now env) t) (\<lambda>r. Inr (snd r)))) rows"

definition sealed_payload :: "pydict \<Rightarrow> pydict list \<Rightarrow> pydict list \<Rightarrow> json" where
  "sealed_payload manifest signals outbox =
     JObj [(''manifest'', JObj manifest), (''signals'', JArr (map JObj signals)), (''outbox'', JArr (map JObj outbox))]"

definition args_hash :: "publish_env \<Rightarrow> 'b publish_args \<Rightarrow> string" where
  "args_hash env a = pub_manifest_hash (pe_hash env) (sealed_payload (pa_manifest a) (pa_signals a) (pa_outbox a))"

text \<open>The first publication of an identity.\<close>

definition publish_new ::
  "publish_env \<Rightarrow> ('b \<Rightarrow> 'c \<Rightarrow> 'c result) \<Rightarrow> 'b publish_args \<Rightarrow> pub_run \<Rightarrow> (pub_run, 'c pub_db) session" where
  "publish_new env writer a run =
     sbind (advance_run env PROJECTING None run) (\<lambda>run.
     sbind (on_content (writer (pa_bundle a))) (\<lambda>_.
     sbind (on_tables (save_manifest run (pa_manifest a) (args_hash env a))) (\<lambda>_.
     sbind (sread (\<lambda>_. pe_hook env ''snapshot'')) (\<lambda>_.
     sbind (advance_run env SEALING None run) (\<lambda>run.
     sbind (seal_signal_rows env (pn_publication_run_id run) (pa_signals a)) (\<lambda>_.
     sbind (sread (\<lambda>_. pe_hook env ''signals'')) (\<lambda>_.
     sbind (enqueue_rows env (pa_outbox a)) (\<lambda>_.
     sbind (sread (\<lambda>_. pe_hook env ''outbox'')) (\<lambda>_.
       advance_run env READY (Some (args_hash env a)) run)))))))))"

definition publish_in_session ::
  "publish_env \<Rightarrow> ('b \<Rightarrow> 'c \<Rightarrow> 'c result) \<Rightarrow> 'b publish_args \<Rightarrow> pub_run \<Rightarrow> (pub_run, 'c pub_db) session" where
  "publish_in_session env writer a run =
     sbind (sread (\<lambda>s. run_by_identity (pe_hash env) (pa_identity a) (pd_tables s))) (\<lambda>existing.
       case existing of
         Some ex \<Rightarrow>
           (if pn_manifest_hash ex \<noteq> Some (args_hash env a)
            then sraise (PublicationConflictError
              ''publication identity already contains a different sealed snapshot/signals payload'')
            else sbind (sread (\<lambda>s. verify_sealed ex (pa_manifest a) (pa_signals a) (args_hash env a) (pd_tables s)))
              (\<lambda>_. sreturn ex))
       | None \<Rightarrow> publish_new env writer a run)"

text \<open>After a lost race the winner's rows, which another session reads, decide.\<close>

definition resolve_race :: "publish_env \<Rightarrow> 'b publish_args \<Rightarrow> string \<Rightarrow> publication_tables \<Rightarrow> pub_run result" where
  "resolve_race env a reason committed =
     try_bind (run_by_identity (pe_hash env) (pa_identity a) committed) (\<lambda>existing.
       case existing of
         None \<Rightarrow> Inl (IntegrityError reason)
       | Some ex \<Rightarrow>
           if pn_manifest_hash ex = Some (args_hash env a) then Inr ex
           else Inl (PublicationConflictError ''publication identity was concurrently sealed with different content''))"

text \<open>
  \<open>committed\<close> is what the database holds when the transaction has ended without effect: the state before it, and
  whatever others have committed meanwhile.
\<close>

definition publish ::
  "publish_env \<Rightarrow> ('b \<Rightarrow> 'c \<Rightarrow> 'c result) \<Rightarrow> 'b publish_args \<Rightarrow> 'c pub_db \<Rightarrow> 'c pub_db \<Rightarrow> pub_run result \<times> 'c pub_db" where
  "publish env writer a committed db =
     (case pub_run_init (pe_hash env) (new_pub_run (pa_identity a)) of
        Inl e \<Rightarrow> (Inl e, committed)
      | Inr run \<Rightarrow>
          (case transaction (publish_in_session env writer a run) db of
             (Inr r, db') \<Rightarrow> (Inr r, db')
           | (Inl (IntegrityError reason), _) \<Rightarrow> (resolve_race env a reason (pd_tables committed), committed)
           | (Inl e, _) \<Rightarrow> (Inl e, committed)))"

section \<open>What a publication is\<close>

definition sealed_as :: "(string \<Rightarrow> string) \<Rightarrow> string \<Rightarrow> pydict \<Rightarrow> publication_tables \<Rightarrow> bool" where
  "sealed_as H run_id p t \<longleftrightarrow>
     (\<exists>row. row_get ps_sealed_signal_id (sealed_id H run_id (signal_key p)) (pt_sealed t) = Some row \<and> same_dict (ps_payload row) p)"

definition queued :: "pydict \<Rightarrow> outbox \<Rightarrow> bool" where
  "queued p t \<longleftrightarrow> (\<exists>row. ob_by_signal (signal_key p) t = Some row \<and> same_dict (ob_payload row) p)"

text \<open>A publication is whole: its manifest, its signals, their outbox rows and its content are all there.\<close>

definition whole_publication ::
  "publish_env \<Rightarrow> ('b \<Rightarrow> 'c \<Rightarrow> bool) \<Rightarrow> ('b \<Rightarrow> string) \<Rightarrow> pub_run \<Rightarrow> 'c pub_db \<Rightarrow> bool" where
  "whole_publication env held name run db \<longleftrightarrow>
     pub_run_init (pe_hash env) run = Inr run \<and> pn_state run = READY \<and>
     (\<exists>a. pn_identity run = pa_identity a \<and> pn_manifest_hash run = Some (args_hash env a) \<and>
        get_manifest (pn_publication_run_id run) (pd_tables db) = Some (pa_manifest a) \<and>
        (\<forall>p \<in> set (pa_signals a). sealed_as (pe_hash env) (pn_publication_run_id run) p (pd_tables db)) \<and>
        (\<forall>p \<in> set (pa_outbox a). queued p (pd_outbox db)) \<and>
        name (pa_bundle a) = pn_content_snapshot_id run \<and> held (pa_bundle a) (pd_content db))"

definition run_ids :: "publication_tables \<Rightarrow> string set" where
  "run_ids t = pn_publication_run_id ` set (pt_runs t)"

text \<open>Nothing is sealed for a run that does not exist.\<close>

definition tables_closed :: "publication_tables \<Rightarrow> bool" where
  "tables_closed t \<longleftrightarrow>
     pm_publication_run_id ` set (pt_manifests t) \<subseteq> run_ids t \<and> ps_publication_run_id ` set (pt_sealed t) \<subseteq> run_ids t"

section \<open>Sealing and queueing\<close>

definition new_sealed :: "(string \<Rightarrow> string) \<Rightarrow> string \<Rightarrow> string \<Rightarrow> pydict \<Rightarrow> sealed_row" where
  "new_sealed H run_id snapshot_id p =
     \<lparr>ps_sealed_signal_id = sealed_id H run_id (signal_key p), ps_publication_run_id = run_id, ps_signal_id = signal_key p,
      ps_content_snapshot_id = snapshot_id, ps_claim_id = dict_get ''claim_id'' p,
      ps_schema_version = str_field ''signal_schema_version'' (str_field ''schema_version'' [] p) p, ps_payload = p\<rparr>"

lemma same_dict_refl [simp]: "same_dict d d"
  by (simp add: same_dict_def)

lemma seal_signal_cases:
  assumes "seal_signal H run_id snap p t = Inr t'"
  obtains (known) row where "t' = t" "row_get ps_sealed_signal_id (sealed_id H run_id (signal_key p)) (pt_sealed t) = Some row"
      "same_dict (ps_payload row) p"
  | (fresh) "t' = t\<lparr>pt_sealed := pt_sealed t @ [new_sealed H run_id snap p]\<rparr>"
      "row_get ps_sealed_signal_id (sealed_id H run_id (signal_key p)) (pt_sealed t) = None"
  using assms
  by (auto simp: seal_signal_def try_bind_Inr_iff Let_def new_sealed_def row_add_def split: option.splits)

lemma seal_signal_as: "seal_signal H run_id snap p t = Inr t' \<Longrightarrow> sealed_as H run_id p t'"
  by (erule seal_signal_cases) (auto simp: sealed_as_def row_get_append new_sealed_def)

lemma sealed_as_append: "sealed_as H r p t \<Longrightarrow> sealed_as H r p (t\<lparr>pt_sealed := pt_sealed t @ rows\<rparr>)"
  by (auto simp: sealed_as_def row_get_append)

lemma seal_signal_keeps: "seal_signal H run_id snap p t = Inr t' \<Longrightarrow> sealed_as H r q t \<Longrightarrow> sealed_as H r q t'"
  by (erule seal_signal_cases) (auto intro: sealed_as_append)

text \<open>Sealing only appends rows of the run.\<close>

definition sealed_more :: "string \<Rightarrow> publication_tables \<Rightarrow> publication_tables \<Rightarrow> bool" where
  "sealed_more run_id t t' \<longleftrightarrow>
     (\<exists>rows. t' = t\<lparr>pt_sealed := pt_sealed t @ rows\<rparr> \<and> ps_publication_run_id ` set rows \<subseteq> {run_id})"

lemma seal_signals_cases:
  assumes "foldM (\<lambda>t p. seal_signal H run_id snap p t) t signals = Inr t'"
  shows "sealed_more run_id t t'" and "p \<in> set signals \<Longrightarrow> sealed_as H run_id p t'"
proof -
  show "sealed_more run_id t t'"
  proof (rule foldM_invariant [where I = "sealed_more run_id t", OF assms])
    show "sealed_more run_id t t" unfolding sealed_more_def by (rule exI [of _ "[]"]) simp
    show "sealed_more run_id t v" if "sealed_more run_id t u" "seal_signal H run_id snap p u = Inr v" for u p v
      using that(2)
    proof (cases rule: seal_signal_cases)
      case known
      with that(1) show ?thesis by simp
    next
      case fresh
      from that(1) obtain rows where "u = t\<lparr>pt_sealed := pt_sealed t @ rows\<rparr>" "ps_publication_run_id ` set rows \<subseteq> {run_id}"
        unfolding sealed_more_def by blast
      with fresh(1) show ?thesis unfolding sealed_more_def
        by (intro exI [of _ "rows @ [new_sealed H run_id snap p]"]) (auto simp: new_sealed_def)
    qed
  qed
  show "sealed_as H run_id p t'" if "p \<in> set signals"
    by (rule foldM_establishes [where P = "sealed_as H run_id p", OF assms that]) (blast intro: seal_signal_as seal_signal_keeps)+
qed

lemma ob_step_keeps_payload:
  assumes "ob_invar t" and "queued p t"
  shows "queued p (ob_step H t op)"
proof -
  from assms(2) obtain row where row: "ob_by_signal (signal_key p) t = Some row" "same_dict (ob_payload row) p"
    by (auto simp: queued_def)
  then have key: "ob_signal_id row = signal_key p" "row \<in> set t"
    by (auto simp: ob_by_signal_def dest: row_get_Some_key)
  then have "row_get ob_id (ob_id row) t = Some row"
    using assms(1) by (auto simp: ob_invar_def row_get_member)
  then obtain r' where r': "row_get ob_id (ob_id row) (ob_step H t op) = Some r'" "ob_signal_id r' = ob_signal_id row"
      "ob_payload r' = ob_payload row"
    by (rule ob_step_row [OF assms(1)])
      (auto elim!: ob_effect.cases simp: ob_seize_def ob_published_row_def ob_retried_row_def Let_def split: if_splits)
  have "ob_invar (ob_step H t op)" by (rule ob_invar_step [OF assms(1)])
  then have "ob_by_signal (ob_signal_id r') (ob_step H t op) = Some r'"
    using r'(1) by (auto simp: ob_invar_def ob_by_signal_def row_get_member dest: row_get_Some_key)
  with r' row key show ?thesis by (auto simp: queued_def)
qed

lemma ob_enqueue_queued:
  assumes "ob_enqueue H p now t = Inr (row, t')" and "ob_invar t"
  shows "queued p t'" and "ob_invar t'" and "queued q t \<Longrightarrow> queued q t'"
proof -
  have t': "t' = ob_step H t (ObEnqueue p now)" using assms(1) by (simp add: ob_step_def)
  show "ob_invar t'" unfolding t' by (rule ob_invar_step [OF assms(2)])
  show "queued q t'" if "queued q t" unfolding t' by (rule ob_step_keeps_payload [OF assms(2) that])
  show "queued p t'"
    using assms(1)
    by (auto simp: queued_def ob_enqueue_def signal_key_def Let_def try_bind_Inr_iff split: if_splits option.splits)
qed

section \<open>A first publication\<close>

lemma on_tables_Inr: "on_tables f s = (Inr u, s') \<longleftrightarrow> (\<exists>t. f (pd_tables s) = Inr t \<and> s' = s\<lparr>pd_tables := t\<rparr>)"
  by (auto simp: on_tables_def split: sum.splits)

lemma on_outbox_Inr: "on_outbox f s = (Inr u, s') \<longleftrightarrow> (\<exists>t. f (pd_outbox s) = Inr t \<and> s' = s\<lparr>pd_outbox := t\<rparr>)"
  by (auto simp: on_outbox_def split: sum.splits)

lemma on_content_Inr: "on_content f s = (Inr u, s') \<longleftrightarrow> (\<exists>t. f (pd_content s) = Inr t \<and> s' = s\<lparr>pd_content := t\<rparr>)"
  by (auto simp: on_content_def split: sum.splits)

lemma enqueue_rows_Inr:
  assumes "enqueue_rows env rows s = (Inr u, s')" and "ob_invar (pd_outbox s)"
  shows "\<exists>t. s' = s\<lparr>pd_outbox := t\<rparr> \<and> ob_invar t \<and> (\<forall>p \<in> set rows. queued p t) \<and> (\<forall>p. queued p (pd_outbox s) \<longrightarrow> queued p t)"
  using assms unfolding enqueue_rows_def
proof (induction rows arbitrary: s)
  case Nil
  then show ?case by (auto intro!: exI [of _ "pd_outbox s"])
next
  case (Cons p rows)
  let ?f = "\<lambda>p. on_outbox (\<lambda>t. try_bind (ob_enqueue (pe_hash env) p (pe_now env) t) (\<lambda>r. Inr (snd r)))"
  obtain t row where t: "ob_enqueue (pe_hash env) p (pe_now env) (pd_outbox s) = Inr (row, t)"
    and rest: "smapM ?f rows (s\<lparr>pd_outbox := t\<rparr>) = (Inr u, s')"
    using Cons.prems(1) by (auto simp: sbind_Inr on_outbox_Inr try_bind_Inr_iff)
  note q = ob_enqueue_queued [OF t Cons.prems(2)]
  have "ob_invar (pd_outbox (s\<lparr>pd_outbox := t\<rparr>))" using q(2) by simp
  from Cons.IH [OF rest this] obtain t' where t': "s' = s\<lparr>pd_outbox := t\<rparr>\<lparr>pd_outbox := t'\<rparr>" "ob_invar t'"
    "\<forall>p \<in> set rows. queued p t'" "\<forall>p. queued p t \<longrightarrow> queued p t'" by auto
  with q show ?case by (intro exI [of _ t']) auto
qed

text \<open>How a transition changes a run.\<close>

lemma pub_run_init_Inr:
  "pub_run_init H r = Inr r' \<Longrightarrow> r' = r\<lparr>pn_publication_run_id := pub_run_id H (pn_identity r)\<rparr> \<and> pub_run_init H r' = Inr r'"
  by (auto simp: pub_run_init_def try_bind_Inr_iff Let_def pn_identity_def)

lemma pub_transition_Inr:
  assumes "pub_transition H target mh r = Inr r'"
  shows "pn_state r' = target" and "pn_identity r' = pn_identity r" and "pn_manifest_hash r' = or_hash mh (pn_manifest_hash r)"
    and "pn_publication_run_id r' = pub_run_id H (pn_identity r)" and "pub_run_init H r' = Inr r'"
    and "pn_content_snapshot_id r' = pn_content_snapshot_id r"
    and "pn_version r' = pn_version r + (if target = pn_state r then 0 else 1)"
proof -
  have init: "pub_run_init H (r\<lparr>pn_state := target, pn_manifest_hash := or_hash mh (pn_manifest_hash r),
      pn_version := pn_version r + (if target = pn_state r then 0 else 1)\<rparr>) = Inr r'"
    using assms by (simp add: pub_transition_def try_bind_Inr_iff)
  note r' = pub_run_init_Inr [OF init]
  show "pub_run_init H r' = Inr r'" using r' by blast
  show "pn_state r' = target" "pn_identity r' = pn_identity r" "pn_manifest_hash r' = or_hash mh (pn_manifest_hash r)"
    "pn_publication_run_id r' = pub_run_id H (pn_identity r)" "pn_content_snapshot_id r' = pn_content_snapshot_id r"
    "pn_version r' = pn_version r + (if target = pn_state r then 0 else 1)"
    using r' [THEN conjunct1] by (simp_all add: pn_identity_def)
qed

lemma advance_run_Inr:
  "advance_run env target mh run s = (Inr r, s') \<longleftrightarrow>
     pub_transition (pe_hash env) target mh run = Inr r \<and> pe_hook env (lower (state_name target)) = Inr () \<and>
     (\<exists>t. save_run r (pd_tables s) = Inr t \<and> s' = s\<lparr>pd_tables := t\<rparr>)"
  by (auto simp: advance_run_def sbind_Inr on_tables_Inr)

lemma run_by_identity_None: "run_by_identity H k t = Inr None \<longleftrightarrow> row_get pn_identity k (pt_runs t) = None"
  by (auto simp: run_by_identity_def try_bind_Inr_iff split: option.splits)

text \<open>The first save of a run whose identity is new adds it; the following ones overwrite it.\<close>

lemma save_run_new:
  assumes "save_run run t = Inr t'" and "row_get pn_identity (pn_identity run) (pt_runs t) = None"
  shows "row_get pn_publication_run_id (pn_publication_run_id run) (pt_runs t) = None"
    and "t' = t\<lparr>pt_runs := pt_runs t @ [run]\<rparr>"
proof -
  show new: "row_get pn_publication_run_id (pn_publication_run_id run) (pt_runs t) = None"
  proof (cases "row_get pn_publication_run_id (pn_publication_run_id run) (pt_runs t)")
    case (Some row)
    with assms(1) have "pn_identity row = pn_identity run" by (simp add: save_run_def try_bind_Inr_iff)
    moreover have "row \<in> set (pt_runs t)" using row_get_Some_key [OF Some] by simp
    ultimately have "pn_identity run \<in> pn_identity ` set (pt_runs t)" by (metis imageI)
    with assms(2) have False by (simp add: row_get_None)
    then show ?thesis ..
  qed simp
  then show "t' = t\<lparr>pt_runs := pt_runs t @ [run]\<rparr>" using assms(1) by (simp add: save_run_def row_add_def)
qed

lemma save_run_last:
  assumes "save_run run t = Inr t'" and "pt_runs t = runs @ [old]"
    and "pn_publication_run_id old = pn_publication_run_id run" and "pn_identity old = pn_identity run"
    and "row_get pn_publication_run_id (pn_publication_run_id run) runs = None"
  shows "t' = t\<lparr>pt_runs := runs @ [run]\<rparr>"
proof -
  have "row_put pn_publication_run_id r runs = runs" if "pn_publication_run_id r = pn_publication_run_id run" for r
  proof -
    have "pn_publication_run_id x \<noteq> pn_publication_run_id run" if "x \<in> set runs" for x
      using assms(5) imageI [OF that, of pn_publication_run_id] by (auto simp: row_get_None)
    with that show ?thesis by (simp add: row_put_def map_idI)
  qed
  moreover have "old\<lparr>pn_state := pn_state run, pn_manifest_hash := pn_manifest_hash run, pn_version := pn_version run\<rparr> = run"
    using assms(3,4) by (cases old; cases run) (simp add: pn_identity_def)
  ultimately show ?thesis
    using assms by (auto simp: save_run_def row_get_append try_bind_Inr_iff row_put_def)
qed

text \<open>What a first publication writes: one run, its manifest, rows sealed for it, its content and its outbox rows.\<close>

definition publication_written ::
  "publish_env \<Rightarrow> ('b \<Rightarrow> 'c \<Rightarrow> 'c result) \<Rightarrow> 'b publish_args \<Rightarrow> pub_run \<Rightarrow> 'c pub_db \<Rightarrow> 'c pub_db \<Rightarrow> bool" where
  "publication_written env writer a r s s' \<longleftrightarrow>
     pub_run_init (pe_hash env) r = Inr r \<and> pn_state r = READY \<and> pn_identity r = pa_identity a \<and>
     pn_manifest_hash r = Some (args_hash env a) \<and> pn_publication_run_id r \<notin> run_ids (pd_tables s) \<and>
     pt_runs (pd_tables s') = pt_runs (pd_tables s) @ [r] \<and>
     (\<exists>m. pt_manifests (pd_tables s') = pt_manifests (pd_tables s) @ [m] \<and>
        pm_publication_run_id m = pn_publication_run_id r \<and> pm_manifest m = pa_manifest a) \<and>
     (\<exists>t. foldM (\<lambda>t p. seal_signal (pe_hash env) (pn_publication_run_id r) (pn_content_snapshot_id r) p t) t (pa_signals a)
          = Inr (t\<lparr>pt_sealed := pt_sealed (pd_tables s')\<rparr>) \<and> pt_sealed t = pt_sealed (pd_tables s)) \<and>
     writer (pa_bundle a) (pd_content s) = Inr (pd_content s') \<and>
     ob_invar (pd_outbox s') \<and> (\<forall>p \<in> set (pa_outbox a). queued p (pd_outbox s')) \<and>
     (\<forall>p. queued p (pd_outbox s) \<longrightarrow> queued p (pd_outbox s'))"

lemma publish_new_written:
  assumes "publish_new env writer a run s = (Inr r, s')" and "pub_run_init (pe_hash env) (new_pub_run (pa_identity a)) = Inr run"
    and "row_get pn_identity (pa_identity a) (pt_runs (pd_tables s)) = None" and "tables_closed (pd_tables s)"
    and "ob_invar (pd_outbox s)" and "args_hash env a \<noteq> []"
  shows "publication_written env writer a r s s'"
proof -
  let ?H = "pe_hash env" and ?mh = "args_hash env a" and ?t0 = "pd_tables s"
  obtain r1 t1 c t2 r2 t3 t4 s5 t6 where
    r1: "pub_transition ?H PROJECTING None run = Inr r1" and t1: "save_run r1 ?t0 = Inr t1"
    and c: "writer (pa_bundle a) (pd_content s) = Inr c"
    and t2: "save_manifest r1 (pa_manifest a) ?mh t1 = Inr t2"
    and r2: "pub_transition ?H SEALING None r1 = Inr r2" and t3: "save_run r2 t2 = Inr t3"
    and t4: "save_sealed_signals ?H (pn_publication_run_id r2) (pa_signals a) t3 = Inr t4"
    and s5: "enqueue_rows env (pa_outbox a) (s\<lparr>pd_content := c, pd_tables := t4\<rparr>) = (Inr (), s5)"
    and r3: "pub_transition ?H READY (Some ?mh) r2 = Inr r" and t6: "save_run r (pd_tables s5) = Inr t6"
    and s': "s' = s5\<lparr>pd_tables := t6\<rparr>"
    using assms(1)
    by (auto simp: publish_new_def sbind_Inr advance_run_Inr on_tables_Inr on_content_Inr seal_signal_rows_def)
  have ident: "pn_identity run = pa_identity a" "pn_manifest_hash run = None"
    using pub_run_init_Inr [OF assms(2)]
    by (auto simp: new_pub_run_def pn_identity_def split: prod.splits)
  have ids: "pn_identity r1 = pa_identity a" "pn_identity r2 = pa_identity a" "pn_identity r = pa_identity a"
    using ident pub_transition_Inr(2) [OF r1] pub_transition_Inr(2) [OF r2] pub_transition_Inr(2) [OF r3] by simp_all
  then have rid: "pn_publication_run_id r1 = pn_publication_run_id r" "pn_publication_run_id r2 = pn_publication_run_id r"
    using ident pub_transition_Inr(4) [OF r1] pub_transition_Inr(4) [OF r2] pub_transition_Inr(4) [OF r3] by simp_all
  have snap: "pn_content_snapshot_id r2 = pn_content_snapshot_id r" using pub_transition_Inr(6) [OF r3] by simp
  note new = save_run_new [OF t1 assms(3) [folded ids(1)]]
  have fresh: "pn_publication_run_id r \<notin> run_ids ?t0" using new(1) rid by (auto simp: run_ids_def row_get_None)
  have "row_get pm_publication_run_id (pn_publication_run_id r1) (pt_manifests t1) = None"
    using fresh assms(4) rid new(2) by (auto simp: row_get_None tables_closed_def)
  then obtain m where m: "t2 = t1\<lparr>pt_manifests := pt_manifests ?t0 @ [m]\<rparr>" "pm_publication_run_id m = pn_publication_run_id r"
      "pm_manifest m = pa_manifest a"
    using t2 new(2) rid by (auto simp: save_manifest_def row_add_def)
  have none: "row_get pn_publication_run_id (pn_publication_run_id r) (pt_runs ?t0) = None" using new(1) rid by simp
  have runs2: "pt_runs t2 = pt_runs ?t0 @ [r1]" using m(1) new(2) by simp
  have t3': "t3 = t2\<lparr>pt_runs := pt_runs ?t0 @ [r2]\<rparr>"
    by (rule save_run_last [OF t3 runs2]) (simp_all add: rid ids none)
  have found: "row_get pn_publication_run_id (pn_publication_run_id r) (pt_runs t3) = Some r2"
    using none rid by (simp add: t3' row_get_append)
  have seal: "foldM (\<lambda>t p. seal_signal ?H (pn_publication_run_id r) (pn_content_snapshot_id r) p t) t3 (pa_signals a) = Inr t4"
    using t4 found rid snap by (simp add: save_sealed_signals_def)
  from seal_signals_cases(1) [OF seal] have t4': "t4 = t3\<lparr>pt_sealed := pt_sealed t4\<rparr>" by (auto simp: sealed_more_def)
  have inv5: "ob_invar (pd_outbox (s\<lparr>pd_content := c, pd_tables := t4\<rparr>))" using assms(5) by simp
  obtain q where q: "s5 = s\<lparr>pd_content := c, pd_tables := t4, pd_outbox := q\<rparr>" "ob_invar q" "\<forall>p \<in> set (pa_outbox a). queued p q"
      "\<forall>p. queued p (pd_outbox s) \<longrightarrow> queued p q"
    using enqueue_rows_Inr [OF s5 inv5] by auto
  have runs4: "pt_runs t4 = pt_runs ?t0 @ [r2]" and mid: "pt_manifests t4 = pt_manifests ?t0 @ [m]"
    by (subst t4', simp add: t3' m(1))+
  then have "pt_runs (pd_tables s5) = pt_runs ?t0 @ [r2]" using q(1) by simp
  then have t6': "t6 = t4\<lparr>pt_runs := pt_runs ?t0 @ [r]\<rparr>"
    using save_run_last [OF t6] q(1) rid ids none by simp
  have start: "pt_sealed t3 = pt_sealed ?t0" using t3' m(1) new(2) by simp
  have seal': "foldM (\<lambda>t p. seal_signal ?H (pn_publication_run_id r) (pn_content_snapshot_id r) p t) t3 (pa_signals a)
      = Inr (t3\<lparr>pt_sealed := pt_sealed (pd_tables s')\<rparr>)"
    using seal t4' s' t6' by simp
  have "pn_manifest_hash r = Some ?mh" using pub_transition_Inr(3) [OF r3] assms(6) by (simp add: or_hash_def)
  moreover have "\<exists>m'. pt_manifests (pd_tables s') = pt_manifests ?t0 @ [m'] \<and> pm_publication_run_id m' = pn_publication_run_id r \<and>
      pm_manifest m' = pa_manifest a"
    using m mid s' t6' by auto
  ultimately show ?thesis
    unfolding publication_written_def
    using pub_transition_Inr(1,5) [OF r3] ids(3) fresh s' t6' q c start seal' by auto
qed

section \<open>All or nothing\<close>

text \<open>
  What the unit of work needs of the store it writes the snapshot to: a write leaves its bundle in the store, and no
  later writer takes it away.
\<close>

locale content_writer =
  fixes writer :: "'b \<Rightarrow> 'c \<Rightarrow> 'c result" and state_ok :: "'c \<Rightarrow> bool" and item_ok :: "'b \<Rightarrow> bool"
    and held :: "'b \<Rightarrow> 'c \<Rightarrow> bool" and name :: "'b \<Rightarrow> string"
  assumes write_state: "writer b c = Inr c' \<Longrightarrow> state_ok c \<Longrightarrow> item_ok b \<Longrightarrow> state_ok c'"
    and write_holds: "writer b c = Inr c' \<Longrightarrow> state_ok c \<Longrightarrow> item_ok b \<Longrightarrow> held b c'"
    and write_keeps: "writer b c = Inr c' \<Longrightarrow> item_ok b \<Longrightarrow> held b0 c \<Longrightarrow> held b0 c'"

datatype 'b pub_op = Publish_Op publish_env "'b publish_args" | Deliver_Op ob_op | Store_Op 'b

text \<open>The environments of one run share the digest; each attempt has its own clock, hook and signal check.\<close>

definition pub_step ::
  "(string \<Rightarrow> string) \<Rightarrow> ('b \<Rightarrow> 'c \<Rightarrow> 'c result) \<Rightarrow> 'c pub_db \<Rightarrow> 'b pub_op \<Rightarrow> 'c pub_db" where
  "pub_step H writer db op =
     (case op of
        Publish_Op env a \<Rightarrow> snd (publish env writer a db db)
      | Deliver_Op o1 \<Rightarrow> db\<lparr>pd_outbox := ob_step H (pd_outbox db) o1\<rparr>
      | Store_Op b \<Rightarrow> snd (transaction (on_content (writer b)) db))"

definition pub_run_ops ::
  "(string \<Rightarrow> string) \<Rightarrow> ('b \<Rightarrow> 'c \<Rightarrow> 'c result) \<Rightarrow> 'b pub_op list \<Rightarrow> 'c pub_db \<Rightarrow> 'c pub_db" where
  "pub_run_ops H writer ops db = foldl (pub_step H writer) db ops"

text \<open>The bundle that is published is the one of the snapshot, and the hash of a text is not empty.\<close>

fun pub_op_ok :: "(string \<Rightarrow> string) \<Rightarrow> ('b \<Rightarrow> bool) \<Rightarrow> ('b \<Rightarrow> string) \<Rightarrow> 'b pub_op \<Rightarrow> bool" where
  "pub_op_ok H item_ok name (Publish_Op env a) \<longleftrightarrow>
     pe_hash env = H \<and> item_ok (pa_bundle a) \<and> name (pa_bundle a) = fst (pa_identity a) \<and> args_hash env a \<noteq> []"
| "pub_op_ok H item_ok name (Deliver_Op o1) \<longleftrightarrow> True"
| "pub_op_ok H item_ok name (Store_Op b) \<longleftrightarrow> item_ok b"

definition whole_run ::
  "(string \<Rightarrow> string) \<Rightarrow> ('b \<Rightarrow> 'c \<Rightarrow> bool) \<Rightarrow> ('b \<Rightarrow> string) \<Rightarrow> pub_run \<Rightarrow> 'c pub_db \<Rightarrow> bool" where
  "whole_run H held name run db \<longleftrightarrow> (\<exists>env. pe_hash env = H \<and> whole_publication env held name run db)"

definition pub_ok ::
  "(string \<Rightarrow> string) \<Rightarrow> ('c \<Rightarrow> bool) \<Rightarrow> ('b \<Rightarrow> 'c \<Rightarrow> bool) \<Rightarrow> ('b \<Rightarrow> string) \<Rightarrow> 'c pub_db \<Rightarrow> bool" where
  "pub_ok H state_ok held name db \<longleftrightarrow>
     keys_distinct pn_publication_run_id (pt_runs (pd_tables db)) \<and> keys_distinct pn_identity (pt_runs (pd_tables db)) \<and>
     tables_closed (pd_tables db) \<and> ob_invar (pd_outbox db) \<and> state_ok (pd_content db) \<and>
     (\<forall>run \<in> set (pt_runs (pd_tables db)). whole_run H held name run db)"

text \<open>What a state keeps of another: its runs, manifests and sealed rows, the payloads in the outbox.\<close>

definition grows_from :: "'c pub_db \<Rightarrow> 'c pub_db \<Rightarrow> bool" where
  "grows_from db db' \<longleftrightarrow>
     (\<exists>rs ms ss. pt_runs (pd_tables db') = pt_runs (pd_tables db) @ rs \<and>
        pt_manifests (pd_tables db') = pt_manifests (pd_tables db) @ ms \<and>
        pt_sealed (pd_tables db') = pt_sealed (pd_tables db) @ ss \<and>
        (pn_publication_run_id ` set rs \<union> pm_publication_run_id ` set ms \<union> ps_publication_run_id ` set ss)
          \<inter> run_ids (pd_tables db) = {}) \<and>
     (\<forall>p. queued p (pd_outbox db) \<longrightarrow> queued p (pd_outbox db'))"

lemma db_grows_refl: "grows_from db db"
  unfolding grows_from_def by (intro conjI exI [of _ "[]"]) simp_all

lemma Un_six: "(a \<union> a') \<union> (b \<union> b') \<union> (c \<union> c') = (a \<union> b \<union> c) \<union> (a' \<union> b' \<union> c')"
  by blast

lemma disjoint_below: "X \<inter> R = {} \<Longrightarrow> Y \<inter> R' = {} \<Longrightarrow> R \<subseteq> R' \<Longrightarrow> (X \<union> Y) \<inter> R = {}"
  by blast

lemma grows_fromE:
  assumes "grows_from db db'"
  obtains rs ms ss where "pt_runs (pd_tables db') = pt_runs (pd_tables db) @ rs"
    "pt_manifests (pd_tables db') = pt_manifests (pd_tables db) @ ms" "pt_sealed (pd_tables db') = pt_sealed (pd_tables db) @ ss"
    "(pn_publication_run_id ` set rs \<union> pm_publication_run_id ` set ms \<union> ps_publication_run_id ` set ss)
      \<inter> run_ids (pd_tables db) = {}"
  using assms [unfolded grows_from_def] by (elim conjE exE) (rule that)

lemma grows_queued: "grows_from a b \<Longrightarrow> queued p (pd_outbox a) \<Longrightarrow> queued p (pd_outbox b)"
  unfolding grows_from_def by (elim conjE allE [of _ p]) (rule mp)

lemma db_grows_trans:
  assumes "grows_from a b" and "grows_from b c"
  shows "grows_from a c"
proof -
  from assms(1) obtain rs ms ss where 1: "pt_runs (pd_tables b) = pt_runs (pd_tables a) @ rs"
    "pt_manifests (pd_tables b) = pt_manifests (pd_tables a) @ ms" "pt_sealed (pd_tables b) = pt_sealed (pd_tables a) @ ss"
    "(pn_publication_run_id ` set rs \<union> pm_publication_run_id ` set ms \<union> ps_publication_run_id ` set ss)
          \<inter> run_ids (pd_tables a) = {}" by (rule grows_fromE)
  from assms(2) obtain rs' ms' ss' where 2: "pt_runs (pd_tables c) = pt_runs (pd_tables b) @ rs'"
    "pt_manifests (pd_tables c) = pt_manifests (pd_tables b) @ ms'" "pt_sealed (pd_tables c) = pt_sealed (pd_tables b) @ ss'"
    "(pn_publication_run_id ` set rs' \<union> pm_publication_run_id ` set ms' \<union> ps_publication_run_id ` set ss')
          \<inter> run_ids (pd_tables b) = {}" by (rule grows_fromE)
  have "run_ids (pd_tables a) \<subseteq> run_ids (pd_tables b)" using 1(1) by (auto simp: run_ids_def)
  note apart = disjoint_below [OF 1(4) 2(4) this]
  have "pn_publication_run_id ` set (rs @ rs') \<union> pm_publication_run_id ` set (ms @ ms') \<union> ps_publication_run_id ` set (ss @ ss') =
      (pn_publication_run_id ` set rs \<union> pm_publication_run_id ` set ms \<union> ps_publication_run_id ` set ss) \<union>
      (pn_publication_run_id ` set rs' \<union> pm_publication_run_id ` set ms' \<union> ps_publication_run_id ` set ss')"
    unfolding set_append image_Un by (rule Un_six)
  note apart = apart [folded this]
  have "\<forall>p. queued p (pd_outbox a) \<longrightarrow> queued p (pd_outbox c)" using grows_queued assms by blast
  moreover have "pt_runs (pd_tables c) = pt_runs (pd_tables a) @ rs @ rs'" using 1(1) 2(1) by simp
  moreover have "pt_manifests (pd_tables c) = pt_manifests (pd_tables a) @ ms @ ms'" using 1(2) 2(2) by simp
  moreover have "pt_sealed (pd_tables c) = pt_sealed (pd_tables a) @ ss @ ss'" using 1(3) 2(3) by simp
  ultimately show ?thesis unfolding grows_from_def using apart by (intro conjI exI)
qed

lemma written_grows:
  assumes "publication_written env writer a r s s'"
  shows "grows_from s s'" and "tables_closed (pd_tables s) \<Longrightarrow> tables_closed (pd_tables s')"
    and "p \<in> set (pa_signals a) \<Longrightarrow> sealed_as (pe_hash env) (pn_publication_run_id r) p (pd_tables s')"
proof -
  note w = assms [unfolded publication_written_def]
  obtain m where m: "pt_manifests (pd_tables s') = pt_manifests (pd_tables s) @ [m]" "pm_publication_run_id m = pn_publication_run_id r"
    using w by blast
  obtain t where t: "foldM (\<lambda>t p. seal_signal (pe_hash env) (pn_publication_run_id r) (pn_content_snapshot_id r) p t) t (pa_signals a)
      = Inr (t\<lparr>pt_sealed := pt_sealed (pd_tables s')\<rparr>)" "pt_sealed t = pt_sealed (pd_tables s)" using w by blast
  from seal_signals_cases(1) [OF t(1)] obtain rows where
    rows: "pt_sealed (pd_tables s') = pt_sealed (pd_tables s) @ rows" "ps_publication_run_id ` set rows \<subseteq> {pn_publication_run_id r}"
    using t(2) by (auto simp: sealed_more_def) (metis publication_tables.select_convs(3) publication_tables.surjective publication_tables.update_convs(3))
  have fresh: "pn_publication_run_id r \<notin> run_ids (pd_tables s)" and runs: "pt_runs (pd_tables s') = pt_runs (pd_tables s) @ [r]"
    using w by simp_all
  show "grows_from s s'" unfolding grows_from_def
    using w runs m rows fresh by (intro conjI exI [of _ "[r]"] exI [of _ "[m]"] exI [of _ rows]) auto
  show "tables_closed (pd_tables s')" if "tables_closed (pd_tables s)"
    using that m rows runs unfolding tables_closed_def run_ids_def by auto
  show "sealed_as (pe_hash env) (pn_publication_run_id r) p (pd_tables s')" if "p \<in> set (pa_signals a)"
    using seal_signals_cases(2) [OF t(1) that] by (simp add: sealed_as_def)
qed

text \<open>A publication of a closed state either writes all of it or leaves the state as it is.\<close>

lemma publish_cases:
  assumes "tables_closed (pd_tables db)" and "ob_invar (pd_outbox db)" and "args_hash env a \<noteq> []"
  obtains (kept) "snd (publish env writer a db db) = db"
  | (written) r where "publish env writer a db db = (Inr r, snd (publish env writer a db db))"
      "row_get pn_identity (pa_identity a) (pt_runs (pd_tables db)) = None"
      "publication_written env writer a r db (snd (publish env writer a db db))"
proof (cases "pub_run_init (pe_hash env) (new_pub_run (pa_identity a))")
  case (Inl e)
  with kept show ?thesis by (simp add: publish_def)
next
  case (Inr run)
  obtain res db' where t: "transaction (publish_in_session env writer a run) db = (res, db')" by fastforce
  show ?thesis
  proof (cases res)
    case e: (Inl e)
    have "publish env writer a db db =
        (case e of IntegrityError reason \<Rightarrow> (resolve_race env a reason (pd_tables db), db) | _ \<Rightarrow> (Inl e, db))"
      using Inr t e by (simp add: publish_def split: exn.splits)
    then show ?thesis using kept by (auto split: exn.splits)
  next
    case r: (Inr r)
    then have body: "publish_in_session env writer a run db = (Inr r, db')" using t by (simp add: transaction_Inr)
    have pub: "publish env writer a db db = (Inr r, db')" using Inr t r by (simp add: publish_def)
    show ?thesis
    proof (cases "run_by_identity (pe_hash env) (pa_identity a) (pd_tables db) = Inr None")
      case True
      with body have "publish_new env writer a run db = (Inr r, db')"
        by (auto simp: publish_in_session_def sbind_Inr)
      from publish_new_written [OF this Inr _ assms] True pub show ?thesis
        by (intro written [of r]) (simp_all add: run_by_identity_None)
    next
      case False
      obtain x where x: "run_by_identity (pe_hash env) (pa_identity a) (pd_tables db) = Inr x"
        using body by (auto simp: publish_in_session_def sbind_Inr)
      with False obtain ex where "x = Some ex" by (cases x) auto
      with body x have "db' = db"
        by (auto simp: publish_in_session_def sbind_def sread_def sreturn_def sraise_def split: if_splits sum.splits)
      with pub kept show ?thesis by simp
    qed
  qed
qed

lemma publish_grows:
  assumes "tables_closed (pd_tables db)" and "ob_invar (pd_outbox db)" and "args_hash env a \<noteq> []"
  shows "grows_from db (snd (publish env writer a db db))"
  by (rule publish_cases [OF assms, of writer]) (simp_all add: db_grows_refl written_grows(1))

lemma sealed_as_grows: "grows_from db db' \<Longrightarrow> sealed_as H r p (pd_tables db) \<Longrightarrow> sealed_as H r p (pd_tables db')"
  by (auto simp: grows_from_def sealed_as_def row_get_append)

lemma whole_run_grows:
  assumes "whole_run H held name run db" and "grows_from db db'"
    and "\<And>b. held b (pd_content db) \<Longrightarrow> held b (pd_content db')"
  shows "whole_run H held name run db'"
proof -
  have "get_manifest k (pd_tables db') = Some m" if "get_manifest k (pd_tables db) = Some m" for k m
    using that assms(2) by (auto simp: get_manifest_def grows_from_def row_get_append)
  moreover have "queued p (pd_outbox db')" if "queued p (pd_outbox db)" for p
    using that assms(2) by (simp add: grows_from_def)
  ultimately show ?thesis
    using assms(1,3) sealed_as_grows [OF assms(2)] unfolding whole_run_def whole_publication_def by blast
qed

context content_writer
begin

lemma written_whole:
  assumes "publication_written env writer a r db db'" and "state_ok (pd_content db)" and "item_ok (pa_bundle a)"
    and "name (pa_bundle a) = fst (pa_identity a)" and "tables_closed (pd_tables db)"
  shows "whole_run (pe_hash env) held name r db'"
proof -
  note w = assms(1) [unfolded publication_written_def]
  have "pn_content_snapshot_id r = fst (pa_identity a)" using w by (metis fst_conv pn_identity_def)
  moreover have "get_manifest (pn_publication_run_id r) (pd_tables db') = Some (pa_manifest a)"
  proof -
    have "row_get pm_publication_run_id (pn_publication_run_id r) (pt_manifests (pd_tables db)) = None"
      using w assms(5) by (auto simp: row_get_None tables_closed_def)
    with w show ?thesis by (auto simp: get_manifest_def row_get_append)
  qed
  moreover have "held (pa_bundle a) (pd_content db')" using w assms(2,3) by (blast intro: write_holds)
  ultimately have "whole_publication env held name r db'"
    unfolding whole_publication_def using w written_grows(3) [OF assms(1)] assms(4) by (intro conjI exI [of _ a]) auto
  then show ?thesis by (auto simp: whole_run_def)
qed

lemma pub_step_grows:
  assumes "pub_ok H state_ok held name db" and "pub_op_ok H item_ok name op"
  shows "grows_from db (pub_step H writer db op)"
proof (cases op)
  case (Publish_Op env a)
  with assms show ?thesis by (simp add: pub_step_def pub_ok_def publish_grows)
next
  case (Deliver_Op o1)
  have "queued p (ob_step H (pd_outbox db) o1)" if "queued p (pd_outbox db)" for p
    using assms(1) that by (simp add: pub_ok_def ob_step_keeps_payload)
  then show ?thesis using db_grows_refl [of db] by (auto simp: Deliver_Op pub_step_def grows_from_def)
next
  case (Store_Op b)
  show ?thesis using db_grows_refl [of db]
    by (auto simp: Store_Op pub_step_def transaction_def on_content_def grows_from_def split: sum.splits)
qed

lemma pub_step_ok:
  assumes "pub_ok H state_ok held name db" and "pub_op_ok H item_ok name op"
  shows "pub_ok H state_ok held name (pub_step H writer db op)"
proof -
  let ?db = "pub_step H writer db op"
  have ok: "keys_distinct pn_publication_run_id (pt_runs (pd_tables db))" "keys_distinct pn_identity (pt_runs (pd_tables db))"
    "tables_closed (pd_tables db)" "ob_invar (pd_outbox db)" "state_ok (pd_content db)"
    "\<And>run. run \<in> set (pt_runs (pd_tables db)) \<Longrightarrow> whole_run H held name run db"
    using assms(1) by (simp_all add: pub_ok_def)
  note grows = pub_step_grows [OF assms]
  have keep: "whole_run H held name run ?db" if "run \<in> set (pt_runs (pd_tables db))"
    and "\<And>b. held b (pd_content db) \<Longrightarrow> held b (pd_content ?db)" for run
    by (rule whole_run_grows [OF ok(6) [OF that(1)] grows that(2)])
  show ?thesis
  proof (cases op)
    case (Publish_Op env a)
    with assms(2) have a: "pe_hash env = H" "item_ok (pa_bundle a)" "name (pa_bundle a) = fst (pa_identity a)" "args_hash env a \<noteq> []"
      by simp_all
    have step: "?db = snd (publish env writer a db db)" by (simp add: Publish_Op pub_step_def)
    show ?thesis
    proof (rule publish_cases [OF ok(3,4) a(4), of writer])
      assume "snd (publish env writer a db db) = db"
      with step assms(1) show ?thesis by simp
    next
      fix r
      assume none: "row_get pn_identity (pa_identity a) (pt_runs (pd_tables db)) = None"
        and "publication_written env writer a r db (snd (publish env writer a db db))"
      then have wr: "publication_written env writer a r db ?db" by (simp add: step)
      note w = wr [unfolded publication_written_def]
      have runs: "pt_runs (pd_tables ?db) = row_add r (pt_runs (pd_tables db))" using w by (simp add: row_add_def)
      have c: "writer (pa_bundle a) (pd_content db) = Inr (pd_content ?db)" using w by blast
      have "held b (pd_content ?db)" if "held b (pd_content db)" for b by (rule write_keeps [OF c a(2) that])
      then have "\<forall>run \<in> set (pt_runs (pd_tables ?db)). whole_run H held name run ?db"
        using keep written_whole [OF wr ok(5) a(2,3) ok(3)] a(1) unfolding runs row_add_def by auto
      moreover have "keys_distinct pn_publication_run_id (pt_runs (pd_tables ?db))" "keys_distinct pn_identity (pt_runs (pd_tables ?db))"
        unfolding runs keys_distinct_add using ok(1,2) w none by (auto simp: run_ids_def row_get_None)
      ultimately show ?thesis
        using w written_grows(2) [OF wr ok(3)] write_state [OF c ok(5) a(2)] by (simp add: pub_ok_def)
    qed
  next
    case (Deliver_Op o1)
    then have "pd_tables ?db = pd_tables db" "pd_content ?db = pd_content db" "pd_outbox ?db = ob_step H (pd_outbox db) o1"
      by (simp_all add: pub_step_def)
    with ok keep ob_invar_step [OF ok(4)] show ?thesis by (simp add: pub_ok_def)
  next
    case (Store_Op b)
    with assms(2) have b: "item_ok b" by simp
    show ?thesis
    proof (cases "writer b (pd_content db)")
      case (Inl e)
      then have "?db = db" by (simp add: Store_Op pub_step_def transaction_def on_content_def)
      with assms(1) show ?thesis by simp
    next
      case (Inr c)
      then have "?db = db\<lparr>pd_content := c\<rparr>" by (simp add: Store_Op pub_step_def transaction_def on_content_def)
      with ok keep write_state [OF Inr ok(5) b] write_keeps [OF Inr b] show ?thesis by (simp add: pub_ok_def)
    qed
  qed
qed

lemma pub_run_ok:
  assumes "pub_ok H state_ok held name db" and "list_all (pub_op_ok H item_ok name) ops"
  shows "pub_ok H state_ok held name (pub_run_ops H writer ops db) \<and> grows_from db (pub_run_ops H writer ops db)"
  using assms(2)
proof (induction ops rule: rev_induct)
  case Nil
  with assms(1) show ?case by (simp add: pub_run_ops_def db_grows_refl)
next
  case (snoc op ops)
  then have ih: "pub_ok H state_ok held name (pub_run_ops H writer ops db)" "grows_from db (pub_run_ops H writer ops db)"
    and op: "pub_op_ok H item_ok name op" by simp_all
  have "pub_run_ops H writer (ops @ [op]) db = pub_step H writer (pub_run_ops H writer ops db) op"
    by (simp add: pub_run_ops_def)
  with pub_step_ok [OF ih(1) op] db_grows_trans [OF ih(2) pub_step_grows [OF ih(1) op]] show ?case by simp
qed

end

section \<open>The bundle of a snapshot is such content\<close>

definition content_ok :: "surroundings \<Rightarrow> content_db \<Rightarrow> bool" where
  "content_ok senv c \<longleftrightarrow> archive_ok senv (cb_archive c)"

definition bundle_name :: "snapshot_bundle \<Rightarrow> string" where
  "bundle_name b = cs_id (bn_snapshot b)"

interpretation bundles: content_writer "save_bundle senv J entries" "content_ok senv" bundle_ok "bundle_held senv" bundle_name
  for senv J entries
  by unfold_locales (simp_all add: content_ok_def save_bundle_holds save_bundle_keeps)

definition empty_db :: "'c \<Rightarrow> 'c pub_db" where
  "empty_db c = \<lparr>pd_tables = \<lparr>pt_runs = [], pt_manifests = [], pt_sealed = []\<rparr>, pd_outbox = [], pd_content = c\<rparr>"

lemma empty_db_ok: "content_ok senv c \<Longrightarrow> pub_ok H (content_ok senv) held nm (empty_db c)"
  by (simp add: pub_ok_def empty_db_def keys_distinct_def tables_closed_def ob_invar_def)

text \<open>
  C3. A publication is all or nothing. After any sequence of publications, each of which may fail at any of its
  points, of deliveries by the outbox workers and of bundles saved on their own, every stored run is ready and whole:
  its manifest has the hash the run carries, each of its signals is sealed, each of its outbox rows is queued with its
  payload, and its snapshot is stored and valid with the occurrences, lifecycle events and verification results that
  came with it. For a run that is not stored there is no manifest and no sealed signal.
\<close>

theorem publication_all_or_nothing:
  assumes "content_ok senv c" and "list_all (pub_op_ok (en_hash senv) bundle_ok bundle_name) ops"
    and "db = pub_run_ops (en_hash senv) (save_bundle senv J entries) ops (empty_db c)"
  shows "if stored \<in> set (pt_runs (pd_tables db)) then whole_run (en_hash senv) (bundle_held senv) bundle_name stored db
    else pn_publication_run_id stored \<in> run_ids (pd_tables db) \<or>
      get_manifest (pn_publication_run_id stored) (pd_tables db) = None \<and>
      list_sealed_signals (pn_publication_run_id stored) (pd_tables db) = []"
proof -
  have ok: "pub_ok (en_hash senv) (content_ok senv) (bundle_held senv) bundle_name db"
    using bundles.pub_run_ok [OF empty_db_ok [OF assms(1)] assms(2)] assms(3) by blast
  have "get_manifest rid (pd_tables db) = None \<and> list_sealed_signals rid (pd_tables db) = []" if "rid \<notin> run_ids (pd_tables db)" for rid
  proof -
    have "filter (\<lambda>r. ps_publication_run_id r = rid) (pt_sealed (pd_tables db)) = []"
      using ok that by (auto simp: pub_ok_def tables_closed_def filter_empty_conv)
    moreover have "rid \<notin> pm_publication_run_id ` set (pt_manifests (pd_tables db))"
      using ok that by (auto simp: pub_ok_def tables_closed_def)
    ultimately show ?thesis by (simp add: get_manifest_def row_get_None list_sealed_signals_def)
  qed
  with ok show ?thesis by (auto simp: pub_ok_def)
qed

section \<open>Publishing again\<close>

lemma seal_fresh_signals:
  assumes "foldM (\<lambda>t p. seal_signal H rid snap p t) t signals = Inr t'"
    and "distinct (map (\<lambda>p. sealed_id H rid (signal_key p)) signals)"
    and "\<forall>p \<in> set signals. row_get ps_sealed_signal_id (sealed_id H rid (signal_key p)) (pt_sealed t) = None"
  shows "pt_sealed t' = pt_sealed t @ map (new_sealed H rid snap) signals \<and> list_all (\<lambda>p. signal_key p \<noteq> []) signals"
  using assms
proof (induction signals arbitrary: t)
  case (Cons p ps)
  then obtain u where u: "seal_signal H rid snap p t = Inr u" and rest: "foldM (\<lambda>t p. seal_signal H rid snap p t) u ps = Inr t'"
    by (auto simp: try_bind_Inr_iff)
  have new: "pt_sealed u = pt_sealed t @ [new_sealed H rid snap p]"
    using u Cons.prems(3) by (cases rule: seal_signal_cases) auto
  have "\<forall>q \<in> set ps. row_get ps_sealed_signal_id (sealed_id H rid (signal_key q)) (pt_sealed u) = None"
    using Cons.prems(2,3) unfolding new by (auto simp: row_get_append new_sealed_def image_iff)
  from Cons.IH [OF rest _ this] Cons.prems(2) new u show ?case
    by (auto simp: seal_signal_def try_bind_Inr_iff)
qed simp

lemma keyed_signals:
  assumes "distinct (map signal_key xs)" and "list_all (\<lambda>p. signal_key p \<noteq> []) xs"
  shows "signal_keyed_set xs = Inr (map (\<lambda>p. (signal_key p, p)) xs)"
proof -
  have "foldM (\<lambda>keyed payload.
       try_bind (ensure (signal_key payload \<noteq> []) (ValueError ''sealed signal requires signal_id'')) (\<lambda>_.
       try_bind (ensure (map_of keyed (signal_key payload) = None)
         (ValueError (''duplicate sealed signal_id: '' @ signal_key payload))) (\<lambda>_.
       Inr (keyed @ [(signal_key payload, payload)])))) kept xs = Inr (kept @ map (\<lambda>p. (signal_key p, p)) xs)"
    if "fst ` set kept \<inter> signal_key ` set xs = {}" for kept
    using that assms
  proof (induction xs arbitrary: kept)
    case (Cons p ps)
    have "map_of kept (signal_key p) = None" using Cons.prems(1) by (auto simp: map_of_eq_None_iff)
    with Cons show ?case by simp
  qed simp
  from this [of "[]"] show ?thesis by (simp add: signal_keyed_set_def)
qed

text \<open>Collecting signals by their ids raises nothing but \<open>ValueError\<close>, and does so when an id comes twice.\<close>

lemma keyed_signals_error:
  assumes "signal_keyed_set xs = Inl e"
  shows "\<exists>why. e = ValueError why"
proof -
  have "\<exists>why. e = ValueError why" if "foldM (\<lambda>keyed payload.
       try_bind (ensure (signal_key payload \<noteq> []) (ValueError ''sealed signal requires signal_id'')) (\<lambda>_.
       try_bind (ensure (map_of keyed (signal_key payload) = None)
         (ValueError (''duplicate sealed signal_id: '' @ signal_key payload))) (\<lambda>_.
       Inr (keyed @ [(signal_key payload, payload)])))) kept xs = Inl e" for kept
    using that by (induction xs arbitrary: kept) (auto simp: ensure_def split: if_splits)
  with assms show ?thesis by (simp add: signal_keyed_set_def)
qed

lemma keyed_signals_twice:
  assumes "\<not> distinct (map signal_key xs)"
  shows "\<exists>why. signal_keyed_set xs = Inl (ValueError why)"
proof -
  have "\<exists>e. foldM (\<lambda>keyed payload.
       try_bind (ensure (signal_key payload \<noteq> []) (ValueError ''sealed signal requires signal_id'')) (\<lambda>_.
       try_bind (ensure (map_of keyed (signal_key payload) = None)
         (ValueError (''duplicate sealed signal_id: '' @ signal_key payload))) (\<lambda>_.
       Inr (keyed @ [(signal_key payload, payload)])))) kept xs = Inl e"
    if "\<not> distinct (map signal_key xs) \<or> fst ` set kept \<inter> signal_key ` set xs \<noteq> {}" for kept
    using that
  proof (induction xs arbitrary: kept)
    case (Cons p ps)
    show ?case
    proof (cases "signal_key p \<noteq> [] \<and> map_of kept (signal_key p) = None")
      case True
      then have "\<not> distinct (map signal_key ps) \<or>
          fst ` set (kept @ [(signal_key p, p)]) \<inter> signal_key ` set ps \<noteq> {}"
        using Cons.prems by (auto simp: map_of_eq_None_iff)
      from Cons.IH [OF this] True show ?thesis by (simp add: ensure_def)
    qed (auto simp: ensure_def)
  qed simp
  from this [of "[]"] assms obtain e where e: "signal_keyed_set xs = Inl e" unfolding signal_keyed_set_def by blast
  with keyed_signals_error [OF e] show ?thesis by blast
qed

lemma same_signals_sorted:
  assumes "distinct (map signal_key xs)"
  shows "same_signals (map (\<lambda>p. (signal_key p, p)) (sort_key signal_key xs)) (map (\<lambda>p. (signal_key p, p)) xs)"
proof -
  have "map_of (map (\<lambda>p. (signal_key p, p)) xs) (signal_key p) = Some p" if "p \<in> set xs" for p
    using that assms by (intro map_of_is_SomeI) (auto simp: comp_def)
  then show ?thesis by (auto simp: same_signals_def list_all_iff image_image)
qed

lemma insort_key_over_map: "insort_key f (g x) (map g xs) = map g (insort_key (\<lambda>x. f (g x)) x xs)"
  by (induction xs) simp_all

lemma sort_key_over_map: "sort_key f (map g xs) = map g (sort_key (\<lambda>x. f (g x)) xs)"
  by (induction xs) (simp_all add: insort_key_over_map)

text \<open>
  The sealed rows that a publication of these signals under this run would write are not there, and different signals
  have different ones: neither fails unless the hash of the sealed ids collides.
\<close>

definition unsealed :: "(string \<Rightarrow> string) \<Rightarrow> string \<Rightarrow> pydict list \<Rightarrow> publication_tables \<Rightarrow> bool" where
  "unsealed H rid signals t \<longleftrightarrow>
     inj_on (sealed_id H rid) (signal_key ` set signals) \<and>
     (\<forall>p \<in> set signals. row_get ps_sealed_signal_id (sealed_id H rid (signal_key p)) (pt_sealed t) = None)"

lemma written_sealed:
  assumes "publication_written env writer a r db db'" and "tables_closed (pd_tables db)"
    and "unsealed (pe_hash env) (pn_publication_run_id r) (pa_signals a) (pd_tables db)"
    and "distinct (map signal_key (pa_signals a))"
  shows "list_sealed_signals (pn_publication_run_id r) (pd_tables db') = sort_key signal_key (pa_signals a)"
    and "list_all (\<lambda>p. signal_key p \<noteq> []) (pa_signals a)"
proof -
  note w = assms(1) [unfolded publication_written_def]
  let ?rid = "pn_publication_run_id r" and ?new = "new_sealed (pe_hash env) (pn_publication_run_id r) (pn_content_snapshot_id r)"
  obtain t where t: "foldM (\<lambda>t p. seal_signal (pe_hash env) ?rid (pn_content_snapshot_id r) p t) t (pa_signals a)
      = Inr (t\<lparr>pt_sealed := pt_sealed (pd_tables db')\<rparr>)" "pt_sealed t = pt_sealed (pd_tables db)" using w by blast
  have "distinct (map (\<lambda>p. sealed_id (pe_hash env) ?rid (signal_key p)) (pa_signals a))"
    using assms(3,4) by (auto simp: unsealed_def distinct_map inj_on_def)
  then have sealed: "pt_sealed (pd_tables db') = pt_sealed (pd_tables db) @ map ?new (pa_signals a)"
    and keys: "list_all (\<lambda>p. signal_key p \<noteq> []) (pa_signals a)"
    using seal_fresh_signals [OF t(1)] assms(3) t(2) by (auto simp: unsealed_def)
  have "?rid \<notin> run_ids (pd_tables db)" using w by simp
  then have old: "filter (\<lambda>x. ps_publication_run_id x = ?rid) (pt_sealed (pd_tables db)) = []"
    using assms(2) by (auto simp: tables_closed_def filter_empty_conv)
  have "filter (\<lambda>x. ps_publication_run_id x = ?rid) (map ?new (pa_signals a)) = map ?new (pa_signals a)"
    by (simp add: filter_id_conv new_sealed_def)
  then show "list_sealed_signals ?rid (pd_tables db') = sort_key signal_key (pa_signals a)"
    by (simp add: list_sealed_signals_def sealed old sort_key_over_map comp_def new_sealed_def)
  show "list_all (\<lambda>p. signal_key p \<noteq> []) (pa_signals a)" by (rule keys)
qed

lemma written_verifies:
  assumes "publication_written env writer a r db db'" and "tables_closed (pd_tables db)"
    and "unsealed (pe_hash env) (pn_publication_run_id r) (pa_signals a) (pd_tables db)"
    and "get_manifest (pn_publication_run_id r) t = Some (pa_manifest a)"
    and "list_sealed_signals (pn_publication_run_id r) t = list_sealed_signals (pn_publication_run_id r) (pd_tables db')"
  shows "if distinct (map signal_key (pa_signals a))
    then verify_sealed r (pa_manifest a) (pa_signals a) (args_hash env a) t = Inr ()
    else \<exists>why. verify_sealed r (pa_manifest a) (pa_signals a) (args_hash env a) t = Inl (ValueError why)"
proof (cases "distinct (map signal_key (pa_signals a))")
  case True
  note s = written_sealed [OF assms(1-3) True]
  have kept: "distinct (map signal_key (sort_key signal_key (pa_signals a)))" "list_all (\<lambda>p. signal_key p \<noteq> []) (sort_key signal_key (pa_signals a))"
    using s(2) True by (simp_all add: distinct_map list_all_iff)
  have "pn_manifest_hash r = Some (args_hash env a)" using assms(1) by (simp add: publication_written_def)
  with True show ?thesis
    by (simp add: verify_sealed_def assms(4,5) s(1) keyed_signals [OF kept] keyed_signals [OF True s(2)] same_signals_sorted [OF True])
next
  case False
  obtain why where why: "signal_keyed_set (pa_signals a) = Inl (ValueError why)" using keyed_signals_twice [OF False] by blast
  have "\<exists>why. verify_sealed r (pa_manifest a) (pa_signals a) (args_hash env a) t = Inl (ValueError why)"
  proof (cases "signal_keyed_set (list_sealed_signals (pn_publication_run_id r) t)")
    case (Inl e)
    then show ?thesis using keyed_signals_error [OF Inl] by (auto simp: verify_sealed_def assms(4))
  next
    case (Inr kept)
    then show ?thesis by (simp add: verify_sealed_def assms(4) why)
  qed
  with False show ?thesis by simp
qed

lemma grown_reads:
  assumes "grows_from db db'" and "pn_publication_run_id r \<in> run_ids (pd_tables db)"
  shows "row_get pn_identity k (pt_runs (pd_tables db)) = Some r \<Longrightarrow> row_get pn_identity k (pt_runs (pd_tables db')) = Some r"
    and "get_manifest (pn_publication_run_id r) (pd_tables db) = Some m \<Longrightarrow> get_manifest (pn_publication_run_id r) (pd_tables db') = Some m"
    and "list_sealed_signals (pn_publication_run_id r) (pd_tables db') = list_sealed_signals (pn_publication_run_id r) (pd_tables db)"
proof -
  from assms(1) obtain rs ms ss where g: "pt_runs (pd_tables db') = pt_runs (pd_tables db) @ rs"
    "pt_manifests (pd_tables db') = pt_manifests (pd_tables db) @ ms" "pt_sealed (pd_tables db') = pt_sealed (pd_tables db) @ ss"
    "(pn_publication_run_id ` set rs \<union> pm_publication_run_id ` set ms \<union> ps_publication_run_id ` set ss) \<inter> run_ids (pd_tables db) = {}"
    by (rule grows_fromE)
  show "row_get pn_identity k (pt_runs (pd_tables db)) = Some r \<Longrightarrow> row_get pn_identity k (pt_runs (pd_tables db')) = Some r"
    "get_manifest (pn_publication_run_id r) (pd_tables db) = Some m \<Longrightarrow> get_manifest (pn_publication_run_id r) (pd_tables db') = Some m"
    by (auto simp: g(1,2) row_get_append get_manifest_def)
  have "ps_publication_run_id x \<noteq> pn_publication_run_id r" if "x \<in> set ss" for x
    using g(4) assms(2) imageI [OF that, of ps_publication_run_id] by auto
  then have "filter (\<lambda>x. ps_publication_run_id x = pn_publication_run_id r) ss = []" by (simp add: filter_empty_conv)
  then show "list_sealed_signals (pn_publication_run_id r) (pd_tables db') = list_sealed_signals (pn_publication_run_id r) (pd_tables db)"
    by (simp add: list_sealed_signals_def g(3))
qed

text \<open>Publishing over a stored run of the identity.\<close>

lemma publish_over:
  assumes "row_get pn_identity (pa_identity a) (pt_runs (pd_tables db)) = Some r" and "pub_run_init (pe_hash env) r = Inr r"
    and "pub_run_init (pe_hash env) (new_pub_run (pa_identity a)) = Inr start"
  shows "pn_manifest_hash r \<noteq> Some (args_hash env a) \<Longrightarrow> publish env writer a db db =
      (Inl (PublicationConflictError ''publication identity already contains a different sealed snapshot/signals payload''), db)"
    and "pn_manifest_hash r = Some (args_hash env a) \<Longrightarrow>
      verify_sealed r (pa_manifest a) (pa_signals a) (args_hash env a) (pd_tables db) = Inr () \<Longrightarrow>
      publish env writer a db db = (Inr r, db)"
    and "pn_manifest_hash r = Some (args_hash env a) \<Longrightarrow>
      verify_sealed r (pa_manifest a) (pa_signals a) (args_hash env a) (pd_tables db) = Inl (ValueError why) \<Longrightarrow>
      publish env writer a db db = (Inl (ValueError why), db)"
proof -
  have found: "run_by_identity (pe_hash env) (pa_identity a) (pd_tables db) = Inr (Some r)"
    using assms(1,2) by (simp add: run_by_identity_def)
  show "publish env writer a db db =
      (Inl (PublicationConflictError ''publication identity already contains a different sealed snapshot/signals payload''), db)"
    if "pn_manifest_hash r \<noteq> Some (args_hash env a)"
    using that by (simp add: publish_def assms(3) transaction_def publish_in_session_def sbind_def sread_def sraise_def found)
  show "publish env writer a db db = (Inr r, db)"
    if "pn_manifest_hash r = Some (args_hash env a)"
      "verify_sealed r (pa_manifest a) (pa_signals a) (args_hash env a) (pd_tables db) = Inr ()"
    using that by (simp add: publish_def assms(3) transaction_def publish_in_session_def sbind_def sread_def sreturn_def found)
  show "publish env writer a db db = (Inl (ValueError why), db)"
    if "pn_manifest_hash r = Some (args_hash env a)"
      "verify_sealed r (pa_manifest a) (pa_signals a) (args_hash env a) (pd_tables db) = Inl (ValueError why)"
    using that by (simp add: publish_def assms(3) transaction_def publish_in_session_def sbind_def sread_def sreturn_def found)
qed

lemma new_run_init:
  assumes "pub_run_init H r = Inr r"
  shows "\<exists>start. pub_run_init H (new_pub_run (pn_identity r)) = Inr start"
  using assms by (auto simp: pub_run_init_def try_bind_Inr_iff new_pub_run_def pn_identity_def Let_def)

lemma published_again:
  assumes "pub_ok H (content_ok senv) (bundle_held senv) bundle_name db" and "en_hash senv = H"
    and "pub_op_ok H bundle_ok bundle_name (Publish_Op env a)"
    and "row_get pn_identity (pa_identity a) (pt_runs (pd_tables db)) = None"
    and "publish env (save_bundle senv J entries) a db db = (Inr r, db')"
    and "unsealed H (pn_publication_run_id r) (pa_signals a) (pd_tables db)"
    and "grows_from db' later"
  shows "pn_identity r = pa_identity a" and "pub_run_init H r = Inr r" and "pn_manifest_hash r = Some (args_hash env a)"
    and "row_get pn_identity (pa_identity a) (pt_runs (pd_tables later)) = Some r"
    and "if distinct (map signal_key (pa_signals a))
      then verify_sealed r (pa_manifest a) (pa_signals a) (args_hash env a) (pd_tables later) = Inr ()
      else \<exists>why. verify_sealed r (pa_manifest a) (pa_signals a) (args_hash env a) (pd_tables later) = Inl (ValueError why)"
    and "read_sealed H (pa_identity a) (pd_tables later) = read_sealed H (pa_identity a) (pd_tables db')"
proof -
  have ok: "tables_closed (pd_tables db)" "ob_invar (pd_outbox db)" using assms(1) by (simp_all add: pub_ok_def)
  have env: "pe_hash env = H" "args_hash env a \<noteq> []" using assms(3) by simp_all
  have wr: "publication_written env (save_bundle senv J entries) a r db db'"
  proof (rule publish_cases [OF ok env(2), of "save_bundle senv J entries"])
    assume "snd (publish env (save_bundle senv J entries) a db db) = db"
    then have "db' = db" using assms(5) by simp
    with assms(4,5) env(1) obtain start where "transaction (publish_in_session env (save_bundle senv J entries) a start) db = (Inr r, db)"
      "pub_run_init (pe_hash env) (new_pub_run (pa_identity a)) = Inr start"
      by (auto simp: publish_def resolve_race_def run_by_identity_def transaction_def split: sum.splits prod.splits exn.splits)
    then have "publish_new env (save_bundle senv J entries) a start db = (Inr r, db)"
      and "pub_run_init (pe_hash env) (new_pub_run (pa_identity a)) = Inr start"
      using assms(4) by (auto simp: transaction_Inr publish_in_session_def sbind_def sread_def run_by_identity_def)
    from publish_new_written [OF this(1,2) assms(4) ok env(2)] \<open>db' = db\<close> show ?thesis by simp
  next
    fix r'
    assume "publish env (save_bundle senv J entries) a db db = (Inr r', snd (publish env (save_bundle senv J entries) a db db))"
      and "publication_written env (save_bundle senv J entries) a r' db (snd (publish env (save_bundle senv J entries) a db db))"
    with assms(5) show ?thesis by simp
  qed
  note w = wr [unfolded publication_written_def]
  show ident: "pn_identity r = pa_identity a" and init: "pub_run_init H r = Inr r" and "pn_manifest_hash r = Some (args_hash env a)"
    using w env by simp_all
  have rid: "pn_publication_run_id r \<in> run_ids (pd_tables db')" using w by (simp add: run_ids_def)
  have row: "row_get pn_identity (pa_identity a) (pt_runs (pd_tables db')) = Some r"
    using w assms(4) by (simp add: row_get_append)
  have "row_get pm_publication_run_id (pn_publication_run_id r) (pt_manifests (pd_tables db)) = None"
    using w ok(1) by (auto simp: row_get_None tables_closed_def)
  with w have manifest: "get_manifest (pn_publication_run_id r) (pd_tables db') = Some (pa_manifest a)"
    by (auto simp: get_manifest_def row_get_append)
  note reads = grown_reads [OF assms(7) rid]
  show row': "row_get pn_identity (pa_identity a) (pt_runs (pd_tables later)) = Some r" by (rule reads(1) [OF row])
  show "if distinct (map signal_key (pa_signals a))
      then verify_sealed r (pa_manifest a) (pa_signals a) (args_hash env a) (pd_tables later) = Inr ()
      else \<exists>why. verify_sealed r (pa_manifest a) (pa_signals a) (args_hash env a) (pd_tables later) = Inl (ValueError why)"
    by (rule written_verifies [OF wr ok(1) assms(6) [folded env(1)] reads(2) [OF manifest] reads(3)])
  show "read_sealed H (pa_identity a) (pd_tables later) = read_sealed H (pa_identity a) (pd_tables db')"
    by (simp add: read_sealed_def run_by_identity_def row row' init reads(2) [OF manifest] manifest reads(3))
qed

text \<open>
  C4. A publication is sealed. Take a publication of a new identity that succeeded, whose sealed ids do not collide.
  Whatever is published, delivered or stored later, publishing the same manifest, signals and outbox rows again,
  whoever does it and at whatever time, writes nothing; it returns the same run if the signal ids are distinct, and
  raises \<open>ValueError\<close> if one comes twice (see the finding). Publishing content with another hash under the identity is
  refused as a conflict and writes nothing. The run, its manifest and its signals read back as right after the
  publication.
\<close>

theorem publication_sealed:
  assumes "pub_ok H (content_ok senv) (bundle_held senv) bundle_name db" and "en_hash senv = H"
    and "pub_op_ok H bundle_ok bundle_name (Publish_Op env a)"
    and "row_get pn_identity (pa_identity a) (pt_runs (pd_tables db)) = None"
    and "publish env (save_bundle senv J entries) a db db = (Inr r, db')"
    and "unsealed H (pn_publication_run_id r) (pa_signals a) (pd_tables db)"
    and "list_all (pub_op_ok H bundle_ok bundle_name) ops" and "later = pub_run_ops H (save_bundle senv J entries) ops db'"
    and "pe_hash again = H"
  shows "(if distinct (map signal_key (pa_signals a))
      then publish again (save_bundle senv J entries) a later later = (Inr r, later)
      else \<exists>why. publish again (save_bundle senv J entries) a later later = (Inl (ValueError why), later)) \<and>
    read_sealed H (pa_identity a) (pd_tables later) = read_sealed H (pa_identity a) (pd_tables db') \<and>
    (pa_identity other = pa_identity a \<and> args_hash again other \<noteq> args_hash env a \<longrightarrow>
       publish again (save_bundle senv J entries) other later later =
         (Inl (PublicationConflictError ''publication identity already contains a different sealed snapshot/signals payload''), later))"
proof -
  have "db' = pub_step H (save_bundle senv J entries) db (Publish_Op env a)" using assms(5) by (simp add: pub_step_def)
  then have "pub_ok H (content_ok senv) (bundle_held senv) bundle_name db'"
    using bundles.pub_step_ok [OF assms(1,3)] by simp
  then have "grows_from db' later" using bundles.pub_run_ok assms(7,8) by blast
  note p = published_again [OF assms(1-6) this]
  obtain start where start: "pub_run_init H (new_pub_run (pa_identity a)) = Inr start"
    using new_run_init [OF p(2)] p(1) by auto
  have hash: "args_hash again a = args_hash env a" using assms(3,9) by (simp add: args_hash_def)
  have over: "row_get pn_identity (pa_identity a) (pt_runs (pd_tables later)) = Some r" "pub_run_init (pe_hash again) r = Inr r"
    "pub_run_init (pe_hash again) (new_pub_run (pa_identity a)) = Inr start" "pn_manifest_hash r = Some (args_hash again a)"
    using assms(9) p(2-4) hash start by simp_all
  have "if distinct (map signal_key (pa_signals a))
      then publish again (save_bundle senv J entries) a later later = (Inr r, later)
      else \<exists>why. publish again (save_bundle senv J entries) a later later = (Inl (ValueError why), later)"
    using p(5) publish_over(2,3) [OF over] unfolding hash [symmetric] by (metis (no_types, lifting))
  moreover have "publish again (save_bundle senv J entries) other later later =
      (Inl (PublicationConflictError ''publication identity already contains a different sealed snapshot/signals payload''), later)"
    if "pa_identity other = pa_identity a" "args_hash again other \<noteq> args_hash env a"
    using assms(9) p that start by (intro publish_over(1) [where start = start and r = r]) simp_all
  ultimately show ?thesis using p(6) by simp
qed

section \<open>An example\<close>

definition sample_bundle :: snapshot_bundle where
  "sample_bundle =
     \<lparr>bn_snapshot = frame_snapshot, bn_occurrences = [], bn_lifecycle_events = [], bn_verification_results = [],
      bn_verification_jobs = []\<rparr>"

definition sample_content :: content_db where
  "sample_content =
     \<lparr>cb_archive = frame_archive, cb_occurrences = \<lparr>od_rows = [], od_evidence = []\<rparr>, cb_ledger = [],
      cb_verification = \<lparr>vd_jobs = [], vd_results = []\<rparr>\<rparr>"

definition sample_publish_env :: publish_env where
  "sample_publish_env =
     \<lparr>pe_hash = en_hash sample_env, pe_valid = \<lambda>_. Inr (), pe_hook = \<lambda>_. Inr (), pe_now = 0\<rparr>"

definition sample_publication :: "'b \<Rightarrow> 'b publish_args" where
  "sample_publication b =
     \<lparr>pa_identity = (''cs-h'', ''q'', ''p''), pa_manifest = [(''m'', JInt 1)], pa_signals = [[(''signal_id'', JStr ''s1'')]],
      pa_outbox = [[(''signal_id'', JStr ''s1'')]], pa_bundle = b\<rparr>"

definition sample_run :: pub_run where
  "sample_run =
     \<lparr>pn_content_snapshot_id = ''cs-h'', pn_query_hash = ''q'', pn_signal_policy_version = ''p'', pn_state = READY,
      pn_manifest_hash = Some ''h'', pn_version = 4, pn_publication_run_id = ''pub_h''\<rparr>"

lemma sample_hash: "en_hash sample_env s = ''h''"
  by (simp add: sample_env_def)

lemma sample_published:
  assumes "writer b c = Inr c'"
  shows "\<exists>db'. publish sample_publish_env writer (sample_publication b) (empty_db c) (empty_db c) = (Inr sample_run, db') \<and>
    sample_run \<in> set (pt_runs (pd_tables db'))"
  by (simp add: publish_def pub_run_init_def new_pub_run_def pub_run_id_def pn_identity_def sample_publish_env_def
      sample_publication_def sample_hash transaction_def publish_in_session_def publish_new_def sbind_def sread_def sreturn_def
      run_by_identity_def empty_db_def advance_run_def pub_transition_def or_hash_def on_tables_def on_content_def on_outbox_def
      save_run_def row_add_def row_put_def assms save_manifest_def args_hash_def pub_manifest_hash_def seal_signal_rows_def
      save_sealed_signals_def seal_signal_def signal_key_def str_field_def dict_get_def enqueue_rows_def ob_enqueue_def
      ob_insert_ignore_def ob_by_signal_def ob_new_row_def row_get_add Let_def sample_run_def)

lemma write_fresh_snapshot:
  "row_get sn_id (cs_id s) (rc_snapshots db) = None \<Longrightarrow> write_snapshot True env s payload db = write_snapshot False env s payload db"
  by (simp add: write_snapshot_def Let_def cong: option.case_cong)

lemma sample_bundle_saved: "\<exists>c'. save_bundle sample_env J entries sample_bundle sample_content = Inr c'"
proof -
  obtain db' where db': "save_snapshot sample_env frame_snapshot frame_archive = Inr (frame_snapshot, db')"
    using fresh_save [OF frame_built frame_request_fields(1) _ frame_snapshot_clean frame_snapshot_fields(5), of frame_archive]
      frame_archive_valid
    by (auto simp: frame_snapshot_fields frame_request_fields(2) frame_archive_empty snapshot_row_of_def members_of_def)
  then obtain payload where p: "validate_snapshot_candidate (en_hash sample_env) frame_snapshot = Inr payload"
    and w: "write_snapshot False sample_env frame_snapshot payload frame_archive = Inr db'"
    by (auto simp: save_snapshot_def try_bind_Inr_iff)
  have "write_snapshot True sample_env frame_snapshot payload frame_archive = Inr db'"
    using w by (simp add: write_fresh_snapshot frame_archive_empty)
  with p show ?thesis
    by (simp add: save_bundle_def sample_bundle_def sample_content_def save_in_session_def save_verification_bundle_def
        bundle_closure_def frame_snapshot_fields)
qed

lemma sample_op_ok: "pub_op_ok (en_hash sample_env) bundle_ok bundle_name (Publish_Op sample_publish_env (sample_publication sample_bundle))"
  by (simp add: sample_publish_env_def sample_publication_def sample_bundle_def bundle_ok_def bundle_name_def args_hash_def
      pub_manifest_hash_def sample_hash frame_snapshot_fields v2_schema_def)

lemma sample_content_ok: "content_ok sample_env sample_content"
  by (simp add: content_ok_def sample_content_def archive_ok_def frame_archive_ok distinct_slots_def frame_archive_empty)

definition no_entries :: decode_entries where
  "no_entries row = Inr []"

theorem publication_all_or_nothing_witness:
  "\<exists>db. db = pub_run_ops (en_hash sample_env) (save_bundle sample_env isoformat no_entries)
       [Publish_Op sample_publish_env (sample_publication sample_bundle)] (empty_db sample_content) \<and>
     sample_run \<in> set (pt_runs (pd_tables db)) \<and> whole_run (en_hash sample_env) (bundle_held sample_env) bundle_name sample_run db"
proof -
  let ?ops = "[Publish_Op sample_publish_env (sample_publication sample_bundle)]"
  let ?db = "pub_run_ops (en_hash sample_env) (save_bundle sample_env isoformat no_entries) ?ops (empty_db sample_content)"
  obtain c' where "save_bundle sample_env isoformat no_entries sample_bundle sample_content = Inr c'" using sample_bundle_saved by blast
  from sample_published [of "save_bundle sample_env isoformat no_entries", OF this] have mem: "sample_run \<in> set (pt_runs (pd_tables ?db))"
    by (auto simp: pub_run_ops_def pub_step_def)
  have "list_all (pub_op_ok (en_hash sample_env) bundle_ok bundle_name) ?ops" using sample_op_ok by simp
  from publication_all_or_nothing [OF sample_content_ok this refl, where stored = sample_run] mem show ?thesis by auto
qed

theorem publication_sealed_witness:
  "\<exists>db'. publish sample_publish_env (save_bundle sample_env isoformat no_entries) (sample_publication sample_bundle)
       (empty_db sample_content) (empty_db sample_content) = (Inr sample_run, db') \<and>
     publish sample_publish_env (save_bundle sample_env isoformat no_entries) (sample_publication sample_bundle)
       (pub_run_ops (en_hash sample_env) (save_bundle sample_env isoformat no_entries) [Store_Op sample_bundle] db')
       (pub_run_ops (en_hash sample_env) (save_bundle sample_env isoformat no_entries) [Store_Op sample_bundle] db') =
     (Inr sample_run, pub_run_ops (en_hash sample_env) (save_bundle sample_env isoformat no_entries) [Store_Op sample_bundle] db')"
proof -
  let ?a = "sample_publication sample_bundle" and ?w = "save_bundle sample_env isoformat no_entries"
  obtain c' where "?w sample_bundle sample_content = Inr c'" using sample_bundle_saved by blast
  from sample_published [of ?w, OF this] obtain db' where
    db': "publish sample_publish_env ?w ?a (empty_db sample_content) (empty_db sample_content) = (Inr sample_run, db')" by blast
  have u: "unsealed (en_hash sample_env) (pn_publication_run_id sample_run) (pa_signals ?a) (pd_tables (empty_db sample_content))"
    by (simp add: unsealed_def sample_publication_def empty_db_def)
  have none: "row_get pn_identity (pa_identity ?a) (pt_runs (pd_tables (empty_db sample_content))) = None"
    by (simp add: empty_db_def)
  have ops: "list_all (pub_op_ok (en_hash sample_env) bundle_ok bundle_name) [Store_Op sample_bundle]"
    by (simp add: sample_bundle_def bundle_ok_def frame_snapshot_fields v2_schema_def)
  have again: "pe_hash sample_publish_env = en_hash sample_env" by (simp add: sample_publish_env_def)
  have "distinct (map signal_key (pa_signals ?a))" by (simp add: sample_publication_def)
  with publication_sealed [OF empty_db_ok [OF sample_content_ok] refl sample_op_ok none db' u ops refl again] db'
  show ?thesis by auto
qed

end
