(* ===== verification/Claim_History.thy ===== *)
theory Claim_History
  imports Claim_Events Lifecycle
begin

text \<open>
  The point-in-time projection of a claim: \<open>HistoricalClaimProjector\<close> of
  \<open>application/historical_claim_projector.py\<close> over the event chain of \<open>Claim_Events\<close>. The membership of a claim in
  a snapshot and the migration marker of the claim row are arguments, as they are in the code.
\<close>

record projector =
  pj_events :: "claim_event list"
  pj_loader :: "(string \<Rightarrow> claim_event list result) option"
  pj_membership :: "(string \<Rightarrow> string \<Rightarrow> bool) option"
  pj_history_incomplete :: "(string \<Rightarrow> bool) option"
  pj_snapshot_claim_ids :: "(string \<Rightarrow> string list) option"

definition claims_for_snapshot :: "projector \<Rightarrow> string \<Rightarrow> string list" where
  "claims_for_snapshot pj sid =
     (case pj_snapshot_claim_ids pj of None \<Rightarrow> [] | Some f \<Rightarrow> sort (remdups (filter (\<lambda>c. c \<noteq> []) (f sid))))"

definition events_for :: "(string \<Rightarrow> string) \<Rightarrow> projector \<Rightarrow> string \<Rightarrow> claim_event list result" where
  "events_for H pj cid =
     try_bind (case pj_loader pj of
         Some load \<Rightarrow> load cid
       | None \<Rightarrow> Inr (filter (\<lambda>e. ce_claim_id e = cid) (pj_events pj)))
       (validate_event_chain H)"

definition is_history_incomplete :: "(string \<Rightarrow> string) \<Rightarrow> projector \<Rightarrow> string \<Rightarrow> bool result" where
  "is_history_incomplete H pj cid =
     (if (case pj_history_incomplete pj of None \<Rightarrow> False | Some f \<Rightarrow> f cid) then Inr True
      else try_bind (events_for H pj cid) (\<lambda>es. Inr (list_ex ce_legacy_history_incomplete es)))"

text \<open>The three clocks of a query must be aware and in UTC.\<close>

definition query_utc :: "pydt \<Rightarrow> string \<Rightarrow> pydt result" where
  "query_utc t field =
     (case t of
        Naive w \<Rightarrow> Inl (ValueError (field @ '' must be a timezone-aware UTC datetime''))
      | Aware i off \<Rightarrow> try_bind (ensure (off = 0) (ValueError (field @ '' must use UTC timezone''))) (\<lambda>_. Inr (Aware i 0)))"

definition mentions_lifecycle :: "string \<Rightarrow> bool" where
  "mentions_lifecycle s = list_ex (\<lambda>i. take 9 (drop i (upper_text s)) = ''LIFECYCLE'') [0 ..< Suc (length s)]"

text \<open>\<open>state.update(dict(event.payload))\<close> and the three fields of the event.\<close>

definition merge_event :: "pydict \<Rightarrow> claim_event \<Rightarrow> pydict" where
  "merge_event state e =
     AList.update ''event_hash'' (JStr (ce_event_hash e))
       (AList.update ''event_id'' (JStr (ce_event_id e))
         (AList.update ''event_type'' (JStr (ce_event_type e))
           (foldl (\<lambda>d (k, v). AList.update k v d) state (ce_payload e))))"

definition payload_or :: "string \<Rightarrow> string \<Rightarrow> pydict \<Rightarrow> json" where
  "payload_or k k' d =
     (case dict_get k d of
        Some v \<Rightarrow> if py_truthy v then v else (case dict_get k' d of None \<Rightarrow> JNull | Some w \<Rightarrow> w)
      | None \<Rightarrow> (case dict_get k' d of None \<Rightarrow> JNull | Some w \<Rightarrow> w))"

definition finish_state :: "pydict \<Rightarrow> bool \<Rightarrow> pydict" where
  "finish_state state incomplete =
     AList.update ''legacy_history_incomplete'' (JBool incomplete) (AList.update ''payload'' (JObj state) state)"

definition last_lifecycle :: "claim_event list \<Rightarrow> claim_event option" where
  "last_lifecycle es = (let ls = filter (\<lambda>e. mentions_lifecycle (ce_event_type e)) es in if ls = [] then None else Some (last ls))"

definition project_events :: "string \<Rightarrow> string option \<Rightarrow> claim_event list \<Rightarrow> pydict option" where
  "project_events cid sid candidates =
     (if candidates = [] then None
      else let state = foldl merge_event [(''claim_id'', JStr cid), (''content_snapshot_id'', jopt sid)] candidates in
        case last_lifecycle candidates of
          None \<Rightarrow> Some (finish_state state False)
        | Some e \<Rightarrow>
            let status = payload_or ''status'' ''to_status'' (ce_payload e);
                artifact = payload_or ''artifact_id'' ''lifecycle_artifact_id'' (ce_payload e)
            in case ce_known_from e of
                 None \<Rightarrow> Some (finish_state state True)
               | Some known \<Rightarrow>
                   if \<not> py_truthy status \<or> \<not> py_truthy artifact then Some (finish_state state True)
                   else let state = AList.update ''lifecycle_as_of'' (JObj
                            [(''status'', JStr (py_str status)), (''known_from'', JStr (utc_text known)),
                             (''artifact_id'', JStr (py_str artifact))]) state;
                            state = AList.update ''status'' (JStr (py_str status)) state
                        in Some (finish_state state (list_ex ce_legacy_history_incomplete candidates)))"

definition project ::
  "(string \<Rightarrow> string) \<Rightarrow> projector \<Rightarrow> string \<Rightarrow> pydt \<Rightarrow> pydt \<Rightarrow> pydt \<Rightarrow> string option \<Rightarrow> pydict option result" where
  "project H pj cid business knowledge availability sid =
     try_bind (query_utc business ''business_as_of'') (\<lambda>business.
     try_bind (query_utc knowledge ''knowledge_as_of'') (\<lambda>knowledge.
     try_bind (query_utc availability ''availability_as_of'') (\<lambda>availability.
       if truthy sid \<and> (case pj_membership pj of None \<Rightarrow> True | Some member \<Rightarrow> \<not> member (str_or sid []) cid) then Inr None
       else try_bind (is_history_incomplete H pj cid) (\<lambda>incomplete.
         if incomplete
         then Inr (Some [(''claim_id'', JStr cid), (''content_snapshot_id'', jopt sid), (''legacy_history_incomplete'', JBool True)])
         else try_bind (events_for H pj cid) (\<lambda>es.
           Inr (project_events cid sid
             (filter (\<lambda>e. ce_visible_at e (instant_of business) (instant_of knowledge) (instant_of availability)) es)))))))"

text \<open>The projector of \<open>api/dependencies.py\<close> reads the table of events.\<close>

definition table_projector ::
  "(string \<Rightarrow> string) \<Rightarrow> (string \<Rightarrow> string \<Rightarrow> bool) \<Rightarrow> (string \<Rightarrow> bool) \<Rightarrow> (string \<Rightarrow> string list) \<Rightarrow> claim_event list \<Rightarrow> projector" where
  "table_projector H member marked claims tbl =
     \<lparr>pj_events = [], pj_loader = Some (\<lambda>cid. list_for_claim H cid tbl), pj_membership = Some member,
      pj_history_incomplete = Some marked, pj_snapshot_claim_ids = Some claims\<rparr>"

section \<open>Projections answer about the past\<close>

definition event_step :: "(string \<Rightarrow> string) \<Rightarrow> claim_event list \<Rightarrow> claim_event \<Rightarrow> claim_event list" where
  "event_step H tbl e = (case event_append H e tbl of Inl _ \<Rightarrow> tbl | Inr (_, tbl') \<Rightarrow> tbl')"

text \<open>
  An event as its constructor leaves it, which was not known at a time: it became known later or, as only an event
  marked legacy may, has no such time.
\<close>

definition later_event :: "(string \<Rightarrow> string) \<Rightarrow> instant \<Rightarrow> claim_event \<Rightarrow> bool" where
  "later_event H k e \<longleftrightarrow>
     ce_init H e = Inr e \<and> ce_event_hash e \<noteq> [] \<and> (case ce_known_from e of None \<Rightarrow> True | Some f \<Rightarrow> k < instant_of f)"

lemma later_not_visible: "later_event H k e \<Longrightarrow> \<not> ce_visible_at e b k a"
  by (auto simp: later_event_def ce_visible_iff split: option.splits)

lemma event_step_table:
  assumes "hashes_ok tbl" and "ce_event_hash e \<noteq> []"
  shows "hashes_ok (event_step H tbl e)" and "event_step H tbl e = tbl \<or> event_step H tbl e = tbl @ [e]"
  using assms
  by (auto simp: event_step_def event_append_def Let_def row_add_def hashes_ok_def try_bind_Inr_iff
      split: sum.splits option.splits if_splits)

text \<open>
  What an append of a later event does to a claim that has events: its chain is extended, at most by that event, and
  rows that do not validate stay as they are.
\<close>

lemma event_step_chain:
  assumes "hashes_ok tbl" and "stored_chain H cid tbl = Inr es" and "es \<noteq> []" and "later_event H k e"
  shows "\<exists>more. stored_chain H cid (event_step H tbl e) = Inr (es @ more) \<and> set more \<subseteq> {e} \<inter> {e. ce_claim_id e = cid}"
proof (cases "event_append H e tbl")
  case (Inl err)
  with assms(2) show ?thesis by (intro exI [of _ "[]"]) (simp add: event_step_def)
next
  case (Inr st)
  obtain stored tbl' where st: "st = (stored, tbl')" by fastforce
  then have step: "event_step H tbl e = tbl'" using Inr by (simp add: event_step_def)
  note later = assms(4) [unfolded later_event_def]
  show ?thesis
  proof (cases "ce_claim_id e = cid")
    case True
    have "tbl' = tbl \<or> stored_chain H cid tbl' = Inr (es @ [e])"
      using event_append_extends_chain [OF assms(1) _ _ _ Inr [unfolded st], of es] later assms(2,3) True by auto
    then show ?thesis
    proof
      assume "tbl' = tbl"
      with step assms(2) show ?thesis by (intro exI [of _ "[]"]) simp
    next
      assume "stored_chain H cid tbl' = Inr (es @ [e])"
      with step True show ?thesis by (intro exI [of _ "[e]"]) simp
    qed
  next
    case False
    have "event_step H tbl e = tbl \<or> event_step H tbl e = tbl @ [e]"
      using event_step_table(2) [OF assms(1)] later by blast
    then have "claim_rows cid (event_step H tbl e) = claim_rows cid tbl"
      using False by (auto simp: claim_rows_def)
    with assms(2) show ?thesis by (intro exI [of _ "[]"]) (simp add: stored_chain_def)
  qed
qed

lemma event_step_broken:
  assumes "hashes_ok tbl" and "stored_chain H cid tbl = Inl err" and "later_event H k e"
  shows "stored_chain H cid (event_step H tbl e) = Inl err"
proof (cases "ce_claim_id e = cid")
  case True
  with assms(2) have "event_step H tbl e = tbl"
    by (auto simp: event_step_def event_append_def try_bind_Inr_iff split: sum.splits option.splits if_splits)
  with assms(2) show ?thesis by simp
next
  case False
  have "event_step H tbl e = tbl \<or> event_step H tbl e = tbl @ [e]"
    using event_step_table(2) [OF assms(1)] assms(3) by (auto simp: later_event_def)
  then have "claim_rows cid (event_step H tbl e) = claim_rows cid tbl" using False by (auto simp: claim_rows_def)
  with assms(2) show ?thesis by (simp add: stored_chain_def)
qed

lemma event_run_hashes:
  assumes "hashes_ok tbl" and "list_all (later_event H k) later"
  shows "hashes_ok (foldl (event_step H) tbl later)"
  using assms by (induction later arbitrary: tbl) (simp_all add: event_step_table(1) later_event_def)

lemma event_run_chain:
  assumes "hashes_ok tbl" and "stored_chain H cid tbl = Inr es" and "es \<noteq> []" and "list_all (later_event H k) later"
  shows "\<exists>more. stored_chain H cid (foldl (event_step H) tbl later) = Inr (es @ more) \<and>
    set more \<subseteq> set later \<inter> {e. ce_claim_id e = cid}"
  using assms(4)
proof (induction later rule: rev_induct)
  case Nil
  with assms show ?case by (intro exI [of _ "[]"]) simp
next
  case (snoc e later)
  let ?t = "foldl (event_step H) tbl later"
  from snoc.prems have all: "list_all (later_event H k) later" and e: "later_event H k e" by simp_all
  obtain more where more: "stored_chain H cid ?t = Inr (es @ more)" "set more \<subseteq> set later \<inter> {e. ce_claim_id e = cid}"
    using snoc.IH [OF all] by blast
  have "es @ more \<noteq> []" using assms(3) by simp
  from event_step_chain [OF event_run_hashes [OF assms(1) all] more(1) this e] obtain more' where
    "stored_chain H cid (event_step H ?t e) = Inr ((es @ more) @ more')" "set more' \<subseteq> {e} \<inter> {e. ce_claim_id e = cid}" by blast
  with more(2) show ?case by (intro exI [of _ "more @ more'"]) auto
qed

lemma event_run_broken:
  assumes "hashes_ok tbl" and "stored_chain H cid tbl = Inl err" and "list_all (later_event H k) later"
  shows "stored_chain H cid (foldl (event_step H) tbl later) = Inl err"
  using assms(3)
proof (induction later rule: rev_induct)
  case (snoc e later)
  then have "list_all (later_event H k) later" "later_event H k e" by simp_all
  with snoc.IH event_step_broken [OF event_run_hashes [OF assms(1)]] show ?case by simp
qed (simp add: assms(2))

lemma stored_chain_validates: "stored_chain H cid tbl = Inr es \<Longrightarrow> validate_event_chain H es = Inr es"
proof -
  assume "stored_chain H cid tbl = Inr es"
  then obtain evs where "validate_event_chain H evs = Inr es" by (auto simp: stored_chain_def try_bind_Inr_iff)
  note v = chain_validation_iff [of H evs es, THEN iffD1, OF this]
  have "mset (map ce_previous_event_hash evs) = mset (map ce_previous_event_hash es)" using v by simp
  then have "distinct (map ce_previous_event_hash es)" using v mset_eq_imp_distinct_iff by blast
  with v show "validate_event_chain H es = Inr es" by (auto simp: chain_validation_iff)
qed

lemma table_events_for:
  assumes "stored_chain H cid tbl = Inr es"
  shows "events_for H (table_projector H member marked claims tbl) cid = Inr es"
  using assms stored_chain_validates [OF assms] by (simp add: events_for_def table_projector_def list_for_claim_def)

lemma chain_of_rows: "stored_chain H cid tbl = Inr es \<Longrightarrow> claim_rows cid tbl \<noteq> [] \<Longrightarrow> es \<noteq> []"
proof -
  assume "stored_chain H cid tbl = Inr es" "claim_rows cid tbl \<noteq> []"
  then obtain evs where "evs \<noteq> []" "validate_event_chain H evs = Inr es"
    by (cases "claim_rows cid tbl") (auto simp: stored_chain_def try_bind_Inr_iff events_from_rows_def)
  then show "es \<noteq> []" by (auto simp: chain_validation_iff)
qed

text \<open>The answer for a claim with the migration marker or a legacy event: an explicit deny.\<close>

definition denied :: "string \<Rightarrow> string option \<Rightarrow> pydict" where
  "denied cid sid = [(''claim_id'', JStr cid), (''content_snapshot_id'', jopt sid), (''legacy_history_incomplete'', JBool True)]"

lemma broken_projector:
  assumes "stored_chain H cid tbl = Inl err"
  shows "events_for H (table_projector H member marked claims tbl) cid = Inl err"
  using assms by (simp add: events_for_def table_projector_def list_for_claim_def)

lemma project_cong:
  assumes "events_for H (table_projector H member marked claims tbl') cid = events_for H (table_projector H member marked claims tbl) cid"
  shows "project H (table_projector H member marked claims tbl') cid business knowledge availability sid =
    project H (table_projector H member marked claims tbl) cid business knowledge availability sid"
proof -
  have "pj_membership (table_projector H member marked claims t) = Some member"
    "pj_history_incomplete (table_projector H member marked claims t) = Some marked" for t
    by (simp_all add: table_projector_def)
  then show ?thesis unfolding project_def is_history_incomplete_def assms by simp
qed

text \<open>
  A formal projection is reproducible. For a claim that has an event, events that are appended later, for whatever
  claim, accepted or refused, and became known after the knowledge clock of a query leave what the query projects as
  it is, a chain that does not validate included, except that a later event of the claim that is marked legacy turns
  it into the explicit deny.
\<close>

lemma projection_reproducible:
  assumes "hashes_ok tbl" and "claim_rows cid tbl \<noteq> []" and "list_all (later_event H (instant_of knowledge)) later"
  shows "project H (table_projector H member marked claims (foldl (event_step H) tbl later)) cid business knowledge availability sid =
      project H (table_projector H member marked claims tbl) cid business knowledge availability sid \<or>
    (\<exists>e \<in> set later. ce_claim_id e = cid \<and> ce_legacy_history_incomplete e) \<and>
    project H (table_projector H member marked claims (foldl (event_step H) tbl later)) cid business knowledge availability sid =
      Inr (Some (denied cid sid))"
proof (cases "stored_chain H cid tbl")
  case (Inl err)
  with event_run_broken [OF assms(1) Inl assms(3)] show ?thesis
    by (intro disjI1 project_cong) (simp add: broken_projector)
next
  case (Inr es)
  let ?pj = "\<lambda>tbl. table_projector H member marked claims tbl" and ?new = "foldl (event_step H) tbl later"
  obtain more where more: "stored_chain H cid ?new = Inr (es @ more)" "set more \<subseteq> set later \<inter> {e. ce_claim_id e = cid}"
    using event_run_chain [OF assms(1) Inr chain_of_rows [OF Inr assms(2)] assms(3)] by blast
  note old = table_events_for [OF Inr, of member marked claims]
  note new = table_events_for [OF more(1), of member marked claims]
  have fields: "pj_membership (?pj t) = Some member" "pj_history_incomplete (?pj t) = Some marked" for t
    by (simp_all add: table_projector_def)
  have clock: "instant_of k' = instant_of knowledge" if "query_utc knowledge f = Inr k'" for f k'
    using that by (cases knowledge) (auto simp: query_utc_def try_bind_Inr_iff)
  have vis: "filter (\<lambda>e. ce_visible_at e b (instant_of knowledge) a) more = []" for b a
    using more(2) assms(3) later_not_visible by (fastforce simp: filter_empty_conv list_all_iff)
  show ?thesis
  proof (cases "list_ex ce_legacy_history_incomplete more")
    case False
    then have "is_history_incomplete H (?pj ?new) cid = is_history_incomplete H (?pj tbl) cid"
      by (simp add: is_history_incomplete_def old new fields)
    then have "project H (?pj ?new) cid business knowledge availability sid = project H (?pj tbl) cid business knowledge availability sid"
      unfolding project_def old new fields
      by (cases "query_utc knowledge ''knowledge_as_of''") (auto simp: vis clock split: try_bind_split)
    then show ?thesis ..
  next
    case True
    then have legacy: "\<exists>e \<in> set later. ce_claim_id e = cid \<and> ce_legacy_history_incomplete e"
      using more(2) by (auto simp: list_ex_iff)
    have inc: "is_history_incomplete H (?pj ?new) cid = Inr True"
      using True by (simp add: is_history_incomplete_def new fields)
    have "project H (?pj ?new) cid business knowledge availability sid = project H (?pj tbl) cid business knowledge availability sid \<or>
        project H (?pj ?new) cid business knowledge availability sid = Inr (Some (denied cid sid))"
      unfolding project_def inc fields by (simp add: denied_def split: try_bind_split)
    with legacy show ?thesis by blast
  qed
qed

text \<open>
  The lifecycle status of a projection is the one of the last visible lifecycle event, whatever later events of
  other streams carry under the same key, and it is given with the artifact and the time it was known from.
\<close>

theorem projection_lifecycle_status:
  assumes "project_events cid sid candidates = Some state" and "last_lifecycle candidates = Some e"
    and "ce_known_from e = Some known" and "status = payload_or ''status'' ''to_status'' (ce_payload e)"
    and "artifact = payload_or ''artifact_id'' ''lifecycle_artifact_id'' (ce_payload e)"
    and "py_truthy status" and "py_truthy artifact"
  shows "dict_get ''status'' state = Some (JStr (py_str status)) \<and>
    dict_get ''lifecycle_as_of'' state = Some (JObj [(''status'', JStr (py_str status)), (''known_from'', JStr (utc_text known)),
      (''artifact_id'', JStr (py_str artifact))]) \<and>
    dict_get ''event_id'' state = Some (JStr (ce_event_id (last candidates))) \<and>
    dict_get ''legacy_history_incomplete'' state = Some (JBool (list_ex ce_legacy_history_incomplete candidates))"
proof -
  have ne: "candidates \<noteq> []" using assms(1) by (auto simp: project_events_def)
  then obtain cs c where cs: "candidates = cs @ [c]" by (cases candidates rule: rev_cases) auto
  let ?state = "foldl merge_event [(''claim_id'', JStr cid), (''content_snapshot_id'', jopt sid)] candidates"
  have last: "dict_get ''event_id'' ?state = Some (JStr (ce_event_id c))"
    by (simp add: cs merge_event_def dict_get_def update_conv')
  have "last candidates = c" by (simp add: cs)
  moreover have "state = finish_state (AList.update ''status'' (JStr (py_str status))
      (AList.update ''lifecycle_as_of'' (JObj [(''status'', JStr (py_str status)), (''known_from'', JStr (utc_text known)),
        (''artifact_id'', JStr (py_str artifact))]) ?state)) (list_ex ce_legacy_history_incomplete candidates)"
    using assms(1,6,7) ne by (simp add: project_events_def Let_def assms(2,3) flip: assms(4,5))
  ultimately show ?thesis using last by (simp add: finish_state_def dict_get_def update_conv')
qed

text \<open>An example: a lifecycle event followed by a verification event that carries a status of its own.\<close>

definition history_event :: "string \<Rightarrow> string \<Rightarrow> claim_event" where
  "history_event kind status =
     (example_event None status)\<lparr>ce_event_type := kind, ce_payload := [(''status'', JStr status), (''artifact_id'', JStr ''a'')]\<rparr>"

theorem projection_lifecycle_status_witness:
  "\<exists>state. project_events ''c'' None [history_event ''LIFECYCLE'' ''ACTIVE'', history_event ''VERIFICATION'' ''VERIFIED''] = Some state \<and>
     dict_get ''status'' state = Some (JStr ''ACTIVE'')"
proof -
  let ?es = "[history_event ''LIFECYCLE'' ''ACTIVE'', history_event ''VERIFICATION'' ''VERIFIED'']"
  let ?e = "history_event ''LIFECYCLE'' ''ACTIVE''"
  have k: "ce_known_from ?e \<noteq> None" and p: "ce_payload ?e = [(''status'', JStr ''ACTIVE''), (''artifact_id'', JStr ''a'')]"
    by (simp_all add: history_event_def example_event_def)
  have life: "last_lifecycle ?es = Some ?e" by code_simp
  have "project_events ''c'' None ?es \<noteq> None" by code_simp
  then obtain state where state: "project_events ''c'' None ?es = Some state" by blast
  from k obtain known where known: "ce_known_from ?e = Some known" by blast
  have "py_truthy (payload_or ''status'' ''to_status'' (ce_payload ?e))"
    "py_truthy (payload_or ''artifact_id'' ''lifecycle_artifact_id'' (ce_payload ?e))"
    "py_str (payload_or ''status'' ''to_status'' (ce_payload ?e)) = ''ACTIVE''"
    unfolding p by code_simp+
  with projection_lifecycle_status [OF state life known refl refl] state show ?thesis by auto
qed

end
