(* ===== verification/Formal_Query.thy ===== *)
theory Formal_Query
  imports Artifact_Store Claim_Occurrence Claim_History
begin

text \<open>
  Formal point-in-time queries: the canonical query of \<open>domain/bitemporal_query.py\<close> with its identity and its reader,
  and the query service of \<open>application/formal_signal_query.py\<close>. The signal authority that answers a query and the
  membership of a claim in a snapshot are arguments. A query is read from a JSON object.
\<close>

section \<open>Queries\<close>

record formal_query =
  fq_contract :: string
  fq_request_id :: string
  fq_symbols :: "string list"
  fq_business_as_of :: pydt
  fq_knowledge_as_of :: pydt
  fq_availability_as_of :: pydt
  fq_content_snapshot_id :: string
  fq_pit_mode :: string
  fq_min_support :: json
  fq_signal_policy_version :: string
  fq_start :: "pydt option"
  fq_end :: "pydt option"

definition formal_contract :: string where
  "formal_contract = ''content-factor-signal.v5.1''"

definition public_strict :: string where
  "public_strict = ''PUBLIC_STRICT''"

definition query_utc_opt :: "pydt option \<Rightarrow> string \<Rightarrow> pydt option result" where
  "query_utc_opt t what = (case t of None \<Rightarrow> Inr None | Some d \<Rightarrow> try_bind (query_utc d what) (\<lambda>u. Inr (Some u)))"

definition non_empty_text :: "string \<Rightarrow> string \<Rightarrow> unit result" where
  "non_empty_text s what = ensure (strip s \<noteq> []) (ValueError (what @ '' must be a non-empty string''))"

definition query_symbols :: "string list \<Rightarrow> string list" where
  "query_symbols ss = sorted_set (filter (\<lambda>s. s \<noteq> []) (map strip ss))"

definition query_init :: "formal_query \<Rightarrow> formal_query result" where
  "query_init q =
     try_bind (ensure (fq_contract q = formal_contract) (ValueError (''contract must be '' @ formal_contract))) (\<lambda>_.
     try_bind (non_empty_text (fq_request_id q) ''request_id'') (\<lambda>_.
     try_bind (non_empty_text (fq_content_snapshot_id q) ''content_snapshot_id'') (\<lambda>_.
     try_bind (non_empty_text (fq_signal_policy_version q) ''signal_policy_version'') (\<lambda>_.
     try_bind (ensure (fq_pit_mode q = public_strict) (ValueError ''formal queries require pit_mode=PUBLIC_STRICT'')) (\<lambda>_.
     let symbols = query_symbols (fq_symbols q) in
     try_bind (ensure (symbols \<noteq> []) (ValueError ''symbols must not be empty'')) (\<lambda>_.
     try_bind (ensure (case fq_min_support q of JInt n \<Rightarrow> 1 \<le> n | _ \<Rightarrow> False)
       (ValueError ''min_support must be a positive integer'')) (\<lambda>_.
     try_bind (query_utc (fq_business_as_of q) ''business_as_of'') (\<lambda>business.
     try_bind (query_utc (fq_knowledge_as_of q) ''knowledge_as_of'') (\<lambda>knowledge.
     try_bind (query_utc (fq_availability_as_of q) ''availability_as_of'') (\<lambda>availability.
     try_bind (query_utc_opt (fq_start q) ''start'') (\<lambda>start.
     try_bind (query_utc_opt (fq_end q) ''end'') (\<lambda>stop.
     try_bind (ensure (\<not> opt_after start stop) (ValueError ''start must not be after end'')) (\<lambda>_.
       Inr (q\<lparr>fq_symbols := symbols, fq_business_as_of := business, fq_knowledge_as_of := knowledge,
              fq_availability_as_of := availability, fq_start := start, fq_end := stop\<rparr>))))))))))))))"

definition canonical_request :: "formal_query \<Rightarrow> pydict" where
  "canonical_request q =
     [(''contract'', JStr (fq_contract q)), (''request_id'', JStr (fq_request_id q)), (''symbols'', jstrs (fq_symbols q)),
      (''business_as_of'', JStr (utc_text (fq_business_as_of q))), (''knowledge_as_of'', JStr (utc_text (fq_knowledge_as_of q))),
      (''availability_as_of'', JStr (utc_text (fq_availability_as_of q))),
      (''content_snapshot_id'', JStr (fq_content_snapshot_id q)), (''pit_mode'', JStr (fq_pit_mode q)),
      (''min_support'', fq_min_support q), (''signal_policy_version'', JStr (fq_signal_policy_version q))] @
     (case fq_start q of None \<Rightarrow> [] | Some t \<Rightarrow> [(''start'', JStr (utc_text t))]) @
     (case fq_end q of None \<Rightarrow> [] | Some t \<Rightarrow> [(''end'', JStr (utc_text t))])"

definition query_text :: "formal_query \<Rightarrow> string" where
  "query_text q = canonical_json (JObj (canonical_request q))"

definition query_id :: "(string \<Rightarrow> string) \<Rightarrow> formal_query \<Rightarrow> string" where
  "query_id H q = ''query_'' @ H (query_text q)"

section \<open>Reading a query\<close>

definition query_required :: "string list" where
  "query_required =
     [''contract'', ''request_id'', ''symbols'', ''business_as_of'', ''knowledge_as_of'', ''availability_as_of'',
      ''content_snapshot_id'', ''pit_mode'', ''min_support'']"

fun comma_list :: "string list \<Rightarrow> string" where
  "comma_list [] = []"
| "comma_list [s] = s"
| "comma_list (s # ss) = s @ '', '' @ comma_list ss"

text \<open>\<open>tuple(value["symbols"])\<close>: a text is a tuple of its characters.\<close>

definition symbol_tuple :: "json \<Rightarrow> string list result" where
  "symbol_tuple v =
     (case v of
        JArr xs \<Rightarrow> Inr (map py_str xs)
      | JStr s \<Rightarrow> Inr (map (\<lambda>c. [c]) s)
      | JObj d \<Rightarrow> Inr (map fst d)
      | _ \<Rightarrow> Inl (TypeError ''object is not iterable''))"

definition parse_query_time :: "json \<Rightarrow> string \<Rightarrow> pydt result" where
  "parse_query_time v what =
     (case v of
        JStr s \<Rightarrow>
          (case from_isoformat (replace_from 0 ''Z'' ''+00:00'' s) of
             Inr t \<Rightarrow> Inr t
           | Inl _ \<Rightarrow> Inl (ValueError (what @ '' must be an RFC3339 datetime'')))
      | _ \<Rightarrow> Inl (ValueError (what @ '' must be an RFC3339 datetime'')))"

definition parse_optional_time :: "json \<Rightarrow> string \<Rightarrow> pydt option result" where
  "parse_optional_time v what = (if v = JNull then Inr None else try_bind (parse_query_time v what) (\<lambda>t. Inr (Some t)))"

definition query_from_mapping :: "pydict \<Rightarrow> formal_query result" where
  "query_from_mapping d =
     (let missing = filter (\<lambda>k. field k d = JNull) query_required in
      try_bind (ensure (missing = []) (ValueError (''formal query missing '' @ comma_list missing))) (\<lambda>_.
      try_bind (symbol_tuple (field ''symbols'' d)) (\<lambda>symbols.
      try_bind (parse_query_time (field ''business_as_of'' d) ''business_as_of'') (\<lambda>business.
      try_bind (parse_query_time (field ''knowledge_as_of'' d) ''knowledge_as_of'') (\<lambda>knowledge.
      try_bind (parse_query_time (field ''availability_as_of'' d) ''availability_as_of'') (\<lambda>availability.
      try_bind (parse_optional_time (field ''start'' d) ''start'') (\<lambda>start.
      try_bind (parse_optional_time (field ''end'' d) ''end'') (\<lambda>stop.
        query_init
          \<lparr>fq_contract = py_str (field ''contract'' d), fq_request_id = py_str (field ''request_id'' d),
           fq_symbols = symbols, fq_business_as_of = business, fq_knowledge_as_of = knowledge,
           fq_availability_as_of = availability, fq_content_snapshot_id = py_str (field ''content_snapshot_id'' d),
           fq_pit_mode = py_str (field ''pit_mode'' d), fq_min_support = field ''min_support'' d,
           fq_signal_policy_version = str_field ''signal_policy_version'' ''signal-policy.v1'' d,
           fq_start = start, fq_end = stop\<rparr>))))))))"

section \<open>The query service\<close>

record query_result =
  qr_query_id :: string
  qr_content_snapshot_id :: string
  qr_clocks :: "(string \<times> string) list"
  qr_items :: "pydict list"

definition item_claim :: "pydict \<Rightarrow> string" where
  "item_claim item = str_field ''claim_id'' [] item"

definition execute_query ::
  "(string \<Rightarrow> string) \<Rightarrow> (formal_query \<Rightarrow> pydict list) option \<Rightarrow> (string \<Rightarrow> string \<Rightarrow> bool) option \<Rightarrow> formal_query \<Rightarrow> query_result" where
  "execute_query H authority membership q =
     (let rows = (case authority of None \<Rightarrow> [] | Some f \<Rightarrow> f q) in
      \<lparr>qr_query_id = query_id H q, qr_content_snapshot_id = fq_content_snapshot_id q,
       qr_clocks =
         [(''business_as_of'', utc_text (fq_business_as_of q)), (''knowledge_as_of'', utc_text (fq_knowledge_as_of q)),
          (''availability_as_of'', utc_text (fq_availability_as_of q))],
       qr_items = filter (\<lambda>item. item_claim item \<noteq> [] \<and>
         (case membership of None \<Rightarrow> False | Some member \<Rightarrow> member (fq_content_snapshot_id q) (item_claim item))) rows\<rparr>)"

definition query_mapping ::
  "(string \<Rightarrow> string) \<Rightarrow> (formal_query \<Rightarrow> pydict list) option \<Rightarrow> (string \<Rightarrow> string \<Rightarrow> bool) option \<Rightarrow> pydict \<Rightarrow> query_result result" where
  "query_mapping H authority membership d =
     try_bind (query_from_mapping d) (\<lambda>q. Inr (execute_query H authority membership q))"

section \<open>The UTC text of a clock\<close>

definition plain_char :: "char \<Rightarrow> bool" where
  "plain_char c \<longleftrightarrow> c \<noteq> CHR ''+''"

lemma no_plus_pad: "list_all plain_char (pad w n)"
proof -
  have "plain_char c" if "int_char c" for c using that by (auto simp: int_char_def plain_char_def)
  then have "list_all plain_char (int_str n)" using int_str_chars [of n] by (simp add: list_all_iff)
  moreover have "plain_char (CHR ''0'')" by (simp add: plain_char_def)
  ultimately show ?thesis by (auto simp: pad_def Let_def list_all_iff)
qed

lemma offset_str_0: "offset_str 0 = ''+00:00''"
  by code_simp

lemma isoformat_utc: "isoformat (Aware t 0) = isoformat (Naive t) @ ''+00:00''"
  unfolding isoformat_def date_of_def wall_us_def Let_def by (simp add: offset_str_0)

lemma no_plus_naive: "list_all plain_char (isoformat (Naive t))"
  unfolding isoformat_def Let_def date_str_def
  using no_plus_pad by (cases "date_of (Naive t)") (simp add: plain_char_def)

lemma replace_after:
  "list_all plain_char s \<Longrightarrow> replace_from 0 ''+00:00'' new (s @ ''+00:00'') = s @ new"
proof (induction s)
  case (Cons c s)
  then show ?case by (cases s) (auto simp: plain_char_def)
qed simp

lemma utc_text_utc: "utc_text (Aware t 0) = isoformat (Naive t) @ ''Z''"
  using replace_after [OF no_plus_naive, of "''Z''" t] by (simp add: utc_text_def isoformat_utc)

lemma utc_text_inj:
  assumes "datetime_ok (Aware t 0)" and "datetime_ok (Aware t' 0)" and "utc_text (Aware t 0) = utc_text (Aware t' 0)"
  shows "t = t'"
proof -
  have "datetime_ok (Naive t)" "datetime_ok (Naive t')"
    using assms(1,2) by (auto simp: datetime_ok_def date_of_def wall_us_def)
  moreover have "isoformat (Naive t) = isoformat (Naive t')" using assms(3) by (simp add: utc_text_utc)
  ultimately have "(Inr (Naive t) :: exn + pydt) = Inr (Naive t')" by (metis iso_roundtrip)
  then show ?thesis by simp
qed

section \<open>Identity of a query\<close>

text \<open>A query whose clocks are datetimes Python can represent.\<close>

definition query_clocks_ok :: "formal_query \<Rightarrow> bool" where
  "query_clocks_ok q \<longleftrightarrow>
     datetime_ok (fq_business_as_of q) \<and> datetime_ok (fq_knowledge_as_of q) \<and> datetime_ok (fq_availability_as_of q) \<and>
     (case fq_start q of None \<Rightarrow> True | Some t \<Rightarrow> datetime_ok t) \<and> (case fq_end q of None \<Rightarrow> True | Some t \<Rightarrow> datetime_ok t)"

definition is_utc :: "pydt \<Rightarrow> bool" where
  "is_utc t \<longleftrightarrow> (case t of Naive w \<Rightarrow> False | Aware i off \<Rightarrow> off = 0)"

lemma query_utc_ok: "query_utc t what = Inr u \<longleftrightarrow> is_utc t \<and> u = t"
  by (cases t) (auto simp: query_utc_def is_utc_def try_bind_Inr_iff ensure_def)

lemma query_utc_opt_ok: "query_utc_opt t what = Inr u \<longleftrightarrow> u = t \<and> (\<forall>d. t = Some d \<longrightarrow> is_utc d)"
  by (cases t) (auto simp: query_utc_opt_def try_bind_Inr_iff query_utc_ok)

text \<open>What construction checks, and that it only rewrites the symbols.\<close>

definition query_ok :: "formal_query \<Rightarrow> bool" where
  "query_ok q \<longleftrightarrow>
     fq_contract q = formal_contract \<and> strip (fq_request_id q) \<noteq> [] \<and> strip (fq_content_snapshot_id q) \<noteq> [] \<and>
     strip (fq_signal_policy_version q) \<noteq> [] \<and> fq_pit_mode q = public_strict \<and> query_symbols (fq_symbols q) \<noteq> [] \<and>
     (case fq_min_support q of JInt n \<Rightarrow> 1 \<le> n | _ \<Rightarrow> False) \<and>
     is_utc (fq_business_as_of q) \<and> is_utc (fq_knowledge_as_of q) \<and> is_utc (fq_availability_as_of q) \<and>
     (\<forall>d. fq_start q = Some d \<longrightarrow> is_utc d) \<and> (\<forall>d. fq_end q = Some d \<longrightarrow> is_utc d) \<and>
     \<not> opt_after (fq_start q) (fq_end q)"

lemma query_init_ok: "query_init q = Inr r \<longleftrightarrow> query_ok q \<and> r = q\<lparr>fq_symbols := query_symbols (fq_symbols q)\<rparr>"
  unfolding query_init_def query_ok_def non_empty_text_def Let_def
  by (auto simp: try_bind_Inr_iff query_utc_ok query_utc_opt_ok ensure_def split: if_splits)

lemma dropWhile_hd: "dropWhile P xs = [] \<or> \<not> P (hd (dropWhile P xs))"
  by (induction xs) simp_all

lemma dropWhile_idem: "dropWhile P (dropWhile P xs) = dropWhile P xs"
  by (induction xs) simp_all

lemma strip_idem: "strip (strip s) = strip s"
proof -
  define u where "u = dropWhile is_space s"
  have t: "strip s = rev (dropWhile is_space (rev u))" by (simp add: strip_def u_def)
  obtain v where v: "u = strip s @ v"
    by (metis t rev_append rev_rev_ident takeWhile_dropWhile_id)
  have "dropWhile is_space (strip s) = strip s"
  proof (cases "strip s")
    case (Cons c cs)
    with v have "hd (dropWhile is_space s) = c" "dropWhile is_space s \<noteq> []" by (simp_all add: u_def)
    then have "\<not> is_space c" using dropWhile_hd [of is_space s] by (metis)
    with Cons show ?thesis by simp
  qed simp
  moreover have "dropWhile is_space (rev (strip s)) = rev (strip s)" by (simp add: t dropWhile_idem)
  ultimately show ?thesis by (simp add: strip_def [of "strip s"])
qed

lemma query_symbols_idem: "query_symbols (query_symbols ss) = query_symbols ss"
proof -
  have "strip t = t \<and> t \<noteq> []" if "t \<in> set (query_symbols ss)" for t
    using that by (auto simp: query_symbols_def set_sorted_set strip_idem)
  then have "map strip (query_symbols ss) = query_symbols ss" "filter (\<lambda>s. s \<noteq> []) (query_symbols ss) = query_symbols ss"
    by (auto intro!: map_idI simp: filter_id_conv)
  then have "filter (\<lambda>s. s \<noteq> []) (map strip (query_symbols ss)) = query_symbols ss" by simp
  then show ?thesis using sorted_set_idem unfolding query_symbols_def by metis
qed

lemma query_ok_idem: "query_ok q \<Longrightarrow> query_ok (q\<lparr>fq_symbols := query_symbols (fq_symbols q)\<rparr>)"
  by (simp add: query_ok_def query_symbols_idem)

lemma strip_truthy: "strip s \<noteq> [] \<Longrightarrow> s \<noteq> []"
  by (auto simp: strip_def)

text \<open>The clock of a canonical request is read back.\<close>

lemma replace_Z:
  "list_all (\<lambda>c. c \<noteq> CHR ''Z'') s \<Longrightarrow> replace_from 0 ''Z'' ''+00:00'' (s @ ''Z'') = s @ ''+00:00''"
  by (induction s) simp_all

lemma naive_no_Z: "list_all (\<lambda>c. c \<noteq> CHR ''Z'') (isoformat (Naive t))"
proof -
  have "list_all (\<lambda>c. c \<noteq> CHR ''Z'') (pad w n)" for w n
    using pad_chars [of w n] by (simp add: list_all_iff stamp_char_def)
  then show ?thesis unfolding isoformat_def Let_def date_str_def by (cases "date_of (Naive t)") simp
qed

lemma parse_utc_text:
  assumes "is_utc t" and "datetime_ok t"
  shows "parse_query_time (JStr (utc_text t)) what = Inr t"
proof -
  obtain i where i: "t = Aware i 0" using assms(1) by (cases t) (simp_all add: is_utc_def)
  have "replace_from 0 ''Z'' ''+00:00'' (utc_text t) = isoformat t"
    unfolding i utc_text_utc isoformat_utc by (rule replace_Z [OF naive_no_Z])
  then show ?thesis by (simp add: parse_query_time_def iso_roundtrip [OF assms(2)])
qed

text \<open>The entries of a canonical request, and that reading a query only looks entries up.\<close>

lemma request_fields:
  "field ''contract'' (canonical_request q) = JStr (fq_contract q)"
  "field ''request_id'' (canonical_request q) = JStr (fq_request_id q)"
  "field ''symbols'' (canonical_request q) = jstrs (fq_symbols q)"
  "field ''business_as_of'' (canonical_request q) = JStr (utc_text (fq_business_as_of q))"
  "field ''knowledge_as_of'' (canonical_request q) = JStr (utc_text (fq_knowledge_as_of q))"
  "field ''availability_as_of'' (canonical_request q) = JStr (utc_text (fq_availability_as_of q))"
  "field ''content_snapshot_id'' (canonical_request q) = JStr (fq_content_snapshot_id q)"
  "field ''pit_mode'' (canonical_request q) = JStr (fq_pit_mode q)"
  "field ''min_support'' (canonical_request q) = fq_min_support q"
  "str_field ''signal_policy_version'' dflt (canonical_request q) =
     (if fq_signal_policy_version q = [] then dflt else fq_signal_policy_version q)"
  "field ''start'' (canonical_request q) = (case fq_start q of None \<Rightarrow> JNull | Some t \<Rightarrow> JStr (utc_text t))"
  "field ''end'' (canonical_request q) = (case fq_end q of None \<Rightarrow> JNull | Some t \<Rightarrow> JStr (utc_text t))"
  by (simp_all add: field_def str_field_def dict_get_def canonical_request_def split: option.splits)

lemma request_keys: "distinct (map fst (canonical_request q))"
  by (simp add: canonical_request_def split: option.splits)

lemma request_wf: "query_ok q \<Longrightarrow> wf_json (JObj (canonical_request q))"
  by (auto simp: canonical_request_def query_ok_def jstrs_def list_all_iff split: option.splits json.splits)

lemma request_canon:
  assumes "query_ok q"
  shows "map_option canon (dict_get k (canonical_request q)) = dict_get k (canonical_request q)"
proof -
  obtain n where "fq_min_support q = JInt n" using assms by (auto simp: query_ok_def split: json.splits)
  then show ?thesis by (simp add: dict_get_def canonical_request_def jstrs_def split: option.splits)
qed

lemma query_from_mapping_cong:
  assumes "\<And>k. dict_get k d = dict_get k d'"
  shows "query_from_mapping d = query_from_mapping d'"
proof -
  have "field k d = field k d'" "str_field k dflt d = str_field k dflt d'" for k dflt
    by (simp_all add: field_def str_field_def assms)
  then show ?thesis unfolding query_from_mapping_def by simp
qed

lemma parse_optional_utc_text:
  assumes "\<And>d. t = Some d \<Longrightarrow> is_utc d \<and> datetime_ok d"
  shows "parse_optional_time (case t of None \<Rightarrow> JNull | Some d \<Rightarrow> JStr (utc_text d)) what = Inr t"
  using assms parse_utc_text by (cases t) (simp_all add: parse_optional_time_def)

lemma query_eta:
  "\<lparr>fq_contract = fq_contract q, fq_request_id = fq_request_id q, fq_symbols = fq_symbols q,
    fq_business_as_of = fq_business_as_of q, fq_knowledge_as_of = fq_knowledge_as_of q,
    fq_availability_as_of = fq_availability_as_of q, fq_content_snapshot_id = fq_content_snapshot_id q,
    fq_pit_mode = fq_pit_mode q, fq_min_support = fq_min_support q,
    fq_signal_policy_version = fq_signal_policy_version q, fq_start = fq_start q, fq_end = fq_end q\<rparr> = q"
  by (cases q) simp

lemma request_read_back:
  assumes q: "query_ok q" "query_symbols (fq_symbols q) = fq_symbols q" and clocks: "query_clocks_ok q"
  shows "query_from_mapping (canonical_request q) = Inr q"
proof -
  have missing: "filter (\<lambda>k. field k (canonical_request q) = JNull) query_required = []"
    using q(1) by (auto simp: query_required_def request_fields jstrs_def query_ok_def)
  have symbols: "symbol_tuple (jstrs (fq_symbols q)) = Inr (fq_symbols q)"
    by (simp add: symbol_tuple_def jstrs_def comp_def)
  have policy: "fq_signal_policy_version q \<noteq> []" using q(1) strip_truthy by (simp add: query_ok_def)
  have times: "parse_query_time (JStr (utc_text (fq_business_as_of q))) w = Inr (fq_business_as_of q)"
      "parse_query_time (JStr (utc_text (fq_knowledge_as_of q))) w = Inr (fq_knowledge_as_of q)"
      "parse_query_time (JStr (utc_text (fq_availability_as_of q))) w = Inr (fq_availability_as_of q)" for w
    using q(1) clocks by (simp_all add: parse_utc_text query_ok_def query_clocks_ok_def)
  have window: "parse_optional_time (case fq_start q of None \<Rightarrow> JNull | Some d \<Rightarrow> JStr (utc_text d)) w = Inr (fq_start q)"
      "parse_optional_time (case fq_end q of None \<Rightarrow> JNull | Some d \<Rightarrow> JStr (utc_text d)) w = Inr (fq_end q)" for w
    using q(1) clocks by (auto intro!: parse_optional_utc_text simp: query_ok_def query_clocks_ok_def)
  have "query_init q = Inr q" using q by (simp add: query_init_ok)
  then show ?thesis
    unfolding query_from_mapping_def Let_def missing request_fields
    by (simp add: symbols times window policy query_eta)
qed

text \<open>
  C31. A formal query survives its canonical request: the request a constructed query renders, read again by
  \<open>from_mapping\<close>, is the same query, with its symbols, its clocks to the microsecond and its window.
\<close>

theorem query_roundtrip:
  assumes "query_init raw = Inr q" and "query_clocks_ok q"
  shows "query_from_mapping (canonical_request q) = Inr q"
proof (rule request_read_back [OF _ _ assms(2)])
  show "query_ok q" using assms(1) query_ok_idem by (auto simp: query_init_ok)
  show "query_symbols (fq_symbols q) = fq_symbols q" using assms(1) by (auto simp: query_init_ok query_symbols_idem)
qed

lemma query_id_inj:
  assumes "query_init a = Inr p" and "query_init b = Inr q" and "query_clocks_ok p" and "query_clocks_ok q"
    and "H (query_text p) = H (query_text q) \<Longrightarrow> query_text p = query_text q"
    and "query_id H p = query_id H q"
  shows "p = q"
proof -
  have same: "query_text p = query_text q" using assms(5,6) by (simp add: query_id_def)
  have ok: "query_ok p" "query_ok q" using assms(1,2) query_ok_idem by (auto simp: query_init_ok)
  have syms: "query_symbols (fq_symbols p) = fq_symbols p" "query_symbols (fq_symbols q) = fq_symbols q"
    using assms(1,2) by (auto simp: query_init_ok query_symbols_idem)
  have "canon (JObj (canonical_request p)) = canon (JObj (canonical_request q))"
    using same canonical_json_eq_iff [OF request_wf [OF ok(1)] request_wf [OF ok(2)]] by (simp add: query_text_def)
  then have "dict_get k (canonical_request p) = dict_get k (canonical_request q)" for k
    using canon_JObj_field [OF _ request_keys request_keys, of p q k] request_canon [OF ok(1)] request_canon [OF ok(2)] by simp
  then have "query_from_mapping (canonical_request p) = query_from_mapping (canonical_request q)"
    by (rule query_from_mapping_cong)
  then show ?thesis
    by (simp add: request_read_back [OF ok(1) syms(1) assms(3)] request_read_back [OF ok(2) syms(2) assms(4)])
qed

text \<open>
  The query id is the identity of the question. If the hash does not collide on the two canonical texts, two
  constructed queries have the same id exactly when they are the same query.
\<close>

theorem query_id_identifies:
  assumes "query_init a = Inr p" and "query_init b = Inr q" and "query_clocks_ok p" and "query_clocks_ok q"
    and "H (query_text p) = H (query_text q) \<Longrightarrow> query_text p = query_text q"
  shows "query_id H p = query_id H q \<longleftrightarrow> p = q"
  using query_id_inj [OF assms] by blast

text \<open>A query written by a caller, its padded symbols repeated.\<close>

definition example_query :: "string \<Rightarrow> formal_query" where
  "example_query rid =
     \<lparr>fq_contract = formal_contract, fq_request_id = rid, fq_symbols = [''600519 '', ''000001'', ''600519''],
      fq_business_as_of = Aware 0 0, fq_knowledge_as_of = Aware 5 0, fq_availability_as_of = Aware 7 0,
      fq_content_snapshot_id = ''snap'', fq_pit_mode = public_strict, fq_min_support = JInt 2,
      fq_signal_policy_version = ''signal-policy.v1'', fq_start = None, fq_end = Some (Aware 9 0)\<rparr>"

definition built_query :: "string \<Rightarrow> formal_query" where
  "built_query rid = (example_query rid)\<lparr>fq_symbols := [''000001'', ''600519'']\<rparr>"

lemma example_symbols: "query_symbols [''600519 '', ''000001'', ''600519''] = [''000001'', ''600519'']"
  by code_simp

lemma example_query_ok: "strip rid \<noteq> [] \<Longrightarrow> query_init (example_query rid) = Inr (built_query rid)"
proof -
  have "strip ''snap'' \<noteq> []" "strip ''signal-policy.v1'' \<noteq> []" by code_simp+
  moreover assume "strip rid \<noteq> []"
  ultimately show ?thesis
    by (simp add: query_init_ok query_ok_def example_query_def built_query_def example_symbols is_utc_def opt_after_def)
qed

lemma built_query_clocks: "query_clocks_ok (built_query rid)"
proof -
  have "datetime_ok (Aware 0 0)" "datetime_ok (Aware 5 0)" "datetime_ok (Aware 7 0)" "datetime_ok (Aware 9 0)" by code_simp+
  then show ?thesis by (simp add: query_clocks_ok_def built_query_def example_query_def)
qed

lemma example_rids: "strip ''r1'' \<noteq> []" "strip ''r2'' \<noteq> []"
  by code_simp+

theorem query_roundtrip_witness: "query_from_mapping (canonical_request (built_query ''r1'')) = Inr (built_query ''r1'')"
  by (rule query_roundtrip [OF example_query_ok [OF example_rids(1)] built_query_clocks])

theorem query_id_identifies_witness: "query_id (\<lambda>s. s) (built_query ''r1'') \<noteq> query_id (\<lambda>s. s) (built_query ''r2'')"
proof -
  have "built_query ''r1'' \<noteq> built_query ''r2''" by (simp add: built_query_def example_query_def)
  then show ?thesis
    using query_id_identifies [OF example_query_ok [OF example_rids(1)] example_query_ok [OF example_rids(2)]
      built_query_clocks built_query_clocks, of "\<lambda>s. s"] by simp
qed

text \<open>The order, the repetitions and the padding of the symbols asked for do not reach the query.\<close>

lemma query_symbols_cong: "strip ` set ss - {[]} = strip ` set ss' - {[]} \<Longrightarrow> query_symbols ss = query_symbols ss'"
  unfolding query_symbols_def by (rule sorted_set_cong) auto

text \<open>A text of symbols given to \<open>from_mapping\<close> is read as its characters: the constructor never sees a text.\<close>

lemma symbols_text_is_split: "try_bind (symbol_tuple (JStr ''600519'')) (\<lambda>ss. Inr (query_symbols ss)) = Inr [''0'', ''1'', ''5'', ''6'', ''9'']"
  by code_simp

text \<open>What a query returns is in its snapshot, and nothing is returned without an authority or without a membership.\<close>

lemma query_items_in_snapshot:
  "item \<in> set (qr_items (execute_query H authority membership q)) \<Longrightarrow>
   \<exists>f member. authority = Some f \<and> membership = Some member \<and> item \<in> set (f q) \<and>
     member (fq_content_snapshot_id q) (item_claim item)"
  by (auto simp: execute_query_def split: option.splits)

end
