(* ===== verification/Formal_Signal.thy ===== *)
theory Formal_Signal
  imports Formal_Query Snapshot_Service
begin

text \<open>
  Formal signals: the producer contract of \<open>domain/signal_contract_v5_1.py\<close>, the builder of
  \<open>application/signal_service.py\<close>, the governance evidence of a source (\<open>domain/governance_evidence.py\<close>) and the
  query \<open>formal_factor_signals\<close> of \<open>application/service.py\<close>, which joins the snapshot, its publication, the historical
  projection of every member claim and the contract. The checksum of the contract file is an argument. Projections and
  metadata are JSON objects; an array of pairs where the code calls \<open>dict\<close> is refused here.
\<close>

section \<open>The contract\<close>

definition formal_required :: "string list" where
  "formal_required =
     [''contract'', ''contract_checksum'', ''authority'', ''formal_eligible'', ''signal_id'', ''claim_id'', ''occurrence_id'',
      ''semantic_segment_id'', ''asserted_at'', ''source_available_at'', ''source_availability_quality'', ''available_from'',
      ''temporal_bindings'', ''lifecycle_as_of'', ''content_snapshot_id'', ''evidence_refs'', ''producer_commit'',
      ''signal_policy_version'', ''business_as_of'', ''knowledge_as_of'', ''availability_as_of'']"

definition trading_fields :: "string list" where
  "trading_fields = [''order_qty'', ''limit_price'', ''portfolio_weight'', ''execute_at'']"

definition authority_formal :: string where
  "authority_formal = ''FORMAL_FACT''"

definition availability_qualities :: "string list" where
  "availability_qualities = [''EXACT'', ''PROXY'', ''PUBLISHED_TIME_PROXY'', ''INGEST_TIME_UPPER_BOUND'']"

definition formal_text_keys :: "string list" where
  "formal_text_keys =
     [''signal_id'', ''claim_id'', ''occurrence_id'', ''semantic_segment_id'', ''content_snapshot_id'', ''producer_commit'',
      ''signal_policy_version'']"

definition formal_identity ::
  "string \<Rightarrow> string \<Rightarrow> string \<Rightarrow> string \<Rightarrow> string \<Rightarrow> string \<Rightarrow> string \<Rightarrow> string \<Rightarrow> string \<Rightarrow> pydict" where
  "formal_identity claim occurrence segment snapshot business knowledge availability qid policy =
     [(''claim_id'', JStr claim), (''occurrence_id'', JStr occurrence), (''semantic_segment_id'', JStr segment),
      (''content_snapshot_id'', JStr snapshot), (''business_as_of'', JStr business), (''knowledge_as_of'', JStr knowledge),
      (''availability_as_of'', JStr availability), (''query_id'', JStr qid), (''signal_policy_version'', JStr policy)]"

definition formal_signal_id :: "(string \<Rightarrow> string) \<Rightarrow> pydict \<Rightarrow> string" where
  "formal_signal_id H identity = ''sig51_'' @ H (canonical_json (JObj identity))"

definition rfc3339_utc :: "json \<Rightarrow> string \<Rightarrow> pydt result" where
  "rfc3339_utc v what =
     try_bind (parse_query_time v what) (\<lambda>t.
       case t of
         Naive w \<Rightarrow> Inl (ValueError (what @ '' must be timezone-aware''))
       | Aware i off \<Rightarrow> try_bind (ensure (off = 0) (ValueError (what @ '' must use UTC timezone''))) (\<lambda>_. Inr (Aware i 0)))"

text \<open>A loop that only raises.\<close>

definition for_each :: "('a \<Rightarrow> unit result) \<Rightarrow> 'a list \<Rightarrow> unit result" where
  "for_each f xs = foldM (\<lambda>_ x. f x) () xs"

definition text_required :: "pydict \<Rightarrow> string \<Rightarrow> unit result" where
  "text_required d k =
     ensure (case dict_get k d of Some (JStr s) \<Rightarrow> s \<noteq> [] | _ \<Rightarrow> False)
       (ValueError (''v5.1 '' @ k @ '' must be a non-empty string''))"

definition quality_known :: "json \<Rightarrow> unit result" where
  "quality_known v =
     (case v of
        JArr _ \<Rightarrow> Inl (TypeError ''unhashable type'')
      | JObj _ \<Rightarrow> Inl (TypeError ''unhashable type'')
      | _ \<Rightarrow> ensure (\<exists>s \<in> set availability_qualities. v = JStr s) (ValueError ''unsupported source_availability_quality''))"

definition known_by :: "pydict \<Rightarrow> instant \<Rightarrow> string \<Rightarrow> unit result" where
  "known_by d limit k =
     (if field k d = JNull then Inr ()
      else try_bind (rfc3339_utc (field k d) k) (\<lambda>t.
        ensure (instant_of t \<le> limit) (ValueError (k @ '' must not be after availability_as_of''))))"

definition lifecycle_text :: "pydict \<Rightarrow> string \<Rightarrow> unit result" where
  "lifecycle_text l k =
     (case dict_get k l of
        None \<Rightarrow> Inl (ValueError (''lifecycle_as_of missing '' @ k))
      | Some v \<Rightarrow> ensure (case v of JStr s \<Rightarrow> s \<noteq> [] | _ \<Rightarrow> False)
          (ValueError (''lifecycle_as_of.'' @ k @ '' must be a non-empty string'')))"

definition lifecycle_valid :: "json \<Rightarrow> instant \<Rightarrow> unit result" where
  "lifecycle_valid v knowledge =
     (case v of
        JObj l \<Rightarrow>
          try_bind (for_each (lifecycle_text l) [''status'', ''known_from'', ''artifact_id'']) (\<lambda>_.
          try_bind (rfc3339_utc (field ''known_from'' l) ''lifecycle_as_of.known_from'') (\<lambda>t.
            ensure (instant_of t \<le> knowledge) (ValueError ''lifecycle_as_of.known_from must not be after knowledge_as_of'')))
      | _ \<Rightarrow> Inl (ValueError ''lifecycle_as_of must be an object''))"

definition is_array :: "json \<Rightarrow> bool" where
  "is_array v \<longleftrightarrow> (case v of JArr _ \<Rightarrow> True | _ \<Rightarrow> False)"

definition validate_signal_v5_1 :: "string \<Rightarrow> string option \<Rightarrow> pydict \<Rightarrow> pydict result" where
  "validate_signal_v5_1 contract_checksum expected d =
     (let keys = map fst d;
          forbidden = sorted_set (filter (\<lambda>k. k \<in> set keys) trading_fields);
          missing = sort (filter (\<lambda>k. k \<notin> set keys) formal_required);
          unexpected = sorted_set (filter (\<lambda>k. k \<notin> set formal_required) keys) in
      try_bind (ensure (forbidden = [])
        (ValueError (''v5.1 signal cannot contain trading instruction fields: '' @ comma_list forbidden))) (\<lambda>_.
      try_bind (ensure (missing = []) (ValueError (''v5.1 signal missing '' @ comma_list missing))) (\<lambda>_.
      try_bind (ensure (unexpected = [])
        (ValueError (''v5.1 signal contains unsupported fields: '' @ comma_list unexpected))) (\<lambda>_.
      try_bind (ensure (field ''contract'' d = JStr formal_contract) (ValueError ''unsupported formal contract'')) (\<lambda>_.
      try_bind (ensure (field ''authority'' d = JStr authority_formal \<and> field ''formal_eligible'' d = JBool True)
        (ValueError ''formal signal must be FORMAL_FACT and formal_eligible=true'')) (\<lambda>_.
      try_bind (ensure (field ''contract_checksum'' d = JStr (str_or expected contract_checksum))
        (ValueError ''contract checksum mismatch'')) (\<lambda>_.
      try_bind (for_each (text_required d) formal_text_keys) (\<lambda>_.
      try_bind (quality_known (field ''source_availability_quality'' d)) (\<lambda>_.
      try_bind (rfc3339_utc (field ''business_as_of'' d) ''business_as_of'') (\<lambda>business.
      try_bind (rfc3339_utc (field ''knowledge_as_of'' d) ''knowledge_as_of'') (\<lambda>knowledge.
      try_bind (rfc3339_utc (field ''availability_as_of'' d) ''availability_as_of'') (\<lambda>availability.
      try_bind (ensure (field ''available_from'' d \<noteq> JNull) (ValueError ''available_from must be an RFC3339 datetime'')) (\<lambda>_.
      try_bind (rfc3339_utc (field ''available_from'' d) ''available_from'') (\<lambda>available.
      try_bind (ensure (instant_of available \<le> instant_of availability)
        (ValueError ''available_from must not be after availability_as_of'')) (\<lambda>_.
      try_bind (for_each (known_by d (instant_of availability)) [''asserted_at'', ''source_available_at'']) (\<lambda>_.
      try_bind (lifecycle_valid (field ''lifecycle_as_of'' d) (instant_of knowledge)) (\<lambda>_.
      try_bind (ensure (is_array (field ''temporal_bindings'' d) \<and> is_array (field ''evidence_refs'' d))
        (ValueError ''temporal_bindings and evidence_refs must be arrays'')) (\<lambda>_.
        Inr d))))))))))))))))))"

section \<open>Building a signal from a projection\<close>

definition as_rfc3339 :: "json \<Rightarrow> string option" where
  "as_rfc3339 v = (if v = JNull then None else Some (replace_from 0 ''+00:00'' ''Z'' (py_str v)))"

definition dict_or_empty :: "json \<Rightarrow> pydict result" where
  "dict_or_empty v =
     (if \<not> py_truthy v then Inr []
      else case v of JObj d \<Rightarrow> Inr d | _ \<Rightarrow> Inl (TypeError ''cannot convert to a dictionary''))"

definition list_or_empty :: "json \<Rightarrow> json list result" where
  "list_or_empty v =
     (if \<not> py_truthy v then Inr []
      else case v of
        JArr xs \<Rightarrow> Inr xs
      | JStr s \<Rightarrow> Inr (map (\<lambda>c. JStr [c]) s)
      | JObj d \<Rightarrow> Inr (map (\<lambda>(k, _). JStr k) d)
      | _ \<Rightarrow> Inl (TypeError ''object is not iterable''))"

definition says_unknown :: "json \<Rightarrow> bool" where
  "says_unknown v \<longleftrightarrow> lower (strip (py_str v)) = ''unknown''"

definition dict_default :: "string \<Rightarrow> json \<Rightarrow> pydict \<Rightarrow> pydict" where
  "dict_default k v d = (case dict_get k d of None \<Rightarrow> AList.update k v d | Some _ \<Rightarrow> d)"

definition dict_update :: "pydict \<Rightarrow> pydict \<Rightarrow> pydict" where
  "dict_update d new = foldl (\<lambda>d (k, v). AList.update k v d) d new"

definition formal_copied :: "string list" where
  "formal_copied =
     [''claim_id'', ''occurrence_id'', ''semantic_segment_id'', ''asserted_at'', ''source_available_at'', ''available_from'',
      ''temporal_bindings'']"

definition copied_fields :: "pydict \<Rightarrow> pydict" where
  "copied_fields p =
     (let d = List.map_filter (\<lambda>k. map_option (\<lambda>v. (k, v)) (dict_get k p)) formal_copied;
          d = dict_default ''asserted_at'' (field ''asserted_at'' p) d;
          d = dict_default ''source_available_at'' (field ''source_available_at'' p) d;
          d = AList.update ''available_from'' (jopt (as_rfc3339 (field ''available_from'' p))) d;
          d = AList.update ''asserted_at'' (jopt (as_rfc3339 (field ''asserted_at'' d))) d
      in AList.update ''source_available_at'' (jopt (as_rfc3339 (field ''source_available_at'' d))) d)"

definition signal_identity :: "(string \<Rightarrow> string) \<Rightarrow> pydict \<Rightarrow> formal_query \<Rightarrow> pydict" where
  "signal_identity H p q =
     formal_identity (str_field ''claim_id'' [] p) (str_field ''occurrence_id'' [] p) (str_field ''semantic_segment_id'' [] p)
       (fq_content_snapshot_id q) (utc_text (fq_business_as_of q)) (utc_text (fq_knowledge_as_of q))
       (utc_text (fq_availability_as_of q)) (query_id H q) (fq_signal_policy_version q)"

definition lifecycle_source :: "pydict \<Rightarrow> json" where
  "lifecycle_source p = (if py_truthy (field ''lifecycle_as_of'' p) then field ''lifecycle_as_of'' p else field ''lifecycle'' p)"

definition build_signal_v5_1 :: "(string \<Rightarrow> string) \<Rightarrow> string \<Rightarrow> pydict \<Rightarrow> formal_query \<Rightarrow> pydict result" where
  "build_signal_v5_1 H contract_checksum p q =
     try_bind (dict_or_empty (lifecycle_source p)) (\<lambda>lifecycle.
     let status = payload_or ''status'' ''to_status'' lifecycle;
         known = as_rfc3339 (field ''known_from'' lifecycle);
         artifact = payload_or ''artifact_id'' ''lifecycle_artifact_id'' lifecycle in
     try_bind (ensure (py_truthy status \<and> truthy known \<and> py_truthy artifact \<and>
         \<not> says_unknown status \<and> \<not> says_unknown (jopt known) \<and> \<not> says_unknown artifact)
       (ValueError ''formal signal requires a complete historical lifecycle lineage'')) (\<lambda>_.
     try_bind (ensure (str_field ''claim_id'' [] p \<noteq> [] \<and> str_field ''occurrence_id'' [] p \<noteq> [] \<and>
         str_field ''semantic_segment_id'' [] p \<noteq> [] \<and> truthy (as_rfc3339 (field ''available_from'' p)))
       (ValueError ''formal signal requires immutable claim occurrence and availability lineage'')) (\<lambda>_.
     let commit = str_field ''producer_commit'' [] p in
     try_bind (ensure (commit \<noteq> []) (ValueError ''formal signal requires snapshot producer_commit lineage'')) (\<lambda>_.
     try_bind (list_or_empty (field ''temporal_bindings'' p)) (\<lambda>bindings.
     try_bind (list_or_empty (field ''evidence_refs'' p)) (\<lambda>refs.
     let signal = dict_update (copied_fields p)
       [(''contract'', JStr formal_contract), (''contract_checksum'', JStr contract_checksum),
        (''authority'', JStr authority_formal), (''formal_eligible'', JBool True),
        (''content_snapshot_id'', JStr (fq_content_snapshot_id q)),
        (''business_as_of'', JStr (utc_text (fq_business_as_of q))), (''knowledge_as_of'', JStr (utc_text (fq_knowledge_as_of q))),
        (''availability_as_of'', JStr (utc_text (fq_availability_as_of q))),
        (''lifecycle_as_of'', JObj [(''status'', status), (''known_from'', jopt known), (''artifact_id'', artifact)]),
        (''producer_commit'', JStr commit), (''signal_policy_version'', JStr (fq_signal_policy_version q)),
        (''temporal_bindings'', JArr bindings), (''evidence_refs'', JArr refs),
        (''source_availability_quality'', JStr (str_field ''source_availability_quality'' ''EXACT'' p)),
        (''signal_id'', JStr (formal_signal_id H (signal_identity H p q)))]
     in validate_signal_v5_1 contract_checksum None signal))))))"

section \<open>Governance evidence of a source\<close>

definition governance_required :: "string list" where
  "governance_required =
     [''evidence_version'', ''source_type'', ''source_policy_version'', ''license_class'', ''robots_or_terms_reference'',
      ''retention_class'', ''access_classification'', ''privacy_classification'', ''pii_redaction_policy_version'']"

definition governance_version :: string where
  "governance_version = ''source-governance-evidence.v1''"

definition pii_policy_version :: string where
  "pii_policy_version = ''pii-redaction.v1''"

text \<open>\<open>repr\<close> of a list of plain texts.\<close>

definition texts_repr :: "string list \<Rightarrow> string" where
  "texts_repr ss = ''['' @ comma_list (map (\<lambda>s. CHR 0x27 # s @ [CHR 0x27]) ss) @ '']''"

text \<open>The message of the \<open>GovernanceEvidenceError\<close> that is raised, if one is.\<close>

definition governance_fault :: "pydict \<Rightarrow> pydict \<Rightarrow> string option \<Rightarrow> string option" where
  "governance_fault metadata evidence source_type =
     (let missing = sort (filter (\<lambda>k. strip (str_field k [] evidence) = []) governance_required);
          differing = filter (\<lambda>k. field k metadata \<noteq> JNull \<and> field k metadata \<noteq> field k evidence)
            [''source_policy_version'', ''retention_class'', ''access_classification''] in
      if missing \<noteq> [] then Some (''source governance evidence is missing: '' @ texts_repr missing)
      else if field ''evidence_version'' evidence \<noteq> JStr governance_version
        then Some ''source governance evidence version is unsupported''
      else if field ''pii_redaction_policy_version'' evidence \<noteq> JStr pii_policy_version
        then Some ''source PII-redaction evidence version is unsupported''
      else if field ''pii_redaction_required'' evidence \<noteq> JBool True
        then Some ''source governance evidence must require PII redaction''
      else if (case source_type of None \<Rightarrow> False | Some t \<Rightarrow> field ''source_type'' evidence \<noteq> JStr t)
        then Some ''source governance evidence source_type does not match artifact''
      else case differing of
          [] \<Rightarrow> None
        | k # _ \<Rightarrow> Some (''source governance evidence '' @ k @ '' does not match artifact metadata''))"

definition validate_governance_evidence :: "pydict \<Rightarrow> string option \<Rightarrow> pydict result" where
  "validate_governance_evidence metadata source_type =
     try_bind (dict_or_empty (field ''governance_evidence'' metadata)) (\<lambda>evidence.
       case governance_fault metadata evidence source_type of
         Some msg \<Rightarrow> Inl (ValueError (''formal snapshot governance evidence is invalid: '' @ msg))
       | None \<Rightarrow> Inr evidence)"

section \<open>The formal query\<close>

record formal_service =
  fv_snapshots :: "string \<Rightarrow> snapshot option result"
  fv_ready :: "(string \<Rightarrow> bool) option"
  fv_projector :: "projector option"
  fv_artifacts :: "(string \<Rightarrow> artifact option result) option"

definition blank_source_field :: "snapshot \<Rightarrow> string option" where
  "blank_source_field s =
     map_option fst (find (\<lambda>(k, v). strip v = [])
       [(''source_type'', cs_source_type s), (''source_ref'', cs_source_ref s),
        (''source_content_hash'', cs_source_content_hash s), (''source_artifact_id'', cs_source_artifact_id s)])"

definition governed_source :: "formal_service \<Rightarrow> snapshot \<Rightarrow> unit result" where
  "governed_source svc s =
     (case fv_artifacts svc of
        None \<Rightarrow> Inr ()
      | Some get \<Rightarrow>
          try_bind (get (cs_source_artifact_id s)) (\<lambda>found.
            case found of
              None \<Rightarrow> Inl (ValueError ''formal snapshot governance evidence is invalid: source artifact is missing'')
            | Some a \<Rightarrow>
                try_bind (ensure
                    (str_field ''raw_content_hash'' (str_field ''source_content_hash'' [] (af_body a)) (af_body a) = cs_source_content_hash s)
                    (ValueError (''formal snapshot governance evidence is invalid: '' @
                      ''source artifact content hash does not match snapshot''))) (\<lambda>_.
                try_bind (dict_or_empty (field ''source_metadata'' (af_body a))) (\<lambda>metadata.
                try_bind (validate_governance_evidence metadata (Some (cs_source_type s))) (\<lambda>_. Inr ())))))"

definition validate_formal_snapshot :: "(string \<Rightarrow> string) \<Rightarrow> formal_service \<Rightarrow> snapshot \<Rightarrow> formal_query \<Rightarrow> unit result" where
  "validate_formal_snapshot H svc s q =
     try_bind (ensure (cs_id s = fq_content_snapshot_id q)
       (ValueError ''formal snapshot identity does not match requested content_snapshot_id'')) (\<lambda>_.
     try_bind (case blank_source_field s of
         None \<Rightarrow> Inr () | Some k \<Rightarrow> Inl (ValueError (''formal snapshot requires '' @ k @ '' identity''))) (\<lambda>_.
     try_bind (query_utc (cs_created_at s) ''snapshot.created_at'') (\<lambda>created.
     try_bind (ensure (instant_of created \<le> instant_of (fq_availability_as_of q))
       (ValueError ''formal snapshot is not available at availability_as_of'')) (\<lambda>_.
     try_bind (ensure (str_or (map_of (cs_artifact_ids s) ''source'') [] = cs_source_artifact_id s)
       (ValueError ''formal snapshot source artifact identity does not match artifact_ids'')) (\<lambda>_.
     try_bind (governed_source svc s) (\<lambda>_.
     try_bind (ensure (cs_artifact_root_hash s \<noteq> [] \<and>
         cs_artifact_root_hash s = compute_artifact_root_hash H (cs_artifact_ids s))
       (ValueError ''formal snapshot artifact root identity is invalid'')) (\<lambda>_.
       ensure (''cs-'' @ take 32 (compute_content_snapshot_id H (snapshot_identity_payload s)) = fq_content_snapshot_id q)
         (ValueError ''formal snapshot identity is stale or mismatched''))))))))"

text \<open>\<open>datetime.min\<close> in UTC, the window of a query as texts and the root of a symbol.\<close>

definition datetime_min :: pydt where
  "datetime_min = Aware ((1 - epoch_ordinal) * day_us) 0"

definition window_start :: "formal_query \<Rightarrow> string" where
  "window_start q = isoformat (case fq_start q of None \<Rightarrow> datetime_min | Some t \<Rightarrow> t)"

definition window_end :: "formal_query \<Rightarrow> string" where
  "window_end q = isoformat (case fq_end q of None \<Rightarrow> fq_availability_as_of q | Some t \<Rightarrow> t)"

definition symbol_root :: "string \<Rightarrow> string" where
  "symbol_root s = takeWhile (\<lambda>c. c \<noteq> CHR ''.'') s"

definition in_window :: "formal_query \<Rightarrow> json \<Rightarrow> bool" where
  "in_window q available \<longleftrightarrow> \<not> py_truthy available \<or> (window_start q \<le> py_str available \<and> py_str available \<le> window_end q)"

definition min_support_of :: "formal_query \<Rightarrow> int" where
  "min_support_of q = (case fq_min_support q of JInt n \<Rightarrow> n | _ \<Rightarrow> 0)"

definition support_count :: "pydict \<Rightarrow> int result" where
  "support_count p = (if py_truthy (field ''support_count'' p) then py_int (field ''support_count'' p) else Inr 0)"

text \<open>The body of the loop: a signal, or \<open>None\<close> where the loop continues with the next claim.\<close>

definition formal_claim ::
  "(string \<Rightarrow> string) \<Rightarrow> string \<Rightarrow> projector \<Rightarrow> formal_query \<Rightarrow> string \<Rightarrow> pydict option result" where
  "formal_claim H contract_checksum pj q cid =
     try_bind (project H pj cid (fq_business_as_of q) (fq_knowledge_as_of q) (fq_availability_as_of q)
         (Some (fq_content_snapshot_id q))) (\<lambda>projection.
       case projection of
         None \<Rightarrow> Inr None
       | Some p \<Rightarrow>
           try_bind (ensure (str_field ''claim_id'' [] p = cid)
             (ValueError ''formal projection claim identity does not match snapshot membership'')) (\<lambda>_.
           try_bind (ensure (\<not> py_truthy (field ''legacy_history_incomplete'' p))
             (ValueError (''claim '' @ py_str (field ''claim_id'' p) @ '' has incomplete historical lineage''))) (\<lambda>_.
           if fq_symbols q \<noteq> [] \<and>
              symbol_root (str_field ''symbol'' (str_field ''subject_id'' [] p) p) \<notin> set (map symbol_root (fq_symbols q))
           then Inr None
           else if \<not> in_window q (field ''available_from'' p) then Inr None
           else try_bind (support_count p) (\<lambda>support.
             if support < min_support_of q then Inr None
             else case field ''lifecycle_as_of'' p of
                 JObj _ \<Rightarrow> try_bind (build_signal_v5_1 H contract_checksum p q) (\<lambda>signal. Inr (Some signal))
               | _ \<Rightarrow> Inl (ValueError (''claim '' @ py_str (field ''claim_id'' p) @ '' has no lifecycle_as_of lineage''))))))"

definition formal_factor_signals ::
  "(string \<Rightarrow> string) \<Rightarrow> string \<Rightarrow> formal_service \<Rightarrow> formal_query \<Rightarrow> pydict list result" where
  "formal_factor_signals H contract_checksum svc q =
     try_bind (fv_snapshots svc (fq_content_snapshot_id q)) (\<lambda>found.
       case found of
         None \<Rightarrow> Inl (ValueError ''unknown content_snapshot_id'')
       | Some s \<Rightarrow>
           try_bind (validate_formal_snapshot H svc s q) (\<lambda>_.
           try_bind (ensure (case fv_ready svc of None \<Rightarrow> False | Some ready \<Rightarrow> ready (fq_content_snapshot_id q))
             (ValueError (''publication-not-ready: content snapshot '' @ fq_content_snapshot_id q @
               '' is not formally published''))) (\<lambda>_.
           case fv_projector svc of
             None \<Rightarrow> Inl (ValueError ''legacy/publication-not-ready: historical projector unavailable'')
           | Some pj \<Rightarrow>
               let claims = claims_for_snapshot pj (fq_content_snapshot_id q) in
               try_bind (ensure (claims \<noteq> [])
                 (ValueError (''legacy/publication-not-ready: snapshot '' @ fq_content_snapshot_id q @
                   '' has no immutable claim membership''))) (\<lambda>_.
               try_bind (mapM (formal_claim H contract_checksum pj q) claims) (\<lambda>signals.
                 Inr (List.map_filter (\<lambda>x. x) signals))))))"

section \<open>What the contract admits\<close>

definition known_at :: "json \<Rightarrow> instant \<Rightarrow> bool" where
  "known_at v limit \<longleftrightarrow> (case rfc3339_utc v [] of Inr t \<Rightarrow> instant_of t \<le> limit | Inl _ \<Rightarrow> False)"

definition maybe_known_at :: "json \<Rightarrow> instant \<Rightarrow> bool" where
  "maybe_known_at v limit \<longleftrightarrow> v = JNull \<or> known_at v limit"

definition lifecycle_known_at :: "json \<Rightarrow> instant \<Rightarrow> bool" where
  "lifecycle_known_at v limit \<longleftrightarrow> (case v of JObj l \<Rightarrow> known_at (field ''known_from'' l) limit | _ \<Rightarrow> False)"

text \<open>A signal of a query: its contract, its clocks, and nothing in it is later than the clocks.\<close>

definition formal_fact :: "string \<Rightarrow> formal_query \<Rightarrow> pydict \<Rightarrow> bool" where
  "formal_fact contract_checksum q s \<longleftrightarrow>
     set (map fst s) = set formal_required \<and> set (map fst s) \<inter> set trading_fields = {} \<and>
     field ''contract'' s = JStr formal_contract \<and> field ''contract_checksum'' s = JStr contract_checksum \<and>
     field ''authority'' s = JStr authority_formal \<and> field ''formal_eligible'' s = JBool True \<and>
     field ''content_snapshot_id'' s = JStr (fq_content_snapshot_id q) \<and>
     field ''business_as_of'' s = JStr (utc_text (fq_business_as_of q)) \<and>
     field ''knowledge_as_of'' s = JStr (utc_text (fq_knowledge_as_of q)) \<and>
     field ''availability_as_of'' s = JStr (utc_text (fq_availability_as_of q))"

definition no_lookahead :: "formal_query \<Rightarrow> pydict \<Rightarrow> bool" where
  "no_lookahead q s \<longleftrightarrow>
     known_at (field ''available_from'' s) (instant_of (fq_availability_as_of q)) \<and>
     maybe_known_at (field ''asserted_at'' s) (instant_of (fq_availability_as_of q)) \<and>
     maybe_known_at (field ''source_available_at'' s) (instant_of (fq_availability_as_of q)) \<and>
     lifecycle_known_at (field ''lifecycle_as_of'' s) (instant_of (fq_knowledge_as_of q))"

lemma ensure_Inr_iff: "ensure c e = Inr u \<longleftrightarrow> c"
  by (cases u) (simp add: ensure_def)

lemma rfc3339_utc_cases:
  assumes "rfc3339_utc v what = Inr t"
  shows "is_utc t \<and> parse_query_time v what = Inr t"
proof -
  obtain x where "parse_query_time v what = Inr x" using assms by (auto simp: rfc3339_utc_def try_bind_Inr_iff)
  with assms show ?thesis
    by (cases x) (auto simp: rfc3339_utc_def is_utc_def try_bind_Inr_iff ensure_Inr_iff)
qed

lemma parse_query_time_what: "parse_query_time v what = Inr t \<Longrightarrow> parse_query_time v what' = Inr t"
  by (auto simp: parse_query_time_def split: json.splits sum.splits)

lemma rfc3339_known_at:
  assumes "rfc3339_utc v what = Inr t"
  shows "known_at v limit \<longleftrightarrow> instant_of t \<le> limit"
proof -
  have "is_utc t" "parse_query_time v [] = Inr t"
    using rfc3339_utc_cases [OF assms] parse_query_time_what by blast+
  then have "rfc3339_utc v [] = Inr t"
    by (cases t) (auto simp: rfc3339_utc_def is_utc_def)
  then show ?thesis by (simp add: known_at_def)
qed

lemma rfc3339_utc_text:
  assumes "is_utc t" and "datetime_ok t"
  shows "rfc3339_utc (JStr (utc_text t)) what = Inr t"
  using assms parse_utc_text [OF assms] by (cases t) (simp_all add: rfc3339_utc_def is_utc_def)

lemma for_each_Inr: "for_each f xs = Inr u \<longleftrightarrow> (\<forall>x \<in> set xs. f x = Inr ())"
  unfolding for_each_def by (induction xs) (auto simp: try_bind_Inr_iff)

lemma known_by_ok: "known_by d limit k = Inr u \<Longrightarrow> maybe_known_at (field k d) limit"
  by (auto simp: known_by_def maybe_known_at_def try_bind_Inr_iff ensure_Inr_iff rfc3339_known_at split: if_splits)

lemma lifecycle_valid_ok: "lifecycle_valid v limit = Inr u \<Longrightarrow> lifecycle_known_at v limit"
  by (auto simp: lifecycle_valid_def lifecycle_known_at_def try_bind_Inr_iff ensure_Inr_iff rfc3339_known_at split: json.splits)

lemma validate_signal_ok:
  assumes "validate_signal_v5_1 c None d = Inr s"
  shows "s = d" and "set (map fst d) = set formal_required" and "set (map fst d) \<inter> set trading_fields = {}"
    and "field ''contract'' d = JStr formal_contract" and "field ''contract_checksum'' d = JStr c"
    and "field ''authority'' d = JStr authority_formal" and "field ''formal_eligible'' d = JBool True"
    and "k \<in> set formal_text_keys \<Longrightarrow> \<exists>t. dict_get k d = Some (JStr t) \<and> t \<noteq> []"
    and "\<exists>a w. rfc3339_utc (field ''availability_as_of'' d) w = Inr a \<and> known_at (field ''available_from'' d) (instant_of a) \<and>
      maybe_known_at (field ''asserted_at'' d) (instant_of a) \<and> maybe_known_at (field ''source_available_at'' d) (instant_of a)"
    and "\<exists>k w. rfc3339_utc (field ''knowledge_as_of'' d) w = Inr k \<and> lifecycle_known_at (field ''lifecycle_as_of'' d) (instant_of k)"
proof -
  note v = assms [unfolded validate_signal_v5_1_def Let_def try_bind_Inr_iff ensure_Inr_iff for_each_Inr]
  show "s = d" using v by auto
  have "sorted_set (filter (\<lambda>k. k \<in> set (map fst d)) trading_fields) = []"
    and "sort (filter (\<lambda>k. k \<notin> set (map fst d)) formal_required) = []"
    and "sorted_set (filter (\<lambda>k. k \<notin> set formal_required) (map fst d)) = []" using v by blast+
  then have "filter (\<lambda>k. k \<in> set (map fst d)) trading_fields = []" "filter (\<lambda>k. k \<notin> set (map fst d)) formal_required = []"
    "filter (\<lambda>k. k \<notin> set formal_required) (map fst d) = []"
    by (metis set_sorted_set set_empty set_sort)+
  then show "set (map fst d) \<inter> set trading_fields = {}" "set (map fst d) = set formal_required"
    by (auto simp: filter_empty_conv)
  show "field ''contract'' d = JStr formal_contract" "field ''contract_checksum'' d = JStr c"
    "field ''authority'' d = JStr authority_formal" "field ''formal_eligible'' d = JBool True" using v by auto
  show "\<exists>t. dict_get k d = Some (JStr t) \<and> t \<noteq> []" if "k \<in> set formal_text_keys"
  proof -
    have "text_required d k = Inr ()" using v that by blast
    then show ?thesis by (auto simp: text_required_def ensure_Inr_iff split: option.splits json.splits)
  qed
  obtain a available where "rfc3339_utc (field ''availability_as_of'' d) ''availability_as_of'' = Inr a"
    "rfc3339_utc (field ''available_from'' d) ''available_from'' = Inr available" "instant_of available \<le> instant_of a"
    "known_by d (instant_of a) ''asserted_at'' = Inr ()" "known_by d (instant_of a) ''source_available_at'' = Inr ()"
    using v by auto
  then show "\<exists>a w. rfc3339_utc (field ''availability_as_of'' d) w = Inr a \<and> known_at (field ''available_from'' d) (instant_of a) \<and>
      maybe_known_at (field ''asserted_at'' d) (instant_of a) \<and> maybe_known_at (field ''source_available_at'' d) (instant_of a)"
    using known_by_ok rfc3339_known_at by blast
  show "\<exists>k w. rfc3339_utc (field ''knowledge_as_of'' d) w = Inr k \<and> lifecycle_known_at (field ''lifecycle_as_of'' d) (instant_of k)"
    using v lifecycle_valid_ok by blast
qed

lemma dict_update_get: "dict_get k (dict_update d kvs) = (case map_of (rev kvs) k of None \<Rightarrow> dict_get k d | Some v \<Rightarrow> Some v)"
  unfolding dict_update_def
proof (induction kvs arbitrary: d)
  case (Cons kv kvs)
  then show ?case
    by (cases kv) (auto simp: dict_get_def update_conv' map_add_def split: option.splits)
qed simp

lemma build_signal_cases:
  assumes "build_signal_v5_1 H c p q = Inr s"
  obtains status known artifact bindings refs where
    "validate_signal_v5_1 c None s = Inr s"
    "str_field ''claim_id'' [] p \<noteq> []"
    "s = dict_update (copied_fields p)
       [(''contract'', JStr formal_contract), (''contract_checksum'', JStr c),
        (''authority'', JStr authority_formal), (''formal_eligible'', JBool True),
        (''content_snapshot_id'', JStr (fq_content_snapshot_id q)),
        (''business_as_of'', JStr (utc_text (fq_business_as_of q))), (''knowledge_as_of'', JStr (utc_text (fq_knowledge_as_of q))),
        (''availability_as_of'', JStr (utc_text (fq_availability_as_of q))),
        (''lifecycle_as_of'', JObj [(''status'', status), (''known_from'', jopt known), (''artifact_id'', artifact)]),
        (''producer_commit'', JStr (str_field ''producer_commit'' [] p)),
        (''signal_policy_version'', JStr (fq_signal_policy_version q)),
        (''temporal_bindings'', JArr bindings), (''evidence_refs'', JArr refs),
        (''source_availability_quality'', JStr (str_field ''source_availability_quality'' ''EXACT'' p)),
        (''signal_id'', JStr (formal_signal_id H (signal_identity H p q)))]"
proof -
  note b = assms [unfolded build_signal_v5_1_def Let_def try_bind_Inr_iff ensure_Inr_iff]
  from b show thesis using that validate_signal_ok(1) by blast
qed

lemma build_signal_fields:
  assumes "build_signal_v5_1 H c p q = Inr s"
  shows "field ''content_snapshot_id'' s = JStr (fq_content_snapshot_id q)"
    and "field ''business_as_of'' s = JStr (utc_text (fq_business_as_of q))"
    and "field ''knowledge_as_of'' s = JStr (utc_text (fq_knowledge_as_of q))"
    and "field ''availability_as_of'' s = JStr (utc_text (fq_availability_as_of q))"
    and "dict_get ''signal_id'' s = Some (JStr (formal_signal_id H (signal_identity H p q)))"
    and "dict_get ''signal_policy_version'' s = Some (JStr (fq_signal_policy_version q))"
  using assms by (elim build_signal_cases; simp add: field_def dict_update_get)+

lemma build_signal_sound:
  assumes "build_signal_v5_1 H c p q = Inr s" and "query_ok q" and "query_clocks_ok q"
  shows "formal_fact c q s \<and> no_lookahead q s"
proof -
  have v: "validate_signal_v5_1 c None s = Inr s" using assms(1) by (elim build_signal_cases)
  note f = build_signal_fields [OF assms(1)]
  have "rfc3339_utc (field ''availability_as_of'' s) w = Inr (fq_availability_as_of q)"
    "rfc3339_utc (field ''knowledge_as_of'' s) w = Inr (fq_knowledge_as_of q)" for w
    using assms(2,3) by (simp_all add: f rfc3339_utc_text query_ok_def query_clocks_ok_def)
  then show ?thesis
    using validate_signal_ok(2-7,9,10) [OF v] f(1-4) by (auto simp: formal_fact_def no_lookahead_def)
qed

section \<open>Answers of the formal query\<close>

lemma formal_claim_signal:
  assumes "formal_claim H c pj q cid = Inr (Some s)"
  obtains p where "project H pj cid (fq_business_as_of q) (fq_knowledge_as_of q) (fq_availability_as_of q)
      (Some (fq_content_snapshot_id q)) = Inr (Some p)"
    and "str_field ''claim_id'' [] p = cid" and "\<not> py_truthy (field ''legacy_history_incomplete'' p)"
    and "build_signal_v5_1 H c p q = Inr s"
proof -
  obtain found where found: "project H pj cid (fq_business_as_of q) (fq_knowledge_as_of q) (fq_availability_as_of q)
      (Some (fq_content_snapshot_id q)) = Inr found"
    using assms by (auto simp: formal_claim_def try_bind_Inr_iff)
  then obtain p where p: "found = Some p" using assms by (cases found) (simp_all add: formal_claim_def)
  note rest = assms [unfolded formal_claim_def found p try_bind_simps option.case try_bind_Inr_iff ensure_Inr_iff]
  have "build_signal_v5_1 H c p q = Inr s"
  proof (cases "field ''lifecycle_as_of'' p")
    case (JObj l)
    then show ?thesis using rest by (simp add: try_bind_Inr_iff split: if_splits) blast
  qed (use rest in \<open>auto simp: try_bind_Inr_iff split: if_splits\<close>)
  moreover have "str_field ''claim_id'' [] p = cid" "\<not> py_truthy (field ''legacy_history_incomplete'' p)" using rest by auto
  ultimately show thesis using that found p by blast
qed

lemma mapM_members: "mapM f xs = Inr ys \<Longrightarrow> y \<in> set ys \<Longrightarrow> \<exists>x \<in> set xs. f x = Inr y"
  by (induction xs arbitrary: ys) (auto simp: try_bind_Inr_iff)

lemma mapM_same: "(\<And>x. x \<in> set xs \<Longrightarrow> f x = g x) \<Longrightarrow> mapM f xs = mapM g xs"
  by (induction xs) simp_all

lemma formal_signals_from:
  assumes "formal_factor_signals H c svc q = Inr signals" and "s \<in> set signals"
  obtains pj cid p where "fv_projector svc = Some pj" and "cid \<in> set (claims_for_snapshot pj (fq_content_snapshot_id q))"
    and "project H pj cid (fq_business_as_of q) (fq_knowledge_as_of q) (fq_availability_as_of q)
      (Some (fq_content_snapshot_id q)) = Inr (Some p)"
    and "str_field ''claim_id'' [] p = cid" and "build_signal_v5_1 H c p q = Inr s"
proof -
  obtain pj res where pj: "fv_projector svc = Some pj"
    and res: "mapM (formal_claim H c pj q) (claims_for_snapshot pj (fq_content_snapshot_id q)) = Inr res"
    and sigs: "signals = List.map_filter (\<lambda>x. x) res"
    using assms(1) by (auto simp: formal_factor_signals_def Let_def try_bind_Inr_iff split: option.splits)
  have "Some s \<in> set res" using assms(2) sigs by (auto simp: List.map_filter_def)
  then obtain cid where "cid \<in> set (claims_for_snapshot pj (fq_content_snapshot_id q))" "formal_claim H c pj q cid = Inr (Some s)"
    using mapM_members [OF res] by blast
  then show thesis using that [OF pj] by (elim formal_claim_signal)
qed

text \<open>
  C14. A formal answer does not look into the future. Whatever the projections hold, every signal of an answered formal
  query whose clocks are representable times has exactly the fields of the contract and none that instructs a trade,
  carries the snapshot and the three clocks of the query, was available, asserted and sourced by the availability clock,
  and its lifecycle was known by the knowledge clock. These are all the times the contract bounds: the contents of the
  temporal bindings and of the evidence references are lists it does not look into.
\<close>

theorem formal_signals_no_lookahead:
  assumes "query_init raw = Inr q" and "query_clocks_ok q" and "formal_factor_signals H contract_checksum svc q = Inr signals"
  shows "list_all (\<lambda>s. formal_fact contract_checksum q s \<and> no_lookahead q s) signals"
proof -
  have ok: "query_ok q" using assms(1) query_ok_idem by (auto simp: query_init_ok)
  have "formal_fact contract_checksum q s \<and> no_lookahead q s" if "s \<in> set signals" for s
    using formal_signals_from [OF assms(3) that] build_signal_sound [OF _ ok assms(2)] by metis
  then show ?thesis by (simp add: list_all_iff)
qed

section \<open>Identity of a formal signal\<close>

lemma picked_get: "dict_get k (List.map_filter (\<lambda>k. map_option (\<lambda>v. (k, v)) (dict_get k p)) ks) = (if k \<in> set ks then dict_get k p else None)"
  by (induction ks) (auto simp: List.map_filter_simps dict_get_def split: option.splits)

lemma dict_default_other: "k \<noteq> k' \<Longrightarrow> dict_get k (dict_default k' v d) = dict_get k d"
  by (simp add: dict_default_def dict_get_def update_conv' split: option.splits)

lemma update_other: "k \<noteq> k' \<Longrightarrow> dict_get k (AList.update k' v d) = dict_get k d"
  by (simp add: dict_get_def update_conv')

lemma copied_get:
  "k \<in> set formal_copied \<Longrightarrow> k \<noteq> ''asserted_at'' \<Longrightarrow> k \<noteq> ''source_available_at'' \<Longrightarrow> k \<noteq> ''available_from'' \<Longrightarrow>
   dict_get k (copied_fields p) = dict_get k p"
  by (simp add: copied_fields_def Let_def update_other dict_default_other picked_get)

lemma copied_lineage:
  "dict_get ''claim_id'' (copied_fields p) = dict_get ''claim_id'' p"
  "dict_get ''occurrence_id'' (copied_fields p) = dict_get ''occurrence_id'' p"
  "dict_get ''semantic_segment_id'' (copied_fields p) = dict_get ''semantic_segment_id'' p"
  by (rule copied_get; simp add: formal_copied_def)+

lemma built_lineage_get:
  assumes "build_signal_v5_1 H c p q = Inr s"
  shows "dict_get ''claim_id'' s = dict_get ''claim_id'' p"
    and "dict_get ''occurrence_id'' s = dict_get ''occurrence_id'' p"
    and "dict_get ''semantic_segment_id'' s = dict_get ''semantic_segment_id'' p"
  using assms by (elim build_signal_cases; simp add: dict_update_get copied_lineage)+

lemma built_lineage:
  assumes "build_signal_v5_1 H c p q = Inr s" and "k \<in> {''claim_id'', ''occurrence_id'', ''semantic_segment_id''}"
  shows "field k s = JStr (str_field k [] p)"
proof -
  from assms(1) have v: "validate_signal_v5_1 c None s = Inr s" by (elim build_signal_cases)
  have "k \<in> set formal_text_keys" using assms(2) by (auto simp: formal_text_keys_def)
  then obtain t where t: "dict_get k s = Some (JStr t)" "t \<noteq> []" using validate_signal_ok(8) [OF v] by blast
  have "dict_get k s = dict_get k p" using assms(2) built_lineage_get [OF assms(1)] by (elim insertE) simp_all
  with t have "dict_get k s = Some (JStr t)" "dict_get k p = Some (JStr t)" by simp_all
  then show ?thesis using t(2) by (simp add: field_def str_field_def)
qed

definition signal_identity_text :: "(string \<Rightarrow> string) \<Rightarrow> pydict \<Rightarrow> formal_query \<Rightarrow> string" where
  "signal_identity_text H p q = canonical_json (JObj (signal_identity H p q))"

definition same_lineage :: "pydict \<Rightarrow> pydict \<Rightarrow> bool" where
  "same_lineage s s' \<longleftrightarrow>
     field ''claim_id'' s = field ''claim_id'' s' \<and> field ''occurrence_id'' s = field ''occurrence_id'' s' \<and>
     field ''semantic_segment_id'' s = field ''semantic_segment_id'' s'"

lemma signal_identity_inj:
  assumes "signal_identity_text H p q = signal_identity_text H p' q'"
  shows "signal_identity H p q = signal_identity H p' q'"
proof -
  have "wf_json (JObj (signal_identity H p q))" "wf_json (JObj (signal_identity H p' q'))"
    by (simp_all add: signal_identity_def formal_identity_def)
  with assms have "canon (JObj (signal_identity H p q)) = canon (JObj (signal_identity H p' q'))"
    by (simp add: signal_identity_text_def canonical_json_eq_iff)
  then have "map_option canon (dict_get k (signal_identity H p q)) = map_option canon (dict_get k (signal_identity H p' q'))" for k
    by (rule canon_JObj_field) (simp_all add: signal_identity_def formal_identity_def)
  from this [of "''claim_id''"] this [of "''occurrence_id''"] this [of "''semantic_segment_id''"]
    this [of "''content_snapshot_id''"] this [of "''business_as_of''"] this [of "''knowledge_as_of''"]
    this [of "''availability_as_of''"] this [of "''query_id''"] this [of "''signal_policy_version''"]
  show ?thesis by (simp add: signal_identity_def formal_identity_def dict_get_def)
qed

text \<open>
  C15. The id of a formal signal stands for the question and the evidence. Unless the hash collides on the texts involved,
  two formal signals, built from any projections for any two constructed queries, have the same id exactly when the
  queries are the same and so are claim, occurrence and segment.
\<close>

theorem formal_signal_id_identifies:
  assumes "query_init a = Inr q" and "query_init b = Inr q'" and "query_clocks_ok q" and "query_clocks_ok q'"
    and "build_signal_v5_1 H contract_checksum p q = Inr s" and "build_signal_v5_1 H contract_checksum p' q' = Inr s'"
    and "H (query_text q) = H (query_text q') \<Longrightarrow> query_text q = query_text q'"
    and "H (signal_identity_text H p q) = H (signal_identity_text H p' q') \<Longrightarrow>
      signal_identity_text H p q = signal_identity_text H p' q'"
  shows "field ''signal_id'' s = field ''signal_id'' s' \<longleftrightarrow> q = q' \<and> same_lineage s s'"
proof -
  have ids: "field ''signal_id'' s = JStr (''sig51_'' @ H (signal_identity_text H p q))"
    "field ''signal_id'' s' = JStr (''sig51_'' @ H (signal_identity_text H p' q'))"
    using build_signal_fields(5) [OF assms(5)] build_signal_fields(5) [OF assms(6)]
    by (simp_all add: field_def formal_signal_id_def signal_identity_text_def)
  have lin: "same_lineage s s' \<longleftrightarrow> str_field ''claim_id'' [] p = str_field ''claim_id'' [] p' \<and>
      str_field ''occurrence_id'' [] p = str_field ''occurrence_id'' [] p' \<and>
      str_field ''semantic_segment_id'' [] p = str_field ''semantic_segment_id'' [] p'"
    by (simp add: same_lineage_def built_lineage [OF assms(5)] built_lineage [OF assms(6)])
  show ?thesis
  proof
    assume "field ''signal_id'' s = field ''signal_id'' s'"
    then have "H (signal_identity_text H p q) = H (signal_identity_text H p' q')" by (simp add: ids)
    then have same: "signal_identity H p q = signal_identity H p' q'"
      by (rule signal_identity_inj [OF assms(8)])
    then have "query_id H q = query_id H q'" by (simp add: signal_identity_def formal_identity_def)
    then have "q = q'" using query_id_inj [OF assms(1-4)] assms(7) by blast
    with same lin show "q = q' \<and> same_lineage s s'" by (simp add: signal_identity_def formal_identity_def)
  next
    assume "q = q' \<and> same_lineage s s'"
    then show "field ''signal_id'' s = field ''signal_id'' s'"
      using lin by (simp add: ids signal_identity_text_def signal_identity_def)
  qed
qed

section \<open>Answers about the past\<close>

definition query_service ::
  "(string \<Rightarrow> string) \<Rightarrow> (string \<Rightarrow> string \<Rightarrow> bool) \<Rightarrow> (string \<Rightarrow> bool) \<Rightarrow> (string \<Rightarrow> string list) \<Rightarrow>
   (string \<Rightarrow> snapshot option result) \<Rightarrow> (string \<Rightarrow> bool) \<Rightarrow> (string \<Rightarrow> artifact option result) option \<Rightarrow>
   claim_event list \<Rightarrow> formal_service" where
  "query_service H member marked claims snapshots ready artifacts tbl =
     \<lparr>fv_snapshots = snapshots, fv_ready = Some ready,
      fv_projector = Some (table_projector H member marked claims tbl), fv_artifacts = artifacts\<rparr>"

text \<open>The deny for a claim with a legacy event, and the first claim of a list whose answer changed to it.\<close>

definition lineage_deny :: "string \<Rightarrow> exn" where
  "lineage_deny cid = ValueError (''claim '' @ cid @ '' has incomplete historical lineage'')"

lemma mapM_denied:
  assumes "\<And>x. x \<in> set xs \<Longrightarrow> g x = f x \<or> P x \<and> g x = Inl (err x)"
  shows "mapM g xs = mapM f xs \<or> (\<exists>x \<in> set xs. P x \<and> mapM g xs = Inl (err x))"
  using assms
proof (induction xs)
  case (Cons x xs)
  have tail: "mapM g xs = mapM f xs \<or> (\<exists>x \<in> set xs. P x \<and> mapM g xs = Inl (err x))"
    by (rule Cons.IH) (use Cons.prems in simp)
  have head: "g x = f x \<or> P x \<and> g x = Inl (err x)" using Cons.prems by simp
  show ?case
  proof (cases "g x = f x")
    case True
    show ?thesis
    proof (cases "f x")
      case (Inr y)
      from tail show ?thesis
      proof (elim disjE bexE conjE)
        assume "mapM g xs = mapM f xs"
        with True show ?thesis by simp
      next
        fix z assume "z \<in> set xs" "P z" "mapM g xs = Inl (err z)"
        with True Inr show ?thesis by auto
      qed
    qed (simp add: True)
  next
    case False
    with head show ?thesis by simp
  qed
qed simp

lemma denied_claim:
  assumes "project H pj cid (fq_business_as_of q) (fq_knowledge_as_of q) (fq_availability_as_of q) (Some (fq_content_snapshot_id q)) =
    Inr (Some (denied cid (Some (fq_content_snapshot_id q))))"
  shows "formal_claim H contract_checksum pj q cid = Inl (lineage_deny cid)"
  by (simp add: formal_claim_def assms denied_def lineage_deny_def str_field_def field_def dict_get_def)

text \<open>
  C13. A formal answer is reproducible. Take an event table with distinct, non-empty hashes and a query about a snapshot
  each of whose claims has an event (whether or not its chain validates; a claim without one takes any first event, see
  the finding). After any further constructed events, for whatever claims, accepted or refused, that were not known at the knowledge clock of the query, its answer, be it the list of signals
  or the error, is the one it had before, except that a later event of a member claim that is marked legacy turns it
  into the explicit deny that names that claim.
\<close>

theorem formal_answer_reproducible:
  assumes "hashes_ok tbl" and "\<forall>cid \<in> set (claims (fq_content_snapshot_id q)). claim_rows cid tbl \<noteq> []"
    and "list_all (later_event H (instant_of (fq_knowledge_as_of q))) later"
  shows "formal_factor_signals H contract_checksum
      (query_service H member marked claims snapshots ready artifacts (foldl (event_step H) tbl later)) q =
    formal_factor_signals H contract_checksum (query_service H member marked claims snapshots ready artifacts tbl) q \<or>
   (\<exists>e \<in> set later. ce_legacy_history_incomplete e \<and> ce_claim_id e \<in> set (claims (fq_content_snapshot_id q)) \<and>
    formal_factor_signals H contract_checksum
      (query_service H member marked claims snapshots ready artifacts (foldl (event_step H) tbl later)) q =
      Inl (lineage_deny (ce_claim_id e)))"
proof -
  let ?pj = "table_projector H member marked claims" and ?sid = "fq_content_snapshot_id q"
  let ?ids = "sort (remdups (filter (\<lambda>c. c \<noteq> []) (claims ?sid)))" and ?new = "foldl (event_step H) tbl later"
  let ?P = "\<lambda>cid. cid \<in> set (claims ?sid) \<and> (\<exists>e \<in> set later. ce_claim_id e = cid \<and> ce_legacy_history_incomplete e)"
  let ?rest = "\<lambda>signals. try_bind signals (\<lambda>signals. Inr (List.map_filter (\<lambda>x. x) signals))"
  have members: "claims_for_snapshot (?pj t) sid = sort (remdups (filter (\<lambda>c. c \<noteq> []) (claims sid)))" for t sid
    by (simp add: claims_for_snapshot_def table_projector_def)
  have step: "formal_claim H contract_checksum (?pj ?new) q cid = formal_claim H contract_checksum (?pj tbl) q cid \<or>
      ?P cid \<and> formal_claim H contract_checksum (?pj ?new) q cid = Inl (lineage_deny cid)" if "cid \<in> set ?ids" for cid
  proof -
    have cid: "cid \<in> set (claims ?sid)" using that by simp
    with assms(2) have "claim_rows cid tbl \<noteq> []" by (rule bspec)
    from projection_reproducible [OF assms(1) this assms(3), of member marked claims "fq_business_as_of q"
        "fq_availability_as_of q" "Some ?sid"] show ?thesis
    proof (elim disjE conjE)
      assume legacy: "\<exists>e \<in> set later. ce_claim_id e = cid \<and> ce_legacy_history_incomplete e"
      assume "project H (?pj ?new) cid (fq_business_as_of q) (fq_knowledge_as_of q) (fq_availability_as_of q) (Some ?sid) =
        Inr (Some (denied cid (Some ?sid)))"
      from denied_claim [OF this] legacy cid show ?thesis by blast
    qed (simp add: formal_claim_def)
  qed
  have "mapM (formal_claim H contract_checksum (?pj ?new) q) ?ids = mapM (formal_claim H contract_checksum (?pj tbl) q) ?ids \<or>
      (\<exists>cid \<in> set ?ids. ?P cid \<and> mapM (formal_claim H contract_checksum (?pj ?new) q) ?ids = Inl (lineage_deny cid))"
    by (rule mapM_denied) (erule step)
  then show ?thesis
  proof (elim disjE bexE conjE)
    assume "mapM (formal_claim H contract_checksum (?pj ?new) q) ?ids = mapM (formal_claim H contract_checksum (?pj tbl) q) ?ids"
    then have "formal_factor_signals H contract_checksum (query_service H member marked claims snapshots ready artifacts ?new) q =
        formal_factor_signals H contract_checksum (query_service H member marked claims snapshots ready artifacts tbl) q"
      unfolding formal_factor_signals_def query_service_def validate_formal_snapshot_def governed_source_def
        formal_service.simps option.case Let_def members
      by simp
    then show ?thesis ..
  next
    fix cid e assume "mapM (formal_claim H contract_checksum (?pj ?new) q) ?ids = Inl (lineage_deny cid)"
    then have "formal_factor_signals H contract_checksum (query_service H member marked claims snapshots ready artifacts ?new) q =
          formal_factor_signals H contract_checksum (query_service H member marked claims snapshots ready artifacts tbl) q \<or>
        formal_factor_signals H contract_checksum (query_service H member marked claims snapshots ready artifacts ?new) q =
          Inl (lineage_deny cid)"
      unfolding formal_factor_signals_def query_service_def validate_formal_snapshot_def governed_source_def
        formal_service.simps option.case Let_def members
      by (simp split: try_bind_split option.split)
    moreover assume "cid \<in> set (claims ?sid)" "e \<in> set later" "ce_claim_id e = cid" "ce_legacy_history_incomplete e"
    ultimately show ?thesis by blast
  qed
qed

section \<open>Examples\<close>

text \<open>A claim with one lifecycle event, a published snapshot that holds it and a query that sees both.\<close>

definition signal_event_of :: "string option \<Rightarrow> string \<Rightarrow> pydt \<Rightarrow> claim_event" where
  "signal_event_of prev status known = constructed (\<lambda>s. s)
     ((example_event prev ''LIFECYCLE'')\<lparr>ce_known_from := Some known, ce_payload :=
       [(''status'', JStr status), (''artifact_id'', JStr ''lifecycle-1''), (''symbol'', JStr ''600519.SH''),
        (''occurrence_id'', JStr ''occ-1''), (''semantic_segment_id'', JStr ''seg-1''), (''support_count'', JInt 3),
        (''available_from'', JStr ''1970-01-01T00:00:00+00:00''), (''producer_commit'', JStr ''abc'')]\<rparr>)"

definition active_event :: claim_event where
  "active_event = signal_event_of None ''ACTIVE'' (Aware 0 0)"

definition expired_event :: claim_event where
  "expired_event = signal_event_of (Some (ce_event_hash active_event)) ''EXPIRED'' (Aware 9 0)"

definition signal_snapshot :: snapshot where
  "signal_snapshot = sample_snapshot (\<lambda>s. s) [(''source'', ''s1'')]"

definition signal_query_raw :: "string \<Rightarrow> formal_query" where
  "signal_query_raw rid = (example_query rid)\<lparr>fq_content_snapshot_id := cs_id signal_snapshot, fq_knowledge_as_of := Aware 5 0, fq_business_as_of := Aware 5 0\<rparr>"

definition signal_query :: "string \<Rightarrow> formal_query" where
  "signal_query rid = (signal_query_raw rid)\<lparr>fq_symbols := [''000001'', ''600519'']\<rparr>"

definition signal_service :: "claim_event list \<Rightarrow> formal_service" where
  "signal_service tbl =
     query_service (\<lambda>s. s) (\<lambda>_ _. True) (\<lambda>_. False) (\<lambda>_. [''c'']) (\<lambda>_. Inr (Some signal_snapshot)) (\<lambda>_. True) None tbl"

lemma signal_event_init:
  "ce_init (\<lambda>s. s) ((example_event prev ''LIFECYCLE'')\<lparr>ce_known_from := Some (Aware k 0), ce_payload := d\<rparr>) =
     Inr (constructed (\<lambda>s. s) ((example_event prev ''LIFECYCLE'')\<lparr>ce_known_from := Some (Aware k 0), ce_payload := d\<rparr>))"
  by (simp add: constructed_def ce_init_def example_event_def require_utc_def opt_after_def)

lemma signal_event_ok:
  "ce_init (\<lambda>s. s) (signal_event_of prev status (Aware k 0)) = Inr (signal_event_of prev status (Aware k 0))"
  "ce_event_hash (signal_event_of prev status (Aware k 0)) \<noteq> []"
  using ce_init_idem [OF signal_event_init] unfolding signal_event_of_def by blast+

lemma signal_event_fields:
  "ce_claim_id (signal_event_of prev status (Aware k 0)) = ''c''"
  "ce_event_type (signal_event_of prev status (Aware k 0)) = ''LIFECYCLE''"
  "ce_known_from (signal_event_of prev status (Aware k 0)) = Some (Aware k 0)"
  "\<not> ce_legacy_history_incomplete (signal_event_of prev status (Aware k 0))"
  "ce_previous_event_hash (signal_event_of prev status (Aware k 0)) = prev"
  "ce_visible_at (signal_event_of prev status (Aware k 0)) 5 5 7 \<longleftrightarrow> k \<le> 5"
  "ce_payload (signal_event_of prev status (Aware k 0)) =
     [(''status'', JStr status), (''artifact_id'', JStr ''lifecycle-1''), (''symbol'', JStr ''600519.SH''),
      (''occurrence_id'', JStr ''occ-1''), (''semantic_segment_id'', JStr ''seg-1''), (''support_count'', JInt 3),
      (''available_from'', JStr ''1970-01-01T00:00:00+00:00''), (''producer_commit'', JStr ''abc'')]"
  by (simp_all add: signal_event_of_def constructed_def ce_init_def example_event_def require_utc_def opt_after_def ce_visible_at_def)

lemma active_chain: "stored_chain (\<lambda>s. s) ''c'' [active_event] = Inr [active_event]"
  using signal_event_ok(1) [of None "''ACTIVE''" 0] event_of_own_row [OF signal_event_ok(1), of None "''ACTIVE''" 0]
  by (simp add: stored_chain_def claim_rows_def events_from_rows_def active_event_def signal_event_fields
      validate_event_chain_def chain_index_def chain_walk.simps)

lemma signal_snapshot_fields:
  "cs_artifact_ids signal_snapshot = [(''source'', ''s1'')]" "cs_source_artifact_id signal_snapshot = ''s1''"
  "cs_source_type signal_snapshot = ''WEB''" "cs_source_ref signal_snapshot = ''ref-1''" "cs_created_at signal_snapshot = Aware 0 0"
  "cs_source_content_hash signal_snapshot = ''h1''"
  "cs_artifact_root_hash signal_snapshot = compute_artifact_root_hash (\<lambda>s. s) [(''source'', ''s1'')]"
  "cs_id signal_snapshot = ''cs-'' @ take 32 (compute_content_snapshot_id (\<lambda>s. s) (snapshot_identity_payload signal_snapshot))"
  by (simp_all add: signal_snapshot_def sample_snapshot_def snapshot_draft_def sample_request_def str_get_def Let_def
      compute_content_snapshot_id_def snapshot_identity_payload_def)

lemma signal_snapshot_valid: "validate_formal_snapshot (\<lambda>s. s) (signal_service tbl) signal_snapshot (signal_query rid) = Inr ()"
proof -
  have "strip ''s1'' \<noteq> []" "strip ''WEB'' \<noteq> []" "strip ''ref-1'' \<noteq> []" "strip ''h1'' \<noteq> []" by code_simp+
  moreover have "cs_artifact_root_hash signal_snapshot \<noteq> []"
    by (simp add: signal_snapshot_fields compute_artifact_root_hash_def canonical_json_def jstr_dict_def)
  ultimately show ?thesis
    by (simp add: validate_formal_snapshot_def blank_source_field_def governed_source_def signal_service_def query_service_def
        signal_query_def signal_query_raw_def example_query_def query_utc_def ensure_def
        signal_snapshot_fields(1-6) flip: signal_snapshot_fields(7)) (simp add: signal_snapshot_fields(8))
qed

lemma signal_query_ok:
  assumes "strip rid \<noteq> []"
  shows "query_init (signal_query_raw rid) = Inr (signal_query rid)" and "query_clocks_ok (signal_query rid)"
proof -
  have "strip (cs_id signal_snapshot) \<noteq> []" unfolding signal_snapshot_fields(8) by (simp add: strip_def is_space_def in_range_def)
  moreover have "strip ''signal-policy.v1'' \<noteq> []" by code_simp
  ultimately show "query_init (signal_query_raw rid) = Inr (signal_query rid)"
    using assms by (simp add: query_init_ok query_ok_def signal_query_raw_def signal_query_def example_query_def example_symbols is_utc_def opt_after_def)
  have "datetime_ok (Aware 5 0)" "datetime_ok (Aware 7 0)" "datetime_ok (Aware 9 0)" by code_simp+
  then show "query_clocks_ok (signal_query rid)"
    by (simp add: query_clocks_ok_def signal_query_def signal_query_raw_def example_query_def)
qed

definition signal_state :: pydict where
  "signal_state = the (project_events ''c'' (Some (cs_id signal_snapshot)) [active_event])"

lemma active_projection:
  "project (\<lambda>s. s) (table_projector (\<lambda>s. s) (\<lambda>_ _. True) (\<lambda>_. False) (\<lambda>_. [''c'']) [active_event]) ''c''
     (Aware 5 0) (Aware 5 0) (Aware 7 0) (Some (cs_id signal_snapshot)) = Inr (Some signal_state)"
proof -
  have vis: "ce_visible_at active_event 5 5 7" by (simp add: active_event_def signal_event_fields)
  have leg: "\<not> ce_legacy_history_incomplete active_event" by (simp add: active_event_def signal_event_fields)
  have "project_events ''c'' (Some (cs_id signal_snapshot)) [active_event] \<noteq> None"
    by (auto simp: project_events_def Let_def split: option.splits)
  then show ?thesis
    using vis leg
    by (simp add: project_def query_utc_def is_history_incomplete_def table_events_for [OF active_chain] ensure_def signal_state_def)
      (simp add: table_projector_def)
qed

lemma active_is_lifecycle: "mentions_lifecycle ''LIFECYCLE''"
  by code_simp

lemma merge_event_get:
  "k \<noteq> ''event_hash'' \<Longrightarrow> k \<noteq> ''event_id'' \<Longrightarrow> k \<noteq> ''event_type'' \<Longrightarrow>
   dict_get k (merge_event state e) = dict_get k (dict_update state (ce_payload e))"
  by (simp add: merge_event_def update_other dict_update_def)

lemma signal_state_eq:
  "signal_state = finish_state (AList.update ''status'' (JStr ''ACTIVE'')
     (AList.update ''lifecycle_as_of'' (JObj [(''status'', JStr ''ACTIVE''), (''known_from'', JStr (utc_text (Aware 0 0))),
        (''artifact_id'', JStr ''lifecycle-1'')])
       (merge_event [(''claim_id'', JStr ''c''), (''content_snapshot_id'', jopt (Some (cs_id signal_snapshot)))] active_event))) False"
proof -
  have last: "last_lifecycle [active_event] = Some active_event"
    by (simp add: last_lifecycle_def active_event_def signal_event_fields active_is_lifecycle)
  have parts: "ce_known_from active_event = Some (Aware 0 0)" "\<not> ce_legacy_history_incomplete active_event"
    "payload_or ''status'' ''to_status'' (ce_payload active_event) = JStr ''ACTIVE''"
    "payload_or ''artifact_id'' ''lifecycle_artifact_id'' (ce_payload active_event) = JStr ''lifecycle-1''"
    by (simp_all add: active_event_def signal_event_fields payload_or_def dict_get_def)
  show ?thesis by (simp add: signal_state_def project_events_def last parts Let_def)
qed

lemma signal_state_get:
  "k \<notin> {''legacy_history_incomplete'', ''payload'', ''status'', ''lifecycle_as_of'', ''event_hash'', ''event_id'', ''event_type''} \<Longrightarrow>
   dict_get k signal_state = dict_get k (dict_update
     [(''claim_id'', JStr ''c''), (''content_snapshot_id'', jopt (Some (cs_id signal_snapshot)))] (ce_payload active_event))"
  by (simp add: signal_state_eq finish_state_def update_other merge_event_get)

lemma signal_state_fields:
  "dict_get ''claim_id'' signal_state = Some (JStr ''c'')" "dict_get ''occurrence_id'' signal_state = Some (JStr ''occ-1'')"
  "dict_get ''semantic_segment_id'' signal_state = Some (JStr ''seg-1'')" "dict_get ''symbol'' signal_state = Some (JStr ''600519.SH'')"
  "dict_get ''support_count'' signal_state = Some (JInt 3)" "dict_get ''available_from'' signal_state = Some (JStr ''1970-01-01T00:00:00+00:00'')"
  "dict_get ''producer_commit'' signal_state = Some (JStr ''abc'')" "dict_get ''legacy_history_incomplete'' signal_state = Some (JBool False)"
  "dict_get ''lifecycle_as_of'' signal_state = Some (JObj [(''status'', JStr ''ACTIVE''), (''known_from'', JStr (utc_text (Aware 0 0))), (''artifact_id'', JStr ''lifecycle-1'')])"
  "dict_get ''asserted_at'' signal_state = None" "dict_get ''source_available_at'' signal_state = None"
  "dict_get ''temporal_bindings'' signal_state = None" "dict_get ''evidence_refs'' signal_state = None"
  "dict_get ''source_availability_quality'' signal_state = None"
proof -
  show "dict_get ''legacy_history_incomplete'' signal_state = Some (JBool False)"
    "dict_get ''lifecycle_as_of'' signal_state = Some (JObj [(''status'', JStr ''ACTIVE''),
       (''known_from'', JStr (utc_text (Aware 0 0))), (''artifact_id'', JStr ''lifecycle-1'')])"
    by (simp_all add: signal_state_eq finish_state_def dict_get_def update_conv')
qed (simp add: signal_state_get dict_update_get active_event_def signal_event_fields dict_get_def [of _ "_ # _"])+

lemma signal_fields: "field k d = (case dict_get k d of None \<Rightarrow> JNull | Some v \<Rightarrow> v)"
  by (simp add: field_def)

lemma signal_texts:
  "utc_text (Aware 0 0) = ''1970-01-01T00:00:00Z''"
  "as_rfc3339 (JStr ''1970-01-01T00:00:00+00:00'') = Some ''1970-01-01T00:00:00Z''"
  "as_rfc3339 (JStr ''1970-01-01T00:00:00Z'') = Some ''1970-01-01T00:00:00Z''"
  "\<not> says_unknown (JStr ''ACTIVE'')" "\<not> says_unknown (JStr ''1970-01-01T00:00:00Z'')" "\<not> says_unknown (JStr ''lifecycle-1'')"
  by code_simp+

lemma signal_clock: "rfc3339_utc (JStr ''1970-01-01T00:00:00Z'') what = Inr (Aware 0 0)"
  using rfc3339_utc_text [of "Aware 0 0"] by (simp add: is_utc_def signal_texts) (code_simp)

lemma signal_query_clocks:
  "rfc3339_utc (JStr (utc_text (Aware 5 0))) what = Inr (Aware 5 0)"
  "rfc3339_utc (JStr (utc_text (Aware 7 0))) what = Inr (Aware 7 0)"
proof -
  have "datetime_ok (Aware 5 0)" "datetime_ok (Aware 7 0)" by code_simp+
  then show "rfc3339_utc (JStr (utc_text (Aware 5 0))) what = Inr (Aware 5 0)"
    "rfc3339_utc (JStr (utc_text (Aware 7 0))) what = Inr (Aware 7 0)" by (simp_all add: rfc3339_utc_text is_utc_def)
qed

lemma signal_copied:
  "copied_fields signal_state =
     [(''claim_id'', JStr ''c''), (''occurrence_id'', JStr ''occ-1''), (''semantic_segment_id'', JStr ''seg-1''),
      (''available_from'', JStr ''1970-01-01T00:00:00Z''), (''asserted_at'', JNull), (''source_available_at'', JNull)]"
  by (simp add: copied_fields_def formal_copied_def List.map_filter_simps signal_state_fields dict_default_def signal_fields
      dict_get_def [of _ "_ # _"] signal_texts Let_def) (simp add: as_rfc3339_def dict_get_def jopt_def)

definition active_signal :: "string \<Rightarrow> pydict" where
  "active_signal rid =
     [(''claim_id'', JStr ''c''), (''occurrence_id'', JStr ''occ-1''), (''semantic_segment_id'', JStr ''seg-1''),
      (''available_from'', JStr ''1970-01-01T00:00:00Z''), (''asserted_at'', JNull), (''source_available_at'', JNull),
      (''contract'', JStr formal_contract), (''contract_checksum'', JStr ''sum''),
      (''authority'', JStr authority_formal), (''formal_eligible'', JBool True),
      (''content_snapshot_id'', JStr (cs_id signal_snapshot)),
      (''business_as_of'', JStr (utc_text (Aware 5 0))), (''knowledge_as_of'', JStr (utc_text (Aware 5 0))),
      (''availability_as_of'', JStr (utc_text (Aware 7 0))),
      (''lifecycle_as_of'', JObj [(''status'', JStr ''ACTIVE''), (''known_from'', JStr ''1970-01-01T00:00:00Z''),
        (''artifact_id'', JStr ''lifecycle-1'')]),
      (''producer_commit'', JStr ''abc''), (''signal_policy_version'', JStr ''signal-policy.v1''),
      (''temporal_bindings'', JArr []), (''evidence_refs'', JArr []), (''source_availability_quality'', JStr ''EXACT''),
      (''signal_id'', JStr (formal_signal_id (\<lambda>s. s) (signal_identity (\<lambda>s. s) signal_state (signal_query rid))))]"

lemma active_signal_valid: "validate_signal_v5_1 ''sum'' None (active_signal rid) = Inr (active_signal rid)"
proof -
  have keys: "map fst (active_signal rid) =
      [''claim_id'', ''occurrence_id'', ''semantic_segment_id'', ''available_from'', ''asserted_at'', ''source_available_at'',
       ''contract'', ''contract_checksum'', ''authority'', ''formal_eligible'', ''content_snapshot_id'', ''business_as_of'',
       ''knowledge_as_of'', ''availability_as_of'', ''lifecycle_as_of'', ''producer_commit'', ''signal_policy_version'',
       ''temporal_bindings'', ''evidence_refs'', ''source_availability_quality'', ''signal_id'']"
    by (simp add: active_signal_def)
  have "filter (\<lambda>k. k \<in> set (map fst (active_signal rid))) trading_fields = []"
    "filter (\<lambda>k. k \<notin> set (map fst (active_signal rid))) formal_required = []"
    "filter (\<lambda>k. k \<notin> set formal_required) (map fst (active_signal rid)) = []"
    unfolding keys by code_simp+
  moreover have "cs_id signal_snapshot \<noteq> []" by (simp add: signal_snapshot_fields(8))
  ultimately show ?thesis
    unfolding validate_signal_v5_1_def Let_def
    by (simp add: sorted_set_def active_signal_def field_def dict_get_def ensure_def for_each_def formal_text_keys_def
        text_required_def formal_signal_id_def quality_known_def availability_qualities_def signal_clock signal_query_clocks
        known_by_def lifecycle_valid_def lifecycle_text_def is_array_def)
qed

lemma active_signal_built: "build_signal_v5_1 (\<lambda>s. s) ''sum'' signal_state (signal_query rid) = Inr (active_signal rid)"
proof -
  have lifecycle: "dict_or_empty (lifecycle_source signal_state) =
      Inr [(''status'', JStr ''ACTIVE''), (''known_from'', JStr ''1970-01-01T00:00:00Z''), (''artifact_id'', JStr ''lifecycle-1'')]"
    by (simp add: lifecycle_source_def dict_or_empty_def signal_fields signal_state_fields signal_texts)
  have parts: "payload_or ''status'' ''to_status''
        [(''status'', JStr ''ACTIVE''), (''known_from'', JStr ''1970-01-01T00:00:00Z''), (''artifact_id'', JStr ''lifecycle-1'')] = JStr ''ACTIVE''"
    "payload_or ''artifact_id'' ''lifecycle_artifact_id''
        [(''status'', JStr ''ACTIVE''), (''known_from'', JStr ''1970-01-01T00:00:00Z''), (''artifact_id'', JStr ''lifecycle-1'')] = JStr ''lifecycle-1''"
    "as_rfc3339 (field ''known_from''
        [(''status'', JStr ''ACTIVE''), (''known_from'', JStr ''1970-01-01T00:00:00Z''), (''artifact_id'', JStr ''lifecycle-1'')]) =
      Some ''1970-01-01T00:00:00Z''"
    by (simp_all add: payload_or_def field_def dict_get_def signal_texts)
  have query: "fq_business_as_of (signal_query rid) = Aware 5 0" "fq_knowledge_as_of (signal_query rid) = Aware 5 0"
    "fq_availability_as_of (signal_query rid) = Aware 7 0" "fq_content_snapshot_id (signal_query rid) = cs_id signal_snapshot"
    "fq_signal_policy_version (signal_query rid) = ''signal-policy.v1''"
    by (simp_all add: signal_query_def signal_query_raw_def example_query_def)
  have texts: "str_field ''claim_id'' [] signal_state = ''c''" "str_field ''occurrence_id'' [] signal_state = ''occ-1''"
    "str_field ''semantic_segment_id'' [] signal_state = ''seg-1''" "str_field ''producer_commit'' [] signal_state = ''abc''"
    "str_field ''source_availability_quality'' ''EXACT'' signal_state = ''EXACT''"
    "as_rfc3339 (field ''available_from'' signal_state) = Some ''1970-01-01T00:00:00Z''"
    "list_or_empty (field ''temporal_bindings'' signal_state) = Inr []" "list_or_empty (field ''evidence_refs'' signal_state) = Inr []"
    by (simp_all add: str_field_def signal_fields signal_state_fields signal_texts list_or_empty_def)
  have "dict_update (copied_fields signal_state) (drop 6 (active_signal rid)) = active_signal rid"
    by (simp add: dict_update_def signal_copied active_signal_def)
  then show ?thesis
    unfolding build_signal_v5_1_def lifecycle Let_def try_bind_simps parts texts query
    by (simp add: ensure_def signal_texts jopt_def active_signal_valid active_signal_def [symmetric]) (simp add: active_signal_def active_signal_valid [unfolded active_signal_def])
qed

lemma signal_in_window: "in_window (signal_query rid) (JStr ''1970-01-01T00:00:00+00:00'')"
proof -
  have "isoformat datetime_min \<le> ''1970-01-01T00:00:00+00:00''" "''1970-01-01T00:00:00+00:00'' \<le> isoformat (Aware 9 0)"
    by code_simp+
  then show ?thesis
    by (simp add: in_window_def window_start_def window_end_def signal_query_def signal_query_raw_def example_query_def)
qed

lemma active_claim:
  "formal_claim (\<lambda>s. s) ''sum'' (table_projector (\<lambda>s. s) (\<lambda>_ _. True) (\<lambda>_. False) (\<lambda>_. [''c'']) [active_event]) (signal_query rid) ''c'' =
     Inr (Some (active_signal rid))"
proof -
  have query: "fq_business_as_of (signal_query rid) = Aware 5 0" "fq_knowledge_as_of (signal_query rid) = Aware 5 0"
    "fq_availability_as_of (signal_query rid) = Aware 7 0" "fq_content_snapshot_id (signal_query rid) = cs_id signal_snapshot"
    "fq_symbols (signal_query rid) = [''000001'', ''600519'']" "min_support_of (signal_query rid) = 2"
    by (simp_all add: signal_query_def signal_query_raw_def example_query_def min_support_of_def)
  have root: "symbol_root ''600519.SH'' = ''600519''" "symbol_root ''600519'' = ''600519''" by code_simp+
  have texts: "str_field ''claim_id'' [] signal_state = ''c''" "str_field ''symbol'' x signal_state = ''600519.SH''" for x
    by (simp_all add: str_field_def signal_state_fields)
  show ?thesis
    by (simp add: formal_claim_def query active_projection texts root signal_fields signal_state_fields signal_in_window
        support_count_def py_int_def active_signal_built ensure_def)
qed

lemma active_answer: "formal_factor_signals (\<lambda>s. s) ''sum'' (signal_service [active_event]) (signal_query rid) = Inr [active_signal rid]"
proof -
  have query: "fq_content_snapshot_id (signal_query rid) = cs_id signal_snapshot"
    by (simp add: signal_query_def signal_query_raw_def example_query_def)
  have service: "fv_snapshots (signal_service tbl) = (\<lambda>_. Inr (Some signal_snapshot))" "fv_ready (signal_service tbl) = Some (\<lambda>_. True)"
    "fv_projector (signal_service tbl) = Some (table_projector (\<lambda>s. s) (\<lambda>_ _. True) (\<lambda>_. False) (\<lambda>_. [''c'']) tbl)" for tbl
    by (simp_all add: signal_service_def query_service_def)
  have members: "claims_for_snapshot (table_projector (\<lambda>s. s) (\<lambda>_ _. True) (\<lambda>_. False) (\<lambda>_. [''c'']) tbl) sid = [''c'']" for tbl sid
    by (simp add: claims_for_snapshot_def table_projector_def)
  show ?thesis
    unfolding formal_factor_signals_def query service Let_def
    by (simp add: signal_snapshot_valid members active_claim ensure_def List.map_filter_simps)
qed

theorem formal_signals_no_lookahead_witness:
  "formal_fact ''sum'' (signal_query ''r1'') (active_signal ''r1'') \<and> no_lookahead (signal_query ''r1'') (active_signal ''r1'')"
  using formal_signals_no_lookahead [OF signal_query_ok [OF example_rids(1)] active_answer] by simp

theorem formal_signal_id_identifies_witness:
  "field ''signal_id'' (active_signal ''r1'') \<noteq> field ''signal_id'' (active_signal ''r2'')"
proof -
  have "signal_query ''r1'' \<noteq> signal_query ''r2''" by (simp add: signal_query_def signal_query_raw_def example_query_def)
  then show ?thesis
    using formal_signal_id_identifies [OF signal_query_ok(1) [OF example_rids(1)] signal_query_ok(1) [OF example_rids(2)]
      signal_query_ok(2) [OF example_rids(1)] signal_query_ok(2) [OF example_rids(2)] active_signal_built active_signal_built] by simp
qed

text \<open>
  The lifecycle event that ends the claim is appended, known too late for the query: the answer stays. A legacy event
  of the claim, known as late, turns it into the deny.
\<close>

definition legacy_event :: claim_event where
  "legacy_event = constructed (\<lambda>s. s)
     ((example_event (Some (ce_event_hash active_event)) ''LIFECYCLE'')\<lparr>ce_known_from := None, ce_legacy_history_incomplete := True\<rparr>)"

lemma legacy_event_ok:
  "ce_init (\<lambda>s. s) legacy_event = Inr legacy_event" "ce_event_hash legacy_event \<noteq> []" "ce_claim_id legacy_event = ''c''"
  "ce_legacy_history_incomplete legacy_event" "later_event (\<lambda>s. s) k legacy_event"
proof -
  let ?raw = "(example_event (Some (ce_event_hash active_event)) ''LIFECYCLE'')\<lparr>ce_known_from := None, ce_legacy_history_incomplete := True\<rparr>"
  have i: "ce_init (\<lambda>s. s) ?raw = Inr legacy_event"
    by (simp add: legacy_event_def constructed_def ce_init_def example_event_def require_utc_def opt_after_def)
  from ce_init_idem [OF i] show init: "ce_init (\<lambda>s. s) legacy_event = Inr legacy_event" "ce_event_hash legacy_event \<noteq> []" by simp_all
  have fields: "ce_claim_id e' = ce_claim_id e \<and> ce_known_from e' = ce_known_from e \<and>
      ce_legacy_history_incomplete e' = ce_legacy_history_incomplete e" if "ce_init H e = Inr e'" for H e e'
    using that by (auto simp: ce_init_def try_bind_Inr_iff)
  from fields [OF i] show "ce_claim_id legacy_event = ''c''" "ce_legacy_history_incomplete legacy_event"
    "later_event (\<lambda>s. s) k legacy_event"
    using init by (simp_all add: example_event_def later_event_def)
qed

lemma legacy_event_denies:
  assumes "stored_chain (\<lambda>s. s) ''c'' tbl = Inr [active_event, legacy_event]"
  shows "formal_factor_signals (\<lambda>s. s) ''sum'' (signal_service tbl) (signal_query rid) = Inl (lineage_deny ''c'')"
proof -
  let ?pj = "table_projector (\<lambda>s. s) (\<lambda>_ _. True) (\<lambda>_. False) (\<lambda>_. [''c'']) tbl" and ?q = "signal_query rid"
  have query: "fq_business_as_of ?q = Aware 5 0" "fq_knowledge_as_of ?q = Aware 5 0" "fq_availability_as_of ?q = Aware 7 0"
    "fq_content_snapshot_id ?q = cs_id signal_snapshot"
    by (simp_all add: signal_query_def signal_query_raw_def example_query_def)
  have service: "fv_snapshots (signal_service tbl) = (\<lambda>_. Inr (Some signal_snapshot))" "fv_ready (signal_service tbl) = Some (\<lambda>_. True)"
    "fv_projector (signal_service tbl) = Some ?pj"
    by (simp_all add: signal_service_def query_service_def)
  have members: "claims_for_snapshot ?pj sid = [''c'']" for sid
    by (simp add: claims_for_snapshot_def table_projector_def)
  have fields: "pj_membership ?pj = Some (\<lambda>_ _. True)" "pj_history_incomplete ?pj = Some (\<lambda>_. False)"
    by (simp_all add: table_projector_def)
  have "is_history_incomplete (\<lambda>s. s) ?pj ''c'' = Inr True"
    using legacy_event_ok(4) by (simp add: is_history_incomplete_def table_events_for [OF assms] fields)
  then have "project (\<lambda>s. s) ?pj ''c'' (Aware 5 0) (Aware 5 0) (Aware 7 0) (Some (cs_id signal_snapshot)) =
      Inr (Some (denied ''c'' (Some (cs_id signal_snapshot))))"
    by (simp add: project_def query_utc_def fields denied_def)
  then have "formal_claim (\<lambda>s. s) ''sum'' ?pj ?q ''c'' = Inl (lineage_deny ''c'')"
    by (intro denied_claim) (simp only: query)
  then show ?thesis
    unfolding formal_factor_signals_def query service Let_def
    by (simp add: signal_snapshot_valid members ensure_def)
qed

theorem formal_answer_reproducible_witness:
  "formal_factor_signals (\<lambda>s. s) ''sum'' (signal_service (foldl (event_step (\<lambda>s. s)) [active_event] [expired_event])) (signal_query ''r1'') =
     Inr [active_signal ''r1'']"
proof -
  have h: "hashes_ok [active_event]" using signal_event_ok(2) [of None "''ACTIVE''" 0] by (simp add: hashes_ok_def active_event_def)
  have c: "claim_rows ''c'' [active_event] \<noteq> []" by (simp add: claim_rows_def active_event_def signal_event_fields)
  have l: "list_all (later_event (\<lambda>s. s) (instant_of (fq_knowledge_as_of (signal_query ''r1'')))) [expired_event]"
    using signal_event_ok by (simp add: later_event_def expired_event_def signal_event_fields signal_query_def signal_query_raw_def)
  have n: "\<not> ce_legacy_history_incomplete expired_event" by (simp add: expired_event_def signal_event_fields)
  from formal_answer_reproducible [OF h _ l, of "\<lambda>_. [''c'']" "''sum''" "\<lambda>_ _. True" "\<lambda>_. False" "\<lambda>_. Inr (Some signal_snapshot)" "\<lambda>_. True" None]
    c n active_answer [of "''r1''"]
  show ?thesis unfolding signal_service_def by simp
qed

text \<open>
  The window is compared as texts. A claim that became available a few microseconds before the start of the window is
  admitted when its time is written with a \<open>Z\<close>, and one that became available at the very end is not.
\<close>

lemma window_compares_texts:
  "in_window ((example_query ''r1'')\<lparr>fq_start := Some (Aware 5 0)\<rparr>) (JStr ''1970-01-01T00:00:00Z'') = in_window (example_query ''r1'') (JStr ''1970-01-01T00:00:00Z'')"
  "\<not> in_window ((example_query ''r1'')\<lparr>fq_end := Some (Aware 0 0)\<rparr>) (JStr ''1970-01-01T00:00:00Z'')"
proof -
  have "isoformat datetime_min \<le> ''1970-01-01T00:00:00Z''" by code_simp
  moreover have "isoformat (Aware 5 0) = ''1970-01-01T00:00:00.000005+00:00''" "isoformat (Aware 0 0) = ''1970-01-01T00:00:00+00:00''"
    by code_simp+
  moreover have "CHR ''+'' < CHR ''Z''" "CHR ''.'' < CHR ''Z''" by code_simp+
  ultimately have "isoformat (Aware 5 0) \<le> ''1970-01-01T00:00:00Z''" "isoformat datetime_min \<le> ''1970-01-01T00:00:00Z''"
    "\<not> ''1970-01-01T00:00:00Z'' \<le> isoformat (Aware 0 0)" by simp_all
  then show "in_window ((example_query ''r1'')\<lparr>fq_start := Some (Aware 5 0)\<rparr>) (JStr ''1970-01-01T00:00:00Z'') =
      in_window (example_query ''r1'') (JStr ''1970-01-01T00:00:00Z'')"
    "\<not> in_window ((example_query ''r1'')\<lparr>fq_end := Some (Aware 0 0)\<rparr>) (JStr ''1970-01-01T00:00:00Z'')"
    by (simp_all add: in_window_def window_start_def window_end_def example_query_def)
qed

end
