(* ===== verification/Spec2Isabelle.thy ===== *)
theory Spec2Isabelle
  imports Task_Repository Content_Task Signal_Outbox Claim_Events Verification_Job Initial_Verification Source_Head
    Effect_Safety Archive_Safety Snapshot_Service Artifact_Registry Content_Service Forecast_Review Publication_Unit Formal_Signal
begin

text \<open>
  A model of the core of stock_content, a service that turns videos and articles about stocks into verified claims,
  publishes immutable snapshots of them and answers point-in-time queries over what was known when. All paths are
  relative to \<open>src/src/stock_content/\<close>.

  \<^bold>\<open>How the program works.\<close> A worker claims a content task from a durable queue, opens a task run for it, and runs a
  pipeline of stages. Every stage that can be restored leaves its artifacts and a checkpoint in one fenced transaction,
  so that a later attempt resumes behind it. At the end the claims are planned for verification, a content snapshot is
  built over the artifacts and saved with its occurrences, lifecycle events and verification rows, and the head of its
  source is advanced. Jobs of the verification queue bring results later; results and claim state events are append
  only. A publication seals signals of a snapshot and queues them in the outbox in one unit of work. A formal query
  names a snapshot and three clocks and is answered from the event chains alone.

  \<^bold>\<open>Foundations.\<close>
  \<open>Prelude\<close>: exceptions as values of \<open>exn\<close>, the error monad, datetimes (naive or aware, in microseconds), truthiness,
  SQL tables as lists of rows with a key. \<open>Json\<close>: payloads and \<open>canonical_json\<close>; the text of a well-formed payload
  determines it up to the order of keys, which is what every content address rests on. \<open>Datetime\<close> and
  \<open>Iso_Datetime\<close>: \<open>isoformat\<close>, \<open>fromisoformat\<close> and their round trip. \<open>Redaction\<close>: \<open>domain/security_redaction.py\<close>,
  what is stored or logged passes through it. \<open>Lease\<close>: the locales \<open>fenced_lease\<close> and \<open>exclusive_lease\<close> (a holder
  whose token was superseded changes nothing), \<open>leased_queue\<close> and \<open>queue_table\<close> (rows that were claimed stay as claimed
  until the lease ends). They are interpreted on the task run, both task run stores, the content task queue, the
  projection dispatcher, the outbox and the verification queue.

  \<^bold>\<open>Task runs and queues.\<close>
  \<open>Task_Run\<close>: \<open>domain/task_run.py\<close>. \<open>Task_Repository\<close>: the SQL and the in-memory store and the service over them; the two
  stores are interpretations of one port and give the same answers as long as no run id is created twice. \<open>Content_Task\<close>:
  \<open>adapters/postgres/repositories/content_task_repository.py\<close>, fencing, retries and the commit of an effect.
  \<open>Fenced_Effects\<close> and \<open>Projection_Dispatcher\<close>: \<open>application/fenced_effects.py\<close> and
  \<open>application/knowledge_projection_dispatcher.py\<close>; \<open>Effect_Safety\<close> runs all three writers of the effect table together.
  \<open>Signal_Outbox\<close>: \<open>signal_outbox_repository.py\<close>.

  \<^bold>\<open>Artifacts, stages and the pipeline.\<close>
  \<open>Artifacts\<close>, \<open>Artifact_Codec\<close>, \<open>Artifact_Registry\<close>: \<open>domain/artifacts.py\<close>. \<open>Checkpoint\<close>: \<open>domain/checkpoint.py\<close>.
  \<open>Artifact_Store\<close>: \<open>artifact_repository.py\<close>, with \<open>Store_Safety\<close> for arbitrary runs of its methods and
  \<open>Artifact_Lineage\<close> for the parent graph. \<open>Stage_Runner\<close>, \<open>Pipeline\<close>, \<open>Content_Service\<close>:
  \<open>application/stage_runner.py\<close>, \<open>application/pipeline.py\<close> and \<open>process_next\<close> of \<open>application/service.py\<close>.

  \<^bold>\<open>Claims and verification.\<close>
  \<open>Claims\<close>: \<open>domain/claims.py\<close>. \<open>Verification_Job\<close>: \<open>verification_job_repository.py\<close>; \<open>Verification_Tables\<close>: the
  invariant of its tables and the result that a refresh stores (\<open>application/verification/transaction.py\<close>).
  \<open>Initial_Verification\<close>: \<open>domain/initial_verification.py\<close>, the plans that snapshots store, when a stored plan satisfies
  the closure check, and the invariant under all three writers of the tables. \<open>Claim_Events\<close>: \<open>domain/claim_state_event.py\<close> and its repository. \<open>Claim_Occurrence\<close>:
  \<open>domain/claim_occurrence.py\<close> and its repository. \<open>Lifecycle\<close> and \<open>Forecast_Review\<close>: the lifecycle ledger and the
  review of expired forecasts.

  \<^bold>\<open>Snapshots and publication.\<close>
  \<open>Snapshot\<close>, \<open>Snapshot_Service\<close>: \<open>domain/lineage.py\<close> and \<open>application/snapshot_service.py\<close>. \<open>Snapshot_Store\<close>,
  \<open>Source_Head\<close>, \<open>Snapshot_Bundle\<close>: \<open>snapshot_repository.py\<close>, the head with its writes by the store, by
  \<open>application/verification/closure.py\<close> and under the lock of a refresh in \<open>application/verification/transaction.py\<close>; \<open>Archive_Safety\<close> interleaves snapshot and artifact writers.
  \<open>Publication_Run\<close>: \<open>domain/publication_run.py\<close> and \<open>publication_repository.py\<close>. \<open>Publication_Unit\<close>:
  \<open>application/publication_unit_of_work.py\<close>, proved over the locale \<open>content_writer\<close>, whose laws \<open>save_bundle\<close> satisfies.

  \<^bold>\<open>Formal queries.\<close>
  \<open>Claim_History\<close>: \<open>application/historical_claim_projector.py\<close>. \<open>Formal_Query\<close>: \<open>domain/bitemporal_query.py\<close> and
  \<open>application/formal_signal_query.py\<close>. \<open>Formal_Signal\<close>: \<open>domain/signal_contract_v5_1.py\<close>, \<open>build_signal_v5_1\<close> of
  \<open>application/signal_service.py\<close> and \<open>formal_factor_signals\<close> of \<open>application/service.py\<close>.

  \<^bold>\<open>What the properties show.\<close> Fencing: a worker, dispatcher or job holder with a superseded token or an ended lease changes
  nothing, for every sequence of the modelled operations on the table; the fence of the dispatcher holds as long as the
  intent itself is not recorded again, which lowers its token (a finding). Once only: an effect, a receipt of a stage, a
  review and a sealed publication happen at most once; what an unfenced or failed attempt may still overwrite is said
  in the properties. Immutability: artifacts, snapshots, occurrences,
  results and event chains read back as they were first written, whatever is written later. Reproducibility: reads at
  past clocks, up to the whole answer of a formal query, do not change when later knowledge arrives, the explicit deny
  for a claim whose history is marked legacy aside, and no time that the contract bounds is later than the clocks. Identity: snapshots, queries and signals have equal ids exactly when they are equal,
  unless the hash collides on the two texts. Atomicity: a publication whose unit of work fails at any point leaves
  nothing behind. Failure: whatever a stage raises, a success or a failure that \<open>process_next\<close> reports agrees with the
  row of the queue, and it reports a lost lease only when the attempt raised the stale-lease error or the fence refused to
  record the failure.

  \<^bold>\<open>Termination.\<close> No function carries fuel. The lineage walk, the closure worklist and its depth first search terminate
  because the stored ids not yet met decrease; the walk along an event chain deletes an entry of its index in each step;
  the scanners of the redaction consume their input. Every other recursion is over a list. A loop that reads the
  clock (\<open>dispatch_due\<close>) takes the readings as a list.

  \<^bold>\<open>Parameters.\<close> SHA-256 is a function argument; hypotheses about it say only that it does not collide on the texts at
  hand. Stages, the search index, the signal contract of the outbox, projections into other services, environment
  variables, generated ids, wall clocks, the time zone database and the rows that \<open>SKIP LOCKED\<close> passes over are arguments.
  One repository method is one atomic step: its row locks and advisory locks make it so; where the code uses several
  transactions they are several steps, with the interference between them as an argument. Floats are the tokens that
  their \<open>repr\<close> prints, strings hold 8-bit characters, and character classes are those of ASCII.

  \<^bold>\<open>Not modelled.\<close> The rest of the transaction that completes a verification refresh
  (\<open>application/verification/transaction.py\<close>: its checks and the snapshot it derives) and the worker around it, though the
  head, the result and all repositories it writes are; the v4 signal policy and its contract, which compare floats
  and walk JSON schemas; knowledge bundles; replay and readiness reports; retention; the bodies of the pipeline stages,
  which call media tools and language models; the text heuristics over Chinese text; source resolvers, browser sessions
  and downloads; the HTTP interface, command line and polling loops; the plain repositories of videos, segments and
  knowledge units; migrations and scripts. Smaller omissions are
  named in the theories that make them.
\<close>

end
